(* ===== verification/Prelude.thy ===== *)
theory Prelude
  imports Main "HOL-Library.Word" "HOL-Library.Char_ord" "HOL-Library.List_Lexorder"
begin

text \<open>
  Shared vocabulary of the development: the machine types of the C++ sources, strings as
  byte sequences, little-endian numbers, and \<open>std::map\<close> as a strictly sorted association
  list whose \<open>emplace\<close> keeps the first binding and whose \<open>operator[]\<close> assignment
  overwrites. The collections declared here gather the facts the component theories hand to
  the simplifier and to the classical methods.
\<close>

named_theorems wr_intro \<open>rules: a writer emits exactly these bytes\<close>
named_theorems rd_intro \<open>rules: a reader consumes exactly these bytes\<close>
named_theorems rd_safe \<open>rules: a reader stays inside its buffer and returns\<close>
named_theorems cnt_simps \<open>equations for the byte counts\<close>

type_synonym byte = "8 word"
type_synonym u16 = "16 word"
type_synonym u32 = "32 word"
type_synonym u64 = "64 word"
type_synonym i32 = "32 word"
type_synonym i64 = "64 word"

section \<open>Strings as bytes\<close>

definition str_bytes :: "string \<Rightarrow> byte list" where
  "str_bytes s = map (\<lambda>c. word_of_nat (of_char c)) s"

definition bytes_str :: "byte list \<Rightarrow> string" where
  "bytes_str bs = map (\<lambda>b. char_of (unat b)) bs"

lemma length_str_bytes [simp]: "length (str_bytes s) = length s"
  by (simp add: str_bytes_def)

lemma length_bytes_str [simp]: "length (bytes_str bs) = length bs"
  by (simp add: bytes_str_def)

lemma unat_byte_of_char: "unat (word_of_nat (of_char c) :: byte) = of_char c"
  by (simp add: unat_of_nat take_bit_eq_mod)

lemma bytes_str_str_bytes [simp]: "bytes_str (str_bytes s) = s"
  by (simp add: bytes_str_def str_bytes_def comp_def unat_byte_of_char map_idI)

lemma str_bytes_empty [simp]: "str_bytes [] = []" "str_bytes s = [] \<longleftrightarrow> s = []"
  by (simp_all add: str_bytes_def)

section \<open>Little-endian numbers\<close>

fun le_bytes :: "nat \<Rightarrow> nat \<Rightarrow> byte list" where
  "le_bytes 0 n = []"
| "le_bytes (Suc k) n = word_of_nat (n mod 256) # le_bytes k (n div 256)"

fun le_val :: "byte list \<Rightarrow> nat" where
  "le_val [] = 0"
| "le_val (b # bs) = unat b + 256 * le_val bs"

lemma length_le_bytes [simp]: "length (le_bytes k n) = k"
  by (induction k arbitrary: n) auto

lemma unat_byte_mod: "unat (word_of_nat (n mod 256) :: byte) = n mod 256"
  by (simp add: unat_of_nat take_bit_eq_mod)

lemma le_val_le_bytes: "le_val (le_bytes k n) = n mod 256 ^ k"
proof (induction k arbitrary: n)
  case 0
  then show ?case by simp
next
  case (Suc k)
  have "n mod (256 * 256 ^ k) = 256 * (n div 256 mod 256 ^ k) + n mod 256"
    by (rule mod_mult2_eq)
  with Suc show ?case by (simp add: unat_byte_mod del: unat_of_nat)
qed

lemma le_val_bound: "le_val bs < 256 ^ length bs"
proof (induction bs)
  case Nil
  then show ?case by simp
next
  case (Cons b bs)
  have "unat b < 256" using unsigned_less [of b] by simp
  with Cons show ?case by simp
qed

lemma le_bytes_le_val: "le_bytes (length bs) (le_val bs) = bs"
proof (induction bs)
  case Nil
  then show ?case by simp
next
  case (Cons b bs)
  have "unat b < 256" using unsigned_less [of b] by simp
  then have "(unat b + 256 * le_val bs) mod 256 = unat b"
    and "(unat b + 256 * le_val bs) div 256 = le_val bs" by simp_all
  with Cons show ?case by simp
qed

lemma le_bytes_zero: "le_bytes k 0 = replicate k 0"
  by (induction k) auto

section \<open>std::map as a strictly sorted association list\<close>

definition map_ok :: "('k::linorder \<times> 'v) list \<Rightarrow> bool" where
  "map_ok m \<longleftrightarrow> sorted_wrt (<) (map fst m)"

text \<open>\<open>emplace\<close>: the binding is inserted in key order unless the key is present.\<close>

fun emplace :: "'k::linorder \<Rightarrow> 'v \<Rightarrow> ('k \<times> 'v) list \<Rightarrow> ('k \<times> 'v) list" where
  "emplace k v [] = [(k, v)]"
| "emplace k v ((k', v') # m) =
     (if k < k' then (k, v) # (k', v') # m
      else if k = k' then (k', v') # m
      else (k', v') # emplace k v m)"

text \<open>\<open>m[k] = v\<close>: the binding is inserted in key order, or overwritten.\<close>

fun assign :: "'k::linorder \<Rightarrow> 'v \<Rightarrow> ('k \<times> 'v) list \<Rightarrow> ('k \<times> 'v) list" where
  "assign k v [] = [(k, v)]"
| "assign k v ((k', v') # m) =
     (if k < k' then (k, v) # (k', v') # m
      else if k = k' then (k, v) # m
      else (k', v') # assign k v m)"

lemma fst_emplace: "set (map fst (emplace k v m)) = insert k (set (map fst m))"
  by (induction k v m rule: emplace.induct) auto

lemma fst_assign: "set (map fst (assign k v m)) = insert k (set (map fst m))"
  by (induction k v m rule: assign.induct) auto

lemma map_ok_Nil [simp]: "map_ok []"
  by (simp add: map_ok_def)

lemma map_ok_Cons: "map_ok ((k, v) # m) \<longleftrightarrow> (\<forall>k' \<in> fst ` set m. k < k') \<and> map_ok m"
  by (auto simp: map_ok_def)

lemma map_ok_emplace [intro]: "map_ok m \<Longrightarrow> map_ok (emplace k v m)"
proof (induction k v m rule: emplace.induct)
  case (2 k v k' v' m)
  then show ?case
    using fst_emplace [of k v m] by (auto simp: map_ok_Cons image_iff dest: less_trans)
qed (simp add: map_ok_Cons)

lemma map_ok_assign [intro]: "map_ok m \<Longrightarrow> map_ok (assign k v m)"
proof (induction k v m rule: assign.induct)
  case (2 k v k' v' m)
  then show ?case
    using fst_assign [of k v m] by (auto simp: map_ok_Cons image_iff dest: less_trans)
qed (simp add: map_ok_Cons)

lemma map_of_emplace:
  "map_of (emplace k v m) = (case map_of m k of None \<Rightarrow> (map_of m)(k \<mapsto> v) | Some _ \<Rightarrow> map_of m)"
  if "map_ok m"
  using that
proof (induction k v m rule: emplace.induct)
  case (2 k v k' v' m)
  have absent: "k < k' \<Longrightarrow> map_of m k = None"
    using "2.prems" by (force simp: map_ok_Cons map_of_eq_None_iff)
  from 2 absent show ?case
    by (auto simp: map_ok_Cons fun_eq_iff split: option.splits)
qed simp

lemma map_of_assign: "map_ok m \<Longrightarrow> map_of (assign k v m) = (map_of m)(k \<mapsto> v)"
  by (induction k v m rule: assign.induct) (auto simp: map_ok_Cons fun_eq_iff)

lemma emplace_last: "\<forall>k' \<in> fst ` set m. k' < k \<Longrightarrow> emplace k v m = m @ [(k, v)]"
  by (induction k v m rule: emplace.induct) auto

text \<open>Emplacing the bindings of a well-formed map in order rebuilds the map.\<close>

lemma fold_emplace_append:
  "map_ok (m @ xs) \<Longrightarrow> fold (\<lambda>(k, v). emplace k v) xs m = m @ xs"
proof (induction xs arbitrary: m)
  case Nil
  then show ?case by simp
next
  case (Cons x xs)
  obtain k v where x: "x = (k, v)" by fastforce
  from Cons.prems have "\<forall>k' \<in> fst ` set m. k' < k"
    by (auto simp: map_ok_def sorted_wrt_append x)
  then have "emplace k v m = m @ [(k, v)]" by (rule emplace_last)
  with Cons show ?case by (simp add: x)
qed

lemma fold_emplace_rebuild: "map_ok m \<Longrightarrow> fold (\<lambda>(k, v). emplace k v) m [] = m"
  using fold_emplace_append [of "[]" m] by simp

section \<open>Counters\<close>

lemma unat_inc:
  fixes x :: "'a::len word"
  assumes "x \<noteq> - 1"
  shows "unat (x + 1) = unat x + 1"
proof -
  have nz: "x + 1 \<noteq> 0" using assms by (simp add: eq_neg_iff_add_eq_0)
  then have "unat (x + 1) > 0" by (simp add: unat_gt_0)
  with unat_minus_one [OF nz] show ?thesis by simp
qed

lemma word_less_inc: "x \<noteq> - 1 \<Longrightarrow> x < x + 1" for x :: "'a::len word"
  by (simp add: word_less_nat_alt unat_inc)

section \<open>Loops that stop at the first match\<close>

text \<open>A \<open>for\<close> loop with a \<open>break\<close> at the first element that satisfies the test.\<close>

fun split_first :: "('a \<Rightarrow> bool) \<Rightarrow> 'a list \<Rightarrow> ('a list \<times> 'a \<times> 'a list) option" where
  "split_first P [] = None"
| "split_first P (x # xs) =
     (if P x then Some ([], x, xs)
      else map_option (\<lambda>(pre, y, post). (x # pre, y, post)) (split_first P xs))"

lemma split_first_None: "split_first P xs = None \<longleftrightarrow> (\<forall>x \<in> set xs. \<not> P x)"
  by (induction xs) auto

lemma split_first_Some:
  "split_first P xs = Some (pre, y, post) \<longleftrightarrow> xs = pre @ y # post \<and> P y \<and> (\<forall>x \<in> set pre. \<not> P x)"
  by (induction xs arbitrary: pre) (auto simp: Cons_eq_append_conv)

lemma split_first_find: "find P xs = map_option (\<lambda>(pre, y, post). y) (split_first P xs)"
  by (induction xs) (auto simp: option.map_comp comp_def split_def)

lemma find_SomeD: "find P xs = Some x \<Longrightarrow> x \<in> set xs \<and> P x"
  by (induction xs) (auto split: if_splits)

section \<open>Vectors of pointers\<close>

definition somes :: "'a option list \<Rightarrow> 'a list" where
  "somes ps = List.map_filter (\<lambda>p. p) ps"

lemma somes_simps [simp]: "somes [] = []" "somes (None # ps) = somes ps" "somes (Some x # ps) = x # somes ps"
  by (simp_all add: somes_def)

lemma set_somes [simp]: "x \<in> set (somes ps) \<longleftrightarrow> Some x \<in> set ps"
  by (induction ps) (auto split: option.splits simp: somes_def List.map_filter_def)

lemma somes_append [simp]: "somes (ps @ qs) = somes ps @ somes qs"
  by (simp add: somes_def List.map_filter_def)

lemma somes_map_Some [simp]: "somes (map Some xs) = xs"
  by (induction xs) auto

end
