(* ===== verification/Endian.thy ===== *)
theory Endian
  imports Prelude
begin

text \<open>
  \<open>framework/tlv/endian_converter.h\<close>: the conversions between host order and the
  little-endian wire order. A host is little- or big-endian; the model separates a value from
  its bytes in memory, so that what reaches the wire is \<open>host_mem h (HostToNet h v)\<close>.
  The integer conversions make the wire independent of the host; the one for \<open>double\<close>
  reverses the bytes on every host, and the one-byte \<open>NetToHost\<close> goes through
  \<open>le32toh\<close>. The codec theories use the little-endian host.
\<close>

datatype host = LittleHost | BigHost

section \<open>Values in memory\<close>

definition word_size :: "'a::len word \<Rightarrow> nat" where
  "word_size w = LENGTH('a) div 8"

definition host_mem :: "host \<Rightarrow> 'a::len word \<Rightarrow> byte list" where
  "host_mem h w =
     (case h of LittleHost \<Rightarrow> le_bytes (word_size w) (unat w)
              | BigHost \<Rightarrow> rev (le_bytes (word_size w) (unat w)))"

definition host_val :: "host \<Rightarrow> byte list \<Rightarrow> 'a::len word" where
  "host_val h bs =
     (case h of LittleHost \<Rightarrow> word_of_nat (le_val bs) | BigHost \<Rightarrow> word_of_nat (le_val (rev bs)))"

section \<open>The conversions\<close>

text \<open>\<open>htole16/32/64\<close> and \<open>le16/32/64toh\<close> of \<open>endian.h\<close>: a byte swap on a
  big-endian host, nothing on a little-endian one.\<close>

definition htole :: "host \<Rightarrow> 'a::len word \<Rightarrow> 'a word" where
  "htole h w =
     (case h of LittleHost \<Rightarrow> w
              | BigHost \<Rightarrow> word_of_nat (le_val (rev (le_bytes (word_size w) (unat w)))))"

definition HostToNet :: "host \<Rightarrow> 'a::len word \<Rightarrow> 'a word" where
  "HostToNet h w = htole h w"

definition NetToHost :: "host \<Rightarrow> 'a::len word \<Rightarrow> 'a word" where
  "NetToHost h w = htole h w"

definition HostToNet_i8 :: "host \<Rightarrow> byte \<Rightarrow> byte" where
  "HostToNet_i8 h w = w"

definition NetToHost_i8 :: "host \<Rightarrow> byte \<Rightarrow> byte" where
  "NetToHost_i8 h w = ucast (htole h (scast w :: u32))"

definition NetToHost_u8 :: "host \<Rightarrow> byte \<Rightarrow> byte" where
  "NetToHost_u8 h w = ucast (htole h (ucast w :: u32))"

definition HostToNet_double :: "host \<Rightarrow> u64 \<Rightarrow> u64" where
  "HostToNet_double h w = host_val h (rev (host_mem h w))"

definition NetToHost_double :: "host \<Rightarrow> u64 \<Rightarrow> u64" where
  "NetToHost_double h w = HostToNet_double h w"

section \<open>Laws\<close>

lemma length_host_mem [simp]: "length (host_mem h w) = word_size w"
  by (cases h) (simp_all add: host_mem_def)

lemma word_size_simps [simp]:
  "word_size (x8 :: byte) = 1" "word_size (x16 :: u16) = 2"
  "word_size (x32 :: u32) = 4" "word_size (x64 :: u64) = 8"
  by (simp_all add: word_size_def)

definition whole_bytes :: "'a::len itself \<Rightarrow> bool" where
  "whole_bytes t \<longleftrightarrow> 8 dvd LENGTH('a)"

lemma whole_bytes_simps [simp]:
  "whole_bytes TYPE(8)" "whole_bytes TYPE(16)" "whole_bytes TYPE(32)" "whole_bytes TYPE(64)"
  by (simp_all add: whole_bytes_def)

lemma byte_capacity:
  assumes "whole_bytes TYPE('a::len)"
  shows "(256::nat) ^ word_size (w :: 'a word) = 2 ^ LENGTH('a)"
proof -
  have "(256::nat) = 2 ^ 8" by simp
  then have "(256::nat) ^ word_size w = 2 ^ (8 * word_size w)" by (simp only: power_mult)
  also have "8 * word_size w = LENGTH('a)"
    using assms by (simp add: word_size_def whole_bytes_def)
  finally show ?thesis .
qed

lemma unat_le_bytes:
  assumes "whole_bytes TYPE('a::len)"
  shows "le_val (le_bytes (word_size w) (unat w)) = unat (w :: 'a word)"
  using byte_capacity [OF assms, of w] unsigned_less [of w]
  by (simp add: le_val_le_bytes)

lemma le_val_word:
  assumes "whole_bytes TYPE('a::len)" and "length bs = word_size (w :: 'a word)"
  shows "unat (word_of_nat (le_val bs) :: 'a word) = le_val bs"
proof -
  have "le_val bs < 2 ^ LENGTH('a)"
    using le_val_bound [of bs] byte_capacity [OF assms(1), of w] assms(2) by simp
  then show ?thesis by (simp add: unat_of_nat take_bit_eq_mod)
qed

lemma host_val_host_mem:
  assumes "whole_bytes TYPE('a::len)"
  shows "host_val h (host_mem h w) = (w :: 'a word)"
  using unat_le_bytes [OF assms, of w] by (cases h) (simp_all add: host_val_def host_mem_def)

lemma host_mem_host_val:
  assumes "whole_bytes TYPE('a::len)" and "length bs = word_size (w :: 'a word)"
  shows "host_mem h (host_val h bs :: 'a word) = bs"
proof (cases h)
  case LittleHost
  with le_val_word [OF assms] assms(2) show ?thesis
    using le_bytes_le_val [of bs] by (simp add: host_mem_def host_val_def word_size_def)
next
  case BigHost
  have "length (rev bs) = word_size w" using assms(2) by simp
  from le_val_word [OF assms(1) this] BigHost assms(2) show ?thesis
    using le_bytes_le_val [of "rev bs"] by (simp add: host_mem_def host_val_def word_size_def)
qed

text \<open>What an integer puts on the wire is the same on every host.\<close>

lemma host_mem_HostToNet:
  assumes "whole_bytes TYPE('a::len)"
  shows "host_mem h (HostToNet h w) = le_bytes (word_size w) (unat (w :: 'a word))"
proof (cases h)
  case LittleHost
  then show ?thesis by (simp add: host_mem_def HostToNet_def htole_def)
next
  case BigHost
  let ?r = "rev (le_bytes (word_size w) (unat w))"
  have len: "length ?r = word_size w" by simp
  have "le_bytes (length ?r) (le_val ?r) = ?r" by (rule le_bytes_le_val)
  with BigHost le_val_word [OF assms len] show ?thesis
    by (simp add: host_mem_def HostToNet_def htole_def word_size_def)
qed

lemma NetToHost_HostToNet:
  assumes "whole_bytes TYPE('a::len)"
  shows "NetToHost h (HostToNet h w) = (w :: 'a word)"
proof (cases h)
  case LittleHost
  then show ?thesis by (simp add: NetToHost_def HostToNet_def htole_def)
next
  case BigHost
  have "le_bytes (word_size w) (unat (HostToNet h w)) = rev (le_bytes (word_size w) (unat w))"
    using host_mem_HostToNet [OF assms, of h w] BigHost
    by (simp add: host_mem_def word_size_def flip: rev_swap)
  with BigHost unat_le_bytes [OF assms, of w] show ?thesis
    by (simp add: NetToHost_def htole_def word_size_def)
qed

lemma NetToHost_double_inverse: "NetToHost_double h (HostToNet_double h w) = w"
proof -
  have len: "length (rev (host_mem h w)) = word_size w" by simp
  from host_mem_host_val [OF _ len, of h]
  have "host_mem h (host_val h (rev (host_mem h w)) :: u64) = rev (host_mem h w)" by simp
  then show ?thesis
    using host_val_host_mem [of h w]
    by (simp add: NetToHost_double_def HostToNet_double_def)
qed

text \<open>A double goes out with its bytes reversed relative to the host's own order.\<close>

lemma host_mem_HostToNet_double: "host_mem h (HostToNet_double h w) = rev (host_mem h w)"
  unfolding HostToNet_double_def
  by (rule host_mem_host_val [where w = w]) simp_all

section \<open>The little-endian host of the codec\<close>

lemma low_byte_of_extended: "ucast (scast b :: u32) = (b :: byte)" "ucast (ucast b :: u32) = (b :: byte)"
  by (rule bit_word_eqI; auto simp: bit_simps)+

lemma little_host_simps [simp]:
  "HostToNet LittleHost w = w" "NetToHost LittleHost w = w"
  "NetToHost_i8 LittleHost b = b" "NetToHost_u8 LittleHost b = b"
  by (simp_all add: HostToNet_def NetToHost_def htole_def NetToHost_i8_def NetToHost_u8_def
      low_byte_of_extended)

end
