(* ===== verification/External.thy ===== *)
theory External
  imports Endian
begin

text \<open>
  The code the pasteboard calls but does not contain, as parameters. One record collects
  them: the unified data management framework (identifiers of data types and the keys of
  \<open>UDMF::Object\<close>), the marshalling of \<open>AAFwk::Want\<close>, \<open>AAFwk::WantParams\<close>,
  \<open>OHOS::Uri\<close> and \<open>Media::PixelMap\<close>, and the limit of \<open>memcpy_s\<close>. Wants, want
  parameters and pixel maps are opaque handles. Nothing is assumed here: a theorem that relies
  on documented behaviour of one of them says so in its hypotheses, by the predicates below.
\<close>

type_synonym want = nat
type_synonym want_params = nat
type_synonym pixel_map = nat
type_synonym uri = string

text \<open>\<open>UDMF::ValueType\<close>, its alternatives in the order of the variant; a null
  \<open>shared_ptr\<close> is \<open>None\<close>. The map of a \<open>UDMF::Object\<close> is sorted by key.\<close>

datatype entry_value =
    VMonostate
  | VInt32 i32
  | VInt64 i64
  | VDouble u64
  | VBool bool
  | VString string
  | VBytes "byte list"
  | VWant "want option"
  | VPixelMap "pixel_map option"
  | VObject "(string \<times> entry_value) list option"
  | VNullptr

type_synonym object = "(string \<times> entry_value) list"

record ext =
  rsize_max :: nat \<comment> \<open>largest destination \<open>memcpy_s\<close> accepts\<close>
  GetUtdIdFromUtdEnum :: "i32 \<Rightarrow> string"
  GetUtdEnumFromUtdId :: "string \<Rightarrow> i32"
  UD_BUTT :: i32
  PLAIN_TEXT :: i32
  HYPERLINK :: i32
  HTML :: i32
  FILE :: i32
  IMAGE :: i32
  VIDEO :: i32
  AUDIO :: i32
  FOLDER :: i32
  FILE_URI :: i32
  SYSTEM_DEFINED_PIXEL_MAP :: i32
  OPENHARMONY_WANT :: i32
  APPLICATION_DEFINED_RECORD :: i32
  CONTENT :: string
  PLAIN_CONTENT :: string
  HTML_CONTENT :: string
  URL :: string
  FILE_URI_PARAM :: string
  UNIFORM_DATA_TYPE :: string
  PIXEL_MAP :: string
  ARRAY_BUFFER :: string
  GetValue_string :: "object \<Rightarrow> string \<Rightarrow> string option" \<comment> \<open>\<open>Object::GetValue\<close>: \<open>None\<close> for false\<close>
  GetValue_bytes :: "object \<Rightarrow> string \<Rightarrow> byte list option"
  GetValue_int64 :: "object \<Rightarrow> string \<Rightarrow> i64 option"
  want_marshal :: "want \<Rightarrow> byte list" \<comment> \<open>empty when \<open>Marshalling\<close> fails\<close>
  want_unmarshal :: "byte list \<Rightarrow> want option"
  params_marshal :: "want_params \<Rightarrow> byte list"
  params_unmarshal :: "byte list \<Rightarrow> want_params option"
  uri_marshal :: "uri \<Rightarrow> byte list"
  uri_unmarshal :: "byte list \<Rightarrow> uri option"
  mk_uri :: "string \<Rightarrow> uri" \<comment> \<open>\<open>Uri(s).ToString()\<close>\<close>
  pixel_encode :: "pixel_map \<Rightarrow> byte list option" \<comment> \<open>\<open>EncodeTlv\<close>\<close>
  pixel_decode :: "byte list \<Rightarrow> pixel_map option" \<comment> \<open>\<open>DecodeTlv\<close>\<close>

section \<open>Documented behaviour, as predicates\<close>

definition want_codec_ok :: "ext \<Rightarrow> want \<Rightarrow> bool" where
  "want_codec_ok E w \<longleftrightarrow> want_marshal E w \<noteq> [] \<and> want_unmarshal E (want_marshal E w) = Some w"

definition params_codec_ok :: "ext \<Rightarrow> want_params \<Rightarrow> bool" where
  "params_codec_ok E p \<longleftrightarrow>
     params_marshal E p \<noteq> [] \<and> params_unmarshal E (params_marshal E p) = Some p"

definition uri_codec_ok :: "ext \<Rightarrow> uri \<Rightarrow> bool" where
  "uri_codec_ok E u \<longleftrightarrow> uri_marshal E u \<noteq> [] \<and> uri_unmarshal E (uri_marshal E u) = Some u"

definition pixel_codec_ok :: "ext \<Rightarrow> pixel_map \<Rightarrow> bool" where
  "pixel_codec_ok E p \<longleftrightarrow>
     (\<exists>bs. pixel_encode E p = Some bs \<and> bs \<noteq> [] \<and> pixel_decode E bs = Some p)"

text \<open>The data type enumerators the code compares are pairwise different, and the identifier of
  each leads back to it.\<close>

definition utd_enums :: "ext \<Rightarrow> i32 list" where
  "utd_enums E = [UD_BUTT E, PLAIN_TEXT E, HYPERLINK E, HTML E, FILE E, IMAGE E, VIDEO E, AUDIO E,
     FOLDER E, FILE_URI E, SYSTEM_DEFINED_PIXEL_MAP E, OPENHARMONY_WANT E,
     APPLICATION_DEFINED_RECORD E]"

definition utd_ok :: "ext \<Rightarrow> bool" where
  "utd_ok E \<longleftrightarrow> distinct (utd_enums E) \<and>
     (\<forall>e \<in> set (tl (utd_enums E)). GetUtdEnumFromUtdId E (GetUtdIdFromUtdEnum E e) = e)"

definition object_keys_ok :: "ext \<Rightarrow> bool" where
  "object_keys_ok E \<longleftrightarrow> distinct [CONTENT E, PLAIN_CONTENT E, HTML_CONTENT E, URL E,
     FILE_URI_PARAM E, UNIFORM_DATA_TYPE E, PIXEL_MAP E, ARRAY_BUFFER E]"

text \<open>\<open>Object::GetValue\<close> finds the key and takes the value if it has the asked type.\<close>

definition object_get_ok :: "ext \<Rightarrow> bool" where
  "object_get_ok E \<longleftrightarrow>
     (\<forall>m k. GetValue_string E m k = (case map_of m k of Some (VString s) \<Rightarrow> Some s | _ \<Rightarrow> None)) \<and>
     (\<forall>m k. GetValue_bytes E m k = (case map_of m k of Some (VBytes s) \<Rightarrow> Some s | _ \<Rightarrow> None)) \<and>
     (\<forall>m k. GetValue_int64 E m k = (case map_of m k of Some (VInt64 s) \<Rightarrow> Some s | _ \<Rightarrow> None))"

section \<open>A concrete instance\<close>

text \<open>Used by the witnesses: identifiers in the documented style, and handles marshalled as a
  marker byte followed by their value.\<close>

definition sample_ids :: "(i32 \<times> string) list" where
  "sample_ids = [(2, ''general.plain-text''), (4, ''general.hyperlink''), (3, ''general.html''),
     (7, ''general.file''), (8, ''general.image''), (9, ''general.video''), (10, ''general.audio''),
     (11, ''general.folder''), (12, ''general.file-uri''), (13, ''openharmony.pixel-map''),
     (14, ''openharmony.want''), (15, ''ApplicationDefinedType'')]"

definition sample_ext :: ext where
  "sample_ext = \<lparr>rsize_max = 2147483647,
     GetUtdIdFromUtdEnum = (\<lambda>e. case map_of sample_ids e of Some s \<Rightarrow> s | None \<Rightarrow> []),
     GetUtdEnumFromUtdId = (\<lambda>s. case map_of (map prod.swap sample_ids) s of Some e \<Rightarrow> e | None \<Rightarrow> 99),
     UD_BUTT = 99, PLAIN_TEXT = 2, HYPERLINK = 4, HTML = 3, FILE = 7, IMAGE = 8, VIDEO = 9,
     AUDIO = 10, FOLDER = 11, FILE_URI = 12, SYSTEM_DEFINED_PIXEL_MAP = 13, OPENHARMONY_WANT = 14,
     APPLICATION_DEFINED_RECORD = 15, CONTENT = ''textContent'', PLAIN_CONTENT = ''plainContent'',
     HTML_CONTENT = ''htmlContent'', URL = ''url'', FILE_URI_PARAM = ''oriUri'',
     UNIFORM_DATA_TYPE = ''uniformDataType'', PIXEL_MAP = ''pixelMap'',
     ARRAY_BUFFER = ''arrayBuffer'',
     GetValue_string = (\<lambda>m k. case map_of m k of Some (VString s) \<Rightarrow> Some s | _ \<Rightarrow> None),
     GetValue_bytes = (\<lambda>m k. case map_of m k of Some (VBytes s) \<Rightarrow> Some s | _ \<Rightarrow> None),
     GetValue_int64 = (\<lambda>m k. case map_of m k of Some (VInt64 s) \<Rightarrow> Some s | _ \<Rightarrow> None),
     want_marshal = (\<lambda>w. [1, word_of_nat w]),
     want_unmarshal = (\<lambda>bs. case bs of [_, b] \<Rightarrow> Some (unat b) | _ \<Rightarrow> None),
     params_marshal = (\<lambda>w. [2, word_of_nat w]),
     params_unmarshal = (\<lambda>bs. case bs of [_, b] \<Rightarrow> Some (unat b) | _ \<Rightarrow> None),
     uri_marshal = (\<lambda>u. 3 # str_bytes u),
     uri_unmarshal = (\<lambda>bs. case bs of [] \<Rightarrow> None | _ # cs \<Rightarrow> Some (bytes_str cs)),
     mk_uri = (\<lambda>s. s),
     pixel_encode = (\<lambda>p. Some [4, word_of_nat p]),
     pixel_decode = (\<lambda>bs. case bs of [_, b] \<Rightarrow> Some (unat b) | _ \<Rightarrow> None)\<rparr>"

lemma sample_utd_ok: "utd_ok sample_ext"
  by (simp add: utd_ok_def utd_enums_def sample_ext_def sample_ids_def)

lemma sample_object_get_ok: "object_get_ok sample_ext"
  by (simp add: object_get_ok_def sample_ext_def)

lemma sample_object_keys_ok: "object_keys_ok sample_ext"
  by (simp add: object_keys_ok_def sample_ext_def)

lemma sample_codecs_ok:
  "w < 256 \<Longrightarrow> want_codec_ok sample_ext w" "w < 256 \<Longrightarrow> params_codec_ok sample_ext w"
  "w < 256 \<Longrightarrow> pixel_codec_ok sample_ext w" "uri_codec_ok sample_ext u"
  by (simp_all add: want_codec_ok_def params_codec_ok_def pixel_codec_ok_def uri_codec_ok_def
      sample_ext_def unat_of_nat take_bit_eq_mod)

end
