(* ===== verification/Tlv_Write.thy ===== *)
theory Tlv_Write
  imports External
begin

text \<open>
  \<open>framework/tlv\<close>, the writing half: \<open>TLVBuffer\<close>, \<open>TLVCountable\<close> and
  \<open>WriteOnlyBuffer\<close>. A write is a state transformer on the buffer that returns the C++
  \<open>bool\<close>. Raw stores into \<open>data_\<close> go through \<open>poke\<close>, which raises the ghost flag
  \<open>oob\<close> where the C++ would store outside the vector. \<open>size_t\<close> values are natural
  numbers; the implicit narrowing to \<open>uint32_t\<close> in \<open>HasExpectBuffer\<close> and \<open>WriteHead\<close>
  and the wrap-around in \<open>Skip\<close> are written out.
\<close>

section \<open>Buffers (tlv\_buffer.h)\<close>

record TLVHead =
  head_tag :: u16
  head_len :: u32

definition sizeof_TLVHead :: nat where
  "sizeof_TLVHead = 6"

definition TAG_VECTOR_ITEM :: u16 where "TAG_VECTOR_ITEM = 0"
definition TAG_MAP_KEY :: u16 where "TAG_MAP_KEY = 1"
definition TAG_MAP_VALUE :: u16 where "TAG_MAP_VALUE = 2"
definition TAG_MAP_VALUE_TYPE :: u16 where "TAG_MAP_VALUE_TYPE = 3"
definition TAG_VARIANT_INDEX :: u16 where "TAG_VARIANT_INDEX = 4"
definition TAG_VARIANT_VALUE :: u16 where "TAG_VARIANT_VALUE = 5"
definition TAG_BUFF :: u16 where "TAG_BUFF = 256"

record TLVBuffer =
  total :: nat
  cursor :: nat

definition Skip :: "nat \<Rightarrow> ('z TLVBuffer_scheme) \<Rightarrow> bool \<times> ('z TLVBuffer_scheme)" where
  "Skip n b =
     (let room = (if cursor b \<le> total b then total b - cursor b
                  else total b + 2 ^ 64 - cursor b)
      in if n > room then (False, b) else (True, b\<lparr>cursor := cursor b + n\<rparr>))"

definition IsEnough :: "('z TLVBuffer_scheme) \<Rightarrow> bool" where
  "IsEnough b \<longleftrightarrow> cursor b < total b"

definition HasExpectBuffer :: "nat \<Rightarrow> ('z TLVBuffer_scheme) \<Rightarrow> bool" where
  "HasExpectBuffer n b \<longleftrightarrow> cursor b \<le> total b \<and> n mod 2 ^ 32 \<le> total b - cursor b"

section \<open>Values\<close>

datatype detail_value =
    DInt32 i32
  | DInt64 i64
  | DBool bool
  | DDouble u64
  | DString string
  | DBytes "byte list"

type_synonym details = "(string \<times> detail_value) list"
type_synonym item_data = "(string \<times> byte list) list"

fun variant_index :: "entry_value \<Rightarrow> nat" where
  "variant_index VMonostate = 0"
| "variant_index (VInt32 _) = 1"
| "variant_index (VInt64 _) = 2"
| "variant_index (VDouble _) = 3"
| "variant_index (VBool _) = 4"
| "variant_index (VString _) = 5"
| "variant_index (VBytes _) = 6"
| "variant_index (VWant _) = 7"
| "variant_index (VPixelMap _) = 8"
| "variant_index (VObject _) = 9"
| "variant_index VNullptr = 10"

fun detail_index :: "detail_value \<Rightarrow> nat" where
  "detail_index (DInt32 _) = 0"
| "detail_index (DInt64 _) = 1"
| "detail_index (DBool _) = 2"
| "detail_index (DDouble _) = 3"
| "detail_index (DString _) = 4"
| "detail_index (DBytes _) = 5"

text \<open>\<open>TLVUtils::Parcelable2Raw\<close> gives the parcel's bytes, and an empty region for a null
  pointer or a failed \<open>Marshalling\<close>; \<open>TLVUtils::PixelMap2Vector\<close> likewise.\<close>

definition Parcelable2Raw :: "('p \<Rightarrow> byte list) \<Rightarrow> 'p option \<Rightarrow> byte list" where
  "Parcelable2Raw marshal p = (case p of None \<Rightarrow> [] | Some x \<Rightarrow> marshal x)"

definition PixelMap2Vector :: "ext \<Rightarrow> pixel_map option \<Rightarrow> byte list" where
  "PixelMap2Vector E p =
     (case p of None \<Rightarrow> [] | Some x \<Rightarrow> (case pixel_encode E x of None \<Rightarrow> [] | Some bs \<Rightarrow> bs))"

section \<open>Counting (tlv\_countable.h)\<close>

definition Count_basic :: "nat \<Rightarrow> nat" where
  "Count_basic n = n + sizeof_TLVHead"

definition Count_string :: "string \<Rightarrow> nat" where
  "Count_string s = length s + sizeof_TLVHead"

definition Count_RawMem :: "byte list \<Rightarrow> nat" where
  "Count_RawMem raw = length raw + sizeof_TLVHead"

definition Count_vector_u8 :: "byte list \<Rightarrow> nat" where
  "Count_vector_u8 bs = sizeof_TLVHead + length bs"

definition Count_writeable :: "nat \<Rightarrow> nat" where
  "Count_writeable countTLV = countTLV + sizeof_TLVHead"

definition Count_ptr :: "('a \<Rightarrow> nat) \<Rightarrow> 'a option \<Rightarrow> nat" where
  "Count_ptr cnt p = (case p of None \<Rightarrow> 0 | Some x \<Rightarrow> cnt x)"

definition Count_vector :: "('a \<Rightarrow> nat) \<Rightarrow> 'a list \<Rightarrow> nat" where
  "Count_vector cnt xs = fold (\<lambda>x n. n + cnt x) xs sizeof_TLVHead"

definition Count_item_map :: "item_data \<Rightarrow> nat" where
  "Count_item_map m =
     fold (\<lambda>kv n. n + Count_string (fst kv) + Count_vector_u8 (snd kv)) m sizeof_TLVHead"

definition Count_want :: "ext \<Rightarrow> want option \<Rightarrow> nat" where
  "Count_want E p =
     (case p of None \<Rightarrow> 0
              | Some w \<Rightarrow> sizeof_TLVHead + Count_RawMem (Parcelable2Raw (want_marshal E) (Some w)))"

definition Count_pixel_map :: "ext \<Rightarrow> pixel_map option \<Rightarrow> nat" where
  "Count_pixel_map E p =
     (case p of None \<Rightarrow> 0
              | Some w \<Rightarrow> sizeof_TLVHead + Count_vector_u8 (PixelMap2Vector E (Some w)))"

fun Count_entry_value :: "ext \<Rightarrow> entry_value \<Rightarrow> nat"
  and Count_object_items :: "ext \<Rightarrow> object \<Rightarrow> nat" where
  "Count_entry_value E VMonostate = sizeof_TLVHead + (Count_basic 4 + sizeof_TLVHead)"
| "Count_entry_value E (VInt32 _) = sizeof_TLVHead + (Count_basic 4 + Count_basic 4)"
| "Count_entry_value E (VInt64 _) = sizeof_TLVHead + (Count_basic 4 + Count_basic 8)"
| "Count_entry_value E (VDouble _) = sizeof_TLVHead + (Count_basic 4 + Count_basic 8)"
| "Count_entry_value E (VBool _) = sizeof_TLVHead + (Count_basic 4 + Count_basic 1)"
| "Count_entry_value E (VString s) = sizeof_TLVHead + (Count_basic 4 + Count_string s)"
| "Count_entry_value E (VBytes bs) = sizeof_TLVHead + (Count_basic 4 + Count_vector_u8 bs)"
| "Count_entry_value E (VWant p) = sizeof_TLVHead + (Count_basic 4 + Count_want E p)"
| "Count_entry_value E (VPixelMap p) = sizeof_TLVHead + (Count_basic 4 + Count_pixel_map E p)"
| "Count_entry_value E (VObject None) = sizeof_TLVHead + (Count_basic 4 + 0)"
| "Count_entry_value E (VObject (Some m)) =
     sizeof_TLVHead + (Count_basic 4 + (sizeof_TLVHead + Count_object_items E m))"
| "Count_entry_value E VNullptr = sizeof_TLVHead + (Count_basic 4 + sizeof_TLVHead)"
| "Count_object_items E [] = 0"
| "Count_object_items E ((k, v) # m) =
     Count_string k + Count_entry_value E v + Count_object_items E m"

fun Count_detail_value :: "detail_value \<Rightarrow> nat" where
  "Count_detail_value (DInt32 _) = sizeof_TLVHead + (Count_basic 4 + Count_basic 4)"
| "Count_detail_value (DInt64 _) = sizeof_TLVHead + (Count_basic 4 + Count_basic 8)"
| "Count_detail_value (DBool _) = sizeof_TLVHead + (Count_basic 4 + Count_basic 1)"
| "Count_detail_value (DDouble _) = sizeof_TLVHead + (Count_basic 4 + Count_basic 8)"
| "Count_detail_value (DString s) = sizeof_TLVHead + (Count_basic 4 + Count_string s)"
| "Count_detail_value (DBytes bs) = sizeof_TLVHead + (Count_basic 4 + Count_vector_u8 bs)"

definition Count_details :: "details \<Rightarrow> nat" where
  "Count_details m =
     fold (\<lambda>kv n. n + Count_string (fst kv) + Count_detail_value (snd kv)) m sizeof_TLVHead"


section \<open>Writing (tlv\_writeable.h, tlv\_writeable.cpp)\<close>

record WriteOnlyBuffer = TLVBuffer +
  wdata :: "byte list"
  oob :: bool \<comment> \<open>ghost: a store fell outside \<open>data_\<close>\<close>

type_synonym writer = "WriteOnlyBuffer \<Rightarrow> bool \<times> WriteOnlyBuffer"

definition mk_WriteOnlyBuffer :: "nat \<Rightarrow> WriteOnlyBuffer" where
  "mk_WriteOnlyBuffer n = \<lparr>total = n, cursor = 0, wdata = replicate n 0, oob = False\<rparr>"

definition poke :: "nat \<Rightarrow> byte list \<Rightarrow> WriteOnlyBuffer \<Rightarrow> WriteOnlyBuffer" where
  "poke pos bs b =
     (if pos + length bs \<le> length (wdata b)
      then b\<lparr>wdata := take pos (wdata b) @ bs @ drop (pos + length bs) (wdata b)\<rparr>
      else b\<lparr>oob := True\<rparr>)"

definition memcpy_s_ok :: "ext \<Rightarrow> nat \<Rightarrow> nat \<Rightarrow> bool" where
  "memcpy_s_ok E destMax count \<longleftrightarrow> count \<le> destMax \<and> destMax \<le> rsize_max E"

definition advance :: "nat \<Rightarrow> WriteOnlyBuffer \<Rightarrow> WriteOnlyBuffer" where
  "advance n b = b\<lparr>cursor := cursor b + n\<rparr>"

text \<open>The bytes of a head in memory after \<open>HostToNet\<close>.\<close>

definition head_bytes :: "u16 \<Rightarrow> u32 \<Rightarrow> byte list" where
  "head_bytes t l =
     host_mem LittleHost (HostToNet LittleHost t) @ host_mem LittleHost (HostToNet LittleHost l)"

definition WriteHead :: "u16 \<Rightarrow> nat \<Rightarrow> nat \<Rightarrow> WriteOnlyBuffer \<Rightarrow> WriteOnlyBuffer" where
  "WriteHead t tagCursor n b =
     (if tagCursor + sizeof_TLVHead > length (wdata b) then b
      else poke tagCursor (head_bytes t (word_of_nat n)) b)"

text \<open>\<open>ret = ret && Write(..)\<close>, one after another, and over the items of a container.\<close>

definition andW :: "writer \<Rightarrow> writer \<Rightarrow> writer" where
  "andW w1 w2 b = (let (r, b1) = w1 b in if r then w2 b1 else (False, b1))"

fun andW_list :: "writer list \<Rightarrow> writer" where
  "andW_list [] = (\<lambda>b. (True, b))"
| "andW_list (w # ws) = andW w (andW_list ws)"

text \<open>\<open>WriteBasic\<close>: the value is given by its bytes in memory after \<open>HostToNet\<close>.\<close>

definition WriteBasic :: "ext \<Rightarrow> u16 \<Rightarrow> byte list \<Rightarrow> writer" where
  "WriteBasic E t valueBuff b =
     (if \<not> HasExpectBuffer (sizeof_TLVHead + length valueBuff) b then (False, b)
      else
        let b1 = poke (cursor b) (head_bytes t (word_of_nat (length valueBuff))) b
        in if \<not> memcpy_s_ok E (total b1 - cursor b1 - sizeof_TLVHead) (length valueBuff)
           then (False, b1)
           else (True, advance (sizeof_TLVHead + length valueBuff)
                         (poke (cursor b1 + sizeof_TLVHead) valueBuff b1)))"

definition Write_bool :: "ext \<Rightarrow> u16 \<Rightarrow> bool \<Rightarrow> writer" where
  "Write_bool E t v = WriteBasic E t (host_mem LittleHost (HostToNet_i8 LittleHost (if v then 1 else 0)))"

definition Write_word :: "ext \<Rightarrow> u16 \<Rightarrow> 'a::len word \<Rightarrow> writer" where
  "Write_word E t v = WriteBasic E t (host_mem LittleHost (HostToNet LittleHost v))"

definition Write_double :: "ext \<Rightarrow> u16 \<Rightarrow> u64 \<Rightarrow> writer" where
  "Write_double E t v = WriteBasic E t (host_mem LittleHost (HostToNet_double LittleHost v))"

text \<open>\<open>std::monostate\<close> and \<open>const void *\<close>: the head is skipped, not stored.\<close>

definition Write_blank :: "u16 \<Rightarrow> writer" where
  "Write_blank t b =
     (if \<not> HasExpectBuffer sizeof_TLVHead b then (False, b) else (True, advance sizeof_TLVHead b))"

definition Write_string :: "ext \<Rightarrow> u16 \<Rightarrow> string \<Rightarrow> writer" where
  "Write_string E t s b =
     (if \<not> HasExpectBuffer (sizeof_TLVHead + length s) b then (False, b)
      else
        let b1 = poke (cursor b) (head_bytes t (word_of_nat (length s))) b
        in if s \<noteq> [] \<and> \<not> memcpy_s_ok E (length s) (length s) then (False, b1)
           else
             let b2 = (if s \<noteq> [] then poke (cursor b1 + sizeof_TLVHead) (str_bytes s) b1 else b1)
             in (True, advance (sizeof_TLVHead + length s) b2))"

definition Write_RawMem :: "ext \<Rightarrow> u16 \<Rightarrow> byte list \<Rightarrow> writer" where
  "Write_RawMem E t raw b =
     (if \<not> HasExpectBuffer (sizeof_TLVHead + length raw) b then (False, b)
      else
        let b1 = advance sizeof_TLVHead
                   (poke (cursor b) (head_bytes t (word_of_nat (length raw))) b)
        in if raw \<noteq> [] \<and> \<not> memcpy_s_ok E (total b1 - cursor b1) (length raw) then (False, b1)
           else
             let b2 = (if raw \<noteq> [] then poke (cursor b1) raw b1 else b1)
             in (True, advance (length raw) b2))"

definition Write_vector_u8 :: "ext \<Rightarrow> u16 \<Rightarrow> byte list \<Rightarrow> writer" where
  "Write_vector_u8 E t v b =
     (if \<not> HasExpectBuffer (sizeof_TLVHead + length v) b then (False, b)
      else
        let b1 = advance sizeof_TLVHead (WriteHead t (cursor b) (length v) b)
        in if v \<noteq> [] \<and> \<not> memcpy_s_ok E (total b1 - cursor b1) (length v) then (False, b1)
           else
             let b2 = (if v \<noteq> [] then poke (cursor b1) v b1 else b1)
             in (True, advance (length v) b2))"

definition Write_want :: "ext \<Rightarrow> u16 \<Rightarrow> want \<Rightarrow> writer" where
  "Write_want E t w = Write_RawMem E t (Parcelable2Raw (want_marshal E) (Some w))"

definition Write_pixel_map :: "ext \<Rightarrow> u16 \<Rightarrow> pixel_map \<Rightarrow> writer" where
  "Write_pixel_map E t p b =
     (case pixel_encode E p of None \<Rightarrow> (False, b) | Some rawData \<Rightarrow> Write_vector_u8 E t rawData b)"

text \<open>A null \<open>shared_ptr\<close> is written as nothing at all.\<close>

definition Write_ptr :: "('a \<Rightarrow> writer) \<Rightarrow> 'a option \<Rightarrow> writer" where
  "Write_ptr w p b = (case p of None \<Rightarrow> (True, b) | Some x \<Rightarrow> w x b)"

text \<open>The frame of every composite: leave room for the head, write the body, then store the
  head with the length the body took, whether or not the body succeeded.\<close>

definition WriteFrame :: "u16 \<Rightarrow> writer \<Rightarrow> writer" where
  "WriteFrame t body b =
     (if \<not> HasExpectBuffer sizeof_TLVHead b then (False, b)
      else
        let tagCursor = cursor b;
            b1 = advance sizeof_TLVHead b;
            valueCursor = cursor b1;
            (ret, b2) = body b1
        in (ret, WriteHead t tagCursor (cursor b2 - valueCursor) b2))"

definition Write_vector :: "u16 \<Rightarrow> (u16 \<Rightarrow> 'a \<Rightarrow> writer) \<Rightarrow> 'a list \<Rightarrow> writer" where
  "Write_vector t w xs = WriteFrame t (andW_list (map (w TAG_VECTOR_ITEM) xs))"

definition Write_item_map :: "ext \<Rightarrow> u16 \<Rightarrow> item_data \<Rightarrow> writer" where
  "Write_item_map E t m =
     WriteFrame t (andW_list (concat (map (\<lambda>kv.
       [Write_string E TAG_MAP_KEY (fst kv), Write_vector_u8 E TAG_MAP_VALUE (snd kv)]) m)))"

definition Write_writeable :: "u16 \<Rightarrow> writer \<Rightarrow> writer" where
  "Write_writeable t encodeTLV = WriteFrame t encodeTLV"

text \<open>A variant: its index, then the alternative's value, whose \<open>bool\<close> is dropped.\<close>

definition WriteVariantFrame :: "ext \<Rightarrow> u16 \<Rightarrow> nat \<Rightarrow> writer \<Rightarrow> writer" where
  "WriteVariantFrame E t index writeValue b =
     (if \<not> HasExpectBuffer sizeof_TLVHead b then (False, b)
      else
        let tagCursor = cursor b;
            b1 = advance sizeof_TLVHead b;
            valueCursor = cursor b1;
            (ret, b2) = Write_word E TAG_VARIANT_INDEX (word_of_nat index :: u32) b1
        in if \<not> ret then (False, b2)
           else
             let b3 = snd (writeValue b2)
             in (True, WriteHead t tagCursor (cursor b3 - valueCursor) b3))"

fun WriteVariant_detail :: "ext \<Rightarrow> u16 \<Rightarrow> detail_value \<Rightarrow> writer" where
  "WriteVariant_detail E t (DInt32 x) = Write_word E t x"
| "WriteVariant_detail E t (DInt64 x) = Write_word E t x"
| "WriteVariant_detail E t (DBool x) = Write_bool E t x"
| "WriteVariant_detail E t (DDouble x) = Write_double E t x"
| "WriteVariant_detail E t (DString x) = Write_string E t x"
| "WriteVariant_detail E t (DBytes x) = Write_vector_u8 E t x"

definition Write_detail_value :: "ext \<Rightarrow> u16 \<Rightarrow> detail_value \<Rightarrow> writer" where
  "Write_detail_value E t v =
     WriteVariantFrame E t (detail_index v) (WriteVariant_detail E TAG_VARIANT_VALUE v)"

definition Write_details :: "ext \<Rightarrow> u16 \<Rightarrow> details \<Rightarrow> writer" where
  "Write_details E t m =
     WriteFrame t (andW_list (concat (map (\<lambda>kv.
       [Write_string E TAG_MAP_KEY (fst kv), Write_detail_value E TAG_MAP_VALUE_TYPE (snd kv)]) m)))"

fun WriteVariant_entry :: "ext \<Rightarrow> u16 \<Rightarrow> entry_value \<Rightarrow> writer"
  and Write_object_items :: "ext \<Rightarrow> object \<Rightarrow> writer" where
  "WriteVariant_entry E t VMonostate = Write_blank t"
| "WriteVariant_entry E t (VInt32 x) = Write_word E t x"
| "WriteVariant_entry E t (VInt64 x) = Write_word E t x"
| "WriteVariant_entry E t (VDouble x) = Write_double E t x"
| "WriteVariant_entry E t (VBool x) = Write_bool E t x"
| "WriteVariant_entry E t (VString x) = Write_string E t x"
| "WriteVariant_entry E t (VBytes x) = Write_vector_u8 E t x"
| "WriteVariant_entry E t (VWant p) = Write_ptr (Write_want E t) p"
| "WriteVariant_entry E t (VPixelMap p) = Write_ptr (Write_pixel_map E t) p"
| "WriteVariant_entry E t (VObject None) = (\<lambda>b. (True, b))"
| "WriteVariant_entry E t (VObject (Some m)) = WriteFrame t (Write_object_items E m)"
| "WriteVariant_entry E t VNullptr = Write_blank t"
| "Write_object_items E [] = (\<lambda>b. (True, b))"
| "Write_object_items E ((k, v) # m) =
     andW (Write_string E TAG_MAP_KEY k)
       (andW (WriteVariantFrame E TAG_MAP_VALUE_TYPE (variant_index v)
                (WriteVariant_entry E TAG_VARIANT_VALUE v))
             (Write_object_items E m))"

definition Write_entry_value :: "ext \<Rightarrow> u16 \<Rightarrow> entry_value \<Rightarrow> writer" where
  "Write_entry_value E t v =
     WriteVariantFrame E t (variant_index v) (WriteVariant_entry E TAG_VARIANT_VALUE v)"

definition Write_object :: "ext \<Rightarrow> u16 \<Rightarrow> object \<Rightarrow> writer" where
  "Write_object E t m = WriteFrame t (Write_object_items E m)"

text \<open>\<open>TLVWriteable::Encode\<close>, with the counted and with a given length.\<close>

definition Encode_len :: "nat \<Rightarrow> writer \<Rightarrow> bool \<times> byte list" where
  "Encode_len n encodeTLV = (let (ret, b) = encodeTLV (mk_WriteOnlyBuffer n) in (ret, wdata b))"

definition Encode :: "nat \<Rightarrow> writer \<Rightarrow> bool \<times> byte list" where
  "Encode countTLV encodeTLV = Encode_len countTLV encodeTLV"

end
