(* ===== verification/Tlv_Emit.thy ===== *)
theory Tlv_Emit
  imports Tlv_Write
begin

text \<open>
  What the writers put into the buffer. A fresh buffer is zero-filled, and a buffer in use is
  the bytes written so far followed by zeros (\<open>wview\<close>). A writer \<open>emits\<close> a byte string
  when, given room for it, it returns true and extends the written part by exactly these bytes
  without a store outside the vector. The reference encoders (\<open>enc_..\<close>) are plain
  functions from values to bytes; each writer is shown to emit its reference encoding.
\<close>

definition tlv :: "u16 \<Rightarrow> byte list \<Rightarrow> byte list" where
  "tlv t payload = head_bytes t (word_of_nat (length payload)) @ payload"

definition wview :: "ext \<Rightarrow> WriteOnlyBuffer \<Rightarrow> byte list \<Rightarrow> nat \<Rightarrow> bool" where
  "wview E b pre n \<longleftrightarrow>
     wdata b = pre @ replicate n 0 \<and> cursor b = length pre \<and> total b = length pre + n \<and>
     total b < 2 ^ 32 \<and> total b \<le> rsize_max E \<and> \<not> oob b"

definition emits :: "ext \<Rightarrow> writer \<Rightarrow> byte list \<Rightarrow> bool" where
  "emits E w e \<longleftrightarrow>
     (\<forall>b pre n. wview E b pre (length e + n) \<longrightarrow>
        (\<exists>b'. w b = (True, b') \<and> wview E b' (pre @ e) n))"

lemma emitsI:
  assumes "\<And>b pre n. wview E b pre (length e + n) \<Longrightarrow> \<exists>b'. w b = (True, b') \<and> wview E b' (pre @ e) n"
  shows "emits E w e"
  using assms by (simp add: emits_def)

lemma emitsE:
  assumes "emits E w e" and "wview E b pre (length e + n)"
  obtains b' where "w b = (True, b')" and "wview E b' (pre @ e) n"
  using assms unfolding emits_def by blast

lemma sizeof_TLVHead_simp [simp]: "sizeof_TLVHead = 6"
  by (simp add: sizeof_TLVHead_def)

lemma length_head_bytes [simp]: "length (head_bytes t l) = 6"
  by (simp add: head_bytes_def)

lemma length_tlv [simp]: "length (tlv t p) = 6 + length p"
  by (simp add: tlv_def)

section \<open>The buffer\<close>

lemma wview_mk [simp]:
  "wview E (mk_WriteOnlyBuffer n) [] n \<longleftrightarrow> n < 2 ^ 32 \<and> n \<le> rsize_max E"
  by (auto simp: wview_def mk_WriteOnlyBuffer_def)

lemma wview_room: "wview E b pre n \<Longrightarrow> m \<le> n \<Longrightarrow> HasExpectBuffer m b"
  by (auto simp: wview_def HasExpectBuffer_def)

lemma wview_room_iff: "wview E b pre n \<Longrightarrow> m < 2 ^ 32 \<Longrightarrow> HasExpectBuffer m b \<longleftrightarrow> m \<le> n"
  by (auto simp: wview_def HasExpectBuffer_def)

lemma wview_memcpy: "wview E b pre n \<Longrightarrow> m \<le> k \<Longrightarrow> k \<le> total b \<Longrightarrow> memcpy_s_ok E k m"
  by (auto simp: wview_def memcpy_s_ok_def)

lemma wview_pos: "wview E b pre n \<Longrightarrow> cursor b = length pre" "wview E b pre n \<Longrightarrow> total b = length pre + n"
  by (simp_all add: wview_def)

text \<open>A store into the zero part, followed by the matching advance of the cursor, extends the
  written part.\<close>

lemma poke_zeros:
  assumes "wdata b = pre @ replicate m 0" and "length bs \<le> m"
  shows "poke (length pre) bs b = b\<lparr>wdata := pre @ bs @ replicate (m - length bs) 0\<rparr>"
  using assms by (simp add: poke_def)

lemma poke_middle:
  assumes "wdata b = pre @ old @ post" and "length old = length bs"
  shows "poke (length pre) bs b = b\<lparr>wdata := pre @ bs @ post\<rparr>"
  using assms by (simp add: poke_def)

lemma wview_poke_advance:
  assumes "wview E b pre (length bs + n)"
  shows "wview E (advance (length bs) (poke (cursor b) bs b)) (pre @ bs) n"
  using assms by (auto simp: wview_def advance_def poke_def)

lemma wview_advance_zeros:
  assumes "wview E b pre (k + n)"
  shows "wview E (advance k b) (pre @ replicate k 0) n"
  using assms by (auto simp: wview_def advance_def replicate_add)

lemma wview_two_pokes:
  assumes "wview E b pre (length h + length p + n)"
  shows "wview E (advance (length h + length p)
           (poke (cursor b + length h) p (poke (cursor b) h b))) (pre @ h @ p) n"
proof -
  have "poke (cursor b) h b = b\<lparr>wdata := pre @ h @ replicate (length p + n) 0\<rparr>"
    using assms poke_zeros [of b pre "length h + length p + n" h] by (simp add: wview_def)
  moreover have "poke (length (pre @ h)) p (b\<lparr>wdata := (pre @ h) @ replicate (length p + n) 0\<rparr>) =
      b\<lparr>wdata := (pre @ h) @ p @ replicate n 0\<rparr>"
    using poke_zeros [of "b\<lparr>wdata := (pre @ h) @ replicate (length p + n) 0\<rparr>" "pre @ h" "length p + n" p]
    by simp
  ultimately show ?thesis
    using assms by (auto simp: wview_def advance_def)
qed

section \<open>Leaves\<close>

lemma emits_WriteBasic [wr_intro]: "emits E (WriteBasic E t v) (tlv t v)"
proof (rule emitsI)
  fix b pre n
  assume v: "wview E b pre (length (tlv t v) + n)"
  let ?h = "head_bytes t (word_of_nat (length v))"
  let ?b1 = "poke (cursor b) ?h b"
  have same: "cursor ?b1 = cursor b" "total ?b1 = total b" by (simp_all add: poke_def)
  have room: "HasExpectBuffer (6 + length v) b" using v by (rule wview_room) simp
  have cpy: "memcpy_s_ok E (total ?b1 - cursor ?b1 - 6) (length v)"
    unfolding same by (rule wview_memcpy [OF v]) (use v in \<open>auto simp: wview_def\<close>)
  have "wview E (advance (6 + length v) (poke (cursor b + 6) v ?b1)) (pre @ ?h @ v) n"
    using wview_two_pokes [of E b pre ?h v n] v by (simp add: add.assoc)
  then show "\<exists>b'. WriteBasic E t v b = (True, b') \<and> wview E b' (pre @ tlv t v) n"
    using room cpy same by (simp add: WriteBasic_def Let_def tlv_def)
qed

lemma emits_string [wr_intro]: "emits E (Write_string E t s) (tlv t (str_bytes s))"
proof (rule emitsI)
  fix b pre n
  assume v: "wview E b pre (length (tlv t (str_bytes s)) + n)"
  let ?h = "head_bytes t (word_of_nat (length s))"
  let ?b1 = "poke (cursor b) ?h b"
  have same: "cursor ?b1 = cursor b" by (simp add: poke_def)
  have room: "HasExpectBuffer (6 + length s) b" using v by (rule wview_room) simp
  have cpy: "memcpy_s_ok E (length s) (length s)"
    by (rule wview_memcpy [OF v]) (use v in \<open>auto simp: wview_def\<close>)
  have "wview E (advance (6 + length s) (poke (cursor b + 6) (str_bytes s) ?b1))
          (pre @ ?h @ str_bytes s) n"
    using wview_two_pokes [of E b pre ?h "str_bytes s" n] v by (simp add: add.assoc)
  moreover have "s = [] \<Longrightarrow> poke (cursor b + 6) (str_bytes s) ?b1 = ?b1"
    using v by (auto simp: poke_def wview_def)
  ultimately show "\<exists>b'. Write_string E t s b = (True, b') \<and> wview E b' (pre @ tlv t (str_bytes s)) n"
    using room cpy same by (cases "s = []") (simp_all add: Write_string_def Let_def tlv_def)
qed

lemma advance_advance [simp]: "advance k (advance m b) = advance (m + k) b"
  by (simp add: advance_def add.assoc)

lemma advance_sel [simp]:
  "cursor (advance k b) = cursor b + k" "total (advance k b) = total b"
  "wdata (advance k b) = wdata b" "oob (advance k b) = oob b"
  by (simp_all add: advance_def)

lemma poke_sel [simp]:
  "cursor (poke p bs b) = cursor b" "total (poke p bs b) = total b"
  "length (wdata (poke p bs b)) = length (wdata b)"
  by (auto simp: poke_def)

lemma poke_empty: "p \<le> length (wdata b) \<Longrightarrow> poke p [] b = b"
  by (simp add: poke_def)

lemma poke_advance [simp]: "poke p bs (advance k b) = advance k (poke p bs b)"
  by (simp add: poke_def advance_def)

lemma emits_RawMem [wr_intro]: "emits E (Write_RawMem E t raw) (tlv t raw)"
proof (rule emitsI)
  fix b pre n
  assume v: "wview E b pre (length (tlv t raw) + n)"
  let ?h = "head_bytes t (word_of_nat (length raw))"
  have room: "HasExpectBuffer (6 + length raw) b" using v by (rule wview_room) simp
  have cpy: "memcpy_s_ok E (total b - (cursor b + 6)) (length raw)"
    by (rule wview_memcpy [OF v]) (use v in \<open>auto simp: wview_def\<close>)
  have "wview E (advance (6 + length raw) (poke (cursor b + 6) raw (poke (cursor b) ?h b)))
          (pre @ ?h @ raw) n"
    using wview_two_pokes [of E b pre ?h raw n] v by (simp add: add.assoc)
  then show "\<exists>b'. Write_RawMem E t raw b = (True, b') \<and> wview E b' (pre @ tlv t raw) n"
    using room cpy v
    by (cases "raw = []") (auto simp: Write_RawMem_def Let_def tlv_def poke_empty wview_def)
qed

lemma WriteHead_poke: "tc + 6 \<le> length (wdata b) \<Longrightarrow> WriteHead t tc n b = poke tc (head_bytes t (word_of_nat n)) b"
  by (simp add: WriteHead_def)

lemma Write_vector_u8_RawMem:
  "wview E b pre (6 + length v + n) \<Longrightarrow> Write_vector_u8 E t v b = Write_RawMem E t v b"
  by (simp add: Write_vector_u8_def Write_RawMem_def WriteHead_poke wview_def)

lemma emits_vector_u8 [wr_intro]: "emits E (Write_vector_u8 E t v) (tlv t v)"
proof (rule emitsI)
  fix b pre n
  assume v: "wview E b pre (length (tlv t v) + n)"
  then have "Write_vector_u8 E t v b = Write_RawMem E t v b"
    by (auto intro: Write_vector_u8_RawMem)
  with v show "\<exists>b'. Write_vector_u8 E t v b = (True, b') \<and> wview E b' (pre @ tlv t v) n"
    using emits_RawMem [of E t v] by (simp add: emits_def)
qed

lemma emits_blank [wr_intro]: "emits E (Write_blank t) (replicate 6 0)"
proof (rule emitsI)
  fix b pre n
  assume v: "wview E b pre (length (replicate 6 (0::byte)) + n)"
  then have "HasExpectBuffer 6 b" by (auto intro: wview_room)
  with wview_advance_zeros [of E b pre 6 n] v
  show "\<exists>b'. Write_blank t b = (True, b') \<and> wview E b' (pre @ replicate 6 0) n"
    by (simp add: Write_blank_def)
qed

lemma emits_nothing [wr_intro]: "emits E (\<lambda>b. (True, b)) []"
  by (simp add: emits_def)

section \<open>Combinators\<close>

lemma emits_andW [wr_intro]:
  assumes "emits E w1 e1" and "emits E w2 e2"
  shows "emits E (andW w1 w2) (e1 @ e2)"
proof (rule emitsI)
  fix b pre n
  assume "wview E b pre (length (e1 @ e2) + n)"
  then have "wview E b pre (length e1 + (length e2 + n))" by (simp add: add.assoc)
  with assms(1) obtain b1 where b1: "w1 b = (True, b1)" and "wview E b1 (pre @ e1) (length e2 + n)"
    by (rule emitsE)
  from assms(2) this(2) obtain b2 where "w2 b1 = (True, b2)" "wview E b2 ((pre @ e1) @ e2) n"
    by (rule emitsE)
  with b1 show "\<exists>b'. andW w1 w2 b = (True, b') \<and> wview E b' (pre @ e1 @ e2) n"
    by (simp add: andW_def)
qed

lemma emits_andW_list:
  assumes "list_all2 (emits E) ws es"
  shows "emits E (andW_list ws) (concat es)"
  using assms
proof (induction ws es rule: list_all2_induct)
  case Nil
  then show ?case by (simp add: emits_def)
next
  case (Cons w ws e es)
  then show ?case by (simp add: emits_andW)
qed

lemma emits_andW_map:
  assumes "\<And>x. x \<in> set xs \<Longrightarrow> emits E (w x) (e x)"
  shows "emits E (andW_list (map w xs)) (concat (map e xs))"
  by (rule emits_andW_list) (use assms in \<open>simp add: list_all2_conv_all_nth\<close>)

lemma emits_andW_pairs:
  assumes "\<And>x. x \<in> set xs \<Longrightarrow> emits E (w1 x) (e1 x)" and "\<And>x. x \<in> set xs \<Longrightarrow> emits E (w2 x) (e2 x)"
  shows "emits E (andW_list (concat (map (\<lambda>x. [w1 x, w2 x]) xs))) (concat (map (\<lambda>x. e1 x @ e2 x) xs))"
  using assms
proof (induction xs)
  case Nil
  then show ?case by (simp add: emits_def)
next
  case (Cons x xs)
  then show ?case by (simp add: emits_andW)
qed

text \<open>Storing the head into the place left for it.\<close>

lemma wview_WriteHead:
  assumes "wview E b (pre @ replicate 6 0 @ e) n"
  shows "wview E (WriteHead t (length pre) (length e) b) (pre @ tlv t e) n"
  using assms poke_middle [of b pre "replicate 6 0" "e @ replicate n 0" "head_bytes t (word_of_nat (length e))"]
  by (auto simp: wview_def WriteHead_poke tlv_def)

lemma emits_WriteFrame [wr_intro]:
  assumes "emits E body e"
  shows "emits E (WriteFrame t body) (tlv t e)"
proof (rule emitsI)
  fix b pre n
  assume v: "wview E b pre (length (tlv t e) + n)"
  then have room: "HasExpectBuffer 6 b" by (rule wview_room) simp
  have "wview E (advance 6 b) (pre @ replicate 6 0) (length e + n)"
    using wview_advance_zeros [of E b pre 6 "length e + n"] v by (simp add: add.assoc)
  with assms obtain b2 where b2: "body (advance 6 b) = (True, b2)"
    and v2: "wview E b2 ((pre @ replicate 6 0) @ e) n" by (rule emitsE)
  from v v2 have "cursor b = length pre" "cursor b2 - (cursor b + 6) = length e"
    by (simp_all add: wview_def)
  with b2 room wview_WriteHead [of E b2 pre e n t] v2
  show "\<exists>b'. WriteFrame t body b = (True, b') \<and> wview E b' (pre @ tlv t e) n"
    by (simp add: WriteFrame_def Let_def)
qed

text \<open>A variant drops the result of writing its value; a writer that emits its bytes, or one
  that fails without touching the buffer, leaves the frame whole.\<close>

definition emits_quietly :: "ext \<Rightarrow> writer \<Rightarrow> byte list \<Rightarrow> bool" where
  "emits_quietly E w e \<longleftrightarrow>
     (\<forall>b pre n. wview E b pre (length e + n) \<longrightarrow> wview E (snd (w b)) (pre @ e) n)"

lemma emits_quietlyI: "emits E w e \<Longrightarrow> emits_quietly E w e"
  by (auto simp: emits_quietly_def emits_def) (metis snd_conv)

lemma emits_quietlyD:
  "emits_quietly E w e \<Longrightarrow> wview E b pre (length e + n) \<Longrightarrow> wview E (snd (w b)) (pre @ e) n"
  by (simp add: emits_quietly_def)

lemma emits_index:
  "emits E (Write_word E TAG_VARIANT_INDEX (w :: u32)) (tlv TAG_VARIANT_INDEX (le_bytes 4 (unat w)))"
  using emits_WriteBasic [of E TAG_VARIANT_INDEX "host_mem LittleHost w"]
  by (simp add: Write_word_def host_mem_def)

lemma emits_WriteVariantFrame:
  assumes "emits_quietly E w e"
  shows "emits E (WriteVariantFrame E t i w)
           (tlv t (tlv TAG_VARIANT_INDEX (le_bytes 4 (unat (word_of_nat i :: u32))) @ e))"
proof (rule emitsI)
  let ?i = "tlv TAG_VARIANT_INDEX (le_bytes 4 (unat (word_of_nat i :: u32)))"
  fix b pre n
  assume v: "wview E b pre (length (tlv t (?i @ e)) + n)"
  then have room: "HasExpectBuffer 6 b" by (rule wview_room) simp
  have "wview E (advance 6 b) (pre @ replicate 6 0) (length ?i + (length e + n))"
    using wview_advance_zeros [of E b pre 6 "length ?i + (length e + n)"] v by (simp add: add.assoc)
  with emits_index obtain b2
    where b2: "Write_word E TAG_VARIANT_INDEX (word_of_nat i :: u32) (advance 6 b) = (True, b2)"
      and v2: "wview E b2 ((pre @ replicate 6 0) @ ?i) (length e + n)" by (rule emitsE)
  from emits_quietlyD [OF assms v2] have v3: "wview E (snd (w b2)) (pre @ replicate 6 0 @ (?i @ e)) n"
    by simp
  from v v3 have "cursor b = length pre" "cursor (snd (w b2)) - (cursor b + 6) = length (?i @ e)"
    by (simp_all add: wview_def)
  with b2 room wview_WriteHead [OF v3]
  show "\<exists>b'. WriteVariantFrame E t i w b = (True, b') \<and> wview E b' (pre @ tlv t (?i @ e)) n"
    by (simp add: WriteVariantFrame_def Let_def)
qed

section \<open>Reference encodings of values\<close>

definition enc_bool :: "bool \<Rightarrow> byte list" where
  "enc_bool v = [if v then 1 else 0]"

definition enc_word :: "'a::len word \<Rightarrow> byte list" where
  "enc_word w = le_bytes (word_size w) (unat w)"

definition enc_double :: "u64 \<Rightarrow> byte list" where
  "enc_double w = rev (le_bytes 8 (unat w))"

definition enc_ptr :: "('a \<Rightarrow> byte list) \<Rightarrow> 'a option \<Rightarrow> byte list" where
  "enc_ptr f p = (case p of None \<Rightarrow> [] | Some x \<Rightarrow> f x)"

definition enc_pixel :: "ext \<Rightarrow> u16 \<Rightarrow> pixel_map \<Rightarrow> byte list" where
  "enc_pixel E t p = (case pixel_encode E p of None \<Rightarrow> [] | Some bs \<Rightarrow> tlv t bs)"

definition enc_variant :: "nat \<Rightarrow> byte list \<Rightarrow> byte list" where
  "enc_variant i value = tlv TAG_VARIANT_INDEX (le_bytes 4 i) @ value"

definition enc_item_map :: "item_data \<Rightarrow> byte list" where
  "enc_item_map m =
     concat (map (\<lambda>kv. tlv TAG_MAP_KEY (str_bytes (fst kv)) @ tlv TAG_MAP_VALUE (snd kv)) m)"

fun enc_detail :: "u16 \<Rightarrow> detail_value \<Rightarrow> byte list" where
  "enc_detail t (DInt32 x) = tlv t (enc_word x)"
| "enc_detail t (DInt64 x) = tlv t (enc_word x)"
| "enc_detail t (DBool x) = tlv t (enc_bool x)"
| "enc_detail t (DDouble x) = tlv t (enc_double x)"
| "enc_detail t (DString x) = tlv t (str_bytes x)"
| "enc_detail t (DBytes x) = tlv t x"

definition enc_detail_value :: "detail_value \<Rightarrow> byte list" where
  "enc_detail_value v = enc_variant (detail_index v) (enc_detail TAG_VARIANT_VALUE v)"

definition enc_details :: "details \<Rightarrow> byte list" where
  "enc_details m =
     concat (map (\<lambda>kv. tlv TAG_MAP_KEY (str_bytes (fst kv)) @
                       tlv TAG_MAP_VALUE_TYPE (enc_detail_value (snd kv))) m)"

fun enc_entry :: "ext \<Rightarrow> u16 \<Rightarrow> entry_value \<Rightarrow> byte list"
  and enc_object :: "ext \<Rightarrow> object \<Rightarrow> byte list" where
  "enc_entry E t VMonostate = replicate 6 0"
| "enc_entry E t (VInt32 x) = tlv t (enc_word x)"
| "enc_entry E t (VInt64 x) = tlv t (enc_word x)"
| "enc_entry E t (VDouble x) = tlv t (enc_double x)"
| "enc_entry E t (VBool x) = tlv t (enc_bool x)"
| "enc_entry E t (VString x) = tlv t (str_bytes x)"
| "enc_entry E t (VBytes x) = tlv t x"
| "enc_entry E t (VWant p) = enc_ptr (\<lambda>w. tlv t (want_marshal E w)) p"
| "enc_entry E t (VPixelMap p) = enc_ptr (enc_pixel E t) p"
| "enc_entry E t (VObject None) = []"
| "enc_entry E t (VObject (Some m)) = tlv t (enc_object E m)"
| "enc_entry E t VNullptr = replicate 6 0"
| "enc_object E [] = []"
| "enc_object E ((k, v) # m) =
     tlv TAG_MAP_KEY (str_bytes k) @
     tlv TAG_MAP_VALUE_TYPE (enc_variant (variant_index v) (enc_entry E TAG_VARIANT_VALUE v)) @
     enc_object E m"

definition enc_entry_value :: "ext \<Rightarrow> entry_value \<Rightarrow> byte list" where
  "enc_entry_value E v = enc_variant (variant_index v) (enc_entry E TAG_VARIANT_VALUE v)"

section \<open>The writers emit the reference encodings\<close>

lemma emits_bool [wr_intro]: "emits E (Write_bool E t v) (tlv t (enc_bool v))"
  using emits_WriteBasic [of E t "enc_bool v"]
  by (simp add: Write_bool_def enc_bool_def HostToNet_i8_def host_mem_def split: if_splits)

lemma emits_word [wr_intro]: "emits E (Write_word E t v) (tlv t (enc_word v))"
  using emits_WriteBasic [of E t "enc_word v"] by (simp add: Write_word_def enc_word_def host_mem_def)

lemma emits_double [wr_intro]: "emits E (Write_double E t v) (tlv t (enc_double v))"
  using emits_WriteBasic [of E t "enc_double v"]
  by (simp add: Write_double_def enc_double_def host_mem_HostToNet_double)
     (simp add: host_mem_def)

lemma emits_want [wr_intro]: "emits E (Write_want E t w) (tlv t (want_marshal E w))"
  by (simp add: Write_want_def Parcelable2Raw_def emits_RawMem)

lemma emits_ptr [wr_intro]:
  "(\<And>x. p = Some x \<Longrightarrow> emits E (w x) (e x)) \<Longrightarrow> emits E (Write_ptr w p) (enc_ptr e p)"
  by (cases p) (simp_all add: emits_def Write_ptr_def enc_ptr_def)

lemma emits_vector [wr_intro]:
  "(\<And>x. x \<in> set xs \<Longrightarrow> emits E (w TAG_VECTOR_ITEM x) (e x)) \<Longrightarrow>
   emits E (Write_vector t w xs) (tlv t (concat (map e xs)))"
  unfolding Write_vector_def by (intro wr_intro emits_andW_map)

lemma emits_item_map [wr_intro]: "emits E (Write_item_map E t m) (tlv t (enc_item_map m))"
  unfolding Write_item_map_def enc_item_map_def by (intro wr_intro emits_andW_pairs)

lemma quiet_pixel: "emits_quietly E (Write_pixel_map E t p) (enc_pixel E t p)"
proof (cases "pixel_encode E p")
  case None
  then show ?thesis by (simp add: Write_pixel_map_def[abs_def] emits_quietly_def enc_pixel_def)
next
  case (Some bs)
  then have "emits E (Write_pixel_map E t p) (enc_pixel E t p)"
    using emits_vector_u8 [of E t bs] by (simp add: Write_pixel_map_def[abs_def] enc_pixel_def)
  then show ?thesis by (rule emits_quietlyI)
qed

lemma emits_pixel: "pixel_encode E p \<noteq> None \<Longrightarrow> emits E (Write_pixel_map E t p) (enc_pixel E t p)"
  using emits_vector_u8 [of E t]
  by (auto simp: Write_pixel_map_def[abs_def] enc_pixel_def)

lemma variant_index_word: "unat (word_of_nat (variant_index v) :: u32) = variant_index v"
  by (cases v) simp_all

lemma detail_index_word: "unat (word_of_nat (detail_index v) :: u32) = detail_index v"
  by (cases v) simp_all

lemma emits_detail_value [wr_intro]:
  "emits E (Write_detail_value E t v) (tlv t (enc_detail_value v))"
proof -
  have "emits E (WriteVariant_detail E TAG_VARIANT_VALUE v) (enc_detail TAG_VARIANT_VALUE v)"
    by (cases v) (simp_all add: wr_intro)
  from emits_WriteVariantFrame [OF emits_quietlyI [OF this], of t "detail_index v"]
  show ?thesis
    by (simp add: Write_detail_value_def enc_detail_value_def enc_variant_def detail_index_word)
qed

lemma emits_details [wr_intro]: "emits E (Write_details E t m) (tlv t (enc_details m))"
  unfolding Write_details_def enc_details_def by (intro wr_intro emits_andW_pairs)

lemma emits_variant_frame:
  assumes "emits_quietly E (WriteVariant_entry E TAG_VARIANT_VALUE v) (enc_entry E TAG_VARIANT_VALUE v)"
  shows "emits E (WriteVariantFrame E t (variant_index v) (WriteVariant_entry E TAG_VARIANT_VALUE v))
    (tlv t (enc_variant (variant_index v) (enc_entry E TAG_VARIANT_VALUE v)))"
  using emits_WriteVariantFrame [OF assms, of t "variant_index v"]
  by (simp add: enc_variant_def variant_index_word)

lemma emits_entry_and_object:
  "emits_quietly E (WriteVariant_entry E t v) (enc_entry E t v)"
  "emits E (Write_object_items E m) (enc_object E m)"
proof (induction E t v and E m rule: enc_entry_enc_object.induct)
  case (8 E t p)
  show ?case by (auto intro!: emits_quietlyI wr_intro)
next
  case (9 E t p)
  show ?case using quiet_pixel [of E t]
    by (cases p) (simp_all add: Write_ptr_def[abs_def] enc_ptr_def emits_quietly_def)
next
  case (14 E k v m)
  then have "emits E (WriteVariantFrame E TAG_MAP_VALUE_TYPE (variant_index v)
      (WriteVariant_entry E TAG_VARIANT_VALUE v))
      (tlv TAG_MAP_VALUE_TYPE (enc_variant (variant_index v) (enc_entry E TAG_VARIANT_VALUE v)))"
    by (blast intro: emits_variant_frame)
  with 14 show ?case by (simp add: emits_andW emits_string)
qed (simp_all add: emits_quietlyI wr_intro)

lemma emits_entry_value [wr_intro]: "emits E (Write_entry_value E t v) (tlv t (enc_entry_value E v))"
  unfolding Write_entry_value_def enc_entry_value_def
  by (intro emits_variant_frame emits_entry_and_object)

lemma emits_object [wr_intro]: "emits E (Write_object E t m) (tlv t (enc_object E m))"
  unfolding Write_object_def by (intro wr_intro emits_entry_and_object)

section \<open>Counting covers the encoding\<close>

text \<open>The count of a want or of a pixel map includes a second head. Everything else is exact, so
  a count exceeds the encoding by six bytes for every such object (\<open>slack_..\<close>).\<close>

fun slack_entry :: "ext \<Rightarrow> entry_value \<Rightarrow> nat" and slack_object :: "ext \<Rightarrow> object \<Rightarrow> nat" where
  "slack_entry E (VWant (Some w)) = 1"
| "slack_entry E (VPixelMap (Some p)) = (if pixel_encode E p = None then 2 else 1)"
| "slack_entry E (VObject (Some m)) = slack_object E m"
| "slack_entry E _ = 0"
| "slack_object E [] = 0"
| "slack_object E ((k, v) # m) = slack_entry E v + slack_object E m"

lemma length_enc [simp]:
  "length (enc_bool x) = 1" "length (enc_word w) = word_size w" "length (enc_double d) = 8"
  by (simp_all add: enc_bool_def enc_word_def enc_double_def)

lemma Count_entry_object:
  "Count_entry_value E v = 16 + length (enc_entry E TAG_VARIANT_VALUE v) + 6 * slack_entry E v"
  "Count_object_items E m = length (enc_object E m) + 6 * slack_object E m"
proof (induction E v and E m rule: Count_entry_value_Count_object_items.induct)
  case (8 E p)
  then show ?case by (cases p) (simp_all add: Count_basic_def Count_want_def Count_RawMem_def
      Parcelable2Raw_def enc_ptr_def)
next
  case (9 E p)
  then show ?case by (cases p) (auto simp: Count_basic_def Count_pixel_map_def Count_vector_u8_def
      PixelMap2Vector_def enc_ptr_def enc_pixel_def split: option.splits)
qed (simp_all add: Count_basic_def Count_string_def Count_vector_u8_def enc_variant_def)

lemma Count_entry_value_enc [cnt_simps]:
  "Count_entry_value E v = length (tlv t (enc_entry_value E v)) + 6 * slack_entry E v"
  by (simp add: Count_entry_object(1) enc_entry_value_def enc_variant_def)

lemma fold_add_sum: "fold (\<lambda>x n. n + f x) xs a = a + sum_list (map f xs)" for a :: nat
  by (induction xs arbitrary: a) auto

lemma Count_item_map_enc [cnt_simps]: "Count_item_map m = length (tlv t (enc_item_map m))"
  by (simp add: Count_item_map_def fold_add_sum enc_item_map_def length_concat comp_def
      Count_string_def Count_vector_u8_def add.commute add.left_commute)

lemma Count_detail_value_enc: "Count_detail_value v = length (tlv t (enc_detail_value v))"
  by (cases v) (simp_all add: Count_basic_def Count_string_def Count_vector_u8_def
      enc_detail_value_def enc_variant_def)

lemma Count_details_enc [cnt_simps]: "Count_details m = length (tlv t (enc_details m))"
  by (simp add: Count_details_def fold_add_sum enc_details_def length_concat comp_def
      Count_string_def Count_detail_value_enc [of _ TAG_MAP_VALUE_TYPE] add.commute add.left_commute)

lemma Count_vector_sum: "Count_vector cnt xs = 6 + sum_list (map cnt xs)"
  by (simp add: Count_vector_def fold_add_sum)

section \<open>Encode\<close>

text \<open>A count that covers the encoding yields the encoding followed by zeros.\<close>

lemma Encode_emits:
  assumes "emits E w e" and "n = length e + k" and "n < 2 ^ 32" and "n \<le> rsize_max E"
  shows "Encode n w = (True, e @ replicate k 0)"
proof -
  have "wview E (mk_WriteOnlyBuffer n) [] (length e + k)" using assms(2-4) by simp
  with assms(1) obtain b where "w (mk_WriteOnlyBuffer n) = (True, b)" and "wview E b ([] @ e) k"
    by (rule emitsE)
  then show ?thesis by (simp add: Encode_def Encode_len_def wview_def)
qed

end
