(* ===== verification/Tlv_Read.thy ===== *)
theory Tlv_Read
  imports Tlv_Emit
begin

text \<open>
  \<open>framework/tlv\<close>, the reading half: \<open>ReadOnlyBuffer\<close>, \<open>RecursiveGuard\<close> and the
  raw-memory helpers. A read returns \<open>ROk\<close> with the value and the buffer, \<open>RFail\<close> where
  the C++ returns false (the half-read output is then discarded; for the callers that ignore the
  result of \<open>Decode\<close> what is left is a parameter of their models), \<open>ROob\<close>
  where it would load from outside \<open>data_\<close>, and \<open>RFuel\<close> when a loop exceeds its bound.
  The thread-local depth of \<open>RecursiveGuard\<close> is the argument \<open>d\<close>, the depth on entry.
  Every loop of the reader starts by reading a head, so the number of bytes of the buffer bounds
  its iterations; the second half of the theory shows that no read of any input ends in
  \<open>ROob\<close> or \<open>RFuel\<close>.
\<close>

section \<open>Readers\<close>

record ReadOnlyBuffer = TLVBuffer +
  rdata :: "byte list"

datatype 'a rres = ROk 'a ReadOnlyBuffer | RFail | ROob | RFuel

type_synonym 'a rd = "ReadOnlyBuffer \<Rightarrow> 'a rres"

definition mk_ReadOnlyBuffer :: "byte list \<Rightarrow> ReadOnlyBuffer" where
  "mk_ReadOnlyBuffer bs = \<lparr>total = length bs, cursor = 0, rdata = bs\<rparr>"

fun bindR :: "'a rres \<Rightarrow> ('a \<Rightarrow> 'b rd) \<Rightarrow> 'b rres" where
  "bindR (ROk x b) f = f x b"
| "bindR RFail f = RFail"
| "bindR ROob f = ROob"
| "bindR RFuel f = RFuel"

definition mapR :: "('a \<Rightarrow> 'b) \<Rightarrow> 'a rres \<Rightarrow> 'b rres" where
  "mapR f r = bindR r (\<lambda>x. ROk (f x))"

definition peek :: "nat \<Rightarrow> byte list rd" where
  "peek n b =
     (if cursor b + n \<le> length (rdata b) then ROk (take n (drop (cursor b) (rdata b))) b else ROob)"

definition advanceR :: "nat \<Rightarrow> ReadOnlyBuffer \<Rightarrow> ReadOnlyBuffer" where
  "advanceR n b = b\<lparr>cursor := cursor b + n\<rparr>"

definition take_bytes :: "nat \<Rightarrow> byte list rd" where
  "take_bytes n b = bindR (peek n b) (\<lambda>bs b1. ROk bs (advanceR n b1))"

definition ReadHead :: "TLVHead rd" where
  "ReadHead b =
     (if \<not> HasExpectBuffer sizeof_TLVHead b then RFail
      else mapR (\<lambda>bs. \<lparr>head_tag = NetToHost LittleHost (host_val LittleHost (take 2 bs)),
                      head_len = NetToHost LittleHost (host_val LittleHost (drop 2 bs))\<rparr>)
             (take_bytes sizeof_TLVHead b))"

definition hlen :: "TLVHead \<Rightarrow> nat" where
  "hlen h = unat (head_len h)"

text \<open>A loop whose iterations each read a head: at most one iteration per byte.\<close>

fun rloop :: "nat \<Rightarrow> (ReadOnlyBuffer \<Rightarrow> bool) \<Rightarrow> (TLVHead \<Rightarrow> 'a \<Rightarrow> 'a rd) \<Rightarrow> 'a \<Rightarrow> 'a rd" where
  "rloop 0 guard body acc b = (if guard b then RFuel else ROk acc b)"
| "rloop (Suc k) guard body acc b =
     (if guard b
      then bindR (ReadHead b) (\<lambda>h b1. bindR (body h acc b1) (rloop k guard body))
      else ROk acc b)"

definition while_read :: "(ReadOnlyBuffer \<Rightarrow> bool) \<Rightarrow> (TLVHead \<Rightarrow> 'a \<Rightarrow> 'a rd) \<Rightarrow> 'a \<Rightarrow> 'a rd" where
  "while_read guard body acc b = rloop (length (rdata b)) guard body acc b"

definition SkipR :: "TLVHead \<Rightarrow> unit rd" where
  "SkipR h b = (let (ok, b') = Skip (hlen h) b in if ok then ROk () b' else RFail)"

definition MAX_DEPTH :: nat where
  "MAX_DEPTH = 10"

definition guard_valid :: "nat \<Rightarrow> bool" where
  "guard_valid d \<longleftrightarrow> Suc d \<le> MAX_DEPTH"

section \<open>Leaves\<close>

definition ReadBasicValue :: "ext \<Rightarrow> nat \<Rightarrow> TLVHead \<Rightarrow> byte list rd" where
  "ReadBasicValue E n h b =
     (if hlen h \<noteq> n \<or> hlen h = 0 then RFail
      else if \<not> HasExpectBuffer (hlen h) b then RFail
      else if \<not> memcpy_s_ok E n n then RFail
      else take_bytes n b)"

definition ReadBasicValue_bool :: "ext \<Rightarrow> TLVHead \<Rightarrow> bool rd" where
  "ReadBasicValue_bool E h b =
     bindR (ReadBasicValue E 1 h b)
       (\<lambda>bs b1. let rawValue = (host_val LittleHost bs :: byte)
                in if rawValue > 1 then RFail else ROk (NetToHost_u8 LittleHost rawValue \<noteq> 0) b1)"

definition ReadValue_u32 :: "ext \<Rightarrow> TLVHead \<Rightarrow> u32 rd" where
  "ReadValue_u32 E h b = mapR (\<lambda>bs. NetToHost LittleHost (host_val LittleHost bs)) (ReadBasicValue E 4 h b)"

definition ReadValue_i64 :: "ext \<Rightarrow> TLVHead \<Rightarrow> i64 rd" where
  "ReadValue_i64 E h b = mapR (\<lambda>bs. NetToHost LittleHost (host_val LittleHost bs)) (ReadBasicValue E 8 h b)"

definition ReadValue_double :: "ext \<Rightarrow> TLVHead \<Rightarrow> u64 rd" where
  "ReadValue_double E h b =
     mapR (\<lambda>bs. NetToHost_double LittleHost (host_val LittleHost bs)) (ReadBasicValue E 8 h b)"

text \<open>A string is appended to what the output already holds.\<close>

definition ReadValue_string :: "string \<Rightarrow> TLVHead \<Rightarrow> string rd" where
  "ReadValue_string old h b =
     (if \<not> HasExpectBuffer (hlen h) b then RFail
      else mapR (\<lambda>bs. old @ bytes_str bs) (take_bytes (hlen h) b))"

definition ReadValue_bytes :: "TLVHead \<Rightarrow> byte list rd" where
  "ReadValue_bytes h b = (if \<not> HasExpectBuffer (hlen h) b then RFail else take_bytes (hlen h) b)"

definition Raw2Parcelable :: "ext \<Rightarrow> (byte list \<Rightarrow> 'p option) \<Rightarrow> byte list \<Rightarrow> 'p option" where
  "Raw2Parcelable E unmarshal raw =
     (if raw = [] then None
      else if \<not> memcpy_s_ok E (length raw) (length raw) then None
      else unmarshal raw)"

definition Vector2PixelMap :: "ext \<Rightarrow> byte list \<Rightarrow> pixel_map option" where
  "Vector2PixelMap E v = (if v = [] then None else pixel_decode E v)"

definition ReadValue_want :: "ext \<Rightarrow> TLVHead \<Rightarrow> want option rd" where
  "ReadValue_want E h b = mapR (Raw2Parcelable E (want_unmarshal E)) (ReadValue_bytes h b)"

definition ReadValue_uri :: "ext \<Rightarrow> TLVHead \<Rightarrow> uri option rd" where
  "ReadValue_uri E h b = mapR (Raw2Parcelable E (uri_unmarshal E)) (ReadValue_bytes h b)"

definition ReadValue_pixel_map :: "ext \<Rightarrow> TLVHead \<Rightarrow> pixel_map option rd" where
  "ReadValue_pixel_map E h b = mapR (Vector2PixelMap E) (ReadValue_bytes h b)"

section \<open>Composites\<close>

definition ReadValue_vector ::
  "nat \<Rightarrow> (nat \<Rightarrow> TLVHead \<Rightarrow> 'a rd) \<Rightarrow> 'a list \<Rightarrow> TLVHead \<Rightarrow> 'a list rd" where
  "ReadValue_vector d item old h b =
     (if cursor b > 2 ^ 32 - 1 - hlen h then RFail
      else
        let vectorEnd = cursor b + hlen h
        in if vectorEnd > length (rdata b) then RFail
           else if \<not> guard_valid d then RFail
           else while_read (\<lambda>b. cursor b < vectorEnd)
                  (\<lambda>vh acc b1. mapR (\<lambda>x. acc @ [x]) (item (Suc d) vh b1)) old b)"

definition ReadValue_ptr :: "nat \<Rightarrow> (nat \<Rightarrow> TLVHead \<Rightarrow> 'a rd) \<Rightarrow> TLVHead \<Rightarrow> 'a option rd" where
  "ReadValue_ptr d r h b = (if \<not> guard_valid d then RFail else mapR Some (r (Suc d) h b))"

definition ReadValue_readable :: "'a rd \<Rightarrow> TLVHead \<Rightarrow> 'a rd" where
  "ReadValue_readable decodeTLV h b =
     (if \<not> HasExpectBuffer (hlen h) b then RFail
      else bindR (decodeTLV (b\<lparr>total := cursor b + hlen h\<rparr>))
             (\<lambda>x b1. ROk x (b1\<lparr>total := total b\<rparr>)))"

definition ReadValue_item_map :: "item_data \<Rightarrow> TLVHead \<Rightarrow> item_data rd" where
  "ReadValue_item_map old h b =
     (if \<not> HasExpectBuffer (hlen h) b then RFail
      else
        let mapEnd = cursor b + hlen h
        in while_read (\<lambda>b. cursor b < mapEnd)
             (\<lambda>keyHead acc b1.
                bindR (ReadValue_string [] keyHead b1) (\<lambda>itemKey b2.
                bindR (ReadHead b2) (\<lambda>valueHead b3.
                mapR (\<lambda>itemValue. emplace itemKey itemValue acc) (ReadValue_bytes valueHead b3)))) old b)"

definition ReadVariant_detail :: "ext \<Rightarrow> u32 \<Rightarrow> detail_value rd" where
  "ReadVariant_detail E index b =
     (if index = 0 then bindR (ReadHead b) (\<lambda>h b1. mapR DInt32 (ReadValue_u32 E h b1))
      else if index = 1 then bindR (ReadHead b) (\<lambda>h b1. mapR DInt64 (ReadValue_i64 E h b1))
      else if index = 2 then bindR (ReadHead b) (\<lambda>h b1. mapR DBool (ReadBasicValue_bool E h b1))
      else if index = 3 then bindR (ReadHead b) (\<lambda>h b1. mapR DDouble (ReadValue_double E h b1))
      else if index = 4 then bindR (ReadHead b) (\<lambda>h b1. mapR DString (ReadValue_string [] h b1))
      else if index = 5 then bindR (ReadHead b) (\<lambda>h b1. mapR DBytes (ReadValue_bytes h b1))
      else ROk (DInt32 0) b)"

definition ReadValue_detail :: "ext \<Rightarrow> TLVHead \<Rightarrow> detail_value rd" where
  "ReadValue_detail E h b =
     bindR (ReadHead b) (\<lambda>valueHead b1.
     bindR (ReadValue_u32 E valueHead b1) (\<lambda>index b2. ReadVariant_detail E index b2))"

definition ReadValue_details :: "ext \<Rightarrow> details \<Rightarrow> TLVHead \<Rightarrow> details rd" where
  "ReadValue_details E old h b =
     (if \<not> HasExpectBuffer (hlen h) b then RFail
      else
        let mapEnd = cursor b + hlen h
        in while_read (\<lambda>b. cursor b < mapEnd)
             (\<lambda>keyHead acc b1.
                bindR (ReadValue_string [] keyHead b1) (\<lambda>itemKey b2.
                bindR (ReadHead b2) (\<lambda>variantHead b3.
                mapR (\<lambda>itemValue. emplace itemKey itemValue acc)
                  (ReadValue_detail E variantHead b3)))) old b)"

text \<open>\<open>ReadValue(Object &)\<close>, given how to read an entry value.\<close>

definition ReadValue_object_with ::
  "(nat \<Rightarrow> TLVHead \<Rightarrow> entry_value rd) \<Rightarrow> nat \<Rightarrow> object \<Rightarrow> TLVHead \<Rightarrow> object rd" where
  "ReadValue_object_with entry d old h b =
     (if \<not> HasExpectBuffer (hlen h) b then RFail
      else if \<not> guard_valid d then RFail
      else
        let mapEnd = cursor b + hlen h
        in while_read (\<lambda>b. cursor b < mapEnd)
             (\<lambda>keyHead acc b1.
                bindR (ReadValue_string [] keyHead b1) (\<lambda>itemKey b2.
                bindR (ReadHead b2) (\<lambda>valueHead b3.
                mapR (\<lambda>itemValue. emplace itemKey itemValue acc) (entry (Suc d) valueHead b3)))) old b)"

text \<open>\<open>ReadVariant\<close> over the alternatives of the entry value, given how to read an object; the
  object alternative goes through a \<open>shared_ptr\<close>.\<close>

definition ReadVariant_entry_with ::
  "ext \<Rightarrow> (nat \<Rightarrow> TLVHead \<Rightarrow> object rd) \<Rightarrow> nat \<Rightarrow> u32 \<Rightarrow> entry_value rd" where
  "ReadVariant_entry_with E obj d index b =
     (if index = 0 then bindR (ReadHead b) (\<lambda>h b1. ROk VMonostate b1)
      else if index = 1 then bindR (ReadHead b) (\<lambda>h b1. mapR VInt32 (ReadValue_u32 E h b1))
      else if index = 2 then bindR (ReadHead b) (\<lambda>h b1. mapR VInt64 (ReadValue_i64 E h b1))
      else if index = 3 then bindR (ReadHead b) (\<lambda>h b1. mapR VDouble (ReadValue_double E h b1))
      else if index = 4 then bindR (ReadHead b) (\<lambda>h b1. mapR VBool (ReadBasicValue_bool E h b1))
      else if index = 5 then bindR (ReadHead b) (\<lambda>h b1. mapR VString (ReadValue_string [] h b1))
      else if index = 6 then bindR (ReadHead b) (\<lambda>h b1. mapR VBytes (ReadValue_bytes h b1))
      else if index = 7 then bindR (ReadHead b) (\<lambda>h b1. mapR VWant (ReadValue_want E h b1))
      else if index = 8 then bindR (ReadHead b) (\<lambda>h b1. mapR VPixelMap (ReadValue_pixel_map E h b1))
      else if index = 9 then bindR (ReadHead b) (\<lambda>h b1. mapR VObject (ReadValue_ptr d obj h b1))
      else if index = 10 then bindR (ReadHead b) (\<lambda>h b1. ROk VNullptr b1)
      else ROk VMonostate b)"

text \<open>The two tie a knot: an entry value holds objects, an object holds entry values. Each turn
  adds two guards, so the recursion is on what the guard leaves of \<open>MAX_DEPTH\<close>.\<close>

function ReadValue_entry :: "ext \<Rightarrow> nat \<Rightarrow> TLVHead \<Rightarrow> entry_value rd" where
  "ReadValue_entry E d h b =
     bindR (ReadHead b) (\<lambda>valueHead b1.
     bindR (ReadValue_u32 E valueHead b1) (\<lambda>index b2.
       ReadVariant_entry_with E
         (if d < MAX_DEPTH
          then (\<lambda>d' h' b'. ReadValue_object_with
                  (\<lambda>d'' h'' b''. ReadValue_entry E (Suc (Suc d)) h'' b'') d' [] h' b')
          else (\<lambda>_ _ _. RFail))
         d index b2))"
  by pat_completeness auto
termination
  by (relation "measure (\<lambda>(E, d, h, b). MAX_DEPTH - d)") auto

declare ReadValue_entry.simps [simp del]

definition ReadValue_object :: "ext \<Rightarrow> nat \<Rightarrow> object \<Rightarrow> TLVHead \<Rightarrow> object rd" where
  "ReadValue_object E d old h b = ReadValue_object_with (ReadValue_entry E) d old h b"

text \<open>\<open>DecodeTLV\<close> of every class is this loop over its fields, and \<open>Decode\<close> runs it on a
  whole buffer.\<close>

definition decode_fields :: "(TLVHead \<Rightarrow> 'a \<Rightarrow> 'a rd) \<Rightarrow> 'a \<Rightarrow> 'a rd" where
  "decode_fields field acc b = while_read IsEnough field acc b"

definition Decode :: "'a rd \<Rightarrow> byte list \<Rightarrow> 'a rres" where
  "Decode decodeTLV buffer = decodeTLV (mk_ReadOnlyBuffer buffer)"

end
