(* ===== verification/Tlv_Safe.thy ===== *)
theory Tlv_Safe
  imports Tlv_Read
begin

text \<open>
  Reading is safe on every input. The contract of a reader (\<open>safe_rd\<close>): started inside its
  buffer, it does not load outside \<open>data_\<close>, its loops stay within their bound, and on
  success it has moved the cursor forward, not past \<open>total_\<close>, and has restored
  \<open>total_\<close>. The contract is proved once for every leaf and every combinator; the locale
  \<open>tlv_decoder\<close> carries it to the \<open>DecodeTLV\<close> of the data classes.
\<close>

definition rd_inv :: "ReadOnlyBuffer \<Rightarrow> bool" where
  "rd_inv b \<longleftrightarrow> cursor b \<le> total b \<and> total b \<le> length (rdata b)"

definition rd_post :: "ReadOnlyBuffer \<Rightarrow> 'a rres \<Rightarrow> bool" where
  "rd_post b r =
     (case r of
        ROk x b' \<Rightarrow> cursor b \<le> cursor b' \<and> cursor b' \<le> total b \<and> total b' = total b \<and> rdata b' = rdata b
      | RFail \<Rightarrow> True
      | ROob \<Rightarrow> False
      | RFuel \<Rightarrow> False)"

definition safe_rd :: "'a rd \<Rightarrow> bool" where
  "safe_rd r \<longleftrightarrow> (\<forall>b. rd_inv b \<longrightarrow> rd_post b (r b))"

lemma safe_rdI: "(\<And>b. rd_inv b \<Longrightarrow> rd_post b (r b)) \<Longrightarrow> safe_rd r"
  by (simp add: safe_rd_def)

lemma safe_rdD: "safe_rd r \<Longrightarrow> rd_inv b \<Longrightarrow> rd_post b (r b)"
  by (simp add: safe_rd_def)

lemma rd_post_simps [simp]:
  "rd_post b RFail" "\<not> rd_post b ROob" "\<not> rd_post b RFuel"
  "rd_post b (ROk x b') \<longleftrightarrow>
     cursor b \<le> cursor b' \<and> cursor b' \<le> total b \<and> total b' = total b \<and> rdata b' = rdata b"
  by (simp_all add: rd_post_def)

lemma rd_post_refl: "rd_inv b \<Longrightarrow> rd_post b (ROk x b)"
  by (simp add: rd_inv_def)

lemma rd_inv_post: "rd_inv b \<Longrightarrow> rd_post b (ROk x b') \<Longrightarrow> rd_inv b'"
  by (simp add: rd_inv_def)

lemma rd_post_trans: "rd_post b (ROk x b') \<Longrightarrow> rd_post b' r \<Longrightarrow> rd_post b r"
  by (cases r) auto

lemma rd_post_bind:
  assumes "rd_inv b" and "rd_post b r" and "\<And>x. safe_rd (f x)"
  shows "rd_post b (bindR r f)"
proof (cases r)
  case (ROk x b')
  with assms have "rd_post b (ROk x b')" and "rd_inv b'" by (auto intro: rd_inv_post)
  with assms(3) [of x] ROk show ?thesis by (auto intro: rd_post_trans dest: safe_rdD)
qed (use assms in auto)

lemma safe_bind [rd_safe]:
  "safe_rd r \<Longrightarrow> (\<And>x. safe_rd (f x)) \<Longrightarrow> safe_rd (\<lambda>b. bindR (r b) f)"
  by (blast intro: safe_rdI rd_post_bind dest: safe_rdD)

lemma safe_return [rd_safe]: "safe_rd (ROk x)"
  by (blast intro: safe_rdI rd_post_refl)

lemma safe_fail [rd_safe]: "safe_rd (\<lambda>b. RFail)"
  by (simp add: safe_rd_def)

lemma safe_map [rd_safe]: "safe_rd r \<Longrightarrow> safe_rd (\<lambda>b. mapR f (r b))"
  unfolding mapR_def by (intro rd_safe)

lemma safe_if [rd_safe]:
  "safe_rd r1 \<Longrightarrow> safe_rd r2 \<Longrightarrow> safe_rd (\<lambda>b. if P b then r1 b else r2 b)"
  by (simp add: safe_rd_def)

section \<open>Leaves\<close>

lemma take_bytes_eq:
  "rd_inv b \<Longrightarrow> cursor b + n \<le> total b \<Longrightarrow>
   take_bytes n b = ROk (take n (drop (cursor b) (rdata b))) (advanceR n b)"
  by (simp add: take_bytes_def peek_def rd_inv_def)

lemma safe_checked_take [rd_safe]:
  "n < 2 ^ 32 \<Longrightarrow> safe_rd (\<lambda>b. if \<not> HasExpectBuffer n b then RFail else take_bytes n b)"
  by (rule safe_rdI) (auto simp: HasExpectBuffer_def take_bytes_eq advanceR_def)

lemma hlen_bound: "hlen h < 2 ^ 32"
  using unsigned_less [of "head_len h"] by (simp add: hlen_def)

lemma hlen_mod [simp]: "hlen h mod 4294967296 = hlen h"
  using hlen_bound [of h] by simp

lemma ReadHead_cases:
  assumes "rd_inv b"
  shows "ReadHead b = RFail \<or>
    (\<exists>h. ReadHead b = ROk h (advanceR 6 b) \<and> cursor b + 6 \<le> total b)"
  using assms by (auto simp: ReadHead_def mapR_def HasExpectBuffer_def take_bytes_eq rd_inv_def)

lemma safe_ReadHead [rd_safe]: "safe_rd ReadHead"
  by (rule safe_rdI) (use ReadHead_cases in \<open>fastforce simp: advanceR_def\<close>)

lemma safe_ReadBasicValue [rd_safe]: "safe_rd (ReadBasicValue E n h)"
  by (rule safe_rdI) (auto simp: ReadBasicValue_def HasExpectBuffer_def take_bytes_eq advanceR_def)

lemma safe_ReadBasicValue_bool [rd_safe]: "safe_rd (ReadBasicValue_bool E h)"
  unfolding ReadBasicValue_bool_def [abs_def] Let_def
  by (intro rd_safe safe_rdI rd_post_bind) (auto intro: rd_safe dest: safe_rdD [OF safe_ReadBasicValue] simp: rd_inv_def)

lemma safe_ReadValue_words [rd_safe]:
  "safe_rd (ReadValue_u32 E h)" "safe_rd (ReadValue_i64 E h)" "safe_rd (ReadValue_double E h)"
  unfolding ReadValue_u32_def [abs_def] ReadValue_i64_def [abs_def] ReadValue_double_def [abs_def]
  by (intro rd_safe)+

lemma safe_ReadValue_bytes [rd_safe]: "safe_rd (ReadValue_bytes h)"
  unfolding ReadValue_bytes_def [abs_def] by (intro rd_safe hlen_bound)

lemma safe_ReadValue_string [rd_safe]: "safe_rd (ReadValue_string old h)"
  by (rule safe_rdI)
     (auto simp: ReadValue_string_def mapR_def HasExpectBuffer_def take_bytes_eq advanceR_def)

lemma safe_ReadValue_parcels [rd_safe]:
  "safe_rd (ReadValue_want E h)" "safe_rd (ReadValue_uri E h)" "safe_rd (ReadValue_pixel_map E h)"
  unfolding ReadValue_want_def [abs_def] ReadValue_uri_def [abs_def] ReadValue_pixel_map_def [abs_def]
  by (intro rd_safe)+

lemma safe_SkipR [rd_safe]: "safe_rd (SkipR h)"
  by (rule safe_rdI) (auto simp: SkipR_def Skip_def rd_inv_def)

section \<open>Loops\<close>

lemma rloop_safe:
  assumes body: "\<And>h acc. safe_rd (body h acc)"
    and guard: "\<And>b. rd_inv b \<Longrightarrow> guard b \<Longrightarrow> cursor b < length (rdata b)"
  shows "rd_inv b \<Longrightarrow> length (rdata b) - cursor b \<le> k \<Longrightarrow> rd_post b (rloop k guard body acc b)"
proof (induction k arbitrary: acc b)
  case 0
  with guard [of b] show ?case by (auto simp: rd_inv_def)
next
  case (Suc k)
  show ?case
  proof (cases "guard b \<and> ReadHead b \<noteq> RFail")
    case False
    with Suc.prems show ?thesis by (auto simp: rd_inv_def)
  next
    case True
    then obtain h where h: "ReadHead b = ROk h (advanceR 6 b)" "cursor b + 6 \<le> total b"
      using ReadHead_cases [OF Suc.prems(1)] by auto
    let ?b1 = "advanceR 6 b"
    have inv1: "rd_inv ?b1" and p1: "rd_post b (ROk h ?b1)"
      using h(2) Suc.prems(1) by (auto simp: advanceR_def rd_inv_def)
    have "rd_post ?b1 (bindR (body h acc ?b1) (rloop k guard body))"
    proof (cases "body h acc ?b1")
      case (ROk acc2 b2)
      then have p2: "rd_post ?b1 (ROk acc2 b2)" using safe_rdD [OF body inv1] by metis
      with inv1 have inv2: "rd_inv b2" by (rule rd_inv_post)
      have "length (rdata b2) - cursor b2 \<le> k" using p2 Suc.prems(2) by (auto simp: advanceR_def)
      from rd_post_trans [OF p2 Suc.IH [OF inv2 this]] ROk show ?thesis by simp
    qed (use safe_rdD [OF body inv1, of h acc] in auto)
    with p1 h(1) True show ?thesis by (auto intro: rd_post_trans)
  qed
qed

lemma while_read_safe:
  assumes "\<And>h acc. safe_rd (body h acc)"
    and "\<And>b. rd_inv b \<Longrightarrow> guard b \<Longrightarrow> cursor b < length (rdata b)" and "rd_inv b"
  shows "rd_post b (while_read guard body acc b)"
  unfolding while_read_def by (rule rloop_safe) (use assms in auto)

text \<open>A loop over a counted region, and a loop over everything the buffer holds.\<close>

lemma rloop_region_safe:
  assumes "\<And>h acc. safe_rd (body h acc)"
  shows "rd_inv b \<Longrightarrow> e \<le> length (rdata b) \<Longrightarrow> length (rdata b) - cursor b \<le> k \<Longrightarrow>
    rd_post b (rloop k (\<lambda>b. cursor b < e) body acc b)"
proof -
  assume inv: "rd_inv b" and e: "e \<le> length (rdata b)" and k: "length (rdata b) - cursor b \<le> k"
  let ?g = "\<lambda>b'. cursor b' < e" and ?g' = "\<lambda>b'. cursor b' < e \<and> rdata b' = rdata b"
  have "rdata c = rdata b \<Longrightarrow> rd_inv c \<Longrightarrow> rloop m ?g body a c = rloop m ?g' body a c" for m a c
  proof (induction m arbitrary: a c)
    case (Suc m)
    show ?case
    proof (cases "ReadHead c")
      case (ROk h c1)
      then have c1: "rd_post c (ROk h c1)" using safe_rdD [OF safe_ReadHead Suc.prems(2)] by metis
      with Suc.prems have "rd_inv c1" "rdata c1 = rdata b" by (auto intro: rd_inv_post)
      moreover have "body h a c1 = ROk a2 c2 \<Longrightarrow> rdata c2 = rdata b \<and> rd_inv c2" for a2 c2
        using safe_rdD [OF assms, of c1 h a] calculation by (auto simp: rd_inv_def)
      ultimately show ?thesis using Suc ROk by (cases "body h a c1") auto
    qed (use Suc in auto)
  qed auto
  then have "rloop k ?g body acc b = rloop k ?g' body acc b" using inv by blast
  then show ?thesis
    using rloop_safe [where body = body and guard = ?g' and b = b and k = k and acc = acc] assms inv e k
    by auto
qed

lemma while_region_safe:
  assumes "\<And>h acc. safe_rd (body h acc)" and "rd_inv b" and "e \<le> length (rdata b)"
  shows "rd_post b (while_read (\<lambda>b. cursor b < e) body acc b)"
  unfolding while_read_def by (rule rloop_region_safe) (use assms in auto)

lemma safe_decode_fields [rd_safe]:
  "(\<And>h acc. safe_rd (field h acc)) \<Longrightarrow> safe_rd (decode_fields field acc)"
  unfolding decode_fields_def [abs_def]
  by (rule safe_rdI, rule while_read_safe) (auto simp: IsEnough_def rd_inv_def)

section \<open>Composites\<close>

lemma safe_ReadValue_vector [rd_safe]:
  assumes "\<And>d h. safe_rd (item d h)"
  shows "safe_rd (ReadValue_vector d item old h)"
proof (rule safe_rdI)
  fix b :: ReadOnlyBuffer
  assume "rd_inv b"
  moreover have "safe_rd (\<lambda>b1. mapR (\<lambda>x. acc @ [x]) (item (Suc d) vh b1))" for vh acc
    by (intro rd_safe assms)
  ultimately show "rd_post b (ReadValue_vector d item old h b)"
    by (auto simp: ReadValue_vector_def Let_def intro: while_region_safe)
qed

lemma safe_ReadValue_ptr [rd_safe]: "(\<And>d h. safe_rd (r d h)) \<Longrightarrow> safe_rd (ReadValue_ptr d r h)"
  unfolding ReadValue_ptr_def [abs_def] by (intro rd_safe) simp

lemma safe_ReadValue_readable [rd_safe]:
  assumes "safe_rd dec"
  shows "safe_rd (ReadValue_readable dec h)"
proof (rule safe_rdI)
  fix b :: ReadOnlyBuffer
  assume inv: "rd_inv b"
  show "rd_post b (ReadValue_readable dec h b)"
  proof (cases "HasExpectBuffer (hlen h) b")
    case True
    then have end_le: "cursor b + hlen h \<le> total b" using inv by (auto simp: HasExpectBuffer_def rd_inv_def)
    let ?b = "b\<lparr>total := cursor b + hlen h\<rparr>"
    have "rd_inv ?b" using inv end_le by (simp add: rd_inv_def)
    with assms have "rd_post ?b (dec ?b)" by (rule safe_rdD)
    then show ?thesis
      using True end_le by (cases "dec ?b") (auto simp: ReadValue_readable_def)
  qed (simp add: ReadValue_readable_def)
qed

text \<open>The body the three map readers share.\<close>

lemma safe_region_loop:
  assumes "\<And>h acc. safe_rd (body h acc)" and "rd_inv b"
  shows "rd_post b (if \<not> HasExpectBuffer (hlen h) b then RFail
    else while_read (\<lambda>b'. cursor b' < cursor b + hlen h) body acc b)"
  using assms by (auto simp: HasExpectBuffer_def rd_inv_def intro: while_region_safe)

lemma safe_ReadValue_item_map [rd_safe]: "safe_rd (ReadValue_item_map old h)"
  unfolding ReadValue_item_map_def [abs_def] Let_def
  by (rule safe_rdI, rule safe_region_loop) (intro rd_safe)

lemma safe_ReadValue_detail [rd_safe]: "safe_rd (ReadValue_detail E h)"
  unfolding ReadValue_detail_def [abs_def] ReadVariant_detail_def
  by (intro rd_safe)

lemma safe_ReadValue_details [rd_safe]: "safe_rd (ReadValue_details E old h)"
  unfolding ReadValue_details_def [abs_def] Let_def
  by (rule safe_rdI, rule safe_region_loop) (intro rd_safe)

lemma safe_object_with:
  assumes "\<And>d h. safe_rd (entry d h)"
  shows "safe_rd (ReadValue_object_with entry d old h)"
proof (rule safe_rdI)
  fix b :: ReadOnlyBuffer
  assume inv: "rd_inv b"
  have body: "safe_rd (\<lambda>b1. bindR (ReadValue_string [] keyHead b1) (\<lambda>itemKey b2.
      bindR (ReadHead b2) (\<lambda>valueHead b3.
      mapR (\<lambda>itemValue. emplace itemKey itemValue acc) (entry (Suc d) valueHead b3))))"
    for keyHead acc
    by (intro rd_safe assms)
  have "rd_post b (if \<not> HasExpectBuffer (hlen h) b then RFail
    else while_read (\<lambda>b'. cursor b' < cursor b + hlen h)
      (\<lambda>keyHead acc b1. bindR (ReadValue_string [] keyHead b1) (\<lambda>itemKey b2.
        bindR (ReadHead b2) (\<lambda>valueHead b3.
        mapR (\<lambda>itemValue. emplace itemKey itemValue acc) (entry (Suc d) valueHead b3)))) old b)"
    by (rule safe_region_loop [OF body inv])
  then show "rd_post b (ReadValue_object_with entry d old h b)"
    by (simp add: ReadValue_object_with_def Let_def split: if_splits)
qed

lemma safe_variant_with:
  "(\<And>d h. safe_rd (obj d h)) \<Longrightarrow> safe_rd (ReadVariant_entry_with E obj d index)"
  unfolding ReadVariant_entry_with_def [abs_def] by (intro rd_safe)

lemma safe_ReadValue_entry [rd_safe]: "safe_rd (ReadValue_entry E d h)"
proof (induction "MAX_DEPTH - d" arbitrary: d h rule: less_induct)
  case less
  have obj: "safe_rd ((if d < MAX_DEPTH
      then (\<lambda>d' h' b'. ReadValue_object_with
              (\<lambda>d'' h'' b''. ReadValue_entry E (Suc (Suc d)) h'' b'') d' [] h' b')
      else (\<lambda>_ _ _. RFail)) d' h')" for d' h'
  proof (cases "d < MAX_DEPTH")
    case True
    then have "safe_rd (ReadValue_entry E (Suc (Suc d)) h'')" for h''
      by (intro less) simp
    then show ?thesis using True by (auto intro: safe_object_with)
  qed (auto intro: rd_safe)
  show ?case
    unfolding ReadValue_entry.simps [of E d h, abs_def]
    by (intro safe_bind safe_ReadHead safe_ReadValue_words safe_variant_with obj)
qed

lemma safe_ReadValue_object [rd_safe]: "safe_rd (ReadValue_object E d old h)"
  unfolding ReadValue_object_def [abs_def] by (intro safe_object_with rd_safe)

text \<open>The guards of the source and the bound of the recursion agree: the equation of the code.\<close>

lemma ReadVariant_entry_with_cong:
  "(guard_valid d \<Longrightarrow> obj (Suc d) = obj' (Suc d)) \<Longrightarrow>
   ReadVariant_entry_with E obj d index b = ReadVariant_entry_with E obj' d index b"
  by (cases "guard_valid d") (simp_all add: ReadVariant_entry_with_def ReadValue_ptr_def [abs_def])

lemma ReadValue_entry_unfold:
  "ReadValue_entry E d h b =
     bindR (ReadHead b) (\<lambda>valueHead b1.
     bindR (ReadValue_u32 E valueHead b1) (\<lambda>index b2.
       ReadVariant_entry_with E (\<lambda>d'. ReadValue_object E d' []) d index b2))"
proof -
  have "ReadVariant_entry_with E
         (if d < MAX_DEPTH
          then (\<lambda>d' h' b'. ReadValue_object_with
                  (\<lambda>d'' h'' b''. ReadValue_entry E (Suc (Suc d)) h'' b'') d' [] h' b')
          else (\<lambda>_ _ _. RFail)) d =
       ReadVariant_entry_with E (\<lambda>d'. ReadValue_object E d' []) d"
    by (intro ext ReadVariant_entry_with_cong)
       (simp add: guard_valid_def ReadValue_object_def [abs_def] ReadValue_object_with_def [abs_def])
  then show ?thesis by (simp only: ReadValue_entry.simps [of E d h b])
qed

section \<open>The contract of a decoder\<close>

locale tlv_decoder =
  fixes decodeTLV :: "'a rd"
  assumes decode_safe: "safe_rd decodeTLV"
begin

lemma Decode_returns: "Decode decodeTLV bs = RFail \<or> (\<exists>x b. Decode decodeTLV bs = ROk x b)"
proof -
  have "rd_inv (mk_ReadOnlyBuffer bs)" by (simp add: rd_inv_def mk_ReadOnlyBuffer_def)
  with decode_safe have "rd_post (mk_ReadOnlyBuffer bs) (Decode decodeTLV bs)"
    unfolding Decode_def by (rule safe_rdD)
  then show ?thesis by (cases "Decode decodeTLV bs") auto
qed

lemma member_safe: "safe_rd (ReadValue_readable decodeTLV h)"
  by (intro rd_safe decode_safe)

lemma pointers_safe:
  "safe_rd (ReadValue_ptr d (\<lambda>_. ReadValue_readable decodeTLV) h)"
  "safe_rd (ReadValue_vector d (\<lambda>d. ReadValue_ptr d (\<lambda>_. ReadValue_readable decodeTLV)) old h)"
  by (intro rd_safe decode_safe)+

end

end
