(* ===== verification/Tlv_Parse.thy ===== *)
theory Tlv_Parse
  imports Tlv_Safe
begin

text \<open>
  What the readers make of a reference encoding. A reader \<open>consumes\<close> a byte string when,
  wherever the bytes stand in a buffer, it returns the value and moves the cursor past exactly
  these bytes; a decoder \<open>decodes\<close> them when it is given exactly these bytes. One rule per
  leaf and per combinator, and one (\<open>rloop_steps\<close>) for every loop. The locale
  \<open>tlv_class\<close> is the contract of a serializable class: its writer emits the reference
  encoding, its count covers it up to whole heads, its decoder reads it back.
\<close>

definition rview :: "ext \<Rightarrow> ReadOnlyBuffer \<Rightarrow> byte list \<Rightarrow> byte list \<Rightarrow> byte list \<Rightarrow> bool" where
  "rview E b pre e post \<longleftrightarrow>
     rdata b = pre @ e @ post \<and> cursor b = length pre \<and> length pre + length e \<le> total b \<and>
     total b \<le> length (rdata b) \<and> length (rdata b) < 2 ^ 32 \<and> length (rdata b) \<le> rsize_max E"

definition consumes :: "ext \<Rightarrow> 'a rd \<Rightarrow> byte list \<Rightarrow> 'a \<Rightarrow> bool" where
  "consumes E r e x \<longleftrightarrow>
     (\<forall>b pre post. rview E b pre e post \<longrightarrow> r b = ROk x (advanceR (length e) b))"

definition decodes :: "ext \<Rightarrow> 'a rd \<Rightarrow> byte list \<Rightarrow> 'a \<Rightarrow> bool" where
  "decodes E dec e x \<longleftrightarrow>
     (\<forall>b pre post. rview E b pre e post \<and> total b = length pre + length e \<longrightarrow>
        dec b = ROk x (advanceR (length e) b))"

definition mkh :: "u16 \<Rightarrow> byte list \<Rightarrow> TLVHead" where
  "mkh t e = \<lparr>head_tag = t, head_len = word_of_nat (length e)\<rparr>"

lemma consumesI: "(\<And>b pre post. rview E b pre e post \<Longrightarrow> r b = ROk x (advanceR (length e) b)) \<Longrightarrow> consumes E r e x"
  by (auto simp: consumes_def)

lemma consumesD: "consumes E r e x \<Longrightarrow> rview E b pre e post \<Longrightarrow> r b = ROk x (advanceR (length e) b)"
  by (auto simp: consumes_def)

lemma advanceR_sel [simp]:
  "cursor (advanceR n b) = cursor b + n" "total (advanceR n b) = total b" "rdata (advanceR n b) = rdata b"
  by (simp_all add: advanceR_def)

lemma advanceR_advanceR [simp]: "advanceR n (advanceR m b) = advanceR (m + n) b"
  by (simp add: advanceR_def add.assoc)

lemma advanceR_0 [simp]: "advanceR 0 b = b"
  by (simp add: advanceR_def)

lemma head_mkh [simp]: "head_tag (mkh t e) = t"
  by (simp add: mkh_def)

lemma rview_hlen: "rview E b pre e post \<Longrightarrow> hlen (mkh t e) = length e"
  by (simp add: rview_def hlen_def mkh_def unat_of_nat take_bit_eq_mod)

lemma rview_split:
  "rview E b pre (e1 @ e2) post \<Longrightarrow> rview E b pre e1 (e2 @ post) \<and> rview E (advanceR (length e1) b) (pre @ e1) e2 post"
  by (auto simp: rview_def)

lemma rview_inv: "rview E b pre e post \<Longrightarrow> rd_inv b"
  by (auto simp: rview_def rd_inv_def)

lemma rview_expect: "rview E b pre e post \<Longrightarrow> n \<le> length e \<Longrightarrow> HasExpectBuffer n b"
  by (auto simp: rview_def HasExpectBuffer_def)

lemma rview_take: "rview E b pre e post \<Longrightarrow> take_bytes (length e) b = ROk e (advanceR (length e) b)"
  by (subst take_bytes_eq) (auto simp: rview_def rd_inv_def)

section \<open>Sequencing\<close>

lemma consumes_bind:
  assumes "consumes E r e1 x" and "consumes E (f x) e2 y"
  shows "consumes E (\<lambda>b. bindR (r b) f) (e1 @ e2) y"
proof (rule consumesI)
  fix b pre post
  assume "rview E b pre (e1 @ e2) post"
  then have "rview E b pre e1 (e2 @ post)" "rview E (advanceR (length e1) b) (pre @ e1) e2 post"
    by (simp_all add: rview_split)
  with assms show "bindR (r b) f = ROk y (advanceR (length (e1 @ e2)) b)"
    by (simp add: consumesD)
qed

lemma consumes_return [rd_intro]: "consumes E (ROk x) [] x"
  by (simp add: consumes_def)

lemma consumes_map [rd_intro]: "consumes E r e x \<Longrightarrow> y = f x \<Longrightarrow> consumes E (\<lambda>b. mapR f (r b)) e y"
  by (auto simp: consumes_def mapR_def)

lemma consumes_head: "consumes E ReadHead (head_bytes t l) \<lparr>head_tag = t, head_len = l\<rparr>"
proof (rule consumesI)
  fix b pre post
  assume v: "rview E b pre (head_bytes t l) post"
  have "take 2 (head_bytes t l) = host_mem LittleHost t" "drop 2 (head_bytes t l) = host_mem LittleHost l"
    by (simp_all add: head_bytes_def)
  with rview_take [OF v] rview_expect [OF v, of 6]
  show "ReadHead b = ROk \<lparr>head_tag = t, head_len = l\<rparr> (advanceR (length (head_bytes t l)) b)"
    by (simp add: ReadHead_def mapR_def host_val_host_mem)
qed

lemma head_bytes_zero: "replicate 6 0 = head_bytes 0 0"
  by (simp add: head_bytes_def host_mem_def le_bytes_zero flip: replicate_add)

lemma consumes_tlv:
  assumes "consumes E (f (mkh t e)) e x"
  shows "consumes E (\<lambda>b. bindR (ReadHead b) f) (tlv t e) x"
  unfolding tlv_def by (rule consumes_bind [OF consumes_head]) (use assms in \<open>simp add: mkh_def\<close>)

lemma consumes_tlv_then:
  assumes "consumes E (r (mkh t e)) e x" and "consumes E (f x) e2 y"
  shows "consumes E (\<lambda>b. bindR (ReadHead b) (\<lambda>h b1. bindR (r h b1) f)) (tlv t e @ e2) y"
proof -
  have "consumes E (\<lambda>b1. bindR (r (mkh t e) b1) f) (e @ e2) y"
    by (rule consumes_bind, rule assms(1), rule assms(2))
  then show ?thesis
    unfolding tlv_def append_assoc
    by (intro consumes_bind [OF consumes_head]) (simp add: mkh_def)
qed

lemma consumes_blank:
  "consumes E (f \<lparr>head_tag = 0, head_len = 0\<rparr>) [] x \<Longrightarrow>
   consumes E (\<lambda>b. bindR (ReadHead b) f) (replicate 6 0) x"
  using consumes_bind [OF consumes_head [of E 0 0], of f "[]" x] by (simp add: head_bytes_zero)

section \<open>Leaves\<close>

lemma consumes_string [rd_intro]: "consumes E (ReadValue_string old (mkh t (str_bytes s))) (str_bytes s) (old @ s)"
  by (rule consumesI)
     (use rview_take in \<open>fastforce simp: ReadValue_string_def rview_hlen rview_expect mapR_def\<close>)

lemma consumes_bytes [rd_intro]: "consumes E (ReadValue_bytes (mkh t e)) e e"
  by (rule consumesI) (use rview_take in \<open>fastforce simp: ReadValue_bytes_def rview_hlen rview_expect\<close>)

lemma consumes_basic: "n = length e \<Longrightarrow> e \<noteq> [] \<Longrightarrow> consumes E (ReadBasicValue E n (mkh t e)) e e"
proof (rule consumesI)
  fix b pre post
  assume n: "n = length e" and e: "e \<noteq> []" and v: "rview E b pre e post"
  then have "memcpy_s_ok E n n" by (simp add: memcpy_s_ok_def rview_def)
  with v n e rview_take [OF v] show "ReadBasicValue E n (mkh t e) b = ROk e (advanceR (length e) b)"
    by (simp add: ReadBasicValue_def rview_hlen [OF v] rview_expect [OF v])
qed

lemma host_val_enc_word: "whole_bytes TYPE('a::len) \<Longrightarrow> host_val LittleHost (enc_word (w :: 'a word)) = w"
  using host_val_host_mem [of LittleHost w] by (simp add: enc_word_def host_mem_def)

lemma host_val_enc_double: "NetToHost_double LittleHost (host_val LittleHost (enc_double w)) = w"
proof -
  have "host_mem LittleHost (HostToNet_double LittleHost w) = enc_double w"
    by (simp add: host_mem_HostToNet_double enc_double_def) (simp add: host_mem_def)
  then show ?thesis
    using host_val_host_mem [of LittleHost "HostToNet_double LittleHost w"] NetToHost_double_inverse
    by simp
qed

lemma enc_nonempty [simp]: "enc_bool x \<noteq> []" "enc_word (a :: u32) \<noteq> []" "enc_word (c :: i64) \<noteq> []" "enc_double d \<noteq> []"
  by (simp_all flip: length_0_conv)

lemma consumes_u32 [rd_intro]: "consumes E (ReadValue_u32 E (mkh t (enc_word w))) (enc_word w) w"
  unfolding ReadValue_u32_def [abs_def]
  by (rule consumes_map [OF consumes_basic]) (simp_all add: host_val_enc_word)

lemma consumes_i64 [rd_intro]: "consumes E (ReadValue_i64 E (mkh t (enc_word w))) (enc_word w) w"
  unfolding ReadValue_i64_def [abs_def]
  by (rule consumes_map [OF consumes_basic]) (simp_all add: host_val_enc_word)

lemma consumes_double [rd_intro]: "consumes E (ReadValue_double E (mkh t (enc_double w))) (enc_double w) w"
  unfolding ReadValue_double_def [abs_def]
  by (rule consumes_map [OF consumes_basic]) (simp_all add: host_val_enc_double)

lemma consumes_bool [rd_intro]: "consumes E (ReadBasicValue_bool E (mkh t (enc_bool v))) (enc_bool v) v"
proof -
  have "consumes E (\<lambda>b. bindR (ReadBasicValue E 1 (mkh t (enc_bool v)) b)
      (\<lambda>bs b1. let rawValue = (host_val LittleHost bs :: byte)
        in if rawValue > 1 then RFail else ROk (NetToHost_u8 LittleHost rawValue \<noteq> 0) b1)) (enc_bool v @ []) v"
    by (rule consumes_bind [OF consumes_basic])
       (simp_all add: enc_bool_def host_val_def consumes_def)
  then show ?thesis by (simp add: ReadBasicValue_bool_def [abs_def])
qed

lemma consumes_want [rd_intro]:
  assumes "want_codec_ok E w"
  shows "consumes E (ReadValue_want E (mkh t (want_marshal E w))) (want_marshal E w) (Some w)"
proof (rule consumesI)
  fix b pre post
  assume v: "rview E b pre (want_marshal E w) post"
  then have "memcpy_s_ok E (length (want_marshal E w)) (length (want_marshal E w))"
    by (simp add: memcpy_s_ok_def rview_def)
  with assms consumesD [OF consumes_bytes v] show "ReadValue_want E (mkh t (want_marshal E w)) b =
      ROk (Some w) (advanceR (length (want_marshal E w)) b)"
    by (simp add: ReadValue_want_def mapR_def Raw2Parcelable_def want_codec_ok_def)
qed

lemma consumes_no_want [rd_intro]: "consumes E (ReadValue_want E (mkh t [])) [] None"
  unfolding ReadValue_want_def [abs_def]
  by (rule consumes_map [OF consumes_bytes]) (simp add: Raw2Parcelable_def)

lemma consumes_uri [rd_intro]:
  assumes "uri_codec_ok E u"
  shows "consumes E (ReadValue_uri E (mkh t (uri_marshal E u))) (uri_marshal E u) (Some u)"
proof (rule consumesI)
  fix b pre post
  assume v: "rview E b pre (uri_marshal E u) post"
  then have "memcpy_s_ok E (length (uri_marshal E u)) (length (uri_marshal E u))"
    by (simp add: memcpy_s_ok_def rview_def)
  with assms consumesD [OF consumes_bytes v] show "ReadValue_uri E (mkh t (uri_marshal E u)) b =
      ROk (Some u) (advanceR (length (uri_marshal E u)) b)"
    by (simp add: ReadValue_uri_def mapR_def Raw2Parcelable_def uri_codec_ok_def)
qed

lemma consumes_no_uri [rd_intro]: "consumes E (ReadValue_uri E (mkh t [])) [] None"
  unfolding ReadValue_uri_def [abs_def]
  by (rule consumes_map [OF consumes_bytes]) (simp add: Raw2Parcelable_def)

lemma consumes_pixel:
  assumes "pixel_codec_ok E p"
  shows "consumes E (\<lambda>b. bindR (ReadHead b) (\<lambda>h b1. mapR f (ReadValue_pixel_map E h b1)))
    (enc_pixel E t p) (f (Some p))"
proof -
  from assms obtain bs where bs: "pixel_encode E p = Some bs" "bs \<noteq> []" "pixel_decode E bs = Some p"
    by (auto simp: pixel_codec_ok_def)
  have "consumes E (\<lambda>b. bindR (ReadHead b) (\<lambda>h b1. mapR f (ReadValue_pixel_map E h b1))) (tlv t bs) (f (Some p))"
    unfolding ReadValue_pixel_map_def
    by (rule consumes_tlv, rule consumes_map [OF consumes_map [OF consumes_bytes]])
       (use bs in \<open>simp_all add: Vector2PixelMap_def\<close>)
  with bs show ?thesis by (simp add: enc_pixel_def)
qed

section \<open>Loops\<close>

text \<open>The bytes of a loop: a sequence of items, each a head and what the body takes after it.\<close>

inductive steps :: "ext \<Rightarrow> (TLVHead \<Rightarrow> 'a \<Rightarrow> 'a rd) \<Rightarrow> 'a \<Rightarrow> byte list \<Rightarrow> 'a \<Rightarrow> bool"
  for E body where
  steps_done: "steps E body acc [] acc"
| steps_item: "consumes E (\<lambda>b. bindR (ReadHead b) (\<lambda>h. body h acc)) e acc1 \<Longrightarrow> e \<noteq> [] \<Longrightarrow>
     steps E body acc1 es acc2 \<Longrightarrow> steps E body acc (e @ es) acc2"

lemma rloop_steps:
  assumes "steps E body acc e acc'" and "rview E b pre e post" and "length e \<le> k"
    and "\<And>c. total c = total b \<Longrightarrow> rdata c = rdata b \<Longrightarrow> guard c \<longleftrightarrow> cursor c < length pre + length e"
  shows "rloop k guard body acc b = ROk acc' (advanceR (length e) b)"
  using assms
proof (induction arbitrary: b pre k rule: steps.induct)
  case (steps_done acc)
  then show ?case by (cases k) (auto simp: rview_def)
next
  case (steps_item acc e acc1 es acc2)
  then have v: "rview E b pre e (es @ post)" and v2: "rview E (advanceR (length e) b) (pre @ e) es post"
    by (simp_all add: rview_split)
  from steps_item.prems(2) steps_item.hyps(2) obtain k' where k: "k = Suc k'" "length es \<le> k'"
    by (cases k; cases e) auto
  have g: "guard b" using steps_item.prems(1,3) steps_item.hyps(2) by (simp add: rview_def)
  have "bindR (ReadHead b) (\<lambda>h. body h acc) = ROk acc1 (advanceR (length e) b)"
    by (rule consumesD [OF steps_item.hyps(1) v])
  then have first: "bindR (ReadHead b) (\<lambda>h b1. bindR (body h acc b1) (rloop k' guard body)) =
      rloop k' guard body acc1 (advanceR (length e) b)"
    by (cases "ReadHead b") auto
  have "rloop k' guard body acc1 (advanceR (length e) b) = ROk acc2 (advanceR (length es) (advanceR (length e) b))"
    by (rule steps_item.IH [OF v2 k(2)]) (use steps_item.prems(3) in \<open>simp add: add.assoc\<close>)
  with g k(1) first show ?case by simp
qed

lemma while_steps:
  assumes "steps E body acc e acc'" and "rview E b pre e post"
  shows "while_read (\<lambda>c. cursor c < cursor b + length e) body acc b = ROk acc' (advanceR (length e) b)"
  unfolding while_read_def
  by (rule rloop_steps [OF assms]) (use assms(2) in \<open>auto simp: rview_def\<close>)

lemma decodes_fields [rd_intro]:
  "steps E field acc e acc' \<Longrightarrow> decodes E (decode_fields field acc) e acc'"
  unfolding decodes_def decode_fields_def while_read_def
  by (intro allI impI, rule rloop_steps) (auto simp: rview_def IsEnough_def)

lemma steps_append:
  "steps E body a e1 b \<Longrightarrow> steps E body b e2 c \<Longrightarrow> steps E body a (e1 @ e2) c"
  by (induction rule: steps.induct) (auto intro: steps.intros)

lemma steps_single:
  "consumes E (\<lambda>b. bindR (ReadHead b) (\<lambda>h. body h acc)) e acc' \<Longrightarrow> e \<noteq> [] \<Longrightarrow> steps E body acc e acc'"
  using steps.steps_item [of E body acc e acc' "[]" acc'] by (simp add: steps.steps_done)

text \<open>One field, and an absent one.\<close>

lemma tlv_nonempty [simp]: "tlv t e \<noteq> []"
  by (simp flip: length_0_conv)

lemma steps_field:
  "consumes E (body (mkh t e) acc) e acc1 \<Longrightarrow> steps E body acc1 es acc2 \<Longrightarrow>
   steps E body acc (tlv t e @ es) acc2"
  by (rule steps.steps_item) (auto intro: consumes_tlv)

lemma steps_padding:
  assumes "\<And>acc. body \<lparr>head_tag = 0, head_len = 0\<rparr> acc = (\<lambda>b. mapR (\<lambda>_. acc) (SkipR \<lparr>head_tag = 0, head_len = 0\<rparr> b))"
  shows "steps E body acc (replicate (6 * k) 0) acc"
proof (induction k)
  case (Suc k)
  have "consumes E (body \<lparr>head_tag = 0, head_len = 0\<rparr> acc) [] acc"
    by (rule consumesI) (auto simp: assms mapR_def SkipR_def Skip_def hlen_def rview_def)
  then have "steps E body acc (replicate 6 0 @ replicate (6 * k) 0) acc"
    using Suc by (intro steps.steps_item consumes_blank) auto
  then show ?case by (simp add: replicate_add)
qed (simp add: steps.steps_done)

text \<open>What a run of fields does to the object under construction, whatever it holds before.\<close>

definition carries :: "ext \<Rightarrow> (TLVHead \<Rightarrow> 'a \<Rightarrow> 'a rd) \<Rightarrow> byte list \<Rightarrow> ('a \<Rightarrow> 'a) \<Rightarrow> bool" where
  "carries E body e upd \<longleftrightarrow> (\<forall>acc. steps E body acc e (upd acc))"

lemma carries_field:
  "(\<And>acc. consumes E (body (mkh t e) acc) e (upd acc)) \<Longrightarrow> carries E body (tlv t e) upd"
  unfolding carries_def by (auto intro!: steps_single consumes_tlv)

lemma carries_ptr:
  assumes "\<And>x. p = Some x \<Longrightarrow> carries E body (f x) (upd (Some x))" and "\<And>acc. p = None \<Longrightarrow> upd None acc = acc"
  shows "carries E body (enc_ptr f p) (upd p)"
  using assms by (cases p) (simp_all add: enc_ptr_def carries_def steps.steps_done)

lemma carries_fields:
  assumes "list_all2 (carries E body) es us"
  shows "steps E body acc (concat es) (fold (\<lambda>u a. u a) us acc)"
  using assms
proof (induction es us arbitrary: acc rule: list_all2_induct)
  case Nil
  then show ?case by (simp add: steps.steps_done)
next
  case (Cons e es u us)
  from Cons.hyps(1) have "steps E body acc e (u acc)" by (simp add: carries_def)
  with Cons.IH [of "u acc"] show ?case by (simp add: steps_append)
qed

lemma enc_ptr_somes: "concat (map (enc_ptr f) ps) = concat (map f (somes ps))"
  by (induction ps) (auto simp: enc_ptr_def somes_def List.map_filter_def split: option.splits)

section \<open>Composites\<close>

lemma consumes_region:
  assumes "steps E body acc e acc'"
  shows "consumes E (\<lambda>b. if \<not> HasExpectBuffer (hlen (mkh t e)) b then RFail
     else let mapEnd = cursor b + hlen (mkh t e) in while_read (\<lambda>c. cursor c < mapEnd) body acc b) e acc'"
  by (rule consumesI) (use while_steps [OF assms] in \<open>simp add: rview_hlen rview_expect\<close>)

lemma consumes_vector:
  assumes "steps E (\<lambda>vh acc b1. mapR (\<lambda>x. acc @ [x]) (item (Suc d) vh b1)) old e xs" and "guard_valid d"
  shows "consumes E (ReadValue_vector d item old (mkh t e)) e xs"
proof (rule consumesI)
  fix b pre post
  assume v: "rview E b pre e post"
  then have "\<not> cursor b > 2 ^ 32 - 1 - length e" "\<not> cursor b + length e > length (rdata b)"
    by (auto simp: rview_def)
  with while_steps [OF assms(1) v] assms(2)
  show "ReadValue_vector d item old (mkh t e) b = ROk xs (advanceR (length e) b)"
    by (simp add: ReadValue_vector_def rview_hlen [OF v])
qed

lemma steps_vector:
  assumes "\<And>x. x \<in> set xs \<Longrightarrow> consumes E (item (Suc d) (mkh TAG_VECTOR_ITEM (f x))) (f x) (g x)"
  shows "steps E (\<lambda>vh acc b1. mapR (\<lambda>x. acc @ [x]) (item (Suc d) vh b1)) old
    (concat (map (\<lambda>x. tlv TAG_VECTOR_ITEM (f x)) xs)) (old @ map g xs)"
  using assms
proof (induction xs arbitrary: old)
  case Nil
  then show ?case by (simp add: steps.steps_done)
next
  case (Cons x xs)
  have "consumes E (\<lambda>b1. mapR (\<lambda>x. old @ [x]) (item (Suc d) (mkh TAG_VECTOR_ITEM (f x)) b1)) (f x) (old @ [g x])"
    by (rule consumes_map) (use Cons.prems in auto)
  with Cons.IH [of "old @ [g x]"] Cons.prems show ?case by (auto intro: steps_field)
qed

lemma consumes_ptr [rd_intro]:
  "consumes E (r (Suc d) h) e x \<Longrightarrow> guard_valid d \<Longrightarrow> consumes E (ReadValue_ptr d r h) e (Some x)"
  unfolding ReadValue_ptr_def [abs_def] by (simp add: consumes_map)

lemma consumes_readable [rd_intro]:
  assumes "decodes E dec e x"
  shows "consumes E (ReadValue_readable dec (mkh t e)) e x"
proof (rule consumesI)
  fix b pre post
  assume v: "rview E b pre e post"
  let ?b = "b\<lparr>total := cursor b + length e\<rparr>"
  have "rview E ?b pre e post" "total ?b = length pre + length e" using v by (auto simp: rview_def)
  with assms have "dec ?b = ROk x (advanceR (length e) ?b)" unfolding decodes_def by blast
  then show "ReadValue_readable dec (mkh t e) b = ROk x (advanceR (length e) b)"
    by (simp add: ReadValue_readable_def rview_hlen [OF v] rview_expect [OF v] advanceR_def)
qed

text \<open>A key, then a value: the body of the map readers.\<close>

lemma consumes_key_value:
  assumes "consumes E (rv (mkh t2 e)) e v"
  shows "consumes E (\<lambda>b. bindR (ReadHead b) (\<lambda>keyHead b1.
      bindR (ReadValue_string [] keyHead b1) (\<lambda>itemKey b2.
      bindR (ReadHead b2) (\<lambda>valueHead b3. mapR (\<lambda>x. emplace itemKey x acc) (rv valueHead b3)))))
    (tlv t1 (str_bytes k) @ tlv t2 e) (emplace k v acc)"
  by (rule consumes_tlv_then [where x = k])
     (use consumes_string [of E "[]"] assms in \<open>auto intro!: consumes_tlv consumes_map\<close>)

lemma steps_key_values:
  assumes "\<And>k v. (k, v) \<in> set m \<Longrightarrow> consumes E (rv (mkh t2 (f v))) (f v) v"
    and "map_ok (acc @ m)"
  shows "steps E (\<lambda>keyHead acc b1.
      bindR (ReadValue_string [] keyHead b1) (\<lambda>itemKey b2.
      bindR (ReadHead b2) (\<lambda>valueHead b3. mapR (\<lambda>x. emplace itemKey x acc) (rv valueHead b3)))) acc
    (concat (map (\<lambda>kv. tlv t1 (str_bytes (fst kv)) @ tlv t2 (f (snd kv))) m)) (acc @ m)"
  using assms
proof (induction m arbitrary: acc)
  case Nil
  then show ?case by (simp add: steps.steps_done)
next
  case (Cons kv m)
  obtain k v where kv: "kv = (k, v)" by fastforce
  have last: "emplace k v acc = acc @ [(k, v)]"
    by (rule emplace_last) (use Cons.prems(2) in \<open>auto simp: kv map_ok_def sorted_wrt_append\<close>)
  have rest: "steps E (\<lambda>keyHead acc b1.
      bindR (ReadValue_string [] keyHead b1) (\<lambda>itemKey b2.
      bindR (ReadHead b2) (\<lambda>valueHead b3. mapR (\<lambda>x. emplace itemKey x acc) (rv valueHead b3))))
    (acc @ [(k, v)]) (concat (map (\<lambda>kv. tlv t1 (str_bytes (fst kv)) @ tlv t2 (f (snd kv))) m))
    ((acc @ [(k, v)]) @ m)"
    by (rule Cons.IH) (use Cons.prems kv in auto)
  have "consumes E (rv (mkh t2 (f v))) (f v) v" by (rule Cons.prems(1) [of k]) (simp add: kv)
  then have item: "consumes E (\<lambda>b. bindR (ReadHead b) (\<lambda>keyHead b1.
      bindR (ReadValue_string [] keyHead b1) (\<lambda>itemKey b2.
      bindR (ReadHead b2) (\<lambda>valueHead b3. mapR (\<lambda>x. emplace itemKey x acc) (rv valueHead b3)))))
    (tlv t1 (str_bytes k) @ tlv t2 (f v)) (acc @ [(k, v)])"
    unfolding last [symmetric] by (rule consumes_key_value)
  from steps.steps_item [OF item _ rest] show ?case by (simp add: kv)
qed

lemma consumes_item_map [rd_intro]:
  "map_ok m \<Longrightarrow> consumes E (ReadValue_item_map [] (mkh t (enc_item_map m))) (enc_item_map m) m"
  unfolding ReadValue_item_map_def [abs_def] enc_item_map_def
  by (rule consumes_region, rule steps_key_values [where acc = "[]" and f = "\<lambda>v. v", simplified append_Nil])
     (auto intro: rd_intro)

lemma index_bytes: "n < 2 ^ 32 \<Longrightarrow> le_bytes 4 n = enc_word (word_of_nat n :: u32)"
  by (simp add: enc_word_def unat_of_nat take_bit_eq_mod)

lemma consumes_index:
  assumes "n < 2 ^ 32" and "consumes E (f (word_of_nat n)) e x"
  shows "consumes E (\<lambda>b. bindR (ReadHead b) (\<lambda>h b1. bindR (ReadValue_u32 E h b1) f)) (enc_variant n e) x"
  unfolding enc_variant_def index_bytes [OF assms(1)]
  by (rule consumes_tlv_then, rule consumes_u32, rule assms(2))

lemma consumes_detail [rd_intro]:
  "consumes E (ReadValue_detail E h) (enc_detail_value v) v"
  unfolding ReadValue_detail_def [abs_def] enc_detail_value_def
  by (rule consumes_index)
     (cases v; auto simp: ReadVariant_detail_def [abs_def] intro!: consumes_tlv consumes_map
       intro: rd_intro consumes_string [of E "[]", simplified])+

lemma consumes_details [rd_intro]:
  "map_ok m \<Longrightarrow> consumes E (ReadValue_details E [] (mkh t (enc_details m))) (enc_details m) m"
  unfolding ReadValue_details_def [abs_def] enc_details_def
  by (rule consumes_region, rule steps_key_values [where acc = "[]", simplified append_Nil])
     (auto intro: rd_intro)

section \<open>Entry values\<close>

text \<open>The values that can be read back: pointers are not null, external objects survive their
  own codec, objects are maps, and the nesting fits the recursion guard.\<close>

fun entry_ok :: "ext \<Rightarrow> entry_value \<Rightarrow> bool" and object_ok :: "ext \<Rightarrow> object \<Rightarrow> bool" where
  "entry_ok E (VWant p) \<longleftrightarrow> (case p of None \<Rightarrow> False | Some w \<Rightarrow> want_codec_ok E w)"
| "entry_ok E (VPixelMap p) \<longleftrightarrow> (case p of None \<Rightarrow> False | Some x \<Rightarrow> pixel_codec_ok E x)"
| "entry_ok E (VObject None) \<longleftrightarrow> False"
| "entry_ok E (VObject (Some m)) \<longleftrightarrow> map_ok m \<and> object_ok E m"
| "entry_ok E _ \<longleftrightarrow> True"
| "object_ok E [] \<longleftrightarrow> True"
| "object_ok E ((k, v) # m) \<longleftrightarrow> entry_ok E v \<and> object_ok E m"

fun nesting :: "entry_value \<Rightarrow> nat" and object_nesting :: "object \<Rightarrow> nat" where
  "nesting (VObject (Some m)) = Suc (object_nesting m)"
| "nesting _ = 0"
| "object_nesting [] = 0"
| "object_nesting ((k, v) # m) = max (nesting v) (object_nesting m)"

abbreviation read_variant :: "ext \<Rightarrow> nat \<Rightarrow> u32 \<Rightarrow> entry_value rd" where
  "read_variant E \<equiv> ReadVariant_entry_with E (\<lambda>d'. ReadValue_object E d' [])"

lemma consumes_entry_of_variant:
  assumes "consumes E (read_variant E d (word_of_nat (variant_index v))) (enc_entry E TAG_VARIANT_VALUE v) v"
  shows "consumes E (ReadValue_entry E d h) (enc_entry_value E v) v"
  unfolding ReadValue_entry_unfold [abs_def] enc_entry_value_def
  by (rule consumes_index) (use assms in \<open>cases v; simp\<close>)+

abbreviation object_body :: "ext \<Rightarrow> nat \<Rightarrow> TLVHead \<Rightarrow> object \<Rightarrow> object rd" where
  "object_body E d \<equiv> (\<lambda>keyHead acc b1.
     bindR (ReadValue_string [] keyHead b1) (\<lambda>itemKey b2.
     bindR (ReadHead b2) (\<lambda>valueHead b3.
     mapR (\<lambda>itemValue. emplace itemKey itemValue acc) (ReadValue_entry E d valueHead b3))))"

lemma consumes_object_of_steps:
  assumes "steps E (object_body E (Suc d)) [] (enc_object E m) m" and "guard_valid d"
  shows "consumes E (ReadValue_object E d [] (mkh t (enc_object E m))) (enc_object E m) m"
  using consumes_region [OF assms(1), of t] assms(2)
  by (simp add: ReadValue_object_def [abs_def] ReadValue_object_with_def [abs_def] cong: if_cong)

lemma consumes_variant_and_object:
  "entry_ok E v \<Longrightarrow> d + 2 * nesting v \<le> MAX_DEPTH \<Longrightarrow>
     consumes E (read_variant E d (word_of_nat (variant_index v))) (enc_entry E t v) v"
  "object_ok E m \<Longrightarrow> map_ok (acc @ m) \<Longrightarrow> d + 2 * object_nesting m \<le> MAX_DEPTH \<Longrightarrow>
     steps E (object_body E d) acc (enc_object E m) (acc @ m)"
proof (induction E t v and E m arbitrary: d and d acc rule: enc_entry_enc_object.induct)
  case (11 E t m)
  then have "steps E (object_body E (Suc (Suc d))) [] (enc_object E m) ([] @ m)"
    by (intro "11.IH") auto
  then have "consumes E (ReadValue_object E (Suc d) [] (mkh t (enc_object E m))) (enc_object E m) m"
    using "11.prems"(2) by (intro consumes_object_of_steps) (auto simp: guard_valid_def)
  then show ?case
    using "11.prems"(2)
    by (auto simp: ReadVariant_entry_with_def [abs_def] guard_valid_def
        intro!: consumes_tlv consumes_map consumes_ptr)
next
  case (14 E k v m)
  have last: "emplace k v acc = acc @ [(k, v)]"
    by (rule emplace_last) (use "14.prems"(2) in \<open>auto simp: map_ok_def sorted_wrt_append\<close>)
  have "consumes E (read_variant E d (word_of_nat (variant_index v))) (enc_entry E TAG_VARIANT_VALUE v) v"
    by (rule "14.IH"(1)) (use "14.prems" in auto)
  from consumes_entry_of_variant [OF this]
  have "consumes E (ReadValue_entry E d (mkh TAG_MAP_VALUE_TYPE (enc_entry_value E v))) (enc_entry_value E v) v" .
  then have item: "consumes E (\<lambda>b. bindR (ReadHead b) (\<lambda>h. object_body E d h acc))
    (tlv TAG_MAP_KEY (str_bytes k) @ tlv TAG_MAP_VALUE_TYPE (enc_entry_value E v)) (acc @ [(k, v)])"
    unfolding last [symmetric] by (rule consumes_key_value)
  have rest: "steps E (object_body E d) (acc @ [(k, v)]) (enc_object E m) ((acc @ [(k, v)]) @ m)"
    by (rule "14.IH"(2)) (use "14.prems" in auto)
  from steps.steps_item [OF item _ rest] show ?case by (simp add: enc_entry_value_def)
next
  case (8 E t p)
  then obtain w where "p = Some w" "want_codec_ok E w" by (auto split: option.splits)
  then show ?case
    by (auto simp: ReadVariant_entry_with_def [abs_def] enc_ptr_def
        intro!: consumes_tlv consumes_map intro: rd_intro)
next
  case (9 E t p)
  then obtain x where "p = Some x" "pixel_codec_ok E x" by (auto split: option.splits)
  then show ?case
    by (simp add: ReadVariant_entry_with_def [abs_def] enc_ptr_def consumes_pixel)
next
  case (13 E)
  then show ?case by (simp add: steps.steps_done)
qed (auto simp: ReadVariant_entry_with_def [abs_def] intro!: consumes_tlv consumes_map consumes_blank
    intro: rd_intro consumes_string [of _ "[]", simplified])

lemma consumes_entry [rd_intro]:
  "entry_ok E v \<Longrightarrow> d + 2 * nesting v \<le> MAX_DEPTH \<Longrightarrow>
   consumes E (ReadValue_entry E d h) (enc_entry_value E v) v"
  by (rule consumes_entry_of_variant, rule consumes_variant_and_object)

section \<open>The contract of a serializable class\<close>

locale tlv_class = tlv_decoder decodeTLV
  for decodeTLV :: "'a rd" +
  fixes E :: ext
    and encodeTLV :: "'a \<Rightarrow> writer"
    and countTLV :: "'a \<Rightarrow> nat"
    and enc :: "'a \<Rightarrow> byte list"
    and pad :: "'a \<Rightarrow> nat"
    and ok :: "'a \<Rightarrow> bool"
    and norm :: "'a \<Rightarrow> 'a"
  assumes encode_emits: "ok x \<Longrightarrow> emits E (encodeTLV x) (enc x)"
    and count_covers: "ok x \<Longrightarrow> countTLV x = length (enc x) + 6 * pad x"
    and decode_reads: "ok x \<Longrightarrow> decodes E decodeTLV (enc x @ replicate (6 * k) 0) (norm x)"
begin

lemma encode_bytes:
  assumes "ok x" and "countTLV x < 2 ^ 32" and "countTLV x \<le> rsize_max E"
  shows "Encode (countTLV x) (encodeTLV x) = (True, enc x @ replicate (6 * pad x) 0)"
  by (rule Encode_emits [OF encode_emits [OF assms(1)] count_covers [OF assms(1)] assms(2,3)])

lemma decode_encoded:
  assumes "ok x" and "length (enc x) + 6 * k < 2 ^ 32" and "length (enc x) + 6 * k \<le> rsize_max E"
  shows "\<exists>b. Decode decodeTLV (enc x @ replicate (6 * k) 0) = ROk (norm x) b"
proof -
  let ?e = "enc x @ replicate (6 * k) 0" and ?b = "mk_ReadOnlyBuffer (enc x @ replicate (6 * k) 0)"
  have "rview E ?b [] ?e []" "total ?b = length ([] :: byte list) + length ?e"
    using assms by (auto simp: rview_def mk_ReadOnlyBuffer_def)
  with decode_reads [OF assms(1), of k] show ?thesis unfolding decodes_def Decode_def by blast
qed

theorem roundtrip:
  assumes "ok x" and "countTLV x < 2 ^ 32" and "countTLV x \<le> rsize_max E"
  shows "\<exists>bs b. Encode (countTLV x) (encodeTLV x) = (True, bs) \<and> Decode decodeTLV bs = ROk (norm x) b"
  using encode_bytes [OF assms] decode_encoded [OF assms(1), of "pad x"] assms count_covers [OF assms(1)]
  by simp

lemma decodes_exact: "ok x \<Longrightarrow> decodes E decodeTLV (enc x) (norm x)"
  using decode_reads [of x 0] by simp

lemma member_reads: "ok x \<Longrightarrow> consumes E (ReadValue_readable decodeTLV (mkh t (enc x))) (enc x) (norm x)"
  by (intro consumes_readable decodes_exact)

end

end
