(* ===== verification/Paste_Entry.thy ===== *)
theory Paste_Entry
  imports Tlv_Parse "HOL-Library.Monad_Syntax"
begin

text \<open>
  \<open>framework/innerkits\<close>: \<open>MineCustomData\<close>, \<open>CommonUtils\<close> and \<open>PasteDataEntry\<close>
  (\<open>paste_data_entry.h/.cpp\<close>). An entry is one representation of a record: a data type
  identifier, a MIME type and a value. Its conversions return a \<open>shared_ptr\<close>, hence an
  option; the outer option of a \<open>run\<close> is \<open>None\<close> where the C++ dereferences a null
  pointer (an entry value that holds a null \<open>shared_ptr<Object>\<close>). Objects are values here:
  the model does not follow updates through a shared object into other entries.
\<close>

type_synonym 'a run = "'a option"

definition MIMETYPE_PIXELMAP :: string where "MIMETYPE_PIXELMAP = ''pixelMap''"
definition MIMETYPE_TEXT_HTML :: string where "MIMETYPE_TEXT_HTML = ''text/html''"
definition MIMETYPE_TEXT_PLAIN :: string where "MIMETYPE_TEXT_PLAIN = ''text/plain''"
definition MIMETYPE_TEXT_URI :: string where "MIMETYPE_TEXT_URI = ''text/uri''"
definition MIMETYPE_TEXT_WANT :: string where "MIMETYPE_TEXT_WANT = ''text/want''"
definition PASTE_FILE_SIZE :: string where "PASTE_FILE_SIZE = ''pasteFileSize''"

lemmas mime_defs = MIMETYPE_PIXELMAP_def MIMETYPE_TEXT_HTML_def MIMETYPE_TEXT_PLAIN_def
  MIMETYPE_TEXT_URI_def MIMETYPE_TEXT_WANT_def

section \<open>CommonUtils\<close>

definition IsFileUri :: "ext \<Rightarrow> string \<Rightarrow> bool" where
  "IsFileUri E utdId \<longleftrightarrow>
     utdId = GetUtdIdFromUtdEnum E (FILE_URI E) \<or> utdId = GetUtdIdFromUtdEnum E (FILE E) \<or>
     utdId = GetUtdIdFromUtdEnum E (AUDIO E) \<or> utdId = GetUtdIdFromUtdEnum E (IMAGE E) \<or>
     utdId = GetUtdIdFromUtdEnum E (FOLDER E) \<or> utdId = GetUtdIdFromUtdEnum E (VIDEO E)"

definition Convert_enum :: "ext \<Rightarrow> i32 \<Rightarrow> string" where
  "Convert_enum E t =
     (if t = PLAIN_TEXT E \<or> t = HYPERLINK E then MIMETYPE_TEXT_PLAIN
      else if t = HTML E then MIMETYPE_TEXT_HTML
      else if t = FILE E \<or> t = IMAGE E \<or> t = VIDEO E \<or> t = AUDIO E \<or> t = FOLDER E \<or> t = FILE_URI E
      then MIMETYPE_TEXT_URI
      else if t = SYSTEM_DEFINED_PIXEL_MAP E then MIMETYPE_PIXELMAP
      else if t = OPENHARMONY_WANT E then MIMETYPE_TEXT_WANT
      else GetUtdIdFromUtdEnum E t)"

definition Convert2MimeType :: "ext \<Rightarrow> string \<Rightarrow> string" where
  "Convert2MimeType E utdId =
     (if utdId = GetUtdIdFromUtdEnum E (PLAIN_TEXT E) \<or> utdId = GetUtdIdFromUtdEnum E (HYPERLINK E)
      then MIMETYPE_TEXT_PLAIN
      else if utdId = GetUtdIdFromUtdEnum E (HTML E) then MIMETYPE_TEXT_HTML
      else if IsFileUri E utdId then MIMETYPE_TEXT_URI
      else if utdId = GetUtdIdFromUtdEnum E (SYSTEM_DEFINED_PIXEL_MAP E) then MIMETYPE_PIXELMAP
      else if utdId = GetUtdIdFromUtdEnum E (OPENHARMONY_WANT E) then MIMETYPE_TEXT_WANT
      else utdId)"

definition Convert2UtdId :: "ext \<Rightarrow> i32 \<Rightarrow> string \<Rightarrow> string" where
  "Convert2UtdId E uDType mimeType =
     (if mimeType = MIMETYPE_TEXT_PLAIN \<and> uDType = HYPERLINK E then GetUtdIdFromUtdEnum E (HYPERLINK E)
      else if mimeType = MIMETYPE_TEXT_PLAIN then GetUtdIdFromUtdEnum E (PLAIN_TEXT E)
      else if mimeType = MIMETYPE_TEXT_URI then GetUtdIdFromUtdEnum E (FILE_URI E)
      else if mimeType = MIMETYPE_TEXT_HTML then GetUtdIdFromUtdEnum E (HTML E)
      else if mimeType = MIMETYPE_TEXT_WANT then GetUtdIdFromUtdEnum E (OPENHARMONY_WANT E)
      else if mimeType = MIMETYPE_PIXELMAP then GetUtdIdFromUtdEnum E (SYSTEM_DEFINED_PIXEL_MAP E)
      else mimeType)"

definition Convert_mime :: "ext \<Rightarrow> i32 \<Rightarrow> string \<Rightarrow> i32" where
  "Convert_mime E uDType mimeType =
     (if uDType \<noteq> UD_BUTT E then uDType
      else if mimeType = MIMETYPE_TEXT_URI then FILE_URI E
      else if mimeType = MIMETYPE_TEXT_PLAIN then PLAIN_TEXT E
      else if mimeType = MIMETYPE_TEXT_HTML then HTML E
      else if mimeType = MIMETYPE_TEXT_WANT then OPENHARMONY_WANT E
      else if mimeType = MIMETYPE_PIXELMAP then SYSTEM_DEFINED_PIXEL_MAP E
      else if GetUtdEnumFromUtdId E mimeType \<noteq> UD_BUTT E then GetUtdEnumFromUtdId E mimeType
      else APPLICATION_DEFINED_RECORD E)"

section \<open>MineCustomData\<close>

definition AddItemData :: "string \<Rightarrow> byte list \<Rightarrow> item_data \<Rightarrow> item_data" where
  "AddItemData mimeType arrayBuffer itemData = emplace mimeType arrayBuffer itemData"

definition TAG_ITEM_DATA :: u16 where "TAG_ITEM_DATA = 257"

definition EncodeTLV_custom :: "ext \<Rightarrow> item_data \<Rightarrow> writer" where
  "EncodeTLV_custom E itemData = Write_item_map E TAG_ITEM_DATA itemData"

definition CountTLV_custom :: "item_data \<Rightarrow> nat" where
  "CountTLV_custom itemData = Count_item_map itemData"

definition decode_custom_field :: "TLVHead \<Rightarrow> item_data \<Rightarrow> item_data rd" where
  "decode_custom_field h acc b =
     (if head_tag h = TAG_ITEM_DATA then ReadValue_item_map acc h b
      else mapR (\<lambda>_. acc) (SkipR h b))"

definition DecodeTLV_custom :: "item_data \<Rightarrow> item_data rd" where
  "DecodeTLV_custom self = decode_fields decode_custom_field self"

section \<open>PasteDataEntry\<close>

record PasteDataEntry =
  ent_utdId :: string
  ent_mimeType :: string
  ent_value :: entry_value
  ent_rawDataSize :: int

definition empty_entry :: PasteDataEntry where
  "empty_entry = \<lparr>ent_utdId = [], ent_mimeType = [], ent_value = VMonostate, ent_rawDataSize = 0\<rparr>"

definition mk_entry :: "ext \<Rightarrow> string \<Rightarrow> entry_value \<Rightarrow> PasteDataEntry" where
  "mk_entry E utdId v =
     \<lparr>ent_utdId = utdId, ent_mimeType = Convert2MimeType E utdId, ent_value = v, ent_rawDataSize = 0\<rparr>"

definition mk_entry_mime :: "string \<Rightarrow> string \<Rightarrow> entry_value \<Rightarrow> PasteDataEntry" where
  "mk_entry_mime utdId mimeType v =
     \<lparr>ent_utdId = utdId, ent_mimeType = mimeType, ent_value = v, ent_rawDataSize = 0\<rparr>"

definition TAG_ENTRY_UTDID :: u16 where "TAG_ENTRY_UTDID = 257"
definition TAG_ENTRY_MIMETYPE :: u16 where "TAG_ENTRY_MIMETYPE = 258"
definition TAG_ENTRY_VALUE :: u16 where "TAG_ENTRY_VALUE = 259"

definition EncodeTLV_entry :: "ext \<Rightarrow> PasteDataEntry \<Rightarrow> writer" where
  "EncodeTLV_entry E e =
     andW_list [Write_string E TAG_ENTRY_UTDID (ent_utdId e),
                Write_string E TAG_ENTRY_MIMETYPE (ent_mimeType e),
                Write_entry_value E TAG_ENTRY_VALUE (ent_value e)]"

definition CountTLV_entry :: "ext \<Rightarrow> PasteDataEntry \<Rightarrow> nat" where
  "CountTLV_entry E e =
     Count_string (ent_utdId e) + Count_string (ent_mimeType e) + Count_entry_value E (ent_value e)"

definition decode_entry_field :: "ext \<Rightarrow> nat \<Rightarrow> TLVHead \<Rightarrow> PasteDataEntry \<Rightarrow> PasteDataEntry rd" where
  "decode_entry_field E d h e b =
     (if head_tag h = TAG_ENTRY_UTDID
      then mapR (\<lambda>s. e\<lparr>ent_utdId := s\<rparr>) (ReadValue_string (ent_utdId e) h b)
      else if head_tag h = TAG_ENTRY_MIMETYPE
      then mapR (\<lambda>s. e\<lparr>ent_mimeType := s\<rparr>) (ReadValue_string (ent_mimeType e) h b)
      else if head_tag h = TAG_ENTRY_VALUE
      then mapR (\<lambda>v. e\<lparr>ent_value := v\<rparr>) (ReadValue_entry E d h b)
      else mapR (\<lambda>_. e) (SkipR h b))"

definition DecodeTLV_entry :: "ext \<Rightarrow> nat \<Rightarrow> PasteDataEntry \<Rightarrow> PasteDataEntry rd" where
  "DecodeTLV_entry E d self = decode_fields (decode_entry_field E d) self"

subsection \<open>Conversions\<close>

definition or_empty :: "string option \<Rightarrow> string" where
  "or_empty s = (case s of None \<Rightarrow> [] | Some x \<Rightarrow> x)"

definition ConvertToPlainText :: "ext \<Rightarrow> PasteDataEntry \<Rightarrow> string option run" where
  "ConvertToPlainText E e =
     (case ent_value e of
        VString s \<Rightarrow> Some (Some s)
      | VObject p \<Rightarrow> do {
          obj \<leftarrow> p;
          let key = (if ent_utdId e = GetUtdIdFromUtdEnum E (PLAIN_TEXT E) then CONTENT E
                     else if ent_utdId e = GetUtdIdFromUtdEnum E (HTML E) then PLAIN_CONTENT E
                     else URL E);
          Some (Some (or_empty (GetValue_string E obj key)))
        }
      | _ \<Rightarrow> Some None)"

definition ConvertToHtml :: "ext \<Rightarrow> PasteDataEntry \<Rightarrow> string option run" where
  "ConvertToHtml E e =
     (if ent_utdId e \<noteq> GetUtdIdFromUtdEnum E (HTML E) then Some None
      else case ent_value e of
        VString s \<Rightarrow> Some (Some s)
      | VObject p \<Rightarrow> do { obj \<leftarrow> p; Some (Some (or_empty (GetValue_string E obj (HTML_CONTENT E)))) }
      | _ \<Rightarrow> Some None)"

definition ConvertToUri :: "ext \<Rightarrow> PasteDataEntry \<Rightarrow> uri option run" where
  "ConvertToUri E e =
     (if \<not> IsFileUri E (ent_utdId e) then Some None
      else case ent_value e of
        VString s \<Rightarrow> Some (Some (mk_uri E s))
      | VObject p \<Rightarrow> do {
          obj \<leftarrow> p;
          Some (Some (mk_uri E (or_empty (GetValue_string E obj (FILE_URI_PARAM E)))))
        }
      | _ \<Rightarrow> Some None)"

definition ConvertToWant :: "ext \<Rightarrow> PasteDataEntry \<Rightarrow> want option run" where
  "ConvertToWant E e =
     (if ent_utdId e \<noteq> GetUtdIdFromUtdEnum E (OPENHARMONY_WANT E) then Some None
      else case ent_value e of VWant w \<Rightarrow> Some w | _ \<Rightarrow> Some None)"

definition ConvertToPixelMap :: "ext \<Rightarrow> PasteDataEntry \<Rightarrow> pixel_map option run" where
  "ConvertToPixelMap E e =
     (if ent_utdId e \<noteq> GetUtdIdFromUtdEnum E (SYSTEM_DEFINED_PIXEL_MAP E) then Some None
      else case ent_value e of
        VPixelMap p \<Rightarrow> Some p
      | VObject p \<Rightarrow> do {
          obj \<leftarrow> p;
          Some (case GetValue_string E obj (UNIFORM_DATA_TYPE E) of
                  None \<Rightarrow> None
                | Some objType \<Rightarrow>
                    if objType \<noteq> GetUtdIdFromUtdEnum E (SYSTEM_DEFINED_PIXEL_MAP E) then None
                    else (case map_of obj (PIXEL_MAP E) of Some (VPixelMap px) \<Rightarrow> px | _ \<Rightarrow> None))
        }
      | _ \<Rightarrow> Some None)"

text \<open>\<open>object->value_[PIXEL_MAP]\<close> leaves a \<open>monostate\<close> under an absent key: the entry
  after \<open>ConvertToPixelMap\<close>.\<close>

definition ConvertToPixelMap_entry :: "ext \<Rightarrow> PasteDataEntry \<Rightarrow> PasteDataEntry" where
  "ConvertToPixelMap_entry E e =
     (case ent_value e of
        VObject (Some obj) \<Rightarrow>
          if ent_utdId e = GetUtdIdFromUtdEnum E (SYSTEM_DEFINED_PIXEL_MAP E) \<and>
             GetValue_string E obj (UNIFORM_DATA_TYPE E) =
               Some (GetUtdIdFromUtdEnum E (SYSTEM_DEFINED_PIXEL_MAP E))
          then e\<lparr>ent_value := VObject (Some (emplace (PIXEL_MAP E) VMonostate obj))\<rparr>
          else e
      | _ \<Rightarrow> e)"

definition ConvertToCustomData :: "ext \<Rightarrow> PasteDataEntry \<Rightarrow> item_data option run" where
  "ConvertToCustomData E e =
     (case ent_value e of
        VBytes bs \<Rightarrow> Some (Some (AddItemData (ent_mimeType e) bs []))
      | VObject p \<Rightarrow> do {
          obj \<leftarrow> p;
          Some (case GetValue_string E obj (UNIFORM_DATA_TYPE E) of
                  None \<Rightarrow> None
                | Some objType \<Rightarrow>
                    (case GetValue_bytes E obj (ARRAY_BUFFER E) of
                       None \<Rightarrow> None
                     | Some recordValue \<Rightarrow> Some (AddItemData (ent_utdId e) recordValue [])))
        }
      | _ \<Rightarrow> Some None)"

definition nonempty_ptr :: "string option \<Rightarrow> bool" where
  "nonempty_ptr p = (case p of None \<Rightarrow> False | Some s \<Rightarrow> s \<noteq> [])"

definition HasContentByMimeType :: "ext \<Rightarrow> string \<Rightarrow> PasteDataEntry \<Rightarrow> bool run" where
  "HasContentByMimeType E mimeType e =
     (if mimeType = MIMETYPE_PIXELMAP then map_option (\<lambda>p. p \<noteq> None) (ConvertToPixelMap E e)
      else if mimeType = MIMETYPE_TEXT_HTML then map_option nonempty_ptr (ConvertToHtml E e)
      else if mimeType = MIMETYPE_TEXT_PLAIN then map_option nonempty_ptr (ConvertToPlainText E e)
      else if mimeType = MIMETYPE_TEXT_URI then map_option nonempty_ptr (ConvertToUri E e)
      else if mimeType = MIMETYPE_TEXT_WANT then map_option (\<lambda>p. p \<noteq> None) (ConvertToWant E e)
      else map_option (\<lambda>p. p \<noteq> None) (ConvertToCustomData E e))"

definition HasContent :: "ext \<Rightarrow> string \<Rightarrow> PasteDataEntry \<Rightarrow> bool run" where
  "HasContent E utdId e = HasContentByMimeType E (Convert2MimeType E utdId) e"

definition SetFileSize_entry :: "i64 \<Rightarrow> PasteDataEntry \<Rightarrow> PasteDataEntry" where
  "SetFileSize_entry fileSize e =
     (case ent_value e of
        VObject (Some obj) \<Rightarrow> e\<lparr>ent_value := VObject (Some (assign PASTE_FILE_SIZE (VInt64 fileSize) obj))\<rparr>
      | _ \<Rightarrow> e)"

definition GetFileSize_entry :: "ext \<Rightarrow> PasteDataEntry \<Rightarrow> i64" where
  "GetFileSize_entry E e =
     (case ent_value e of
        VObject (Some obj) \<Rightarrow> (case GetValue_int64 E obj PASTE_FILE_SIZE of None \<Rightarrow> 0 | Some n \<Rightarrow> n)
      | _ \<Rightarrow> 0)"

section \<open>Serialization: contract and round trip\<close>

lemma safe_decode_custom_field [rd_safe]: "safe_rd (decode_custom_field h acc)"
  unfolding decode_custom_field_def [abs_def] by (intro rd_safe)

lemma steps_custom:
  assumes "map_ok m"
  shows "steps E decode_custom_field [] (tlv TAG_ITEM_DATA (enc_item_map m) @ replicate (6 * k) 0) m"
proof (rule steps_field)
  show "consumes E (decode_custom_field (mkh TAG_ITEM_DATA (enc_item_map m)) []) (enc_item_map m) m"
    using consumes_item_map [OF assms] by (simp add: decode_custom_field_def [abs_def])
  show "steps E decode_custom_field m (replicate (6 * k) 0) m"
    by (rule steps_padding) (simp add: decode_custom_field_def [abs_def] TAG_ITEM_DATA_def)
qed

interpretation custom_tlv: tlv_class "DecodeTLV_custom []" E "EncodeTLV_custom E" CountTLV_custom
    "\<lambda>m. tlv TAG_ITEM_DATA (enc_item_map m)" "\<lambda>_. 0" map_ok "\<lambda>m. m" for E
proof unfold_locales
  show "safe_rd (DecodeTLV_custom [])" unfolding DecodeTLV_custom_def by (intro rd_safe)
  show "emits E (EncodeTLV_custom E m) (tlv TAG_ITEM_DATA (enc_item_map m))" for m
    unfolding EncodeTLV_custom_def by (intro wr_intro)
  show "CountTLV_custom m = length (tlv TAG_ITEM_DATA (enc_item_map m)) + 6 * 0" for m
    using Count_item_map_enc [of m TAG_ITEM_DATA] by (simp add: CountTLV_custom_def)
  show "decodes E (DecodeTLV_custom []) (tlv TAG_ITEM_DATA (enc_item_map m) @ replicate (6 * k) 0) m"
    if "map_ok m" for m k
    unfolding DecodeTLV_custom_def by (intro rd_intro steps_custom that)
qed

definition enc_PasteDataEntry :: "ext \<Rightarrow> PasteDataEntry \<Rightarrow> byte list" where
  "enc_PasteDataEntry E e =
     concat [tlv TAG_ENTRY_UTDID (str_bytes (ent_utdId e)),
             tlv TAG_ENTRY_MIMETYPE (str_bytes (ent_mimeType e)),
             tlv TAG_ENTRY_VALUE (enc_entry_value E (ent_value e))]"

definition entry_fits :: "ext \<Rightarrow> nat \<Rightarrow> PasteDataEntry \<Rightarrow> bool" where
  "entry_fits E d e \<longleftrightarrow> entry_ok E (ent_value e) \<and> d + 2 * nesting (ent_value e) \<le> MAX_DEPTH"

lemma safe_decode_entry_field [rd_safe]: "safe_rd (decode_entry_field E d h e)"
  unfolding decode_entry_field_def [abs_def] by (intro rd_safe)

lemma steps_entry:
  assumes "entry_fits E d e"
  shows "steps E (decode_entry_field E d) empty_entry
    ((enc_PasteDataEntry E e) @ replicate (6 * k) 0) (e\<lparr>ent_rawDataSize := 0\<rparr>)"
proof -
  let ?e1 = "empty_entry\<lparr>ent_utdId := ent_utdId e\<rparr>" and ?e2 = "e\<lparr>ent_value := VMonostate, ent_rawDataSize := 0\<rparr>"
  let ?s = "steps E (decode_entry_field E d)"
  have 1: "consumes E (decode_entry_field E d (mkh TAG_ENTRY_UTDID (str_bytes (ent_utdId e))) empty_entry)
      (str_bytes (ent_utdId e)) ?e1"
    by (simp add: decode_entry_field_def [abs_def] consumes_map [OF consumes_string] empty_entry_def)
  have 2: "consumes E (decode_entry_field E d (mkh TAG_ENTRY_MIMETYPE (str_bytes (ent_mimeType e))) ?e1)
      (str_bytes (ent_mimeType e)) ?e2"
    by (simp add: decode_entry_field_def [abs_def] consumes_map [OF consumes_string] empty_entry_def
        TAG_ENTRY_UTDID_def TAG_ENTRY_MIMETYPE_def)
  have 3: "consumes E (decode_entry_field E d (mkh TAG_ENTRY_VALUE (enc_entry_value E (ent_value e))) ?e2)
      (enc_entry_value E (ent_value e)) (e\<lparr>ent_rawDataSize := 0\<rparr>)"
    using assms by (simp add: decode_entry_field_def [abs_def] consumes_map [OF consumes_entry]
        entry_fits_def TAG_ENTRY_UTDID_def TAG_ENTRY_MIMETYPE_def TAG_ENTRY_VALUE_def)
  have "?s (e\<lparr>ent_rawDataSize := 0\<rparr>) (replicate (6 * k) 0) (e\<lparr>ent_rawDataSize := 0\<rparr>)"
    by (rule steps_padding)
       (simp add: decode_entry_field_def [abs_def] TAG_ENTRY_UTDID_def TAG_ENTRY_MIMETYPE_def TAG_ENTRY_VALUE_def)
  from steps_field [OF 1 steps_field [OF 2 steps_field [OF 3 this]]]
  show ?thesis by (simp add: enc_PasteDataEntry_def)
qed

interpretation entry_tlv: tlv_class "DecodeTLV_entry E d empty_entry" E "EncodeTLV_entry E" "CountTLV_entry E"
    "enc_PasteDataEntry E" "\<lambda>e. slack_entry E (ent_value e)" "entry_fits E d"
    "\<lambda>e. e\<lparr>ent_rawDataSize := 0\<rparr>" for E d
proof unfold_locales
  show "safe_rd (DecodeTLV_entry E d empty_entry)" unfolding DecodeTLV_entry_def by (intro rd_safe)
  show "emits E (EncodeTLV_entry E e) (enc_PasteDataEntry E e)" for e
    unfolding EncodeTLV_entry_def enc_PasteDataEntry_def
    by (rule emits_andW_list) (simp add: emits_string emits_entry_value)
  show "CountTLV_entry E e = length (enc_PasteDataEntry E e) + 6 * slack_entry E (ent_value e)" for e
    by (simp add: CountTLV_entry_def enc_PasteDataEntry_def Count_string_def
        Count_entry_value_enc [of _ _ TAG_ENTRY_VALUE])
  show "decodes E (DecodeTLV_entry E d empty_entry) ((enc_PasteDataEntry E e) @ replicate (6 * k) 0)
      (e\<lparr>ent_rawDataSize := 0\<rparr>)" if "entry_fits E d e" for e k
    unfolding DecodeTLV_entry_def by (intro rd_intro steps_entry that)
qed

section \<open>Data type identifiers\<close>

definition known_enums :: "ext \<Rightarrow> i32 list" where
  "known_enums E = [PLAIN_TEXT E, HYPERLINK E, HTML E, FILE E, IMAGE E, VIDEO E, AUDIO E,
     FOLDER E, FILE_URI E, SYSTEM_DEFINED_PIXEL_MAP E, OPENHARMONY_WANT E, APPLICATION_DEFINED_RECORD E]"

definition known_mimes :: "string list" where
  "known_mimes = [MIMETYPE_PIXELMAP, MIMETYPE_TEXT_HTML, MIMETYPE_TEXT_PLAIN, MIMETYPE_TEXT_URI, MIMETYPE_TEXT_WANT]"

lemma utd_ids_inject:
  "utd_ok E \<Longrightarrow> a \<in> set (known_enums E) \<Longrightarrow> b \<in> set (known_enums E) \<Longrightarrow>
   GetUtdIdFromUtdEnum E a = GetUtdIdFromUtdEnum E b \<longleftrightarrow> a = b"
  unfolding utd_ok_def utd_enums_def known_enums_def list.sel by metis

lemma utd_ids_neq:
  assumes "utd_ok E"
  shows "distinct (map (GetUtdIdFromUtdEnum E) (known_enums E))"
proof -
  have "distinct (known_enums E)" using assms by (simp add: utd_ok_def utd_enums_def known_enums_def)
  moreover have "inj_on (GetUtdIdFromUtdEnum E) (set (known_enums E))"
    using utd_ids_inject [OF assms] by (simp add: inj_on_def)
  ultimately show ?thesis by (simp add: distinct_map)
qed

lemma Convert2MimeType_known:
  assumes "utd_ok E" and "t \<in> set (known_enums E)"
  shows "Convert2MimeType E (GetUtdIdFromUtdEnum E t) = Convert_enum E t"
proof -
  have sub: "set [PLAIN_TEXT E, HYPERLINK E, HTML E, FILE E, IMAGE E, VIDEO E, AUDIO E, FOLDER E,
      FILE_URI E, SYSTEM_DEFINED_PIXEL_MAP E, OPENHARMONY_WANT E] \<subseteq> set (known_enums E)"
    by (simp add: known_enums_def)
  then show ?thesis
    unfolding Convert2MimeType_def Convert_enum_def IsFileUri_def
    by (simp add: utd_ids_inject [OF assms(1)] assms(2) disj_commute disj_left_commute)
qed

lemma Convert_enum_known:
  assumes "distinct (known_enums E)"
  shows "Convert_enum E (HYPERLINK E) = MIMETYPE_TEXT_PLAIN" "Convert_enum E (PLAIN_TEXT E) = MIMETYPE_TEXT_PLAIN"
    "Convert_enum E (FILE_URI E) = MIMETYPE_TEXT_URI" "Convert_enum E (HTML E) = MIMETYPE_TEXT_HTML"
    "Convert_enum E (OPENHARMONY_WANT E) = MIMETYPE_TEXT_WANT"
    "Convert_enum E (SYSTEM_DEFINED_PIXEL_MAP E) = MIMETYPE_PIXELMAP"
  using assms by (simp_all add: known_enums_def Convert_enum_def eq_commute)

lemma mime_of_utd_known:
  assumes "utd_ok E" and "mimeType \<in> set known_mimes"
  shows "Convert2MimeType E (Convert2UtdId E u mimeType) = mimeType"
proof -
  have "distinct (known_enums E)"
    using assms(1) by (simp add: utd_ok_def utd_enums_def known_enums_def)
  note conv = Convert2MimeType_known [OF assms(1)] Convert_enum_known [OF this]
  have mem: "HYPERLINK E \<in> set (known_enums E)" "PLAIN_TEXT E \<in> set (known_enums E)"
    "FILE_URI E \<in> set (known_enums E)" "HTML E \<in> set (known_enums E)"
    "OPENHARMONY_WANT E \<in> set (known_enums E)" "SYSTEM_DEFINED_PIXEL_MAP E \<in> set (known_enums E)"
    by (simp_all add: known_enums_def)
  show ?thesis
    using assms(2) unfolding known_mimes_def list.set insert_iff empty_iff
    by (elim disjE) (simp_all add: Convert2UtdId_def conv mem mime_defs)
qed

lemma Convert2MimeType_unknown:
  "utdId \<notin> set (map (GetUtdIdFromUtdEnum E) (known_enums E)) \<Longrightarrow> Convert2MimeType E utdId = utdId"
  by (auto simp: Convert2MimeType_def IsFileUri_def known_enums_def)

lemma Convert2UtdId_unknown: "mimeType \<notin> set known_mimes \<Longrightarrow> Convert2UtdId E u mimeType = mimeType"
  by (auto simp: Convert2UtdId_def known_mimes_def)

text \<open>\<open>Convert2MimeType\<close> undoes \<open>Convert2UtdId\<close>. For every MIME type, whatever the
  record's data type is, except a custom MIME type spelled like one of the system's own
  identifiers.\<close>

theorem mime_of_utd_roundtrip:
  assumes "utd_ok E"
    and "mimeType \<in> set known_mimes \<or> mimeType \<notin> set (map (GetUtdIdFromUtdEnum E) (known_enums E))"
  shows "Convert2MimeType E (Convert2UtdId E u mimeType) = mimeType"
proof (cases "mimeType \<in> set known_mimes")
  case True
  with assms(1) show ?thesis by (rule mime_of_utd_known)
next
  case False
  with assms(2) show ?thesis by (simp add: Convert2UtdId_unknown Convert2MimeType_unknown)
qed

theorem mime_of_utd_roundtrip_witness:
  "Convert2MimeType sample_ext (Convert2UtdId sample_ext 4 MIMETYPE_TEXT_PLAIN) = MIMETYPE_TEXT_PLAIN \<and>
   Convert2MimeType sample_ext (Convert2UtdId sample_ext 99 ''app/x'') = ''app/x''"
proof -
  have "''app/x'' \<notin> set (map (GetUtdIdFromUtdEnum sample_ext) (known_enums sample_ext))"
    by (simp add: known_enums_def sample_ext_def sample_ids_def)
  moreover have "MIMETYPE_TEXT_PLAIN \<in> set known_mimes" by (simp add: known_mimes_def)
  ultimately show ?thesis using mime_of_utd_roundtrip [OF sample_utd_ok] by blast
qed

section \<open>Conversions\<close>

lemma conversions_defined:
  assumes "ent_value e \<noteq> VObject None"
  shows "ConvertToPlainText E e \<noteq> None" "ConvertToHtml E e \<noteq> None" "ConvertToUri E e \<noteq> None"
    "ConvertToWant E e \<noteq> None" "ConvertToPixelMap E e \<noteq> None" "ConvertToCustomData E e \<noteq> None"
  using assms
  by (auto simp: ConvertToPlainText_def ConvertToHtml_def ConvertToUri_def ConvertToWant_def
      ConvertToPixelMap_def ConvertToCustomData_def split: entry_value.splits)

lemma HasContentByMimeType_defined:
  "ent_value e \<noteq> VObject None \<Longrightarrow> HasContentByMimeType E m e \<noteq> None"
  using conversions_defined [of e E] by (simp add: HasContentByMimeType_def)

lemma HasContent_monostate:
  "ent_value e = VMonostate \<Longrightarrow> HasContent E u e = Some False"
  by (simp add: HasContent_def HasContentByMimeType_def ConvertToPlainText_def ConvertToHtml_def
      ConvertToUri_def ConvertToWant_def ConvertToPixelMap_def ConvertToCustomData_def nonempty_ptr_def)

lemma file_size_roundtrip:
  assumes "object_get_ok E" and "ent_value e = VObject (Some obj)" and "map_ok obj"
  shows "GetFileSize_entry E (SetFileSize_entry n e) = n"
  using assms by (simp add: GetFileSize_entry_def SetFileSize_entry_def object_get_ok_def map_of_assign)

end
