(* ===== verification/Paste_Record.thy ===== *)
theory Paste_Record
  imports Paste_Entry
begin

text \<open>
  \<open>framework/innerkits\<close>: \<open>PasteDataRecord\<close> and its \<open>Builder\<close>
  (\<open>paste_data_record.h/.cpp\<close>). A record is one copied thing with several entries, plus the
  fields of an older format (\<open>htmlText_\<close>, \<open>plainText_\<close>, \<open>uri_\<close>, \<open>want_\<close>,
  \<open>pixelMap_\<close>, \<open>udmfValue_\<close>) that only travel: \<open>EncodeTLVRemote\<close> splits the first
  entry into them and \<open>DecodeTLV\<close> joins them into an entry again. Null pointers in the vector
  of entries are \<open>None\<close>. Asking the service for the value of a delayed entry leaves the
  process and is the parameter \<open>client\<close>.
\<close>

record PasteDataRecord =
  rec_isDelay :: bool
  rec_hasGrantUriPermission :: bool
  rec_udType :: i32
  rec_dataId :: u32
  rec_recordId :: u32
  rec_from :: u32
  rec_uriPermission :: u32
  rec_convertUri :: string
  rec_textContent :: string
  rec_mimeType :: string
  rec_htmlText :: "string option"
  rec_want :: "want option"
  rec_plainText :: "string option"
  rec_uri :: "uri option"
  rec_pixelMap :: "pixel_map option"
  rec_customData :: "item_data option"
  rec_details :: "details option"
  rec_systemDefinedContents :: "details option"
  rec_udmfValue :: "entry_value option"
  rec_entries :: "PasteDataEntry option list"
  rec_entryGetter :: "nat option"
  rec_isConvertUriFromRemote :: bool

record RemoteRecordValue =
  rv_udType :: i32
  rv_mimeType :: string
  rv_plainText :: "string option"
  rv_htmlText :: "string option"
  rv_want :: "want option"
  rv_pixelMap :: "pixel_map option"
  rv_uri :: "uri option"
  rv_udmfValue :: entry_value
  rv_entries :: "PasteDataEntry option list"

record client =
  IsPasteboardService :: bool
  GetRecordValueByType :: "u32 \<Rightarrow> u32 \<Rightarrow> PasteDataEntry \<Rightarrow> PasteDataEntry" \<comment> \<open>the entry after the call\<close>

definition empty_record :: "ext \<Rightarrow> PasteDataRecord" where
  "empty_record E = \<lparr>rec_isDelay = False, rec_hasGrantUriPermission = False, rec_udType = UD_BUTT E,
     rec_dataId = 0, rec_recordId = 0, rec_from = 0, rec_uriPermission = 0, rec_convertUri = [],
     rec_textContent = [], rec_mimeType = [], rec_htmlText = None, rec_want = None,
     rec_plainText = None, rec_uri = None, rec_pixelMap = None, rec_customData = None,
     rec_details = None, rec_systemDefinedContents = None, rec_udmfValue = None, rec_entries = [],
     rec_entryGetter = None, rec_isConvertUriFromRemote = False\<rparr>"

definition MAX_TEXT_LEN :: nat where
  "MAX_TEXT_LEN = 100 * 1024 * 1024"

section \<open>Entries of a record\<close>

definition replaces :: "string \<Rightarrow> PasteDataEntry \<Rightarrow> PasteDataEntry option \<Rightarrow> bool" where
  "replaces utdType v e =
     (case e of
        None \<Rightarrow> False
      | Some x \<Rightarrow> ent_utdId x = utdType \<or>
                 ent_mimeType x = MIMETYPE_TEXT_URI \<and> ent_mimeType v = MIMETYPE_TEXT_URI)"

definition AddEntry :: "ext \<Rightarrow> string \<Rightarrow> PasteDataEntry option \<Rightarrow> PasteDataRecord \<Rightarrow> PasteDataRecord" where
  "AddEntry E utdType p r =
     (case p of
        None \<Rightarrow> r
      | Some v \<Rightarrow>
          if utdType \<noteq> ent_utdId v then r
          else case split_first (replaces utdType v) (rec_entries r) of
            Some (pre, _, post) \<Rightarrow> r\<lparr>rec_entries := pre @ Some v # post\<rparr>
          | None \<Rightarrow>
              let r1 = (if rec_entries r = []
                        then r\<lparr>rec_udType :=
                               (if GetUtdEnumFromUtdId E utdType = UD_BUTT E then APPLICATION_DEFINED_RECORD E
                                else GetUtdEnumFromUtdId E utdType)\<rparr>
                        else r)
              in r1\<lparr>rec_entries := rec_entries r1 @ [Some v]\<rparr>)"

definition AddEntryByMimeType ::
  "ext \<Rightarrow> string \<Rightarrow> PasteDataEntry option \<Rightarrow> PasteDataRecord \<Rightarrow> PasteDataRecord" where
  "AddEntryByMimeType E mimeType p r =
     (case p of
        None \<Rightarrow> r
      | Some v \<Rightarrow>
          let utdId = Convert2UtdId E (UD_BUTT E) mimeType
          in AddEntry E utdId (Some (v\<lparr>ent_utdId := utdId, ent_mimeType := mimeType\<rparr>)) r)"

definition entry_with_mime :: "string \<Rightarrow> PasteDataRecord \<Rightarrow> PasteDataEntry option" where
  "entry_with_mime mimeType r = find (\<lambda>e. ent_mimeType e = mimeType) (somes (rec_entries r))"

definition GetHtmlTextV0 :: "ext \<Rightarrow> PasteDataRecord \<Rightarrow> string option run" where
  "GetHtmlTextV0 E r =
     (case entry_with_mime MIMETYPE_TEXT_HTML r of
        Some e \<Rightarrow> ConvertToHtml E e | None \<Rightarrow> Some (rec_htmlText r))"

definition GetPlainTextV0 :: "ext \<Rightarrow> PasteDataRecord \<Rightarrow> string option run" where
  "GetPlainTextV0 E r =
     (case entry_with_mime MIMETYPE_TEXT_PLAIN r of
        Some e \<Rightarrow> ConvertToPlainText E e | None \<Rightarrow> Some (rec_plainText r))"

definition GetPixelMapV0 :: "ext \<Rightarrow> PasteDataRecord \<Rightarrow> pixel_map option run" where
  "GetPixelMapV0 E r =
     (case entry_with_mime MIMETYPE_PIXELMAP r of
        Some e \<Rightarrow> ConvertToPixelMap E e | None \<Rightarrow> Some (rec_pixelMap r))"

definition GetOriginUri :: "ext \<Rightarrow> PasteDataRecord \<Rightarrow> uri option run" where
  "GetOriginUri E r =
     (case entry_with_mime MIMETYPE_TEXT_URI r of
        Some e \<Rightarrow> ConvertToUri E e | None \<Rightarrow> Some (rec_uri r))"

definition GetUriV0 :: "ext \<Rightarrow> PasteDataRecord \<Rightarrow> uri option run" where
  "GetUriV0 E r =
     (if rec_convertUri r = [] then GetOriginUri E r else Some (Some (mk_uri E (rec_convertUri r))))"

definition GetWant :: "ext \<Rightarrow> PasteDataRecord \<Rightarrow> want option run" where
  "GetWant E r =
     (case entry_with_mime MIMETYPE_TEXT_WANT r of
        Some e \<Rightarrow> ConvertToWant E e | None \<Rightarrow> Some (rec_want r))"

definition GetMimeType_record :: "PasteDataRecord \<Rightarrow> string" where
  "GetMimeType_record r =
     (if rec_mimeType r \<noteq> [] then rec_mimeType r
      else case rec_entries r of Some e # _ \<Rightarrow> ent_mimeType e | _ \<Rightarrow> rec_mimeType r)"

definition matches_utd :: "ext \<Rightarrow> string \<Rightarrow> PasteDataEntry option \<Rightarrow> bool" where
  "matches_utd E utdType e =
     (case e of
        None \<Rightarrow> False
      | Some x \<Rightarrow> ent_utdId x = utdType \<or> IsFileUri E utdType \<and> IsFileUri E (ent_utdId x))"

definition GetEntry ::
  "ext \<Rightarrow> client \<Rightarrow> string \<Rightarrow> PasteDataRecord \<Rightarrow> (PasteDataEntry option \<times> PasteDataRecord) run" where
  "GetEntry E env utdType r =
     (case split_first (matches_utd E utdType) (rec_entries r) of
        Some (pre, Some entry, post) \<Rightarrow> do {
          has \<leftarrow> (if rec_isDelay r then HasContent E utdType entry else Some True);
          let entry' = (if \<not> has \<and> \<not> IsPasteboardService env
                        then GetRecordValueByType env (rec_dataId r) (rec_recordId r) entry else entry);
          let r' = r\<lparr>rec_entries := pre @ Some entry' # post\<rparr>;
          u \<leftarrow> (if IsFileUri E utdType then GetUriV0 E r' else Some None);
          case u of
            Some s \<Rightarrow> Some (Some (mk_entry E utdType (VString s)), r')
          | None \<Rightarrow> Some (Some entry', r')
        }
      | _ \<Rightarrow> Some (None, r))"

definition GetEntryByMimeType ::
  "ext \<Rightarrow> client \<Rightarrow> string \<Rightarrow> PasteDataRecord \<Rightarrow> (PasteDataEntry option \<times> PasteDataRecord) run" where
  "GetEntryByMimeType E env mimeType r = do {
     let utdId = Convert2UtdId E (UD_BUTT E) mimeType;
     (entry, r1) \<leftarrow> GetEntry E env utdId r;
     case (entry, (case rec_customData r1 of None \<Rightarrow> None | Some m \<Rightarrow> map_of m mimeType)) of
       (None, Some v) \<Rightarrow> Some (Some (mk_entry_mime utdId mimeType (VBytes v)), r1)
     | _ \<Rightarrow>
         if entry = None \<and> mimeType = MIMETYPE_TEXT_PLAIN
         then GetEntry E env (Convert2UtdId E (HYPERLINK E) mimeType) r1
         else Some (entry, r1)
   }"

text \<open>The getters of the current interface: the value at hand, then a delayed one.\<close>

definition GetHtmlText :: "ext \<Rightarrow> client \<Rightarrow> PasteDataRecord \<Rightarrow> (string option \<times> PasteDataRecord) run" where
  "GetHtmlText E env r = do {
     htmlText \<leftarrow> GetHtmlTextV0 E r;
     if htmlText \<noteq> None then Some (htmlText, r)
     else do {
       (entry, r1) \<leftarrow> GetEntryByMimeType E env MIMETYPE_TEXT_HTML r;
       case entry of
         None \<Rightarrow> Some (rec_htmlText r1, r1)
       | Some e \<Rightarrow> do { s \<leftarrow> ConvertToHtml E e; Some (s, r1) }
     }
   }"

definition GetPlainText :: "ext \<Rightarrow> client \<Rightarrow> PasteDataRecord \<Rightarrow> (string option \<times> PasteDataRecord) run" where
  "GetPlainText E env r = do {
     plainText \<leftarrow> GetPlainTextV0 E r;
     if plainText \<noteq> None then Some (plainText, r)
     else do {
       (entry, r1) \<leftarrow> GetEntryByMimeType E env MIMETYPE_TEXT_PLAIN r;
       case entry of
         None \<Rightarrow> Some (rec_plainText r1, r1)
       | Some e \<Rightarrow> do { s \<leftarrow> ConvertToPlainText E e; Some (s, r1) }
     }
   }"

definition GetPixelMap :: "ext \<Rightarrow> client \<Rightarrow> PasteDataRecord \<Rightarrow> (pixel_map option \<times> PasteDataRecord) run" where
  "GetPixelMap E env r = do {
     pixelMap \<leftarrow> GetPixelMapV0 E r;
     if pixelMap \<noteq> None then Some (pixelMap, r)
     else do {
       (entry, r1) \<leftarrow> GetEntryByMimeType E env MIMETYPE_PIXELMAP r;
       case entry of
         None \<Rightarrow> Some (rec_pixelMap r1, r1)
       | Some e \<Rightarrow> do { p \<leftarrow> ConvertToPixelMap E e; Some (p, r1) }
     }
   }"

definition GetUri :: "ext \<Rightarrow> client \<Rightarrow> PasteDataRecord \<Rightarrow> (uri option \<times> PasteDataRecord) run" where
  "GetUri E env r = do {
     u \<leftarrow> GetUriV0 E r;
     if u \<noteq> None then Some (u, r)
     else do {
       (entry, r1) \<leftarrow> GetEntryByMimeType E env MIMETYPE_TEXT_URI r;
       case entry of
         None \<Rightarrow> do { u1 \<leftarrow> GetUriV0 E r1; Some (u1, r1) }
       | Some e \<Rightarrow> do { u1 \<leftarrow> ConvertToUri E e; Some (u1, r1) }
     }
   }"

definition ClearPixelMap :: "PasteDataRecord \<Rightarrow> PasteDataRecord" where
  "ClearPixelMap r = r\<lparr>rec_pixelMap := None,
     rec_entries := filter (\<lambda>e. \<not> (case e of None \<Rightarrow> False | Some x \<Rightarrow> ent_mimeType x = MIMETYPE_PIXELMAP))
                      (rec_entries r)\<rparr>"

definition SetUri :: "ext \<Rightarrow> uri option \<Rightarrow> PasteDataRecord \<Rightarrow> PasteDataRecord run" where
  "SetUri E p r =
     (case p of
        None \<Rightarrow> Some r
      | Some u \<Rightarrow>
          (case split_first (\<lambda>e. case e of None \<Rightarrow> False | Some x \<Rightarrow> ent_mimeType x = MIMETYPE_TEXT_URI)
                  (rec_entries r) of
             Some (pre, Some x, post) \<Rightarrow> do {
               v \<leftarrow> (case ent_value x of
                       VObject q \<Rightarrow> do { obj \<leftarrow> q; Some (VObject (Some (assign (FILE_URI_PARAM E) (VString u) obj))) }
                     | _ \<Rightarrow> Some (VString u));
               Some (r\<lparr>rec_entries := pre @ Some (x\<lparr>ent_value := v\<rparr>) # post\<rparr>)
             }
           | _ \<Rightarrow> Some (AddEntryByMimeType E MIMETYPE_TEXT_URI (Some (empty_entry\<lparr>ent_value := VString u\<rparr>)) r)))"

definition add_items :: "item_data \<Rightarrow> item_data \<Rightarrow> item_data" where
  "add_items items customData = fold (\<lambda>(k, v). AddItemData k v) items customData"

fun collect_custom :: "ext \<Rightarrow> PasteDataEntry option list \<Rightarrow> item_data \<Rightarrow> item_data run" where
  "collect_custom E [] acc = Some acc"
| "collect_custom E (None # es) acc = collect_custom E es acc"
| "collect_custom E (Some e # es) acc =
     (if ent_mimeType e = ent_utdId e
      then do {
        c \<leftarrow> ConvertToCustomData E e;
        collect_custom E es (case c of None \<Rightarrow> acc | Some items \<Rightarrow> add_items items acc)
      }
      else collect_custom E es acc)"

definition GetCustomData :: "ext \<Rightarrow> PasteDataRecord \<Rightarrow> item_data option run" where
  "GetCustomData E r = do {
     customData \<leftarrow> collect_custom E (rec_entries r)
       (case rec_customData r of None \<Rightarrow> [] | Some items \<Rightarrow> add_items items []);
     Some (if customData = [] then None else Some customData)
   }"

definition ConvertToText :: "ext \<Rightarrow> PasteDataRecord \<Rightarrow> string run" where
  "ConvertToText E r = do {
     htmlText \<leftarrow> GetHtmlTextV0 E r;
     case htmlText of
       Some s \<Rightarrow> Some s
     | None \<Rightarrow> do {
         plainText \<leftarrow> GetPlainTextV0 E r;
         case plainText of
           Some s \<Rightarrow> Some s
         | None \<Rightarrow> do {
             originUri \<leftarrow> GetOriginUri E r;
             Some (case originUri of Some u \<Rightarrow> u | None \<Rightarrow> [])
           }
       }
   }"

definition HasEmptyEntry :: "PasteDataRecord \<Rightarrow> bool" where
  "HasEmptyEntry r =
     list_ex (\<lambda>e. case e of None \<Rightarrow> False | Some x \<Rightarrow> ent_value x = VMonostate) (rec_entries r)"

fun erase_empty :: "PasteDataEntry option list \<Rightarrow> PasteDataEntry option list \<times> u32" where
  "erase_empty [] = ([], 0)"
| "erase_empty (e # es) =
     (let (es', n) = erase_empty es
      in if (case e of None \<Rightarrow> True | Some x \<Rightarrow> ent_value x = VMonostate) then (es', n + 1) else (e # es', n))"

definition RemoveEmptyEntry :: "PasteDataRecord \<Rightarrow> u32 \<times> PasteDataRecord" where
  "RemoveEmptyEntry r = (let (es, n) = erase_empty (rec_entries r) in (n, r\<lparr>rec_entries := es\<rparr>))"

definition GetUtdTypes :: "ext \<Rightarrow> PasteDataRecord \<Rightarrow> string set" where
  "GetUtdTypes E r =
     (if rec_mimeType r \<noteq> [] then {Convert2UtdId E (rec_udType r) (rec_mimeType r)} else {}) \<union>
     set (map ent_utdId (somes (rec_entries r)))"

definition GetMimeTypes_record :: "PasteDataRecord \<Rightarrow> string set" where
  "GetMimeTypes_record r =
     (if rec_mimeType r \<noteq> [] then {rec_mimeType r} else {}) \<union>
     set (map ent_mimeType (somes (rec_entries r)))"

definition GetValidMimeTypes :: "string list \<Rightarrow> PasteDataRecord \<Rightarrow> string list" where
  "GetValidMimeTypes mimeTypes r = filter (\<lambda>t. t \<in> GetMimeTypes_record r) mimeTypes"

definition GetValidTypes :: "ext \<Rightarrow> string list \<Rightarrow> PasteDataRecord \<Rightarrow> string list" where
  "GetValidTypes E types r = filter (\<lambda>t. t \<in> GetUtdTypes E r) types"

definition GetPassUri :: "PasteDataRecord \<Rightarrow> string" where
  "GetPassUri r =
     (if rec_convertUri r \<noteq> [] then rec_convertUri r else case rec_uri r of Some u \<Rightarrow> u | None \<Rightarrow> [])"

definition AddUriEntry :: "ext \<Rightarrow> PasteDataRecord \<Rightarrow> PasteDataRecord" where
  "AddUriEntry E r =
     (let utdId = GetUtdIdFromUtdEnum E (FILE_URI E);
          object = assign (UNIFORM_DATA_TYPE E) (VString utdId) [];
          object = (case rec_uri r of Some u \<Rightarrow> assign (FILE_URI_PARAM E) (VString u) object | None \<Rightarrow> object)
      in AddEntry E utdId (Some (mk_entry E utdId (VObject (Some object)))) r)"

section \<open>Builder\<close>

definition mk_Builder :: "ext \<Rightarrow> string \<Rightarrow> PasteDataRecord" where
  "mk_Builder E mimeType = (empty_record E)\<lparr>rec_mimeType := mimeType\<rparr>"

definition Builder_add :: "ext \<Rightarrow> string \<Rightarrow> entry_value option \<Rightarrow> PasteDataRecord \<Rightarrow> PasteDataRecord" where
  "Builder_add E mimeType p r =
     (case p of
        None \<Rightarrow> r
      | Some v \<Rightarrow> AddEntryByMimeType E mimeType (Some (empty_entry\<lparr>ent_value := v\<rparr>)) r)"

definition Builder_SetHtmlText :: "ext \<Rightarrow> string option \<Rightarrow> PasteDataRecord \<Rightarrow> PasteDataRecord" where
  "Builder_SetHtmlText E p = Builder_add E MIMETYPE_TEXT_HTML (map_option VString p)"

definition Builder_SetWant :: "ext \<Rightarrow> want option \<Rightarrow> PasteDataRecord \<Rightarrow> PasteDataRecord" where
  "Builder_SetWant E p = Builder_add E MIMETYPE_TEXT_WANT (map_option (\<lambda>w. VWant (Some w)) p)"

definition Builder_SetPlainText :: "ext \<Rightarrow> string option \<Rightarrow> PasteDataRecord \<Rightarrow> PasteDataRecord" where
  "Builder_SetPlainText E p = Builder_add E MIMETYPE_TEXT_PLAIN (map_option VString p)"

definition Builder_SetUri :: "ext \<Rightarrow> uri option \<Rightarrow> PasteDataRecord \<Rightarrow> PasteDataRecord" where
  "Builder_SetUri E p = Builder_add E MIMETYPE_TEXT_URI (map_option VString p)"

definition Builder_SetPixelMap :: "ext \<Rightarrow> pixel_map option \<Rightarrow> PasteDataRecord \<Rightarrow> PasteDataRecord" where
  "Builder_SetPixelMap E p = Builder_add E MIMETYPE_PIXELMAP (map_option (\<lambda>x. VPixelMap (Some x)) p)"

definition Builder_SetCustomData :: "item_data option \<Rightarrow> PasteDataRecord \<Rightarrow> PasteDataRecord" where
  "Builder_SetCustomData p r = r\<lparr>rec_customData := p\<rparr>"

definition Builder_SetMimeType :: "string \<Rightarrow> PasteDataRecord \<Rightarrow> PasteDataRecord" where
  "Builder_SetMimeType mimeType r = r\<lparr>rec_mimeType := mimeType\<rparr>"

definition Build :: "ext \<Rightarrow> PasteDataRecord \<Rightarrow> PasteDataRecord" where
  "Build E r =
     (if rec_mimeType r = [] then r
      else
        let entries = somes (rec_entries r);
            own = filter (\<lambda>e. rec_mimeType r = ent_mimeType e) entries;
            others = filter (\<lambda>e. rec_mimeType r \<noteq> ent_mimeType e) entries;
            r1 = fold (\<lambda>e. AddEntry E (ent_utdId e) (Some e)) (own @ others) (empty_record E)
        in r1\<lparr>rec_customData := rec_customData r, rec_mimeType := rec_mimeType r\<rparr>)"

definition NewHtmlRecord :: "ext \<Rightarrow> string \<Rightarrow> PasteDataRecord option" where
  "NewHtmlRecord E htmlText =
     (if length htmlText < MAX_TEXT_LEN
      then Some (Build E (Builder_SetHtmlText E (Some htmlText) (mk_Builder E MIMETYPE_TEXT_HTML))) else None)"

definition NewWantRecord :: "ext \<Rightarrow> want option \<Rightarrow> PasteDataRecord" where
  "NewWantRecord E w = Build E (Builder_SetWant E w (mk_Builder E MIMETYPE_TEXT_WANT))"

definition NewPlainTextRecord :: "ext \<Rightarrow> string \<Rightarrow> PasteDataRecord option" where
  "NewPlainTextRecord E s =
     (if length s < MAX_TEXT_LEN
      then Some (Build E (Builder_SetPlainText E (Some s) (mk_Builder E MIMETYPE_TEXT_PLAIN))) else None)"

definition NewPixelMapRecord :: "ext \<Rightarrow> pixel_map option \<Rightarrow> PasteDataRecord" where
  "NewPixelMapRecord E p = Build E (Builder_SetPixelMap E p (mk_Builder E MIMETYPE_PIXELMAP))"

definition NewUriRecord :: "ext \<Rightarrow> uri \<Rightarrow> PasteDataRecord" where
  "NewUriRecord E u = Build E (Builder_SetUri E (Some u) (mk_Builder E MIMETYPE_TEXT_URI))"

definition NewKvRecord :: "ext \<Rightarrow> string \<Rightarrow> byte list \<Rightarrow> PasteDataRecord" where
  "NewKvRecord E mimeType arrayBuffer =
     Build E (Builder_SetCustomData (Some (AddItemData mimeType arrayBuffer [])) (mk_Builder E mimeType))"

fun add_values ::
  "ext \<Rightarrow> string \<Rightarrow> (string \<times> entry_value option) list \<Rightarrow> PasteDataRecord \<Rightarrow> PasteDataRecord run" where
  "add_values E recordMimeType [] r = Some r"
| "add_values E recordMimeType ((mimeType, p) # vs) r =
     (if mimeType = recordMimeType then add_values E recordMimeType vs r
      else do {
        v \<leftarrow> p;
        let utdId = Convert2UtdId E (UD_BUTT E) mimeType;
        add_values E recordMimeType vs (AddEntry E utdId (Some (mk_entry E utdId v)) r)
      })"

definition NewMultiTypeRecord ::
  "ext \<Rightarrow> (string \<times> entry_value option) list option \<Rightarrow> string \<Rightarrow> PasteDataRecord run" where
  "NewMultiTypeRecord E vals recordMimeType =
     (case vals of
        None \<Rightarrow> Some (empty_record E)
      | Some vs \<Rightarrow>
          let r0 = empty_record E;
              r1 = (if recordMimeType \<noteq> []
                    then (let utdId = Convert2UtdId E (UD_BUTT E) recordMimeType;
                              r' = (case map_of vs recordMimeType of
                                      Some (Some v) \<Rightarrow> AddEntry E utdId (Some (mk_entry E utdId v)) r0
                                    | _ \<Rightarrow> r0)
                          in r'\<lparr>rec_mimeType := recordMimeType\<rparr>)
                    else r0)
          in add_values E recordMimeType vs r1)"

definition NewMultiTypeDelayRecord :: "ext \<Rightarrow> string list \<Rightarrow> nat option \<Rightarrow> PasteDataRecord" where
  "NewMultiTypeDelayRecord E mimeTypes entryGetter =
     (let r = fold (\<lambda>mimeType.
                let utdId = Convert2UtdId E (UD_BUTT E) mimeType
                in AddEntry E utdId (Some (empty_entry\<lparr>ent_mimeType := mimeType, ent_utdId := utdId\<rparr>)))
              mimeTypes (empty_record E)
      in if entryGetter \<noteq> None then r\<lparr>rec_entryGetter := entryGetter, rec_isDelay := True\<rparr> else r)"

section \<open>The entries of a record form a table\<close>

text \<open>One entry per data type identifier and at most one URI entry, provided every entry carries
  the MIME type of its identifier.\<close>

definition typed :: "ext \<Rightarrow> PasteDataEntry \<Rightarrow> bool" where
  "typed E e \<longleftrightarrow> ent_mimeType e = Convert2MimeType E (ent_utdId e)"

definition entries_inv :: "ext \<Rightarrow> PasteDataEntry list \<Rightarrow> bool" where
  "entries_inv E es \<longleftrightarrow> list_all (typed E) es \<and> distinct (map ent_utdId es) \<and>
     length (filter (\<lambda>e. ent_mimeType e = MIMETYPE_TEXT_URI) es) \<le> 1"

lemma filter_length_le_1: "length (filter P (xs @ y # ys)) \<le> 1 \<Longrightarrow> P y \<Longrightarrow> \<forall>x \<in> set (xs @ ys). \<not> P x"
  by (auto simp: filter_empty_conv)

lemma somes_split:
  assumes "ps = pre @ Some y # post"
  shows "somes ps = somes pre @ y # somes post"
  using assms by simp

lemma AddEntry_replace:
  assumes "split_first (replaces (ent_utdId v) v) (rec_entries r) = Some (pre, e, post)"
  obtains x where "e = Some x" "rec_entries r = pre @ Some x # post" "replaces (ent_utdId v) v (Some x)"
    "\<forall>p \<in> set pre. \<not> replaces (ent_utdId v) v p"
    "AddEntry E (ent_utdId v) (Some v) r = r\<lparr>rec_entries := pre @ Some v # post\<rparr>"
proof -
  from assms have eq: "rec_entries r = pre @ e # post" "replaces (ent_utdId v) v e"
    "\<forall>p \<in> set pre. \<not> replaces (ent_utdId v) v p" by (simp_all add: split_first_Some)
  then obtain x where "e = Some x" by (cases e) (simp_all add: replaces_def)
  with eq assms that show thesis by (simp add: AddEntry_def)
qed

lemma entries_inv_replace:
  assumes "entries_inv E (xs @ x # ys)" and "typed E v"
    and "ent_utdId x = ent_utdId v \<or> ent_mimeType x = MIMETYPE_TEXT_URI \<and> ent_mimeType v = MIMETYPE_TEXT_URI"
  shows "entries_inv E (xs @ v # ys)"
proof -
  have mime: "ent_mimeType x = ent_mimeType v"
    using assms by (auto simp: entries_inv_def typed_def)
  have "ent_utdId v \<notin> ent_utdId ` (set xs \<union> set ys)"
  proof (cases "ent_utdId x = ent_utdId v")
    case True
    with assms(1) show ?thesis by (auto simp: entries_inv_def)
  next
    case False
    with assms(3) have "ent_mimeType x = MIMETYPE_TEXT_URI" by simp
    then have "\<forall>y \<in> set (xs @ ys). ent_mimeType y \<noteq> MIMETYPE_TEXT_URI"
      using assms(1) by (intro filter_length_le_1 [where y = x]) (simp_all add: entries_inv_def)
    moreover have "\<forall>y \<in> set (xs @ ys). ent_mimeType y = Convert2MimeType E (ent_utdId y)"
      using assms(1) by (auto simp: entries_inv_def typed_def list_all_iff)
    ultimately show ?thesis using assms(2) False assms(3) by (force simp: typed_def)
  qed
  with assms(1,2) mime show ?thesis by (auto simp: entries_inv_def)
qed

lemma AddEntry_inv:
  assumes "entries_inv E (somes (rec_entries r))" and "pred_option (typed E) p"
  shows "entries_inv E (somes (rec_entries (AddEntry E utdType p r)))"
proof (cases p)
  case None
  with assms show ?thesis by (simp add: AddEntry_def)
next
  case (Some v)
  show ?thesis
  proof (cases "utdType = ent_utdId v")
    case False
    with assms Some show ?thesis by (simp add: AddEntry_def)
  next
    case True
    show ?thesis
    proof (cases "split_first (replaces utdType v) (rec_entries r)")
      case None
      then have "\<forall>x \<in> set (somes (rec_entries r)). \<not> replaces utdType v (Some x)"
        by (simp add: split_first_None)
      then have "\<forall>x \<in> set (somes (rec_entries r)). ent_utdId x \<noteq> utdType \<and>
          \<not> (ent_mimeType x = MIMETYPE_TEXT_URI \<and> ent_mimeType v = MIMETYPE_TEXT_URI)"
        by (simp add: replaces_def)
      with assms Some True None show ?thesis
        by (auto simp: AddEntry_def entries_inv_def filter_empty_conv Let_def)
    next
      case (Some t)
      then obtain pre e post where sp: "split_first (replaces (ent_utdId v) v) (rec_entries r) = Some (pre, e, post)"
        using True by (cases t) auto
      obtain x where "rec_entries r = pre @ Some x # post" "replaces (ent_utdId v) v (Some x)"
        "AddEntry E (ent_utdId v) (Some v) r = r\<lparr>rec_entries := pre @ Some v # post\<rparr>"
        by (rule AddEntry_replace [OF sp]) 
      with assms \<open>p = Some v\<close> True entries_inv_replace [of E "somes pre" x "somes post" v]
      show ?thesis by (simp add: replaces_def)
    qed
  qed
qed

lemma empty_record_inv [simp]: "entries_inv E (somes (rec_entries (empty_record E)))"
  by (simp add: empty_record_def entries_inv_def)

lemma fold_AddEntry_inv:
  "list_all (\<lambda>(u, p). pred_option (typed E) p) ups \<Longrightarrow> entries_inv E (somes (rec_entries r)) \<Longrightarrow>
   entries_inv E (somes (rec_entries (fold (\<lambda>(u, p). AddEntry E u p) ups r)))"
  by (induction ups arbitrary: r) (auto intro: AddEntry_inv)

text \<open>What is added is found, and other types are left alone.\<close>

lemma AddEntry_own:
  assumes "rec_entries r' = rec_entries (AddEntry E (ent_utdId v) (Some v) r)"
  shows "Some v \<in> set (rec_entries r')"
proof (cases "split_first (replaces (ent_utdId v) v) (rec_entries r)")
  case None
  with assms show ?thesis by (simp add: AddEntry_def Let_def)
next
  case (Some t)
  with assms show ?thesis by (cases t) (auto simp: AddEntry_def)
qed

lemma AddEntry_others:
  assumes "ent_utdId e \<noteq> ent_utdId v" and "ent_mimeType e \<noteq> MIMETYPE_TEXT_URI"
  shows "Some e \<in> set (rec_entries (AddEntry E (ent_utdId v) (Some v) r)) \<longleftrightarrow> Some e \<in> set (rec_entries r)"
proof (cases "split_first (replaces (ent_utdId v) v) (rec_entries r)")
  case None
  with assms show ?thesis by (auto simp: AddEntry_def Let_def)
next
  case (Some t)
  then obtain pre p post where sp: "split_first (replaces (ent_utdId v) v) (rec_entries r) = Some (pre, p, post)"
    by (cases t) auto
  obtain x where "rec_entries r = pre @ Some x # post" "replaces (ent_utdId v) v (Some x)"
    "AddEntry E (ent_utdId v) (Some v) r = r\<lparr>rec_entries := pre @ Some v # post\<rparr>"
    by (rule AddEntry_replace [OF sp])
  with assms show ?thesis by (auto simp: replaces_def)
qed

section \<open>Looking up entries\<close>

definition no_null_objects :: "PasteDataRecord \<Rightarrow> bool" where
  "no_null_objects r \<longleftrightarrow> (\<forall>e \<in> set (somes (rec_entries r)). ent_value e \<noteq> VObject None)"

lemma entry_with_mime_defined:
  "no_null_objects r \<Longrightarrow> entry_with_mime m r = Some e \<Longrightarrow> ent_value e \<noteq> VObject None"
  by (auto simp: entry_with_mime_def no_null_objects_def dest!: find_SomeD)

lemma getters_defined:
  assumes "no_null_objects r"
  shows "GetHtmlTextV0 E r \<noteq> None" "GetPlainTextV0 E r \<noteq> None" "GetPixelMapV0 E r \<noteq> None"
    "GetOriginUri E r \<noteq> None" "GetUriV0 E r \<noteq> None" "GetWant E r \<noteq> None"
  using entry_with_mime_defined [OF assms] conversions_defined
  by (auto simp: GetHtmlTextV0_def GetPlainTextV0_def GetPixelMapV0_def GetOriginUri_def GetUriV0_def
      GetWant_def split: option.splits)

lemma ConvertToText_defined: "no_null_objects r \<Longrightarrow> ConvertToText E r \<noteq> None"
  using getters_defined [of r E] by (auto simp: ConvertToText_def split: option.splits)

lemma HasContent_defined: "ent_value e \<noteq> VObject None \<Longrightarrow> HasContent E u e \<noteq> None"
  unfolding HasContent_def by (rule HasContentByMimeType_defined)

lemma GetEntry_keeps:
  assumes "\<not> rec_isDelay r \<or> IsPasteboardService env" and "no_null_objects r"
  shows "\<exists>res. GetEntry E env u r = Some (res, r) \<and>
    (res = None \<longleftrightarrow> (\<forall>p \<in> set (rec_entries r). \<not> matches_utd E u p)) \<and>
    (\<forall>e. res = Some e \<longrightarrow> ent_value e \<noteq> VObject None)"
proof (cases "split_first (matches_utd E u) (rec_entries r)")
  case None
  then have "GetEntry E env u r = Some (None, r)" by (simp add: GetEntry_def)
  with None show ?thesis by (simp add: split_first_None)
next
  case (Some t)
  then obtain pre e post where sp: "split_first (matches_utd E u) (rec_entries r) = Some (pre, e, post)"
    by (cases t) auto
  then have eq: "rec_entries r = pre @ e # post" and m: "matches_utd E u e"
    by (simp_all add: split_first_Some)
  from m obtain x where x: "e = Some x" by (cases e) (simp_all add: matches_utd_def)
  have same: "r\<lparr>rec_entries := pre @ Some x # post\<rparr> = r" using eq x by simp
  from assms(2) eq x have nn: "ent_value x \<noteq> VObject None" by (simp add: no_null_objects_def)
  then obtain has where has: "HasContent E u x = Some has" using HasContent_defined by blast
  obtain uo where uo: "GetUriV0 E r = Some uo" using getters_defined(5) [OF assms(2)] by blast
  have step: "(if rec_isDelay r then HasContent E u x else Some True) = Some hs \<Longrightarrow>
      (if \<not> hs \<and> \<not> IsPasteboardService env
       then GetRecordValueByType env (rec_dataId r) (rec_recordId r) x else x) = x" for hs
    using assms(1) by auto
  obtain hs where hs: "(if rec_isDelay r then HasContent E u x else Some True) = Some hs"
    using has by (cases "rec_isDelay r") simp_all
  obtain ou where ou: "(if IsFileUri E u then GetUriV0 E r else Some None) = Some ou"
    using uo by (cases "IsFileUri E u") simp_all
  have "\<exists>g. GetEntry E env u r = Some (Some g, r) \<and> ent_value g \<noteq> VObject None"
    unfolding GetEntry_def sp x option.case prod.case hs bind.bind_lunit Let_def step [OF hs] same ou
    using nn by (cases ou) (simp_all add: mk_entry_def)
  with eq m show ?thesis by auto
qed

text \<open>In the pasteboard service, and for a record that is not delayed, \<open>GetEntry\<close> never
  fails and never changes the record, and it returns an entry exactly when one matches the asked
  type.\<close>

theorem GetEntry_local:
  assumes "\<not> rec_isDelay r \<or> IsPasteboardService env" and "no_null_objects r"
  shows "\<exists>res. GetEntry E env u r = Some (res, r) \<and>
    (res = None \<longleftrightarrow> (\<forall>p \<in> set (rec_entries r). \<not> matches_utd E u p))"
  using GetEntry_keeps[OF assms, of E u] by blast

theorem GetEntry_local_witness:
  "\<exists>res. GetEntry sample_ext \<lparr>IsPasteboardService = True, GetRecordValueByType = (\<lambda>_ _ e. e)\<rparr> ''app/x''
      ((empty_record sample_ext)\<lparr>rec_isDelay := True,
        rec_entries := [None, Some (mk_entry_mime ''app/x'' ''app/x'' (VString ''v''))]\<rparr>) =
    Some (res, (empty_record sample_ext)\<lparr>rec_isDelay := True,
        rec_entries := [None, Some (mk_entry_mime ''app/x'' ''app/x'' (VString ''v''))]\<rparr>) \<and> res \<noteq> None"
proof -
  let ?r = "(empty_record sample_ext)\<lparr>rec_isDelay := True,
        rec_entries := [None, Some (mk_entry_mime ''app/x'' ''app/x'' (VString ''v''))]\<rparr>"
  have "no_null_objects ?r" by (simp add: no_null_objects_def mk_entry_mime_def)
  moreover have "matches_utd sample_ext ''app/x'' (Some (mk_entry_mime ''app/x'' ''app/x'' (VString ''v'')))"
    by (simp add: matches_utd_def mk_entry_mime_def)
  ultimately show ?thesis
    using GetEntry_local [of ?r "\<lparr>IsPasteboardService = True, GetRecordValueByType = (\<lambda>_ _ e. e)\<rparr>" sample_ext "''app/x''"]
    by auto
qed

text \<open>A client that asks a delayed record for an entry without content gets the value the
  service delivers, and that value takes the place of the entry in the record.\<close>

theorem GetEntry_fetches:
  assumes "rec_isDelay r" and "\<not> IsPasteboardService env" and "\<not> IsFileUri E u"
    and "rec_entries r = pre @ Some e # post" and "\<forall>p \<in> set pre. \<not> matches_utd E u p"
    and "ent_utdId e = u" and "HasContent E u e = Some False"
    and "e' = GetRecordValueByType env (rec_dataId r) (rec_recordId r) e"
  shows "GetEntry E env u r = Some (Some e', r\<lparr>rec_entries := pre @ Some e' # post\<rparr>)"
proof -
  have "split_first (matches_utd E u) (rec_entries r) = Some (pre, Some e, post)"
    using assms(4-6) by (simp add: split_first_Some matches_utd_def)
  with assms show ?thesis by (simp add: GetEntry_def Let_def)
qed

theorem GetEntry_fetches_witness:
  "GetEntry sample_ext \<lparr>IsPasteboardService = False, GetRecordValueByType = (\<lambda>_ _ e. e\<lparr>ent_value := VString ''v''\<rparr>)\<rparr>
     ''general.html'' (NewMultiTypeDelayRecord sample_ext [''text/plain'', ''text/html''] (Some 0)) =
   Some (Some (mk_entry_mime ''general.html'' ''text/html'' (VString ''v'')),
     (NewMultiTypeDelayRecord sample_ext [''text/plain'', ''text/html''] (Some 0))\<lparr>rec_entries :=
       [Some (mk_entry_mime ''general.plain-text'' ''text/plain'' VMonostate)] @
       Some (mk_entry_mime ''general.html'' ''text/html'' (VString ''v'')) # []\<rparr>)"
proof -
  let ?r = "NewMultiTypeDelayRecord sample_ext [''text/plain'', ''text/html''] (Some 0)"
  have "rec_isDelay ?r"
    "rec_entries ?r = [Some (mk_entry_mime ''general.plain-text'' ''text/plain'' VMonostate)] @
       Some (mk_entry_mime ''general.html'' ''text/html'' VMonostate) # []"
    by (simp_all add: NewMultiTypeDelayRecord_def AddEntry_def empty_record_def empty_entry_def replaces_def
        mk_entry_mime_def Convert2UtdId_def mime_defs sample_ext_def sample_ids_def Let_def)
  moreover have "\<not> IsFileUri sample_ext ''general.html''"
    by (simp add: IsFileUri_def sample_ext_def sample_ids_def)
  moreover have "\<not> matches_utd sample_ext ''general.html'' (Some (mk_entry_mime ''general.plain-text'' ''text/plain'' VMonostate))"
    using \<open>\<not> IsFileUri sample_ext ''general.html''\<close> by (simp add: matches_utd_def mk_entry_mime_def)
  moreover have "mk_entry_mime ''general.html'' ''text/html'' (VString ''v'') =
      (mk_entry_mime ''general.html'' ''text/html'' VMonostate)\<lparr>ent_value := VString ''v''\<rparr>"
    by (simp add: mk_entry_mime_def)
  ultimately show ?thesis
    by (intro GetEntry_fetches [where e = "mk_entry_mime ''general.html'' ''text/html'' VMonostate"])
       (simp_all add: HasContent_monostate mk_entry_mime_def)
qed

lemma AddEntry_position:
  assumes "ent_mimeType v \<noteq> MIMETYPE_TEXT_URI" and "\<not> IsFileUri E (ent_utdId v)"
  obtains pre post where "rec_entries (AddEntry E (ent_utdId v) (Some v) r) = pre @ Some v # post"
    "split_first (matches_utd E (ent_utdId v)) (rec_entries (AddEntry E (ent_utdId v) (Some v) r)) = Some (pre, Some v, post)"
proof -
  let ?r = "AddEntry E (ent_utdId v) (Some v) r"
  have eqv: "matches_utd E (ent_utdId v) = replaces (ent_utdId v) v"
    using assms(1,2) by (auto simp: matches_utd_def replaces_def fun_eq_iff split: option.splits)
  have "\<exists>pre post. rec_entries ?r = pre @ Some v # post \<and> (\<forall>p \<in> set pre. \<not> matches_utd E (ent_utdId v) p)"
  proof (cases "split_first (replaces (ent_utdId v) v) (rec_entries r)")
    case None
    then have "rec_entries ?r = rec_entries r @ Some v # []" by (simp add: AddEntry_def Let_def)
    with None show ?thesis unfolding eqv split_first_None by blast
  next
    case (Some t)
    then obtain pre p post where sp: "split_first (replaces (ent_utdId v) v) (rec_entries r) = Some (pre, p, post)"
      by (cases t) auto
    show ?thesis unfolding eqv by (rule AddEntry_replace [OF sp, of E]) auto
  qed
  then obtain pre post where "rec_entries ?r = pre @ Some v # post"
    "\<forall>p \<in> set pre. \<not> matches_utd E (ent_utdId v) p" by blast
  then show ?thesis by (intro that[of pre post]) (simp_all add: split_first_Some matches_utd_def)
qed

lemma AddEntry_keeps [simp]: "rec_isDelay (AddEntry E u p r) = rec_isDelay r" "rec_recordId (AddEntry E u p r) = rec_recordId r"
  by (auto simp: AddEntry_def Let_def split: option.splits)

text \<open>Adding an entry and asking for its type returns that entry.\<close>

theorem AddEntry_GetEntry:
  assumes "ent_mimeType v \<noteq> MIMETYPE_TEXT_URI" and "\<not> IsFileUri E (ent_utdId v)" and "\<not> rec_isDelay r"
  shows "GetEntry E env (ent_utdId v) (AddEntry E (ent_utdId v) (Some v) r) =
    Some (Some v, AddEntry E (ent_utdId v) (Some v) r)"
  by (rule AddEntry_position [OF assms(1,2), of r]) (use assms(2,3) in \<open>simp add: GetEntry_def\<close>)

theorem AddEntry_GetEntry_witness:
  "GetEntry sample_ext \<lparr>IsPasteboardService = False, GetRecordValueByType = (\<lambda>_ _ e. e)\<rparr> ''app/x''
     (AddEntry sample_ext ''app/x'' (Some (mk_entry_mime ''app/x'' ''app/x'' (VString ''new'')))
       ((empty_record sample_ext)\<lparr>rec_entries := [Some (mk_entry_mime ''app/x'' ''app/x'' (VString ''old''))]\<rparr>)) =
   Some (Some (mk_entry_mime ''app/x'' ''app/x'' (VString ''new'')),
     AddEntry sample_ext ''app/x'' (Some (mk_entry_mime ''app/x'' ''app/x'' (VString ''new'')))
       ((empty_record sample_ext)\<lparr>rec_entries := [Some (mk_entry_mime ''app/x'' ''app/x'' (VString ''old''))]\<rparr>))"
  using AddEntry_GetEntry [of "mk_entry_mime ''app/x'' ''app/x'' (VString ''new'')" sample_ext
      "(empty_record sample_ext)\<lparr>rec_entries := [Some (mk_entry_mime ''app/x'' ''app/x'' (VString ''old''))]\<rparr>"]
  by (simp add: mk_entry_mime_def mime_defs IsFileUri_def sample_ext_def sample_ids_def empty_record_def)



section \<open>Records made by the factories\<close>

lemma AddEntry_empty:
  "rec_entries r = [] \<Longrightarrow> rec_entries (AddEntry E (ent_utdId v) (Some v) r) = [Some v]"
  by (simp add: AddEntry_def Let_def)

lemma Build_single:
  assumes "mimeType \<noteq> []"
  shows "rec_entries (Build E (Builder_add E mimeType (Some v) (mk_Builder E mimeType))) =
      [Some (mk_entry_mime (Convert2UtdId E (UD_BUTT E) mimeType) mimeType v)]"
    "rec_mimeType (Build E (Builder_add E mimeType (Some v) (mk_Builder E mimeType))) = mimeType"
proof -
  let ?e = "mk_entry_mime (Convert2UtdId E (UD_BUTT E) mimeType) mimeType v"
  have e: "empty_entry\<lparr>ent_value := v, ent_utdId := Convert2UtdId E (UD_BUTT E) mimeType, ent_mimeType := mimeType\<rparr> = ?e"
    by (simp add: empty_entry_def mk_entry_mime_def)
  have "Builder_add E mimeType (Some v) (mk_Builder E mimeType) =
      AddEntry E (ent_utdId ?e) (Some ?e) (mk_Builder E mimeType)"
    by (simp add: Builder_add_def AddEntryByMimeType_def e Let_def) (simp add: mk_entry_mime_def)
  moreover have "rec_entries (AddEntry E (ent_utdId ?e) (Some ?e) (mk_Builder E mimeType)) = [Some ?e]"
    by (rule AddEntry_empty) (simp add: mk_Builder_def empty_record_def)
  moreover have "rec_mimeType (AddEntry E (ent_utdId ?e) (Some ?e) (mk_Builder E mimeType)) = mimeType"
    by (simp add: AddEntry_def mk_Builder_def Let_def empty_record_def)
  moreover have "rec_entries (AddEntry E (ent_utdId ?e) (Some ?e) (empty_record E)) = [Some ?e]"
    by (rule AddEntry_empty) (simp add: empty_record_def)
  ultimately show
    "rec_entries (Build E (Builder_add E mimeType (Some v) (mk_Builder E mimeType))) = [Some ?e]"
    "rec_mimeType (Build E (Builder_add E mimeType (Some v) (mk_Builder E mimeType))) = mimeType"
    using assms by (simp_all add: Build_def Let_def mk_entry_mime_def)
qed

lemma entry_with_mime_single:
  "rec_entries r = [Some e] \<Longrightarrow> ent_mimeType e = m \<Longrightarrow> entry_with_mime m r = Some e"
  by (simp add: entry_with_mime_def)

lemma getter_of_single:
  assumes "rec_entries r = [Some (mk_entry_mime (Convert2UtdId E (UD_BUTT E) m) m v)]"
  shows "m = MIMETYPE_TEXT_PLAIN \<Longrightarrow> v = VString s \<Longrightarrow> GetPlainTextV0 E r = Some (Some s)"
    "m = MIMETYPE_TEXT_HTML \<Longrightarrow> v = VString s \<Longrightarrow> GetHtmlTextV0 E r = Some (Some s)"
    "m = MIMETYPE_TEXT_URI \<Longrightarrow> v = VString s \<Longrightarrow> GetOriginUri E r = Some (Some (mk_uri E s))"
    "m = MIMETYPE_TEXT_WANT \<Longrightarrow> v = VWant (Some w) \<Longrightarrow> GetWant E r = Some (Some w)"
    "m = MIMETYPE_PIXELMAP \<Longrightarrow> v = VPixelMap (Some p) \<Longrightarrow> GetPixelMapV0 E r = Some (Some p)"
  using entry_with_mime_single [OF assms, of m]
  by (simp_all add: GetPlainTextV0_def GetHtmlTextV0_def GetOriginUri_def GetWant_def GetPixelMapV0_def
      mk_entry_mime_def ConvertToPlainText_def ConvertToHtml_def ConvertToUri_def ConvertToWant_def
      ConvertToPixelMap_def Convert2UtdId_def IsFileUri_def mime_defs)

text \<open>A factory's record gives back what it was made of, through the getter of its type,
  without asking the service; a text of \<open>MAX_TEXT_LEN\<close> bytes or more makes no record.\<close>

theorem factories_and_getters:
  "(NewPlainTextRecord E s = None \<longleftrightarrow> MAX_TEXT_LEN \<le> length s) \<and>
   (NewHtmlRecord E s = None \<longleftrightarrow> MAX_TEXT_LEN \<le> length s) \<and>
   pred_option (\<lambda>r. GetPlainText E env r = Some (Some s, r)) (NewPlainTextRecord E s) \<and>
   pred_option (\<lambda>r. GetHtmlText E env r = Some (Some s, r)) (NewHtmlRecord E s) \<and>
   GetOriginUri E (NewUriRecord E u) = Some (Some (mk_uri E u)) \<and>
   GetWant E (NewWantRecord E (Some w)) = Some (Some w) \<and>
   GetPixelMapV0 E (NewPixelMapRecord E (Some p)) = Some (Some p)"
proof -
  have ne: "MIMETYPE_TEXT_PLAIN \<noteq> []" "MIMETYPE_TEXT_HTML \<noteq> []" "MIMETYPE_TEXT_URI \<noteq> []"
    "MIMETYPE_TEXT_WANT \<noteq> []" "MIMETYPE_PIXELMAP \<noteq> []" by (simp_all add: mime_defs)
  note single = getter_of_single [OF Build_single(1)]
  have "GetPlainTextV0 E (Build E (Builder_SetPlainText E (Some s) (mk_Builder E MIMETYPE_TEXT_PLAIN))) = Some (Some s)"
    "GetHtmlTextV0 E (Build E (Builder_SetHtmlText E (Some s) (mk_Builder E MIMETYPE_TEXT_HTML))) = Some (Some s)"
    "GetOriginUri E (NewUriRecord E u) = Some (Some (mk_uri E u))"
    "GetWant E (NewWantRecord E (Some w)) = Some (Some w)"
    "GetPixelMapV0 E (NewPixelMapRecord E (Some p)) = Some (Some p)"
    using single(1) [OF ne(1)] single(2) [OF ne(2)] single(3) [OF ne(3)] single(4) [OF ne(4)] single(5) [OF ne(5)]
    by (simp_all add: Builder_SetPlainText_def Builder_SetHtmlText_def NewUriRecord_def Builder_SetUri_def
        NewWantRecord_def Builder_SetWant_def NewPixelMapRecord_def Builder_SetPixelMap_def)
  then show ?thesis
    by (simp add: NewPlainTextRecord_def NewHtmlRecord_def GetPlainText_def GetHtmlText_def not_less)
qed

section \<open>Empty entries\<close>

abbreviation has_value :: "PasteDataEntry option \<Rightarrow> bool" where
  "has_value e \<equiv> (case e of None \<Rightarrow> False | Some x \<Rightarrow> ent_value x \<noteq> VMonostate)"

lemma erase_empty_filter:
  "erase_empty es = (filter has_value es, word_of_nat (length (filter (\<lambda>e. \<not> has_value e) es)))"
  by (induction es) (auto split: option.splits)

text \<open>\<open>RemoveEmptyEntry\<close> keeps exactly the entries with a value, in order, and returns the
  number it removed; afterwards \<open>HasEmptyEntry\<close> is false.\<close>

theorem RemoveEmptyEntry_filters:
  "snd (RemoveEmptyEntry r) = r\<lparr>rec_entries := filter has_value (rec_entries r)\<rparr> \<and>
   fst (RemoveEmptyEntry r) = word_of_nat (length (rec_entries r) - length (filter has_value (rec_entries r))) \<and>
   \<not> HasEmptyEntry (snd (RemoveEmptyEntry r))"
proof -
  have "length (filter (\<lambda>e. \<not> has_value e) (rec_entries r)) =
      length (rec_entries r) - length (filter has_value (rec_entries r))"
    using sum_length_filter_compl [of has_value "rec_entries r"] by simp
  then show ?thesis
    by (auto simp: RemoveEmptyEntry_def erase_empty_filter HasEmptyEntry_def list_ex_iff split: option.splits)
qed

end
