(* ===== verification/Record_Tlv.thy ===== *)
theory Record_Tlv
  imports Paste_Record
begin

text \<open>
  Serialization of \<open>PasteDataRecord\<close>: the local and the remote format, and the common
  decoder. A record can be encoded for a peer that only knows the older fields, in which case the
  first entry is split into them (\<open>Local2Remote\<close>) and put together again by the decoder
  (\<open>Remote2Local\<close>). \<open>IsRemoteEncode()\<close> is the parameter \<open>remote\<close>.
\<close>

definition TAG_REC_MIMETYPE :: u16 where "TAG_REC_MIMETYPE = 257"
definition TAG_REC_HTMLTEXT :: u16 where "TAG_REC_HTMLTEXT = 258"
definition TAG_REC_WANT :: u16 where "TAG_REC_WANT = 259"
definition TAG_REC_PLAINTEXT :: u16 where "TAG_REC_PLAINTEXT = 260"
definition TAG_REC_URI :: u16 where "TAG_REC_URI = 261"
definition TAG_REC_PIXELMAP :: u16 where "TAG_REC_PIXELMAP = 262"
definition TAG_REC_CUSTOM_DATA :: u16 where "TAG_REC_CUSTOM_DATA = 263"
definition TAG_REC_CONVERT_URI :: u16 where "TAG_REC_CONVERT_URI = 264"
definition TAG_REC_URI_PERMISSION :: u16 where "TAG_REC_URI_PERMISSION = 265"
definition TAG_UDC_UDTYPE :: u16 where "TAG_UDC_UDTYPE = 266"
definition TAG_UDC_DETAILS :: u16 where "TAG_UDC_DETAILS = 267"
definition TAG_UDC_TEXTCONTENT :: u16 where "TAG_UDC_TEXTCONTENT = 268"
definition TAG_UDC_SYSTEMCONTENTS :: u16 where "TAG_UDC_SYSTEMCONTENTS = 269"
definition TAG_UDC_UDMFVALUE :: u16 where "TAG_UDC_UDMFVALUE = 270"
definition TAG_UDC_ENTRIES :: u16 where "TAG_UDC_ENTRIES = 271"
definition TAG_REC_DATA_ID :: u16 where "TAG_REC_DATA_ID = 272"
definition TAG_REC_RECORD_ID :: u16 where "TAG_REC_RECORD_ID = 273"
definition TAG_REC_DELAY_FLAG :: u16 where "TAG_REC_DELAY_FLAG = 274"
definition TAG_REC_FROM :: u16 where "TAG_REC_FROM = 275"

lemmas rec_tags = TAG_REC_MIMETYPE_def TAG_REC_HTMLTEXT_def TAG_REC_WANT_def TAG_REC_PLAINTEXT_def
  TAG_REC_URI_def TAG_REC_PIXELMAP_def TAG_REC_CUSTOM_DATA_def TAG_REC_CONVERT_URI_def
  TAG_REC_URI_PERMISSION_def TAG_UDC_UDTYPE_def TAG_UDC_DETAILS_def TAG_UDC_TEXTCONTENT_def
  TAG_UDC_SYSTEMCONTENTS_def TAG_UDC_UDMFVALUE_def TAG_UDC_ENTRIES_def TAG_REC_DATA_ID_def
  TAG_REC_RECORD_ID_def TAG_REC_DELAY_FLAG_def TAG_REC_FROM_def

section \<open>Encoding\<close>

definition Write_entries :: "ext \<Rightarrow> u16 \<Rightarrow> PasteDataEntry option list \<Rightarrow> writer" where
  "Write_entries E t es =
     Write_vector t (\<lambda>t' p. Write_ptr (\<lambda>e. Write_writeable t' (EncodeTLV_entry E e)) p) es"

definition Count_entries :: "ext \<Rightarrow> PasteDataEntry option list \<Rightarrow> nat" where
  "Count_entries E es = Count_vector (Count_ptr (\<lambda>e. Count_writeable (CountTLV_entry E e))) es"

definition EncodeTLVLocal :: "ext \<Rightarrow> PasteDataRecord \<Rightarrow> writer" where
  "EncodeTLVLocal E r =
     andW_list
      [Write_string E TAG_REC_MIMETYPE (rec_mimeType r),
       Write_ptr (Write_string E TAG_REC_HTMLTEXT) (rec_htmlText r),
       Write_RawMem E TAG_REC_WANT (Parcelable2Raw (want_marshal E) (rec_want r)),
       Write_ptr (Write_string E TAG_REC_PLAINTEXT) (rec_plainText r),
       Write_RawMem E TAG_REC_URI (Parcelable2Raw (uri_marshal E) (rec_uri r)),
       Write_string E TAG_REC_CONVERT_URI (rec_convertUri r),
       Write_ptr (Write_pixel_map E TAG_REC_PIXELMAP) (rec_pixelMap r),
       Write_ptr (\<lambda>c. Write_writeable TAG_REC_CUSTOM_DATA (EncodeTLV_custom E c)) (rec_customData r),
       Write_bool E TAG_REC_URI_PERMISSION (rec_hasGrantUriPermission r),
       Write_word E TAG_UDC_UDTYPE (rec_udType r),
       Write_ptr (Write_details E TAG_UDC_DETAILS) (rec_details r),
       Write_string E TAG_UDC_TEXTCONTENT (rec_textContent r),
       Write_ptr (Write_details E TAG_UDC_SYSTEMCONTENTS) (rec_systemDefinedContents r),
       Write_ptr (Write_entry_value E TAG_UDC_UDMFVALUE) (rec_udmfValue r),
       Write_entries E TAG_UDC_ENTRIES (rec_entries r),
       Write_word E TAG_REC_DATA_ID (rec_dataId r),
       Write_word E TAG_REC_RECORD_ID (rec_recordId r),
       Write_bool E TAG_REC_DELAY_FLAG (rec_isDelay r),
       Write_word E TAG_REC_FROM (rec_from r)]"

definition Local2Remote :: "ext \<Rightarrow> PasteDataRecord \<Rightarrow> RemoteRecordValue run" where
  "Local2Remote E r =
     (let v = \<lparr>rv_udType = UD_BUTT E, rv_mimeType = rec_mimeType r, rv_plainText = None, rv_htmlText = None,
               rv_want = None, rv_pixelMap = None, rv_uri = None, rv_udmfValue = VMonostate, rv_entries = []\<rparr>
      in case rec_entries r of
           [] \<Rightarrow> Some v
         | None # _ \<Rightarrow> Some v
         | Some firstEntry # rest \<Rightarrow> do {
             let mimeType = ent_mimeType firstEntry;
             let v1 = v\<lparr>rv_udType := GetUtdEnumFromUtdId E (ent_utdId firstEntry), rv_mimeType := mimeType\<rparr>;
             v2 \<leftarrow>
               (if mimeType = MIMETYPE_TEXT_PLAIN
                then do { s \<leftarrow> ConvertToPlainText E firstEntry; Some (v1\<lparr>rv_plainText := s\<rparr>) }
                else if mimeType = MIMETYPE_TEXT_WANT
                then do { w \<leftarrow> ConvertToWant E firstEntry; Some (v1\<lparr>rv_want := w\<rparr>) }
                else if mimeType = MIMETYPE_TEXT_URI
                then do { u \<leftarrow> ConvertToUri E firstEntry; Some (v1\<lparr>rv_uri := u\<rparr>) }
                else if mimeType = MIMETYPE_PIXELMAP
                then do { p \<leftarrow> ConvertToPixelMap E firstEntry; Some (v1\<lparr>rv_pixelMap := p\<rparr>) }
                else if mimeType = MIMETYPE_TEXT_HTML
                then do {
                  s \<leftarrow> ConvertToHtml E firstEntry;
                  let v1' = v1\<lparr>rv_htmlText := s\<rparr>;
                  case ent_value firstEntry of
                    VObject p \<Rightarrow> do {
                      obj \<leftarrow> p;
                      let plainText = or_empty (GetValue_string E obj (PLAIN_CONTENT E));
                      Some (if plainText \<noteq> [] then v1'\<lparr>rv_plainText := Some plainText\<rparr> else v1')
                    }
                  | _ \<Rightarrow> Some v1'
                }
                else Some v1);
             Some (v2\<lparr>rv_udmfValue := ent_value firstEntry, rv_entries := rest\<rparr>)
           })"

definition EncodeTLVRemote_with :: "ext \<Rightarrow> RemoteRecordValue \<Rightarrow> PasteDataRecord \<Rightarrow> writer" where
  "EncodeTLVRemote_with E v r =
     andW_list
      [Write_string E TAG_REC_MIMETYPE (rv_mimeType v),
       Write_word E TAG_UDC_UDTYPE (rv_udType v),
       Write_ptr (Write_string E TAG_REC_HTMLTEXT) (rv_htmlText v),
       Write_ptr (Write_string E TAG_REC_PLAINTEXT) (rv_plainText v),
       Write_ptr (Write_pixel_map E TAG_REC_PIXELMAP) (rv_pixelMap v),
       Write_RawMem E TAG_REC_WANT (Parcelable2Raw (want_marshal E) (rv_want v)),
       Write_RawMem E TAG_REC_URI (Parcelable2Raw (uri_marshal E) (rv_uri v)),
       Write_entry_value E TAG_UDC_UDMFVALUE (rv_udmfValue v),
       Write_entries E TAG_UDC_ENTRIES (rv_entries v),
       Write_string E TAG_REC_CONVERT_URI (rec_convertUri r),
       Write_ptr (\<lambda>c. Write_writeable TAG_REC_CUSTOM_DATA (EncodeTLV_custom E c)) (rec_customData r),
       Write_bool E TAG_REC_URI_PERMISSION (rec_hasGrantUriPermission r),
       Write_ptr (Write_details E TAG_UDC_DETAILS) (rec_details r),
       Write_string E TAG_UDC_TEXTCONTENT (rec_textContent r),
       Write_ptr (Write_details E TAG_UDC_SYSTEMCONTENTS) (rec_systemDefinedContents r),
       Write_word E TAG_REC_DATA_ID (rec_dataId r),
       Write_word E TAG_REC_RECORD_ID (rec_recordId r),
       Write_bool E TAG_REC_DELAY_FLAG (rec_isDelay r),
       Write_word E TAG_REC_FROM (rec_from r)]"

definition EncodeTLVRemote :: "ext \<Rightarrow> PasteDataRecord \<Rightarrow> writer run" where
  "EncodeTLVRemote E r = do { remoteValue \<leftarrow> Local2Remote E r; Some (EncodeTLVRemote_with E remoteValue r) }"

definition EncodeTLV_record :: "ext \<Rightarrow> bool \<Rightarrow> PasteDataRecord \<Rightarrow> writer run" where
  "EncodeTLV_record E remote r = (if remote then EncodeTLVRemote E r else Some (EncodeTLVLocal E r))"

definition CountTLVLocal :: "ext \<Rightarrow> PasteDataRecord \<Rightarrow> nat" where
  "CountTLVLocal E r = sum_list
     [Count_string (rec_mimeType r), Count_ptr Count_string (rec_htmlText r),
      Count_RawMem (Parcelable2Raw (want_marshal E) (rec_want r)), Count_ptr Count_string (rec_plainText r),
      Count_RawMem (Parcelable2Raw (uri_marshal E) (rec_uri r)), Count_string (rec_convertUri r),
      Count_pixel_map E (rec_pixelMap r), Count_ptr (\<lambda>c. Count_writeable (CountTLV_custom c)) (rec_customData r),
      Count_basic 1, Count_basic 4, Count_ptr Count_details (rec_details r),
      Count_string (rec_textContent r), Count_ptr Count_details (rec_systemDefinedContents r),
      Count_ptr (Count_entry_value E) (rec_udmfValue r), Count_entries E (rec_entries r),
      Count_basic 4, Count_basic 4, Count_basic 1, Count_basic 4]"

definition CountTLVRemote_with :: "ext \<Rightarrow> RemoteRecordValue \<Rightarrow> PasteDataRecord \<Rightarrow> nat" where
  "CountTLVRemote_with E v r = sum_list
     [Count_string (rv_mimeType v), Count_basic 4, Count_ptr Count_string (rv_htmlText v),
      Count_ptr Count_string (rv_plainText v), Count_pixel_map E (rv_pixelMap v),
      Count_RawMem (Parcelable2Raw (want_marshal E) (rv_want v)),
      Count_RawMem (Parcelable2Raw (uri_marshal E) (rv_uri v)),
      Count_entry_value E (rv_udmfValue v), Count_entries E (rv_entries v),
      Count_string (rec_convertUri r), Count_ptr (\<lambda>c. Count_writeable (CountTLV_custom c)) (rec_customData r),
      Count_basic 1, Count_ptr Count_details (rec_details r), Count_string (rec_textContent r),
      Count_ptr Count_details (rec_systemDefinedContents r), Count_basic 4, Count_basic 4, Count_basic 1,
      Count_basic 4]"

definition CountTLVRemote :: "ext \<Rightarrow> PasteDataRecord \<Rightarrow> nat run" where
  "CountTLVRemote E r = do { remoteValue \<leftarrow> Local2Remote E r; Some (CountTLVRemote_with E remoteValue r) }"

definition CountTLV_record :: "ext \<Rightarrow> bool \<Rightarrow> PasteDataRecord \<Rightarrow> nat run" where
  "CountTLV_record E remote r = (if remote then CountTLVRemote E r else Some (CountTLVLocal E r))"

section \<open>Decoding\<close>

abbreviation ReadValue_entries ::
  "ext \<Rightarrow> nat \<Rightarrow> PasteDataEntry option list \<Rightarrow> TLVHead \<Rightarrow> PasteDataEntry option list rd" where
  "ReadValue_entries E d \<equiv>
     ReadValue_vector d (\<lambda>d1. ReadValue_ptr d1 (\<lambda>d2. ReadValue_readable (DecodeTLV_entry E d2 empty_entry)))"

definition DecodeItem2 :: "ext \<Rightarrow> nat \<Rightarrow> TLVHead \<Rightarrow> PasteDataRecord \<Rightarrow> PasteDataRecord rd" where
  "DecodeItem2 E d h r b =
     (if head_tag h = TAG_UDC_UDTYPE
      then mapR (\<lambda>v. r\<lparr>rec_udType := v\<rparr>) (ReadValue_u32 E h b)
      else if head_tag h = TAG_UDC_DETAILS
      then mapR (\<lambda>v. r\<lparr>rec_details := v\<rparr>) (ReadValue_ptr d (\<lambda>_. ReadValue_details E []) h b)
      else if head_tag h = TAG_UDC_TEXTCONTENT
      then mapR (\<lambda>v. r\<lparr>rec_textContent := v\<rparr>) (ReadValue_string (rec_textContent r) h b)
      else if head_tag h = TAG_UDC_SYSTEMCONTENTS
      then mapR (\<lambda>v. r\<lparr>rec_systemDefinedContents := v\<rparr>) (ReadValue_ptr d (\<lambda>_. ReadValue_details E []) h b)
      else if head_tag h = TAG_UDC_UDMFVALUE
      then mapR (\<lambda>v. r\<lparr>rec_udmfValue := v\<rparr>) (ReadValue_ptr d (ReadValue_entry E) h b)
      else if head_tag h = TAG_UDC_ENTRIES
      then mapR (\<lambda>v. r\<lparr>rec_entries := v\<rparr>) (ReadValue_entries E d (rec_entries r) h b)
      else if head_tag h = TAG_REC_DATA_ID
      then mapR (\<lambda>v. r\<lparr>rec_dataId := v\<rparr>) (ReadValue_u32 E h b)
      else if head_tag h = TAG_REC_RECORD_ID
      then mapR (\<lambda>v. r\<lparr>rec_recordId := v\<rparr>) (ReadValue_u32 E h b)
      else if head_tag h = TAG_REC_DELAY_FLAG
      then mapR (\<lambda>v. r\<lparr>rec_isDelay := v\<rparr>) (ReadBasicValue_bool E h b)
      else if head_tag h = TAG_REC_FROM
      then mapR (\<lambda>v. r\<lparr>rec_from := v\<rparr>) (ReadValue_u32 E h b)
      else mapR (\<lambda>_. r) (SkipR h b))"

definition DecodeItem1 :: "ext \<Rightarrow> nat \<Rightarrow> TLVHead \<Rightarrow> PasteDataRecord \<Rightarrow> PasteDataRecord rd" where
  "DecodeItem1 E d h r b =
     (if head_tag h = TAG_REC_MIMETYPE
      then mapR (\<lambda>v. r\<lparr>rec_mimeType := v\<rparr>) (ReadValue_string (rec_mimeType r) h b)
      else if head_tag h = TAG_REC_HTMLTEXT
      then mapR (\<lambda>v. r\<lparr>rec_htmlText := v\<rparr>) (ReadValue_ptr d (\<lambda>_. ReadValue_string []) h b)
      else if head_tag h = TAG_REC_WANT
      then mapR (\<lambda>v. r\<lparr>rec_want := v\<rparr>) (ReadValue_want E h b)
      else if head_tag h = TAG_REC_PLAINTEXT
      then mapR (\<lambda>v. r\<lparr>rec_plainText := v\<rparr>) (ReadValue_ptr d (\<lambda>_. ReadValue_string []) h b)
      else if head_tag h = TAG_REC_URI
      then mapR (\<lambda>v. r\<lparr>rec_uri := v\<rparr>) (ReadValue_uri E h b)
      else if head_tag h = TAG_REC_CONVERT_URI
      then mapR (\<lambda>v. r\<lparr>rec_convertUri := v\<rparr>) (ReadValue_string (rec_convertUri r) h b)
      else if head_tag h = TAG_REC_PIXELMAP
      then mapR (\<lambda>v. r\<lparr>rec_pixelMap := v\<rparr>) (ReadValue_pixel_map E h b)
      else if head_tag h = TAG_REC_CUSTOM_DATA
      then mapR (\<lambda>v. r\<lparr>rec_customData := v\<rparr>)
             (ReadValue_ptr d (\<lambda>_. ReadValue_readable (DecodeTLV_custom [])) h b)
      else if head_tag h = TAG_REC_URI_PERMISSION
      then mapR (\<lambda>v. r\<lparr>rec_hasGrantUriPermission := v\<rparr>) (ReadBasicValue_bool E h b)
      else DecodeItem2 E d h r b)"

definition Remote2Local :: "ext \<Rightarrow> PasteDataRecord \<Rightarrow> PasteDataEntry option" where
  "Remote2Local E r =
     (if rec_mimeType r = [] then None
      else
        let entry = empty_entry\<lparr>ent_utdId := Convert2UtdId E (rec_udType r) (rec_mimeType r),
                                ent_mimeType := rec_mimeType r\<rparr>;
            typed = (\<lambda>t. assign (UNIFORM_DATA_TYPE E) (VString (GetUtdIdFromUtdEnum E t)) []);
            legacy =
              (if rec_mimeType r = MIMETYPE_TEXT_PLAIN \<and> rec_plainText r \<noteq> None
               then Some (entry\<lparr>ent_value := VObject (Some
                      (assign (CONTENT E) (VString (or_empty (rec_plainText r))) (typed (PLAIN_TEXT E))))\<rparr>)
               else if rec_mimeType r = MIMETYPE_TEXT_HTML \<and> rec_htmlText r \<noteq> None
               then let object = assign (HTML_CONTENT E) (VString (or_empty (rec_htmlText r))) (typed (HTML E));
                        object = (case rec_plainText r of
                                    Some s \<Rightarrow> assign (PLAIN_CONTENT E) (VString s) object | None \<Rightarrow> object)
                    in Some (entry\<lparr>ent_value := VObject (Some object)\<rparr>)
               else if rec_mimeType r = MIMETYPE_TEXT_URI \<and> rec_uri r \<noteq> None
               then Some (entry\<lparr>ent_value := VObject (Some
                      (assign (FILE_URI_PARAM E) (VString (or_empty (rec_uri r))) (typed (FILE_URI E))))\<rparr>)
               else if rec_mimeType r = MIMETYPE_PIXELMAP \<and> rec_pixelMap r \<noteq> None
               then Some (entry\<lparr>ent_value := VObject (Some
                      (assign (PIXEL_MAP E) (VPixelMap (rec_pixelMap r)) (typed (SYSTEM_DEFINED_PIXEL_MAP E))))\<rparr>)
               else if rec_mimeType r = MIMETYPE_TEXT_WANT \<and> rec_want r \<noteq> None
               then Some (entry\<lparr>ent_value := VWant (rec_want r)\<rparr>)
               else None)
        in case rec_udmfValue r of
             Some (VObject (Some obj)) \<Rightarrow>
               if obj \<noteq> [] then Some (entry\<lparr>ent_value := VObject (Some obj)\<rparr>) else legacy
           | Some (VBytes array) \<Rightarrow> Some (entry\<lparr>ent_value := VBytes array\<rparr>)
           | _ \<Rightarrow> legacy)"

definition finish_decode :: "ext \<Rightarrow> PasteDataRecord \<Rightarrow> PasteDataRecord" where
  "finish_decode E r =
     (let r1 = (case Remote2Local E r of
                  Some entry \<Rightarrow> r\<lparr>rec_entries := Some entry # rec_entries r\<rparr> | None \<Rightarrow> r);
          r2 = r1\<lparr>rec_udmfValue := None, rec_plainText := None, rec_htmlText := None, rec_uri := None,
                  rec_pixelMap := None, rec_want := None\<rparr>
      in if rec_mimeType r2 = [] then r2\<lparr>rec_mimeType := GetMimeType_record r2\<rparr> else r2)"

definition DecodeTLV_record :: "ext \<Rightarrow> nat \<Rightarrow> PasteDataRecord \<Rightarrow> PasteDataRecord rd" where
  "DecodeTLV_record E d self b = mapR (finish_decode E) (decode_fields (DecodeItem1 E d) self b)"

section \<open>Reference encodings\<close>

definition enc_entries :: "ext \<Rightarrow> PasteDataEntry option list \<Rightarrow> byte list" where
  "enc_entries E es = concat (map (\<lambda>e. tlv TAG_VECTOR_ITEM (enc_PasteDataEntry E e)) (somes es))"

definition enc_local :: "ext \<Rightarrow> PasteDataRecord \<Rightarrow> byte list" where
  "enc_local E r = concat
     [tlv TAG_REC_MIMETYPE (str_bytes (rec_mimeType r)),
      enc_ptr (\<lambda>s. tlv TAG_REC_HTMLTEXT (str_bytes s)) (rec_htmlText r),
      tlv TAG_REC_WANT (Parcelable2Raw (want_marshal E) (rec_want r)),
      enc_ptr (\<lambda>s. tlv TAG_REC_PLAINTEXT (str_bytes s)) (rec_plainText r),
      tlv TAG_REC_URI (Parcelable2Raw (uri_marshal E) (rec_uri r)),
      tlv TAG_REC_CONVERT_URI (str_bytes (rec_convertUri r)),
      enc_ptr (enc_pixel E TAG_REC_PIXELMAP) (rec_pixelMap r),
      enc_ptr (\<lambda>m. tlv TAG_REC_CUSTOM_DATA (tlv TAG_ITEM_DATA (enc_item_map m))) (rec_customData r),
      tlv TAG_REC_URI_PERMISSION (enc_bool (rec_hasGrantUriPermission r)),
      tlv TAG_UDC_UDTYPE (enc_word (rec_udType r)),
      enc_ptr (\<lambda>m. tlv TAG_UDC_DETAILS (enc_details m)) (rec_details r),
      tlv TAG_UDC_TEXTCONTENT (str_bytes (rec_textContent r)),
      enc_ptr (\<lambda>m. tlv TAG_UDC_SYSTEMCONTENTS (enc_details m)) (rec_systemDefinedContents r),
      enc_ptr (\<lambda>v. tlv TAG_UDC_UDMFVALUE (enc_entry_value E v)) (rec_udmfValue r),
      tlv TAG_UDC_ENTRIES (enc_entries E (rec_entries r)),
      tlv TAG_REC_DATA_ID (enc_word (rec_dataId r)),
      tlv TAG_REC_RECORD_ID (enc_word (rec_recordId r)),
      tlv TAG_REC_DELAY_FLAG (enc_bool (rec_isDelay r)),
      tlv TAG_REC_FROM (enc_word (rec_from r))]"

definition enc_remote :: "ext \<Rightarrow> RemoteRecordValue \<Rightarrow> PasteDataRecord \<Rightarrow> byte list" where
  "enc_remote E v r = concat
     [tlv TAG_REC_MIMETYPE (str_bytes (rv_mimeType v)),
      tlv TAG_UDC_UDTYPE (enc_word (rv_udType v)),
      enc_ptr (\<lambda>s. tlv TAG_REC_HTMLTEXT (str_bytes s)) (rv_htmlText v),
      enc_ptr (\<lambda>s. tlv TAG_REC_PLAINTEXT (str_bytes s)) (rv_plainText v),
      enc_ptr (enc_pixel E TAG_REC_PIXELMAP) (rv_pixelMap v),
      tlv TAG_REC_WANT (Parcelable2Raw (want_marshal E) (rv_want v)),
      tlv TAG_REC_URI (Parcelable2Raw (uri_marshal E) (rv_uri v)),
      tlv TAG_UDC_UDMFVALUE (enc_entry_value E (rv_udmfValue v)),
      tlv TAG_UDC_ENTRIES (enc_entries E (rv_entries v)),
      tlv TAG_REC_CONVERT_URI (str_bytes (rec_convertUri r)),
      enc_ptr (\<lambda>m. tlv TAG_REC_CUSTOM_DATA (tlv TAG_ITEM_DATA (enc_item_map m))) (rec_customData r),
      tlv TAG_REC_URI_PERMISSION (enc_bool (rec_hasGrantUriPermission r)),
      enc_ptr (\<lambda>m. tlv TAG_UDC_DETAILS (enc_details m)) (rec_details r),
      tlv TAG_UDC_TEXTCONTENT (str_bytes (rec_textContent r)),
      enc_ptr (\<lambda>m. tlv TAG_UDC_SYSTEMCONTENTS (enc_details m)) (rec_systemDefinedContents r),
      tlv TAG_REC_DATA_ID (enc_word (rec_dataId r)),
      tlv TAG_REC_RECORD_ID (enc_word (rec_recordId r)),
      tlv TAG_REC_DELAY_FLAG (enc_bool (rec_isDelay r)),
      tlv TAG_REC_FROM (enc_word (rec_from r))]"

text \<open>The records that can be read back at recursion depth \<open>d\<close>.\<close>

definition entries_fit :: "ext \<Rightarrow> nat \<Rightarrow> PasteDataEntry option list \<Rightarrow> bool" where
  "entries_fit E d es \<longleftrightarrow> (\<forall>e \<in> set (somes es). entry_fits E (Suc (Suc d)) e)"

definition common_fits :: "nat \<Rightarrow> PasteDataRecord \<Rightarrow> bool" where
  "common_fits d r \<longleftrightarrow> d + 2 \<le> MAX_DEPTH \<and> pred_option map_ok (rec_customData r) \<and>
     pred_option map_ok (rec_details r) \<and> pred_option map_ok (rec_systemDefinedContents r)"

definition record_fits :: "ext \<Rightarrow> nat \<Rightarrow> PasteDataRecord \<Rightarrow> bool" where
  "record_fits E d r \<longleftrightarrow> common_fits d r \<and> entries_fit E d (rec_entries r) \<and>
     pred_option (want_codec_ok E) (rec_want r) \<and> pred_option (uri_codec_ok E) (rec_uri r) \<and>
     pred_option (pixel_codec_ok E) (rec_pixelMap r) \<and>
     pred_option (\<lambda>v. entry_ok E v \<and> Suc d + 2 * nesting v \<le> MAX_DEPTH) (rec_udmfValue r)"

definition remote_fits :: "ext \<Rightarrow> nat \<Rightarrow> RemoteRecordValue \<Rightarrow> PasteDataRecord \<Rightarrow> bool" where
  "remote_fits E d v r \<longleftrightarrow> common_fits d r \<and> entries_fit E d (rv_entries v) \<and>
     pred_option (want_codec_ok E) (rv_want v) \<and> pred_option (uri_codec_ok E) (rv_uri v) \<and>
     pred_option (pixel_codec_ok E) (rv_pixelMap v) \<and>
     entry_ok E (rv_udmfValue v) \<and> Suc d + 2 * nesting (rv_udmfValue v) \<le> MAX_DEPTH"

section \<open>The writers emit the reference encodings\<close>

lemma emits_entries [wr_intro]:
  assumes "entries_fit E d es"
  shows "emits E (Write_entries E t es) (tlv t (enc_entries E es))"
proof -
  have "emits E (Write_ptr (\<lambda>e. Write_writeable TAG_VECTOR_ITEM (EncodeTLV_entry E e)) p)
      (enc_ptr (\<lambda>e. tlv TAG_VECTOR_ITEM (enc_PasteDataEntry E e)) p)" if "p \<in> set es" for p
    using assms that unfolding Write_writeable_def entries_fit_def
    by (intro emits_ptr emits_WriteFrame entry_tlv.encode_emits [where d = "Suc (Suc d)"]) auto
  then show ?thesis
    unfolding Write_entries_def enc_entries_def enc_ptr_somes [symmetric] by (rule emits_vector)
qed

lemma emits_custom_ptr:
  "pred_option map_ok p \<Longrightarrow>
   emits E (Write_ptr (\<lambda>c. Write_writeable t (EncodeTLV_custom E c)) p)
     (enc_ptr (\<lambda>m. tlv t (tlv TAG_ITEM_DATA (enc_item_map m))) p)"
  unfolding Write_writeable_def by (intro emits_ptr emits_WriteFrame custom_tlv.encode_emits) auto

lemma emits_pixel_ptr:
  "pred_option (pixel_codec_ok E) p \<Longrightarrow> emits E (Write_ptr (Write_pixel_map E t) p) (enc_ptr (enc_pixel E t) p)"
  by (intro emits_ptr emits_pixel) (auto simp: pixel_codec_ok_def)

lemma emits_simple_ptrs:
  "emits E (Write_ptr (Write_string E t) ps) (enc_ptr (\<lambda>s. tlv t (str_bytes s)) ps)"
  "emits E (Write_ptr (Write_details E t) pd) (enc_ptr (\<lambda>m. tlv t (enc_details m)) pd)"
  "emits E (Write_ptr (Write_entry_value E t) pv) (enc_ptr (\<lambda>v. tlv t (enc_entry_value E v)) pv)"
  by (intro wr_intro)+

lemmas record_emits = emits_simple_ptrs emits_string emits_RawMem emits_bool emits_word emits_entry_value
  emits_entries emits_custom_ptr emits_pixel_ptr

lemma emits_local: "record_fits E d r \<Longrightarrow> emits E (EncodeTLVLocal E r) (enc_local E r)"
  unfolding EncodeTLVLocal_def enc_local_def record_fits_def common_fits_def
  by (rule emits_andW_list) (simp add: record_emits emits_entries [where d = d])

lemma emits_remote: "remote_fits E d v r \<Longrightarrow> emits E (EncodeTLVRemote_with E v r) (enc_remote E v r)"
  unfolding EncodeTLVRemote_with_def enc_remote_def remote_fits_def common_fits_def
  by (rule emits_andW_list) (simp add: record_emits emits_entries [where d = d])

section \<open>The counts cover the encodings\<close>

definition entries_slack :: "ext \<Rightarrow> PasteDataEntry option list \<Rightarrow> nat" where
  "entries_slack E es = sum_list (map (\<lambda>e. slack_entry E (ent_value e)) (somes es))"

definition local_slack :: "ext \<Rightarrow> PasteDataRecord \<Rightarrow> nat" where
  "local_slack E r = (case rec_pixelMap r of None \<Rightarrow> 0 | Some _ \<Rightarrow> 1) +
     (case rec_udmfValue r of None \<Rightarrow> 0 | Some v \<Rightarrow> slack_entry E v) + entries_slack E (rec_entries r)"

definition remote_slack :: "ext \<Rightarrow> RemoteRecordValue \<Rightarrow> nat" where
  "remote_slack E v = (case rv_pixelMap v of None \<Rightarrow> 0 | Some _ \<Rightarrow> 1) +
     slack_entry E (rv_udmfValue v) + entries_slack E (rv_entries v)"

lemma Count_ptr_simps [simp]: "Count_ptr f None = 0" "Count_ptr f (Some x) = f x"
  by (simp_all add: Count_ptr_def)

lemma Count_entries_enc:
  assumes "entries_fit E d es"
  shows "Count_entries E es = length (tlv t (enc_entries E es)) + 6 * entries_slack E es"
proof -
  have "sum_list (map (Count_ptr (\<lambda>e. Count_writeable (CountTLV_entry E e))) es) =
      length (enc_entries E es) + 6 * entries_slack E es"
    using assms
  proof (induction es)
    case (Cons p es)
    then have "sum_list (map (Count_ptr (\<lambda>e. Count_writeable (CountTLV_entry E e))) es) =
        length (enc_entries E es) + 6 * entries_slack E es" by (auto simp: entries_fit_def)
    moreover have "CountTLV_entry E e = length (enc_PasteDataEntry E e) + 6 * slack_entry E (ent_value e)"
      if "p = Some e" for e
      by (rule entry_tlv.count_covers [where d = "Suc (Suc d)"]) (use Cons.prems that in \<open>auto simp: entries_fit_def\<close>)
    ultimately show ?case
      by (cases p) (simp_all add: Count_writeable_def enc_entries_def entries_slack_def)
  qed (simp add: enc_entries_def entries_slack_def)
  then show ?thesis by (simp add: Count_entries_def Count_vector_sum)
qed

lemma Count_ptr_enc:
  "(\<And>x. p = Some x \<Longrightarrow> cnt x = length (f x)) \<Longrightarrow> Count_ptr cnt p = length (enc_ptr f p)"
  by (cases p) (simp_all add: enc_ptr_def)

lemma Count_custom_ptr:
  "pred_option map_ok p \<Longrightarrow> Count_ptr (\<lambda>c. Count_writeable (CountTLV_custom c)) p =
     length (enc_ptr (\<lambda>m. tlv t (tlv TAG_ITEM_DATA (enc_item_map m))) p)"
  by (rule Count_ptr_enc) (auto simp: Count_writeable_def custom_tlv.count_covers)

lemma Count_pixel_ptr:
  "pred_option (pixel_codec_ok E) p \<Longrightarrow> Count_pixel_map E p =
     length (enc_ptr (enc_pixel E t) p) + 6 * (case p of None \<Rightarrow> 0 | Some _ \<Rightarrow> 1)"
  by (cases p) (auto simp: Count_pixel_map_def enc_ptr_def enc_pixel_def pixel_codec_ok_def
      PixelMap2Vector_def Count_vector_u8_def)

lemma Count_string_ptr: "Count_ptr Count_string p = length (enc_ptr (\<lambda>s. tlv t (str_bytes s)) p)"
  by (rule Count_ptr_enc) (simp add: Count_string_def)

lemma Count_details_ptr: "Count_ptr Count_details p = length (enc_ptr (\<lambda>m. tlv t (enc_details m)) p)"
  by (rule Count_ptr_enc) (rule Count_details_enc)

lemma Count_value_ptr: "Count_ptr (Count_entry_value E) p =
    length (enc_ptr (\<lambda>v. tlv t (enc_entry_value E v)) p) + 6 * (case p of None \<Rightarrow> 0 | Some v \<Rightarrow> slack_entry E v)"
  by (cases p) (simp_all add: enc_ptr_def Count_entry_value_enc [of _ _ t])

lemma count_local:
  assumes "record_fits E d r"
  shows "CountTLVLocal E r = length (enc_local E r) + 6 * local_slack E r"
  using assms unfolding record_fits_def common_fits_def CountTLVLocal_def enc_local_def local_slack_def
  by (simp add: Count_entries_enc [of E d _ TAG_UDC_ENTRIES] Count_custom_ptr [of _ TAG_REC_CUSTOM_DATA]
      Count_pixel_ptr [of E _ TAG_REC_PIXELMAP] Count_string_ptr [of "rec_htmlText r" TAG_REC_HTMLTEXT]
      Count_string_ptr [of "rec_plainText r" TAG_REC_PLAINTEXT] Count_details_ptr [of "rec_details r" TAG_UDC_DETAILS]
      Count_details_ptr [of "rec_systemDefinedContents r" TAG_UDC_SYSTEMCONTENTS]
      Count_value_ptr [of E _ TAG_UDC_UDMFVALUE] Count_string_def Count_basic_def Count_RawMem_def)

lemma count_remote:
  assumes "remote_fits E d v r"
  shows "CountTLVRemote_with E v r = length (enc_remote E v r) + 6 * remote_slack E v"
  using assms unfolding remote_fits_def common_fits_def CountTLVRemote_with_def enc_remote_def remote_slack_def
  by (simp add: Count_entries_enc [of E d _ TAG_UDC_ENTRIES] Count_custom_ptr [of _ TAG_REC_CUSTOM_DATA]
      Count_pixel_ptr [of E _ TAG_REC_PIXELMAP] Count_string_ptr [of "rv_htmlText v" TAG_REC_HTMLTEXT]
      Count_string_ptr [of "rv_plainText v" TAG_REC_PLAINTEXT] Count_details_ptr [of "rec_details r" TAG_UDC_DETAILS]
      Count_details_ptr [of "rec_systemDefinedContents r" TAG_UDC_SYSTEMCONTENTS]
      Count_entry_value_enc [of E _ TAG_UDC_UDMFVALUE] Count_string_def Count_basic_def Count_RawMem_def)

section \<open>The decoder reads every field back\<close>

lemma safe_DecodeItem2 [rd_safe]: "safe_rd (DecodeItem2 E d h r)"
  unfolding DecodeItem2_def [abs_def] by (intro rd_safe entry_tlv.member_safe)

lemma safe_DecodeItem1 [rd_safe]: "safe_rd (DecodeItem1 E d h r)"
  unfolding DecodeItem1_def [abs_def] by (intro rd_safe custom_tlv.member_safe)

lemma consumes_entries:
  assumes "entries_fit E d es" and "d + 2 \<le> MAX_DEPTH"
  shows "consumes E (ReadValue_entries E d old (mkh t (enc_entries E es))) (enc_entries E es)
    (old @ map (\<lambda>e. Some (e\<lparr>ent_rawDataSize := 0\<rparr>)) (somes es))"
proof (rule consumes_vector)
  show "guard_valid d" using assms(2) by (simp add: guard_valid_def)
  have "consumes E (ReadValue_ptr (Suc d) (\<lambda>d2. ReadValue_readable (DecodeTLV_entry E d2 empty_entry))
      (mkh TAG_VECTOR_ITEM (enc_PasteDataEntry E e))) (enc_PasteDataEntry E e) (Some (e\<lparr>ent_rawDataSize := 0\<rparr>))"
    if "e \<in> set (somes es)" for e
    using assms that by (intro consumes_ptr entry_tlv.member_reads) (auto simp: guard_valid_def entries_fit_def)
  then show "steps E (\<lambda>vh acc b1. mapR (\<lambda>x. acc @ [x]) (ReadValue_ptr (Suc d)
      (\<lambda>d2. ReadValue_readable (DecodeTLV_entry E d2 empty_entry)) vh b1)) old (enc_entries E es)
      (old @ map (\<lambda>e. Some (e\<lparr>ent_rawDataSize := 0\<rparr>)) (somes es))"
    unfolding enc_entries_def by (rule steps_vector)
qed

lemma consumes_want_raw:
  "pred_option (want_codec_ok E) p \<Longrightarrow> consumes E (ReadValue_want E (mkh t (Parcelable2Raw (want_marshal E) p)))
     (Parcelable2Raw (want_marshal E) p) p"
  by (cases p) (simp_all add: Parcelable2Raw_def consumes_want consumes_no_want)

lemma consumes_uri_raw:
  "pred_option (uri_codec_ok E) p \<Longrightarrow> consumes E (ReadValue_uri E (mkh t (Parcelable2Raw (uri_marshal E) p)))
     (Parcelable2Raw (uri_marshal E) p) p"
  by (cases p) (simp_all add: Parcelable2Raw_def consumes_uri consumes_no_uri)

text \<open>What each field does to the record under construction.\<close>

lemma carries_leaves:
  "carries E (DecodeItem1 E d) (tlv TAG_REC_MIMETYPE (str_bytes s)) (\<lambda>r. r\<lparr>rec_mimeType := rec_mimeType r @ s\<rparr>)"
  "carries E (DecodeItem1 E d) (tlv TAG_REC_CONVERT_URI (str_bytes s)) (\<lambda>r. r\<lparr>rec_convertUri := rec_convertUri r @ s\<rparr>)"
  "carries E (DecodeItem1 E d) (tlv TAG_UDC_TEXTCONTENT (str_bytes s)) (\<lambda>r. r\<lparr>rec_textContent := rec_textContent r @ s\<rparr>)"
  "carries E (DecodeItem1 E d) (tlv TAG_REC_URI_PERMISSION (enc_bool f)) (\<lambda>r. r\<lparr>rec_hasGrantUriPermission := f\<rparr>)"
  "carries E (DecodeItem1 E d) (tlv TAG_REC_DELAY_FLAG (enc_bool f)) (\<lambda>r. r\<lparr>rec_isDelay := f\<rparr>)"
  "carries E (DecodeItem1 E d) (tlv TAG_UDC_UDTYPE (enc_word n)) (\<lambda>r. r\<lparr>rec_udType := n\<rparr>)"
  "carries E (DecodeItem1 E d) (tlv TAG_REC_DATA_ID (enc_word n)) (\<lambda>r. r\<lparr>rec_dataId := n\<rparr>)"
  "carries E (DecodeItem1 E d) (tlv TAG_REC_RECORD_ID (enc_word n)) (\<lambda>r. r\<lparr>rec_recordId := n\<rparr>)"
  "carries E (DecodeItem1 E d) (tlv TAG_REC_FROM (enc_word n)) (\<lambda>r. r\<lparr>rec_from := n\<rparr>)"
  by (rule carries_field, simp add: DecodeItem1_def [abs_def] DecodeItem2_def [abs_def] rec_tags
      consumes_map [OF consumes_string] consumes_map [OF consumes_bool] consumes_map [OF consumes_u32])+

lemma carries_parcels:
  "pred_option (want_codec_ok E) w \<Longrightarrow>
   carries E (DecodeItem1 E d) (tlv TAG_REC_WANT (Parcelable2Raw (want_marshal E) w)) (\<lambda>r. r\<lparr>rec_want := w\<rparr>)"
  "pred_option (uri_codec_ok E) u \<Longrightarrow>
   carries E (DecodeItem1 E d) (tlv TAG_REC_URI (Parcelable2Raw (uri_marshal E) u)) (\<lambda>r. r\<lparr>rec_uri := u\<rparr>)"
  by (rule carries_field, simp add: DecodeItem1_def [abs_def] rec_tags
      consumes_map [OF consumes_want_raw] consumes_map [OF consumes_uri_raw])+

abbreviation setp :: "('a option \<Rightarrow> 'r \<Rightarrow> 'r) \<Rightarrow> 'a option \<Rightarrow> 'r \<Rightarrow> 'r" where
  "setp upd p \<equiv> (case p of None \<Rightarrow> (\<lambda>r. r) | Some x \<Rightarrow> upd (Some x))"

lemma carries_setp:
  "(\<And>x. p = Some x \<Longrightarrow> carries E body (f x) (upd (Some x))) \<Longrightarrow> carries E body (enc_ptr f p) (setp upd p)"
  by (cases p) (simp_all add: enc_ptr_def carries_def steps.steps_done)

lemma consumes_ptrs:
  "guard_valid d \<Longrightarrow> consumes E (ReadValue_ptr d (\<lambda>_. ReadValue_string []) (mkh t (str_bytes s))) (str_bytes s) (Some s)"
  "guard_valid d \<Longrightarrow> map_ok m \<Longrightarrow>
   consumes E (ReadValue_ptr d (\<lambda>_. ReadValue_details E []) (mkh t (enc_details m))) (enc_details m) (Some m)"
  "guard_valid d \<Longrightarrow> map_ok c \<Longrightarrow>
   consumes E (ReadValue_ptr d (\<lambda>_. ReadValue_readable (DecodeTLV_custom [])) (mkh t (tlv TAG_ITEM_DATA (enc_item_map c))))
     (tlv TAG_ITEM_DATA (enc_item_map c)) (Some c)"
  "guard_valid d \<Longrightarrow> entry_ok E v \<Longrightarrow> Suc d + 2 * nesting v \<le> MAX_DEPTH \<Longrightarrow>
   consumes E (ReadValue_ptr d (ReadValue_entry E) (mkh t (enc_entry_value E v))) (enc_entry_value E v) (Some v)"
  using consumes_string [of E "[]" t s] consumes_details [of m E t] custom_tlv.member_reads [of c E t]
    consumes_entry [of E v "Suc d" "mkh t (enc_entry_value E v)"]
  by (simp_all add: consumes_ptr)

lemma carries_pointers:
  assumes "d + 2 \<le> MAX_DEPTH"
  shows "carries E (DecodeItem1 E d) (enc_ptr (\<lambda>s. tlv TAG_REC_HTMLTEXT (str_bytes s)) ps)
      (setp (\<lambda>p r. r\<lparr>rec_htmlText := p\<rparr>) ps)"
    "carries E (DecodeItem1 E d) (enc_ptr (\<lambda>s. tlv TAG_REC_PLAINTEXT (str_bytes s)) ps)
      (setp (\<lambda>p r. r\<lparr>rec_plainText := p\<rparr>) ps)"
    "pred_option map_ok pc \<Longrightarrow> carries E (DecodeItem1 E d)
      (enc_ptr (\<lambda>m. tlv TAG_REC_CUSTOM_DATA (tlv TAG_ITEM_DATA (enc_item_map m))) pc)
      (setp (\<lambda>p r. r\<lparr>rec_customData := p\<rparr>) pc)"
    "pred_option map_ok pd \<Longrightarrow> carries E (DecodeItem1 E d) (enc_ptr (\<lambda>m. tlv TAG_UDC_DETAILS (enc_details m)) pd)
      (setp (\<lambda>p r. r\<lparr>rec_details := p\<rparr>) pd)"
    "pred_option map_ok pd \<Longrightarrow> carries E (DecodeItem1 E d) (enc_ptr (\<lambda>m. tlv TAG_UDC_SYSTEMCONTENTS (enc_details m)) pd)
      (setp (\<lambda>p r. r\<lparr>rec_systemDefinedContents := p\<rparr>) pd)"
  by (rule carries_setp, rule carries_field, use assms in \<open>simp add: DecodeItem1_def [abs_def] DecodeItem2_def [abs_def]
      rec_tags consumes_map [OF consumes_ptrs(1)] consumes_map [OF consumes_ptrs(2)]
      consumes_map [OF consumes_ptrs(3)] guard_valid_def\<close>)+

lemma carries_pixel:
  assumes "pred_option (pixel_codec_ok E) p"
  shows "carries E (DecodeItem1 E d) (enc_ptr (enc_pixel E TAG_REC_PIXELMAP) p) (setp (\<lambda>p r. r\<lparr>rec_pixelMap := p\<rparr>) p)"
proof (rule carries_setp)
  fix x
  assume "p = Some x"
  with assms obtain bs where bs: "pixel_encode E x = Some bs" "bs \<noteq> []" "pixel_decode E bs = Some x"
    by (auto simp: pixel_codec_ok_def)
  then have "carries E (DecodeItem1 E d) (tlv TAG_REC_PIXELMAP bs) (\<lambda>r. r\<lparr>rec_pixelMap := Some x\<rparr>)"
    by (intro carries_field) (simp add: DecodeItem1_def [abs_def] rec_tags ReadValue_pixel_map_def
        consumes_map [OF consumes_map [OF consumes_bytes]] Vector2PixelMap_def)
  with bs show "carries E (DecodeItem1 E d) (enc_pixel E TAG_REC_PIXELMAP x) (\<lambda>r. r\<lparr>rec_pixelMap := Some x\<rparr>)"
    by (simp add: enc_pixel_def)
qed

lemma carries_udmf:
  assumes "entry_ok E v" and "Suc d + 2 * nesting v \<le> MAX_DEPTH"
  shows "carries E (DecodeItem1 E d) (tlv TAG_UDC_UDMFVALUE (enc_entry_value E v)) (\<lambda>r. r\<lparr>rec_udmfValue := Some v\<rparr>)"
  using assms by (intro carries_field) (simp add: DecodeItem1_def [abs_def] DecodeItem2_def [abs_def] rec_tags
      consumes_map [OF consumes_ptrs(4)] guard_valid_def)

lemma carries_udmf_ptr:
  "pred_option (\<lambda>v. entry_ok E v \<and> Suc d + 2 * nesting v \<le> MAX_DEPTH) p \<Longrightarrow>
   carries E (DecodeItem1 E d) (enc_ptr (\<lambda>v. tlv TAG_UDC_UDMFVALUE (enc_entry_value E v)) p)
     (setp (\<lambda>p r. r\<lparr>rec_udmfValue := p\<rparr>) p)"
  by (rule carries_setp) (auto intro: carries_udmf)

lemma carries_entries:
  assumes "entries_fit E d es" and "d + 2 \<le> MAX_DEPTH"
  shows "carries E (DecodeItem1 E d) (tlv TAG_UDC_ENTRIES (enc_entries E es))
    (\<lambda>r. r\<lparr>rec_entries := rec_entries r @ map (\<lambda>e. Some (e\<lparr>ent_rawDataSize := 0\<rparr>)) (somes es)\<rparr>)"
  using assms by (intro carries_field) (simp add: DecodeItem1_def [abs_def] DecodeItem2_def [abs_def] rec_tags
      consumes_map [OF consumes_entries])

section \<open>Contract and round trip\<close>

text \<open>What survives the local format, and the record a remote encoding describes.\<close>

definition sent_local :: "PasteDataRecord \<Rightarrow> PasteDataRecord" where
  "sent_local r = r\<lparr>rec_uriPermission := 0, rec_entryGetter := None, rec_isConvertUriFromRemote := False,
     rec_entries := map (\<lambda>e. Some (e\<lparr>ent_rawDataSize := 0\<rparr>)) (somes (rec_entries r))\<rparr>"

definition sent_remote :: "RemoteRecordValue \<Rightarrow> PasteDataRecord \<Rightarrow> PasteDataRecord" where
  "sent_remote v r = (sent_local r)\<lparr>rec_udType := rv_udType v, rec_mimeType := rv_mimeType v,
     rec_plainText := rv_plainText v, rec_htmlText := rv_htmlText v, rec_want := rv_want v,
     rec_pixelMap := rv_pixelMap v, rec_uri := rv_uri v, rec_udmfValue := Some (rv_udmfValue v),
     rec_entries := map (\<lambda>e. Some (e\<lparr>ent_rawDataSize := 0\<rparr>)) (somes (rv_entries v))\<rparr>"

definition kept :: "'a option \<Rightarrow> 'a option \<Rightarrow> 'a option" where
  "kept old p = (case p of None \<Rightarrow> old | Some x \<Rightarrow> Some x)"

lemma kept_None [simp]: "kept None p = p"
  by (simp add: kept_def split: option.split)

lemma setp_fields:
  "setp (\<lambda>p r. r\<lparr>rec_htmlText := p\<rparr>) ps r = r\<lparr>rec_htmlText := kept (rec_htmlText r) ps\<rparr>"
  "setp (\<lambda>p r. r\<lparr>rec_plainText := p\<rparr>) ps r = r\<lparr>rec_plainText := kept (rec_plainText r) ps\<rparr>"
  "setp (\<lambda>p r. r\<lparr>rec_customData := p\<rparr>) pc r = r\<lparr>rec_customData := kept (rec_customData r) pc\<rparr>"
  "setp (\<lambda>p r. r\<lparr>rec_details := p\<rparr>) pd r = r\<lparr>rec_details := kept (rec_details r) pd\<rparr>"
  "setp (\<lambda>p r. r\<lparr>rec_systemDefinedContents := p\<rparr>) pd r =
     r\<lparr>rec_systemDefinedContents := kept (rec_systemDefinedContents r) pd\<rparr>"
  "setp (\<lambda>p r. r\<lparr>rec_pixelMap := p\<rparr>) px r = r\<lparr>rec_pixelMap := kept (rec_pixelMap r) px\<rparr>"
  "setp (\<lambda>p r. r\<lparr>rec_udmfValue := p\<rparr>) pv r = r\<lparr>rec_udmfValue := kept (rec_udmfValue r) pv\<rparr>"
  by (simp_all add: kept_def split: option.split)

lemmas record_carries = carries_leaves carries_parcels carries_pointers carries_pixel carries_udmf
  carries_udmf_ptr carries_entries

lemma steps_local:
  assumes "record_fits E d r"
  shows "steps E (DecodeItem1 E d) (empty_record E) (enc_local E r) (sent_local r)"
proof -
  let ?us = "[(\<lambda>x. x\<lparr>rec_mimeType := rec_mimeType x @ rec_mimeType r\<rparr>),
    setp (\<lambda>p x. x\<lparr>rec_htmlText := p\<rparr>) (rec_htmlText r), (\<lambda>x. x\<lparr>rec_want := rec_want r\<rparr>),
    setp (\<lambda>p x. x\<lparr>rec_plainText := p\<rparr>) (rec_plainText r), (\<lambda>x. x\<lparr>rec_uri := rec_uri r\<rparr>),
    (\<lambda>x. x\<lparr>rec_convertUri := rec_convertUri x @ rec_convertUri r\<rparr>),
    setp (\<lambda>p x. x\<lparr>rec_pixelMap := p\<rparr>) (rec_pixelMap r), setp (\<lambda>p x. x\<lparr>rec_customData := p\<rparr>) (rec_customData r),
    (\<lambda>x. x\<lparr>rec_hasGrantUriPermission := rec_hasGrantUriPermission r\<rparr>), (\<lambda>x. x\<lparr>rec_udType := rec_udType r\<rparr>),
    setp (\<lambda>p x. x\<lparr>rec_details := p\<rparr>) (rec_details r),
    (\<lambda>x. x\<lparr>rec_textContent := rec_textContent x @ rec_textContent r\<rparr>),
    setp (\<lambda>p x. x\<lparr>rec_systemDefinedContents := p\<rparr>) (rec_systemDefinedContents r),
    setp (\<lambda>p x. x\<lparr>rec_udmfValue := p\<rparr>) (rec_udmfValue r),
    (\<lambda>x. x\<lparr>rec_entries := rec_entries x @ map (\<lambda>e. Some (e\<lparr>ent_rawDataSize := 0\<rparr>)) (somes (rec_entries r))\<rparr>),
    (\<lambda>x. x\<lparr>rec_dataId := rec_dataId r\<rparr>), (\<lambda>x. x\<lparr>rec_recordId := rec_recordId r\<rparr>),
    (\<lambda>x. x\<lparr>rec_isDelay := rec_isDelay r\<rparr>), (\<lambda>x. x\<lparr>rec_from := rec_from r\<rparr>)]"
  have "fold (\<lambda>u a. u a) ?us (empty_record E) = sent_local r"
    by (cases r) (simp add: setp_fields empty_record_def sent_local_def)
  moreover have "steps E (DecodeItem1 E d) (empty_record E) (enc_local E r) (fold (\<lambda>u a. u a) ?us (empty_record E))"
    unfolding enc_local_def
    by (rule carries_fields) (use assms in \<open>simp add: record_fits_def common_fits_def record_carries\<close>)
  ultimately show ?thesis by simp
qed

lemma steps_remote:
  assumes "remote_fits E d v r"
  shows "steps E (DecodeItem1 E d) (empty_record E) (enc_remote E v r) (sent_remote v r)"
proof -
  let ?us = "[(\<lambda>x. x\<lparr>rec_mimeType := rec_mimeType x @ rv_mimeType v\<rparr>), (\<lambda>x. x\<lparr>rec_udType := rv_udType v\<rparr>),
    setp (\<lambda>p x. x\<lparr>rec_htmlText := p\<rparr>) (rv_htmlText v), setp (\<lambda>p x. x\<lparr>rec_plainText := p\<rparr>) (rv_plainText v),
    setp (\<lambda>p x. x\<lparr>rec_pixelMap := p\<rparr>) (rv_pixelMap v), (\<lambda>x. x\<lparr>rec_want := rv_want v\<rparr>),
    (\<lambda>x. x\<lparr>rec_uri := rv_uri v\<rparr>), (\<lambda>x. x\<lparr>rec_udmfValue := Some (rv_udmfValue v)\<rparr>),
    (\<lambda>x. x\<lparr>rec_entries := rec_entries x @ map (\<lambda>e. Some (e\<lparr>ent_rawDataSize := 0\<rparr>)) (somes (rv_entries v))\<rparr>),
    (\<lambda>x. x\<lparr>rec_convertUri := rec_convertUri x @ rec_convertUri r\<rparr>),
    setp (\<lambda>p x. x\<lparr>rec_customData := p\<rparr>) (rec_customData r),
    (\<lambda>x. x\<lparr>rec_hasGrantUriPermission := rec_hasGrantUriPermission r\<rparr>),
    setp (\<lambda>p x. x\<lparr>rec_details := p\<rparr>) (rec_details r),
    (\<lambda>x. x\<lparr>rec_textContent := rec_textContent x @ rec_textContent r\<rparr>),
    setp (\<lambda>p x. x\<lparr>rec_systemDefinedContents := p\<rparr>) (rec_systemDefinedContents r),
    (\<lambda>x. x\<lparr>rec_dataId := rec_dataId r\<rparr>), (\<lambda>x. x\<lparr>rec_recordId := rec_recordId r\<rparr>),
    (\<lambda>x. x\<lparr>rec_isDelay := rec_isDelay r\<rparr>), (\<lambda>x. x\<lparr>rec_from := rec_from r\<rparr>)]"
  have "fold (\<lambda>u a. u a) ?us (empty_record E) = sent_remote v r"
    by (cases r) (simp add: setp_fields empty_record_def sent_local_def sent_remote_def)
  moreover have "steps E (DecodeItem1 E d) (empty_record E) (enc_remote E v r) (fold (\<lambda>u a. u a) ?us (empty_record E))"
    unfolding enc_remote_def
    by (rule carries_fields) (use assms in \<open>simp add: remote_fits_def common_fits_def record_carries\<close>)
  ultimately show ?thesis by simp
qed

lemma decodes_record:
  assumes "steps E (DecodeItem1 E d) (empty_record E) e r"
  shows "decodes E (DecodeTLV_record E d (empty_record E)) (e @ replicate (6 * k) 0) (finish_decode E r)"
proof -
  have "steps E (DecodeItem1 E d) r (replicate (6 * k) 0) r"
    by (rule steps_padding) (simp add: DecodeItem1_def [abs_def] DecodeItem2_def [abs_def] rec_tags)
  from decodes_fields [OF steps_append [OF assms this]] show ?thesis
    unfolding DecodeTLV_record_def [abs_def] decodes_def by (auto simp: mapR_def)
qed

lemma safe_DecodeTLV_record [rd_safe]: "safe_rd (DecodeTLV_record E d self)"
  unfolding DecodeTLV_record_def [abs_def] by (intro rd_safe)

interpretation record_tlv: tlv_class "DecodeTLV_record E d (empty_record E)" E "EncodeTLVLocal E" "CountTLVLocal E"
    "enc_local E" "local_slack E" "record_fits E d" "\<lambda>r. finish_decode E (sent_local r)" for E d
  by unfold_locales (auto intro: rd_safe emits_local count_local decodes_record steps_local)

interpretation remote_tlv: tlv_class "DecodeTLV_record E d (empty_record E)" E
    "\<lambda>r. EncodeTLVRemote_with E v r" "\<lambda>r. CountTLVRemote_with E v r" "enc_remote E v" "\<lambda>r. remote_slack E v"
    "\<lambda>r. remote_fits E d v r" "\<lambda>r. finish_decode E (sent_remote v r)" for E d v
  by unfold_locales (auto intro: rd_safe emits_remote count_remote decodes_record steps_remote)

section \<open>What a receiver gets\<close>

definition no_legacy :: "PasteDataRecord \<Rightarrow> bool" where
  "no_legacy r \<longleftrightarrow> rec_htmlText r = None \<and> rec_plainText r = None \<and> rec_uri r = None \<and>
     rec_pixelMap r = None \<and> rec_want r = None \<and> rec_udmfValue r = None"

lemma finish_decode_no_legacy:
  assumes "no_legacy r"
  shows "finish_decode E r = r\<lparr>rec_mimeType := GetMimeType_record r\<rparr>"
proof -
  have "Remote2Local E r = None" using assms by (simp add: no_legacy_def Remote2Local_def)
  moreover have "r\<lparr>rec_udmfValue := None, rec_plainText := None, rec_htmlText := None, rec_uri := None,
      rec_pixelMap := None, rec_want := None\<rparr> = r"
    using assms by (cases r) (simp add: no_legacy_def)
  ultimately show ?thesis by (simp add: finish_decode_def GetMimeType_record_def)
qed

lemma sent_local_no_legacy: "no_legacy (sent_local r) = no_legacy r"
  by (simp add: no_legacy_def sent_local_def)

text \<open>A record in the local format arrives as it was sent. Every field that is part of the
  format comes back, the entries in order and without the null ones; an empty MIME type is
  replaced by that of the first entry.\<close>

theorem local_roundtrip:
  assumes "record_fits E d r" and "no_legacy r"
    and "CountTLVLocal E r < 2 ^ 32" and "CountTLVLocal E r \<le> rsize_max E"
  shows "\<exists>bs b. Encode (CountTLVLocal E r) (EncodeTLVLocal E r) = (True, bs) \<and>
    Decode (DecodeTLV_record E d (empty_record E)) bs =
      ROk ((sent_local r)\<lparr>rec_mimeType := GetMimeType_record (sent_local r)\<rparr>) b"
  using record_tlv.roundtrip [OF assms(1,3,4)] assms(2)
  by (simp add: finish_decode_no_legacy sent_local_no_legacy)

text \<open>The first entry of a remote record, put together again.\<close>

lemma Local2Remote_first:
  assumes "rec_entries r = Some e # rest" and "Local2Remote E r = Some v"
  shows "rv_mimeType v = ent_mimeType e" "rv_udType v = GetUtdEnumFromUtdId E (ent_utdId e)"
    "rv_udmfValue v = ent_value e" "rv_entries v = rest"
  using assms by (auto simp: Local2Remote_def Let_def split: if_splits option.splits entry_value.splits bind_splits)

definition self_contained :: "entry_value \<Rightarrow> bool" where
  "self_contained v = (case v of VObject (Some obj) \<Rightarrow> obj \<noteq> [] | VBytes _ \<Rightarrow> True | _ \<Rightarrow> False)"

definition utd_consistent :: "ext \<Rightarrow> PasteDataEntry \<Rightarrow> bool" where
  "utd_consistent E e \<longleftrightarrow> ent_mimeType e \<noteq> [] \<and>
     ent_utdId e = Convert2UtdId E (GetUtdEnumFromUtdId E (ent_utdId e)) (ent_mimeType e)"

lemma Remote2Local_self_contained:
  assumes "rec_udmfValue r = Some v" and "self_contained v" and "rec_mimeType r \<noteq> []"
  shows "Remote2Local E r = Some (mk_entry_mime (Convert2UtdId E (rec_udType r) (rec_mimeType r)) (rec_mimeType r) v)"
  using assms by (auto simp: Remote2Local_def self_contained_def Let_def empty_entry_def mk_entry_mime_def
      split: entry_value.splits option.splits)

lemma finish_decode_entries:
  "Remote2Local E r = Some e \<Longrightarrow> rec_entries (finish_decode E r) = Some e # rec_entries r"
  by (simp add: finish_decode_def Let_def)

text \<open>C32: The remote format keeps every entry. If the first entry is an object or raw bytes and its
  identifier fits its MIME type, the receiver's record has the same entries in the same order.\<close>

theorem remote_roundtrip:
  assumes "rec_entries r = Some e # rest" and "self_contained (ent_value e)" and "utd_consistent E e"
    and "Local2Remote E r = Some v" and "remote_fits E d v r"
    and "CountTLVRemote_with E v r < 2 ^ 32" and "CountTLVRemote_with E v r \<le> rsize_max E"
  shows "\<exists>bs b r'. map_option (Encode (CountTLVRemote_with E v r)) (EncodeTLVRemote E r) = Some (True, bs) \<and>
    Decode (DecodeTLV_record E d (empty_record E)) bs = ROk r' b \<and>
    rec_entries r' = map (\<lambda>x. Some (x\<lparr>ent_rawDataSize := 0\<rparr>)) (somes (rec_entries r))"
proof -
  note v = Local2Remote_first [OF assms(1,4)]
  have "Remote2Local E (sent_remote v r) = Some (e\<lparr>ent_rawDataSize := 0\<rparr>)"
    using assms(2,3) Remote2Local_self_contained [of "sent_remote v r" "ent_value e" E]
    by (simp add: sent_remote_def v utd_consistent_def mk_entry_mime_def)
  then have "rec_entries (finish_decode E (sent_remote v r)) =
      map (\<lambda>x. Some (x\<lparr>ent_rawDataSize := 0\<rparr>)) (somes (rec_entries r))"
    using assms(1) by (simp add: finish_decode_entries v) (simp add: sent_remote_def v)
  with remote_tlv.roundtrip [OF assms(5-7)] assms(4) show ?thesis
    by (auto simp: EncodeTLVRemote_def)
qed

definition sample_record :: PasteDataRecord where
  "sample_record = (empty_record sample_ext)\<lparr>rec_recordId := 7, rec_isDelay := True, rec_textContent := ''note'',
     rec_customData := Some [(''app/x'', [1, 2])], rec_details := Some [(''a'', DInt32 5)],
     rec_entries := [Some (mk_entry_mime ''app/x'' ''app/x'' (VBytes [9, 8])), None,
                     Some (mk_entry_mime ''general.html'' ''text/html''
                       (VObject (Some [(''htmlContent'', VString ''<b>'')])))]\<rparr>"

lemma sample_record_fits: "record_fits sample_ext 0 sample_record"
  by (simp add: sample_record_def record_fits_def common_fits_def entries_fit_def entry_fits_def
      MAX_DEPTH_def empty_record_def mk_entry_mime_def map_ok_def somes_def List.map_filter_def)

lemma sample_record_count: "CountTLVLocal sample_ext sample_record \<le> 999"
  by (simp add: sample_record_def CountTLVLocal_def empty_record_def mk_entry_mime_def Count_string_def
      Count_RawMem_def Count_basic_def Count_entries_def Count_vector_sum Count_writeable_def CountTLV_entry_def
      CountTLV_custom_def Count_item_map_def Count_details_def Count_vector_u8_def Parcelable2Raw_def
      Count_pixel_map_def)

theorem local_roundtrip_witness:
  "\<exists>bs b. Encode (CountTLVLocal sample_ext sample_record) (EncodeTLVLocal sample_ext sample_record) = (True, bs) \<and>
    Decode (DecodeTLV_record sample_ext 0 (empty_record sample_ext)) bs =
      ROk ((sent_local sample_record)\<lparr>rec_mimeType := GetMimeType_record (sent_local sample_record)\<rparr>) b"
proof (rule local_roundtrip [OF sample_record_fits])
  show "no_legacy sample_record" by (simp add: sample_record_def no_legacy_def empty_record_def)
  show "CountTLVLocal sample_ext sample_record < 2 ^ 32" using sample_record_count by simp
  have "rsize_max sample_ext = 2147483647" by (simp add: sample_ext_def)
  with sample_record_count show "CountTLVLocal sample_ext sample_record \<le> rsize_max sample_ext" by simp
qed

definition sample_remote :: RemoteRecordValue where
  "sample_remote = \<lparr>rv_udType = 99, rv_mimeType = ''app/x'', rv_plainText = None, rv_htmlText = None,
     rv_want = None, rv_pixelMap = None, rv_uri = None, rv_udmfValue = VBytes [9, 8],
     rv_entries = [None, Some (mk_entry_mime ''general.html'' ''text/html''
                       (VObject (Some [(''htmlContent'', VString ''<b>'')])))]\<rparr>"

lemma sample_Local2Remote: "Local2Remote sample_ext sample_record = Some sample_remote"
  by (simp add: Local2Remote_def sample_record_def sample_remote_def empty_record_def mk_entry_mime_def mime_defs
      sample_ext_def sample_ids_def Let_def)

lemma sample_remote_fits: "remote_fits sample_ext 0 sample_remote sample_record"
  by (simp add: sample_record_def sample_remote_def remote_fits_def common_fits_def entries_fit_def entry_fits_def
      MAX_DEPTH_def empty_record_def mk_entry_mime_def map_ok_def)

lemma sample_remote_count: "CountTLVRemote_with sample_ext sample_remote sample_record \<le> 999"
  by (simp add: sample_record_def sample_remote_def CountTLVRemote_with_def empty_record_def mk_entry_mime_def
      Count_string_def Count_RawMem_def Count_basic_def Count_entries_def Count_vector_sum Count_writeable_def
      CountTLV_entry_def CountTLV_custom_def Count_item_map_def Count_details_def Count_vector_u8_def
      Parcelable2Raw_def Count_pixel_map_def)

lemma sample_rsize [simp]: "rsize_max sample_ext = 2147483647"
  by (simp add: sample_ext_def)

theorem remote_roundtrip_witness:
  "\<exists>bs b r'. map_option (Encode (CountTLVRemote_with sample_ext sample_remote sample_record))
      (EncodeTLVRemote sample_ext sample_record) = Some (True, bs) \<and>
    Decode (DecodeTLV_record sample_ext 0 (empty_record sample_ext)) bs = ROk r' b \<and>
    rec_entries r' = map (\<lambda>x. Some (x\<lparr>ent_rawDataSize := 0\<rparr>)) (somes (rec_entries sample_record))"
proof (rule remote_roundtrip [OF _ _ _ sample_Local2Remote sample_remote_fits])
  let ?e = "mk_entry_mime ''app/x'' ''app/x'' (VBytes [9, 8])"
  show "rec_entries sample_record = Some ?e # rv_entries sample_remote"
    by (simp add: sample_record_def sample_remote_def)
  show "self_contained (ent_value ?e)" by (simp add: self_contained_def mk_entry_mime_def)
  show "utd_consistent sample_ext ?e"
    by (simp add: utd_consistent_def mk_entry_mime_def Convert2UtdId_def mime_defs)
qed (use sample_remote_count in simp_all)

text \<open>A first entry that holds a plain string travels as the older field \<open>plainText_\<close> or
  \<open>htmlText_\<close> and comes back as an object.\<close>

lemma sent_text_entry:
  assumes "rec_entries r = Some e # rest" and "ent_value e = VString s" and "ent_mimeType e = MIMETYPE_TEXT_PLAIN"
    and "Local2Remote E r = Some v"
  shows "rec_entries (finish_decode E (sent_remote v r)) =
    Some (mk_entry_mime (Convert2UtdId E (GetUtdEnumFromUtdId E (ent_utdId e)) MIMETYPE_TEXT_PLAIN) MIMETYPE_TEXT_PLAIN
      (VObject (Some (assign (CONTENT E) (VString s)
        (assign (UNIFORM_DATA_TYPE E) (VString (GetUtdIdFromUtdEnum E (PLAIN_TEXT E))) []))))) #
    map (\<lambda>x. Some (x\<lparr>ent_rawDataSize := 0\<rparr>)) (somes rest)"
proof -
  note v = Local2Remote_first [OF assms(1,4)]
  have "rv_plainText v = Some s"
    using assms by (auto simp: Local2Remote_def ConvertToPlainText_def)
  then have "Remote2Local E (sent_remote v r) =
    Some (mk_entry_mime (Convert2UtdId E (GetUtdEnumFromUtdId E (ent_utdId e)) MIMETYPE_TEXT_PLAIN) MIMETYPE_TEXT_PLAIN
      (VObject (Some (assign (CONTENT E) (VString s)
        (assign (UNIFORM_DATA_TYPE E) (VString (GetUtdIdFromUtdEnum E (PLAIN_TEXT E))) [])))))"
    using assms v by (simp add: Remote2Local_def sent_remote_def mk_entry_mime_def empty_entry_def or_empty_def
        mime_defs)
  from finish_decode_entries [OF this] show ?thesis by (simp add: sent_remote_def v)
qed

lemma GetPlainTextV0_first:
  "rec_entries r = Some e # es \<Longrightarrow> ent_mimeType e = MIMETYPE_TEXT_PLAIN \<Longrightarrow>
   GetPlainTextV0 E r = ConvertToPlainText E e"
  by (simp add: GetPlainTextV0_def entry_with_mime_def)

lemma text_object_lookup:
  assumes "object_get_ok E"
  shows "GetValue_string E (assign k (VString s) (assign k' (VString s') [])) x =
    (if x = k then Some s else if x = k' then Some s' else None)"
proof -
  have "map_ok (assign k' (VString s') [])" by (intro map_ok_assign) simp
  with assms show ?thesis by (simp add: object_get_ok_def map_of_assign)
qed

text \<open>Plain text survives the remote format: a peer that receives a record whose first entry is
  a string of the plain text type reads the same text from it.\<close>

theorem remote_text_survives:
  assumes "rec_entries r = Some e # rest" and "ent_value e = VString s" and "ent_mimeType e = MIMETYPE_TEXT_PLAIN"
    and "ent_utdId e = GetUtdIdFromUtdEnum E (PLAIN_TEXT E)"
    and "Local2Remote E r = Some v" and "remote_fits E d v r"
    and "CountTLVRemote_with E v r < 2 ^ 32" and "CountTLVRemote_with E v r \<le> rsize_max E"
    and "utd_ok E" and "object_get_ok E" and "object_keys_ok E"
  shows "\<exists>bs b r'. map_option (Encode (CountTLVRemote_with E v r)) (EncodeTLVRemote E r) = Some (True, bs) \<and>
    Decode (DecodeTLV_record E d (empty_record E)) bs = ROk r' b \<and> GetPlainTextV0 E r' = Some (Some s)"
proof -
  have "GetUtdEnumFromUtdId E (ent_utdId e) = PLAIN_TEXT E" "PLAIN_TEXT E \<noteq> HYPERLINK E"
    using assms(4,9) by (simp_all add: utd_ok_def utd_enums_def)
  then have "Convert2UtdId E (GetUtdEnumFromUtdId E (ent_utdId e)) MIMETYPE_TEXT_PLAIN = GetUtdIdFromUtdEnum E (PLAIN_TEXT E)"
    by (simp add: Convert2UtdId_def)
  with GetPlainTextV0_first [OF sent_text_entry [OF assms(1-3,5)], of E]
  have "GetPlainTextV0 E (finish_decode E (sent_remote v r)) = Some (Some s)"
    using text_object_lookup [OF assms(10)]
    by (simp add: mk_entry_mime_def ConvertToPlainText_def or_empty_def)
  with remote_tlv.roundtrip [OF assms(6-8)] assms(5) show ?thesis
    by (auto simp: EncodeTLVRemote_def)
qed

definition sample_text :: "string \<Rightarrow> PasteDataRecord" where
  "sample_text utdId = (empty_record sample_ext)\<lparr>rec_entries := [Some (mk_entry_mime utdId ''text/plain'' (VString ''hi''))]\<rparr>"

definition sample_text_value :: "i32 \<Rightarrow> RemoteRecordValue" where
  "sample_text_value t = \<lparr>rv_udType = t, rv_mimeType = ''text/plain'', rv_plainText = Some ''hi'', rv_htmlText = None,
     rv_want = None, rv_pixelMap = None, rv_uri = None, rv_udmfValue = VString ''hi'', rv_entries = []\<rparr>"

lemma sample_text_remote:
  "Local2Remote sample_ext (sample_text u) = Some (sample_text_value (GetUtdEnumFromUtdId sample_ext u))"
  by (simp add: Local2Remote_def sample_text_def sample_text_value_def empty_record_def mk_entry_mime_def mime_defs
      ConvertToPlainText_def Let_def)

lemma sample_text_fits: "remote_fits sample_ext 0 (sample_text_value t) (sample_text u)"
  by (simp add: sample_text_def sample_text_value_def remote_fits_def common_fits_def entries_fit_def
      MAX_DEPTH_def empty_record_def)

lemma sample_text_count: "CountTLVRemote_with sample_ext (sample_text_value t) (sample_text u) \<le> 999"
  by (simp add: sample_text_def sample_text_value_def CountTLVRemote_with_def empty_record_def
      Count_string_def Count_RawMem_def Count_basic_def Count_entries_def Count_vector_sum
      Parcelable2Raw_def Count_pixel_map_def)

theorem remote_text_survives_witness:
  "\<exists>bs b r'. map_option (Encode (CountTLVRemote_with sample_ext (sample_text_value 2) (sample_text ''general.plain-text'')))
      (EncodeTLVRemote sample_ext (sample_text ''general.plain-text'')) = Some (True, bs) \<and>
    Decode (DecodeTLV_record sample_ext 0 (empty_record sample_ext)) bs = ROk r' b \<and>
    GetPlainTextV0 sample_ext r' = Some (Some ''hi'')"
proof (rule remote_text_survives [OF _ _ _ _ _ sample_text_fits _ _ sample_utd_ok sample_object_get_ok sample_object_keys_ok])
  let ?e = "mk_entry_mime ''general.plain-text'' ''text/plain'' (VString ''hi'')"
  show "rec_entries (sample_text ''general.plain-text'') = Some ?e # []" by (simp add: sample_text_def)
  show "ent_value ?e = VString ''hi''" "ent_mimeType ?e = MIMETYPE_TEXT_PLAIN"
    "ent_utdId ?e = GetUtdIdFromUtdEnum sample_ext (PLAIN_TEXT sample_ext)"
    by (simp_all add: mk_entry_mime_def mime_defs sample_ext_def sample_ids_def)
  have "GetUtdEnumFromUtdId sample_ext ''general.plain-text'' = 2" by (simp add: sample_ext_def sample_ids_def)
  with sample_text_remote [of "''general.plain-text''"]
  show "Local2Remote sample_ext (sample_text ''general.plain-text'') = Some (sample_text_value 2)" by simp
qed (use sample_text_count [of 2 "''general.plain-text''"] in simp_all)

text \<open>A hyperlink that is a plain string does not survive the remote format: it is rebuilt as a
  plain text object under the hyperlink identifier, and the text a receiver reads is empty.\<close>

theorem remote_hyperlink_lost:
  assumes "rec_entries r = Some e # rest" and "ent_value e = VString s" and "ent_mimeType e = MIMETYPE_TEXT_PLAIN"
    and "ent_utdId e = GetUtdIdFromUtdEnum E (HYPERLINK E)"
    and "Local2Remote E r = Some v" and "remote_fits E d v r"
    and "CountTLVRemote_with E v r < 2 ^ 32" and "CountTLVRemote_with E v r \<le> rsize_max E"
    and "utd_ok E" and "object_get_ok E" and "object_keys_ok E"
  shows "GetPlainTextV0 E r = Some (Some s) \<and>
    (\<exists>bs b r'. map_option (Encode (CountTLVRemote_with E v r)) (EncodeTLVRemote E r) = Some (True, bs) \<and>
    Decode (DecodeTLV_record E d (empty_record E)) bs = ROk r' b \<and> GetPlainTextV0 E r' = Some (Some []))"
proof -
  have "GetUtdEnumFromUtdId E (ent_utdId e) = HYPERLINK E"
    using assms(4,9) by (simp add: utd_ok_def utd_enums_def)
  then have "Convert2UtdId E (GetUtdEnumFromUtdId E (ent_utdId e)) MIMETYPE_TEXT_PLAIN = GetUtdIdFromUtdEnum E (HYPERLINK E)"
    by (simp add: Convert2UtdId_def)
  moreover have "GetUtdIdFromUtdEnum E (HYPERLINK E) \<noteq> GetUtdIdFromUtdEnum E (PLAIN_TEXT E)"
    "GetUtdIdFromUtdEnum E (HYPERLINK E) \<noteq> GetUtdIdFromUtdEnum E (HTML E)"
  proof -
    have "PLAIN_TEXT E \<noteq> HYPERLINK E" "HYPERLINK E \<noteq> HTML E"
      using assms(9) by (simp_all add: utd_ok_def utd_enums_def)
    then show "GetUtdIdFromUtdEnum E (HYPERLINK E) \<noteq> GetUtdIdFromUtdEnum E (PLAIN_TEXT E)"
      "GetUtdIdFromUtdEnum E (HYPERLINK E) \<noteq> GetUtdIdFromUtdEnum E (HTML E)"
      using utd_ids_inject [OF assms(9), of "HYPERLINK E"] by (auto simp: known_enums_def)
  qed
  moreover have "URL E \<noteq> CONTENT E" "URL E \<noteq> UNIFORM_DATA_TYPE E"
    using assms(11) unfolding object_keys_ok_def by (simp_all only: distinct.simps) auto
  moreover note GetPlainTextV0_first [OF sent_text_entry [OF assms(1-3,5)], of E]
  ultimately have "GetPlainTextV0 E (finish_decode E (sent_remote v r)) = Some (Some [])"
    using text_object_lookup [OF assms(10)]
    by (simp add: mk_entry_mime_def ConvertToPlainText_def or_empty_def)
  moreover have "GetPlainTextV0 E r = Some (Some s)"
    using GetPlainTextV0_first [OF assms(1,3)] assms(2) by (simp add: ConvertToPlainText_def)
  ultimately show ?thesis
    using remote_tlv.roundtrip [OF assms(6-8)] assms(5) by (auto simp: EncodeTLVRemote_def)
qed

theorem remote_hyperlink_lost_witness:
  "GetPlainTextV0 sample_ext (sample_text ''general.hyperlink'') = Some (Some ''hi'') \<and>
   (\<exists>bs b r'. map_option (Encode (CountTLVRemote_with sample_ext (sample_text_value 4) (sample_text ''general.hyperlink'')))
      (EncodeTLVRemote sample_ext (sample_text ''general.hyperlink'')) = Some (True, bs) \<and>
    Decode (DecodeTLV_record sample_ext 0 (empty_record sample_ext)) bs = ROk r' b \<and>
    GetPlainTextV0 sample_ext r' = Some (Some []))"
proof (rule remote_hyperlink_lost [OF _ _ _ _ _ sample_text_fits _ _ sample_utd_ok sample_object_get_ok sample_object_keys_ok])
  let ?e = "mk_entry_mime ''general.hyperlink'' ''text/plain'' (VString ''hi'')"
  show "rec_entries (sample_text ''general.hyperlink'') = Some ?e # []" by (simp add: sample_text_def)
  show "ent_value ?e = VString ''hi''" "ent_mimeType ?e = MIMETYPE_TEXT_PLAIN"
    "ent_utdId ?e = GetUtdIdFromUtdEnum sample_ext (HYPERLINK sample_ext)"
    by (simp_all add: mk_entry_mime_def mime_defs sample_ext_def sample_ids_def)
  have "GetUtdEnumFromUtdId sample_ext ''general.hyperlink'' = 4" by (simp add: sample_ext_def sample_ids_def)
  with sample_text_remote [of "''general.hyperlink''"]
  show "Local2Remote sample_ext (sample_text ''general.hyperlink'') = Some (sample_text_value 4)" by simp
qed (use sample_text_count [of 4 "''general.hyperlink''"] in simp_all)

end
