(* ===== verification/Paste_Data.thy ===== *)
theory Paste_Data
  imports Record_Tlv
begin

text \<open>
  \<open>framework/innerkits\<close>: \<open>PasteDataProperty\<close> and \<open>PasteData\<close> (\<open>paste_data.h/.cpp\<close>).
  A paste data object is a list of records with common properties. The want
  parameters in the properties are opaque; the few operations the code calls on them are the
  parameter \<open>params_ops\<close>. A null record pointer is \<open>None\<close>.
\<close>

section \<open>Properties\<close>

record PasteDataProperty =
  prop_additions :: want_params
  prop_mimeTypes :: "string list"
  prop_tag :: string
  prop_timestamp :: i64
  prop_localOnly :: bool
  prop_shareOption :: i32
  prop_tokenId :: u32
  prop_isRemote :: bool
  prop_bundleName :: string
  prop_setTime :: string
  prop_screenStatus :: i32
  prop_appIndex :: i32

record params_ops =
  params_default :: want_params
  GetWantParams :: "want_params \<Rightarrow> string \<Rightarrow> want_params"
  IsEmpty_params :: "want_params \<Rightarrow> bool"
  GetIntParam :: "want_params \<Rightarrow> string \<Rightarrow> i32 \<Rightarrow> i32"
  GetLongParam :: "want_params \<Rightarrow> string \<Rightarrow> i64 option" \<comment> \<open>\<open>ILong::Query(GetParam(key))\<close>\<close>
  SetIntParam :: "want_params \<Rightarrow> string \<Rightarrow> i32 \<Rightarrow> want_params"
  SetLongParam :: "want_params \<Rightarrow> string \<Rightarrow> i64 \<Rightarrow> want_params"
  SetWantParam :: "want_params \<Rightarrow> string \<Rightarrow> want_params \<Rightarrow> want_params"

text \<open>Documented behaviour of the parameters: what is set is read, and what has a parameter is not empty.\<close>

definition params_ok :: "params_ops \<Rightarrow> bool" where
  "params_ok P \<longleftrightarrow>
     (\<forall>p k n. GetLongParam P (SetLongParam P p k n) k = Some n) \<and>
     (\<forall>p k n d. GetIntParam P (SetIntParam P p k n) k d = n) \<and>
     (\<forall>p k q. GetWantParams P (SetWantParam P p k q) k = q) \<and>
     (\<forall>p k n. \<not> IsEmpty_params P (SetIntParam P p k n))"

definition InApp :: i32 where "InApp = 0"
definition LocalDevice :: i32 where "LocalDevice = 1"
definition CrossDevice :: i32 where "CrossDevice = 2"

definition assign_props :: "PasteDataProperty \<Rightarrow> PasteDataProperty \<Rightarrow> PasteDataProperty" where
  "assign_props this property = property\<lparr>prop_appIndex := prop_appIndex this\<rparr>"

definition copy_props :: "PasteDataProperty \<Rightarrow> PasteDataProperty" where
  "copy_props property = property\<lparr>prop_appIndex := 0\<rparr>"

section \<open>PasteData\<close>

record PasteData =
  pd_rawDataSize :: i64
  pd_deviceId :: string
  pd_userId :: i32
  pd_valid :: bool
  pd_isDraggedData :: bool
  pd_isLocalPaste :: bool
  pd_isDelayData :: bool
  pd_isDelayRecord :: bool
  pd_dataId :: u32
  pd_recordId :: u32
  pd_textSize :: u64
  pd_props :: PasteDataProperty
  pd_records :: "PasteDataRecord option list"
  pd_originAuthority :: "string \<times> i32"
  pd_pasteId :: string

definition new_props :: "params_ops \<Rightarrow> i64 \<Rightarrow> PasteDataProperty" where
  "new_props P now = \<lparr>prop_additions = params_default P, prop_mimeTypes = [], prop_tag = [],
     prop_timestamp = now, prop_localOnly = False, prop_shareOption = CrossDevice, prop_tokenId = 0,
     prop_isRemote = False, prop_bundleName = [], prop_setTime = [], prop_screenStatus = 0, prop_appIndex = 0\<rparr>"

definition new_data :: "params_ops \<Rightarrow> i64 \<Rightarrow> PasteData" where
  "new_data P now = \<lparr>pd_rawDataSize = 0, pd_deviceId = [], pd_userId = - 1, pd_valid = True,
     pd_isDraggedData = False, pd_isLocalPaste = False, pd_isDelayData = False, pd_isDelayRecord = False,
     pd_dataId = 0, pd_recordId = 0, pd_textSize = 0, pd_props = new_props P now, pd_records = [],
     pd_originAuthority = ([], 0), pd_pasteId = []\<rparr>"

definition copy_data :: "params_ops \<Rightarrow> PasteData \<Rightarrow> PasteData" where
  "copy_data P d = d\<lparr>pd_props := assign_props (new_props P 0) (pd_props d),
     pd_records := map Some (somes (pd_records d))\<rparr>"

definition assign_data :: "PasteData \<Rightarrow> PasteData \<Rightarrow> PasteData" where
  "assign_data this d = d\<lparr>pd_props := assign_props (pd_props this) (pd_props d),
     pd_records := map Some (somes (pd_records d))\<rparr>"

definition GetProperty :: "PasteData \<Rightarrow> PasteDataProperty" where
  "GetProperty d = copy_props (pd_props d)"

definition SetProperty :: "PasteDataProperty \<Rightarrow> PasteData \<Rightarrow> PasteData" where
  "SetProperty property d = d\<lparr>pd_props := assign_props (pd_props d) property\<rparr>"

definition AddRecord :: "bool \<Rightarrow> PasteDataRecord option \<Rightarrow> PasteData \<Rightarrow> PasteData" where
  "AddRecord isService p d =
     (case p of
        None \<Rightarrow> d
      | Some r \<Rightarrow>
          let n = pd_recordId d + 1;
              r' = r\<lparr>rec_recordId := n\<rparr>;
              props = pd_props d
          in if isService
             then d\<lparr>pd_recordId := n,
                    pd_props := props\<lparr>prop_mimeTypes := prop_mimeTypes props @ [GetMimeType_record r']\<rparr>,
                    pd_records := pd_records d @ [Some r']\<rparr>
             else d\<lparr>pd_recordId := n,
                    pd_props := props\<lparr>prop_mimeTypes := GetMimeType_record r' # prop_mimeTypes props\<rparr>,
                    pd_records := Some r' # pd_records d\<rparr>)"

definition AddHtmlRecord :: "ext \<Rightarrow> bool \<Rightarrow> string \<Rightarrow> PasteData \<Rightarrow> PasteData" where
  "AddHtmlRecord E isService html = AddRecord isService (NewHtmlRecord E html)"

definition AddPixelMapRecord :: "ext \<Rightarrow> bool \<Rightarrow> pixel_map option \<Rightarrow> PasteData \<Rightarrow> PasteData" where
  "AddPixelMapRecord E isService p = AddRecord isService (Some (NewPixelMapRecord E p))"

definition AddWantRecord :: "ext \<Rightarrow> bool \<Rightarrow> want option \<Rightarrow> PasteData \<Rightarrow> PasteData" where
  "AddWantRecord E isService w = AddRecord isService (Some (NewWantRecord E w))"

definition AddTextRecord :: "ext \<Rightarrow> bool \<Rightarrow> string \<Rightarrow> PasteData \<Rightarrow> PasteData" where
  "AddTextRecord E isService s = AddRecord isService (NewPlainTextRecord E s)"

definition AddUriRecord :: "ext \<Rightarrow> bool \<Rightarrow> uri \<Rightarrow> PasteData \<Rightarrow> PasteData" where
  "AddUriRecord E isService u = AddRecord isService (Some (NewUriRecord E u))"

definition AddKvRecord :: "ext \<Rightarrow> bool \<Rightarrow> string \<Rightarrow> byte list \<Rightarrow> PasteData \<Rightarrow> PasteData" where
  "AddKvRecord E isService mimeType arrayBuffer = AddRecord isService (Some (NewKvRecord E mimeType arrayBuffer))"

definition RefreshMimeProp :: "PasteData \<Rightarrow> PasteData" where
  "RefreshMimeProp d =
     d\<lparr>pd_props := (pd_props d)\<lparr>prop_mimeTypes := map GetMimeType_record (somes (pd_records d))\<rparr>\<rparr>"

definition RemoveRecordAt :: "nat \<Rightarrow> PasteData \<Rightarrow> bool \<times> PasteData" where
  "RemoveRecordAt number d =
     (if length (pd_records d) > number
      then (True, RefreshMimeProp (d\<lparr>pd_records := take number (pd_records d) @ drop (Suc number) (pd_records d)\<rparr>))
      else (False, d))"

definition ReplaceRecordAt :: "nat \<Rightarrow> PasteDataRecord option \<Rightarrow> PasteData \<Rightarrow> bool \<times> PasteData" where
  "ReplaceRecordAt number p d =
     (if p = None then (False, d)
      else if length (pd_records d) > number
      then (True, RefreshMimeProp (d\<lparr>pd_records := (pd_records d)[number := p]\<rparr>))
      else (False, d))"

definition RemoveEmptyEntry_data :: "PasteData \<Rightarrow> PasteData" where
  "RemoveEmptyEntry_data d =
     RefreshMimeProp (d\<lparr>pd_records := map (map_option (\<lambda>r. snd (RemoveEmptyEntry r))) (pd_records d)\<rparr>)"

definition GetRecordAt :: "nat \<Rightarrow> PasteData \<Rightarrow> PasteDataRecord option" where
  "GetRecordAt index d = (if length (pd_records d) > index then pd_records d ! index else None)"

definition GetRecordById :: "u32 \<Rightarrow> PasteData \<Rightarrow> PasteDataRecord option" where
  "GetRecordById recordId d = find (\<lambda>r. rec_recordId r = recordId) (somes (pd_records d))"

text \<open>Loops over the records that dereference every pointer: \<open>None\<close> at a null record.\<close>

definition secondary :: "PasteDataRecord \<Rightarrow> bool" where
  "secondary r \<longleftrightarrow> rec_from r > 0 \<and> rec_recordId r \<noteq> rec_from r"

definition GetMimeTypes :: "PasteData \<Rightarrow> string list run" where
  "GetMimeTypes d = do {
     rs \<leftarrow> those (pd_records d);
     Some (sorted_list_of_set (\<Union> (GetMimeTypes_record ` set (filter (\<lambda>r. \<not> secondary r) rs))))
   }"

definition HasMimeType :: "string \<Rightarrow> PasteDataRecord option list \<Rightarrow> bool run" where
  "HasMimeType mimeType rs =
     foldr (\<lambda>p rest. do { r \<leftarrow> p; if mimeType \<in> GetMimeTypes_record r then Some True else rest }) rs (Some False)"

definition HasUtdType :: "ext \<Rightarrow> string \<Rightarrow> PasteDataRecord option list \<Rightarrow> bool run" where
  "HasUtdType E utdType rs =
     foldr (\<lambda>p rest. do { r \<leftarrow> p; if utdType \<in> GetUtdTypes E r then Some True else rest }) rs (Some False)"

definition MAX_REPORT_RECORD_NUM :: nat where "MAX_REPORT_RECORD_NUM = 30"

definition GetReportMimeTypes :: "PasteData \<Rightarrow> string list" where
  "GetReportMimeTypes d =
     (let recordNum = unat (word_of_nat (length (pd_records d)) :: u32);
          maxReportNum = (if recordNum > MAX_REPORT_RECORD_NUM then MAX_REPORT_RECORD_NUM else recordNum)
      in concat (map (\<lambda>p. case p of
             None \<Rightarrow> [''NULL'']
           | Some r \<Rightarrow> if secondary r then [''web/uri''] else sorted_list_of_set (GetMimeTypes_record r))
           (take maxReportNum (pd_records d))))"

record DataDescription =
  desc_recordNum :: u32
  desc_entryNum :: "i32 list"
  desc_mimeTypes :: "string list"

definition GetReportDescription :: "PasteData \<Rightarrow> DataDescription" where
  "GetReportDescription d =
     (let recordNum = (word_of_nat (length (pd_records d)) :: u32)
      in \<lparr>desc_recordNum = recordNum,
         desc_entryNum = map (\<lambda>i. case GetRecordAt i d of
             None \<Rightarrow> - 1 | Some r \<Rightarrow> word_of_nat (length (rec_entries r))) [0..<unat recordNum],
         desc_mimeTypes = GetReportMimeTypes d\<rparr>)"

definition WEBVIEW_PASTEDATA_TAG :: string where "WEBVIEW_PASTEDATA_TAG = ''WebviewPasteDataTag''"

definition typeMap :: "(string \<times> nat) list" where
  "typeMap = [(MIMETYPE_TEXT_PLAIN, 0), (MIMETYPE_TEXT_HTML, 1), (MIMETYPE_TEXT_URI, 2),
     (MIMETYPE_TEXT_WANT, 3), (MIMETYPE_PIXELMAP, 4)]"

fun gen_type :: "string \<Rightarrow> string list \<Rightarrow> byte \<Rightarrow> byte" where
  "gen_type t [] dataType = dataType"
| "gen_type t (m # ms) dataType =
     (case map_of typeMap m of
        None \<Rightarrow> gen_type t ms dataType
      | Some index \<Rightarrow>
          if index = 1 \<and> t = WEBVIEW_PASTEDATA_TAG then set_bit index 0
          else gen_type t ms (set_bit index dataType))"

definition GenerateDataType :: "PasteData \<Rightarrow> byte run" where
  "GenerateDataType d = do { mimeTypes \<leftarrow> GetMimeTypes d; Some (gen_type (prop_tag (pd_props d)) mimeTypes 0) }"

text \<open>\<open>GetPrimary..\<close>: the first record whose getter gives a value; the records a getter has
  fetched values for are updated.\<close>

fun first_value ::
  "(PasteDataRecord \<Rightarrow> ('v option \<times> PasteDataRecord) run) \<Rightarrow> PasteDataRecord option list \<Rightarrow>
   ('v option \<times> PasteDataRecord option list) run" where
  "first_value getter [] = Some (None, [])"
| "first_value getter (p # ps) = do {
     r \<leftarrow> p;
     (v, r') \<leftarrow> getter r;
     if v \<noteq> None then Some (v, Some r' # ps)
     else do { (v', ps') \<leftarrow> first_value getter ps; Some (v', Some r' # ps') }
   }"

definition GetPrimary ::
  "(PasteDataRecord \<Rightarrow> ('v option \<times> PasteDataRecord) run) \<Rightarrow> PasteData \<Rightarrow> ('v option \<times> PasteData) run" where
  "GetPrimary getter d = do { (v, rs) \<leftarrow> first_value getter (pd_records d); Some (v, d\<lparr>pd_records := rs\<rparr>) }"

definition GetPrimaryHtml :: "ext \<Rightarrow> client \<Rightarrow> PasteData \<Rightarrow> (string option \<times> PasteData) run" where
  "GetPrimaryHtml E env = GetPrimary (GetHtmlText E env)"

definition GetPrimaryPixelMap :: "ext \<Rightarrow> client \<Rightarrow> PasteData \<Rightarrow> (pixel_map option \<times> PasteData) run" where
  "GetPrimaryPixelMap E env = GetPrimary (GetPixelMap E env)"

definition GetPrimaryText :: "ext \<Rightarrow> client \<Rightarrow> PasteData \<Rightarrow> (string option \<times> PasteData) run" where
  "GetPrimaryText E env = GetPrimary (GetPlainText E env)"

definition GetPrimaryUri :: "ext \<Rightarrow> client \<Rightarrow> PasteData \<Rightarrow> (uri option \<times> PasteData) run" where
  "GetPrimaryUri E env = GetPrimary (GetUri E env)"

definition GetPrimaryWant :: "ext \<Rightarrow> PasteData \<Rightarrow> (want option \<times> PasteData) run" where
  "GetPrimaryWant E = GetPrimary (\<lambda>r. do { w \<leftarrow> GetWant E r; Some (w, r) })"

definition GetPrimaryMimeType :: "PasteData \<Rightarrow> string option run" where
  "GetPrimaryMimeType d =
     (case pd_records d of
        [] \<Rightarrow> Some None | p # _ \<Rightarrow> do { r \<leftarrow> p; Some (Some (GetMimeType_record r)) })"

subsection \<open>Additions\<close>

definition ORIGIN_INFO :: string where "ORIGIN_INFO = ''originInfo''"
definition ORIGIN_TOKEN_ID :: string where "ORIGIN_TOKEN_ID = ''originTokenId''"
definition REMOTE_FILE_SIZE :: string where "REMOTE_FILE_SIZE = ''remoteFileSize''"
definition REMOTE_FILE_SIZE_LONG :: string where "REMOTE_FILE_SIZE_LONG = ''remoteFileSizeLong''"

definition SetTokenId :: "params_ops \<Rightarrow> u32 \<Rightarrow> PasteData \<Rightarrow> PasteData" where
  "SetTokenId P tokenId d =
     (let props = (pd_props d)\<lparr>prop_tokenId := tokenId\<rparr>;
          originInfo = SetIntParam P (GetWantParams P (prop_additions props) ORIGIN_INFO) ORIGIN_TOKEN_ID tokenId
      in d\<lparr>pd_props := props\<lparr>prop_additions := SetWantParam P (prop_additions props) ORIGIN_INFO originInfo\<rparr>\<rparr>)"

definition GetOriginTokenId :: "params_ops \<Rightarrow> PasteData \<Rightarrow> i32" where
  "GetOriginTokenId P d =
     (let originInfo = GetWantParams P (prop_additions (pd_props d)) ORIGIN_INFO
      in if IsEmpty_params P originInfo then - 1 else GetIntParam P originInfo ORIGIN_TOKEN_ID (- 1))"

definition SetFileSize :: "params_ops \<Rightarrow> i64 \<Rightarrow> PasteData \<Rightarrow> PasteData" where
  "SetFileSize P fileSize d =
     (let fileIntSize = (if sint fileSize > 2 ^ 31 - 1 then 2 ^ 31 - 1 else ucast fileSize :: i32);
          a = SetIntParam P (prop_additions (pd_props d)) REMOTE_FILE_SIZE fileIntSize;
          a' = SetLongParam P a REMOTE_FILE_SIZE_LONG fileSize
      in d\<lparr>pd_props := (pd_props d)\<lparr>prop_additions := a'\<rparr>\<rparr>)"

definition GetFileSize :: "params_ops \<Rightarrow> PasteData \<Rightarrow> i64" where
  "GetFileSize P d =
     (case GetLongParam P (prop_additions (pd_props d)) REMOTE_FILE_SIZE_LONG of
        Some n \<Rightarrow> n | None \<Rightarrow> scast (GetIntParam P (prop_additions (pd_props d)) REMOTE_FILE_SIZE (- 1)))"

definition SetBundleInfo :: "string \<Rightarrow> i32 \<Rightarrow> PasteData \<Rightarrow> PasteData" where
  "SetBundleInfo bundleName appIndex d =
     d\<lparr>pd_props := (pd_props d)\<lparr>prop_bundleName := bundleName, prop_appIndex := appIndex\<rparr>\<rparr>"

definition GetAppIndex :: "PasteData \<Rightarrow> i32" where
  "GetAppIndex d = prop_appIndex (pd_props d)"

definition ShareOptionToString :: "i32 \<Rightarrow> string" where
  "ShareOptionToString shareOption =
     (if shareOption = InApp then ''InAPP'' else if shareOption = LocalDevice then ''LocalDevice'' else ''CrossDevice'')"

definition IsValidShareOption :: "i32 \<Rightarrow> bool" where
  "IsValidShareOption shareOption \<longleftrightarrow>
     shareOption = InApp \<or> shareOption = LocalDevice \<or> shareOption = CrossDevice"

section \<open>A concrete instance\<close>

text \<open>Want parameters that remember the last assignment.\<close>

definition sample_params :: params_ops where
  "sample_params = \<lparr>params_default = 0, GetWantParams = (\<lambda>p k. p div 4), IsEmpty_params = (\<lambda>p. p = 0),
     GetIntParam = (\<lambda>p k n. if p mod 4 = 2 then word_of_nat (p div 4) else n),
     GetLongParam = (\<lambda>p k. if p mod 4 = 1 then Some (word_of_nat (p div 4)) else None),
     SetIntParam = (\<lambda>p k n. 4 * unat n + 2), SetLongParam = (\<lambda>p k n. 4 * unat n + 1),
     SetWantParam = (\<lambda>p k q. 4 * q + 3)\<rparr>"

lemma div_mod_4:
  "Suc (4 * m) div 4 = m" "Suc (4 * m) mod 4 = 1" "Suc (Suc (4 * m)) div 4 = m" "Suc (Suc (4 * m)) mod 4 = 2"
  by presburger+

lemma sample_params_ok: "params_ok sample_params"
  by (simp add: params_ok_def sample_params_def div_mod_4)

section \<open>Additions\<close>

text \<open>The file size and the token of the owner are read back as they were set, for every 64-bit
  size and every token.\<close>

theorem additions_roundtrip:
  assumes "params_ok P"
  shows "GetFileSize P (SetFileSize P fileSize d) = fileSize \<and>
    GetOriginTokenId P (SetTokenId P tokenId d) = tokenId \<and>
    prop_tokenId (pd_props (SetTokenId P tokenId d)) = tokenId"
  using assms by (simp add: params_ok_def GetFileSize_def SetFileSize_def GetOriginTokenId_def SetTokenId_def Let_def)

theorem additions_roundtrip_witness:
  "GetFileSize sample_params (SetFileSize sample_params 5000000000 (new_data sample_params 0)) = 5000000000 \<and>
   GetOriginTokenId sample_params (SetTokenId sample_params 77 (new_data sample_params 0)) = 77"
  using additions_roundtrip [OF sample_params_ok] by blast

section \<open>Records\<close>

text \<open>The list of MIME types in the properties always describes the records.\<close>

definition mime_inv :: "PasteData \<Rightarrow> bool" where
  "mime_inv d \<longleftrightarrow> prop_mimeTypes (pd_props d) = map GetMimeType_record (somes (pd_records d))"

definition ids_inv :: "PasteData \<Rightarrow> bool" where
  "ids_inv d \<longleftrightarrow> distinct (map rec_recordId (somes (pd_records d))) \<and>
     (\<forall>r \<in> set (somes (pd_records d)). rec_recordId r \<le> pd_recordId d)"

lemma GetMimeType_record_id [simp]: "GetMimeType_record (r\<lparr>rec_recordId := n\<rparr>) = GetMimeType_record r"
  by (simp add: GetMimeType_record_def split: list.split option.split)

lemma mime_inv_Refresh [simp]: "mime_inv (RefreshMimeProp d)"
  by (simp add: mime_inv_def RefreshMimeProp_def)

lemma mime_inv_AddRecord: "mime_inv d \<Longrightarrow> mime_inv (AddRecord isService p d)"
  by (cases p) (simp_all add: mime_inv_def AddRecord_def Let_def)

lemma pd_fields_Refresh [simp]:
  "pd_records (RefreshMimeProp d) = pd_records d" "pd_recordId (RefreshMimeProp d) = pd_recordId d"
  by (simp_all add: RefreshMimeProp_def)

lemma ids_inv_AddRecord:
  assumes "ids_inv d" and "pd_recordId d \<noteq> - 1"
  shows "ids_inv (AddRecord isService p d)"
proof (cases p)
  case None
  with assms show ?thesis by (simp add: AddRecord_def)
next
  case (Some r)
  have "pd_recordId d < pd_recordId d + 1" using assms(2) by (rule word_less_inc)
  then have "\<forall>x \<in> set (somes (pd_records d)). rec_recordId x < pd_recordId d + 1"
    using assms(1) by (auto simp: ids_inv_def)
  with assms(1) Some show ?thesis
    by (auto simp: ids_inv_def AddRecord_def Let_def less_imp_le)
qed

lemma take_drop_somes: "set (somes (take n ps @ drop (Suc n) ps)) \<subseteq> set (somes ps)"
  by (auto dest: in_set_takeD in_set_dropD)

text \<open>Paste data as its owner edits it.\<close>

inductive edited :: "params_ops \<Rightarrow> i64 \<Rightarrow> PasteData \<Rightarrow> bool" for P now where
  edited_new: "edited P now (new_data P now)"
| edited_add: "edited P now d \<Longrightarrow> edited P now (AddRecord isService p d)"
| edited_remove: "edited P now d \<Longrightarrow> edited P now (snd (RemoveRecordAt i d))"
| edited_replace: "edited P now d \<Longrightarrow> edited P now (snd (ReplaceRecordAt i p d))"
| edited_clean: "edited P now d \<Longrightarrow> edited P now (RemoveEmptyEntry_data d)"
| edited_copy: "edited P now d \<Longrightarrow> edited P now (copy_data P d)"

text \<open>After any sequence of adding, removing, replacing, cleaning and copying, the MIME types in
  the properties are those of the records, in the order of the records.\<close>

theorem mime_types_current:
  assumes "edited P now d"
  shows "mime_inv d"
  using assms
proof induction
  case edited_new
  show ?case by (simp add: mime_inv_def new_data_def new_props_def)
next
  case (edited_add d isService p)
  then show ?case by (simp add: mime_inv_AddRecord)
next
  case (edited_remove d i)
  then show ?case by (simp add: RemoveRecordAt_def)
next
  case (edited_replace d i p)
  then show ?case by (simp add: ReplaceRecordAt_def)
next
  case (edited_clean d)
  show ?case by (simp add: RemoveEmptyEntry_data_def)
next
  case (edited_copy d)
  then show ?case by (simp add: mime_inv_def copy_data_def assign_props_def)
qed

theorem mime_types_current_witness:
  "mime_inv (snd (RemoveRecordAt 1 (AddTextRecord sample_ext False ''a''
     (AddUriRecord sample_ext False ''file://b'' (new_data sample_params 5)))))"
  unfolding AddTextRecord_def AddUriRecord_def
  by (rule mime_types_current [where P = sample_params and now = 5]) (intro edited.intros)

text \<open>Record identifiers are unique: as long as the 32-bit counter does not wrap, adding a record
  keeps all identifiers different, the new record is found under its identifier and every other
  record under the one it had.\<close>

theorem record_ids_unique:
  assumes "ids_inv d" and "pd_recordId d \<noteq> - 1"
  shows "ids_inv (AddRecord isService (Some r) d) \<and>
    GetRecordById (pd_recordId d + 1) (AddRecord isService (Some r) d) = Some (r\<lparr>rec_recordId := pd_recordId d + 1\<rparr>) \<and>
    (\<forall>n. n \<noteq> pd_recordId d + 1 \<longrightarrow> GetRecordById n (AddRecord isService (Some r) d) = GetRecordById n d)"
proof -
  have "pd_recordId d < pd_recordId d + 1" using assms(2) by (rule word_less_inc)
  then have "\<forall>x \<in> set (somes (pd_records d)). rec_recordId x \<noteq> pd_recordId d + 1"
    using assms(1) by (auto simp: ids_inv_def)
  then have "find (\<lambda>x. rec_recordId x = pd_recordId d + 1) (somes (pd_records d)) = None"
    by (simp add: find_None_iff)
  moreover have "find Q (xs @ [y]) = (case find Q xs of None \<Rightarrow> if Q y then Some y else None | Some z \<Rightarrow> Some z)"
    for Q and xs :: "PasteDataRecord list" and y by (induction xs) auto
  ultimately show ?thesis
    using ids_inv_AddRecord [OF assms, of isService "Some r"]
    by (auto simp: GetRecordById_def AddRecord_def Let_def split: option.split)
qed

theorem record_ids_unique_witness:
  "ids_inv (AddRecord True (Some (empty_record sample_ext)) (new_data sample_params 0)) \<and>
   GetRecordById 1 (AddRecord True (Some (empty_record sample_ext)) (new_data sample_params 0)) =
     Some ((empty_record sample_ext)\<lparr>rec_recordId := 1\<rparr>)"
  using record_ids_unique [of "new_data sample_params 0" True "empty_record sample_ext"]
  by (simp add: new_data_def ids_inv_def)

text \<open>Copying paste data, or reading its properties, keeps every member but the application
  index: whatever index \<open>SetBundleInfo\<close> stored, the copy has index zero.\<close>

theorem copy_loses_app_index:
  "GetAppIndex (SetBundleInfo b i d) = i \<and>
   copy_data P (SetBundleInfo b i d) =
     (SetBundleInfo b 0 d)\<lparr>pd_records := map Some (somes (pd_records d))\<rparr> \<and>
   GetProperty (SetBundleInfo b i d) = pd_props (SetBundleInfo b 0 d)"
  by (simp add: copy_data_def SetBundleInfo_def GetAppIndex_def GetProperty_def copy_props_def assign_props_def
      new_props_def)

section \<open>Data type bits\<close>

lemma typeMap_index: "map_of typeMap m = Some i \<Longrightarrow> i < 5"
  by (auto simp: typeMap_def split: if_splits)

lemma typeMap_html: "map_of typeMap m = Some 1 \<longleftrightarrow> m = MIMETYPE_TEXT_HTML"
  by (auto simp: typeMap_def mime_defs)

lemma gen_type_web:
  "MIMETYPE_TEXT_HTML \<in> set ms \<Longrightarrow> gen_type WEBVIEW_PASTEDATA_TAG ms acc = 2"
proof (induction ms arbitrary: acc)
  case (Cons m ms)
  have "set_bit 1 (0 :: byte) = 2" by (simp add: set_bit_eq_or)
  with Cons typeMap_html [of m] show ?case by (cases "map_of typeMap m") auto
qed simp

lemma gen_type_bits:
  assumes "t \<noteq> WEBVIEW_PASTEDATA_TAG \<or> MIMETYPE_TEXT_HTML \<notin> set ms" and "i < 8"
  shows "bit (gen_type t ms acc) i \<longleftrightarrow> bit acc i \<or> (\<exists>m \<in> set ms. map_of typeMap m = Some i)"
  using assms(1)
proof (induction ms arbitrary: acc)
  case (Cons m ms)
  show ?case
  proof (cases "map_of typeMap m")
    case None
    with Cons show ?thesis by auto
  next
    case (Some k)
    then have "\<not> (k = 1 \<and> t = WEBVIEW_PASTEDATA_TAG)" using Cons.prems typeMap_html [of m] by auto
    moreover have "bit (set_bit k acc) i \<longleftrightarrow> i = k \<or> bit acc i" using assms(2) by (auto simp: bit_set_bit_iff)
    ultimately show ?thesis using Cons Some by auto
  qed
qed simp

text \<open>\<open>GenerateDataType\<close> reports one bit per MIME type the data has; for data from a web view
  that has HTML it reports HTML only.\<close>

theorem data_type_bits:
  assumes "GetMimeTypes d = Some ms"
  shows "\<exists>v. GenerateDataType d = Some v \<and>
    (if prop_tag (pd_props d) = WEBVIEW_PASTEDATA_TAG \<and> MIMETYPE_TEXT_HTML \<in> set ms then v = 2
     else (\<forall>i < 8. bit v i \<longleftrightarrow> (\<exists>m \<in> set ms. map_of typeMap m = Some i)))"
  using assms gen_type_web gen_type_bits [of "prop_tag (pd_props d)" ms _ 0]
  by (auto simp: GenerateDataType_def)

theorem data_type_bits_witness:
  "\<exists>v. GenerateDataType ((new_data sample_params 0)\<lparr>pd_records :=
     [Some ((empty_record sample_ext)\<lparr>rec_mimeType := ''text/uri''\<rparr>)]\<rparr>) = Some v \<and> bit v 2 \<and> \<not> bit v 1"
proof -
  let ?d = "(new_data sample_params 0)\<lparr>pd_records := [Some ((empty_record sample_ext)\<lparr>rec_mimeType := ''text/uri''\<rparr>)]\<rparr>"
  have "GetMimeTypes ?d = Some [''text/uri'']"
    by (simp add: GetMimeTypes_def secondary_def GetMimeTypes_record_def empty_record_def)
  from data_type_bits [OF this] show ?thesis
    by (auto simp: new_data_def new_props_def WEBVIEW_PASTEDATA_TAG_def typeMap_def mime_defs)
qed

end
