(* ===== verification/Data_Tlv.thy ===== *)
theory Data_Tlv
  imports Paste_Data
begin

text \<open>
  Serialization of \<open>PasteDataProperty\<close> and \<open>PasteData\<close>, and the marshalling built on it.
  The records of a \<open>PasteData\<close> are encoded in the local or the
  remote format; an encoding is a \<open>run\<close> because the remote one dereferences the values of the
  entries.
\<close>

definition TAG_PROPS :: u16 where "TAG_PROPS = 257"
definition TAG_RECORDS :: u16 where "TAG_RECORDS = 258"
definition TAG_DRAGGED_DATA_FLAG :: u16 where "TAG_DRAGGED_DATA_FLAG = 259"
definition TAG_LOCAL_PASTE_FLAG :: u16 where "TAG_LOCAL_PASTE_FLAG = 260"
definition TAG_DELAY_DATA_FLAG :: u16 where "TAG_DELAY_DATA_FLAG = 261"
definition TAG_DEVICE_ID :: u16 where "TAG_DEVICE_ID = 262"
definition TAG_PASTE_ID :: u16 where "TAG_PASTE_ID = 263"
definition TAG_DELAY_RECORD_FLAG :: u16 where "TAG_DELAY_RECORD_FLAG = 264"
definition TAG_DATA_ID :: u16 where "TAG_DATA_ID = 265"
definition TAG_RECORD_ID :: u16 where "TAG_RECORD_ID = 266"
definition TAG_USER_ID :: u16 where "TAG_USER_ID = 267"

lemmas data_tags = TAG_PROPS_def TAG_RECORDS_def TAG_DRAGGED_DATA_FLAG_def TAG_LOCAL_PASTE_FLAG_def
  TAG_DELAY_DATA_FLAG_def TAG_DEVICE_ID_def TAG_PASTE_ID_def TAG_DELAY_RECORD_FLAG_def TAG_DATA_ID_def
  TAG_RECORD_ID_def TAG_USER_ID_def

definition TAG_ADDITIONS :: u16 where "TAG_ADDITIONS = 257"
definition TAG_MIMETYPES :: u16 where "TAG_MIMETYPES = 258"
definition TAG_TAG :: u16 where "TAG_TAG = 259"
definition TAG_LOCAL_ONLY :: u16 where "TAG_LOCAL_ONLY = 260"
definition TAG_TIMESTAMP :: u16 where "TAG_TIMESTAMP = 261"
definition TAG_SHAREOPTION :: u16 where "TAG_SHAREOPTION = 262"
definition TAG_TOKENID :: u16 where "TAG_TOKENID = 263"
definition TAG_ISREMOTE :: u16 where "TAG_ISREMOTE = 264"
definition TAG_BUNDLENAME :: u16 where "TAG_BUNDLENAME = 265"
definition TAG_SETTIME :: u16 where "TAG_SETTIME = 266"
definition TAG_SCREEN_STATUS :: u16 where "TAG_SCREEN_STATUS = 267"

lemmas prop_tags = TAG_ADDITIONS_def TAG_MIMETYPES_def TAG_TAG_def TAG_LOCAL_ONLY_def TAG_TIMESTAMP_def
  TAG_SHAREOPTION_def TAG_TOKENID_def TAG_ISREMOTE_def TAG_BUNDLENAME_def TAG_SETTIME_def TAG_SCREEN_STATUS_def

section \<open>Properties\<close>

definition EncodeTLV_props :: "ext \<Rightarrow> PasteDataProperty \<Rightarrow> writer" where
  "EncodeTLV_props E p =
     andW_list
      [Write_RawMem E TAG_ADDITIONS (Parcelable2Raw (params_marshal E) (Some (prop_additions p))),
       Write_vector TAG_MIMETYPES (Write_string E) (prop_mimeTypes p),
       Write_string E TAG_TAG (prop_tag p),
       Write_bool E TAG_LOCAL_ONLY (prop_localOnly p),
       Write_word E TAG_TIMESTAMP (prop_timestamp p),
       Write_word E TAG_SHAREOPTION (prop_shareOption p),
       Write_word E TAG_TOKENID (prop_tokenId p),
       Write_bool E TAG_ISREMOTE (prop_isRemote p),
       Write_string E TAG_BUNDLENAME (prop_bundleName p),
       Write_string E TAG_SETTIME (prop_setTime p),
       Write_word E TAG_SCREEN_STATUS (prop_screenStatus p)]"

definition CountTLV_props :: "ext \<Rightarrow> PasteDataProperty \<Rightarrow> nat" where
  "CountTLV_props E p = sum_list
     [Count_RawMem (Parcelable2Raw (params_marshal E) (Some (prop_additions p))),
      Count_vector Count_string (prop_mimeTypes p), Count_string (prop_tag p), Count_basic 1, Count_basic 8,
      Count_basic 4, Count_basic 4, Count_basic 1, Count_string (prop_bundleName p),
      Count_string (prop_setTime p), Count_basic 4]"

definition decode_props_field :: "ext \<Rightarrow> nat \<Rightarrow> TLVHead \<Rightarrow> PasteDataProperty \<Rightarrow> PasteDataProperty rd" where
  "decode_props_field E d h p b =
     (if head_tag h = TAG_ADDITIONS
      then mapR (\<lambda>raw. case Raw2Parcelable E (params_unmarshal E) raw of
                         Some v \<Rightarrow> p\<lparr>prop_additions := v\<rparr> | None \<Rightarrow> p) (ReadValue_bytes h b)
      else if head_tag h = TAG_MIMETYPES
      then mapR (\<lambda>v. p\<lparr>prop_mimeTypes := v\<rparr>)
             (ReadValue_vector d (\<lambda>_. ReadValue_string []) (prop_mimeTypes p) h b)
      else if head_tag h = TAG_TAG
      then mapR (\<lambda>v. p\<lparr>prop_tag := v\<rparr>) (ReadValue_string (prop_tag p) h b)
      else if head_tag h = TAG_LOCAL_ONLY
      then mapR (\<lambda>v. p\<lparr>prop_localOnly := v\<rparr>) (ReadBasicValue_bool E h b)
      else if head_tag h = TAG_TIMESTAMP
      then mapR (\<lambda>v. p\<lparr>prop_timestamp := v\<rparr>) (ReadValue_i64 E h b)
      else if head_tag h = TAG_SHAREOPTION
      then mapR (\<lambda>v. p\<lparr>prop_shareOption := v\<rparr>) (ReadValue_u32 E h b)
      else if head_tag h = TAG_TOKENID
      then mapR (\<lambda>v. p\<lparr>prop_tokenId := v\<rparr>) (ReadValue_u32 E h b)
      else if head_tag h = TAG_ISREMOTE
      then mapR (\<lambda>v. p\<lparr>prop_isRemote := v\<rparr>) (ReadBasicValue_bool E h b)
      else if head_tag h = TAG_BUNDLENAME
      then mapR (\<lambda>v. p\<lparr>prop_bundleName := v\<rparr>) (ReadValue_string (prop_bundleName p) h b)
      else if head_tag h = TAG_SETTIME
      then mapR (\<lambda>v. p\<lparr>prop_setTime := v\<rparr>) (ReadValue_string (prop_setTime p) h b)
      else if head_tag h = TAG_SCREEN_STATUS
      then mapR (\<lambda>v. p\<lparr>prop_screenStatus := v\<rparr>) (ReadValue_u32 E h b)
      else mapR (\<lambda>_. p) (SkipR h b))"

definition DecodeTLV_props :: "ext \<Rightarrow> nat \<Rightarrow> PasteDataProperty \<Rightarrow> PasteDataProperty rd" where
  "DecodeTLV_props E d self = decode_fields (decode_props_field E d) self"

section \<open>Paste data\<close>

fun record_writers :: "ext \<Rightarrow> bool \<Rightarrow> PasteDataRecord option list \<Rightarrow> writer option list run" where
  "record_writers E remote [] = Some []"
| "record_writers E remote (None # ps) = do { ws \<leftarrow> record_writers E remote ps; Some (None # ws) }"
| "record_writers E remote (Some r # ps) = do {
     w \<leftarrow> EncodeTLV_record E remote r; ws \<leftarrow> record_writers E remote ps; Some (Some w # ws) }"

definition EncodeTLV_data :: "ext \<Rightarrow> bool \<Rightarrow> PasteData \<Rightarrow> writer run" where
  "EncodeTLV_data E remote d = do {
     ws \<leftarrow> record_writers E remote (pd_records d);
     Some (andW_list
      [Write_writeable TAG_PROPS (EncodeTLV_props E (pd_props d)),
       Write_vector TAG_RECORDS (\<lambda>t. Write_ptr (Write_writeable t)) ws,
       Write_bool E TAG_DRAGGED_DATA_FLAG (pd_isDraggedData d),
       Write_bool E TAG_LOCAL_PASTE_FLAG (pd_isLocalPaste d),
       Write_bool E TAG_DELAY_DATA_FLAG (pd_isDelayData d),
       Write_string E TAG_DEVICE_ID (pd_deviceId d),
       Write_string E TAG_PASTE_ID (pd_pasteId d),
       Write_bool E TAG_DELAY_RECORD_FLAG (pd_isDelayRecord d),
       Write_word E TAG_DATA_ID (pd_dataId d),
       Write_word E TAG_RECORD_ID (pd_recordId d),
       Write_word E TAG_USER_ID (pd_userId d)])
   }"

fun record_counts :: "ext \<Rightarrow> bool \<Rightarrow> PasteDataRecord option list \<Rightarrow> nat option list run" where
  "record_counts E remote [] = Some []"
| "record_counts E remote (None # ps) = do { ns \<leftarrow> record_counts E remote ps; Some (None # ns) }"
| "record_counts E remote (Some r # ps) = do {
     n \<leftarrow> CountTLV_record E remote r; ns \<leftarrow> record_counts E remote ps; Some (Some n # ns) }"

definition CountTLV_data :: "ext \<Rightarrow> bool \<Rightarrow> PasteData \<Rightarrow> nat run" where
  "CountTLV_data E remote d = do {
     ns \<leftarrow> record_counts E remote (pd_records d);
     Some (sum_list
      [Count_writeable (CountTLV_props E (pd_props d)), Count_vector (Count_ptr Count_writeable) ns,
       Count_basic 1, Count_basic 1, Count_basic 1, Count_string (pd_deviceId d), Count_string (pd_pasteId d),
       Count_basic 1, Count_basic 4, Count_basic 4, Count_basic 4])
   }"

definition Encode_data :: "ext \<Rightarrow> bool \<Rightarrow> PasteData \<Rightarrow> (bool \<times> byte list) run" where
  "Encode_data E remote d = do {
     n \<leftarrow> CountTLV_data E remote d; w \<leftarrow> EncodeTLV_data E remote d; Some (Encode n w) }"

definition decode_data_field :: "ext \<Rightarrow> nat \<Rightarrow> TLVHead \<Rightarrow> PasteData \<Rightarrow> PasteData rd" where
  "decode_data_field E n h d b =
     (if head_tag h = TAG_PROPS
      then mapR (\<lambda>v. d\<lparr>pd_props := v\<rparr>) (ReadValue_readable (DecodeTLV_props E n (pd_props d)) h b)
      else if head_tag h = TAG_RECORDS
      then mapR (\<lambda>v. d\<lparr>pd_records := v\<rparr>)
             (ReadValue_vector n (\<lambda>n1. ReadValue_ptr n1 (\<lambda>n2. ReadValue_readable (DecodeTLV_record E n2 (empty_record E))))
               (pd_records d) h b)
      else if head_tag h = TAG_DRAGGED_DATA_FLAG
      then mapR (\<lambda>v. d\<lparr>pd_isDraggedData := v\<rparr>) (ReadBasicValue_bool E h b)
      else if head_tag h = TAG_LOCAL_PASTE_FLAG
      then mapR (\<lambda>v. d\<lparr>pd_isLocalPaste := v\<rparr>) (ReadBasicValue_bool E h b)
      else if head_tag h = TAG_DELAY_DATA_FLAG
      then mapR (\<lambda>v. d\<lparr>pd_isDelayData := v\<rparr>) (ReadBasicValue_bool E h b)
      else if head_tag h = TAG_DEVICE_ID
      then mapR (\<lambda>v. d\<lparr>pd_deviceId := v\<rparr>) (ReadValue_string (pd_deviceId d) h b)
      else if head_tag h = TAG_PASTE_ID
      then mapR (\<lambda>v. d\<lparr>pd_pasteId := v\<rparr>) (ReadValue_string (pd_pasteId d) h b)
      else if head_tag h = TAG_DELAY_RECORD_FLAG
      then mapR (\<lambda>v. d\<lparr>pd_isDelayRecord := v\<rparr>) (ReadBasicValue_bool E h b)
      else if head_tag h = TAG_DATA_ID
      then mapR (\<lambda>v. d\<lparr>pd_dataId := v\<rparr>) (ReadValue_u32 E h b)
      else if head_tag h = TAG_RECORD_ID
      then mapR (\<lambda>v. d\<lparr>pd_recordId := v\<rparr>) (ReadValue_u32 E h b)
      else if head_tag h = TAG_USER_ID
      then mapR (\<lambda>v. d\<lparr>pd_userId := v\<rparr>) (ReadValue_u32 E h b)
      else mapR (\<lambda>_. d) (SkipR h b))"

definition DecodeTLV_data :: "ext \<Rightarrow> nat \<Rightarrow> PasteData \<Rightarrow> PasteData rd" where
  "DecodeTLV_data E n self = decode_fields (decode_data_field E n) self"

text \<open>\<open>Marshalling\<close> writes the encoding as a byte vector to a parcel of limited capacity;
  \<open>Unmarshalling\<close> gets the vector the parcel holds, \<open>None\<close> when there is none.\<close>

definition Marshalling_data :: "ext \<Rightarrow> (byte list \<Rightarrow> 'p option) \<Rightarrow> PasteData \<Rightarrow> 'p option run" where
  "Marshalling_data E writeVector d = do {
     (ret, bs) \<leftarrow> Encode_data E False d;
     Some (if \<not> ret then None else writeVector bs)
   }"

definition Unmarshalling_data :: "ext \<Rightarrow> params_ops \<Rightarrow> i64 \<Rightarrow> byte list option \<Rightarrow> PasteData option" where
  "Unmarshalling_data E P now v =
     (case v of
        None \<Rightarrow> None
      | Some bs \<Rightarrow>
          if bs = [] then None
          else case Decode (DecodeTLV_data E 0 (new_data P now)) bs of ROk d _ \<Rightarrow> Some d | _ \<Rightarrow> None)"

section \<open>The contract of the properties\<close>

definition enc_props :: "ext \<Rightarrow> PasteDataProperty \<Rightarrow> byte list" where
  "enc_props E p = concat
     [tlv TAG_ADDITIONS (params_marshal E (prop_additions p)),
      tlv TAG_MIMETYPES (concat (map (\<lambda>s. tlv TAG_VECTOR_ITEM (str_bytes s)) (prop_mimeTypes p))),
      tlv TAG_TAG (str_bytes (prop_tag p)),
      tlv TAG_LOCAL_ONLY (enc_bool (prop_localOnly p)),
      tlv TAG_TIMESTAMP (enc_word (prop_timestamp p)),
      tlv TAG_SHAREOPTION (enc_word (prop_shareOption p)),
      tlv TAG_TOKENID (enc_word (prop_tokenId p)),
      tlv TAG_ISREMOTE (enc_bool (prop_isRemote p)),
      tlv TAG_BUNDLENAME (str_bytes (prop_bundleName p)),
      tlv TAG_SETTIME (str_bytes (prop_setTime p)),
      tlv TAG_SCREEN_STATUS (enc_word (prop_screenStatus p))]"

lemma emits_props: "emits E (EncodeTLV_props E p) (enc_props E p)"
  unfolding EncodeTLV_props_def enc_props_def Parcelable2Raw_def option.case
  by (rule emits_andW_list) (simp add: emits_RawMem emits_string emits_bool emits_word emits_vector)

lemma count_props: "CountTLV_props E p = length (enc_props E p)"
  by (simp add: CountTLV_props_def enc_props_def Count_RawMem_def Parcelable2Raw_def Count_vector_sum
      Count_string_def [abs_def] Count_basic_def length_concat comp_def add.commute)

lemma safe_decode_props_field [rd_safe]: "safe_rd (decode_props_field E d h p)"
  unfolding decode_props_field_def [abs_def] by (intro rd_safe)

lemma consumes_additions:
  assumes "params_codec_ok E a"
  shows "consumes E (\<lambda>b. mapR (\<lambda>raw. case Raw2Parcelable E (params_unmarshal E) raw of
      Some v \<Rightarrow> p\<lparr>prop_additions := v\<rparr> | None \<Rightarrow> p) (ReadValue_bytes (mkh t (params_marshal E a)) b))
    (params_marshal E a) (p\<lparr>prop_additions := a\<rparr>)"
proof (rule consumesI)
  fix b pre post
  assume v: "rview E b pre (params_marshal E a) post"
  then have "memcpy_s_ok E (length (params_marshal E a)) (length (params_marshal E a))"
    by (simp add: memcpy_s_ok_def rview_def)
  with assms consumesD [OF consumes_bytes v]
  show "mapR (\<lambda>raw. case Raw2Parcelable E (params_unmarshal E) raw of
      Some v \<Rightarrow> p\<lparr>prop_additions := v\<rparr> | None \<Rightarrow> p) (ReadValue_bytes (mkh t (params_marshal E a)) b) =
    ROk (p\<lparr>prop_additions := a\<rparr>) (advanceR (length (params_marshal E a)) b)"
    by (simp add: mapR_def Raw2Parcelable_def params_codec_ok_def)
qed

lemma consumes_strings:
  assumes "guard_valid d"
  shows "consumes E (ReadValue_vector d (\<lambda>_. ReadValue_string []) old (mkh t (concat (map (\<lambda>s. tlv TAG_VECTOR_ITEM (str_bytes s)) ss))))
    (concat (map (\<lambda>s. tlv TAG_VECTOR_ITEM (str_bytes s)) ss)) (old @ ss)"
proof (rule consumes_vector [OF _ assms])
  show "steps E (\<lambda>vh acc b1. mapR (\<lambda>x. acc @ [x]) (ReadValue_string [] vh b1)) old
      (concat (map (\<lambda>s. tlv TAG_VECTOR_ITEM (str_bytes s)) ss)) (old @ ss)"
    using steps_vector [of ss E "\<lambda>_. ReadValue_string []" d str_bytes "\<lambda>s. s" old]
      consumes_string [of E "[]" TAG_VECTOR_ITEM] by simp
qed

lemma carries_props:
  "params_codec_ok E a \<Longrightarrow> carries E (decode_props_field E d) (tlv TAG_ADDITIONS (params_marshal E a)) (\<lambda>p. p\<lparr>prop_additions := a\<rparr>)"
  "guard_valid d \<Longrightarrow> carries E (decode_props_field E d)
     (tlv TAG_MIMETYPES (concat (map (\<lambda>s. tlv TAG_VECTOR_ITEM (str_bytes s)) ss))) (\<lambda>p. p\<lparr>prop_mimeTypes := prop_mimeTypes p @ ss\<rparr>)"
  "carries E (decode_props_field E d) (tlv TAG_TAG (str_bytes s)) (\<lambda>p. p\<lparr>prop_tag := prop_tag p @ s\<rparr>)"
  "carries E (decode_props_field E d) (tlv TAG_LOCAL_ONLY (enc_bool f)) (\<lambda>p. p\<lparr>prop_localOnly := f\<rparr>)"
  "carries E (decode_props_field E d) (tlv TAG_TIMESTAMP (enc_word l)) (\<lambda>p. p\<lparr>prop_timestamp := l\<rparr>)"
  "carries E (decode_props_field E d) (tlv TAG_SHAREOPTION (enc_word n)) (\<lambda>p. p\<lparr>prop_shareOption := n\<rparr>)"
  "carries E (decode_props_field E d) (tlv TAG_TOKENID (enc_word n)) (\<lambda>p. p\<lparr>prop_tokenId := n\<rparr>)"
  "carries E (decode_props_field E d) (tlv TAG_ISREMOTE (enc_bool f)) (\<lambda>p. p\<lparr>prop_isRemote := f\<rparr>)"
  "carries E (decode_props_field E d) (tlv TAG_BUNDLENAME (str_bytes s)) (\<lambda>p. p\<lparr>prop_bundleName := prop_bundleName p @ s\<rparr>)"
  "carries E (decode_props_field E d) (tlv TAG_SETTIME (str_bytes s)) (\<lambda>p. p\<lparr>prop_setTime := prop_setTime p @ s\<rparr>)"
  "carries E (decode_props_field E d) (tlv TAG_SCREEN_STATUS (enc_word n)) (\<lambda>p. p\<lparr>prop_screenStatus := n\<rparr>)"
  by (rule carries_field, simp add: decode_props_field_def [abs_def] prop_tags consumes_additions
      consumes_map [OF consumes_strings] consumes_map [OF consumes_string] consumes_map [OF consumes_bool]
      consumes_map [OF consumes_u32] consumes_map [OF consumes_i64])+

lemma steps_props:
  assumes "params_codec_ok E (prop_additions p)" and "guard_valid d"
  shows "steps E (decode_props_field E d) (new_props P now) (enc_props E p) (p\<lparr>prop_appIndex := 0\<rparr>)"
proof -
  let ?us = "[(\<lambda>x. x\<lparr>prop_additions := prop_additions p\<rparr>),
    (\<lambda>x. x\<lparr>prop_mimeTypes := prop_mimeTypes x @ prop_mimeTypes p\<rparr>), (\<lambda>x. x\<lparr>prop_tag := prop_tag x @ prop_tag p\<rparr>),
    (\<lambda>x. x\<lparr>prop_localOnly := prop_localOnly p\<rparr>), (\<lambda>x. x\<lparr>prop_timestamp := prop_timestamp p\<rparr>),
    (\<lambda>x. x\<lparr>prop_shareOption := prop_shareOption p\<rparr>), (\<lambda>x. x\<lparr>prop_tokenId := prop_tokenId p\<rparr>),
    (\<lambda>x. x\<lparr>prop_isRemote := prop_isRemote p\<rparr>), (\<lambda>x. x\<lparr>prop_bundleName := prop_bundleName x @ prop_bundleName p\<rparr>),
    (\<lambda>x. x\<lparr>prop_setTime := prop_setTime x @ prop_setTime p\<rparr>), (\<lambda>x. x\<lparr>prop_screenStatus := prop_screenStatus p\<rparr>)]"
  have "fold (\<lambda>u a. u a) ?us (new_props P now) = p\<lparr>prop_appIndex := 0\<rparr>"
    by (cases p) (simp add: new_props_def)
  moreover have "steps E (decode_props_field E d) (new_props P now) (enc_props E p) (fold (\<lambda>u a. u a) ?us (new_props P now))"
    unfolding enc_props_def by (rule carries_fields) (use assms in \<open>simp add: carries_props\<close>)
  ultimately show ?thesis by simp
qed

interpretation props_tlv: tlv_class "DecodeTLV_props E d (new_props P now)" E "EncodeTLV_props E" "CountTLV_props E"
    "enc_props E" "\<lambda>_. 0" "\<lambda>p. params_codec_ok E (prop_additions p) \<and> guard_valid d" "\<lambda>p. p\<lparr>prop_appIndex := 0\<rparr>"
  for E d P now
proof unfold_locales
  show "safe_rd (DecodeTLV_props E d (new_props P now))" unfolding DecodeTLV_props_def by (intro rd_safe)
  show "emits E (EncodeTLV_props E p) (enc_props E p)" for p by (rule emits_props)
  show "CountTLV_props E p = length (enc_props E p) + 6 * 0" for p by (simp add: count_props)
  show "decodes E (DecodeTLV_props E d (new_props P now)) ((enc_props E p) @ replicate (6 * k) 0) (p\<lparr>prop_appIndex := 0\<rparr>)"
    if "params_codec_ok E (prop_additions p) \<and> guard_valid d" for p k
    unfolding DecodeTLV_props_def using that
    by (intro decodes_fields steps_append [OF steps_props] steps_padding)
       (simp_all add: decode_props_field_def [abs_def] prop_tags)
qed

section \<open>The contract of paste data\<close>

text \<open>The two record formats under one name.\<close>

definition rec_fits :: "ext \<Rightarrow> bool \<Rightarrow> nat \<Rightarrow> PasteDataRecord \<Rightarrow> bool" where
  "rec_fits E remote n r \<longleftrightarrow>
     (if remote then (case Local2Remote E r of None \<Rightarrow> False | Some v \<Rightarrow> remote_fits E n v r) else record_fits E n r)"

definition rec_enc :: "ext \<Rightarrow> bool \<Rightarrow> PasteDataRecord \<Rightarrow> byte list" where
  "rec_enc E remote r =
     (if remote then (case Local2Remote E r of None \<Rightarrow> [] | Some v \<Rightarrow> enc_remote E v r) else enc_local E r)"

definition rec_slack :: "ext \<Rightarrow> bool \<Rightarrow> PasteDataRecord \<Rightarrow> nat" where
  "rec_slack E remote r =
     (if remote then (case Local2Remote E r of None \<Rightarrow> 0 | Some v \<Rightarrow> remote_slack E v) else local_slack E r)"

definition rec_received :: "ext \<Rightarrow> bool \<Rightarrow> PasteDataRecord \<Rightarrow> PasteDataRecord" where
  "rec_received E remote r = finish_decode E
     (if remote then (case Local2Remote E r of None \<Rightarrow> r | Some v \<Rightarrow> sent_remote v r) else sent_local r)"

lemma record_contract:
  assumes "rec_fits E remote n r"
  obtains w where "EncodeTLV_record E remote r = Some w" "emits E w (rec_enc E remote r)"
    "CountTLV_record E remote r = Some (length (rec_enc E remote r) + 6 * rec_slack E remote r)"
    "decodes E (DecodeTLV_record E n (empty_record E)) (rec_enc E remote r) (rec_received E remote r)"
proof (cases remote)
  case False
  with assms have "record_fits E n r" by (simp add: rec_fits_def)
  with that [of "EncodeTLVLocal E r"] False show thesis
    by (simp add: EncodeTLV_record_def CountTLV_record_def rec_enc_def rec_slack_def rec_received_def
        record_tlv.encode_emits record_tlv.count_covers record_tlv.decodes_exact)
next
  case True
  with assms obtain v where v: "Local2Remote E r = Some v" "remote_fits E n v r"
    by (auto simp: rec_fits_def split: option.splits)
  with that [of "EncodeTLVRemote_with E v r"] True show thesis
    by (simp add: EncodeTLV_record_def CountTLV_record_def EncodeTLVRemote_def CountTLVRemote_def rec_enc_def
        rec_slack_def rec_received_def remote_tlv.encode_emits remote_tlv.count_covers remote_tlv.decodes_exact)
qed

abbreviation enc_item :: "ext \<Rightarrow> bool \<Rightarrow> PasteDataRecord \<Rightarrow> byte list" where
  "enc_item E remote r \<equiv> tlv TAG_VECTOR_ITEM (rec_enc E remote r)"

definition records_fit :: "ext \<Rightarrow> bool \<Rightarrow> nat \<Rightarrow> PasteDataRecord option list \<Rightarrow> bool" where
  "records_fit E remote n ps \<longleftrightarrow> (\<forall>r \<in> set (somes ps). rec_fits E remote (Suc (Suc n)) r)"

lemma records_fit_Cons:
  "records_fit E remote n (p # ps) \<longleftrightarrow>
     (case p of None \<Rightarrow> True | Some r \<Rightarrow> rec_fits E remote (Suc (Suc n)) r) \<and> records_fit E remote n ps"
  by (cases p) (simp_all add: records_fit_def)

lemma record_writers_emit:
  assumes "records_fit E remote n ps"
  shows "\<exists>ws. record_writers E remote ps = Some ws \<and>
    list_all2 (emits E) (map (Write_ptr (Write_writeable TAG_VECTOR_ITEM)) ws) (map (enc_ptr (enc_item E remote)) ps)"
  using assms
proof (induction ps)
  case (Cons p ps)
  then obtain ws where ws: "record_writers E remote ps = Some ws"
    "list_all2 (emits E) (map (Write_ptr (Write_writeable TAG_VECTOR_ITEM)) ws) (map (enc_ptr (enc_item E remote)) ps)"
    by (auto simp: records_fit_Cons)
  show ?case
  proof (cases p)
    case None
    have "emits E (Write_ptr (Write_writeable TAG_VECTOR_ITEM) None) (enc_ptr (enc_item E remote) None)"
      by (simp add: Write_ptr_def [abs_def] enc_ptr_def emits_def)
    with ws None show ?thesis by auto
  next
    case (Some r)
    with Cons.prems have "rec_fits E remote (Suc (Suc n)) r" by (simp add: records_fit_Cons)
    then obtain w where w: "EncodeTLV_record E remote r = Some w" "emits E w (rec_enc E remote r)"
      by (rule record_contract)
    have "emits E (Write_ptr (Write_writeable TAG_VECTOR_ITEM) (Some w)) (enc_ptr (enc_item E remote) (Some r))"
      using emits_WriteFrame [OF w(2)] by (simp add: Write_ptr_def [abs_def] enc_ptr_def Write_writeable_def)
    with ws w(1) Some show ?thesis by auto
  qed
qed simp

lemma enc_ptr_simps: "enc_ptr f None = []" "enc_ptr f (Some x) = f x"
  by (simp_all add: enc_ptr_def)

lemma record_counts_cover:
  assumes "records_fit E remote n ps"
  shows "\<exists>ns. record_counts E remote ps = Some ns \<and> Count_vector (Count_ptr Count_writeable) ns =
    length (tlv TAG_RECORDS (concat (map (enc_ptr (enc_item E remote)) ps))) +
    6 * sum_list (map (rec_slack E remote) (somes ps))"
  using assms
proof (induction ps)
  case Nil
  then show ?case by (simp add: Count_vector_sum)
next
  case (Cons p ps)
  then obtain ns where ns: "record_counts E remote ps = Some ns" "Count_vector (Count_ptr Count_writeable) ns =
    length (tlv TAG_RECORDS (concat (map (enc_ptr (enc_item E remote)) ps))) +
    6 * sum_list (map (rec_slack E remote) (somes ps))" by (auto simp: records_fit_Cons)
  show ?case
  proof (cases p)
    case None
    with ns show ?thesis by (simp add: Count_vector_sum enc_ptr_simps)
  next
    case (Some r)
    with Cons.prems have "rec_fits E remote (Suc (Suc n)) r" by (simp add: records_fit_Cons)
    then have "CountTLV_record E remote r = Some (length (rec_enc E remote r) + 6 * rec_slack E remote r)"
      by (rule record_contract)
    with ns Some show ?thesis by (simp add: Count_vector_sum enc_ptr_simps
          Count_writeable_def [of "length (rec_enc E remote r) + 6 * rec_slack E remote r"])
  qed
qed

definition enc_data :: "ext \<Rightarrow> bool \<Rightarrow> PasteData \<Rightarrow> byte list" where
  "enc_data E remote d = concat
     [tlv TAG_PROPS (enc_props E (pd_props d)),
      tlv TAG_RECORDS (concat (map (enc_ptr (enc_item E remote)) (pd_records d))),
      tlv TAG_DRAGGED_DATA_FLAG (enc_bool (pd_isDraggedData d)),
      tlv TAG_LOCAL_PASTE_FLAG (enc_bool (pd_isLocalPaste d)),
      tlv TAG_DELAY_DATA_FLAG (enc_bool (pd_isDelayData d)),
      tlv TAG_DEVICE_ID (str_bytes (pd_deviceId d)),
      tlv TAG_PASTE_ID (str_bytes (pd_pasteId d)),
      tlv TAG_DELAY_RECORD_FLAG (enc_bool (pd_isDelayRecord d)),
      tlv TAG_DATA_ID (enc_word (pd_dataId d)),
      tlv TAG_RECORD_ID (enc_word (pd_recordId d)),
      tlv TAG_USER_ID (enc_word (pd_userId d))]"

definition data_fits :: "ext \<Rightarrow> bool \<Rightarrow> nat \<Rightarrow> PasteData \<Rightarrow> bool" where
  "data_fits E remote n d \<longleftrightarrow> n + 2 \<le> MAX_DEPTH \<and> params_codec_ok E (prop_additions (pd_props d)) \<and>
     records_fit E remote n (pd_records d)"

definition data_slack :: "ext \<Rightarrow> bool \<Rightarrow> PasteData \<Rightarrow> nat" where
  "data_slack E remote d = sum_list (map (rec_slack E remote) (somes (pd_records d)))"

text \<open>What a receiver gets: the members that are not part of the format have their initial value.\<close>

definition data_received :: "ext \<Rightarrow> bool \<Rightarrow> PasteData \<Rightarrow> PasteData" where
  "data_received E remote d = d\<lparr>pd_rawDataSize := 0, pd_valid := True, pd_textSize := 0, pd_originAuthority := ([], 0),
     pd_props := (pd_props d)\<lparr>prop_appIndex := 0\<rparr>,
     pd_records := map (\<lambda>r. Some (rec_received E remote r)) (somes (pd_records d))\<rparr>"

lemma encode_data_emits:
  assumes "data_fits E remote n d"
  shows "\<exists>w. EncodeTLV_data E remote d = Some w \<and> emits E w (enc_data E remote d)"
proof -
  from assms obtain ws where ws: "record_writers E remote (pd_records d) = Some ws"
    "list_all2 (emits E) (map (Write_ptr (Write_writeable TAG_VECTOR_ITEM)) ws) (map (enc_ptr (enc_item E remote)) (pd_records d))"
    using record_writers_emit unfolding data_fits_def by blast
  have vec: "emits E (Write_vector TAG_RECORDS (\<lambda>t. Write_ptr (Write_writeable t)) ws)
      (tlv TAG_RECORDS (concat (map (enc_ptr (enc_item E remote)) (pd_records d))))"
    unfolding Write_vector_def by (intro emits_WriteFrame emits_andW_list) (use ws in simp)
  have props: "emits E (Write_writeable TAG_PROPS (EncodeTLV_props E (pd_props d))) (tlv TAG_PROPS (enc_props E (pd_props d)))"
    unfolding Write_writeable_def by (intro emits_WriteFrame emits_props)
  show ?thesis
    unfolding EncodeTLV_data_def ws(1) enc_data_def Option.bind.simps
    by (intro exI conjI, rule refl, rule emits_andW_list) (simp add: vec props emits_string emits_bool emits_word)
qed

lemma count_data_covers:
  assumes "data_fits E remote n d"
  shows "CountTLV_data E remote d = Some (length (enc_data E remote d) + 6 * data_slack E remote d)"
proof -
  from assms obtain ns where "record_counts E remote (pd_records d) = Some ns"
    "Count_vector (Count_ptr Count_writeable) ns =
      length (tlv TAG_RECORDS (concat (map (enc_ptr (enc_item E remote)) (pd_records d)))) + 6 * data_slack E remote d"
    using record_counts_cover unfolding data_fits_def data_slack_def by blast
  then show ?thesis
    by (simp add: CountTLV_data_def enc_data_def Count_writeable_def count_props Count_basic_def Count_string_def)
qed

lemma safe_decode_data_field [rd_safe]: "safe_rd (decode_data_field E n h d)"
proof -
  have "safe_rd (DecodeTLV_props E n p)" for p unfolding DecodeTLV_props_def by (intro rd_safe)
  then show ?thesis unfolding decode_data_field_def [abs_def] by (intro rd_safe)
qed

lemma safe_DecodeTLV_data [rd_safe]: "safe_rd (DecodeTLV_data E n self)"
  unfolding DecodeTLV_data_def by (intro rd_safe)

lemma consumes_records:
  assumes "records_fit E remote n ps" and "n + 2 \<le> MAX_DEPTH"
  shows "consumes E (ReadValue_vector n (\<lambda>n1. ReadValue_ptr n1 (\<lambda>n2. ReadValue_readable (DecodeTLV_record E n2 (empty_record E))))
      old (mkh t (concat (map (enc_ptr (enc_item E remote)) ps)))) (concat (map (enc_ptr (enc_item E remote)) ps))
    (old @ map (\<lambda>r. Some (rec_received E remote r)) (somes ps))"
proof (rule consumes_vector)
  show "guard_valid n" using assms(2) by (simp add: guard_valid_def)
  have "consumes E (ReadValue_ptr (Suc n) (\<lambda>n2. ReadValue_readable (DecodeTLV_record E n2 (empty_record E)))
      (mkh TAG_VECTOR_ITEM (rec_enc E remote r))) (rec_enc E remote r) (Some (rec_received E remote r))"
    if "r \<in> set (somes ps)" for r
  proof -
    have "rec_fits E remote (Suc (Suc n)) r" using assms(1) that by (auto simp: records_fit_def)
    then have "decodes E (DecodeTLV_record E (Suc (Suc n)) (empty_record E)) (rec_enc E remote r) (rec_received E remote r)"
      by (rule record_contract)
    then show ?thesis using assms(2) by (intro consumes_ptr consumes_readable) (auto simp: guard_valid_def)
  qed
  then show "steps E (\<lambda>vh acc b1. mapR (\<lambda>x. acc @ [x]) (ReadValue_ptr (Suc n)
      (\<lambda>n2. ReadValue_readable (DecodeTLV_record E n2 (empty_record E))) vh b1)) old
      (concat (map (enc_ptr (enc_item E remote)) ps)) (old @ map (\<lambda>r. Some (rec_received E remote r)) (somes ps))"
    unfolding enc_ptr_somes by (rule steps_vector)
qed

lemma carries_data:
  "carries E (decode_data_field E n) (tlv TAG_DRAGGED_DATA_FLAG (enc_bool f)) (\<lambda>d. d\<lparr>pd_isDraggedData := f\<rparr>)"
  "carries E (decode_data_field E n) (tlv TAG_LOCAL_PASTE_FLAG (enc_bool f)) (\<lambda>d. d\<lparr>pd_isLocalPaste := f\<rparr>)"
  "carries E (decode_data_field E n) (tlv TAG_DELAY_DATA_FLAG (enc_bool f)) (\<lambda>d. d\<lparr>pd_isDelayData := f\<rparr>)"
  "carries E (decode_data_field E n) (tlv TAG_DEVICE_ID (str_bytes s)) (\<lambda>d. d\<lparr>pd_deviceId := pd_deviceId d @ s\<rparr>)"
  "carries E (decode_data_field E n) (tlv TAG_PASTE_ID (str_bytes s)) (\<lambda>d. d\<lparr>pd_pasteId := pd_pasteId d @ s\<rparr>)"
  "carries E (decode_data_field E n) (tlv TAG_DELAY_RECORD_FLAG (enc_bool f)) (\<lambda>d. d\<lparr>pd_isDelayRecord := f\<rparr>)"
  "carries E (decode_data_field E n) (tlv TAG_DATA_ID (enc_word w)) (\<lambda>d. d\<lparr>pd_dataId := w\<rparr>)"
  "carries E (decode_data_field E n) (tlv TAG_RECORD_ID (enc_word w)) (\<lambda>d. d\<lparr>pd_recordId := w\<rparr>)"
  "carries E (decode_data_field E n) (tlv TAG_USER_ID (enc_word w)) (\<lambda>d. d\<lparr>pd_userId := w\<rparr>)"
  by (rule carries_field, simp add: decode_data_field_def [abs_def] data_tags
      consumes_map [OF consumes_string] consumes_map [OF consumes_bool] consumes_map [OF consumes_u32])+

lemma carries_records:
  "records_fit E remote n ps \<Longrightarrow> n + 2 \<le> MAX_DEPTH \<Longrightarrow>
   carries E (decode_data_field E n) (tlv TAG_RECORDS (concat (map (enc_ptr (enc_item E remote)) ps)))
     (\<lambda>d. d\<lparr>pd_records := pd_records d @ map (\<lambda>r. Some (rec_received E remote r)) (somes ps)\<rparr>)"
  by (rule carries_field) (simp add: decode_data_field_def [abs_def] data_tags consumes_map [OF consumes_records])

lemma steps_data:
  assumes "data_fits E remote n d"
  shows "steps E (decode_data_field E n) (new_data P now) (enc_data E remote d) (data_received E remote d)"
proof -
  let ?body = "decode_data_field E n"
  let ?d0 = "(new_data P now)\<lparr>pd_props := (pd_props d)\<lparr>prop_appIndex := 0\<rparr>\<rparr>"
  let ?us = "[(\<lambda>x. x\<lparr>pd_records := pd_records x @ map (\<lambda>r. Some (rec_received E remote r)) (somes (pd_records d))\<rparr>),
    (\<lambda>x. x\<lparr>pd_isDraggedData := pd_isDraggedData d\<rparr>), (\<lambda>x. x\<lparr>pd_isLocalPaste := pd_isLocalPaste d\<rparr>),
    (\<lambda>x. x\<lparr>pd_isDelayData := pd_isDelayData d\<rparr>), (\<lambda>x. x\<lparr>pd_deviceId := pd_deviceId x @ pd_deviceId d\<rparr>),
    (\<lambda>x. x\<lparr>pd_pasteId := pd_pasteId x @ pd_pasteId d\<rparr>), (\<lambda>x. x\<lparr>pd_isDelayRecord := pd_isDelayRecord d\<rparr>),
    (\<lambda>x. x\<lparr>pd_dataId := pd_dataId d\<rparr>), (\<lambda>x. x\<lparr>pd_recordId := pd_recordId d\<rparr>), (\<lambda>x. x\<lparr>pd_userId := pd_userId d\<rparr>)]"
  have props: "consumes E (ReadValue_readable (DecodeTLV_props E n (new_props P now)) (mkh TAG_PROPS (enc_props E (pd_props d))))
      (enc_props E (pd_props d)) ((pd_props d)\<lparr>prop_appIndex := 0\<rparr>)"
    by (rule props_tlv.member_reads) (use assms in \<open>simp add: data_fits_def guard_valid_def\<close>)
  have "consumes E (?body (mkh TAG_PROPS (enc_props E (pd_props d))) (new_data P now)) (enc_props E (pd_props d)) ?d0"
    by (simp add: decode_data_field_def [abs_def] new_data_def consumes_map [OF props])
  moreover have "steps E ?body ?d0 (concat (tl [tlv TAG_PROPS (enc_props E (pd_props d)),
      tlv TAG_RECORDS (concat (map (enc_ptr (enc_item E remote)) (pd_records d))),
      tlv TAG_DRAGGED_DATA_FLAG (enc_bool (pd_isDraggedData d)), tlv TAG_LOCAL_PASTE_FLAG (enc_bool (pd_isLocalPaste d)),
      tlv TAG_DELAY_DATA_FLAG (enc_bool (pd_isDelayData d)), tlv TAG_DEVICE_ID (str_bytes (pd_deviceId d)),
      tlv TAG_PASTE_ID (str_bytes (pd_pasteId d)), tlv TAG_DELAY_RECORD_FLAG (enc_bool (pd_isDelayRecord d)),
      tlv TAG_DATA_ID (enc_word (pd_dataId d)), tlv TAG_RECORD_ID (enc_word (pd_recordId d)),
      tlv TAG_USER_ID (enc_word (pd_userId d))])) (fold (\<lambda>u a. u a) ?us ?d0)"
    by (rule carries_fields) (use assms in \<open>simp add: data_fits_def carries_data carries_records\<close>)
  moreover have "fold (\<lambda>u a. u a) ?us ?d0 = data_received E remote d"
    by (cases d) (simp add: new_data_def data_received_def)
  ultimately show ?thesis by (simp add: enc_data_def steps_field)
qed

interpretation data_tlv: tlv_class "DecodeTLV_data E n (new_data P now)" E
    "\<lambda>d. the (EncodeTLV_data E remote d)" "\<lambda>d. the (CountTLV_data E remote d)" "enc_data E remote"
    "data_slack E remote" "data_fits E remote n" "data_received E remote" for E n P now remote
proof unfold_locales
  show "safe_rd (DecodeTLV_data E n (new_data P now))" by (intro rd_safe)
  show "emits E (the (EncodeTLV_data E remote d)) (enc_data E remote d)" if "data_fits E remote n d" for d
    using encode_data_emits [OF that] by auto
  show "the (CountTLV_data E remote d) = length (enc_data E remote d) + 6 * data_slack E remote d"
    if "data_fits E remote n d" for d
    using count_data_covers [OF that] by simp
  show "decodes E (DecodeTLV_data E n (new_data P now)) (enc_data E remote d @ replicate (6 * k) 0) (data_received E remote d)"
    if "data_fits E remote n d" for d k
    unfolding DecodeTLV_data_def
    by (intro decodes_fields steps_append [OF steps_data [OF that]] steps_padding)
       (simp add: decode_data_field_def [abs_def] data_tags)
qed

interpretation data_decoder: tlv_decoder "DecodeTLV_data E n d" for E n d
  by unfold_locales (intro rd_safe)

section \<open>Round trip and safety\<close>

lemma Encode_data_bytes:
  assumes "data_fits E remote n d" and "CountTLV_data E remote d = Some c" and "c < 2 ^ 32" and "c \<le> rsize_max E"
  shows "Encode_data E remote d = Some (True, enc_data E remote d @ replicate (6 * data_slack E remote d) 0)"
proof -
  obtain w where w: "EncodeTLV_data E remote d = Some w" using encode_data_emits [OF assms(1)] by blast
  have "Encode c w = (True, enc_data E remote d @ replicate (6 * data_slack E remote d) 0)"
    using data_tlv.encode_bytes [OF assms(1)] assms(2-4) w by simp
  with w assms(2) show ?thesis by (simp add: Encode_data_def)
qed

lemma Encode_Decode_data:
  assumes "data_fits E remote n d" and "CountTLV_data E remote d = Some c" and "c < 2 ^ 32" and "c \<le> rsize_max E"
  obtains bs b where "Encode_data E remote d = Some (True, bs)" "bs \<noteq> []"
    "Decode (DecodeTLV_data E n (new_data P now)) bs = ROk (data_received E remote d) b"
proof -
  have c: "c = length (enc_data E remote d) + 6 * data_slack E remote d"
    using count_data_covers [OF assms(1)] assms(2) by simp
  then obtain b where "Decode (DecodeTLV_data E n (new_data P now))
      (enc_data E remote d @ replicate (6 * data_slack E remote d) 0) = ROk (data_received E remote d) b"
    using data_tlv.decode_encoded [OF assms(1), of "data_slack E remote d"] assms(3,4) by metis
  moreover have "enc_data E remote d \<noteq> []" by (simp add: enc_data_def)
  ultimately show thesis using that Encode_data_bytes [OF assms] by blast
qed


definition sample_data :: PasteData where
  "sample_data = (new_data sample_params 0)\<lparr>pd_records := [Some sample_record, None, Some sample_record],
     pd_dataId := 3, pd_pasteId := ''p''\<rparr>"

lemma sample_rec_fits: "rec_fits sample_ext False 2 sample_record" "rec_fits sample_ext True 2 sample_record"
  by (simp_all add: rec_fits_def sample_Local2Remote)
     (simp_all add: sample_record_def sample_remote_def record_fits_def remote_fits_def common_fits_def entries_fit_def entry_fits_def
      MAX_DEPTH_def empty_record_def mk_entry_mime_def map_ok_def)

lemma sample_data_fits: "data_fits sample_ext remote 0 sample_data"
  using sample_rec_fits sample_codecs_ok(2) [of 0]
  by (cases remote) (simp_all add: data_fits_def sample_data_def new_data_def new_props_def sample_params_def
      records_fit_def MAX_DEPTH_def numeral_2_eq_2)

lemma sample_data_count: "\<exists>c. CountTLV_data sample_ext remote sample_data = Some c \<and> c \<le> 9999"
proof -
  have "CountTLV_props sample_ext (pd_props sample_data) \<le> 99"
    by (simp add: CountTLV_props_def sample_data_def new_data_def new_props_def Parcelable2Raw_def Count_RawMem_def
        Count_vector_sum Count_string_def Count_basic_def sample_ext_def)
  moreover have "\<exists>c. CountTLV_record sample_ext remote sample_record = Some c \<and> c \<le> 999"
    using sample_record_count sample_remote_count
    by (simp add: CountTLV_record_def CountTLVRemote_def sample_Local2Remote)
  ultimately show ?thesis
    by (auto simp: CountTLV_data_def sample_data_def new_data_def Count_vector_sum Count_writeable_def
        Count_basic_def Count_string_def)
qed


text \<open>C31: Decoding is total and memory safe. On every input, hostile ones included, the decoders of
  paste data, records, entries and properties return: no read leaves the buffer, no loop runs
  forever, at any recursion depth.\<close>

theorem decoders_total:
  "(Decode (DecodeTLV_data E n d) bs = RFail \<or> (\<exists>x b. Decode (DecodeTLV_data E n d) bs = ROk x b)) \<and>
   (Decode (DecodeTLV_record E n (empty_record E)) bs = RFail \<or>
     (\<exists>x b. Decode (DecodeTLV_record E n (empty_record E)) bs = ROk x b)) \<and>
   (Decode (DecodeTLV_entry E n empty_entry) bs = RFail \<or>
     (\<exists>x b. Decode (DecodeTLV_entry E n empty_entry) bs = ROk x b)) \<and>
   (Decode (DecodeTLV_props E n (new_props P now)) bs = RFail \<or>
     (\<exists>x b. Decode (DecodeTLV_props E n (new_props P now)) bs = ROk x b))"
  by (intro conjI data_decoder.Decode_returns record_tlv.Decode_returns entry_tlv.Decode_returns
      props_tlv.Decode_returns)

text \<open>\<open>Unmarshalling\<close> undoes \<open>Marshalling\<close>, and it yields no object for a parcel without a
  vector, with an empty one, or with one that does not decode.\<close>

theorem marshalling_roundtrip:
  assumes "data_fits E False 0 d" and "CountTLV_data E False d = Some c" and "c < 2 ^ 32" and "c \<le> rsize_max E"
  shows "\<exists>bs. Marshalling_data E Some d = Some (Some bs) \<and>
    Unmarshalling_data E P now (Some bs) = Some (data_received E False d)"
  by (rule Encode_Decode_data [OF assms, of P now]) (simp add: Marshalling_data_def Unmarshalling_data_def)

theorem marshalling_roundtrip_witness:
  "\<exists>bs. Marshalling_data sample_ext Some sample_data = Some (Some bs) \<and>
    Unmarshalling_data sample_ext sample_params 9 (Some bs) = Some (data_received sample_ext False sample_data)"
proof -
  obtain c where "CountTLV_data sample_ext False sample_data = Some c" "c \<le> 9999" using sample_data_count by blast
  then show ?thesis by (intro marshalling_roundtrip [OF sample_data_fits, where c = c]) simp_all
qed

end
