(* ===== verification/Linked_List.thy ===== *)
theory Linked_List
  imports Prelude
begin

text \<open>
  The singly linked list of \<open>utils/native/include/pasteboard_linked_list.h\<close>. A list owns a
  store of nodes: an address maps to a node while the node is allocated, \<open>new\<close> takes a
  fresh address and \<open>delete\<close> unmaps it. A loop that follows a freed or unmapped pointer has
  no result, and neither has a loop that does not end, so that a result is a proof of both.
  The predicate \<open>holds\<close> relates a store to the sequence of its values and says that the
  allocated nodes are exactly the head node and the nodes of the sequence. The operations
  refine the operations on sequences; the contract is the locale \<open>sequence_store\<close>.
\<close>

type_synonym addr = nat

record 'a ListNode =
  node_value :: 'a
  node_next :: "addr option"

record 'a LinkedList =
  head_node :: "addr option"
  cells :: "addr \<rightharpoonup> 'a ListNode"
  next_addr :: addr

section \<open>The operations\<close>

definition new_node :: "'a ListNode \<Rightarrow> 'a LinkedList \<Rightarrow> addr \<times> 'a LinkedList" where
  "new_node n l = (next_addr l,
     l\<lparr>cells := (cells l)(next_addr l \<mapsto> n), next_addr := Suc (next_addr l)\<rparr>)"

definition delete_node :: "addr \<Rightarrow> 'a LinkedList \<Rightarrow> 'a LinkedList" where
  "delete_node a l = l\<lparr>cells := (cells l)(a := None)\<rparr>"

definition set_next :: "addr \<Rightarrow> addr option \<Rightarrow> 'a LinkedList \<Rightarrow> 'a LinkedList option" where
  "set_next a q l = (case cells l a of
      None \<Rightarrow> None
    | Some n \<Rightarrow> Some (l\<lparr>cells := (cells l)(a \<mapsto> n\<lparr>node_next := q\<rparr>)\<rparr>))"

definition LinkedList_new :: "'a \<Rightarrow> 'a LinkedList" where
  "LinkedList_new dflt =
     (let (a, l) = new_node \<lparr>node_value = dflt, node_next = None\<rparr>
                     \<lparr>head_node = None, cells = Map.empty, next_addr = 1\<rparr>
      in l\<lparr>head_node := Some a\<rparr>)"

partial_function (option) Clear_loop :: "addr option \<Rightarrow> 'a LinkedList \<Rightarrow> 'a LinkedList option" where
  "Clear_loop iter l = (case iter of
      None \<Rightarrow> Some l
    | Some a \<Rightarrow> (case cells l a of
        None \<Rightarrow> None
      | Some n \<Rightarrow> Clear_loop (node_next n) (delete_node a l)))"

definition LinkedList_Clear :: "'a LinkedList \<Rightarrow> 'a LinkedList option" where
  "LinkedList_Clear l = (case head_node l of
      None \<Rightarrow> Some l
    | Some h \<Rightarrow> (case cells l h of
        None \<Rightarrow> None
      | Some n \<Rightarrow> (case Clear_loop (node_next n) l of
          None \<Rightarrow> None
        | Some l' \<Rightarrow> set_next h None l')))"

definition InsertFront :: "'a \<Rightarrow> 'a LinkedList \<Rightarrow> 'a LinkedList option" where
  "InsertFront v l = (case head_node l of
      None \<Rightarrow> Some l
    | Some h \<Rightarrow>
        (let (a, l1) = new_node \<lparr>node_value = v, node_next = None\<rparr> l
         in (case cells l1 h of
               None \<Rightarrow> None
             | Some n \<Rightarrow> (case set_next a (node_next n) l1 of
                 None \<Rightarrow> None
               | Some l2 \<Rightarrow> set_next h (Some a) l2))))"

partial_function (option) last_node :: "addr \<Rightarrow> 'a LinkedList \<Rightarrow> addr option" where
  "last_node iter l = (case cells l iter of
      None \<Rightarrow> None
    | Some n \<Rightarrow> (case node_next n of
        None \<Rightarrow> Some iter
      | Some b \<Rightarrow> last_node b l))"

definition InsertTail :: "'a \<Rightarrow> 'a LinkedList \<Rightarrow> 'a LinkedList option" where
  "InsertTail v l = (case head_node l of
      None \<Rightarrow> Some l
    | Some h \<Rightarrow>
        (let (a, l1) = new_node \<lparr>node_value = v, node_next = None\<rparr> l
         in (case last_node h l1 of
               None \<Rightarrow> None
             | Some t \<Rightarrow> set_next t (Some a) l1)))"

partial_function (option) RemoveIf_loop ::
    "('a \<Rightarrow> bool) \<Rightarrow> addr \<Rightarrow> addr option \<Rightarrow> 'a LinkedList \<Rightarrow> 'a LinkedList option" where
  "RemoveIf_loop f prev iter l = (case iter of
      None \<Rightarrow> Some l
    | Some a \<Rightarrow> (case cells l a of
        None \<Rightarrow> None
      | Some n \<Rightarrow>
          if f (node_value n)
          then (case set_next prev (node_next n) l of
                  None \<Rightarrow> None
                | Some l1 \<Rightarrow>
                    (case cells (delete_node a l1) prev of
                       None \<Rightarrow> None
                     | Some p \<Rightarrow> RemoveIf_loop f prev (node_next p) (delete_node a l1)))
          else RemoveIf_loop f a (node_next n) l))"

definition RemoveIf :: "('a \<Rightarrow> bool) \<Rightarrow> 'a LinkedList \<Rightarrow> 'a LinkedList option" where
  "RemoveIf f l = (case head_node l of
      None \<Rightarrow> Some l
    | Some h \<Rightarrow> (case cells l h of
        None \<Rightarrow> None
      | Some n \<Rightarrow> RemoveIf_loop f h (node_next n) l))"

partial_function (option) FindExist_loop ::
    "('a \<Rightarrow> bool) \<Rightarrow> addr option \<Rightarrow> 'a LinkedList \<Rightarrow> bool option" where
  "FindExist_loop f iter l = (case iter of
      None \<Rightarrow> Some False
    | Some a \<Rightarrow> (case cells l a of
        None \<Rightarrow> None
      | Some n \<Rightarrow> if f (node_value n) then Some True else FindExist_loop f (node_next n) l))"

definition FindExist_if :: "('a \<Rightarrow> bool) \<Rightarrow> 'a LinkedList \<Rightarrow> bool option" where
  "FindExist_if f l = (case head_node l of
      None \<Rightarrow> Some False
    | Some h \<Rightarrow> (case cells l h of
        None \<Rightarrow> None
      | Some n \<Rightarrow> FindExist_loop f (node_next n) l))"

definition FindExist_value :: "'a \<Rightarrow> 'a LinkedList \<Rightarrow> bool option" where
  "FindExist_value v l = FindExist_if (\<lambda>x. x = v) l"

partial_function (option) ForEach_loop ::
    "('a \<Rightarrow> 's \<Rightarrow> 's) \<Rightarrow> addr option \<Rightarrow> 'a LinkedList \<Rightarrow> 's \<Rightarrow> 's option" where
  "ForEach_loop f iter l s = (case iter of
      None \<Rightarrow> Some s
    | Some a \<Rightarrow> (case cells l a of
        None \<Rightarrow> None
      | Some n \<Rightarrow> ForEach_loop f (node_next n) l (f (node_value n) s)))"

definition LinkedList_ForEach :: "('a \<Rightarrow> 's \<Rightarrow> 's) \<Rightarrow> 'a LinkedList \<Rightarrow> 's \<Rightarrow> 's option" where
  "LinkedList_ForEach f l s = (case head_node l of
      None \<Rightarrow> Some s
    | Some h \<Rightarrow> (case cells l h of
        None \<Rightarrow> None
      | Some n \<Rightarrow> ForEach_loop f (node_next n) l s))"

text \<open>
  The destructor: clear the list, then free the head node.
\<close>

definition LinkedList_delete :: "'a LinkedList \<Rightarrow> 'a LinkedList option" where
  "LinkedList_delete l = (case LinkedList_Clear l of
      None \<Rightarrow> None
    | Some l' \<Rightarrow> (case head_node l' of
        None \<Rightarrow> Some l'
      | Some h \<Rightarrow> Some ((delete_node h l')\<lparr>head_node := None\<rparr>)))"

section \<open>Chains of nodes\<close>

text \<open>
  \<open>chain c p ns q\<close>: following \<open>next\<close> from \<open>p\<close> in the cells \<open>c\<close> visits the nodes \<open>ns\<close>,
  given with their values, and arrives at \<open>q\<close>.
\<close>

fun chain :: "(addr \<rightharpoonup> 'a ListNode) \<Rightarrow> addr option \<Rightarrow> (addr \<times> 'a) list \<Rightarrow> addr option \<Rightarrow> bool" where
  "chain c p [] q \<longleftrightarrow> p = q"
| "chain c p ((a, x) # ns) q \<longleftrightarrow>
     p = Some a \<and> (\<exists>r. c a = Some \<lparr>node_value = x, node_next = r\<rparr> \<and> chain c r ns q)"

lemma chain_append: "chain c p (ms @ ns) q \<longleftrightarrow> (\<exists>r. chain c p ms r \<and> chain c r ns q)"
  by (induction ms arbitrary: p) (auto, blast+)

lemma chain_upd [simp]: "a \<notin> fst ` set ns \<Longrightarrow> chain (c(a := z)) p ns q = chain c p ns q"
  by (induction ns arbitrary: p) auto

definition holds :: "'a LinkedList \<Rightarrow> 'a list \<Rightarrow> bool" where
  "holds l xs \<longleftrightarrow> (\<exists>h d ns. head_node l = Some h \<and> chain (cells l) (Some h) ((h, d) # ns) None
     \<and> distinct (h # map fst ns) \<and> map snd ns = xs
     \<and> dom (cells l) = insert h (fst ` set ns) \<and> (\<forall>a \<in> dom (cells l). a < next_addr l))"

lemma holds_cases:
  assumes "holds l xs"
  obtains h d p ns where "head_node l = Some h"
    "cells l h = Some \<lparr>node_value = d, node_next = p\<rparr>" "chain (cells l) p ns None"
    "h \<notin> fst ` set ns" "distinct (map fst ns)" "map snd ns = xs"
    "dom (cells l) = insert h (fst ` set ns)" "cells l (next_addr l) = None"
    "next_addr l \<noteq> h" "next_addr l \<notin> fst ` set ns"
proof -
  from assms obtain h d ns where *: "head_node l = Some h"
    "chain (cells l) (Some h) ((h, d) # ns) None" "distinct (h # map fst ns)" "map snd ns = xs"
    "dom (cells l) = insert h (fst ` set ns)" "\<forall>a \<in> dom (cells l). a < next_addr l"
    unfolding holds_def by blast
  have n: "next_addr l \<notin> dom (cells l)" using *(6) by blast
  from *(2) obtain p where "cells l h = Some \<lparr>node_value = d, node_next = p\<rparr>"
    "chain (cells l) p ns None" by auto
  with * n show ?thesis by (intro that[of h d p ns]) (auto simp: domIff)
qed

lemma holdsI:
  assumes "head_node l = Some h" "cells l h = Some \<lparr>node_value = d, node_next = p\<rparr>"
    "chain (cells l) p ns None" "h \<notin> fst ` set ns" "distinct (map fst ns)" "map snd ns = xs"
    "dom (cells l) = insert h (fst ` set ns)" "\<forall>a \<in> dom (cells l). a < next_addr l"
  shows "holds l xs"
  unfolding holds_def using assms by (intro exI[of _ h] exI[of _ d] exI[of _ ns]) auto

lemma holds_bound: "holds l xs \<Longrightarrow> \<forall>a \<in> dom (cells l). a < next_addr l"
  by (auto simp: holds_def)

lemma LinkedList_new_holds: "holds (LinkedList_new d) []"
  by (rule holdsI[where ns = "[]"]) (auto simp: LinkedList_new_def new_node_def)

section \<open>The loops end and stay inside the list\<close>

lemma Clear_loop_chain:
  assumes "chain (cells l) p ns None" "distinct (map fst ns)"
  shows "Clear_loop p l = Some (l\<lparr>cells := (cells l) |` (- fst ` set ns)\<rparr>)"
  using assms
proof (induction ns arbitrary: p l)
  case Nil
  then show ?case by (subst Clear_loop.simps) (simp add: restrict_map_def)
next
  case (Cons m ns)
  obtain a x where m: "m = (a, x)" by (cases m)
  with Cons.prems obtain r where r: "p = Some a"
    "cells l a = Some \<lparr>node_value = x, node_next = r\<rparr>" "chain (cells l) r ns None"
    "a \<notin> fst ` set ns" "distinct (map fst ns)" by auto
  have "chain (cells (delete_node a l)) r ns None" using r by (simp add: delete_node_def)
  from Cons.IH[OF this r(5)] have "Clear_loop p l =
      Some ((delete_node a l)\<lparr>cells := cells (delete_node a l) |` (- fst ` set ns)\<rparr>)"
    using r(1,2) by (subst Clear_loop.simps) simp
  moreover have "((cells l)(a := None)) |` (- fst ` set ns) = cells l |` (- fst ` set (m # ns))"
    by (auto simp: m restrict_map_def fun_eq_iff)
  ultimately show ?case by (simp add: delete_node_def)
qed

lemma FindExist_loop_chain:
  "chain (cells l) p ns None \<Longrightarrow> FindExist_loop f p l = Some (\<exists>x \<in> snd ` set ns. f x)"
  by (induction ns arbitrary: p) (subst FindExist_loop.simps, auto)+

lemma ForEach_loop_chain:
  "chain (cells l) p ns None \<Longrightarrow> ForEach_loop f p l s = Some (fold f (map snd ns) s)"
  by (induction ns arbitrary: p s) (subst ForEach_loop.simps, auto)+

lemma last_node_chain:
  "chain (cells l) (Some a) (ns @ [(t, x)]) None \<Longrightarrow> last_node a l = Some t"
proof (induction ns arbitrary: a)
  case Nil
  then show ?case by (subst last_node.simps) auto
next
  case (Cons m ns)
  obtain y where m: "m = (a, y)" using Cons.prems by (cases m) auto
  then obtain r where r: "cells l a = Some \<lparr>node_value = y, node_next = r\<rparr>"
    "chain (cells l) r (ns @ [(t, x)]) None" using Cons.prems by auto
  then obtain b where b: "r = Some b" by (cases ns) auto
  from Cons.IH r(2)[unfolded b] have "last_node b l = Some t" by blast
  with r(1) b show ?case by (subst last_node.simps) simp
qed

text \<open>
  The removal loop keeps the node before the cursor: from there the chain continues with the
  nodes that stay, the removed nodes are freed and every other node is untouched.
\<close>

lemma RemoveIf_loop_chain:
  assumes "cells l prev = Some \<lparr>node_value = d, node_next = p\<rparr>" "chain (cells l) p ns None"
    "prev \<notin> fst ` set ns" "distinct (map fst ns)"
  shows "\<exists>l' p'. RemoveIf_loop f prev p l = Some l'
     \<and> head_node l' = head_node l \<and> next_addr l' = next_addr l
     \<and> cells l' prev = Some \<lparr>node_value = d, node_next = p'\<rparr>
     \<and> chain (cells l') p' (filter (\<lambda>n. \<not> f (snd n)) ns) None
     \<and> dom (cells l') = dom (cells l) - fst ` {n \<in> set ns. f (snd n)}
     \<and> (\<forall>b. b \<noteq> prev \<longrightarrow> b \<notin> fst ` set ns \<longrightarrow> cells l' b = cells l b)"
  using assms
proof (induction ns arbitrary: prev d p l)
  case Nil
  then show ?case by (subst RemoveIf_loop.simps) auto
next
  case (Cons m ns)
  obtain a x where m: "m = (a, x)" by (cases m)
  with Cons.prems obtain r where r: "p = Some a" "a \<noteq> prev" "prev \<notin> fst ` set ns"
    "cells l a = Some \<lparr>node_value = x, node_next = r\<rparr>" "chain (cells l) r ns None"
    "a \<notin> fst ` set ns" "distinct (map fst ns)" by auto
  show ?case
  proof (cases "f x")
    case True
    define k where
      "k = l\<lparr>cells := (cells l)(prev \<mapsto> \<lparr>node_value = d, node_next = r\<rparr>, a := None)\<rparr>"
    have step: "RemoveIf_loop f prev p l = RemoveIf_loop f prev r k"
      using r True Cons.prems(1)
      by (subst RemoveIf_loop.simps) (simp add: set_next_def delete_node_def k_def)
    have "cells k prev = Some \<lparr>node_value = d, node_next = r\<rparr>" "chain (cells k) r ns None"
      using r by (auto simp: k_def)
    from Cons.IH[OF this r(3) r(7)] obtain l' p' where
      l': "RemoveIf_loop f prev r k = Some l'" "head_node l' = head_node k"
      "next_addr l' = next_addr k" "cells l' prev = Some \<lparr>node_value = d, node_next = p'\<rparr>"
      "chain (cells l') p' (filter (\<lambda>n. \<not> f (snd n)) ns) None"
      "dom (cells l') = dom (cells k) - fst ` {n \<in> set ns. f (snd n)}"
      "\<forall>b. b \<noteq> prev \<longrightarrow> b \<notin> fst ` set ns \<longrightarrow> cells l' b = cells k b" by blast
    have "dom (cells l') = dom (cells l) - fst ` {n \<in> set (m # ns). f (snd n)}"
      using l'(6) True m Cons.prems(1) by (force simp: k_def)
    with l' step True m show ?thesis by (intro exI[of _ l'] exI[of _ p']) (auto simp: k_def)
  next
    case False
    have step: "RemoveIf_loop f prev p l = RemoveIf_loop f a r l"
      using r False by (subst RemoveIf_loop.simps) simp
    from Cons.IH[OF r(4-7)] obtain l' p' where
      l': "RemoveIf_loop f a r l = Some l'" "head_node l' = head_node l"
      "next_addr l' = next_addr l" "cells l' a = Some \<lparr>node_value = x, node_next = p'\<rparr>"
      "chain (cells l') p' (filter (\<lambda>n. \<not> f (snd n)) ns) None"
      "dom (cells l') = dom (cells l) - fst ` {n \<in> set ns. f (snd n)}"
      "\<forall>b. b \<noteq> a \<longrightarrow> b \<notin> fst ` set ns \<longrightarrow> cells l' b = cells l b" by blast
    have "{n \<in> set (m # ns). f (snd n)} = {n \<in> set ns. f (snd n)}" using False m by auto
    with l' step False m r Cons.prems(1) show ?thesis
      by (intro exI[of _ l'] exI[of _ "Some a"]) auto
  qed
qed

section \<open>Refinement of the operations on sequences\<close>

lemma InsertFront_holds:
  assumes "holds l xs"
  shows "\<exists>l'. InsertFront v l = Some l' \<and> holds l' (v # xs)"
proof -
  obtain h d p ns where h: "head_node l = Some h"
    "cells l h = Some \<lparr>node_value = d, node_next = p\<rparr>" "chain (cells l) p ns None"
    "h \<notin> fst ` set ns" "distinct (map fst ns)" "map snd ns = xs"
    "dom (cells l) = insert h (fst ` set ns)" "cells l (next_addr l) = None"
    "next_addr l \<noteq> h" "next_addr l \<notin> fst ` set ns" using assms by (rule holds_cases)
  let ?a = "next_addr l"
  let ?l = "l\<lparr>cells := (cells l)(?a \<mapsto> \<lparr>node_value = v, node_next = p\<rparr>,
                h \<mapsto> \<lparr>node_value = d, node_next = Some ?a\<rparr>), next_addr := Suc ?a\<rparr>"
  have "InsertFront v l = Some ?l" using h
    by (simp add: InsertFront_def new_node_def set_next_def Let_def)
  moreover have "holds ?l (v # xs)" using h holds_bound[OF assms]
    by (intro holdsI[where ns = "(?a, v) # ns"]) (auto simp: less_Suc_eq)
  ultimately show ?thesis by blast
qed

lemma InsertTail_holds:
  assumes "holds l xs"
  shows "\<exists>l'. InsertTail v l = Some l' \<and> holds l' (xs @ [v])"
proof -
  obtain h d ns where h: "head_node l = Some h" "chain (cells l) (Some h) ((h, d) # ns) None"
    "distinct (h # map fst ns)" "map snd ns = xs" "dom (cells l) = insert h (fst ` set ns)"
    "\<forall>a \<in> dom (cells l). a < next_addr l" using assms unfolding holds_def by blast
  obtain ms t x where ms: "(h, d) # ns = ms @ [(t, x)]"
    by (metis append_butlast_last_id list.distinct(1) prod.exhaust)
  let ?a = "next_addr l"
  let ?c = "(cells l)(?a \<mapsto> \<lparr>node_value = v, node_next = None\<rparr>)"
  let ?d = "?c(t \<mapsto> \<lparr>node_value = x, node_next = Some ?a\<rparr>)"
  let ?k = "l\<lparr>cells := ?c, next_addr := Suc ?a\<rparr>"
  have dom: "dom (cells l) = fst ` set (ms @ [(t, x)])" using h(5) by (simp flip: ms)
  have a: "?a \<notin> fst ` set (ms @ [(t, x)])" using h(6) unfolding dom by blast
  have dst: "distinct (map fst (ms @ [(t, x)]))" using h(3) by (simp flip: ms)
  have ch: "chain ?c (Some h) (ms @ [(t, x)]) None" using h(2) a by (simp flip: ms)
  then have last: "last_node h ?k = Some t" by (intro last_node_chain[of _ _ ms]) simp
  from ch have t: "chain ?c (Some h) ms (Some t)" "?c t = Some \<lparr>node_value = x, node_next = None\<rparr>"
    by (auto simp: chain_append)
  have "InsertTail v l = Some (?k\<lparr>cells := ?d\<rparr>)" using h(1) last t(2)
    by (simp add: InsertTail_def new_node_def set_next_def Let_def)
  moreover have "chain ?d (Some h) (ms @ [(t, x), (?a, v)]) None"
    using t a dst by (auto simp: chain_append)
  then have ch': "chain ?d (Some h) ((h, d) # ns @ [(?a, v)]) None"
    using ms by (metis append.assoc append_Cons append_Nil)
  have "dom ?d = insert ?a (insert h (fst ` set ns))" using dom h(5) by auto
  then have "holds (?k\<lparr>cells := ?d\<rparr>) (xs @ [v])"
    using h a ms ch' unfolding holds_def
    by (intro exI[of _ h] exI[of _ d] exI[of _ "ns @ [(?a, v)]"])
       (auto simp: less_Suc_eq simp del: chain.simps fun_upd_apply)
  ultimately show ?thesis by blast
qed

lemma RemoveIf_holds:
  assumes "holds l xs"
  shows "\<exists>l'. RemoveIf f l = Some l' \<and> holds l' (filter (\<lambda>x. \<not> f x) xs)"
proof -
  obtain h d p ns where h: "head_node l = Some h"
    "cells l h = Some \<lparr>node_value = d, node_next = p\<rparr>" "chain (cells l) p ns None"
    "h \<notin> fst ` set ns" "distinct (map fst ns)" "map snd ns = xs"
    "dom (cells l) = insert h (fst ` set ns)" using assms by (rule holds_cases)
  from RemoveIf_loop_chain[OF h(2-5), of f] obtain l' p' where
    l': "RemoveIf_loop f h p l = Some l'" "head_node l' = head_node l" "next_addr l' = next_addr l"
    "cells l' h = Some \<lparr>node_value = d, node_next = p'\<rparr>"
    "chain (cells l') p' (filter (\<lambda>n. \<not> f (snd n)) ns) None"
    "dom (cells l') = dom (cells l) - fst ` {n \<in> set ns. f (snd n)}" by blast
  have "fst ` set ns - fst ` {n \<in> set ns. f (snd n)} = fst ` {n \<in> set ns. \<not> f (snd n)}"
    using h(5) by (auto simp: distinct_map inj_on_def)
  then have "dom (cells l') = insert h (fst ` set (filter (\<lambda>n. \<not> f (snd n)) ns))"
    using l'(6) h(4,7) by auto
  then have "holds l' (filter (\<lambda>x. \<not> f x) xs)" using h l' holds_bound[OF assms]
    by (intro holdsI[where ns = "filter (\<lambda>n. \<not> f (snd n)) ns" and p = p'])
       (auto simp: distinct_map_filter filter_map comp_def)
  then show ?thesis using h(1,2) l'(1) by (auto simp: RemoveIf_def)
qed

lemma Clear_holds:
  assumes "holds l xs"
  shows "\<exists>l'. LinkedList_Clear l = Some l' \<and> holds l' []"
proof -
  obtain h d p ns where h: "head_node l = Some h"
    "cells l h = Some \<lparr>node_value = d, node_next = p\<rparr>" "chain (cells l) p ns None"
    "h \<notin> fst ` set ns" "distinct (map fst ns)"
    "dom (cells l) = insert h (fst ` set ns)" using assms by (rule holds_cases)
  let ?l = "l\<lparr>cells := (cells l |` (- fst ` set ns))(h \<mapsto> \<lparr>node_value = d, node_next = None\<rparr>)\<rparr>"
  have "LinkedList_Clear l = Some ?l"
    using h by (simp add: LinkedList_Clear_def Clear_loop_chain set_next_def)
  moreover have "holds ?l []" using h holds_bound[OF assms]
    by (intro holdsI[where ns = "[]"]) auto
  ultimately show ?thesis by blast
qed

lemma FindExist_holds: "holds l xs \<Longrightarrow> FindExist_if f l = Some (\<exists>x \<in> set xs. f x)"
  by (erule holds_cases) (force simp: FindExist_if_def FindExist_loop_chain)

lemma ForEach_holds: "holds l xs \<Longrightarrow> LinkedList_ForEach f l s = Some (fold f xs s)"
  by (erule holds_cases) (auto simp: LinkedList_ForEach_def ForEach_loop_chain)

lemma delete_holds:
  assumes "holds l xs"
  shows "\<exists>l'. LinkedList_delete l = Some l' \<and> cells l' = Map.empty \<and> head_node l' = None"
proof -
  obtain k where k: "LinkedList_Clear l = Some k" "holds k []" using Clear_holds[OF assms] by blast
  from k(2) obtain h where "head_node k = Some h" "dom (cells k) = {h}"
    by (rule holds_cases) auto
  then show ?thesis using k(1)
    by (auto simp: LinkedList_delete_def delete_node_def dom_eq_singleton_conv)
qed

lemma holds_card: "holds l xs \<Longrightarrow> card (dom (cells l)) = Suc (length xs)"
  by (erule holds_cases) (auto simp: card_image distinct_map distinct_card)

section \<open>The contract of a sequence store\<close>

locale sequence_store =
  fixes stores :: "'l \<Rightarrow> 'a list \<Rightarrow> bool"
    and ins_front :: "'a \<Rightarrow> 'l \<Rightarrow> 'l option"
    and ins_tail :: "'a \<Rightarrow> 'l \<Rightarrow> 'l option"
    and remove_if :: "('a \<Rightarrow> bool) \<Rightarrow> 'l \<Rightarrow> 'l option"
    and exists_if :: "('a \<Rightarrow> bool) \<Rightarrow> 'l \<Rightarrow> bool option"
    and clear_all :: "'l \<Rightarrow> 'l option"
  assumes front_law: "stores l xs \<Longrightarrow> \<exists>l'. ins_front v l = Some l' \<and> stores l' (v # xs)"
    and tail_law: "stores l xs \<Longrightarrow> \<exists>l'. ins_tail v l = Some l' \<and> stores l' (xs @ [v])"
    and remove_law: "stores l xs \<Longrightarrow>
      \<exists>l'. remove_if f l = Some l' \<and> stores l' (filter (\<lambda>x. \<not> f x) xs)"
    and exists_law: "stores l xs \<Longrightarrow> exists_if f l = Some (\<exists>x \<in> set xs. f x)"
    and clear_law: "stores l xs \<Longrightarrow> \<exists>l'. clear_all l = Some l' \<and> stores l' []"
begin

text \<open>
  The use a duplicate filter makes of a store: purge, look up, and record what is not found.
\<close>

lemma purge_then_record:
  assumes "stores l xs"
  shows "\<exists>k l'. remove_if p l = Some k \<and> stores k (filter (\<lambda>x. \<not> p x) xs)
    \<and> exists_if q k = Some (\<exists>x \<in> set xs. \<not> p x \<and> q x)
    \<and> ins_front v k = Some l' \<and> stores l' (v # filter (\<lambda>x. \<not> p x) xs)"
proof -
  from remove_law[OF assms] obtain k where
    k: "remove_if p l = Some k" "stores k (filter (\<lambda>x. \<not> p x) xs)" by blast
  from front_law[OF k(2)] obtain l' where
    "ins_front v k = Some l'" "stores l' (v # filter (\<lambda>x. \<not> p x) xs)" by blast
  with k exists_law[OF k(2)] show ?thesis by auto
qed

lemma record_only:
  assumes "stores l xs"
  shows "\<exists>l'. exists_if q l = Some (\<exists>x \<in> set xs. q x)
    \<and> ins_front v l = Some l' \<and> stores l' (v # xs)"
  using front_law[OF assms] exists_law[OF assms] by blast

end

interpretation ll: sequence_store holds InsertFront InsertTail RemoveIf FindExist_if LinkedList_Clear
  by unfold_locales
     (blast intro: InsertFront_holds InsertTail_holds RemoveIf_holds FindExist_holds Clear_holds)+

section \<open>Sequences of operations\<close>

datatype 'a list_op = Front 'a | Tail 'a | Remove "'a \<Rightarrow> bool" | ClearAll

fun run_op :: "'a list_op \<Rightarrow> 'a LinkedList \<Rightarrow> 'a LinkedList option" where
  "run_op (Front v) l = InsertFront v l"
| "run_op (Tail v) l = InsertTail v l"
| "run_op (Remove f) l = RemoveIf f l"
| "run_op ClearAll l = LinkedList_Clear l"

fun run_ops :: "'a list_op list \<Rightarrow> 'a LinkedList \<Rightarrow> 'a LinkedList option" where
  "run_ops [] l = Some l"
| "run_ops (p # ps) l = (case run_op p l of None \<Rightarrow> None | Some l' \<Rightarrow> run_ops ps l')"

fun seq_op :: "'a list_op \<Rightarrow> 'a list \<Rightarrow> 'a list" where
  "seq_op (Front v) xs = v # xs"
| "seq_op (Tail v) xs = xs @ [v]"
| "seq_op (Remove f) xs = filter (\<lambda>x. \<not> f x) xs"
| "seq_op ClearAll xs = []"

lemma run_op_holds: "holds l xs \<Longrightarrow> \<exists>l'. run_op p l = Some l' \<and> holds l' (seq_op p xs)"
  by (cases p) (auto dest: ll.front_law ll.tail_law ll.remove_law ll.clear_law)

lemma run_ops_holds: "holds l xs \<Longrightarrow> \<exists>l'. run_ops ps l = Some l' \<and> holds l' (fold seq_op ps xs)"
proof (induction ps arbitrary: l xs)
  case (Cons p ps)
  from run_op_holds[OF Cons.prems, of p] obtain k where "run_op p l = Some k" "holds k (seq_op p xs)"
    by blast
  with Cons.IH[OF this(2)] show ?case by auto
qed simp

text \<open>C40: Whatever is inserted at either end, removed by a predicate or cleared, in any order,
  the linked list returns (no loop runs forever, no freed node is followed), and its observers
  answer for the plain sequence that the same operations build: \<open>FindExist\<close> is membership,
  \<open>ForEach\<close> visits the elements once in order. The allocated nodes are the elements and the
  head node, no more: nothing leaks, and the destructor leaves no node behind.\<close>

theorem linked_list_refines:
  "\<exists>l l'. run_ops ps (LinkedList_new d) = Some l
     \<and> FindExist_if f l = Some (\<exists>x \<in> set (fold seq_op ps []). f x)
     \<and> FindExist_value v l = Some (v \<in> set (fold seq_op ps []))
     \<and> LinkedList_ForEach g l s = Some (fold g (fold seq_op ps []) s)
     \<and> card (dom (cells l)) = Suc (length (fold seq_op ps []))
     \<and> LinkedList_delete l = Some l' \<and> cells l' = Map.empty"
proof -
  obtain l where l: "run_ops ps (LinkedList_new d) = Some l" "holds l (fold seq_op ps [])"
    using run_ops_holds[OF LinkedList_new_holds, of ps d] by (elim exE conjE)
  from delete_holds[OF l(2)] obtain l' where "LinkedList_delete l = Some l'" "cells l' = Map.empty"
    by blast
  with l(1) ForEach_holds[OF l(2), of g s] FindExist_holds[OF l(2), of f]
      FindExist_holds[OF l(2), of "\<lambda>x. x = v"] holds_card[OF l(2)] show ?thesis
    by (intro exI[of _ l] exI[of _ l']) (simp add: FindExist_value_def)
qed

end
