(* ===== verification/Dedup.thy ===== *)
theory Dedup
  imports Linked_List
begin

text \<open>
  The duplicate filter of the event reports, \<open>services/dfx/src/pasteboard_deduplicate_memory.h\<close>:
  a linked list of data with the time each was first seen, purged of what is older than the
  expiration window before every query. The clock is an argument: one query reads it twice,
  in \<open>ClearExpiration\<close> and before it records. The filter is a client of the contract
  \<open>sequence_store\<close>; its lemmas use the interpretation of that contract on the linked list.
\<close>

record 'd MemoryIdentity =
  timestamp :: int
  mem_data :: 'd

record 'd DeduplicateMemory =
  memory :: "'d MemoryIdentity LinkedList"
  expirationMS :: int

definition DeduplicateMemory_new :: "'d \<Rightarrow> int \<Rightarrow> 'd DeduplicateMemory" where
  "DeduplicateMemory_new dflt ms =
     \<lparr>memory = LinkedList_new \<lparr>timestamp = 0, mem_data = dflt\<rparr>, expirationMS = ms\<rparr>"

definition ClearExpiration :: "int \<Rightarrow> 'd DeduplicateMemory \<Rightarrow> 'd DeduplicateMemory option" where
  "ClearExpiration now m =
     (if now < expirationMS m then Some m
      else let expirationTimestamp = now - expirationMS m
           in case RemoveIf (\<lambda>i. expirationTimestamp > timestamp i) (memory m) of
                None \<Rightarrow> None
              | Some l \<Rightarrow> Some (m\<lparr>memory := l\<rparr>))"

definition dedup_FindExist :: "'d \<Rightarrow> 'd DeduplicateMemory \<Rightarrow> bool option" where
  "dedup_FindExist d m = FindExist_if (\<lambda>i. mem_data i = d) (memory m)"

definition IsDuplicate ::
    "int \<Rightarrow> int \<Rightarrow> 'd \<Rightarrow> 'd DeduplicateMemory \<Rightarrow> (bool \<times> 'd DeduplicateMemory) option" where
  "IsDuplicate now now' d m = (case ClearExpiration now m of
      None \<Rightarrow> None
    | Some m1 \<Rightarrow> (case dedup_FindExist d m1 of
        None \<Rightarrow> None
      | Some True \<Rightarrow> Some (True, m1)
      | Some False \<Rightarrow>
          (case InsertFront \<lparr>timestamp = now', mem_data = d\<rparr> (memory m1) of
             None \<Rightarrow> None
           | Some l \<Rightarrow> Some (False, m1\<lparr>memory := l\<rparr>))))"

section \<open>One query\<close>

definition alive :: "int \<Rightarrow> int \<Rightarrow> 'd MemoryIdentity \<Rightarrow> bool" where
  "alive ms now i \<longleftrightarrow> now < ms \<or> now - ms \<le> timestamp i"

definition remembered :: "int \<Rightarrow> int \<Rightarrow> 'd \<Rightarrow> 'd MemoryIdentity list \<Rightarrow> bool" where
  "remembered ms now d xs \<longleftrightarrow> (\<exists>i \<in> set xs. alive ms now i \<and> mem_data i = d)"

definition remember ::
    "int \<Rightarrow> int \<times> int \<times> 'd \<Rightarrow> 'd MemoryIdentity list \<Rightarrow> 'd MemoryIdentity list" where
  "remember ms q xs = (case q of (now, now', d) \<Rightarrow>
     (if remembered ms now d xs then [] else [\<lparr>timestamp = now', mem_data = d\<rparr>])
       @ filter (alive ms now) xs)"

lemma IsDuplicate_step:
  assumes "holds (memory m) xs" "ms = expirationMS m"
  shows "\<exists>m'. IsDuplicate now now' d m = Some (remembered ms now d xs, m')
    \<and> holds (memory m') (remember ms (now, now', d) xs) \<and> expirationMS m' = ms"
proof (cases "now < ms")
  case True
  then have [simp]: "filter (alive ms now) xs = xs" by (simp add: alive_def filter_True)
  from ll.record_only[OF assms(1)] obtain l' where
    "InsertFront \<lparr>timestamp = now', mem_data = d\<rparr> (memory m) = Some l'"
    "holds l' (\<lparr>timestamp = now', mem_data = d\<rparr> # xs)" by blast
  with True assms ll.exists_law[OF assms(1)] show ?thesis
    by (auto simp: IsDuplicate_def ClearExpiration_def dedup_FindExist_def remember_def
        remembered_def alive_def split: bool.splits)
next
  case False
  let ?old = "\<lambda>i. now - ms > timestamp i"
  have al: "alive ms now = (\<lambda>i. \<not> ?old i)" using False by (auto simp: alive_def fun_eq_iff)
  from ll.purge_then_record[OF assms(1), of ?old "\<lambda>i. mem_data i = d" "\<lparr>timestamp = now', mem_data = d\<rparr>"]
  obtain k l' where "RemoveIf ?old (memory m) = Some k" "holds k (filter (alive ms now) xs)"
    "FindExist_if (\<lambda>i. mem_data i = d) k = Some (remembered ms now d xs)"
    "InsertFront \<lparr>timestamp = now', mem_data = d\<rparr> k = Some l'"
    "holds l' (\<lparr>timestamp = now', mem_data = d\<rparr> # filter (alive ms now) xs)"
    unfolding al remembered_def by blast
  with False assms(2) show ?thesis
    by (auto simp: IsDuplicate_def ClearExpiration_def dedup_FindExist_def remember_def
        Let_def split: bool.splits)
qed

section \<open>Runs of queries\<close>

text \<open>
  A query is the two clock readings and the data. In a run the clock never goes back
  (\<open>steady_clock\<close>).
\<close>

fun dedup_run ::
    "(int \<times> int \<times> 'd) list \<Rightarrow> 'd DeduplicateMemory \<Rightarrow> (bool list \<times> 'd DeduplicateMemory) option" where
  "dedup_run [] m = Some ([], m)"
| "dedup_run ((now, now', d) # qs) m = (case IsDuplicate now now' d m of
      None \<Rightarrow> None
    | Some (r, m1) \<Rightarrow> (case dedup_run qs m1 of
        None \<Rightarrow> None
      | Some (rs, m2) \<Rightarrow> Some (r # rs, m2)))"

definition steady :: "(int \<times> int \<times> 'd) list \<Rightarrow> bool" where
  "steady qs \<longleftrightarrow> sorted (concat (map (\<lambda>(now, now', d). [now, now']) qs))"

definition mem_at :: "int \<Rightarrow> (int \<times> int \<times> 'd) list \<Rightarrow> nat \<Rightarrow> 'd MemoryIdentity list" where
  "mem_at ms qs k = fold (remember ms) (take k qs) []"

definition verdict :: "int \<Rightarrow> (int \<times> int \<times> 'd) list \<Rightarrow> nat \<Rightarrow> bool" where
  "verdict ms qs k = remembered ms (fst (qs ! k)) (snd (snd (qs ! k))) (mem_at ms qs k)"

definition entry_of :: "int \<times> int \<times> 'd \<Rightarrow> 'd MemoryIdentity" where
  "entry_of q = \<lparr>timestamp = fst (snd q), mem_data = snd (snd q)\<rparr>"

lemma dedup_run_spec:
  assumes "holds (memory m) xs" "ms = expirationMS m"
  shows "\<exists>m'. dedup_run qs m = Some (map (\<lambda>k. remembered ms (fst (qs ! k)) (snd (snd (qs ! k)))
      (fold (remember ms) (take k qs) xs)) [0..<length qs], m')"
  using assms
proof (induction qs arbitrary: m xs)
  case (Cons q qs)
  obtain now now' d where q: "q = (now, now', d)" by (cases q)
  from IsDuplicate_step[OF Cons.prems] obtain m1 where
    m1: "IsDuplicate now now' d m = Some (remembered ms now d xs, m1)"
    "holds (memory m1) (remember ms q xs)" "ms = expirationMS m1" unfolding q by metis
  from Cons.IH[OF m1(2,3)] obtain m' where "dedup_run qs m1 =
    Some (map (\<lambda>k. remembered ms (fst (qs ! k)) (snd (snd (qs ! k)))
      (fold (remember ms) (take k qs) (remember ms q xs))) [0..<length qs], m')" by blast
  with m1(1) show ?case by (simp add: q upt_conv_Cons map_Suc_upt[symmetric] del: upt_Suc)
qed simp

lemma steady_Cons:
  assumes "steady (q # qs)"
  shows "steady qs" "\<forall>r \<in> set qs. fst q \<le> fst r"
proof -
  obtain now now' d where q: "q = (now, now', d)" by (cases q)
  let ?t = "concat (map (\<lambda>(now, now', d). [now, now']) qs)"
  have *: "sorted ?t" "\<forall>x \<in> set ?t. now \<le> x" using assms by (simp_all add: steady_def q)
  then show "steady qs" by (simp add: steady_def)
  show "\<forall>r \<in> set qs. fst q \<le> fst r"
  proof
    fix r assume "r \<in> set qs"
    have "fst r \<in> set (case r of (now, now', d) \<Rightarrow> [now, now'])" by (cases r) simp
    with \<open>r \<in> set qs\<close> have "fst r \<in> set ?t" unfolding set_concat set_map by blast
    with *(2) have "now \<le> fst r" by blast
    then show "fst q \<le> fst r" by (simp add: q)
  qed
qed

lemma steady_order:
  assumes "steady qs" "i < j" "j < length qs"
  shows "fst (qs ! i) \<le> fst (qs ! j)"
  using assms
proof (induction qs arbitrary: i j)
  case (Cons q qs)
  note s = steady_Cons[OF Cons.prems(1)]
  obtain j' where j: "j = Suc j'" using Cons.prems(2) by (cases j) auto
  then have "fst q \<le> fst (qs ! j')" using Cons.prems s(2) by simp
  with Cons.IH[OF s(1), of "i - 1" j'] Cons.prems(2,3) j show ?case by (cases i) simp_all
qed simp

lemma alive_antimono: "alive ms now' i \<Longrightarrow> now \<le> now' \<Longrightarrow> alive ms now i"
  by (auto simp: alive_def)

lemma set_remember:
  "x \<in> set (remember ms q xs) \<longleftrightarrow>
     (x = entry_of q \<and> \<not> remembered ms (fst q) (snd (snd q)) xs) \<or> (x \<in> set xs \<and> alive ms (fst q) x)"
  by (cases q) (auto simp: remember_def entry_of_def)

lemma mem_at_Suc: "k < length qs \<Longrightarrow> mem_at ms qs (Suc k) = remember ms (qs ! k) (mem_at ms qs k)"
  by (simp add: mem_at_def take_Suc_conv_app_nth)

lemma mem_at_alive:
  assumes "k \<le> length qs" "\<forall>i < k. fst (qs ! i) \<le> now" "alive ms now x"
  shows "x \<in> set (mem_at ms qs k) \<longleftrightarrow> (\<exists>i < k. \<not> verdict ms qs i \<and> x = entry_of (qs ! i))"
  using assms
proof (induction k)
  case 0
  then show ?case by (simp add: mem_at_def)
next
  case (Suc k)
  have "alive ms (fst (qs ! k)) x" using Suc.prems by (auto intro: alive_antimono)
  with Suc show ?case
    by (simp add: mem_at_Suc set_remember verdict_def less_Suc_eq) blast
qed

lemma verdict_iff:
  assumes "steady qs" "j < length qs"
  shows "verdict ms qs j \<longleftrightarrow> (\<exists>i < j. \<not> verdict ms qs i \<and> snd (snd (qs ! i)) = snd (snd (qs ! j))
     \<and> (fst (qs ! j) < ms \<or> fst (qs ! j) - ms \<le> fst (snd (qs ! i))))"
proof -
  have "\<forall>i < j. fst (qs ! i) \<le> fst (qs ! j)" using steady_order[OF assms(1) _ assms(2)] by blast
  note mem = mem_at_alive[OF less_imp_le[OF assms(2)] this]
  have "verdict ms qs j \<longleftrightarrow> (\<exists>x. alive ms (fst (qs ! j)) x \<and> mem_data x = snd (snd (qs ! j))
      \<and> x \<in> set (mem_at ms qs j))"
    by (auto simp: verdict_def remembered_def)
  also have "\<dots> \<longleftrightarrow> (\<exists>i < j. \<not> verdict ms qs i \<and> mem_data (entry_of (qs ! i)) = snd (snd (qs ! j))
      \<and> alive ms (fst (qs ! j)) (entry_of (qs ! i)))"
    using mem by blast
  finally show ?thesis by (simp add: entry_of_def alive_def)
qed

text \<open>The duplicate filter, over every run of queries with a clock that does not go back:
  each query is answered, and it is answered "duplicate" exactly if an earlier query for equal
  data was answered "new" and recorded no longer than \<open>expirationMS\<close> before (or the clock
  itself has not reached \<open>expirationMS\<close>). In particular repeated reports do not extend the
  window, and no expired or foreign entry ever suppresses a report.\<close>

theorem dedup_window:
  assumes "steady qs"
  shows "\<exists>rs m'. dedup_run qs (DeduplicateMemory_new dflt ms) = Some (rs, m') \<and> length rs = length qs
     \<and> (\<forall>j < length qs. rs ! j \<longleftrightarrow>
          (\<exists>i < j. \<not> rs ! i \<and> snd (snd (qs ! i)) = snd (snd (qs ! j))
             \<and> (fst (qs ! j) < ms \<or> fst (qs ! j) - ms \<le> fst (snd (qs ! i)))))"
proof -
  let ?rs = "map (verdict ms qs) [0..<length qs]"
  have "\<exists>m'. dedup_run qs (DeduplicateMemory_new dflt ms) = Some (?rs, m')"
    using dedup_run_spec[of "DeduplicateMemory_new dflt ms" "[]" ms qs]
    by (auto simp: DeduplicateMemory_new_def LinkedList_new_holds verdict_def[abs_def] mem_at_def)
  moreover have "\<forall>j < length qs. ?rs ! j \<longleftrightarrow>
      (\<exists>i < j. \<not> ?rs ! i \<and> snd (snd (qs ! i)) = snd (snd (qs ! j))
         \<and> (fst (qs ! j) < ms \<or> fst (qs ! j) - ms \<le> fst (snd (qs ! i))))"
  proof (intro allI impI)
    fix j assume j: "j < length qs"
    have rs: "?rs ! i = verdict ms qs i" if "i \<le> j" for i using that j by simp
    have "(\<exists>i < j. \<not> ?rs ! i \<and> P i) = (\<exists>i < j. \<not> verdict ms qs i \<and> P i)" for P
      using rs by (meson less_imp_le)
    then show "?rs ! j \<longleftrightarrow> (\<exists>i < j. \<not> ?rs ! i \<and> snd (snd (qs ! i)) = snd (snd (qs ! j))
         \<and> (fst (qs ! j) < ms \<or> fst (qs ! j) - ms \<le> fst (snd (qs ! i))))"
      using verdict_iff[OF assms j, of ms] rs[of j] by (simp only: order_refl)
  qed
  moreover have "length ?rs = length qs" by simp
  ultimately show ?thesis by blast
qed

theorem dedup_window_witness:
  "steady [(100, 100, ''a''), (105, 105, ''a''), (120, 121, ''a'')]
   \<and> (\<exists>rs m'. dedup_run [(100, 100, ''a''), (105, 105, ''a''), (120, 121, ''a'')]
        (DeduplicateMemory_new ''b'' 10) = Some (rs, m') \<and> rs = [False, True, False])"
proof -
  let ?qs = "[(100, 100, ''a''), (105, 105, ''a''), (120, 121, ''a'')] :: (int \<times> int \<times> string) list"
  have s: "steady ?qs" by (simp add: steady_def)
  from dedup_window[OF s, of "''b''" 10] obtain rs m' where
    rs: "dedup_run ?qs (DeduplicateMemory_new ''b'' 10) = Some (rs, m')" "length rs = 3"
    and v: "\<forall>j < 3. rs ! j \<longleftrightarrow> (\<exists>i < j. \<not> rs ! i \<and> snd (snd (?qs ! i)) = snd (snd (?qs ! j))
        \<and> (fst (?qs ! j) < 10 \<or> fst (?qs ! j) - 10 \<le> fst (snd (?qs ! i))))" by auto
  have "\<not> rs ! 0" using v by simp
  moreover have "rs ! 1" using v \<open>\<not> rs ! 0\<close> by simp
  moreover have "\<not> rs ! 2" using v[rule_format, of 2] \<open>rs ! 1\<close> by (auto simp: less_2_cases_iff)
  ultimately have "rs = [False, True, False]" using rs(2)
    by (auto simp: list_eq_iff_nth_eq less_Suc_eq numeral_3_eq_3 numeral_2_eq_2)
  with s rs(1) show ?thesis by blast
qed

end
