(* ===== verification/Errors.thy ===== *)
theory Errors
  imports Prelude
begin

text \<open>
  The result codes of \<open>utils/native/include/pasteboard_error.h\<close>: consecutive numbers from a
  base that carries the identifiers of the subsystem and of the module. Only the codes the
  modelled operations return are named.
\<close>

unbundle bit_operations_syntax

definition err_base :: i32 where
  "err_base = push_bit 21 13 OR push_bit 16 8"

definition E_OK :: i32 where "E_OK = err_base"
definition INVALID_RETURN_VALUE_ERROR :: i32 where "INVALID_RETURN_VALUE_ERROR = err_base + 1"
definition INVALID_PARAM_ERROR :: i32 where "INVALID_PARAM_ERROR = err_base + 2"
definition SERIALIZATION_ERROR :: i32 where "SERIALIZATION_ERROR = err_base + 3"
definition DESERIALIZATION_ERROR :: i32 where "DESERIALIZATION_ERROR = err_base + 4"
definition PERMISSION_VERIFICATION_ERROR :: i32 where "PERMISSION_VERIFICATION_ERROR = err_base + 8"
definition PARAM_ERROR :: i32 where "PARAM_ERROR = err_base + 9"
definition TASK_PROCESSING :: i32 where "TASK_PROCESSING = err_base + 13"
definition PROHIBIT_COPY :: i32 where "PROHIBIT_COPY = err_base + 14"
definition INVALID_DATA_ERROR :: i32 where "INVALID_DATA_ERROR = err_base + 18"
definition NO_DATA_ERROR :: i32 where "NO_DATA_ERROR = err_base + 19"
definition INVALID_USERID_ERROR :: i32 where "INVALID_USERID_ERROR = err_base + 20"
definition CROSS_BORDER_ERROR :: i32 where "CROSS_BORDER_ERROR = err_base + 7"
definition INVALID_OPERATION_ERROR :: i32 where "INVALID_OPERATION_ERROR = err_base + 29"
definition NO_DELAY_GETTER :: i32 where "NO_DELAY_GETTER = err_base + 39"
definition NOT_SUPPORT :: i32 where "NOT_SUPPORT = err_base + 66"
definition ADD_OBSERVER_FAILED :: i32 where "ADD_OBSERVER_FAILED = err_base + 67"
definition INVALID_DATA_SIZE :: i32 where "INVALID_DATA_SIZE = err_base + 68"
definition DATA_EXPIRED_ERROR :: i32 where "DATA_EXPIRED_ERROR = err_base + 33"
definition TIMEOUT_ERROR :: i32 where "TIMEOUT_ERROR = err_base + 10"
definition REMOTE_EXCEPTION :: i32 where "REMOTE_EXCEPTION = err_base + 17"
definition REMOTE_TASK_ERROR :: i32 where "REMOTE_TASK_ERROR = err_base + 21"
definition INVALID_EVENT_ERROR :: i32 where "INVALID_EVENT_ERROR = err_base + 22"
definition GET_REMOTE_DATA_ERROR :: i32 where "GET_REMOTE_DATA_ERROR = err_base + 23"
definition NO_USER_DATA_ERROR :: i32 where "NO_USER_DATA_ERROR = err_base + 32"
definition PLUGIN_IS_NULL :: i32 where "PLUGIN_IS_NULL = err_base + 40"
definition PLUGIN_EVENT_EMPTY :: i32 where "PLUGIN_EVENT_EMPTY = err_base + 41"
definition GET_LOCAL_DATA :: i32 where "GET_LOCAL_DATA = err_base + 42"
definition INVALID_EVENT_ACCOUNT :: i32 where "INVALID_EVENT_ACCOUNT = err_base + 43"
definition INVALID_EVENT_STATUS :: i32 where "INVALID_EVENT_STATUS = err_base + 44"
definition GET_ENTRY_VALUE_FAILED :: i32 where "GET_ENTRY_VALUE_FAILED = err_base + 51"
definition INVALID_DATA_ID :: i32 where "INVALID_DATA_ID = err_base + 53"
definition INVALID_RECORD_ID :: i32 where "INVALID_RECORD_ID = err_base + 54"
definition INVALID_MIMETYPE :: i32 where "INVALID_MIMETYPE = err_base + 55"
definition GET_SAME_REMOTE_DATA :: i32 where "GET_SAME_REMOTE_DATA = err_base + 62"
definition GET_BOOTTIME_FAILED :: i32 where "GET_BOOTTIME_FAILED = err_base + 65"
definition REMOTE_DATA_SIZE_EXCEEDED :: i32 where "REMOTE_DATA_SIZE_EXCEEDED = err_base + 71"
definition OBTAIN_SERVER_SA_ERROR :: i32 where "OBTAIN_SERVER_SA_ERROR = err_base + 5"
definition OTHER_ERROR :: i32 where "OTHER_ERROR = err_base + 6"
definition CANCELED :: i32 where "CANCELED = err_base + 11"
definition EXCEEDING_LIMIT_EXCEPTION :: i32 where "EXCEEDING_LIMIT_EXCEPTION = err_base + 12"
definition UNKNOWN_ERROR :: i32 where "UNKNOWN_ERROR = err_base + 15"
definition BACKUP_EXCEPTION :: i32 where "BACKUP_EXCEPTION = err_base + 16"
definition SEND_BROADCAST_ERROR :: i32 where "SEND_BROADCAST_ERROR = err_base + 24"
definition SYNC_DATA_ERROR :: i32 where "SYNC_DATA_ERROR = err_base + 25"
definition URI_GRANT_ERROR :: i32 where "URI_GRANT_ERROR = err_base + 26"
definition DP_LOAD_SERVICE_ERROR :: i32 where "DP_LOAD_SERVICE_ERROR = err_base + 27"
definition INVALID_OPTION_ERROR :: i32 where "INVALID_OPTION_ERROR = err_base + 28"
definition BUTT_ERROR :: i32 where "BUTT_ERROR = err_base + 30"
definition NO_TRUST_DEVICE_ERROR :: i32 where "NO_TRUST_DEVICE_ERROR = err_base + 31"
definition CREATE_DATASHARE_SERVICE_ERROR :: i32 where "CREATE_DATASHARE_SERVICE_ERROR = err_base + 34"
definition QUERY_SETTING_NO_DATA_ERROR :: i32 where "QUERY_SETTING_NO_DATA_ERROR = err_base + 35"
definition GET_LOCAL_DEVICE_ID_ERROR :: i32 where "GET_LOCAL_DEVICE_ID_ERROR = err_base + 36"
definition LOCAL_SWITCH_NOT_TURNED_ON :: i32 where "LOCAL_SWITCH_NOT_TURNED_ON = err_base + 37"
definition DATA_ENCODE_ERROR :: i32 where "DATA_ENCODE_ERROR = err_base + 38"
definition PROGRESS_PASTE_TIME_OUT :: i32 where "PROGRESS_PASTE_TIME_OUT = err_base + 45"
definition PROGRESS_CANCEL_PASTE :: i32 where "PROGRESS_CANCEL_PASTE = err_base + 46"
definition COPY_FILE_ERROR :: i32 where "COPY_FILE_ERROR = err_base + 47"
definition PROGRESS_START_ERROR :: i32 where "PROGRESS_START_ERROR = err_base + 48"
definition PROGRESS_ABNORMAL :: i32 where "PROGRESS_ABNORMAL = err_base + 49"
definition PRPGRESS_CANCEL_SUCCESS :: i32 where "PRPGRESS_CANCEL_SUCCESS = err_base + 50"
definition REBUILD_HTML_FAILED :: i32 where "REBUILD_HTML_FAILED = err_base + 52"
definition MALLOC_FAILED :: i32 where "MALLOC_FAILED = err_base + 56"
definition GET_SAMGR_FAILED :: i32 where "GET_SAMGR_FAILED = err_base + 57"
definition RESOURCE_APPLY_TIMEOUT :: i32 where "RESOURCE_APPLY_TIMEOUT = err_base + 58"
definition RESOURCE_APPLYING :: i32 where "RESOURCE_APPLYING = err_base + 59"
definition RESOURCE_APPLY_NOT_FIND :: i32 where "RESOURCE_APPLY_NOT_FIND = err_base + 60"
definition CHECK_DESCRIPTOR_ERROR :: i32 where "CHECK_DESCRIPTOR_ERROR = err_base + 61"
definition DLOPEN_FAILED :: i32 where "DLOPEN_FAILED = err_base + 63"
definition GET_BUNDLE_MGR_FAILED :: i32 where "GET_BUNDLE_MGR_FAILED = err_base + 64"
definition INVALID_TOKEN_ID_ERROR :: i32 where "INVALID_TOKEN_ID_ERROR = err_base + 69"
definition INVALID_URI_ERROR :: i32 where "INVALID_URI_ERROR = err_base + 70"

lemmas err_defs = E_OK_def INVALID_RETURN_VALUE_ERROR_def INVALID_PARAM_ERROR_def
  SERIALIZATION_ERROR_def DESERIALIZATION_ERROR_def PERMISSION_VERIFICATION_ERROR_def
  PARAM_ERROR_def TASK_PROCESSING_def PROHIBIT_COPY_def INVALID_DATA_ERROR_def NO_DATA_ERROR_def
  INVALID_USERID_ERROR_def DATA_EXPIRED_ERROR_def CROSS_BORDER_ERROR_def INVALID_OPERATION_ERROR_def
  NO_DELAY_GETTER_def NOT_SUPPORT_def ADD_OBSERVER_FAILED_def INVALID_DATA_SIZE_def
  TIMEOUT_ERROR_def REMOTE_EXCEPTION_def REMOTE_TASK_ERROR_def INVALID_EVENT_ERROR_def GET_REMOTE_DATA_ERROR_def NO_USER_DATA_ERROR_def
  PLUGIN_IS_NULL_def PLUGIN_EVENT_EMPTY_def GET_LOCAL_DATA_def INVALID_EVENT_ACCOUNT_def INVALID_EVENT_STATUS_def GET_ENTRY_VALUE_FAILED_def
  INVALID_DATA_ID_def INVALID_RECORD_ID_def INVALID_MIMETYPE_def GET_SAME_REMOTE_DATA_def GET_BOOTTIME_FAILED_def REMOTE_DATA_SIZE_EXCEEDED_def
  OBTAIN_SERVER_SA_ERROR_def OTHER_ERROR_def CANCELED_def EXCEEDING_LIMIT_EXCEPTION_def
  UNKNOWN_ERROR_def BACKUP_EXCEPTION_def SEND_BROADCAST_ERROR_def SYNC_DATA_ERROR_def
  URI_GRANT_ERROR_def DP_LOAD_SERVICE_ERROR_def INVALID_OPTION_ERROR_def BUTT_ERROR_def
  NO_TRUST_DEVICE_ERROR_def CREATE_DATASHARE_SERVICE_ERROR_def QUERY_SETTING_NO_DATA_ERROR_def GET_LOCAL_DEVICE_ID_ERROR_def
  LOCAL_SWITCH_NOT_TURNED_ON_def DATA_ENCODE_ERROR_def PROGRESS_PASTE_TIME_OUT_def PROGRESS_CANCEL_PASTE_def
  COPY_FILE_ERROR_def PROGRESS_START_ERROR_def PROGRESS_ABNORMAL_def PRPGRESS_CANCEL_SUCCESS_def
  REBUILD_HTML_FAILED_def MALLOC_FAILED_def GET_SAMGR_FAILED_def RESOURCE_APPLY_TIMEOUT_def
  RESOURCE_APPLYING_def RESOURCE_APPLY_NOT_FIND_def CHECK_DESCRIPTOR_ERROR_def DLOPEN_FAILED_def
  GET_BUNDLE_MGR_FAILED_def INVALID_TOKEN_ID_ERROR_def INVALID_URI_ERROR_def

lemma E_OK_code: "E_OK = 27787264"
  by (simp add: E_OK_def err_base_def)

lemma errors_distinct:
  "distinct [E_OK, INVALID_RETURN_VALUE_ERROR, INVALID_PARAM_ERROR, SERIALIZATION_ERROR,
     DESERIALIZATION_ERROR, PERMISSION_VERIFICATION_ERROR, PARAM_ERROR, TASK_PROCESSING,
     PROHIBIT_COPY, INVALID_DATA_ERROR, NO_DATA_ERROR, INVALID_USERID_ERROR, DATA_EXPIRED_ERROR,
     CROSS_BORDER_ERROR, INVALID_OPERATION_ERROR, NO_DELAY_GETTER, NOT_SUPPORT, ADD_OBSERVER_FAILED,
     INVALID_DATA_SIZE, TIMEOUT_ERROR, REMOTE_EXCEPTION, REMOTE_TASK_ERROR, INVALID_EVENT_ERROR, GET_REMOTE_DATA_ERROR, NO_USER_DATA_ERROR,
     PLUGIN_IS_NULL, PLUGIN_EVENT_EMPTY, GET_LOCAL_DATA, INVALID_EVENT_ACCOUNT, INVALID_EVENT_STATUS, GET_ENTRY_VALUE_FAILED,
     INVALID_DATA_ID, INVALID_RECORD_ID, INVALID_MIMETYPE, GET_SAME_REMOTE_DATA, GET_BOOTTIME_FAILED, REMOTE_DATA_SIZE_EXCEEDED,
     OBTAIN_SERVER_SA_ERROR, OTHER_ERROR, CANCELED, EXCEEDING_LIMIT_EXCEPTION,
     UNKNOWN_ERROR, BACKUP_EXCEPTION, SEND_BROADCAST_ERROR, SYNC_DATA_ERROR,
     URI_GRANT_ERROR, DP_LOAD_SERVICE_ERROR, INVALID_OPTION_ERROR, BUTT_ERROR,
     NO_TRUST_DEVICE_ERROR, CREATE_DATASHARE_SERVICE_ERROR, QUERY_SETTING_NO_DATA_ERROR, GET_LOCAL_DEVICE_ID_ERROR,
     LOCAL_SWITCH_NOT_TURNED_ON, DATA_ENCODE_ERROR, PROGRESS_PASTE_TIME_OUT, PROGRESS_CANCEL_PASTE,
     COPY_FILE_ERROR, PROGRESS_START_ERROR, PROGRESS_ABNORMAL, PRPGRESS_CANCEL_SUCCESS,
     REBUILD_HTML_FAILED, MALLOC_FAILED, GET_SAMGR_FAILED, RESOURCE_APPLY_TIMEOUT,
     RESOURCE_APPLYING, RESOURCE_APPLY_NOT_FIND, CHECK_DESCRIPTOR_ERROR, DLOPEN_FAILED,
     GET_BUNDLE_MGR_FAILED, INVALID_TOKEN_ID_ERROR, INVALID_URI_ERROR]"
  by (simp add: err_defs)

end
