(* ===== verification/Delay.thy ===== *)
theory Delay
  imports Paste_Data Errors "HOL-Library.Product_Lexorder"
begin

text \<open>
  The delayed entries of paste data, \<open>services/core/src/pasteboard_delay_manager.cpp\<close>: which
  entries of the delayed records are still empty, in which order they are asked for, and how the
  values are fetched from the application that copied, as long as the data stays below the size
  an IPC message can carry. A \<open>shared_ptr\<close> to an entry of the data is its position (record,
  entry); a write through it is a write at that position.
\<close>

record DelayEntryInfo =
  die_priority :: byte
  die_recordId :: u32
  die_entry :: "nat \<times> nat"

type_synonym entry_getter = "u32 \<Rightarrow> PasteDataEntry \<Rightarrow> i32 \<times> PasteDataEntry"

definition entry_at :: "nat \<times> nat \<Rightarrow> PasteData \<Rightarrow> PasteDataEntry option" where
  "entry_at p d = (case p of (i, j) \<Rightarrow>
     if i < length (pd_records d)
     then (case pd_records d ! i of
             None \<Rightarrow> None
           | Some r \<Rightarrow> if j < length (rec_entries r) then rec_entries r ! j else None)
     else None)"

definition set_entry_at :: "nat \<times> nat \<Rightarrow> PasteDataEntry \<Rightarrow> PasteData \<Rightarrow> PasteData" where
  "set_entry_at p e d = (case p of (i, j) \<Rightarrow>
     (case pd_records d ! i of
        None \<Rightarrow> d
      | Some r \<Rightarrow>
          d\<lparr>pd_records := (pd_records d)[i := Some (r\<lparr>rec_entries := (rec_entries r)[j := Some e]\<rparr>)]\<rparr>))"

section \<open>Which entries, in which order\<close>

definition GetEntryPriority :: "ext \<Rightarrow> string \<Rightarrow> byte" where
  "GetEntryPriority E utdId =
     (case map_of [(GetUtdIdFromUtdEnum E (PLAIN_TEXT E), 1), (GetUtdIdFromUtdEnum E (HYPERLINK E), 2),
                   (GetUtdIdFromUtdEnum E (HTML E), 3), (GetUtdIdFromUtdEnum E (FILE_URI E), 4),
                   (GetUtdIdFromUtdEnum E (SYSTEM_DEFINED_PIXEL_MAP E), 5)] utdId of
        Some p \<Rightarrow> p
      | None \<Rightarrow> 255)"

definition info_key :: "DelayEntryInfo \<Rightarrow> byte \<times> u32" where
  "info_key i = (die_priority i, die_recordId i)"

definition SortEntryInfo :: "DelayEntryInfo list \<Rightarrow> DelayEntryInfo list" where
  "SortEntryInfo infos = sort_key info_key infos"

definition is_empty_entry :: "PasteDataEntry option \<Rightarrow> bool" where
  "is_empty_entry e = (case e of None \<Rightarrow> False | Some x \<Rightarrow> ent_value x = VMonostate)"

definition mk_info :: "ext \<Rightarrow> nat \<Rightarrow> PasteDataRecord \<Rightarrow> nat \<times> PasteDataEntry option \<Rightarrow> DelayEntryInfo" where
  "mk_info E i r je = \<lparr>
     die_priority = GetEntryPriority E (case snd je of None \<Rightarrow> [] | Some e \<Rightarrow> ent_utdId e),
     die_recordId = rec_recordId r, die_entry = (i, fst je)\<rparr>"

definition record_infos :: "ext \<Rightarrow> nat \<times> PasteDataRecord option \<Rightarrow> DelayEntryInfo list" where
  "record_infos E ir = (case ir of
      (i, None) \<Rightarrow> []
    | (i, Some r) \<Rightarrow>
        if \<not> rec_isDelay r then []
        else map (mk_info E i r)
               (filter (\<lambda>je. is_empty_entry (snd je)) (List.enumerate 0 (rec_entries r))))"

definition GetAllDelayEntryInfo :: "ext \<Rightarrow> PasteData \<Rightarrow> DelayEntryInfo list" where
  "GetAllDelayEntryInfo E d =
     SortEntryInfo (concat (map (record_infos E) (List.enumerate 0 (pd_records d))))"

definition primary_info :: "ext \<Rightarrow> nat \<times> PasteDataRecord option \<Rightarrow> DelayEntryInfo list" where
  "primary_info E ir = (case ir of
      (i, None) \<Rightarrow> []
    | (i, Some r) \<Rightarrow>
        if \<not> rec_isDelay r then []
        else (case rec_entries r of
                [] \<Rightarrow> []
              | e # _ \<Rightarrow> if is_empty_entry e then [mk_info E i r (0, e)] else []))"

definition GetPrimaryDelayEntryInfo :: "ext \<Rightarrow> PasteData \<Rightarrow> DelayEntryInfo list" where
  "GetPrimaryDelayEntryInfo E d =
     SortEntryInfo (concat (map (primary_info E) (List.enumerate 0 (pd_records d))))"

section \<open>Fetching the values\<close>

text \<open>
  \<open>maxRaw\<close> is \<open>MessageParcelWarp::GetRawDataSize()\<close>. The sizes are 64-bit signed numbers.
\<close>

definition fetch_entry :: "i64 \<Rightarrow> entry_getter \<Rightarrow> DelayEntryInfo \<Rightarrow> PasteData \<Rightarrow> PasteData" where
  "fetch_entry maxRaw getter info d = (case entry_at (die_entry info) d of
      None \<Rightarrow> d
    | Some entry \<Rightarrow>
        if ent_value entry \<noteq> VMonostate then d
        else (let (ret, tmp) = getter (die_recordId info) entry in
              if ret \<noteq> E_OK then d
              else if sint (pd_rawDataSize d + word_of_int (ent_rawDataSize tmp)) < sint maxRaw
              then (set_entry_at (die_entry info)
                      (entry\<lparr>ent_value := ent_value tmp, ent_rawDataSize := ent_rawDataSize tmp\<rparr>) d)
                     \<lparr>pd_rawDataSize := pd_rawDataSize d + word_of_int (ent_rawDataSize tmp)\<rparr>
              else d))"

definition GetLocalEntryValue ::
    "i64 \<Rightarrow> DelayEntryInfo list \<Rightarrow> entry_getter option \<Rightarrow> PasteData \<Rightarrow> PasteData" where
  "GetLocalEntryValue maxRaw infos entryGetter d = (case entryGetter of
      None \<Rightarrow> d
    | Some getter \<Rightarrow> fold (fetch_entry maxRaw getter) infos d)"

section \<open>Positions\<close>

lemma entry_at_upd [simp]: "entry_at p (d\<lparr>pd_rawDataSize := n\<rparr>) = entry_at p d"
  by (simp add: entry_at_def split: prod.split)

lemma rawDataSize_set_entry [simp]: "pd_rawDataSize (set_entry_at p e d) = pd_rawDataSize d"
  by (simp add: set_entry_at_def split: prod.splits option.splits)

lemma entry_at_set:
  assumes "entry_at q d = Some e0"
  shows "entry_at p (set_entry_at q e d) = (if p = q then Some e else entry_at p d)"
  using assms
  by (auto simp: entry_at_def set_entry_at_def nth_list_update split: prod.splits option.splits if_splits)

lemma mem_enumerate0: "(i, x) \<in> set (List.enumerate 0 xs) \<longleftrightarrow> i < length xs \<and> x = xs ! i"
  by (auto simp: in_set_enumerate_eq)

text \<open>The position of an entry that is still to be fetched.\<close>

definition pending :: "PasteData \<Rightarrow> nat \<times> nat \<Rightarrow> bool" where
  "pending d p \<longleftrightarrow> (\<exists>r e. fst p < length (pd_records d) \<and> pd_records d ! fst p = Some r \<and> rec_isDelay r
     \<and> entry_at p d = Some e \<and> ent_value e = VMonostate)"

definition describes :: "ext \<Rightarrow> PasteData \<Rightarrow> DelayEntryInfo \<Rightarrow> bool" where
  "describes E d info \<longleftrightarrow> (\<exists>r e. fst (die_entry info) < length (pd_records d)
     \<and> pd_records d ! fst (die_entry info) = Some r \<and> rec_isDelay r
     \<and> entry_at (die_entry info) d = Some e \<and> ent_value e = VMonostate
     \<and> die_recordId info = rec_recordId r \<and> die_priority info = GetEntryPriority E (ent_utdId e))"

lemma mem_record_infos:
  "info \<in> set (record_infos E (i, o')) \<longleftrightarrow>
     (\<exists>r j e. o' = Some r \<and> rec_isDelay r \<and> j < length (rec_entries r) \<and> rec_entries r ! j = Some e
        \<and> ent_value e = VMonostate \<and> info = mk_info E i r (j, Some e))"
  (is "?l \<longleftrightarrow> ?r")
proof (cases o')
  case (Some r)
  show ?thesis
  proof
    assume ?l
    then obtain j x where "rec_isDelay r" "(j, x) \<in> set (List.enumerate 0 (rec_entries r))"
      "is_empty_entry x" "info = mk_info E i r (j, x)"
      by (auto simp: Some record_infos_def split: if_splits)
    with Some show ?r by (auto simp: mem_enumerate0 is_empty_entry_def split: option.splits)
  next
    assume ?r
    then obtain j e where *: "rec_isDelay r" "j < length (rec_entries r)" "rec_entries r ! j = Some e"
      "ent_value e = VMonostate" "info = mk_info E i r (j, Some e)" using Some by blast
    then have "(j, Some e) \<in> set (List.enumerate 0 (rec_entries r))" "is_empty_entry (Some e)"
      by (simp_all add: mem_enumerate0 is_empty_entry_def)
    with * show ?l by (auto simp: Some record_infos_def)
  qed
qed (simp add: record_infos_def)

lemma record_infos_describes:
  "info \<in> set (concat (map (record_infos E) (List.enumerate 0 (pd_records d)))) \<longleftrightarrow> describes E d info"
proof -
  have "info \<in> set (concat (map (record_infos E) (List.enumerate 0 (pd_records d)))) \<longleftrightarrow>
      (\<exists>i < length (pd_records d). info \<in> set (record_infos E (i, pd_records d ! i)))"
    by (force simp: in_set_enumerate_eq set_concat)
  also have "\<dots> \<longleftrightarrow> describes E d info"
  proof
    assume "\<exists>i < length (pd_records d). info \<in> set (record_infos E (i, pd_records d ! i))"
    then show "describes E d info"
      by (auto simp: mem_record_infos describes_def mk_info_def entry_at_def)
  next
    assume "describes E d info"
    then obtain r e where *: "fst (die_entry info) < length (pd_records d)"
      "pd_records d ! fst (die_entry info) = Some r" "rec_isDelay r"
      "entry_at (die_entry info) d = Some e" "ent_value e = VMonostate"
      "die_recordId info = rec_recordId r" "die_priority info = GetEntryPriority E (ent_utdId e)"
      unfolding describes_def by blast
    have "snd (die_entry info) < length (rec_entries r)" "rec_entries r ! snd (die_entry info) = Some e"
      "info = mk_info E (fst (die_entry info)) r (snd (die_entry info), Some e)"
      using * by (auto simp: entry_at_def mk_info_def split: prod.splits if_splits)
    then show "\<exists>i < length (pd_records d). info \<in> set (record_infos E (i, pd_records d ! i))"
      using * mem_record_infos by blast
  qed
  finally show ?thesis .
qed

lemma primary_info_subset:
  "set (primary_info E ir) = {info \<in> set (record_infos E ir). snd (die_entry info) = 0}"
proof (cases ir)
  case (Pair i o')
  show ?thesis
  proof (cases o')
    case None
    then show ?thesis by (simp add: Pair primary_info_def record_infos_def)
  next
    case (Some r)
    show ?thesis
      by (cases "rec_entries r")
         (auto simp: Pair Some primary_info_def record_infos_def mk_info_def in_set_enumerate_eq
           enumerate_simps)
  qed
qed

lemma positions_distinct_record:
  "distinct (map die_entry (record_infos E (i, o')))"
  "p \<in> die_entry ` set (record_infos E (i, o')) \<Longrightarrow> fst p = i"
proof -
  have d: "distinct (map fst (filter P (List.enumerate 0 xs)))" for P and xs :: "'a list"
    by (rule distinct_map_filter) simp
  have m: "map die_entry (map (mk_info E i r) ks) = map (Pair i) (map fst ks)" for r ks
    by (simp add: mk_info_def)
  show "distinct (map die_entry (record_infos E (i, o')))"
  proof (cases o')
    case (Some r)
    let ?ks = "filter (\<lambda>je. is_empty_entry (snd je)) (List.enumerate 0 (rec_entries r))"
    have "distinct (map die_entry (map (mk_info E i r) ?ks))"
      unfolding m distinct_map[of "Pair i"] using d by (simp add: inj_on_def)
    then show ?thesis by (simp add: Some record_infos_def)
  qed (simp add: record_infos_def)
  show "p \<in> die_entry ` set (record_infos E (i, o')) \<Longrightarrow> fst p = i"
    by (auto simp: record_infos_def mk_info_def split: option.splits if_splits)
qed

lemma positions_distinct:
  "distinct (map die_entry (concat (map (record_infos E) (List.enumerate n rs))))"
proof (induction rs arbitrary: n)
  case (Cons r rs)
  let ?rest = "concat (map (record_infos E) (List.enumerate (Suc n) rs))"
  have "die_entry ` set (record_infos E (n, r)) \<inter> die_entry ` set ?rest = {}"
  proof (rule equals0I)
    fix p assume p: "p \<in> die_entry ` set (record_infos E (n, r)) \<inter> die_entry ` set ?rest"
    then obtain k x where "(k, x) \<in> set (List.enumerate (Suc n) rs)" "p \<in> die_entry ` set (record_infos E (k, x))"
      by auto
    then have "Suc n \<le> k" "fst p = k" by (auto simp: in_set_enumerate_eq mem_record_infos mk_info_def)
    moreover have "fst p = n" using p positions_distinct_record(2) by blast
    ultimately show False by simp
  qed
  with Cons.IH[of "Suc n"] positions_distinct_record(1)[of E n r] show ?case
    by (simp only: enumerate_simps list.map concat.simps map_append distinct_append set_map)
qed simp

lemma sort_positions:
  "distinct (map die_entry (SortEntryInfo infos)) = distinct (map die_entry infos)"
  by (simp add: SortEntryInfo_def distinct_map)

text \<open>The service asks for delayed values in a fixed order and misses none:
  \<open>GetAllDelayEntryInfo\<close> names every empty entry of every delayed record exactly once, with
  the identifier of its record and the priority of its type, ordered by priority and then by
  record; \<open>GetPrimaryDelayEntryInfo\<close> names exactly those of them that come first in their
  record, in the same order.\<close>

theorem delay_infos_complete:
  "sorted (map info_key (GetAllDelayEntryInfo E d))
   \<and> distinct (map die_entry (GetAllDelayEntryInfo E d))
   \<and> (\<forall>info. info \<in> set (GetAllDelayEntryInfo E d) \<longleftrightarrow> describes E d info)
   \<and> die_entry ` set (GetAllDelayEntryInfo E d) = {p. pending d p}
   \<and> sorted (map info_key (GetPrimaryDelayEntryInfo E d))
   \<and> set (GetPrimaryDelayEntryInfo E d) = {info \<in> set (GetAllDelayEntryInfo E d). snd (die_entry info) = 0}"
proof -
  let ?all = "concat (map (record_infos E) (List.enumerate 0 (pd_records d)))"
  have all: "set (GetAllDelayEntryInfo E d) = set ?all"
    by (simp only: GetAllDelayEntryInfo_def SortEntryInfo_def set_sort)
  have mem: "\<forall>info. info \<in> set (GetAllDelayEntryInfo E d) \<longleftrightarrow> describes E d info"
    unfolding all using record_infos_describes by blast
  have prim: "set (GetPrimaryDelayEntryInfo E d) = {info \<in> set ?all. snd (die_entry info) = 0}"
    by (auto simp: GetPrimaryDelayEntryInfo_def SortEntryInfo_def primary_info_subset)
  have "die_entry ` set (GetAllDelayEntryInfo E d) = {p. pending d p}"
  proof (rule set_eqI, rule iffI)
    fix p assume "p \<in> die_entry ` set (GetAllDelayEntryInfo E d)"
    with mem show "p \<in> {p. pending d p}" by (auto simp: describes_def pending_def)
  next
    fix p assume "p \<in> {p. pending d p}"
    then obtain r e where "fst p < length (pd_records d)" "pd_records d ! fst p = Some r"
      "rec_isDelay r" "entry_at p d = Some e" "ent_value e = VMonostate"
      unfolding pending_def by blast
    then have "describes E d \<lparr>die_priority = GetEntryPriority E (ent_utdId e),
        die_recordId = rec_recordId r, die_entry = p\<rparr>" by (simp add: describes_def)
    with mem show "p \<in> die_entry ` set (GetAllDelayEntryInfo E d)"
      by (metis DelayEntryInfo.select_convs(3) imageI)
  qed
  moreover have "distinct (map die_entry (GetAllDelayEntryInfo E d))"
    unfolding GetAllDelayEntryInfo_def sort_positions by (rule positions_distinct)
  ultimately show ?thesis using mem prim
    by (simp add: all GetAllDelayEntryInfo_def GetPrimaryDelayEntryInfo_def SortEntryInfo_def)
qed

section \<open>What fetching changes\<close>

definition filled :: "PasteDataEntry \<Rightarrow> PasteDataEntry \<Rightarrow> PasteDataEntry" where
  "filled e tmp = e\<lparr>ent_value := ent_value tmp, ent_rawDataSize := ent_rawDataSize tmp\<rparr>"

lemma fetch_entry_cases:
  obtains (skip) "fetch_entry maxRaw getter info d = d"
  | (fetch) e tmp where "entry_at (die_entry info) d = Some e" "ent_value e = VMonostate"
      "getter (die_recordId info) e = (E_OK, tmp)"
      "sint (pd_rawDataSize d + word_of_int (ent_rawDataSize tmp)) < sint maxRaw"
      "fetch_entry maxRaw getter info d = (set_entry_at (die_entry info) (filled e tmp) d)
         \<lparr>pd_rawDataSize := pd_rawDataSize d + word_of_int (ent_rawDataSize tmp)\<rparr>"
proof (cases "fetch_entry maxRaw getter info d = d")
  case False
  then obtain e where "entry_at (die_entry info) d = Some e" "ent_value e = VMonostate"
    by (cases "entry_at (die_entry info) d") (auto simp: fetch_entry_def split: if_splits)
  with False show ?thesis
    by (intro fetch[of e "snd (getter (die_recordId info) e)"])
       (auto simp: fetch_entry_def Let_def filled_def split: prod.splits if_splits)
qed (rule skip)

lemma distinct_head_neq: "distinct (map f (x # xs)) \<Longrightarrow> y \<in> set xs \<Longrightarrow> f y \<noteq> f x"
  by (induction xs) auto

lemma fetch_entry_other:
  "p \<noteq> die_entry info \<Longrightarrow> entry_at p (fetch_entry maxRaw getter info d) = entry_at p d"
  by (rule fetch_entry_cases[of maxRaw getter info d]) (simp_all add: entry_at_set)

lemma fetch_all_other:
  "p \<notin> die_entry ` set infos \<Longrightarrow> entry_at p (fold (fetch_entry maxRaw getter) infos d) = entry_at p d"
  by (induction infos arbitrary: d) (simp_all add: fetch_entry_other)

lemma fetch_all_bound:
  "sint (pd_rawDataSize d) < sint maxRaw \<Longrightarrow>
     sint (pd_rawDataSize (fold (fetch_entry maxRaw getter) infos d)) < sint maxRaw"
proof (induction infos arbitrary: d)
  case (Cons info infos)
  have "sint (pd_rawDataSize (fetch_entry maxRaw getter info d)) < sint maxRaw"
    using Cons.prems by (cases rule: fetch_entry_cases[of maxRaw getter info d]) simp_all
  with Cons.IH show ?case by simp
qed simp

lemma fetch_all_at:
  assumes "distinct (map die_entry infos)" "info \<in> set infos"
  shows "entry_at (die_entry info) (fold (fetch_entry maxRaw getter) infos d) = entry_at (die_entry info) d
    \<or> (\<exists>e tmp. entry_at (die_entry info) d = Some e \<and> ent_value e = VMonostate
         \<and> getter (die_recordId info) e = (E_OK, tmp)
         \<and> entry_at (die_entry info) (fold (fetch_entry maxRaw getter) infos d) = Some (filled e tmp))"
  using assms
proof (induction infos arbitrary: d)
  case (Cons i infos)
  show ?case
  proof (cases "info = i")
    case True
    then have "entry_at (die_entry info) (fold (fetch_entry maxRaw getter) (i # infos) d)
        = entry_at (die_entry info) (fetch_entry maxRaw getter info d)"
      using Cons.prems(1) by (simp add: fetch_all_other)
    then show ?thesis
      by (cases rule: fetch_entry_cases[of maxRaw getter info d]) (auto simp: entry_at_set)
  next
    case False
    with Cons.prems have i: "info \<in> set infos" "distinct (map die_entry infos)" by auto
    have ne: "die_entry info \<noteq> die_entry i" using distinct_head_neq[OF Cons.prems(1) i(1)] .
    show ?thesis using Cons.IH[OF i(2,1), of "fetch_entry maxRaw getter i d"]
      by (simp add: fetch_entry_other[OF ne])
  qed
qed simp

text \<open>Fetching delayed values is safe whatever the application answers: the size of the data
  stays below what a message can carry, an entry that already had a value, or that was not asked
  for, is left alone, and an entry that changes takes exactly the value and size of a successful
  answer for its record.\<close>

theorem delay_fetch_safe:
  assumes "distinct (map die_entry infos)" "sint (pd_rawDataSize d) < sint maxRaw"
  shows "sint (pd_rawDataSize (GetLocalEntryValue maxRaw infos getter d)) < sint maxRaw
    \<and> (\<forall>p. entry_at p (GetLocalEntryValue maxRaw infos getter d) = entry_at p d
        \<or> (\<exists>info g e tmp. info \<in> set infos \<and> getter = Some g \<and> p = die_entry info
             \<and> entry_at p d = Some e \<and> ent_value e = VMonostate
             \<and> g (die_recordId info) e = (E_OK, tmp)
             \<and> entry_at p (GetLocalEntryValue maxRaw infos getter d) = Some (filled e tmp)))"
proof (cases getter)
  case None
  then show ?thesis using assms by (simp add: GetLocalEntryValue_def)
next
  case (Some g)
  have "entry_at p (fold (fetch_entry maxRaw g) infos d) = entry_at p d
        \<or> (\<exists>info e tmp. info \<in> set infos \<and> p = die_entry info
             \<and> entry_at p d = Some e \<and> ent_value e = VMonostate \<and> g (die_recordId info) e = (E_OK, tmp)
             \<and> entry_at p (fold (fetch_entry maxRaw g) infos d) = Some (filled e tmp))" for p
  proof (cases "p \<in> die_entry ` set infos")
    case True
    then obtain info where "info \<in> set infos" "p = die_entry info" by blast
    with fetch_all_at[OF assms(1) this(1), of maxRaw g d] show ?thesis by blast
  qed (simp add: fetch_all_other)
  then show ?thesis using fetch_all_bound[OF assms(2)] Some by (simp add: GetLocalEntryValue_def)
qed

definition sample_delay :: PasteData where
  "sample_delay = (new_data sample_params 0)\<lparr>pd_records :=
     [Some ((empty_record sample_ext)\<lparr>rec_isDelay := True, rec_recordId := 1,
        rec_entries := [Some (mk_entry sample_ext ''general.html'' VMonostate),
                        Some (mk_entry sample_ext ''general.plain-text'' VMonostate)]\<rparr>)]\<rparr>"

definition sample_infos :: "DelayEntryInfo list" where
  "sample_infos = [\<lparr>die_priority = 1, die_recordId = 1, die_entry = (0, 1)\<rparr>,
     \<lparr>die_priority = 3, die_recordId = 1, die_entry = (0, 0)\<rparr>]"

definition sample_getter :: entry_getter where
  "sample_getter rid e = (E_OK, e\<lparr>ent_value := VString ''value'', ent_rawDataSize := 5\<rparr>)"

lemmas sample_delay_simps = sample_delay_def sample_infos_def sample_getter_def new_data_def
  empty_record_def entry_at_def

theorem delay_fetch_safe_witness:
  "sint (pd_rawDataSize (GetLocalEntryValue 1000 sample_infos (Some sample_getter) sample_delay)) < 1000"
  using delay_fetch_safe[of sample_infos sample_delay 1000 "Some sample_getter"]
  by (simp add: sample_delay_simps)

lemma fetch_all_complete:
  assumes "distinct (map die_entry infos)" "0 \<le> sint (pd_rawDataSize d)"
    "\<forall>info \<in> set infos. \<exists>e. entry_at (die_entry info) d = Some e \<and> ent_value e = VMonostate
       \<and> fst (g (die_recordId info) e) = E_OK \<and> ent_rawDataSize (snd (g (die_recordId info) e)) = siz info"
    "\<forall>info \<in> set infos. 0 \<le> siz info" "sint (pd_rawDataSize d) + sum_list (map siz infos) < sint maxRaw"
    "info \<in> set infos" "entry_at (die_entry info) d = Some e"
  shows "entry_at (die_entry info) (fold (fetch_entry maxRaw g) infos d)
     = Some (filled e (snd (g (die_recordId info) e)))"
  using assms
proof (induction infos arbitrary: d)
  case (Cons i infos)
  obtain x where x: "entry_at (die_entry i) d = Some x" "ent_value x = VMonostate"
    "fst (g (die_recordId i) x) = E_OK" "ent_rawDataSize (snd (g (die_recordId i) x)) = siz i"
    using Cons.prems(3) by auto
  have nn: "0 \<le> sum_list (map siz infos)" "0 \<le> siz i" using Cons.prems(4)
    by (auto intro!: sum_list_nonneg)
  then have fits: "sint (pd_rawDataSize d) + siz i < sint maxRaw" using Cons.prems(5) by simp
  have ub: "sint maxRaw < 2 ^ 63" using sint_lt[of maxRaw] by simp
  have add: "sint (pd_rawDataSize d + word_of_int (siz i)) = sint (pd_rawDataSize d) + siz i"
    using fits ub nn(2) Cons.prems(2)
    by (subst sint_word_ariths(1)) (simp add: sint_sbintrunc' signed_take_bit_int_eq_self)
  let ?d = "fetch_entry maxRaw g i d"
  have d': "?d = (set_entry_at (die_entry i) (filled x (snd (g (die_recordId i) x))) d)
       \<lparr>pd_rawDataSize := pd_rawDataSize d + word_of_int (siz i)\<rparr>"
    using x add fits
    by (cases "g (die_recordId i) x") (simp add: fetch_entry_def filled_def)
  have other: "die_entry k \<noteq> die_entry i" if "k \<in> set infos" for k
    using distinct_head_neq[OF Cons.prems(1) that] .
  show ?case
  proof (cases "info = i")
    case True
    then have "entry_at (die_entry info) (fold (fetch_entry maxRaw g) (i # infos) d)
        = entry_at (die_entry i) ?d" using Cons.prems(1) by (simp add: fetch_all_other)
    with True x(1) Cons.prems(7) show ?thesis by (simp add: d' entry_at_set)
  next
    case False
    then have i: "info \<in> set infos" using Cons.prems(6) by simp
    have "entry_at (die_entry info) (fold (fetch_entry maxRaw g) infos ?d)
        = Some (filled e (snd (g (die_recordId info) e)))"
    proof (rule Cons.IH)
      show "\<forall>k \<in> set infos. \<exists>e. entry_at (die_entry k) ?d = Some e \<and> ent_value e = VMonostate
          \<and> fst (g (die_recordId k) e) = E_OK \<and> ent_rawDataSize (snd (g (die_recordId k) e)) = siz k"
        using Cons.prems(3) other by (simp add: fetch_entry_other)
      show "entry_at (die_entry info) ?d = Some e" using Cons.prems(7) other[OF i]
        by (simp add: fetch_entry_other)
      show "0 \<le> sint (pd_rawDataSize ?d)" "sint (pd_rawDataSize ?d) + sum_list (map siz infos) < sint maxRaw"
        using Cons.prems(2,5) nn(2) by (simp_all add: d' add)
    qed (use Cons.prems i in auto)
    then show ?thesis by simp
  qed
qed simp

text \<open>Nothing is left empty that could be fetched: if the application answers every request
  and the values together fit, every entry asked for has the value it answered.\<close>

theorem delay_fetch_complete:
  assumes "distinct (map die_entry infos)" "0 \<le> sint (pd_rawDataSize d)"
    "\<forall>info \<in> set infos. \<exists>e. entry_at (die_entry info) d = Some e \<and> ent_value e = VMonostate
       \<and> fst (g (die_recordId info) e) = E_OK
       \<and> ent_rawDataSize (snd (g (die_recordId info) e)) = siz info \<and> 0 \<le> siz info"
    "sint (pd_rawDataSize d) + sum_list (map siz infos) < sint maxRaw"
    "info \<in> set infos" "entry_at (die_entry info) d = Some e"
  shows "entry_at (die_entry info) (GetLocalEntryValue maxRaw infos (Some g) d)
     = Some (filled e (snd (g (die_recordId info) e)))"
proof -
  have "\<forall>info \<in> set infos. \<exists>e. entry_at (die_entry info) d = Some e \<and> ent_value e = VMonostate
      \<and> fst (g (die_recordId info) e) = E_OK \<and> ent_rawDataSize (snd (g (die_recordId info) e)) = siz info"
    "\<forall>info \<in> set infos. 0 \<le> siz info" using assms(3) by blast+
  from fetch_all_complete[OF assms(1,2) this assms(4-6)] show ?thesis
    by (simp add: GetLocalEntryValue_def)
qed

theorem delay_fetch_complete_witness:
  "map_option ent_value (entry_at (0, 0) (GetLocalEntryValue 1000 sample_infos (Some sample_getter) sample_delay))
     = Some (VString ''value'')"
proof -
  let ?e = "mk_entry sample_ext ''general.html'' VMonostate"
  have "entry_at (0, 0) (GetLocalEntryValue 1000 sample_infos (Some sample_getter) sample_delay)
     = Some (filled ?e (snd (sample_getter 1 ?e)))"
    using delay_fetch_complete[of sample_infos sample_delay sample_getter "\<lambda>_. 5" 1000
        "\<lparr>die_priority = 3, die_recordId = 1, die_entry = (0, 0)\<rparr>" ?e]
    by (simp add: sample_delay_simps mk_entry_def)
  then show ?thesis by (simp add: filled_def sample_getter_def)
qed

end
