(* ===== verification/Disposable.thy ===== *)
theory Disposable
  imports Delay "HOL-Library.Multiset"
begin

text \<open>
  The one-shot text observers of \<open>services/core/src/pasteboard_disposable_manager.cpp\<close>. An
  input helper registers an observer for the text that is copied next in a given window; the
  next copy answers every registered observer once and forgets it. Notifications are values:
  the observer, the text and the result code of \<open>OnTextReceived\<close>. The thread that answers the
  matching observers is the operation \<open>ProcessMatchedInfo\<close>, run with the list handed to it.
\<close>

type_synonym observer = nat
type_synonym notice = "observer \<times> string \<times> i32"

record DisposableInfo =
  di_pid :: i32
  di_tokenId :: u32
  di_type :: u32
  di_maxLen :: u32
  di_targetWindowId :: i32
  di_observer :: "observer option"

definition DISPOSABLE_PLAIN_TEXT :: u32 where "DISPOSABLE_PLAIN_TEXT = 0"
definition DISPOSABLE_MAX :: u32 where "DISPOSABLE_MAX = 1"

definition ERR_OK :: i32 where "ERR_OK = 0"
definition ERR_TIMEOUT :: i32 where "ERR_TIMEOUT = 1"
definition ERR_NO_PERMISSION :: i32 where "ERR_NO_PERMISSION = 2"
definition ERR_TYPE_NOT_SUPPORT :: i32 where "ERR_TYPE_NOT_SUPPORT = 3"
definition ERR_TARGET_MISMATCH :: i32 where "ERR_TARGET_MISMATCH = 4"
definition ERR_LENGTH_MISMATCH :: i32 where "ERR_LENGTH_MISMATCH = 5"
definition ERR_NO_TEXT :: i32 where "ERR_NO_TEXT = 6"
definition ERR_DATA_IN_APP :: i32 where "ERR_DATA_IN_APP = 7"

lemmas obs_err_defs = ERR_OK_def ERR_TIMEOUT_def ERR_NO_PERMISSION_def ERR_TYPE_NOT_SUPPORT_def
  ERR_TARGET_MISMATCH_def ERR_LENGTH_MISMATCH_def ERR_NO_TEXT_def ERR_DATA_IN_APP_def

section \<open>Registration\<close>

text \<open>\<open>granted\<close> is the check of the permission to read the pasteboard for a token.\<close>

definition AddDisposableInfo ::
    "(u32 \<Rightarrow> bool) \<Rightarrow> DisposableInfo \<Rightarrow> DisposableInfo list \<Rightarrow> i32 \<times> DisposableInfo list" where
  "AddDisposableInfo granted info infos =
     (if di_observer info = None then (INVALID_PARAM_ERROR, infos)
      else if \<not> (0 \<le> sint (di_type info) \<and> sint (di_type info) < sint DISPOSABLE_MAX)
      then (INVALID_PARAM_ERROR, infos)
      else if \<not> granted (di_tokenId info) then (PERMISSION_VERIFICATION_ERROR, infos)
      else (E_OK, case split_first (\<lambda>i. di_pid i = di_pid info) infos of
              None \<Rightarrow> infos @ [info]
            | Some (pre, _, post) \<Rightarrow> pre @ info # post))"

definition RemoveDisposableInfo ::
    "i32 \<Rightarrow> bool \<Rightarrow> DisposableInfo list \<Rightarrow> notice list \<times> DisposableInfo list" where
  "RemoveDisposableInfo pid needNotify infos =
     (case split_first (\<lambda>i. di_pid i = pid) infos of
        None \<Rightarrow> ([], infos)
      | Some (pre, i, post) \<Rightarrow>
          ((if needNotify
            then (case di_observer i of None \<Rightarrow> [] | Some obs \<Rightarrow> [(obs, [], ERR_TIMEOUT)])
            else []), pre @ post))"

section \<open>The text of the data\<close>

text \<open>An entry the getter fills in is an object of its record: the value is written there.\<close>

definition write_back :: "PasteDataEntry \<Rightarrow> PasteDataEntry \<Rightarrow> PasteDataRecord \<Rightarrow> PasteDataRecord" where
  "write_back old new r = (case split_first (\<lambda>x. x = Some old) (rec_entries r) of
      None \<Rightarrow> r
    | Some (pre, _, post) \<Rightarrow> r\<lparr>rec_entries := pre @ Some new # post\<rparr>)"

definition record_text :: "ext \<Rightarrow> client \<Rightarrow> bool \<Rightarrow> entry_getter option \<Rightarrow> PasteDataRecord \<Rightarrow>
    (string \<times> PasteDataRecord) run" where
  "record_text E env delayRecord entryGetter r = do {
     (entry, r1) \<leftarrow> GetEntryByMimeType E env MIMETYPE_TEXT_PLAIN r;
     case entry of
       None \<Rightarrow> Some ([], r1)
     | Some e \<Rightarrow> do {
         has \<leftarrow> (if delayRecord \<and> entryGetter \<noteq> None then HasContent E (ent_utdId e) e else Some True);
         let (ret, e1) = (case entryGetter of
                Some getter \<Rightarrow> if has then (E_OK, e) else getter (rec_recordId r1) e
              | None \<Rightarrow> (E_OK, e));
         let r2 = (if has then r1 else write_back e e1 r1);
         if ret \<noteq> E_OK then Some ([], r2)
         else do {
           t \<leftarrow> ConvertToPlainText E e1;
           Some (case t of None \<Rightarrow> [] | Some s \<Rightarrow> s, r2)
         }
       }
   }"

fun records_text :: "ext \<Rightarrow> client \<Rightarrow> bool \<Rightarrow> entry_getter option \<Rightarrow> PasteDataRecord option list \<Rightarrow>
    (string \<times> PasteDataRecord option list) run" where
  "records_text E env delayRecord entryGetter [] = Some ([], [])"
| "records_text E env delayRecord entryGetter (None # rs) = do {
     (s, rs') \<leftarrow> records_text E env delayRecord entryGetter rs;
     Some (s, None # rs')
   }"
| "records_text E env delayRecord entryGetter (Some r # rs) = do {
     (s, r') \<leftarrow> record_text E env delayRecord entryGetter r;
     (t, rs') \<leftarrow> records_text E env delayRecord entryGetter rs;
     Some (s @ t, Some r' # rs')
   }"

definition GetPlainText_disposable :: "ext \<Rightarrow> client \<Rightarrow> (PasteData \<Rightarrow> PasteData) option \<Rightarrow>
    entry_getter option \<Rightarrow> PasteData \<Rightarrow> (string \<times> PasteData) run" where
  "GetPlainText_disposable E env delayGetter entryGetter d0 = do {
     let d = (case delayGetter of
                Some g \<Rightarrow> if pd_isDelayData d0 then g d0 else d0
              | None \<Rightarrow> d0);
     mimeTypes \<leftarrow> GetMimeTypes d;
     if MIMETYPE_TEXT_PLAIN \<notin> set mimeTypes then Some ([], d)
     else do {
       (text, rs) \<leftarrow> records_text E env (pd_isDelayRecord d) entryGetter (pd_records d);
       Some (text, d\<lparr>pd_records := rs\<rparr>)
     }
   }"

section \<open>Answering the observers\<close>

definition ProcessNoMatchInfo :: "DisposableInfo list \<Rightarrow> notice list" where
  "ProcessNoMatchInfo infos = concat (map (\<lambda>item. case di_observer item of
      None \<Rightarrow> []
    | Some obs \<Rightarrow> [(obs, [], ERR_TARGET_MISMATCH)]) infos)"

definition matched_answer :: "(u32 \<Rightarrow> bool) \<Rightarrow> i32 \<Rightarrow> string \<Rightarrow> DisposableInfo \<Rightarrow> string \<times> i32" where
  "matched_answer granted shareOption text item =
     (if shareOption = InApp then ([], ERR_DATA_IN_APP)
      else if di_type item \<noteq> DISPOSABLE_PLAIN_TEXT then ([], ERR_TYPE_NOT_SUPPORT)
      else if \<not> granted (di_tokenId item) then ([], ERR_NO_PERMISSION)
      else if text = [] then ([], ERR_NO_TEXT)
      else if length text > unat (di_maxLen item) then ([], ERR_LENGTH_MISMATCH)
      else (text, ERR_OK))"

definition ProcessMatchedInfo :: "ext \<Rightarrow> client \<Rightarrow> (u32 \<Rightarrow> bool) \<Rightarrow> DisposableInfo list \<Rightarrow>
    (PasteData \<Rightarrow> PasteData) option \<Rightarrow> entry_getter option \<Rightarrow> PasteData \<Rightarrow> (notice list \<times> PasteData) run" where
  "ProcessMatchedInfo E env granted infos delayGetter entryGetter d0 = do {
     (text, d) \<leftarrow> GetPlainText_disposable E env delayGetter entryGetter d0;
     Some (concat (map (\<lambda>item. case di_observer item of
         None \<Rightarrow> []
       | Some obs \<Rightarrow> [(obs, matched_answer granted (prop_shareOption (pd_props d)) text item)]) infos), d)
   }"

text \<open>
  The result of a copy: whether the data is consumed, the notifications sent at once, and the
  list handed to the answering thread.
\<close>

definition TryProcessDisposableData ::
    "i32 \<Rightarrow> DisposableInfo list \<Rightarrow> bool \<times> notice list \<times> DisposableInfo list \<times> DisposableInfo list" where
  "TryProcessDisposableData windowId infos =
     (if infos = [] then (False, [], [], [])
      else (let matched = filter (\<lambda>i. di_targetWindowId i = windowId) infos;
                noMatch = filter (\<lambda>i. di_targetWindowId i \<noteq> windowId) infos
            in (matched \<noteq> [], ProcessNoMatchInfo noMatch, matched, [])))"

section \<open>The text is always computed\<close>

definition getter_ok :: "entry_getter option \<Rightarrow> bool" where
  "getter_ok g \<longleftrightarrow> (\<forall>f rid e. g = Some f \<longrightarrow> ent_value (snd (f rid e)) \<noteq> VObject None)"

definition data_ok :: "PasteData \<Rightarrow> bool" where
  "data_ok d \<longleftrightarrow> (\<forall>p \<in> set (pd_records d). \<exists>r. p = Some r \<and> no_null_objects r)"

lemma GetEntryByMimeType_keeps:
  assumes "IsPasteboardService env" "no_null_objects r"
  shows "\<exists>res. GetEntryByMimeType E env m r = Some (res, r)
     \<and> (\<forall>e. res = Some e \<longrightarrow> ent_value e \<noteq> VObject None)"
proof -
  have loc: "\<not> rec_isDelay r \<or> IsPasteboardService env" using assms(1) by blast
  obtain a where a: "GetEntry E env (Convert2UtdId E (UD_BUTT E) m) r = Some (a, r)"
    "\<forall>e. a = Some e \<longrightarrow> ent_value e \<noteq> VObject None"
    using GetEntry_keeps[OF loc assms(2)] by blast
  obtain b where b: "GetEntry E env (Convert2UtdId E (HYPERLINK E) m) r = Some (b, r)"
    "\<forall>e. b = Some e \<longrightarrow> ent_value e \<noteq> VObject None"
    using GetEntry_keeps[OF loc assms(2)] by blast
  show ?thesis using a b
    by (auto simp: GetEntryByMimeType_def Let_def mk_entry_mime_def split: option.splits)
qed

lemma record_text_defined:
  assumes "IsPasteboardService env" "no_null_objects r" "getter_ok g"
  shows "record_text E env dl g r \<noteq> None"
proof -
  obtain res where res: "GetEntryByMimeType E env MIMETYPE_TEXT_PLAIN r = Some (res, r)"
    "\<forall>e. res = Some e \<longrightarrow> ent_value e \<noteq> VObject None"
    using GetEntryByMimeType_keeps[OF assms(1,2)] by blast
  show ?thesis
  proof (cases res)
    case None
    then show ?thesis by (simp add: record_text_def res)
  next
    case (Some e)
    with res(2) have e: "ent_value e \<noteq> VObject None" by simp
    then obtain hc where hc: "HasContent E (ent_utdId e) e = Some hc" using HasContent_defined by blast
    have conv: "ent_value x \<noteq> VObject None \<Longrightarrow> \<exists>t. ConvertToPlainText E x = Some t" for x
      using conversions_defined(1)[of x E] by blast
    show ?thesis
    proof (cases g)
      case None
      then show ?thesis using conv[OF e] by (auto simp: record_text_def res Some Let_def)
    next
      case (Some f)
      have "ent_value (snd (f (rec_recordId r) e)) \<noteq> VObject None"
        using assms(3) Some by (auto simp: getter_ok_def)
      from conv[OF this] conv[OF e] show ?thesis
        by (cases "f (rec_recordId r) e") (auto simp: record_text_def res \<open>res = Some e\<close> Some Let_def hc)
    qed
  qed
qed

lemma records_text_defined:
  assumes "IsPasteboardService env" "getter_ok g" "\<forall>p \<in> set rs. \<exists>r. p = Some r \<and> no_null_objects r"
  shows "records_text E env dl g rs \<noteq> None"
  using assms(3)
proof (induction rs)
  case (Cons p rs)
  then obtain r where r: "p = Some r" "no_null_objects r" by auto
  obtain a b where ab: "record_text E env dl g r = Some (a, b)"
    using record_text_defined[OF assms(1) r(2) assms(2), of E dl] by auto
  obtain c e where "records_text E env dl g rs = Some (c, e)" using Cons by auto
  with r ab show ?case by simp
qed simp

lemma those_defined: "\<forall>p \<in> set rs. \<exists>r. p = Some r \<and> Q r \<Longrightarrow> \<exists>ys. those rs = Some ys"
  by (induction rs) auto

lemma GetMimeTypes_defined: "data_ok d \<Longrightarrow> GetMimeTypes d \<noteq> None"
  using those_defined[of "pd_records d" no_null_objects] by (auto simp: GetMimeTypes_def data_ok_def)

lemma GetPlainText_defined:
  assumes "IsPasteboardService env" "getter_ok g" "data_ok d"
    "\<forall>f. delayGetter = Some f \<longrightarrow> data_ok (f d)"
  shows "GetPlainText_disposable E env delayGetter g d \<noteq> None"
proof -
  let ?d = "case delayGetter of Some h \<Rightarrow> if pd_isDelayData d then h d else d | None \<Rightarrow> d"
  have ok: "data_ok ?d" using assms(3,4) by (auto split: option.split)
  have "GetMimeTypes ?d \<noteq> None" using ok by (rule GetMimeTypes_defined)
  moreover have "records_text E env (pd_isDelayRecord ?d) g (pd_records ?d) \<noteq> None"
    using records_text_defined[OF assms(1,2)] ok by (simp add: data_ok_def)
  ultimately show ?thesis unfolding GetPlainText_disposable_def Let_def by auto
qed

section \<open>The registry\<close>

definition valid_info :: "DisposableInfo \<Rightarrow> bool" where
  "valid_info i \<longleftrightarrow> di_observer i \<noteq> None \<and> di_type i = DISPOSABLE_PLAIN_TEXT"

definition registry_ok :: "DisposableInfo list \<Rightarrow> bool" where
  "registry_ok infos \<longleftrightarrow> distinct (map di_pid infos) \<and> (\<forall>i \<in> set infos. valid_info i)"

lemma registry_ok_Nil [simp]: "registry_ok []"
  by (simp add: registry_ok_def)

lemma type_check:
  assumes "0 \<le> sint t" "sint t < sint DISPOSABLE_MAX"
  shows "t = DISPOSABLE_PLAIN_TEXT"
proof -
  have "sint t = 0" using assms by (simp add: DISPOSABLE_MAX_def)
  then show ?thesis by (simp add: DISPOSABLE_PLAIN_TEXT_def signed_eq_0_iff)
qed

text \<open>The operations on the registry, as events.\<close>

datatype registry_event =
    Register "u32 \<Rightarrow> bool" DisposableInfo
  | Expire i32
  | Gone i32
  | Copied i32

fun registry_step :: "registry_event \<Rightarrow> DisposableInfo list \<Rightarrow> notice list \<times> DisposableInfo list" where
  "registry_step (Register granted info) infos = ([], snd (AddDisposableInfo granted info infos))"
| "registry_step (Expire pid) infos = RemoveDisposableInfo pid True infos"
| "registry_step (Gone pid) infos = RemoveDisposableInfo pid False infos"
| "registry_step (Copied w) infos =
     (case TryProcessDisposableData w infos of (_, ns, _, infos') \<Rightarrow> (ns, infos'))"

lemma find_first: "\<forall>x \<in> set pre. \<not> P x \<Longrightarrow> P y \<Longrightarrow> find P (pre @ y # post) = Some y"
  by (induction pre) auto

lemma Add_cases:
  obtains (refused) "fst (AddDisposableInfo granted info infos) \<noteq> E_OK"
      "snd (AddDisposableInfo granted info infos) = infos"
  | (appended) "valid_info info" "\<forall>x \<in> set infos. di_pid x \<noteq> di_pid info"
      "snd (AddDisposableInfo granted info infos) = infos @ [info]"
  | (replaced) pre i post where "valid_info info" "infos = pre @ i # post" "di_pid i = di_pid info"
      "\<forall>x \<in> set pre. di_pid x \<noteq> di_pid info"
      "snd (AddDisposableInfo granted info infos) = pre @ info # post"
proof (cases "fst (AddDisposableInfo granted info infos) = E_OK")
  case True
  then have v: "valid_info info" and s: "snd (AddDisposableInfo granted info infos) =
      (case split_first (\<lambda>i. di_pid i = di_pid info) infos of
         None \<Rightarrow> infos @ [info] | Some (pre, _, post) \<Rightarrow> pre @ info # post)"
    by (auto simp: AddDisposableInfo_def valid_info_def err_defs dest: type_check split: if_splits)
  show ?thesis
  proof (cases "split_first (\<lambda>i. di_pid i = di_pid info) infos")
    case None
    from None have "\<forall>x \<in> set infos. di_pid x \<noteq> di_pid info" by (simp add: split_first_None)
    with v s None show ?thesis by (intro appended) simp_all
  next
    case (Some a)
    obtain pre i post where a: "a = (pre, i, post)" by (cases a)
    have "infos = pre @ i # post" "di_pid i = di_pid info" "\<forall>x \<in> set pre. di_pid x \<noteq> di_pid info"
      using Some by (simp_all add: a split_first_Some)
    moreover have "snd (AddDisposableInfo granted info infos) = pre @ info # post"
      using s Some by (simp add: a)
    ultimately show ?thesis using v by (intro replaced)
  qed
qed (auto simp: AddDisposableInfo_def intro!: refused)

lemma Add_registry_ok:
  "registry_ok infos \<Longrightarrow> registry_ok (snd (AddDisposableInfo granted info infos))"
  by (cases rule: Add_cases[of granted info infos]) (auto simp: registry_ok_def)

lemma Remove_cases:
  obtains (absent) "pid \<notin> di_pid ` set infos" "snd (RemoveDisposableInfo pid b infos) = infos"
  | (erased) pre i post where "infos = pre @ i # post" "di_pid i = pid"
      "snd (RemoveDisposableInfo pid b infos) = pre @ post"
proof (cases "split_first (\<lambda>i. di_pid i = pid) infos")
  case None
  from None have "pid \<notin> di_pid ` set infos" by (auto simp: split_first_None)
  with None show ?thesis by (intro absent) (simp_all add: RemoveDisposableInfo_def)
next
  case (Some a)
  obtain pre i post where a: "a = (pre, i, post)" by (cases a)
  have "infos = pre @ i # post" "di_pid i = pid" using Some by (simp_all add: a split_first_Some)
  moreover have "snd (RemoveDisposableInfo pid b infos) = pre @ post"
    using Some by (simp add: a RemoveDisposableInfo_def)
  ultimately show ?thesis by (rule erased)
qed

lemma Remove_registry_ok:
  "registry_ok infos \<Longrightarrow> registry_ok (snd (RemoveDisposableInfo pid b infos))"
  by (cases rule: Remove_cases[of pid infos b]) (auto simp: registry_ok_def)

lemma registry_step_ok: "registry_ok infos \<Longrightarrow> registry_ok (snd (registry_step ev infos))"
  by (cases ev) (simp_all add: Add_registry_ok Remove_registry_ok TryProcessDisposableData_def Let_def)

lemma Remove_pid:
  "registry_ok infos \<Longrightarrow> pid \<notin> di_pid ` set (snd (RemoveDisposableInfo pid b infos))"
  by (cases rule: Remove_cases[of pid infos b]) (auto simp: registry_ok_def)

text \<open>The registry of one-shot observers stays well formed under every sequence of
  registrations, expirations, application exits and copies: at most one registration for a
  process, each with an observer and the supported type. A successful registration is the one
  the registry then holds for that process, and a removed process has none.\<close>

theorem disposable_registry:
  "registry_ok (fold (\<lambda>ev infos. snd (registry_step ev infos)) evs [])
   \<and> (fst (AddDisposableInfo granted info infos) = E_OK \<longrightarrow>
        find (\<lambda>i. di_pid i = di_pid info) (snd (AddDisposableInfo granted info infos)) = Some info)
   \<and> (fst (AddDisposableInfo granted info infos) \<noteq> E_OK \<longrightarrow>
        snd (AddDisposableInfo granted info infos) = infos)
   \<and> (registry_ok infos \<longrightarrow> pid \<notin> di_pid ` set (snd (RemoveDisposableInfo pid b infos)))"
proof -
  have "registry_ok infos' \<Longrightarrow> registry_ok (fold (\<lambda>ev infos. snd (registry_step ev infos)) evs infos')" for infos'
    by (induction evs arbitrary: infos') (simp_all add: registry_step_ok)
  then have "registry_ok (fold (\<lambda>ev infos. snd (registry_step ev infos)) evs [])" by simp
  moreover have "fst (AddDisposableInfo granted info infos) = E_OK \<longrightarrow>
      find (\<lambda>i. di_pid i = di_pid info) (snd (AddDisposableInfo granted info infos)) = Some info"
    by (cases rule: Add_cases[of granted info infos]) (auto simp: find_first)
  moreover have "fst (AddDisposableInfo granted info infos) \<noteq> E_OK \<longrightarrow>
      snd (AddDisposableInfo granted info infos) = infos"
    by (auto simp: AddDisposableInfo_def)
  ultimately show ?thesis using Remove_pid by blast
qed

definition sample_info :: DisposableInfo where
  "sample_info = \<lparr>di_pid = 7, di_tokenId = 1, di_type = 0, di_maxLen = 100, di_targetWindowId = 3,
     di_observer = Some 5\<rparr>"

theorem disposable_registry_witness:
  "fst (AddDisposableInfo (\<lambda>_. True) sample_info []) = E_OK
   \<and> find (\<lambda>i. di_pid i = 7) (snd (AddDisposableInfo (\<lambda>_. True) sample_info [])) = Some sample_info
   \<and> registry_ok [sample_info]
   \<and> 7 \<notin> di_pid ` set (snd (RemoveDisposableInfo 7 True [sample_info]))"
proof -
  have "fst (AddDisposableInfo (\<lambda>_. True) sample_info []) = E_OK"
    by (simp add: AddDisposableInfo_def sample_info_def DISPOSABLE_MAX_def)
  moreover have "registry_ok [sample_info]"
    by (simp add: registry_ok_def valid_info_def sample_info_def DISPOSABLE_PLAIN_TEXT_def)
  ultimately show ?thesis
    using disposable_registry[of "[]" "\<lambda>_. True" sample_info "[]" 7 True]
      disposable_registry[of "[]" "\<lambda>_. True" sample_info "[sample_info]" 7 True]
    by (simp add: sample_info_def)
qed

section \<open>One copy\<close>

definition observers :: "DisposableInfo list \<Rightarrow> observer list" where
  "observers infos = concat (map (\<lambda>i. case di_observer i of None \<Rightarrow> [] | Some obs \<Rightarrow> [obs]) infos)"

lemma observers_partition:
  "mset (observers (filter P infos)) + mset (observers (filter (\<lambda>i. \<not> P i) infos)) = mset (observers infos)"
  by (induction infos) (simp_all add: observers_def ac_simps)

lemma NoMatch_observers: "map fst (ProcessNoMatchInfo infos) = observers infos"
  by (induction infos) (simp_all add: ProcessNoMatchInfo_def observers_def split: option.split)

lemma matched_observers:
  "map fst (concat (map (\<lambda>item. case di_observer item of None \<Rightarrow> [] | Some obs \<Rightarrow> [(obs, f item)]) infos))
     = observers infos"
  by (induction infos) (simp_all add: observers_def split: option.split)

lemma matched_answer_text:
  "snd (matched_answer granted so text i) = ERR_OK \<longleftrightarrow> fst (matched_answer granted so text i) \<noteq> []"
  "fst (matched_answer granted so text i) \<noteq> [] \<Longrightarrow> so \<noteq> InApp \<and> di_type i = DISPOSABLE_PLAIN_TEXT
     \<and> granted (di_tokenId i) \<and> fst (matched_answer granted so text i) = text
     \<and> length text \<le> unat (di_maxLen i)"
  by (auto simp: matched_answer_def obs_err_defs split: if_splits)

text \<open>C38: A copy answers every registered observer exactly once and empties the registry. Text is
  given only to an observer that waits for the focused window, whose application has the permission
  at that moment, for data that may leave its application, and never more than it asked for; every
  other observer gets an empty text and an error code. The answers are always computed, and the
  data is consumed exactly when some observer waited for that window.\<close>

theorem disposable_copy:
  assumes "TryProcessDisposableData w infos = (consumed, ns0, matched, infos')"
    "IsPasteboardService env" "getter_ok g" "data_ok d" "\<forall>f. delayGetter = Some f \<longrightarrow> data_ok (f d)"
  shows "\<exists>ns d'. ProcessMatchedInfo E env granted matched delayGetter g d = Some (ns, d')
    \<and> mset (map fst (ns0 @ ns)) = mset (observers infos) \<and> infos' = []
    \<and> (consumed \<longleftrightarrow> (\<exists>i \<in> set infos. di_targetWindowId i = w))
    \<and> (\<forall>obs text c. (obs, text, c) \<in> set (ns0 @ ns) \<longrightarrow> (c = ERR_OK \<longleftrightarrow> text \<noteq> [])
        \<and> (text \<noteq> [] \<longrightarrow> prop_shareOption (pd_props d') \<noteq> InApp \<and> (\<exists>i \<in> set infos. di_observer i = Some obs
             \<and> di_targetWindowId i = w \<and> granted (di_tokenId i) \<and> length text \<le> unat (di_maxLen i))))"
proof -
  have tp: "ns0 = ProcessNoMatchInfo (filter (\<lambda>i. di_targetWindowId i \<noteq> w) infos)"
    "matched = filter (\<lambda>i. di_targetWindowId i = w) infos" "infos' = []"
    "consumed \<longleftrightarrow> (\<exists>i \<in> set infos. di_targetWindowId i = w)"
    using assms(1) by (auto simp: TryProcessDisposableData_def ProcessNoMatchInfo_def Let_def
        filter_empty_conv split: if_splits)
  obtain str d' where pt: "GetPlainText_disposable E env delayGetter g d = Some (str, d')"
    using GetPlainText_defined[OF assms(2-5), of E] by auto
  let ?ans = "matched_answer granted (prop_shareOption (pd_props d')) str"
  let ?ns = "concat (map (\<lambda>item. case di_observer item of None \<Rightarrow> [] | Some obs \<Rightarrow> [(obs, ?ans item)]) matched)"
  have pm: "ProcessMatchedInfo E env granted matched delayGetter g d = Some (?ns, d')"
    by (simp add: ProcessMatchedInfo_def pt)
  have "mset (map fst (ns0 @ ?ns)) = mset (observers infos)"
    using observers_partition[of "\<lambda>i. di_targetWindowId i = w" infos]
    by (simp only: map_append mset_append matched_observers tp(1,2) NoMatch_observers add.commute)
  moreover have "(c = ERR_OK \<longleftrightarrow> s \<noteq> []) \<and> (s \<noteq> [] \<longrightarrow> prop_shareOption (pd_props d') \<noteq> InApp
      \<and> (\<exists>i \<in> set infos. di_observer i = Some obs \<and> di_targetWindowId i = w \<and> granted (di_tokenId i)
          \<and> length s \<le> unat (di_maxLen i)))" if "(obs, s, c) \<in> set (ns0 @ ?ns)" for obs s c
  proof -
    from that consider "s = []" "c = ERR_TARGET_MISMATCH"
      | i where "i \<in> set matched" "di_observer i = Some obs" "(s, c) = ?ans i"
      by (auto simp: tp(1) ProcessNoMatchInfo_def split: option.splits)
    then show ?thesis
    proof cases
      case 1
      then show ?thesis by (simp add: obs_err_defs)
    next
      case (2 i)
      then have "s = fst (?ans i)" "c = snd (?ans i)" by (metis fst_conv, metis snd_conv)
      with matched_answer_text[of granted "prop_shareOption (pd_props d')" str i] 2(1,2) tp(2)
      show ?thesis by (intro conjI impI bexI[of _ i]) auto
    qed
  qed
  ultimately show ?thesis using pm tp(3,4) by blast
qed

theorem disposable_copy_witness:
  "\<exists>ns d'. ProcessMatchedInfo sample_ext \<lparr>IsPasteboardService = True, GetRecordValueByType = (\<lambda>_ _ e. e)\<rparr>
      (\<lambda>_. True) [sample_info] None (Some sample_getter) sample_delay = Some (ns, d') \<and> map fst ns = [5]"
proof -
  let ?env = "\<lparr>IsPasteboardService = True, GetRecordValueByType = (\<lambda>_ _ e. e)\<rparr>"
  have "TryProcessDisposableData 3 [sample_info] = (True, [], [sample_info], [])"
    by (simp add: TryProcessDisposableData_def sample_info_def ProcessNoMatchInfo_def)
  moreover have "getter_ok (Some sample_getter)" by (simp add: getter_ok_def sample_getter_def)
  moreover have "data_ok sample_delay"
    by (simp add: data_ok_def sample_delay_simps no_null_objects_def mk_entry_def)
  ultimately obtain ns d' where "ProcessMatchedInfo sample_ext ?env (\<lambda>_. True) [sample_info] None
      (Some sample_getter) sample_delay = Some (ns, d')"
    "mset (map fst ([] @ ns)) = mset (observers [sample_info])"
    using disposable_copy[of 3 "[sample_info]" True "[]" "[sample_info]" "[]" ?env "Some sample_getter"
        sample_delay None sample_ext "\<lambda>_. True"] by auto
  moreover have "observers [sample_info] = [5]" by (simp add: observers_def sample_info_def)
  ultimately have "mset (map fst ns) = {#5#}" by simp
  then have "map fst ns = [5]" by (simp only: mset_single_iff)
  with \<open>ProcessMatchedInfo _ _ _ _ _ _ _ = _\<close> show ?thesis by (intro exI conjI)
qed

end
