(* ===== verification/Concurrent_Map.thy ===== *)
theory Concurrent_Map
  imports Prelude
begin

text \<open>
  \<open>ConcurrentMap\<close> of \<open>framework/framework/include/common/concurrent_map.h\<close>. Every method holds
  the mutex for its whole body (\<open>ForEachCopies\<close> only while it clones), so a method is one atomic
  step on \<open>entries_\<close>. The unordered map is an association list with different keys, in the order
  the container iterates, which the standard leaves open. An action is a function of the key,
  the value and the variables it captures by reference; it returns its result, the value after
  the call and the captured variables. \<open>None\<close> stands for a null \<open>std::function\<close>. The
  contract the service relies on is the locale \<open>kv_store\<close>.
\<close>

type_synonym ('k, 'v) entries = "('k \<times> 'v) list"
type_synonym ('k, 'v, 's) action = "'k \<Rightarrow> 'v \<Rightarrow> 's \<Rightarrow> bool \<times> 'v \<times> 's"

definition CM_Emplace :: "'k \<Rightarrow> 'v \<Rightarrow> ('k, 'v) entries \<Rightarrow> bool \<times> ('k, 'v) entries" where
  "CM_Emplace k v m = (case map_of m k of None \<Rightarrow> (True, (k, v) # m) | Some _ \<Rightarrow> (False, m))"

definition CM_Find :: "'v \<Rightarrow> 'k \<Rightarrow> ('k, 'v) entries \<Rightarrow> bool \<times> 'v" where
  "CM_Find dflt k m = (case map_of m k of None \<Rightarrow> (False, dflt) | Some v \<Rightarrow> (True, v))"

definition CM_Contains :: "'k \<Rightarrow> ('k, 'v) entries \<Rightarrow> bool" where
  "CM_Contains k m = (map_of m k \<noteq> None)"

fun set_value :: "'k \<Rightarrow> 'v \<Rightarrow> ('k, 'v) entries \<Rightarrow> ('k, 'v) entries" where
  "set_value k v [] = []"
| "set_value k v ((k', v') # m) = (if k' = k then (k, v) # m else (k', v') # set_value k v m)"

definition CM_InsertOrAssign :: "'k \<Rightarrow> 'v \<Rightarrow> ('k, 'v) entries \<Rightarrow> bool \<times> ('k, 'v) entries" where
  "CM_InsertOrAssign k v m =
     (case map_of m k of None \<Rightarrow> (True, (k, v) # m) | Some _ \<Rightarrow> (False, set_value k v m))"

definition CM_Insert :: "'k \<Rightarrow> 'v \<Rightarrow> ('k, 'v) entries \<Rightarrow> bool \<times> ('k, 'v) entries" where
  "CM_Insert k v m = (case map_of m k of None \<Rightarrow> (True, (k, v) # m) | Some _ \<Rightarrow> (False, m))"

definition CM_Erase :: "'k \<Rightarrow> ('k, 'v) entries \<Rightarrow> nat \<times> ('k, 'v) entries" where
  "CM_Erase k m = (length (filter (\<lambda>e. fst e = k) m), filter (\<lambda>e. fst e \<noteq> k) m)"

definition CM_Clear :: "('k, 'v) entries \<Rightarrow> ('k, 'v) entries" where
  "CM_Clear m = []"

definition CM_Empty :: "('k, 'v) entries \<Rightarrow> bool" where
  "CM_Empty m = (m = [])"

definition CM_Size :: "('k, 'v) entries \<Rightarrow> nat" where
  "CM_Size m = length m"

fun erase_loop :: "('k, 'v, 's) action \<Rightarrow> ('k, 'v) entries \<Rightarrow> 's \<Rightarrow> ('k, 'v) entries \<times> 's" where
  "erase_loop f [] s = ([], s)"
| "erase_loop f ((k, v) # m) s = (case f k v s of (r, v', s') \<Rightarrow>
     (case erase_loop f m s' of (m', s'') \<Rightarrow> (if r then m' else (k, v') # m', s'')))"

definition CM_EraseIf ::
    "('k, 'v, 's) action option \<Rightarrow> ('k, 'v) entries \<Rightarrow> 's \<Rightarrow> nat \<times> ('k, 'v) entries \<times> 's" where
  "CM_EraseIf act m s = (case act of
      None \<Rightarrow> (0, m, s)
    | Some f \<Rightarrow> (case erase_loop f m s of (m', s') \<Rightarrow> (length m - length m', m', s')))"

fun each_loop :: "('k, 'v, 's) action \<Rightarrow> ('k, 'v) entries \<Rightarrow> 's \<Rightarrow> ('k, 'v) entries \<times> 's" where
  "each_loop f [] s = ([], s)"
| "each_loop f ((k, v) # m) s = (case f k v s of (stop, v', s') \<Rightarrow>
     if stop then ((k, v') # m, s')
     else (case each_loop f m s' of (m', s'') \<Rightarrow> ((k, v') # m', s'')))"

definition CM_ForEach ::
    "('k, 'v, 's) action option \<Rightarrow> ('k, 'v) entries \<Rightarrow> 's \<Rightarrow> ('k, 'v) entries \<times> 's" where
  "CM_ForEach act m s = (case act of None \<Rightarrow> (m, s) | Some f \<Rightarrow> each_loop f m s)"

definition CM_ForEachCopies :: "('k, 'v, 's) action option \<Rightarrow> ('k, 'v) entries \<Rightarrow> 's \<Rightarrow> 's" where
  "CM_ForEachCopies act m s = (case act of None \<Rightarrow> s | Some f \<Rightarrow> snd (each_loop f m s))"

definition CM_Compute ::
    "'v \<Rightarrow> 'k \<Rightarrow> ('k, 'v, 's) action option \<Rightarrow> ('k, 'v) entries \<Rightarrow> 's \<Rightarrow> bool \<times> ('k, 'v) entries \<times> 's" where
  "CM_Compute dflt k act m s = (case act of
      None \<Rightarrow> (False, m, s)
    | Some f \<Rightarrow>
        (let m1 = (if map_of m k = None then snd (CM_Emplace k dflt m) else m) in
         (case map_of m1 k of
            None \<Rightarrow> (False, m1, s)
          | Some v \<Rightarrow> (case f k v s of (keep, v', s') \<Rightarrow>
              (True, (if keep then set_value k v' m1 else snd (CM_Erase k m1)), s')))))"

definition CM_ComputeIfPresent ::
    "'k \<Rightarrow> ('k, 'v, 's) action option \<Rightarrow> ('k, 'v) entries \<Rightarrow> 's \<Rightarrow> bool \<times> ('k, 'v) entries \<times> 's" where
  "CM_ComputeIfPresent k act m s = (case act of
      None \<Rightarrow> (False, m, s)
    | Some f \<Rightarrow> (case map_of m k of
        None \<Rightarrow> (False, m, s)
      | Some v \<Rightarrow> (case f k v s of (keep, v', s') \<Rightarrow>
          (True, (if keep then set_value k v' m else snd (CM_Erase k m)), s'))))"

definition CM_ComputeIfAbsent ::
    "'k \<Rightarrow> ('k \<Rightarrow> 'v) option \<Rightarrow> ('k, 'v) entries \<Rightarrow> bool \<times> ('k, 'v) entries" where
  "CM_ComputeIfAbsent k act m = (case act of
      None \<Rightarrow> (False, m)
    | Some f \<Rightarrow> (case map_of m k of
        Some _ \<Rightarrow> (False, m)
      | None \<Rightarrow> (True, snd (CM_Emplace k (f k) m))))"

text \<open>Assignment from another map: by copy (\<open>Clone\<close>) and by move (\<open>Steal\<close> empties the source).\<close>

definition CM_assign_copy :: "('k, 'v) entries \<Rightarrow> ('k, 'v) entries \<Rightarrow> ('k, 'v) entries" where
  "CM_assign_copy other m = other"

definition CM_assign_move ::
    "('k, 'v) entries \<Rightarrow> ('k, 'v) entries \<Rightarrow> ('k, 'v) entries \<times> ('k, 'v) entries" where
  "CM_assign_move other m = ([], other)"

section \<open>Keys stay different\<close>

definition keys_ok :: "('k, 'v) entries \<Rightarrow> bool" where
  "keys_ok m \<longleftrightarrow> distinct (map fst m)"

lemma keys_set_value [simp]: "map fst (set_value k v m) = map fst m"
  by (induction m) auto

lemma map_of_set_value: "map_of m k \<noteq> None \<Longrightarrow> map_of (set_value k v m) = (map_of m)(k \<mapsto> v)"
  by (induction m) (auto simp: fun_eq_iff split: if_splits)

lemma in_keys_iff: "k \<in> fst ` set m \<longleftrightarrow> map_of m k \<noteq> None"
  by (simp add: map_of_eq_None_iff)

lemma map_of_filter_key: "map_of (filter (\<lambda>e. fst e \<noteq> k) m) = (map_of m)(k := None)"
  by (induction m) (auto simp: fun_eq_iff)

lemma erase_loop_Cons:
  "erase_loop f ((k, v) # m) s =
     (if fst (f k v s) then erase_loop f m (snd (snd (f k v s)))
      else ((k, fst (snd (f k v s))) # fst (erase_loop f m (snd (snd (f k v s)))),
            snd (erase_loop f m (snd (snd (f k v s))))))"
  by (simp split: prod.split)

lemma erase_keys_subset: "fst ` set (fst (erase_loop f m s)) \<subseteq> fst ` set m"
proof (induction m arbitrary: s)
  case (Cons kv m)
  obtain k v where kv: "kv = (k, v)" by (cases kv)
  show ?case using Cons[of "snd (snd (f k v s))"]
    unfolding kv erase_loop_Cons by auto
qed simp

lemma erase_keys_ok: "keys_ok m \<Longrightarrow> keys_ok (fst (erase_loop f m s))"
proof (induction m arbitrary: s)
  case (Cons kv m)
  obtain k v where kv: "kv = (k, v)" by (cases kv)
  show ?case using Cons.IH[of "snd (snd (f k v s))"] Cons.prems
      erase_keys_subset[of f m "snd (snd (f k v s))"]
    unfolding kv erase_loop_Cons by (auto simp: keys_ok_def)
qed (simp add: keys_ok_def)

lemma each_keys [simp]: "map fst (fst (each_loop f m s)) = map fst m"
  by (induction f m s rule: each_loop.induct) (auto split: prod.splits)

lemma keys_ok_ops:
  assumes "keys_ok m"
  shows "keys_ok (snd (CM_Emplace k v m))" "keys_ok (snd (CM_InsertOrAssign k v m))"
    "keys_ok (snd (CM_Insert k v m))" "keys_ok (snd (CM_Erase k m))"
    "keys_ok (fst (snd (CM_EraseIf act m s)))" "keys_ok (fst (CM_ForEach act m s))"
    "keys_ok (fst (snd (CM_Compute dflt k act m s)))" "keys_ok (fst (snd (CM_ComputeIfPresent k act m s)))"
    "keys_ok (snd (CM_ComputeIfAbsent k g m))"
proof -
  have f: "distinct (map fst (filter P m))" for P
    using assms by (simp add: keys_ok_def distinct_map_filter)
  show "keys_ok (snd (CM_Emplace k v m))" "keys_ok (snd (CM_InsertOrAssign k v m))"
    "keys_ok (snd (CM_Insert k v m))" "keys_ok (snd (CM_Erase k m))"
    using assms f
    by (auto simp: keys_ok_def CM_Emplace_def CM_InsertOrAssign_def CM_Insert_def CM_Erase_def
        map_of_eq_None_iff split: option.split)
  show "keys_ok (fst (snd (CM_EraseIf act m s)))" "keys_ok (fst (CM_ForEach act m s))"
    using assms erase_keys_ok[of m _ s]
    by (auto simp: CM_EraseIf_def CM_ForEach_def keys_ok_def split: option.split prod.split)
      (metis fst_conv keys_ok_def)
  show "keys_ok (fst (snd (CM_ComputeIfPresent k act m s)))" "keys_ok (snd (CM_ComputeIfAbsent k g m))"
    "keys_ok (fst (snd (CM_Compute dflt k act m s)))"
    using assms f
    by (auto simp: CM_ComputeIfPresent_def CM_ComputeIfAbsent_def CM_Compute_def CM_Emplace_def CM_Erase_def
        keys_ok_def map_of_eq_None_iff Let_def distinct_map_filter split: option.splits prod.splits)
qed

section \<open>What a lookup finds afterwards\<close>

lemma lookup_ops:
  "map_of (snd (CM_InsertOrAssign k v m)) = (map_of m)(k \<mapsto> v)"
  "map_of (snd (CM_Erase k m)) = (map_of m)(k := None)"
  "map_of (snd (CM_Emplace k v m)) = (if map_of m k = None then (map_of m)(k \<mapsto> v) else map_of m)"
  "map_of (snd (CM_ComputeIfAbsent k (Some g) m)) = (if map_of m k = None then (map_of m)(k \<mapsto> g k) else map_of m)"
  "map_of (fst (snd (CM_ComputeIfPresent k (Some f) m s))) = (case map_of m k of
      None \<Rightarrow> map_of m
    | Some v \<Rightarrow> (map_of m)(k := (if fst (f k v s) then Some (fst (snd (f k v s))) else None)))"
  "map_of (fst (snd (CM_Compute dflt k (Some f) m s))) =
     (let v = (case map_of m k of None \<Rightarrow> dflt | Some v \<Rightarrow> v)
      in (map_of m)(k := (if fst (f k v s) then Some (fst (snd (f k v s))) else None)))"
  by (auto simp: CM_InsertOrAssign_def CM_Erase_def CM_Emplace_def CM_ComputeIfAbsent_def
      CM_ComputeIfPresent_def CM_Compute_def map_of_set_value map_of_filter_key Let_def fun_eq_iff
      split: option.splits prod.splits)

lemma results_ops:
  "fst (CM_ComputeIfAbsent k (Some g) m) \<longleftrightarrow> map_of m k = None"
  "fst (CM_ComputeIfPresent k (Some f) m s) \<longleftrightarrow> map_of m k \<noteq> None"
  "snd (snd (CM_ComputeIfPresent k (Some f) m s)) =
     (case map_of m k of None \<Rightarrow> s | Some v \<Rightarrow> snd (snd (f k v s)))"
  "CM_Find dflt k m = (map_of m k \<noteq> None, case map_of m k of None \<Rightarrow> dflt | Some v \<Rightarrow> v)"
  by (auto simp: CM_ComputeIfAbsent_def CM_ComputeIfPresent_def CM_Find_def
      split: option.splits prod.splits)

definition pure_action :: "('k \<Rightarrow> 'v \<Rightarrow> bool) \<Rightarrow> ('k, 'v, 's) action" where
  "pure_action P = (\<lambda>k v s. (P k v, v, s))"

lemma erase_loop_pure: "erase_loop (pure_action P) m s = (filter (\<lambda>(k, v). \<not> P k v) m, s)"
  by (induction m) (auto simp: pure_action_def)

lemma map_of_filter_pred:
  "keys_ok m \<Longrightarrow> map_of (filter (\<lambda>(k, v). Q k v) m) k =
     (case map_of m k of None \<Rightarrow> None | Some v \<Rightarrow> if Q k v then Some v else None)"
proof (induction m)
  case (Cons kv m)
  obtain k' v' where kv: "kv = (k', v')" by (cases kv)
  have "map_of m k' = None" "keys_ok m"
    using Cons.prems by (auto simp: keys_ok_def kv map_of_eq_None_iff)
  with Cons.IH show ?case by (auto simp: kv split: option.split)
qed simp

lemma size_card: "keys_ok m \<Longrightarrow> CM_Size m = card (dom (map_of m))"
  by (metis CM_Size_def dom_map_of_conv_image_fst distinct_card keys_ok_def length_map list.set_map)

section \<open>The contract of a key-value store\<close>

locale kv_store =
  fixes wf :: "'m \<Rightarrow> bool"
    and look :: "'m \<Rightarrow> 'k \<Rightarrow> 'v option"
    and put :: "'k \<Rightarrow> 'v \<Rightarrow> 'm \<Rightarrow> 'm"
    and put_absent :: "'k \<Rightarrow> 'v \<Rightarrow> 'm \<Rightarrow> 'm"
    and remove :: "'k \<Rightarrow> 'm \<Rightarrow> 'm"
  assumes wf_put: "wf m \<Longrightarrow> wf (put k v m)"
    and wf_put_absent: "wf m \<Longrightarrow> wf (put_absent k v m)"
    and wf_remove: "wf m \<Longrightarrow> wf (remove k m)"
    and look_put: "wf m \<Longrightarrow> look (put k v m) = (look m)(k \<mapsto> v)"
    and look_put_absent: "wf m \<Longrightarrow> look (put_absent k v m) = (look m)(k := case look m k of None \<Rightarrow> Some v | Some u \<Rightarrow> Some u)"
    and look_remove: "wf m \<Longrightarrow> look (remove k m) = (look m)(k := None)"
begin

lemma put_all:
  "wf m \<Longrightarrow> wf (fold (\<lambda>(k, v). put k v) kvs m) \<and> look (fold (\<lambda>(k, v). put k v) kvs m) = look m ++ map_of (rev kvs)"
proof (induction kvs arbitrary: m)
  case (Cons kv kvs)
  obtain k v where kv: "kv = (k, v)" by (cases kv)
  show ?case using Cons.IH[OF wf_put[OF Cons.prems, of k v]]
    by (simp add: kv look_put[OF Cons.prems] map_add_def fun_eq_iff split: option.split)
qed simp

lemma remove_all:
  "wf m \<Longrightarrow> wf (fold remove ks m) \<and> look (fold remove ks m) = (look m) |` (- set ks)"
proof (induction ks arbitrary: m)
  case (Cons k ks)
  show ?case using Cons.IH[OF wf_remove[OF Cons.prems, of k]]
    by (simp add: look_remove[OF Cons.prems] restrict_map_def fun_eq_iff)
qed (simp add: restrict_map_def)

end

interpretation cm: kv_store keys_ok map_of "\<lambda>k v m. snd (CM_InsertOrAssign k v m)"
    "\<lambda>k v m. snd (CM_ComputeIfAbsent k (Some (\<lambda>_. v)) m)" "\<lambda>k m. snd (CM_Erase k m)"
  by unfold_locales
     (auto simp: keys_ok_ops lookup_ops fun_eq_iff split: option.splits)



end
