(* ===== verification/Share_Options.thy ===== *)
theory Share_Options
  imports Paste_Data Errors Concurrent_Map
begin

text \<open>
  The share options of applications in \<open>services/core/src/pasteboard_service.cpp\<close>: for a token,
  whether what it copies stays in the application, on the device, or may cross devices. An
  option comes from the device management (\<open>MDM\<close>), which decides for any token, or from the
  application itself (\<open>APP\<close>). \<open>UpdateShareOption\<close> stamps the option on data when it is copied.
\<close>

unbundle bit_operations_syntax

datatype GlobalShareOptionSource = MDM | APP

record GlobalShareOption =
  gso_source :: GlobalShareOptionSource
  gso_shareOption :: i32

type_synonym share_table = "(u32, GlobalShareOption) entries"

text \<open>The caller of a request: its uid, process, token, full token and the permissions granted to a
  token; \<open>managed_uid\<close> is \<open>uid_\<close>, read from the configuration.\<close>

record caller =
  c_uid :: i32
  c_pid :: i32
  c_tokenId :: u32
  c_fullTokenId :: u64
  c_userId :: i32
  c_manageShare :: bool \<comment> \<open>permission to manage the share option of the application\<close>

definition EDM_UID :: i32 where "EDM_UID = 3057"
definition RSS_UID :: i32 where "RSS_UID = 1096"
definition SYSTEM_APP_MASK :: u64 where "SYSTEM_APP_MASK = push_bit 32 1"

definition IsCallerUidValid :: "i32 \<Rightarrow> caller \<Rightarrow> bool" where
  "IsCallerUidValid uid c \<longleftrightarrow>
     c_uid c = EDM_UID \<or> (uid \<noteq> - 1 \<and> c_uid c = uid) \<or> c_uid c = RSS_UID"

definition IsSystemAppByFullTokenID :: "u64 \<Rightarrow> bool" where
  "IsSystemAppByFullTokenID tokenId \<longleftrightarrow> tokenId AND SYSTEM_APP_MASK = SYSTEM_APP_MASK"

definition in_range :: "i32 \<Rightarrow> bool" where
  "in_range v \<longleftrightarrow> sint InApp \<le> sint v \<and> sint v \<le> sint CrossDevice"

definition SetGlobalShareOption ::
    "i32 \<Rightarrow> caller \<Rightarrow> (u32 \<times> i32) list \<Rightarrow> share_table \<Rightarrow> i32 \<times> share_table" where
  "SetGlobalShareOption uid c globalShareOptions m =
     (if \<not> IsCallerUidValid uid c then (PERMISSION_VERIFICATION_ERROR, m)
      else (let shareOptions = fold (\<lambda>(key, v) acc. if in_range v then assign key v acc else acc)
                  globalShareOptions []
            in (0, fold (\<lambda>(tokenId, o'). \<lambda>t. snd (CM_InsertOrAssign tokenId o' t))
                  (map (\<lambda>(k, v). (k, \<lparr>gso_source = MDM, gso_shareOption = v\<rparr>)) shareOptions) m)))"

definition RemoveGlobalShareOption :: "i32 \<Rightarrow> caller \<Rightarrow> u32 list \<Rightarrow> share_table \<Rightarrow> i32 \<times> share_table" where
  "RemoveGlobalShareOption uid c tokenIds m =
     (if \<not> IsCallerUidValid uid c then (PERMISSION_VERIFICATION_ERROR, m)
      else (0, fst (fold (\<lambda>tokenId (t, count :: i32).
              case CM_ComputeIfPresent tokenId (Some (\<lambda>k v n. (False, v, n + 1))) t count of
                (_, t', count') \<Rightarrow> (t', count')) tokenIds (m, 0))))"

definition GetGlobalShareOption ::
    "i32 \<Rightarrow> caller \<Rightarrow> u32 list \<Rightarrow> share_table \<Rightarrow> i32 \<times> (u32 \<times> i32) list" where
  "GetGlobalShareOption uid c tokenIds m =
     (if \<not> IsCallerUidValid uid c then (PERMISSION_VERIFICATION_ERROR, [])
      else (let collect = (\<lambda>key v res. (False, v, assign key (gso_shareOption v) res));
                keep = (\<lambda>key v res. (True, v, assign key (gso_shareOption v) res))
            in (0, if tokenIds = [] then snd (CM_ForEach (Some collect) m [])
                   else fold (\<lambda>tokenId res. snd (snd (CM_ComputeIfPresent tokenId (Some keep) m res)))
                          tokenIds [])))"

definition SetAppShareOptions :: "caller \<Rightarrow> i32 \<Rightarrow> share_table \<Rightarrow> i32 \<times> share_table" where
  "SetAppShareOptions c shareOptions m =
     (if \<not> IsValidShareOption shareOptions then (INVALID_PARAM_ERROR, m)
      else if \<not> IsSystemAppByFullTokenID (c_fullTokenId c) \<and> shareOptions \<noteq> InApp
      then (INVALID_PARAM_ERROR, m)
      else if \<not> IsSystemAppByFullTokenID (c_fullTokenId c) \<and> \<not> c_manageShare c
      then (PERMISSION_VERIFICATION_ERROR, m)
      else (case CM_ComputeIfAbsent (c_tokenId c)
                   (Some (\<lambda>_. \<lparr>gso_source = APP, gso_shareOption = shareOptions\<rparr>)) m of
              (isAbsent, m') \<Rightarrow> if \<not> isAbsent then (INVALID_OPERATION_ERROR, m') else (0, m')))"

definition RemoveAppShareOptions :: "caller \<Rightarrow> share_table \<Rightarrow> i32 \<times> share_table" where
  "RemoveAppShareOptions c m =
     (if \<not> IsSystemAppByFullTokenID (c_fullTokenId c) \<and> \<not> c_manageShare c
      then (PERMISSION_VERIFICATION_ERROR, m)
      else (case CM_ComputeIfPresent (c_tokenId c) (Some (\<lambda>key v res. (True, v, Some v))) m None of
              (_, m', res) \<Rightarrow> (case res of
                  None \<Rightarrow> (0, m')
                | Some v \<Rightarrow> if gso_source v = APP then (0, snd (CM_Erase (c_tokenId c) m')) else (0, m'))))"

definition UpdateShareOption :: "share_table \<Rightarrow> PasteData \<Rightarrow> PasteData" where
  "UpdateShareOption m d = snd (snd (CM_ComputeIfPresent (prop_tokenId (pd_props d))
     (Some (\<lambda>tokenId o' x. (True, o', x\<lparr>pd_props := (pd_props x)\<lparr>prop_shareOption := gso_shareOption o'\<rparr>\<rparr>))) m d))"

definition CheckMdmShareOption :: "share_table \<Rightarrow> PasteData \<Rightarrow> bool" where
  "CheckMdmShareOption m d = snd (snd (CM_ComputeIfPresent (prop_tokenId (pd_props d))
     (Some (\<lambda>tokenId o' r. (True, o', if gso_source o' = MDM then True else r))) m False))"

section \<open>What each request does to the table\<close>

lemma in_range_iff: "in_range v \<longleftrightarrow> IsValidShareOption v"
proof
  assume "in_range v"
  then have "sint v = 0 \<or> sint v = 1 \<or> sint v = 2"
    by (auto simp: in_range_def InApp_def CrossDevice_def)
  then have "sint v = sint (0 :: i32) \<or> sint v = sint (1 :: i32) \<or> sint v = sint (2 :: i32)" by simp
  then show "IsValidShareOption v"
    unfolding signed_word_eqI by (auto simp: IsValidShareOption_def InApp_def LocalDevice_def CrossDevice_def
        intro: signed_word_eqI)
qed (auto simp: in_range_def IsValidShareOption_def InApp_def LocalDevice_def CrossDevice_def)

lemma map_of_rev_distinct: "distinct (map fst xs) \<Longrightarrow> map_of (rev xs) = map_of xs"
proof (induction xs)
  case (Cons x xs)
  then have "map_of xs (fst x) = None" by (simp add: map_of_eq_None_iff)
  with Cons show ?case by (cases x) (auto simp: map_add_def fun_eq_iff split: option.split)
qed simp

definition collected :: "(u32 \<times> i32) list \<Rightarrow> (u32 \<times> i32) list" where
  "collected opts = fold (\<lambda>(key, v) acc. if in_range v then assign key v acc else acc) opts []"

lemma collected_step:
  assumes "map_ok acc"
  shows "map_ok (fold (\<lambda>(key, v) acc. if in_range v then assign key v acc else acc) opts acc)
    \<and> map_of (fold (\<lambda>(key, v) acc. if in_range v then assign key v acc else acc) opts acc) =
        map_of acc ++ map_of (rev (filter (\<lambda>(k, v). in_range v) opts))"
  using assms
proof (induction opts arbitrary: acc)
  case (Cons kv opts)
  obtain k v where kv: "kv = (k, v)" by (cases kv)
  have "map_ok (if in_range v then assign k v acc else acc)" using Cons.prems by auto
  from Cons.IH[OF this] Cons.prems show ?case
    by (auto simp: kv map_of_assign map_add_def fun_eq_iff split: option.splits)
qed simp

lemma map_of_collected:
  assumes "distinct (map fst opts)"
  shows "map_ok (collected opts)"
    "map_of (collected opts) k = (case map_of opts k of Some v \<Rightarrow> if in_range v then Some v else None | None \<Rightarrow> None)"
proof -
  note c = collected_step[of "[]" opts]
  show "map_ok (collected opts)" using c by (simp add: collected_def)
  have "distinct (map fst (filter (\<lambda>(k, v). in_range v) opts))" using assms by (rule distinct_map_filter)
  then have "map_of (rev (filter (\<lambda>(k, v). in_range v) opts)) = map_of (filter (\<lambda>(k, v). in_range v) opts)"
    by (rule map_of_rev_distinct)
  moreover have "map_of (filter (\<lambda>(k, v). in_range v) opts) k =
      (case map_of opts k of Some v \<Rightarrow> if in_range v then Some v else None | None \<Rightarrow> None)"
    using map_of_filter_pred[of opts "\<lambda>k v. in_range v" k] assms by (simp add: keys_ok_def split: option.splits)
  ultimately show "map_of (collected opts) k =
      (case map_of opts k of Some v \<Rightarrow> if in_range v then Some v else None | None \<Rightarrow> None)"
    using c by (simp add: collected_def)
qed

lemma SetGlobal_table:
  assumes "keys_ok m" "distinct (map fst opts)"
  shows "keys_ok (snd (SetGlobalShareOption uid c opts m))"
    "IsCallerUidValid uid c \<Longrightarrow> map_of (snd (SetGlobalShareOption uid c opts m)) k =
       (case map_of opts k of
          Some v \<Rightarrow> if in_range v then Some \<lparr>gso_source = MDM, gso_shareOption = v\<rparr> else map_of m k
        | None \<Rightarrow> map_of m k)"
proof -
  let ?kvs = "map (\<lambda>(k, v). (k, \<lparr>gso_source = MDM, gso_shareOption = v\<rparr>)) (collected opts)"
  note put = cm.put_all[OF assms(1), of ?kvs]
  have tab: "snd (SetGlobalShareOption uid c opts m) =
      (if IsCallerUidValid uid c then fold (\<lambda>(k, v) m. snd (CM_InsertOrAssign k v m)) ?kvs m else m)"
    by (simp add: SetGlobalShareOption_def collected_def Let_def)
  show "keys_ok (snd (SetGlobalShareOption uid c opts m))" using put assms(1) by (simp add: tab)
  have "distinct (map fst ?kvs)" using map_of_collected(1)[OF assms(2)]
    by (simp add: map_ok_def comp_def case_prod_beta strict_sorted_iff)
  then have "map_of (rev ?kvs) k = map_option (\<lambda>v. \<lparr>gso_source = MDM, gso_shareOption = v\<rparr>) (map_of (collected opts) k)"
    by (simp only: map_of_rev_distinct map_of_map o_apply)
  with put show "IsCallerUidValid uid c \<Longrightarrow> map_of (snd (SetGlobalShareOption uid c opts m)) k =
       (case map_of opts k of
          Some v \<Rightarrow> if in_range v then Some \<lparr>gso_source = MDM, gso_shareOption = v\<rparr> else map_of m k
        | None \<Rightarrow> map_of m k)"
    by (simp add: tab map_add_def map_of_collected(2)[OF assms(2)] split: option.splits)
qed

lemma erase_present:
  "fst (snd (CM_ComputeIfPresent k (Some (\<lambda>k v n. (False, v, n + 1))) t c)) = snd (CM_Erase k t)"
proof (cases "map_of t k")
  case None
  then have "filter (\<lambda>e. fst e \<noteq> k) t = t" by (auto simp: filter_id_conv map_of_eq_None_iff)
  with None show ?thesis by (simp add: CM_ComputeIfPresent_def CM_Erase_def)
qed (simp add: CM_ComputeIfPresent_def)

lemma RemoveGlobal_fold:
  "fst (fold (\<lambda>tokenId (t, count :: i32).
      case CM_ComputeIfPresent tokenId (Some (\<lambda>k v n. (False, v, n + 1))) t count of
        (_, t', count') \<Rightarrow> (t', count')) ids (m, n)) = fold (\<lambda>k t. snd (CM_Erase k t)) ids m"
proof (induction ids arbitrary: m n)
  case (Cons k ids)
  obtain r t' c' where cp: "CM_ComputeIfPresent k (Some (\<lambda>k v n. (False, v, n + 1))) m n = (r, t', c')"
    by (cases "CM_ComputeIfPresent k (Some (\<lambda>k v n. (False, v, n + 1))) m n")
  with erase_present[of k m n] have "t' = snd (CM_Erase k m)" by simp
  with Cons.IH show ?case by (simp add: cp)
qed simp

lemma RemoveGlobal_table:
  assumes "keys_ok m"
  shows "keys_ok (snd (RemoveGlobalShareOption uid c ids m))"
    "IsCallerUidValid uid c \<Longrightarrow>
       map_of (snd (RemoveGlobalShareOption uid c ids m)) = (map_of m) |` (- set ids)"
  using cm.remove_all[OF assms, of ids] assms
  unfolding RemoveGlobalShareOption_def RemoveGlobal_fold by simp_all

lemma SetApp_table:
  assumes "keys_ok m"
  shows "keys_ok (snd (SetAppShareOptions c so m))"
    "map_of (snd (SetAppShareOptions c so m)) k =
       (if fst (SetAppShareOptions c so m) = 0 \<and> k = c_tokenId c
        then Some \<lparr>gso_source = APP, gso_shareOption = so\<rparr> else map_of m k)"
  using keys_ok_ops(9)[OF assms, of "c_tokenId c" "Some (\<lambda>_. \<lparr>gso_source = APP, gso_shareOption = so\<rparr>)"] assms
  by (auto simp: SetAppShareOptions_def CM_ComputeIfAbsent_def CM_Emplace_def err_defs err_base_def
      split: if_splits option.splits)

lemma RemoveApp_table:
  assumes "keys_ok m"
  shows "keys_ok (snd (RemoveAppShareOptions c m))"
    "map_of (snd (RemoveAppShareOptions c m)) k = map_of m k \<or>
       (k = c_tokenId c \<and> map_of (snd (RemoveAppShareOptions c m)) k = None
        \<and> (\<exists>o'. map_of m k = Some o' \<and> gso_source o' = APP))"
proof -
  have same: "map_of m k = Some v \<Longrightarrow> set_value k v m = m" for k v
    using assms by (induction m) (auto simp: keys_ok_def)
  have e: "keys_ok (snd (CM_Erase (c_tokenId c) m))" using assms by (rule keys_ok_ops)
  show "keys_ok (snd (RemoveAppShareOptions c m))" using assms e
    by (auto simp: RemoveAppShareOptions_def CM_ComputeIfPresent_def same split: option.splits)
  show "map_of (snd (RemoveAppShareOptions c m)) k = map_of m k \<or>
       (k = c_tokenId c \<and> map_of (snd (RemoveAppShareOptions c m)) k = None
        \<and> (\<exists>o'. map_of m k = Some o' \<and> gso_source o' = APP))"
    by (auto simp: RemoveAppShareOptions_def CM_ComputeIfPresent_def same lookup_ops split: option.splits)
qed

section \<open>Requests in sequence\<close>

datatype share_request =
    SetGlobal caller "(u32 \<times> i32) list"
  | RemoveGlobal caller "u32 list"
  | SetApp caller i32
  | RemoveApp caller

fun share_step :: "i32 \<Rightarrow> share_request \<Rightarrow> share_table \<Rightarrow> share_table" where
  "share_step uid (SetGlobal c opts) m = snd (SetGlobalShareOption uid c opts m)"
| "share_step uid (RemoveGlobal c ids) m = snd (RemoveGlobalShareOption uid c ids m)"
| "share_step uid (SetApp c so) m = snd (SetAppShareOptions c so m)"
| "share_step uid (RemoveApp c) m = snd (RemoveAppShareOptions c m)"

text \<open>The options of a request are an \<open>unordered_map\<close>: its keys are different.\<close>

fun request_ok :: "share_request \<Rightarrow> bool" where
  "request_ok (SetGlobal c opts) \<longleftrightarrow> distinct (map fst opts)"
| "request_ok _ \<longleftrightarrow> True"

text \<open>The requests that may decide about the token: those of the device management for it.\<close>

fun manages :: "i32 \<Rightarrow> u32 \<Rightarrow> share_request \<Rightarrow> bool" where
  "manages uid t (SetGlobal c opts) \<longleftrightarrow> IsCallerUidValid uid c \<and> t \<in> fst ` set opts"
| "manages uid t (RemoveGlobal c ids) \<longleftrightarrow> IsCallerUidValid uid c \<and> t \<in> set ids"
| "manages uid t _ \<longleftrightarrow> False"

lemma share_step_keys: "keys_ok m \<Longrightarrow> request_ok r \<Longrightarrow> keys_ok (share_step uid r m)"
  by (cases r) (simp_all add: SetGlobal_table RemoveGlobal_table SetApp_table RemoveApp_table)

lemma share_step_mdm:
  assumes "keys_ok m" "request_ok r" "\<not> manages uid t r" "map_of m t = Some o'" "gso_source o' = MDM"
  shows "map_of (share_step uid r m) t = Some o'"
proof (cases r)
  case (SetGlobal c opts)
  show ?thesis
  proof (cases "IsCallerUidValid uid c")
    case True
    with assms(3) SetGlobal have "map_of opts t = None" by (simp add: map_of_eq_None_iff)
    with True assms SetGlobal show ?thesis by (simp add: SetGlobal_table)
  qed (simp add: SetGlobal SetGlobalShareOption_def assms(4))
next
  case (RemoveGlobal c ids)
  show ?thesis
  proof (cases "IsCallerUidValid uid c")
    case True
    with assms RemoveGlobal show ?thesis by (simp add: RemoveGlobal_table restrict_map_def)
  qed (simp add: RemoveGlobal RemoveGlobalShareOption_def assms(4))
next
  case (SetApp c so)
  have "fst (SetAppShareOptions c so m) \<noteq> 0" if "t = c_tokenId c"
    using that assms(4) by (auto simp: SetAppShareOptions_def CM_ComputeIfAbsent_def err_defs err_base_def)
  with assms(1,4) SetApp show ?thesis by (auto simp: SetApp_table)
next
  case (RemoveApp c)
  with RemoveApp_table(2)[OF assms(1), of c t] assms(4,5) show ?thesis by auto
qed

lemma share_steps_mdm:
  assumes "keys_ok m" "\<forall>r \<in> set rs. request_ok r \<and> \<not> manages uid t r" "map_of m t = Some o'" "gso_source o' = MDM"
  shows "map_of (fold (share_step uid) rs m) t = Some o' \<and> keys_ok (fold (share_step uid) rs m)"
  using assms
  by (induction rs arbitrary: m) (simp_all add: share_step_mdm share_step_keys)

lemma UpdateShareOption_eq:
  "UpdateShareOption m d = (case map_of m (prop_tokenId (pd_props d)) of
      None \<Rightarrow> d
    | Some o' \<Rightarrow> d\<lparr>pd_props := (pd_props d)\<lparr>prop_shareOption := gso_shareOption o'\<rparr>\<rparr>)"
  by (simp add: UpdateShareOption_def results_ops split: option.split)


definition sample_app :: caller where
  "sample_app = \<lparr>c_uid = 20010, c_pid = 5, c_tokenId = 7, c_fullTokenId = 7, c_userId = 100, c_manageShare = True\<rparr>"


lemma each_collect:
  assumes "map_ok res" "keys_ok m"
  shows "map_ok (snd (each_loop (\<lambda>key v res. (False, v, assign key (gso_shareOption v) res)) m res))
    \<and> map_of (snd (each_loop (\<lambda>key v res. (False, v, assign key (gso_shareOption v) res)) m res)) =
        map_of res ++ map_of (map (\<lambda>(k, v). (k, gso_shareOption v)) m)"
  using assms
proof (induction m arbitrary: res)
  case (Cons kv m)
  obtain k v where kv: "kv = (k, v)" by (cases kv)
  have ok: "map_ok (assign k (gso_shareOption v) res)" "keys_ok m" using Cons.prems by (auto simp: keys_ok_def)
  have k: "map_of (map (\<lambda>(k, v). (k, gso_shareOption v)) m) k = None"
    using Cons.prems(2) by (simp add: kv keys_ok_def map_of_map map_of_eq_None_iff)
  obtain x y where xy: "each_loop (\<lambda>key v res. (False, v, assign key (gso_shareOption v) res)) m
      (assign k (gso_shareOption v) res) = (x, y)" by force
  from Cons.IH[OF ok] Cons.prems(1) k show ?case
    by (auto simp: kv xy map_of_assign map_add_def fun_eq_iff split: option.splits)
qed simp

lemma get_fold:
  assumes "map_ok res"
  shows "map_ok (fold (\<lambda>t res. snd (snd (CM_ComputeIfPresent t
        (Some (\<lambda>key v res. (True, v, assign key (gso_shareOption v) res))) m res))) ids res)
    \<and> map_of (fold (\<lambda>t res. snd (snd (CM_ComputeIfPresent t
        (Some (\<lambda>key v res. (True, v, assign key (gso_shareOption v) res))) m res))) ids res) k =
      (if k \<in> set ids \<and> map_of m k \<noteq> None then map_option gso_shareOption (map_of m k) else map_of res k)"
  using assms
proof (induction ids arbitrary: res)
  case (Cons t ids)
  let ?r = "snd (snd (CM_ComputeIfPresent t (Some (\<lambda>key v res. (True, v, assign key (gso_shareOption v) res))) m res))"
  have r: "?r = (case map_of m t of None \<Rightarrow> res | Some v \<Rightarrow> assign t (gso_shareOption v) res)"
    by (simp add: results_ops split: option.split)
  have "map_ok ?r" using Cons.prems by (auto simp: r split: option.split)
  from Cons.IH[OF this] show ?case
    using Cons.prems by (auto simp: r map_of_assign split: option.splits)
qed simp

text \<open>What the device management sets it reads back: after \<open>SetGlobalShareOption\<close>, a query
  for some tokens, or for all with an empty list, returns the new option of every token that was
  given a valid one and the old option of every other token. Options out of range are ignored
  and a caller without the management uid reads and changes nothing.\<close>

theorem share_options_roundtrip:
  assumes "keys_ok m" "distinct (map fst opts)"
  shows "(IsCallerUidValid uid c \<longrightarrow>
      fst (SetGlobalShareOption uid c opts m) = 0
      \<and> (\<exists>res. GetGlobalShareOption uid c ids (snd (SetGlobalShareOption uid c opts m)) = (0, res)
         \<and> (\<forall>k. map_of res k = (if ids = [] \<or> k \<in> set ids
              then (case map_of opts k of
                      Some v \<Rightarrow> if IsValidShareOption v then Some v else map_option gso_shareOption (map_of m k)
                    | None \<Rightarrow> map_option gso_shareOption (map_of m k))
              else None))))
    \<and> (\<not> IsCallerUidValid uid c \<longrightarrow> SetGlobalShareOption uid c opts m = (PERMISSION_VERIFICATION_ERROR, m)
      \<and> RemoveGlobalShareOption uid c ids m = (PERMISSION_VERIFICATION_ERROR, m)
      \<and> GetGlobalShareOption uid c ids m = (PERMISSION_VERIFICATION_ERROR, []))"
proof (rule conjI)
  let ?m = "snd (SetGlobalShareOption uid c opts m)"
  note tab = SetGlobal_table[OF assms, of uid c]
  show "IsCallerUidValid uid c \<longrightarrow> fst (SetGlobalShareOption uid c opts m) = 0
      \<and> (\<exists>res. GetGlobalShareOption uid c ids ?m = (0, res)
         \<and> (\<forall>k. map_of res k = (if ids = [] \<or> k \<in> set ids
              then (case map_of opts k of
                      Some v \<Rightarrow> if IsValidShareOption v then Some v else map_option gso_shareOption (map_of m k)
                    | None \<Rightarrow> map_option gso_shareOption (map_of m k))
              else None)))"
  proof
    assume c: "IsCallerUidValid uid c"
    have "map_option gso_shareOption (map_of ?m k) = (case map_of opts k of
        Some v \<Rightarrow> if IsValidShareOption v then Some v else map_option gso_shareOption (map_of m k)
      | None \<Rightarrow> map_option gso_shareOption (map_of m k))" for k
      using c by (simp add: tab in_range_iff split: option.split)
    moreover have "map_of (snd (GetGlobalShareOption uid c ids ?m)) k =
        (if ids = [] \<or> k \<in> set ids then map_option gso_shareOption (map_of ?m k) else None)" for k
      using c each_collect[OF map_ok_Nil tab(1)] get_fold[OF map_ok_Nil, of ?m ids k]
      by (auto simp: GetGlobalShareOption_def Let_def CM_ForEach_def map_of_map)
    moreover have "fst (GetGlobalShareOption uid c ids ?m) = 0" "fst (SetGlobalShareOption uid c opts m) = 0"
      using c by (simp_all add: GetGlobalShareOption_def SetGlobalShareOption_def Let_def)
    ultimately show "fst (SetGlobalShareOption uid c opts m) = 0
      \<and> (\<exists>res. GetGlobalShareOption uid c ids ?m = (0, res)
         \<and> (\<forall>k. map_of res k = (if ids = [] \<or> k \<in> set ids
              then (case map_of opts k of
                      Some v \<Rightarrow> if IsValidShareOption v then Some v else map_option gso_shareOption (map_of m k)
                    | None \<Rightarrow> map_option gso_shareOption (map_of m k))
              else None)))"
      by (intro conjI exI[of _ "snd (GetGlobalShareOption uid c ids ?m)"] allI prod_eqI) simp_all
  qed
qed (simp add: SetGlobalShareOption_def RemoveGlobalShareOption_def GetGlobalShareOption_def)

definition sample_mdm :: caller where
  "sample_mdm = sample_app\<lparr>c_uid := EDM_UID\<rparr>"

theorem share_options_roundtrip_witness:
  "\<exists>res. GetGlobalShareOption 1000 sample_mdm [7] (snd (SetGlobalShareOption 1000 sample_mdm [(7, 1), (8, 9)] []))
     = (0, res) \<and> map_of res 7 = Some 1"
  using share_options_roundtrip[of "[]" "[(7, 1), (8, 9)]" 1000 sample_mdm "[7]"]
  by (auto simp: keys_ok_def IsCallerUidValid_def sample_mdm_def IsValidShareOption_def LocalDevice_def)

end
