(* ===== verification/Observers.thy ===== *)
theory Observers
  imports Share_Options
begin

text \<open>
  The observers of pasteboard changes in \<open>services/core/src/pasteboard_service.cpp\<close>: three maps
  from a user and a process to the observers that process registered, for local changes, for
  remote changes and for events. Event observers belong to the common user. The
  \<open>std::set\<close> behind each key is a set of observers; the process of the input method of a user
  is remembered when it subscribes or unsubscribes. Notifications are values.
\<close>

type_synonym observer_map = "i32 \<times> i32 \<rightharpoonup> nat set"

record observer_state =
  observerLocalChangedMap :: observer_map
  observerRemoteChangedMap :: observer_map
  observerEventMap :: observer_map
  imeMap :: "(i32, i32) entries"

definition ERROR_USERID :: i32 where "ERROR_USERID = - 1"
definition COMMON_USERID :: i32 where "COMMON_USERID = 0"
definition MAX_OBSERVER_COUNT :: nat where "MAX_OBSERVER_COUNT = 10"

definition OBSERVER_LOCAL :: u32 where "OBSERVER_LOCAL = 1"
definition OBSERVER_REMOTE :: u32 where "OBSERVER_REMOTE = 2"
definition OBSERVER_EVENT :: u32 where "OBSERVER_EVENT = 4"

definition has_bit :: "u32 \<Rightarrow> u32 \<Rightarrow> bool" where
  "has_bit ty b \<longleftrightarrow> ty AND b \<noteq> 0"

section \<open>The maps\<close>

definition GetObserversSize :: "i32 \<Rightarrow> i32 \<Rightarrow> observer_map \<Rightarrow> nat" where
  "GetObserversSize userId pid om = (case om (userId, pid) of None \<Rightarrow> 0 | Some obs \<Rightarrow> card obs)"

definition GetAllObserversSize :: "i32 \<Rightarrow> i32 \<Rightarrow> observer_state \<Rightarrow> nat" where
  "GetAllObserversSize userId pid s =
     GetObserversSize userId pid (observerLocalChangedMap s)
     + GetObserversSize userId pid (observerRemoteChangedMap s)
     + GetObserversSize COMMON_USERID pid (observerEventMap s)"

text \<open>\<open>get\<close> and \<open>put\<close> select the map a method works on.\<close>

datatype which_map = LocalMap | RemoteMap | EventMap

fun get_map :: "which_map \<Rightarrow> observer_state \<Rightarrow> observer_map" where
  "get_map LocalMap s = observerLocalChangedMap s"
| "get_map RemoteMap s = observerRemoteChangedMap s"
| "get_map EventMap s = observerEventMap s"

fun put_map :: "which_map \<Rightarrow> observer_map \<Rightarrow> observer_state \<Rightarrow> observer_state" where
  "put_map LocalMap om s = s\<lparr>observerLocalChangedMap := om\<rparr>"
| "put_map RemoteMap om s = s\<lparr>observerRemoteChangedMap := om\<rparr>"
| "put_map EventMap om s = s\<lparr>observerEventMap := om\<rparr>"

definition AddObserver ::
    "i32 \<Rightarrow> i32 \<Rightarrow> nat option \<Rightarrow> which_map \<Rightarrow> observer_state \<Rightarrow> bool \<times> observer_state" where
  "AddObserver userId callPid observer w s = (case observer of
      None \<Rightarrow> (False, s)
    | Some obs \<Rightarrow>
        (let key = (userId, callPid);
             s1 = (case get_map w s key of
                     Some _ \<Rightarrow> s
                   | None \<Rightarrow> put_map w ((get_map w s)(key \<mapsto> {})) s)
         in if GetAllObserversSize userId callPid s1 \<ge> MAX_OBSERVER_COUNT then (False, s1)
            else (True, put_map w ((get_map w s1)(key \<mapsto> insert obs (the (get_map w s1 key)))) s1)))"

definition RemoveSingleObserver ::
    "i32 \<Rightarrow> i32 \<Rightarrow> nat option \<Rightarrow> which_map \<Rightarrow> observer_state \<Rightarrow> observer_state" where
  "RemoveSingleObserver userId callPid observer w s = (case observer of
      None \<Rightarrow> s
    | Some obs \<Rightarrow> (case get_map w s (userId, callPid) of
        None \<Rightarrow> s
      | Some os \<Rightarrow> put_map w ((get_map w s)((userId, callPid) \<mapsto> os - {obs})) s))"

definition RemoveObserverByPid :: "i32 \<Rightarrow> i32 \<Rightarrow> which_map \<Rightarrow> observer_state \<Rightarrow> observer_state" where
  "RemoveObserverByPid userId pid w s = (case get_map w s (userId, pid) of
      None \<Rightarrow> s
    | Some _ \<Rightarrow> put_map w ((get_map w s)((userId, pid) := None)) s)"

definition RemoveAllObserver :: "i32 \<Rightarrow> which_map \<Rightarrow> observer_state \<Rightarrow> observer_state" where
  "RemoveAllObserver userId w s = put_map w (\<lambda>k. if fst k = userId then None else get_map w s k) s"

section \<open>The process of the input method\<close>

text \<open>\<open>isIme\<close> is the answer of the input method controller, \<open>None\<close> when there is none.\<close>

definition SetInputMethodPid ::
    "(i32 \<Rightarrow> i32 \<Rightarrow> bool) option \<Rightarrow> i32 \<Rightarrow> i32 \<Rightarrow> observer_state \<Rightarrow> observer_state" where
  "SetInputMethodPid isIme userId callPid s = (case isIme of
      None \<Rightarrow> s
    | Some f \<Rightarrow> if f callPid userId then s\<lparr>imeMap := snd (CM_InsertOrAssign userId callPid (imeMap s))\<rparr> else s)"

definition ClearInputMethodPidByPid :: "i32 \<Rightarrow> i32 \<Rightarrow> observer_state \<Rightarrow> observer_state" where
  "ClearInputMethodPidByPid userId callPid s =
     (case CM_Find 0 userId (imeMap s) of (hasPid, pid) \<Rightarrow>
        if hasPid \<and> callPid = pid then s\<lparr>imeMap := snd (CM_Erase userId (imeMap s))\<rparr> else s)"

section \<open>The requests\<close>

definition observer_user :: "u32 \<Rightarrow> caller \<Rightarrow> i32" where
  "observer_user ty c = (if has_bit ty OBSERVER_EVENT then COMMON_USERID else c_userId c)"

definition AddObserver_if ::
    "bool \<Rightarrow> i32 \<Rightarrow> i32 \<Rightarrow> nat option \<Rightarrow> which_map \<Rightarrow> observer_state \<Rightarrow> bool \<times> observer_state" where
  "AddObserver_if b userId callPid observer w s =
     (if b then AddObserver userId callPid observer w s else (False, s))"

definition SubscribeObserver :: "i32 \<Rightarrow> (i32 \<Rightarrow> i32 \<Rightarrow> bool) option \<Rightarrow> caller \<Rightarrow> u32 \<Rightarrow> nat option \<Rightarrow>
    observer_state \<Rightarrow> i32 \<times> observer_state" where
  "SubscribeObserver uid isIme c ty observer s0 =
     (let userId = observer_user ty c;
          s = SetInputMethodPid isIme userId (c_pid c) s0
      in if userId = ERROR_USERID then (INVALID_USERID_ERROR, s)
         else
           (let (a1, s1) = AddObserver_if (has_bit ty OBSERVER_LOCAL) userId (c_pid c) observer LocalMap s;
                (a2, s2) = AddObserver_if (has_bit ty OBSERVER_REMOTE) userId (c_pid c) observer RemoteMap s1;
                (a3, s3) = AddObserver_if (has_bit ty OBSERVER_EVENT \<and> IsCallerUidValid uid c)
                             userId (c_pid c) observer EventMap s2
            in (if a1 \<or> a2 \<or> a3 then 0 else ADD_OBSERVER_FAILED, s3)))"

definition ResubscribeObserver :: "i32 \<Rightarrow> (i32 \<Rightarrow> i32 \<Rightarrow> bool) option \<Rightarrow> bool \<Rightarrow> caller \<Rightarrow> u32 \<Rightarrow> nat option \<Rightarrow>
    observer_state \<Rightarrow> i32 \<times> observer_state" where
  "ResubscribeObserver uid isIme isHap c ty observer s =
     (if isHap then SubscribeObserver uid isIme c ty observer s else (0, s))"

definition UnsubscribeObserver ::
    "i32 \<Rightarrow> caller \<Rightarrow> u32 \<Rightarrow> nat option \<Rightarrow> observer_state \<Rightarrow> i32 \<times> observer_state" where
  "UnsubscribeObserver uid c ty observer s0 =
     (let userId = observer_user ty c;
          s = ClearInputMethodPidByPid userId (c_pid c) s0
      in if userId = ERROR_USERID then (INVALID_USERID_ERROR, s)
         else
           (let s1 = (if has_bit ty OBSERVER_LOCAL then RemoveSingleObserver userId (c_pid c) observer LocalMap s else s);
                s2 = (if has_bit ty OBSERVER_REMOTE then RemoveSingleObserver userId (c_pid c) observer RemoteMap s1 else s1);
                s3 = (if has_bit ty OBSERVER_EVENT \<and> IsCallerUidValid uid c
                      then RemoveSingleObserver userId (c_pid c) observer EventMap s2 else s2)
            in (0, s3)))"

definition UnsubscribeAllObserver :: "i32 \<Rightarrow> caller \<Rightarrow> u32 \<Rightarrow> observer_state \<Rightarrow> i32 \<times> observer_state" where
  "UnsubscribeAllObserver uid c ty s0 =
     (let userId = observer_user ty c;
          s = ClearInputMethodPidByPid userId (c_pid c) s0
      in if userId = ERROR_USERID then (INVALID_USERID_ERROR, s)
         else
           (let s1 = (if has_bit ty OBSERVER_LOCAL then RemoveObserverByPid userId (c_pid c) LocalMap s else s);
                s2 = (if has_bit ty OBSERVER_REMOTE then RemoveObserverByPid userId (c_pid c) RemoteMap s1 else s1);
                s3 = (if has_bit ty OBSERVER_EVENT \<and> IsCallerUidValid uid c
                      then RemoveObserverByPid userId (c_pid c) EventMap s2 else s2)
            in (0, s3)))"

text \<open>The part of \<open>AppExit\<close> that concerns the observers.\<close>

definition exit_observers :: "i32 \<Rightarrow> i32 \<Rightarrow> observer_state \<Rightarrow> observer_state" where
  "exit_observers pid userId s =
     ClearInputMethodPidByPid userId pid
       (RemoveObserverByPid COMMON_USERID pid EventMap
          (RemoveObserverByPid userId pid RemoteMap (RemoveObserverByPid userId pid LocalMap s)))"

section \<open>Notifications\<close>

datatype event_status = PASTEBOARD_READ | PASTEBOARD_WRITE | PASTEBOARD_CLEAR

datatype notification =
    OnPasteboardChanged nat
  | OnPasteboardEvent nat event_status i32 string

definition NotifyObservers :: "string \<Rightarrow> i32 \<Rightarrow> event_status \<Rightarrow> observer_state \<Rightarrow> notification set" where
  "NotifyObservers bundleName userId status s =
     {OnPasteboardChanged obs | obs k os. observerLocalChangedMap s k = Some os \<and> obs \<in> os
        \<and> status \<noteq> PASTEBOARD_READ \<and> userId = fst k}
     \<union> {OnPasteboardEvent obs status userId bundleName | obs k os. observerEventMap s k = Some os \<and> obs \<in> os}"

section \<open>The registered observers\<close>

definition obs_of :: "which_map \<Rightarrow> i32 \<Rightarrow> i32 \<Rightarrow> observer_state \<Rightarrow> nat set" where
  "obs_of w u p s = (case get_map w s (u, p) of None \<Rightarrow> {} | Some os \<Rightarrow> os)"

lemma get_put [simp]: "get_map w' (put_map w om s) = (if w' = w then om else get_map w' s)"
  by (cases w; cases w') simp_all

lemma ime_put [simp]: "get_map w (s\<lparr>imeMap := m\<rparr>) = get_map w s"
  by (cases w) simp_all

lemma size_obs: "GetAllObserversSize u p s =
    card (obs_of LocalMap u p s) + card (obs_of RemoteMap u p s) + card (obs_of EventMap COMMON_USERID p s)"
  by (simp add: GetAllObserversSize_def GetObserversSize_def obs_of_def split: option.split)

lemma AddObserver_result:
  "fst (AddObserver u p observer w s) \<longleftrightarrow> observer \<noteq> None \<and> GetAllObserversSize u p s < MAX_OBSERVER_COUNT"
proof -
  have "GetAllObserversSize u p (put_map w ((get_map w s)((u, p) \<mapsto> {})) s) = GetAllObserversSize u p s"
    if "get_map w s (u, p) = None"
    using that by (cases w) (auto simp: size_obs obs_of_def)
  then show ?thesis by (auto simp: AddObserver_def Let_def split: option.splits)
qed

lemma AddObserver_obs:
  "obs_of w' u' p' (snd (AddObserver u p observer w s)) =
     (if fst (AddObserver u p observer w s) \<and> w' = w \<and> u' = u \<and> p' = p
      then insert (the observer) (obs_of w u p s) else obs_of w' u' p' s)"
  by (auto simp: AddObserver_def obs_of_def Let_def split: option.splits)

lemma RemoveSingle_obs:
  "obs_of w' u' p' (RemoveSingleObserver u p observer w s) =
     (if observer \<noteq> None \<and> w' = w \<and> u' = u \<and> p' = p
      then obs_of w u p s - {the observer} else obs_of w' u' p' s)"
  by (auto simp: RemoveSingleObserver_def obs_of_def split: option.splits)

lemma RemoveByPid_obs:
  "obs_of w' u' p' (RemoveObserverByPid u p w s) =
     (if w' = w \<and> u' = u \<and> p' = p then {} else obs_of w' u' p' s)"
  by (auto simp: RemoveObserverByPid_def obs_of_def split: option.splits)

lemma RemoveAll_obs:
  "obs_of w' u' p' (RemoveAllObserver u w s) = (if w' = w \<and> u' = u then {} else obs_of w' u' p' s)"
  by (auto simp: RemoveAllObserver_def obs_of_def split: option.splits)

lemma ime_obs [simp]:
  "obs_of w u p (SetInputMethodPid isIme v q s) = obs_of w u p s"
  "obs_of w u p (ClearInputMethodPidByPid v q s) = obs_of w u p s"
  by (simp_all add: obs_of_def SetInputMethodPid_def ClearInputMethodPidByPid_def split: option.split prod.split)

lemmas obs_simps = AddObserver_obs RemoveSingle_obs RemoveByPid_obs RemoveAll_obs

definition shrinks :: "observer_state \<Rightarrow> observer_state \<Rightarrow> bool" where
  "shrinks s' s \<longleftrightarrow> (\<forall>w u p. obs_of w u p s' \<subseteq> obs_of w u p s)"

lemma shrinks_trans: "shrinks s'' s' \<Longrightarrow> shrinks s' s \<Longrightarrow> shrinks s'' s"
  unfolding shrinks_def by blast

lemma shrinks_ops:
  "shrinks s s" "shrinks (RemoveSingleObserver u p observer w s) s" "shrinks (RemoveObserverByPid u p w s) s"
  "shrinks (RemoveAllObserver u w s) s" "shrinks (ClearInputMethodPidByPid u p s) s"
  "shrinks (SetInputMethodPid isIme u p s) s"
  by (auto simp: shrinks_def obs_simps split: if_splits)

section \<open>How many observers a process can register\<close>

definition limits :: "observer_state \<Rightarrow> bool" where
  "limits s \<longleftrightarrow> (\<forall>w u p. finite (obs_of w u p s))
     \<and> (\<forall>u p. card (obs_of LocalMap u p s) + card (obs_of RemoteMap u p s) \<le> MAX_OBSERVER_COUNT)
     \<and> (\<forall>p. card (obs_of LocalMap COMMON_USERID p s) + card (obs_of RemoteMap COMMON_USERID p s)
            + card (obs_of EventMap COMMON_USERID p s) \<le> MAX_OBSERVER_COUNT)"

lemma limits_shrinks:
  assumes "limits s" "shrinks s' s"
  shows "limits s'"
proof -
  have fin: "finite (obs_of w u p s')" for w u p
    using assms by (meson finite_subset limits_def shrinks_def)
  have le: "card (obs_of w u p s') \<le> card (obs_of w u p s)" for w u p
    using assms by (meson card_mono limits_def shrinks_def)
  show ?thesis using assms(1) fin
    unfolding limits_def by (meson add_mono le le_trans)
qed

lemma limits_Add:
  assumes "limits s" "w = EventMap \<longrightarrow> u = COMMON_USERID"
  shows "limits (snd (AddObserver u p observer w s))"
proof (cases "fst (AddObserver u p observer w s)")
  case False
  then have "shrinks (snd (AddObserver u p observer w s)) s" by (simp add: shrinks_def obs_simps)
  with assms(1) show ?thesis by (rule limits_shrinks)
next
  case True
  let ?s = "snd (AddObserver u p observer w s)"
  have room: "card (obs_of LocalMap u p s) + card (obs_of RemoteMap u p s)
      + card (obs_of EventMap COMMON_USERID p s) < MAX_OBSERVER_COUNT"
    using True by (simp add: AddObserver_result size_obs)
  have ins: "card (obs_of w' u' p' ?s) \<le> card (obs_of w' u' p' s) + (if w' = w \<and> u' = u \<and> p' = p then 1 else 0)"
    for w' u' p'
    using assms(1) by (simp add: obs_simps True limits_def card_insert_if)
  have fin: "finite (obs_of w' u' p' ?s)" for w' u' p'
    using assms(1) by (simp add: obs_simps limits_def)
  have old: "card (obs_of LocalMap u' p' s) + card (obs_of RemoteMap u' p' s) \<le> MAX_OBSERVER_COUNT" for u' p'
    using assms(1) by (simp add: limits_def)
  have "card (obs_of LocalMap u' p' ?s) + card (obs_of RemoteMap u' p' ?s) \<le> MAX_OBSERVER_COUNT" for u' p'
    using ins[of LocalMap u' p'] ins[of RemoteMap u' p'] room old[of u' p']
    by (cases w; cases "u' = u \<and> p' = p") auto
  moreover have "card (obs_of LocalMap COMMON_USERID p' ?s) + card (obs_of RemoteMap COMMON_USERID p' ?s)
      + card (obs_of EventMap COMMON_USERID p' ?s) \<le> MAX_OBSERVER_COUNT" for p'
  proof (cases "u = COMMON_USERID \<and> p' = p")
    case True
    then show ?thesis using ins[of LocalMap u p] ins[of RemoteMap u p] ins[of EventMap u p] room
      by (cases w) auto
  next
    case False
    then have "w \<noteq> EventMap \<or> p' \<noteq> p" using assms(2) by blast
    with False have "obs_of w' COMMON_USERID p' ?s = obs_of w' COMMON_USERID p' s" for w'
      using assms(2) by (auto simp: obs_simps)
    with assms(1) show ?thesis by (simp add: limits_def)
  qed
  ultimately show ?thesis using fin unfolding limits_def by blast
qed

datatype observer_request =
    Subscribe caller u32 "nat option"
  | Resubscribe bool caller u32 "nat option"
  | Unsubscribe caller u32 "nat option"
  | UnsubscribeAll caller u32
  | ProcessExit i32 i32
  | UserRemoved i32 which_map

fun observer_step :: "i32 \<Rightarrow> (i32 \<Rightarrow> i32 \<Rightarrow> bool) option \<Rightarrow> observer_request \<Rightarrow> observer_state \<Rightarrow> observer_state" where
  "observer_step uid isIme (Subscribe c ty obs) s = snd (SubscribeObserver uid isIme c ty obs s)"
| "observer_step uid isIme (Resubscribe hap c ty obs) s = snd (ResubscribeObserver uid isIme hap c ty obs s)"
| "observer_step uid isIme (Unsubscribe c ty obs) s = snd (UnsubscribeObserver uid c ty obs s)"
| "observer_step uid isIme (UnsubscribeAll c ty) s = snd (UnsubscribeAllObserver uid c ty s)"
| "observer_step uid isIme (ProcessExit pid u) s = exit_observers pid u s"
| "observer_step uid isIme (UserRemoved u w) s = RemoveAllObserver u w s"

definition no_observers :: observer_state where
  "no_observers = \<lparr>observerLocalChangedMap = Map.empty, observerRemoteChangedMap = Map.empty,
     observerEventMap = Map.empty, imeMap = []\<rparr>"

lemma limits_Add_if:
  "limits s \<Longrightarrow> (b \<Longrightarrow> w = EventMap \<Longrightarrow> u = COMMON_USERID) \<Longrightarrow> AddObserver_if b u p obs w s = (r, s') \<Longrightarrow> limits s'"
  using limits_Add[of s w u p obs] by (auto simp: AddObserver_if_def split: if_splits)

lemma limits_Subscribe:
  assumes "limits s"
  shows "limits (snd (SubscribeObserver uid isIme c ty obs s))"
proof -
  let ?u = "observer_user ty c" and ?p = "c_pid c"
  let ?s = "SetInputMethodPid isIme ?u ?p s"
  obtain a1 s1 where 1: "AddObserver_if (has_bit ty OBSERVER_LOCAL) ?u ?p obs LocalMap ?s = (a1, s1)" by force
  obtain a2 s2 where 2: "AddObserver_if (has_bit ty OBSERVER_REMOTE) ?u ?p obs RemoteMap s1 = (a2, s2)" by force
  obtain a3 s3 where 3: "AddObserver_if (has_bit ty OBSERVER_EVENT \<and> IsCallerUidValid uid c) ?u ?p obs EventMap s2
      = (a3, s3)" by force
  have l: "limits ?s" using assms shrinks_ops(6) by (rule limits_shrinks)
  have "limits s1" by (rule limits_Add_if[OF l _ 1]) simp
  then have "limits s2" by (rule limits_Add_if[OF _ _ 2]) simp
  then have "limits s3" by (rule limits_Add_if[OF _ _ 3]) (simp add: observer_user_def)
  with l show ?thesis by (auto simp: SubscribeObserver_def Let_def 1 2 3)
qed

lemma shrinks_if: "shrinks s' s \<Longrightarrow> shrinks (if b then f s' else s') s \<longleftrightarrow> (b \<longrightarrow> shrinks (f s') s)"
  by simp

lemma shrinks_step:
  "shrinks s' s \<Longrightarrow> shrinks (RemoveSingleObserver u p observer w s') s"
  "shrinks s' s \<Longrightarrow> shrinks (RemoveObserverByPid u p w s') s"
  "shrinks s' s \<Longrightarrow> shrinks (ClearInputMethodPidByPid u p s') s"
  by (meson shrinks_ops shrinks_trans)+

lemma shrinks_requests:
  "shrinks (snd (UnsubscribeObserver uid c ty obs s)) s" "shrinks (snd (UnsubscribeAllObserver uid c ty s)) s"
  "shrinks (exit_observers pid u s) s"
  by (simp_all add: UnsubscribeObserver_def UnsubscribeAllObserver_def exit_observers_def Let_def
      shrinks_step shrinks_ops)

lemma limits_step: "limits s \<Longrightarrow> limits (observer_step uid isIme r s)"
  by (cases r) (auto simp: limits_Subscribe ResubscribeObserver_def
      intro: limits_shrinks shrinks_requests shrinks_ops)

lemma limits_steps: "limits s \<Longrightarrow> limits (fold (observer_step uid isIme) rs s)"
  by (induction rs arbitrary: s) (simp_all add: limits_step)

lemma limits_initial: "limits no_observers"
proof -
  have "obs_of w u p no_observers = {}" for w u p by (cases w) (simp_all add: obs_of_def no_observers_def)
  then show ?thesis by (simp add: limits_def)
qed

text \<open>C37: The tables of change observers stay bounded under every sequence of requests: for a user
  and a process the observers for local and remote changes together never exceed the limit of
  ten, the event observers of a process never exceed it either, so that a process holds at most
  twenty, and every set is finite.\<close>

theorem observers_bounded:
  "\<forall>u p. finite (obs_of w u p (fold (observer_step uid isIme) rs no_observers))
     \<and> card (obs_of LocalMap u p (fold (observer_step uid isIme) rs no_observers))
       + card (obs_of RemoteMap u p (fold (observer_step uid isIme) rs no_observers)) \<le> MAX_OBSERVER_COUNT
     \<and> card (obs_of EventMap COMMON_USERID p (fold (observer_step uid isIme) rs no_observers)) \<le> MAX_OBSERVER_COUNT
     \<and> GetAllObserversSize u p (fold (observer_step uid isIme) rs no_observers) \<le> 2 * MAX_OBSERVER_COUNT"
proof (intro allI)
  fix u p
  let ?s = "fold (observer_step uid isIme) rs no_observers"
  have l: "limits ?s" by (rule limits_steps[OF limits_initial])
  then have "finite (obs_of w u p ?s)"
    "card (obs_of LocalMap u p ?s) + card (obs_of RemoteMap u p ?s) \<le> MAX_OBSERVER_COUNT"
    "card (obs_of LocalMap COMMON_USERID p ?s) + card (obs_of RemoteMap COMMON_USERID p ?s)
       + card (obs_of EventMap COMMON_USERID p ?s) \<le> MAX_OBSERVER_COUNT"
    unfolding limits_def by blast+
  then show "finite (obs_of w u p ?s)
     \<and> card (obs_of LocalMap u p ?s) + card (obs_of RemoteMap u p ?s) \<le> MAX_OBSERVER_COUNT
     \<and> card (obs_of EventMap COMMON_USERID p ?s) \<le> MAX_OBSERVER_COUNT
     \<and> GetAllObserversSize u p ?s \<le> 2 * MAX_OBSERVER_COUNT"
    by (simp add: size_obs)
qed

section \<open>Single-kind subscriptions\<close>

lemma bits:
  "has_bit OBSERVER_LOCAL OBSERVER_LOCAL" "\<not> has_bit OBSERVER_LOCAL OBSERVER_REMOTE"
  "\<not> has_bit OBSERVER_LOCAL OBSERVER_EVENT" "\<not> has_bit OBSERVER_EVENT OBSERVER_LOCAL"
  "\<not> has_bit OBSERVER_EVENT OBSERVER_REMOTE" "has_bit OBSERVER_EVENT OBSERVER_EVENT"
  by (simp_all add: has_bit_def OBSERVER_LOCAL_def OBSERVER_REMOTE_def OBSERVER_EVENT_def)

lemma Subscribe_local:
  "c_userId c \<noteq> ERROR_USERID \<Longrightarrow> SubscribeObserver uid isIme c OBSERVER_LOCAL obs s =
     (let r = AddObserver (c_userId c) (c_pid c) obs LocalMap (SetInputMethodPid isIme (c_userId c) (c_pid c) s)
      in (if fst r then 0 else ADD_OBSERVER_FAILED, snd r))"
  by (simp add: SubscribeObserver_def observer_user_def AddObserver_if_def bits Let_def split: prod.split)

lemma Subscribe_event:
  "IsCallerUidValid uid c \<Longrightarrow> SubscribeObserver uid isIme c OBSERVER_EVENT obs s =
     (let r = AddObserver COMMON_USERID (c_pid c) obs EventMap (SetInputMethodPid isIme COMMON_USERID (c_pid c) s)
      in (if fst r then 0 else ADD_OBSERVER_FAILED, snd r))"
  by (simp add: SubscribeObserver_def observer_user_def AddObserver_if_def bits Let_def
      COMMON_USERID_def ERROR_USERID_def split: prod.split)

lemma size_ime [simp]: "GetAllObserversSize u p (SetInputMethodPid isIme v q s) = GetAllObserversSize u p s"
  by (simp add: size_obs)

lemma fill_local:
  assumes "n \<le> MAX_OBSERVER_COUNT" "c_userId c \<noteq> ERROR_USERID"
  shows "obs_of w u p (fold (observer_step uid isIme) (map (\<lambda>i. Subscribe c OBSERVER_LOCAL (Some i)) [0..<n]) no_observers)
     = (if w = LocalMap \<and> u = c_userId c \<and> p = c_pid c then {0..<n} else {})"
  using assms(1)
proof (induction n arbitrary: w u p)
  case 0
  then show ?case by (cases w) (simp_all add: obs_of_def no_observers_def)
next
  case (Suc n)
  let ?s = "fold (observer_step uid isIme) (map (\<lambda>i. Subscribe c OBSERVER_LOCAL (Some i)) [0..<n]) no_observers"
  have "fst (AddObserver (c_userId c) (c_pid c) (Some n) LocalMap (SetInputMethodPid isIme (c_userId c) (c_pid c) ?s))"
    using Suc by (simp add: AddObserver_result size_obs)
  with Suc show ?case
    by (auto simp: Subscribe_local[OF assms(2)] obs_simps Let_def)
qed

lemma fill_event:
  assumes "n \<le> MAX_OBSERVER_COUNT" "IsCallerUidValid uid c"
    "\<forall>w p. obs_of w COMMON_USERID p s = {}"
  shows "obs_of w u p (fold (observer_step uid isIme) (map (\<lambda>i. Subscribe c OBSERVER_EVENT (Some i)) [0..<n]) s)
     = (if w = EventMap \<and> u = COMMON_USERID \<and> p = c_pid c then {0..<n} else obs_of w u p s)"
  using assms(1)
proof (induction n arbitrary: w u p)
  case 0
  then show ?case using assms(3) by simp
next
  case (Suc n)
  let ?s = "fold (observer_step uid isIme) (map (\<lambda>i. Subscribe c OBSERVER_EVENT (Some i)) [0..<n]) s"
  have "fst (AddObserver COMMON_USERID (c_pid c) (Some n) EventMap (SetInputMethodPid isIme COMMON_USERID (c_pid c) ?s))"
    using Suc assms(3) by (simp add: AddObserver_result size_obs)
  with Suc show ?case
    by (auto simp: Subscribe_event[OF assms(2)] obs_simps Let_def)
qed

text \<open>The limit of ten observers for a process is not a limit on all its observers: a process
  with the management uid that registers ten observers for local changes and then ten for events
  holds twenty, because an event subscription is counted under the common user only.\<close>

theorem observer_limit_exceeded:
  assumes "IsCallerUidValid uid c" "c_userId c \<noteq> ERROR_USERID" "c_userId c \<noteq> COMMON_USERID"
  shows "GetAllObserversSize (c_userId c) (c_pid c)
     (fold (observer_step uid isIme)
        (map (\<lambda>i. Subscribe c OBSERVER_LOCAL (Some i)) [0..<MAX_OBSERVER_COUNT]
         @ map (\<lambda>i. Subscribe c OBSERVER_EVENT (Some i)) [0..<MAX_OBSERVER_COUNT]) no_observers)
     = 2 * MAX_OBSERVER_COUNT"
proof -
  let ?s = "fold (observer_step uid isIme)
      (map (\<lambda>i. Subscribe c OBSERVER_LOCAL (Some i)) [0..<MAX_OBSERVER_COUNT]) no_observers"
  note loc = fill_local[OF order_refl assms(2), of _ _ _ uid isIme]
  have "\<forall>w p. obs_of w COMMON_USERID p ?s = {}" using assms(3) by (simp add: loc)
  from fill_event[OF order_refl assms(1) this, of _ _ _ isIme] loc assms(3) show ?thesis
    by (simp add: size_obs)
qed

theorem observer_limit_exceeded_witness:
  "GetAllObserversSize 100 5 (fold (observer_step 1000 None)
        (map (\<lambda>i. Subscribe sample_mdm OBSERVER_LOCAL (Some i)) [0..<10]
         @ map (\<lambda>i. Subscribe sample_mdm OBSERVER_EVENT (Some i)) [0..<10]) no_observers) = 20"
  using observer_limit_exceeded[of 1000 sample_mdm None]
  by (simp add: IsCallerUidValid_def sample_mdm_def sample_app_def ERROR_USERID_def COMMON_USERID_def
      MAX_OBSERVER_COUNT_def)

section \<open>Who is notified\<close>

lemma obs_mem: "obs \<in> obs_of w u p s \<longleftrightarrow> (\<exists>os. get_map w s (u, p) = Some os \<and> obs \<in> os)"
  by (simp add: obs_of_def split: option.split)

lemma notify_changed:
  "OnPasteboardChanged obs \<in> NotifyObservers b u status s \<longleftrightarrow>
     status \<noteq> PASTEBOARD_READ \<and> (\<exists>p. obs \<in> obs_of LocalMap u p s)"
  by (auto simp: NotifyObservers_def obs_mem)

lemma notify_event:
  "OnPasteboardEvent obs st v bn \<in> NotifyObservers b u status s \<longleftrightarrow>
     st = status \<and> v = u \<and> bn = b \<and> (\<exists>w p. obs \<in> obs_of EventMap w p s)"
  by (auto simp: NotifyObservers_def obs_mem)

lemma exit_obs:
  "obs_of w u' p' (exit_observers p u s) =
     (if p' = p \<and> (w = EventMap \<and> u' = COMMON_USERID \<or> w \<noteq> EventMap \<and> u' = u) then {} else obs_of w u' p' s)"
  by (cases w) (auto simp: exit_observers_def obs_simps)



end
