(* ===== verification/Web_Html.thy ===== *)
theory Web_Html
  imports Prelude
begin

text \<open>
  The text work of \<open>framework/innerkits/src/pasteboard_web_controller.cpp\<close>: finding the image
  tags of an HTML text and the sources inside them, and putting changed sources back. The two
  regular expressions of the code are the matchers \<open>match_img\<close> and \<open>match_src\<close>: a matcher
  gives the length of the match at the start of a text, and \<open>regex_search\<close> the first position
  with a match. In ECMAScript \<open>.\<close> matches any character but a line terminator, and \<open>*?\<close>
  takes as little as it can. The reference definition is \<open>rewrite_html\<close>, one pass from left to
  right that maps every source.
\<close>

unbundle bit_operations_syntax

section \<open>The regular expressions\<close>

definition line_end :: "char \<Rightarrow> bool" where
  "line_end c \<longleftrightarrow> c = CHR 0x0A \<or> c = CHR 0x0D"

text \<open>The length of \<open>.*?\<close> before the first \<open>stop\<close>.\<close>

fun lazy_until :: "char \<Rightarrow> string \<Rightarrow> nat option" where
  "lazy_until stop [] = None"
| "lazy_until stop (c # cs) =
     (if c = stop then Some 0 else if line_end c then None else map_option Suc (lazy_until stop cs))"

definition is_prefix :: "string \<Rightarrow> string \<Rightarrow> bool" where
  "is_prefix p s \<longleftrightarrow> take (length p) s = p"

definition match_img :: "string \<Rightarrow> nat option" where
  "match_img s = (if is_prefix ''<img'' s
     then map_option (\<lambda>n. 4 + n + 1) (lazy_until (CHR ''>'') (drop 4 s)) else None)"

definition match_src :: "string \<Rightarrow> nat option" where
  "match_src s = (if is_prefix ''src='' s
     then (case drop 4 s of
             [] \<Rightarrow> None
           | q # r \<Rightarrow> if q = CHR 0x27 \<or> q = CHR 0x22
                    then map_option (\<lambda>n. 5 + n + 1) (lazy_until q r) else None)
     else None)"

fun regex_search :: "(string \<Rightarrow> nat option) \<Rightarrow> string \<Rightarrow> (nat \<times> nat) option" where
  "regex_search m [] = map_option (Pair 0) (m [])"
| "regex_search m (c # cs) = (case m (c # cs) of
      Some n \<Rightarrow> Some (0, n)
    | None \<Rightarrow> map_option (\<lambda>(i, n). (Suc i, n)) (regex_search m cs))"

lemma regex_search_Some:
  "regex_search m s = Some (i, n) \<Longrightarrow> m (drop i s) = Some n \<and> i \<le> length s"
  by (induction m s arbitrary: i n rule: regex_search.induct) (auto split: option.splits)

lemma lazy_until_Some:
  "lazy_until stop s = Some n \<Longrightarrow> n < length s \<and> s ! n = stop"
  by (induction s arbitrary: n) (auto split: if_splits)

lemma match_img_len: "match_img s = Some n \<Longrightarrow> 0 < n \<and> n \<le> length s"
  by (auto simp: match_img_def is_prefix_def split: if_splits dest: lazy_until_Some)

lemma match_src_len: "match_src s = Some n \<Longrightarrow> 6 \<le> n \<and> n \<le> length s"
proof -
  assume m: "match_src s = Some n"
  then obtain q r k where d: "drop 4 s = q # r" and k: "lazy_until q r = Some k" and n: "n = 6 + k"
    by (auto simp: match_src_def split: if_splits list.splits)
  have "length r + 5 = length s" using arg_cong[OF d, of length] by simp
  then show ?thesis using lazy_until_Some[OF k] n by simp
qed

lemma match_src_pos: "match_src s = Some n \<Longrightarrow> 0 < n \<and> n \<le> length s"
  using match_src_len[of s n] by simp

lemma search_shrinks:
  assumes "regex_search m s = Some (i, n)" "\<And>t k. m t = Some k \<Longrightarrow> 0 < k \<and> k \<le> length t"
  shows "i + n \<le> length s" "length (drop (i + n) s) < length s"
proof -
  have "0 < n \<and> n \<le> length (drop i s) \<and> i \<le> length s"
    using regex_search_Some[OF assms(1)] assms(2)[of "drop i s" n] by simp
  then show "i + n \<le> length s" "length (drop (i + n) s) < length s" by auto
qed

section \<open>Splitting\<close>

text \<open>The loop over the image tags: the tag and its position. \<open>start\<close> is the position of \<open>s\<close> in
  the whole text.\<close>

function img_matches :: "string \<Rightarrow> nat \<Rightarrow> (string \<times> nat) list" where
  "img_matches s start = (case regex_search match_img s of
      None \<Rightarrow> []
    | Some (i, n) \<Rightarrow> (take n (drop i s), start + i) # img_matches (drop (i + n) s) (start + (i + n)))"
  by auto
termination
  by (relation "measure (length \<circ> fst)") (use search_shrinks(2)[OF _ match_img_len] in auto)

function src_matches :: "string \<Rightarrow> nat \<Rightarrow> (string \<times> nat) list" where
  "src_matches s start = (case regex_search match_src s of
      None \<Rightarrow> []
    | Some (i, n) \<Rightarrow> (take n (drop i s), start + i) # src_matches (drop (i + n) s) (start + (i + n)))"
  by auto
termination
  by (relation "measure (length \<circ> fst)")
    (use search_shrinks(2)[OF _ match_src_pos] in auto)

declare img_matches.simps [simp del] src_matches.simps [simp del]

definition SplitHtmlWithImgLabel :: "string \<Rightarrow> (string \<times> u32) list" where
  "SplitHtmlWithImgLabel html = map (\<lambda>(tmp, p). (tmp, word_of_nat p)) (img_matches html 0)"

definition contains_str :: "string \<Rightarrow> string \<Rightarrow> bool" where
  "contains_str p s = list_ex (\<lambda>i. is_prefix p (drop i s)) [0..<Suc (length s)]"

definition IsLocalURI :: "string \<Rightarrow> bool" where
  "IsLocalURI u \<longleftrightarrow> is_prefix ''file:///'' u \<or> \<not> contains_str ''://'' u"

definition offset_bytes :: "u32 \<Rightarrow> byte list" where
  "offset_bytes offset = map (\<lambda>i. ucast (drop_bit (8 * i) offset AND 0xff)) [0..<4]"

definition add_source :: "u32 \<Rightarrow> string \<times> nat \<Rightarrow> (string \<times> byte list) list \<Rightarrow> (string \<times> byte list) list" where
  "add_source second mp res = (case mp of (m, p) \<Rightarrow>
     let tmp = butlast (drop 5 m)
     in if \<not> IsLocalURI tmp then res
        else (let offset = word_of_nat p + (5 + second)
              in assign tmp ((case map_of res tmp of None \<Rightarrow> [] | Some bs \<Rightarrow> bs) @ offset_bytes offset) res))"

definition SplitHtmlWithImgSrcLabel :: "(string \<times> u32) list \<Rightarrow> (string \<times> byte list) list" where
  "SplitHtmlWithImgSrcLabel matchVec =
     fold (\<lambda>(tag, second). fold (add_source second) (src_matches tag 0)) matchVec []"

definition RemoveInvalidImgSrc :: "string list \<Rightarrow> (string \<times> byte list) list \<Rightarrow> (string \<times> byte list) list" where
  "RemoveInvalidImgSrc validImgSrcList imgSrcMap = filter (\<lambda>(k, _). k \<in> set validImgSrcList) imgSrcMap"

section \<open>Putting sources back\<close>

fun offsets_of :: "byte list \<Rightarrow> u32 list" where
  "offsets_of (b0 # b1 # b2 # b3 # bs) =
     (ucast b0 OR push_bit 8 (ucast b1) OR push_bit 16 (ucast b2) OR push_bit 24 (ucast b3)) # offsets_of bs"
| "offsets_of _ = []"

text \<open>\<open>OffsetMap\<close> is ordered by \<open>std::greater\<close>; the list is kept in ascending order and read
  from its end. A value is the new text and the text it replaces.\<close>

type_synonym OffsetMap = "(u32 \<times> (string \<times> string)) list"

definition collect_offsets :: "string \<Rightarrow> string \<times> byte list \<Rightarrow> OffsetMap \<Rightarrow> OffsetMap" where
  "collect_offsets uriStr item replaceUris = (case item of (k, bs) \<Rightarrow>
     if length bs mod 4 \<noteq> 0 then replaceUris
     else fold (\<lambda>offset. assign offset (uriStr, k)) (offsets_of bs) replaceUris)"

definition string_replace :: "nat \<Rightarrow> nat \<Rightarrow> string \<Rightarrow> string \<Rightarrow> string" where
  "string_replace pos len new s = take pos s @ new @ drop (pos + len) s"

definition replace_uris :: "OffsetMap \<Rightarrow> string \<Rightarrow> string" where
  "replace_uris replaceUris htmlData = fold (\<lambda>(offset, (new, old)) h.
     if unat offset \<ge> length h then h else string_replace (unat offset) (length old) new h)
     (rev replaceUris) htmlData"

section \<open>The reference: one pass over the text\<close>

function rewrite_tag :: "(string \<Rightarrow> string) \<Rightarrow> string \<Rightarrow> string" where
  "rewrite_tag f s = (case regex_search match_src s of
      None \<Rightarrow> s
    | Some (i, n) \<Rightarrow> take (i + 5) s @ f (take (n - 6) (drop (i + 5) s)) @ [s ! (i + n - 1)]
                    @ rewrite_tag f (drop (i + n) s))"
  by auto
termination
  by (relation "measure (length \<circ> snd)") (use search_shrinks(2)[OF _ match_src_pos] in auto)

function rewrite_html :: "(string \<Rightarrow> string) \<Rightarrow> string \<Rightarrow> string" where
  "rewrite_html f s = (case regex_search match_img s of
      None \<Rightarrow> s
    | Some (i, n) \<Rightarrow> take i s @ rewrite_tag f (take n (drop i s)) @ rewrite_html f (drop (i + n) s))"
  by auto
termination
  by (relation "measure (length \<circ> snd)") (use search_shrinks(2)[OF _ match_img_len] in auto)

declare rewrite_tag.simps [simp del] rewrite_html.simps [simp del]

section \<open>Splicing\<close>

text \<open>\<open>splice f k L s\<close> replaces the occurrences \<open>L\<close> (position and text, from left to right) in
  \<open>s\<close>, whose first character has position \<open>k\<close>; \<open>at k L s\<close> says they are there.\<close>

fun splice :: "(string \<Rightarrow> string) \<Rightarrow> nat \<Rightarrow> (nat \<times> string) list \<Rightarrow> string \<Rightarrow> string" where
  "splice f k [] s = s"
| "splice f k ((p, v) # L) s =
     take (p - k) s @ f v @ splice f (p + length v) L (drop (p - k + length v) s)"

fun occurs :: "nat \<Rightarrow> (nat \<times> string) list \<Rightarrow> string \<Rightarrow> bool" where
  "occurs k [] s = True"
| "occurs k ((p, v) # L) s \<longleftrightarrow> k \<le> p \<and> p + length v < k + length s \<and> is_prefix v (drop (p - k) s)
     \<and> occurs (p + length v + 1) L (drop (p - k + length v + 1) s)"

lemma occurs_ge: "occurs k L s \<Longrightarrow> (p, v) \<in> set L \<Longrightarrow> k \<le> p \<and> p + length v < k + length s"
proof (induction L arbitrary: k s)
  case (Cons pv L)
  obtain p' v' where pv: "pv = (p', v')" by (cases pv)
  show ?case using Cons.prems Cons.IH[of "p' + length v' + 1" "drop (p' - k + length v' + 1) s"]
    by (auto simp: pv)
qed simp

lemma occurs_sorted: "occurs k L s \<Longrightarrow> sorted_wrt (<) (map fst L)"
proof (induction L arbitrary: k s)
  case (Cons pv L)
  obtain p' v' where pv: "pv = (p', v')" by (cases pv)
  have o: "occurs (p' + length v' + 1) L (drop (p' - k + length v' + 1) s)"
    using Cons.prems unfolding pv occurs.simps by blast
  show ?case using Cons.IH[OF o] occurs_ge[OF o] by (fastforce simp: pv)
qed simp

lemma splice_prefix:
  assumes "\<forall>(p, v) \<in> set L. k + m \<le> p" "m \<le> length s"
  shows "splice f k L s = take m s @ splice f (k + m) L (drop m s)"
proof (cases L)
  case (Cons pv L')
  obtain p v where pv: "pv = (p, v)" by (cases pv)
  then have "k + m \<le> p" using assms Cons by auto
  then have "take (p - k) s = take m s @ take (p - (k + m)) (drop m s)"
    "drop (p - k + length v) s = drop (p - (k + m) + length v) (drop m s)"
    by (simp_all add: take_add[symmetric] add.commute add.left_commute)
  then show ?thesis by (simp add: Cons pv)
qed simp

lemma occurs_tail: "occurs k L s \<Longrightarrow> L = (p, v) # L' \<Longrightarrow> \<forall>(p', v') \<in> set L'. p + length v < p'"
  using occurs_ge[of "p + length v + 1" L'] by fastforce

text \<open>Occurrences that keep their text may be left out.\<close>

lemma splice_filter:
  assumes "occurs k L s" "\<And>v. \<not> sel v \<Longrightarrow> f v = v"
  shows "splice f k (filter (\<lambda>(p, v). sel v) L) s = splice f k L s"
  using assms(1)
proof (induction L arbitrary: k s)
  case (Cons pv L)
  obtain p v where pv: "pv = (p, v)" by (cases pv)
  let ?s' = "drop (p - k + length v) s"
  have tail: "occurs (p + length v + 1) L (drop (p - k + length v + 1) s)"
    and bd: "k \<le> p" "p + length v < k + length s" "is_prefix v (drop (p - k) s)"
    using Cons.prems unfolding pv occurs.simps by blast+
  have gt: "\<forall>(p', v') \<in> set (filter (\<lambda>(p, v). sel v) L). p + length v + 1 \<le> p'"
    "\<forall>(p', v') \<in> set L. p + length v + 1 \<le> p'"
    using occurs_ge[OF tail] by fastforce+
  have one: "1 \<le> length ?s'" using bd by simp
  have "splice f (p + length v) (filter (\<lambda>(p, v). sel v) L) ?s' = splice f (p + length v) L ?s'"
    using Cons.IH[OF tail] splice_prefix[OF gt(1) one, of f] splice_prefix[OF gt(2) one, of f]
    by (simp add: add.commute)
  moreover have "splice f k (filter (\<lambda>(p, v). sel v) L) s =
      take (p - k + length v) s @ splice f (p + length v) (filter (\<lambda>(p, v). sel v) L) ?s'"
    using splice_prefix[of "filter (\<lambda>(p, v). sel v) L" k "p - k + length v" s f] gt(1) bd by fastforce
  moreover have "take (p - k + length v) s = take (p - k) s @ v"
    using bd by (metis is_prefix_def take_add)
  ultimately show ?case using assms(2)[of v] by (simp add: pv)
qed simp

lemma occurs_prefix:
  assumes "occurs (k + m) L (drop m s)" "m \<le> length s"
  shows "occurs k L s"
proof (cases L)
  case (Cons pv L')
  obtain p v where pv: "pv = (p, v)" by (cases pv)
  have o: "k + m \<le> p" "p + length v < k + m + length (drop m s)" "is_prefix v (drop (p - (k + m)) (drop m s))"
    "occurs (p + length v + 1) L' (drop (p - (k + m) + length v + 1) (drop m s))"
    using assms(1) unfolding Cons pv occurs.simps by blast+
  then have "p - (k + m) + m = p - k" "p - (k + m) + length v + 1 + m = p - k + length v + 1" by auto
  then have "is_prefix v (drop (p - k) s)" "occurs (p + length v + 1) L' (drop (p - k + length v + 1) s)"
    using o(3,4) by (simp_all only: drop_drop)
  moreover have "k \<le> p" "p + length v < k + length s" using o(1,2) assms(2) by auto
  ultimately show ?thesis unfolding Cons pv occurs.simps by blast
qed simp

text \<open>Replacing from the right to the left is splicing: the positions further left stay valid.\<close>

definition replace_one :: "(string \<Rightarrow> string) \<Rightarrow> nat \<times> string \<Rightarrow> string \<Rightarrow> string" where
  "replace_one f pv h = (if fst pv \<ge> length h then h else string_replace (fst pv) (length (snd pv)) (f (snd pv)) h)"

lemma replace_splice: "occurs 0 L s \<Longrightarrow> foldr (replace_one f) L s = splice f 0 L s"
proof (induction L)
  case (Cons pv L)
  obtain p v where pv: "pv = (p, v)" by (cases pv)
  let ?m = "p + length v + 1"
  have tail: "occurs (0 + ?m) L (drop ?m s)" and bd: "p + length v < length s"
    using Cons.prems by (simp_all add: pv)
  have gt: "\<forall>(p', v') \<in> set L. 0 + ?m \<le> p'" using occurs_ge[OF tail] by fastforce
  have "foldr (replace_one f) L s = splice f 0 L s"
    using Cons.IH occurs_prefix[OF tail] bd by simp
  also have "\<dots> = take ?m s @ splice f ?m L (drop ?m s)" using splice_prefix[OF gt, of s f] bd by simp
  finally have h: "foldr (replace_one f) L s = take ?m s @ splice f ?m L (drop ?m s)" .
  have "splice f (p + length v) L (drop (p + length v) s) =
      take 1 (drop (p + length v) s) @ splice f ?m L (drop ?m s)"
    using splice_prefix[of L "p + length v" 1 "drop (p + length v) s" f] gt bd by simp
  moreover have "take ?m s = take (p + length v) s @ take 1 (drop (p + length v) s)" by (rule take_add)
  moreover have "take p (take (p + length v) s) = take p s" by (simp add: min_def)
  ultimately have "replace_one f (p, v) (take ?m s @ splice f ?m L (drop ?m s)) =
      take p s @ f v @ splice f (p + length v) L (drop (p + length v) s)"
    using bd by (simp add: replace_one_def string_replace_def)
  then show ?case by (simp only: pv foldr.simps comp_apply h splice.simps diff_zero)
qed simp

section \<open>The occurrences the code finds\<close>

definition src_occs :: "nat \<Rightarrow> string \<Rightarrow> (nat \<times> string) list" where
  "src_occs start tag = map (\<lambda>(m, p). (start + (5 + p), butlast (drop 5 m))) (src_matches tag 0)"

definition html_occs :: "string \<Rightarrow> (nat \<times> string) list" where
  "html_occs html = concat (map (\<lambda>(tag, p). src_occs p tag) (img_matches html 0))"

lemma src_matches_shift: "src_matches s start = map (\<lambda>(m, p). (m, start + p)) (src_matches s 0)"
proof (induction "length s" arbitrary: s start rule: less_induct)
  case less
  show ?case
  proof (cases "regex_search match_src s")
    case (Some r)
    obtain i n where r: "r = (i, n)" by (cases r)
    have "length (drop (i + n) s) < length s" using search_shrinks(2)[OF Some[unfolded r] match_src_pos] by simp
    from less[OF this, of "start + (i + n)"] less[OF this, of "i + n"] show ?thesis
      by (subst (1 2) src_matches.simps) (simp add: Some r comp_def case_prod_unfold add.assoc)
  qed (simp add: src_matches.simps)
qed

lemma src_occs_eq: "src_occs start tag = map (\<lambda>(m, p). (5 + p, butlast (drop 5 m))) (src_matches tag start)"
  by (simp add: src_occs_def src_matches_shift[of tag start] comp_def case_prod_unfold add.left_commute)

lemma occurs_append:
  "occurs k L1 a \<Longrightarrow> occurs (k + length a) L2 b \<Longrightarrow> occurs k (L1 @ L2) (a @ b)"
proof (induction L1 arbitrary: k a)
  case Nil
  then show ?case using occurs_prefix[of k "length a" L2 "a @ b"] by simp
next
  case (Cons pv L1)
  obtain p v where pv: "pv = (p, v)" by (cases pv)
  have o: "k \<le> p" "p + length v < k + length a" "is_prefix v (drop (p - k) a)"
    "occurs (p + length v + 1) L1 (drop (p - k + length v + 1) a)"
    using Cons.prems(1) unfolding pv occurs.simps by blast+
  have "p + length v + 1 + length (drop (p - k + length v + 1) a) = k + length a" using o(1,2) by simp
  then have "occurs (p + length v + 1) (L1 @ L2) (drop (p - k + length v + 1) a @ b)"
    using Cons.IH[OF o(4)] Cons.prems(2) by simp
  moreover have "drop (p - k + length v + 1) (a @ b) = drop (p - k + length v + 1) a @ b"
    "is_prefix v (drop (p - k) (a @ b))" using o(1-3) by (auto simp: is_prefix_def)
  ultimately show ?case using o(1,2) unfolding pv append_Cons occurs.simps by simp
qed

lemma splice_append:
  "occurs k L1 a \<Longrightarrow> occurs (k + length a) L2 b \<Longrightarrow>
   splice f k (L1 @ L2) (a @ b) = splice f k L1 a @ splice f (k + length a) L2 b"
proof (induction L1 arbitrary: k a)
  case Nil
  have "\<forall>(p, v) \<in> set L2. k + length a \<le> p" using occurs_ge[OF Nil.prems(2)] by fastforce
  then show ?case using splice_prefix[of L2 k "length a" "a @ b" f] by simp
next
  case (Cons pv L1)
  obtain p v where pv: "pv = (p, v)" by (cases pv)
  have o: "k \<le> p" "p + length v < k + length a"
    "occurs (p + length v + 1) L1 (drop (p - k + length v + 1) a)"
    using Cons.prems(1) unfolding pv occurs.simps by blast+
  have e: "p + length v + length (drop (p - k + length v) a) = k + length a" using o(1,2) by simp
  have "occurs (p + length v) L1 (drop (p - k + length v) a)"
    using occurs_prefix[of "p + length v" 1 L1 "drop (p - k + length v) a"] o by (simp add: add.commute)
  from Cons.IH[OF this] Cons.prems(2) have "splice f (p + length v) (L1 @ L2) (drop (p - k + length v) a @ b)
      = splice f (p + length v) L1 (drop (p - k + length v) a) @ splice f (k + length a) L2 b"
    by (simp only: e)
  moreover have "drop (p - k + length v) (a @ b) = drop (p - k + length v) a @ b"
    "take (p - k) (a @ b) = take (p - k) a" using o(1,2) by auto
  ultimately show ?case by (simp add: pv)
qed

lemma tag_occs: "occurs start (src_occs start s) s \<and> splice f start (src_occs start s) s = rewrite_tag f s"
proof (induction s start rule: src_matches.induct)
  case (1 s start)
  show ?case
  proof (cases "regex_search match_src s")
    case None
    then show ?thesis by (simp add: src_occs_eq src_matches.simps[of s] rewrite_tag.simps[of f s])
  next
    case (Some r)
    obtain i n where r: "r = (i, n)" by (cases r)
    let ?L = "src_occs (start + (i + n)) (drop (i + n) s)" and ?v = "take (n - 6) (drop (i + 5) s)"
    have n: "6 \<le> n" "i + n \<le> length s"
      using match_src_len[of "drop i s" n] regex_search_Some[of match_src s i n] Some r by auto
    have v: "butlast (drop 5 (take n (drop i s))) = ?v" "length ?v = n - 6"
      using n butlast_take[of "n - 5" "drop (i + 5) s"] by (simp_all add: drop_take add.commute)
    have L: "src_occs start s = (start + i + 5, ?v) # ?L"
      by (subst src_occs_eq, subst src_matches.simps) (simp add: Some r v(1) src_occs_eq)
    have IH: "occurs (start + (i + n)) ?L (drop (i + n) s)"
      "splice f (start + (i + n)) ?L (drop (i + n) s) = rewrite_tag f (drop (i + n) s)"
      using "1.IH"[OF Some, of i n] r by simp_all
    have "occurs start (src_occs start s) s"
      unfolding L occurs.simps using n IH(1) v(2) by (simp add: is_prefix_def add.assoc)
    moreover have "splice f (start + (i + n) - 1) ?L (drop (i + n - 1) s) =
        [s ! (i + n - 1)] @ splice f (start + (i + n)) ?L (drop (i + n) s)"
    proof -
      have "\<forall>(p, v) \<in> set ?L. start + (i + n) - 1 + 1 \<le> p" using occurs_ge[OF IH(1)] n by fastforce
      moreover have "take 1 (drop (i + n - 1) s) = [s ! (i + n - 1)]"
        using n by (simp add: take_Suc_conv_app_nth Cons_nth_drop_Suc[symmetric])
      ultimately show ?thesis using splice_prefix[of ?L "start + (i + n) - 1" 1 "drop (i + n - 1) s" f] n by simp
    qed
    ultimately show ?thesis using n IH(2) v(2)
      by (simp add: L rewrite_tag.simps[of f s] Some r add.assoc)
  qed
qed

definition occs_from :: "nat \<Rightarrow> string \<Rightarrow> (nat \<times> string) list" where
  "occs_from start s = concat (map (\<lambda>(tag, p). src_occs p tag) (img_matches s start))"

lemma html_occs_from:
  "occurs start (occs_from start s) s \<and> splice f start (occs_from start s) s = rewrite_html f s"
proof (induction s start rule: img_matches.induct)
  case (1 s start)
  show ?case
  proof (cases "regex_search match_img s")
    case None
    then show ?thesis by (simp add: occs_from_def img_matches.simps[of s] rewrite_html.simps[of f s])
  next
    case (Some r)
    obtain i n where r: "r = (i, n)" by (cases r)
    define tag where "tag = take n (drop i s)"
    define rest where "rest = drop (i + n) s"
    let ?L = "src_occs (start + i) tag" and ?R = "occs_from (start + (i + n)) rest"
    have n: "i + n \<le> length s" using search_shrinks(1)[OF Some[unfolded r] match_img_len] by simp
    then have len: "start + i + length tag = start + (i + n)" by (simp add: tag_def)
    have eq: "occs_from start s = ?L @ ?R"
      by (subst occs_from_def, subst img_matches.simps) (simp add: Some r occs_from_def tag_def rest_def)
    have dec: "drop i s = tag @ rest" unfolding tag_def rest_def by (metis append_take_drop_id drop_drop add.commute)
    have IH: "occurs (start + (i + n)) ?R rest" "splice f (start + (i + n)) ?R rest = rewrite_html f rest"
      using "1.IH"[OF Some, of i n] r by (simp_all add: rest_def)
    have o: "occurs (start + i) (?L @ ?R) (drop i s)"
      unfolding dec using occurs_append[of "start + i" ?L tag ?R rest] tag_occs[of "start + i" tag f] IH(1) len
      by simp
    have sp: "splice f (start + i) (?L @ ?R) (drop i s) = rewrite_tag f tag @ rewrite_html f rest"
      unfolding dec using splice_append[of "start + i" ?L tag ?R rest f] tag_occs[of "start + i" tag f] IH len
      by simp
    have ge: "\<forall>(p, v) \<in> set (?L @ ?R). start + i \<le> p" using occurs_ge[OF o] by fastforce
    show ?thesis
      using occurs_prefix[OF o] splice_prefix[OF ge, of s f] sp n
      by (simp add: eq rewrite_html.simps[of f s] Some r tag_def[symmetric] rest_def[symmetric])
  qed
qed

lemma html_occs_0: "html_occs s = occs_from 0 s"
  by (simp add: html_occs_def occs_from_def)

section \<open>The map of sources\<close>

text \<open>The steps of the two loops on the occurrences, in one list.\<close>

definition add_occ :: "nat \<times> string \<Rightarrow> (string \<times> byte list) list \<Rightarrow> (string \<times> byte list) list" where
  "add_occ pv res = (if \<not> IsLocalURI (snd pv) then res
     else assign (snd pv) ((case map_of res (snd pv) of None \<Rightarrow> [] | Some bs \<Rightarrow> bs)
            @ offset_bytes (word_of_nat (fst pv))) res)"

lemma fold_src_occs:
  "fold (add_source (word_of_nat p)) (src_matches tag 0) res = fold add_occ (src_occs p tag) res"
proof -
  have "fold (add_source (word_of_nat p)) xs res =
      fold add_occ (map (\<lambda>(m, q). (p + (5 + q), butlast (drop 5 m))) xs) res" for xs
    by (induction xs arbitrary: res) (auto simp: add_source_def add_occ_def Let_def add_ac)
  then show ?thesis by (simp add: src_occs_def)
qed

lemma sources_of_occs: "SplitHtmlWithImgSrcLabel (SplitHtmlWithImgLabel html) = fold add_occ (html_occs html) []"
proof -
  have "fold (\<lambda>(tag, second). fold (add_source second) (src_matches tag 0))
      (map (\<lambda>(tmp, p). (tmp, word_of_nat p)) ms) res =
      fold add_occ (concat (map (\<lambda>(tag, p). src_occs p tag) ms)) res" for ms res
    by (induction ms arbitrary: res) (auto simp: fold_src_occs)
  then show ?thesis by (simp add: SplitHtmlWithImgSrcLabel_def SplitHtmlWithImgLabel_def html_occs_def)
qed

lemma offsets_of_bytes: "offsets_of (offset_bytes p @ bs) = p # offsets_of bs"
proof -
  have ff: "(0xff :: u32) = mask 8" by (simp add: mask_eq_exp_minus_1)
  have "offset_bytes p = [ucast p, ucast (drop_bit 8 p), ucast (drop_bit 16 p), ucast (drop_bit 24 p)]"
    unfolding offset_bytes_def ff
    by (simp add: upt_rec; intro conjI; intro bit_word_eqI; simp add: bit_simps)
  moreover have "(ucast (ucast p :: byte) :: u32) OR push_bit 8 (ucast (ucast (drop_bit 8 p) :: byte))
      OR push_bit 16 (ucast (ucast (drop_bit 16 p) :: byte)) OR push_bit 24 (ucast (ucast (drop_bit 24 p) :: byte)) = p"
    by (rule bit_word_eqI, auto simp: bit_simps, rule ccontr, simp add: not_less)
  ultimately show ?thesis by simp
qed

lemma length_offset_bytes [simp]: "length (offset_bytes p) = 4"
  by (simp add: offset_bytes_def)

lemma offsets_of_concat: "offsets_of (concat (map offset_bytes ps)) = ps"
  by (induction ps) (simp_all add: offsets_of_bytes)

lemma length_concat_bytes: "length (concat (map offset_bytes ps)) mod 4 = 0"
  by (induction ps) simp_all

definition positions :: "string \<Rightarrow> (nat \<times> string) list \<Rightarrow> u32 list" where
  "positions v L = map (\<lambda>(p, _). word_of_nat p) (filter (\<lambda>(p, w). w = v) L)"

text \<open>What the map holds: under each local source the positions of its occurrences.\<close>

lemma fold_add_occ:
  "map_ok (fold add_occ L [])
   \<and> map_of (fold add_occ L []) v =
       (if IsLocalURI v \<and> positions v L \<noteq> [] then Some (concat (map offset_bytes (positions v L))) else None)"
proof (induction L arbitrary: v rule: rev_induct)
  case (snoc pv L)
  obtain p w where pv: "pv = (p, w)" by (cases pv)
  define M where "M = fold add_occ L []"
  have ok: "map_ok M" and
    of: "map_of M v =
       (if IsLocalURI v \<and> positions v L \<noteq> [] then Some (concat (map offset_bytes (positions v L))) else None)" for v
    using snoc.IH unfolding M_def by blast+
  have step: "fold add_occ (L @ [pv]) [] = add_occ (p, w) M" by (simp add: M_def pv)
  have pos: "positions v (L @ [pv]) = positions v L @ (if w = v then [word_of_nat p] else [])"
    by (simp add: positions_def pv)
  show ?case unfolding step pos using ok of[of v] of[of w]
    by (auto simp: add_occ_def map_of_assign)
qed (simp add: positions_def)

lemma set_assign:
  assumes "map_ok m" "\<And>w. (k, w) \<in> set m \<Longrightarrow> w = v"
  shows "set (assign k v m) = insert (k, v) (set m)"
  using assms
  by (induction k v m rule: assign.induct) (auto simp: map_ok_Cons)

lemma set_fold_assign:
  assumes "map_ok m" "\<And>k v w. (k, v) \<in> set m \<union> set ps \<Longrightarrow> (k, w) \<in> set m \<union> set ps \<Longrightarrow> v = w"
  shows "map_ok (fold (\<lambda>(k, v). assign k v) ps m) \<and> set (fold (\<lambda>(k, v). assign k v) ps m) = set m \<union> set ps"
  using assms
proof (induction ps arbitrary: m)
  case (Cons kv ps)
  obtain k v where kv: "kv = (k, v)" by (cases kv)
  have s: "set (assign k v m) = insert (k, v) (set m)"
    using set_assign[OF Cons.prems(1), of k v] Cons.prems(2)[of k _ v] by (auto simp: kv)
  have "map_ok (fold (\<lambda>(k, v). assign k v) ps (assign k v m))
      \<and> set (fold (\<lambda>(k, v). assign k v) ps (assign k v m)) = set (assign k v m) \<union> set ps"
    using Cons.prems by (intro Cons.IH) (auto simp: s kv)
  then show ?case by (simp add: s kv)
qed simp

lemma sorted_map_unique:
  assumes "map_ok xs" "map_ok ys" "set xs = set ys"
  shows "xs = (ys :: ('k :: linorder \<times> 'v) list)"
proof -
  have d: "distinct (map fst xs)" "distinct (map fst ys)" "sorted (map fst xs)" "sorted (map fst ys)"
    using assms(1,2) by (auto simp: map_ok_def strict_sorted_iff)
  then have "inj_on fst (set xs \<union> set ys)" using assms(3) by (simp add: distinct_map)
  from map_sorted_distinct_set_unique[OF this d(3) d(1) d(4) d(2) assms(3)] show ?thesis .
qed

lemma occurs_filter: "occurs k L s \<Longrightarrow> occurs k (filter P L) s"
proof (induction L arbitrary: k s)
  case (Cons pv L)
  obtain p v where pv: "pv = (p, v)" by (cases pv)
  have o: "k \<le> p" "p + length v < k + length s" "is_prefix v (drop (p - k) s)"
    "occurs (p + length v + 1) L (drop (p - k + length v + 1) s)"
    using Cons.prems unfolding pv occurs.simps by blast+
  have "k + (p - k + length v + 1) = p + length v + 1" using o(1) by simp
  then have "occurs k L s" using occurs_prefix[of k "p - k + length v + 1" L s] o by simp
  then have "occurs k (filter P L) s" by (rule Cons.IH)
  moreover have "occurs k ((p, v) # filter P L) s"
    unfolding occurs.simps using o(1-3) Cons.IH[OF o(4)] by blast
  ultimately show ?case by (cases "P (p, v)") (simp_all only: pv filter.simps if_True if_False)
qed simp

lemma splice_cong: "(\<And>p v. (p, v) \<in> set L \<Longrightarrow> f v = g v) \<Longrightarrow> splice f k L s = splice g k L s"
  by (induction L arbitrary: k s) (auto, metis)

definition selected :: "string list \<Rightarrow> nat \<times> string \<Rightarrow> bool" where
  "selected valid pv \<longleftrightarrow> IsLocalURI (snd pv) \<and> snd pv \<in> set valid"

text \<open>The map of replacements, when the record of source \<open>k\<close> now has the URI \<open>f k\<close>.\<close>

definition replacements :: "(string \<Rightarrow> string) \<Rightarrow> (string \<times> byte list) list \<Rightarrow> OffsetMap" where
  "replacements f m = fold (\<lambda>item. collect_offsets (f (fst item)) item) m []"

lemma replacements_pairs:
  assumes "\<And>k bs. (k, bs) \<in> set m \<Longrightarrow> length bs mod 4 = 0"
  shows "replacements f m = fold (\<lambda>(k, v). assign k v)
    (concat (map (\<lambda>(k, bs). map (\<lambda>p. (p, (f k, k))) (offsets_of bs)) m)) []"
proof -
  have one: "fold (\<lambda>p. assign p x) ps acc = fold (\<lambda>(k, v). assign k v) (map (\<lambda>p. (p, x)) ps) acc"
    for ps :: "u32 list" and x :: "string \<times> string" and acc
    by (induction ps arbitrary: acc) auto
  have "fold (\<lambda>item. collect_offsets (f (fst item)) item) m acc = fold (\<lambda>(k, v). assign k v)
      (concat (map (\<lambda>(k, bs). map (\<lambda>p. (p, (f k, k))) (offsets_of bs)) m)) acc" for acc
    using assms
  proof (induction m arbitrary: acc)
    case (Cons kb m)
    obtain k bs where kb: "kb = (k, bs)" by (cases kb)
    have "length bs mod 4 = 0" using Cons.prems[of k bs] by (simp add: kb)
    then have "collect_offsets (f k) (k, bs) acc =
        fold (\<lambda>(k, v). assign k v) (map (\<lambda>p. (p, (f k, k))) (offsets_of bs)) acc"
      by (simp add: collect_offsets_def one)
    moreover have "fold (\<lambda>item. collect_offsets (f (fst item)) item) m a = fold (\<lambda>(k, v). assign k v)
        (concat (map (\<lambda>(k, bs). map (\<lambda>p. (p, (f k, k))) (offsets_of bs)) m)) a" for a
      by (rule Cons.IH, rule Cons.prems, rule list.set_intros(2))
    ultimately show ?case by (simp add: kb)
  qed simp
  then show ?thesis by (simp add: replacements_def)
qed

lemma html_occs_facts: "occurs 0 (html_occs html) html" "splice f 0 (html_occs html) html = rewrite_html f html"
  using html_occs_from[of 0 html f] by (simp_all add: html_occs_0)

lemma word_of_nat_less: "p < q \<Longrightarrow> q < 4294967296 \<Longrightarrow> (word_of_nat p :: u32) < word_of_nat q"
  by (simp add: word_less_nat_alt unat_of_nat take_bit_nat_eq_self)

lemma replacements_eq:
  assumes "length html < 2 ^ 32"
  shows "replacements f (RemoveInvalidImgSrc valid (SplitHtmlWithImgSrcLabel (SplitHtmlWithImgLabel html))) =
    map (\<lambda>(p, v). (word_of_nat p, (f v, v))) (filter (selected valid) (html_occs html))"
    (is "replacements f ?m = ?T")
proof -
  let ?L = "html_occs html"
  note of = fold_add_occ[of ?L, folded sources_of_occs]
  have dm: "distinct (map fst (SplitHtmlWithImgSrcLabel (SplitHtmlWithImgLabel html)))"
    using of[THEN conjunct1] by (auto simp: map_ok_def strict_sorted_iff)
  have m: "(k, bs) \<in> set ?m \<longleftrightarrow> k \<in> set valid \<and> IsLocalURI k \<and> positions k ?L \<noteq> []
      \<and> bs = concat (map offset_bytes (positions k ?L))" for k bs
    using of[of k] by (auto simp: RemoveInvalidImgSrc_def map_of_eq_Some_iff[OF dm, symmetric] split: if_splits)
  let ?PS = "concat (map (\<lambda>(k, bs). map (\<lambda>p. (p, (f k, k))) (offsets_of bs)) ?m)"
  have "x \<in> set ?PS \<longleftrightarrow> x \<in> set ?T" for x
  proof -
    obtain p y where x: "x = (p, y)" by (cases x)
    have "x \<in> set ?PS \<longleftrightarrow> (\<exists>k bs. (k, bs) \<in> set ?m \<and> p \<in> set (offsets_of bs) \<and> y = (f k, k))"
      by (auto simp: x)
    also have "\<dots> \<longleftrightarrow> (\<exists>k. k \<in> set valid \<and> IsLocalURI k \<and> p \<in> set (positions k ?L) \<and> y = (f k, k))"
      by (auto simp: m offsets_of_concat)
    also have "\<dots> \<longleftrightarrow> x \<in> set ?T" by (auto simp: positions_def selected_def x)
    finally show ?thesis .
  qed
  then have "set ?PS = set ?T" by blast
  have r: "replacements f ?m = fold (\<lambda>(k, v). assign k v) ?PS []"
    by (rule replacements_pairs) (simp add: m length_concat_bytes)
  have "sorted_wrt (\<lambda>x y. fst x < fst y) (filter (selected valid) ?L)"
    using occurs_sorted[OF occurs_filter[OF html_occs_facts(1)]] by (simp add: sorted_wrt_map)
  moreover have "\<forall>(p, v) \<in> set ?L. p < 2 ^ 32"
    using occurs_ge[OF html_occs_facts(1)] assms by fastforce
  ultimately have "sorted_wrt (\<lambda>x y. fst (case x of (p, v) \<Rightarrow> (word_of_nat p :: u32, (f v, v)))
      < fst (case y of (p, v) \<Rightarrow> (word_of_nat p :: u32, (f v, v)))) (filter (selected valid) ?L)"
    by (elim sorted_wrt_mono_rel[rotated]) (force intro!: word_of_nat_less)
  then have T: "map_ok ?T" by (simp add: map_ok_def sorted_wrt_map)
  have fn: "v = w" if "(k, v) \<in> set ?T" "(k, w) \<in> set ?T" for k v w
    using that eq_key_imp_eq_value[of ?T k v w] T by (simp add: map_ok_def strict_sorted_iff)
  have "map_ok (fold (\<lambda>(k, v). assign k v) ?PS []) \<and> set (fold (\<lambda>(k, v). assign k v) ?PS []) = set [] \<union> set ?PS"
    by (rule set_fold_assign) (unfold \<open>set ?PS = set ?T\<close>, simp_all only: list.set sup_bot_left map_ok_Nil fn)
  then show ?thesis
    unfolding r by (intro sorted_map_unique T) (simp_all only: \<open>set ?PS = set ?T\<close> list.set sup_bot_left)
qed

lemma rewrites_sources:
  assumes "length html < 2 ^ 32"
  shows "replace_uris (replacements f
      (RemoveInvalidImgSrc valid (SplitHtmlWithImgSrcLabel (SplitHtmlWithImgLabel html)))) html =
    rewrite_html (\<lambda>v. if IsLocalURI v \<and> v \<in> set valid then f v else v) html"
proof -
  let ?L = "filter (selected valid) (html_occs html)"
  let ?g = "\<lambda>v. if IsLocalURI v \<and> v \<in> set valid then f v else v"
  have o: "occurs 0 ?L html" by (rule occurs_filter[OF html_occs_facts(1)])
  have p: "p < 2 ^ 32" if "(p, v) \<in> set ?L" for p v using occurs_ge[OF o that] assms by simp
  have "foldr (\<lambda>(offset, (new, old)) h.
       if unat offset \<ge> length h then h else string_replace (unat offset) (length old) new h)
       (map (\<lambda>(p, v). (word_of_nat p :: u32, (f v, v))) L) html = foldr (replace_one f) L html"
    if "\<And>p v. (p, v) \<in> set L \<Longrightarrow> p < 2 ^ 32" for L
    using that
  proof (induction L)
    case (Cons pv L)
    obtain p v where pv: "pv = (p, v)" by (cases pv)
    have "unat (word_of_nat p :: u32) = p" using Cons.prems[of p v] by (simp add: pv unat_of_nat take_bit_nat_eq_self)
    moreover have "foldr (\<lambda>(offset, (new, old)) h.
        if unat offset \<ge> length h then h else string_replace (unat offset) (length old) new h)
        (map (\<lambda>(p, v). (word_of_nat p :: u32, (f v, v))) L) html = foldr (replace_one f) L html"
      by (rule Cons.IH, rule Cons.prems, rule list.set_intros(2))
    ultimately show ?case by (simp add: pv replace_one_def[of f "(p, v)"] del: unat_of_nat unsigned_of_nat)
  qed simp
  from this[of ?L] p have "replace_uris (map (\<lambda>(p, v). (word_of_nat p, (f v, v))) ?L) html
      = foldr (replace_one f) ?L html"
    by (simp add: replace_uris_def foldr_conv_fold)
  also have "\<dots> = splice ?g 0 ?L html"
    unfolding replace_splice[OF o] by (rule splice_cong) (auto simp: selected_def)
  also have "\<dots> = splice ?g 0 (html_occs html) html"
    unfolding selected_def[abs_def]
    by (rule splice_filter[OF html_occs_facts(1), of "\<lambda>v. IsLocalURI v \<and> v \<in> set valid" ?g html,
          unfolded case_prod_unfold]) auto
  finally show ?thesis by (simp add: replacements_eq[OF assms] html_occs_facts(2))
qed

end
