(* ===== verification/Web_Controller.thy ===== *)
theory Web_Controller
  imports Web_Html Delay
begin

text \<open>
  \<open>PasteboardImgExtractor\<close> and \<open>PasteboardWebController\<close> (\<open>framework/innerkits/src\<close>). When
  HTML is copied, every local image it shows becomes a record of its own with the positions of
  its source in the text; the URI of that record is then translated for the application that
  pastes, and at the paste the translated URIs are written back into the text and the extra
  records dropped. The parser of HTML documents, the file system, the bundle manager and the
  permission service are the fields of \<open>web_env\<close>. A result \<open>None\<close> is a null record or object
  the code dereferences.
\<close>

datatype stat_result = StatFails bool \<comment> \<open>whether the error is \<open>EACCES\<close>\<close> | StatDir | StatFile

record web_env =
  img_nodes :: "string \<Rightarrow> string option list option"
    \<comment> \<open>\<open>src\<close> of the nodes \<open>//img[@src]\<close> of the document; \<open>None\<close> when it cannot be read\<close>
  IsValidPath :: "string \<Rightarrow> bool"
  GetPhysicalPath :: "string \<Rightarrow> string \<Rightarrow> string option"
  path_stat :: "string \<Rightarrow> stat_result"
  calling_uid :: i32
  uri_persistable :: bool
  FLAG_AUTH_READ :: u32
  FLAG_AUTH_WRITE :: u32
  CheckUriAuthorization :: "string list \<Rightarrow> u32 \<Rightarrow> u32 \<Rightarrow> bool list"
  GetDirByBundleNameAndAppIndex :: "string \<Rightarrow> i32 \<Rightarrow> i32 \<times> string" \<comment> \<open>result and directory\<close>
  GetRealPathBySA :: "string \<Rightarrow> string \<Rightarrow> string"
  GetRealPath :: "string \<Rightarrow> string"
  GetScheme :: "uri \<Rightarrow> string"
  GetAuthority :: "uri \<Rightarrow> string"

definition IMG_LOCAL_URI :: string where "IMG_LOCAL_URI = ''file:///''"
definition FILE_SCHEME_PREFIX :: string where "FILE_SCHEME_PREFIX = ''file://''"
definition DOC_LOCAL_URI :: string where "DOC_LOCAL_URI = ''file:///docs/''"
definition DOC_URI_PREFIX :: string where "DOC_URI_PREFIX = ''file://docs/''"

lemmas uri_prefix_defs = IMG_LOCAL_URI_def FILE_SCHEME_PREFIX_def DOC_LOCAL_URI_def DOC_URI_PREFIX_def

section \<open>Loops that may stop at a null pointer\<close>

fun fold_run :: "('a \<Rightarrow> 's \<Rightarrow> 's run) \<Rightarrow> 'a list \<Rightarrow> 's \<Rightarrow> 's run" where
  "fold_run f [] s = Some s"
| "fold_run f (x # xs) s = do { s' \<leftarrow> f x s; fold_run f xs s' }"

definition record_at :: "nat \<Rightarrow> PasteData \<Rightarrow> PasteDataRecord run" where
  "record_at i d = pd_records d ! i"

definition set_record :: "nat \<Rightarrow> PasteDataRecord \<Rightarrow> PasteData \<Rightarrow> PasteData" where
  "set_record i r d = d\<lparr>pd_records := (pd_records d)[i := Some r]\<rparr>"

section \<open>The image sources of a document\<close>

fun nat_string :: "nat \<Rightarrow> string" where
  "nat_string n = (if n < 10 then [char_of (48 + n)] else nat_string (n div 10) @ [char_of (48 + n mod 10)])"

declare nat_string.simps [simp del]

definition i32_string :: "i32 \<Rightarrow> string" where
  "i32_string x = (if sint x < 0 then ''-'' @ nat_string (nat (- sint x)) else nat_string (nat (sint x)))"

definition IMG_EXTENSIONS :: "string list" where
  "IMG_EXTENSIONS = [''png'', ''jpg'', ''jpeg'', ''jpe'', ''tif'', ''tiff'', ''xbm'', ''gif'', ''djv'', ''djvu'',
     ''jng'', ''pcx'', ''pbm'', ''pgm'', ''pnm'', ''ppm'', ''rgb'', ''svg'', ''svgz'', ''wbmp'', ''xpm'', ''xwd'',
     ''heif'', ''heifs'', ''hif'', ''heic'', ''heics'', ''jp2'', ''jpg2'', ''jpx'', ''jpf'', ''jpm'', ''ief'',
     ''bmp'', ''bm'', ''ico'', ''cur'', ''dds'', ''odi'', ''oti'', ''psd'', ''ai'', ''dng'', ''ras'', ''dwg'',
     ''dxf'', ''tga'', ''sgi'', ''exr'', ''fpx'', ''cdr'', ''cdt'', ''cpt'', ''pat'', ''ilbm'', ''avif'', ''webp'',
     ''xcf'', ''art'', ''cr2'', ''cr3'', ''crw'', ''arw'', ''nef'', ''nrw'', ''raf'', ''rw2'', ''raw'', ''pef'',
     ''srw'', ''erf'', ''orf'', ''apng'']"

definition to_lower :: "char \<Rightarrow> char" where
  "to_lower c = (if CHR ''A'' \<le> c \<and> c \<le> CHR ''Z'' then char_of (of_char c + (32 :: nat)) else c)"

definition alnum :: "char \<Rightarrow> bool" where
  "alnum c \<longleftrightarrow> (CHR ''a'' \<le> c \<and> c \<le> CHR ''z'') \<or> (CHR ''A'' \<le> c \<and> c \<le> CHR ''Z'') \<or> (CHR ''0'' \<le> c \<and> c \<le> CHR ''9'')"

text \<open>\<open>last_slash\<close>: the loop that walks back to a separator and stops at the first character.\<close>

fun last_slash :: "string \<Rightarrow> nat \<Rightarrow> nat" where
  "last_slash u 0 = 0"
| "last_slash u (Suc p) = (if u ! Suc p = CHR ''/'' \<or> u ! Suc p = CHR 0x5C then Suc p else last_slash u p)"

definition find_last_of :: "char \<Rightarrow> string \<Rightarrow> nat option" where
  "find_last_of c s = (case filter (\<lambda>i. s ! i = c) [0..<length s] of [] \<Rightarrow> None | is \<Rightarrow> Some (last is))"

definition MatchImgExtension :: "string \<Rightarrow> bool" where
  "MatchImgExtension u =
     (if u = [] then False
      else let startPos = last_slash u (length u - 1)
      in if startPos + 1 \<ge> length u then False
      else let fileName = drop (startPos + 1) u
      in case find_last_of (CHR ''.'') fileName of
           None \<Rightarrow> False
         | Some dotPos \<Rightarrow>
             if dotPos = 0 \<or> dotPos + 1 \<ge> length fileName then False
             else let extension = map to_lower (takeWhile alnum (drop (dotPos + 1) fileName))
                  in extension \<in> set IMG_EXTENSIONS)"

definition FilterFileUris :: "string list \<Rightarrow> string list" where
  "FilterFileUris uris = filter (is_prefix ''file:///'') uris"

definition FilterImgUris :: "string list \<Rightarrow> string list" where
  "FilterImgUris uris = filter MatchImgExtension uris"

definition HWF_SERVICE_UID :: i32 where "HWF_SERVICE_UID = 7700"

text \<open>\<open>std::string::replace(0, length from, to)\<close>.\<close>

definition replace_prefix :: "string \<Rightarrow> string \<Rightarrow> string \<Rightarrow> string" where
  "replace_prefix from to u = to @ drop (length from) u"

definition local_uri :: "string \<Rightarrow> string \<Rightarrow> string" where
  "local_uri bundleIndex u =
     (if is_prefix DOC_LOCAL_URI u then replace_prefix DOC_LOCAL_URI DOC_URI_PREFIX u
      else replace_prefix IMG_LOCAL_URI (FILE_SCHEME_PREFIX @ bundleIndex @ ''/'') u)"

definition USER_DOCS :: string where "USER_DOCS = ''file://docs/storage/Users/currentUser/''"

definition exists_file :: "web_env \<Rightarrow> string \<Rightarrow> i32 \<Rightarrow> string \<Rightarrow> bool" where
  "exists_file W bundleIndex userId uriStr =
     (if \<not> IsValidPath W uriStr then False
      else if \<not> is_prefix IMG_LOCAL_URI uriStr then False
      else let newUriStr = local_uri bundleIndex uriStr;
               physicalPath =
                 (if calling_uid W = HWF_SERVICE_UID \<and> is_prefix USER_DOCS newUriStr
                  then Some (replace_prefix USER_DOCS ''/mnt/'' newUriStr)
                  else GetPhysicalPath W newUriStr (i32_string userId))
      in case physicalPath of
           None \<Rightarrow> False
         | Some path \<Rightarrow> (case path_stat W path of StatFails eacces \<Rightarrow> eacces | StatDir \<Rightarrow> False | StatFile \<Rightarrow> True))"

definition FilterExistFileUris :: "web_env \<Rightarrow> string \<Rightarrow> i32 \<Rightarrow> string list \<Rightarrow> string list" where
  "FilterExistFileUris W bundleIndex userId uris = filter (exists_file W bundleIndex userId) uris"

definition SafeXmlToString :: "string option \<Rightarrow> string" where
  "SafeXmlToString xmlStr = (case xmlStr of None \<Rightarrow> [] | Some s \<Rightarrow> s)"

definition ExecuteXPath :: "string option list option \<Rightarrow> string list" where
  "ExecuteXPath nodes = (case nodes of
      None \<Rightarrow> []
    | Some ns \<Rightarrow> filter (\<lambda>s. s \<noteq> []) (map SafeXmlToString (filter (\<lambda>n. n \<noteq> None) ns)))"

definition c_str :: "string \<Rightarrow> string" where
  "c_str s = takeWhile (\<lambda>c. c \<noteq> CHR 0x00) s"

definition ExtractImgSrc :: "web_env \<Rightarrow> string \<Rightarrow> string \<Rightarrow> i32 \<Rightarrow> string list" where
  "ExtractImgSrc W htmlContent bundleIndex userId =
     FilterExistFileUris W bundleIndex userId
       (FilterImgUris (FilterFileUris (ExecuteXPath (img_nodes W (c_str htmlContent)))))"

section \<open>Splitting the HTML of a copy\<close>

definition BuildPasteDataRecords :: "ext \<Rightarrow> (string \<times> byte list) list \<Rightarrow> u32 \<Rightarrow> PasteDataRecord list" where
  "BuildPasteDataRecords E imgSrcMap recordId = map (\<lambda>(k, bs).
     (Build E (Builder_SetCustomData (Some (AddItemData k bs []))
        (Builder_SetUri E (Some (mk_uri E k)) (mk_Builder E MIMETYPE_TEXT_URI))))\<lparr>rec_from := recordId\<rparr>) imgSrcMap"

definition SplitHtml2Records ::
    "ext \<Rightarrow> web_env \<Rightarrow> string \<Rightarrow> u32 \<Rightarrow> string \<Rightarrow> i32 \<Rightarrow> PasteDataRecord list" where
  "SplitHtml2Records E W html recordId bundleIndex userId =
     (let matchVec = SplitHtmlWithImgLabel html
      in if matchVec = [] then []
      else let imgSrcMap = SplitHtmlWithImgSrcLabel matchVec
      in if imgSrcMap = [] then []
      else let imgSrcMap = RemoveInvalidImgSrc (ExtractImgSrc W html bundleIndex userId) imgSrcMap
      in if imgSrcMap = [] then [] else BuildPasteDataRecords E imgSrcMap recordId)"

text \<open>\<open>AllRecords\<close> is a copy of the \<open>n\<close> record pointers; outside the service \<open>AddRecord\<close> puts new
  records in front, so the record at \<open>i\<close> moves.\<close>

definition snapshot_pos :: "client \<Rightarrow> nat \<Rightarrow> PasteData \<Rightarrow> nat \<Rightarrow> nat" where
  "snapshot_pos env n d i = (if IsPasteboardService env then i else i + (length (pd_records d) - n))"

definition split_step :: "ext \<Rightarrow> client \<Rightarrow> web_env \<Rightarrow> string \<Rightarrow> i32 \<Rightarrow> nat \<Rightarrow> nat \<Rightarrow>
    PasteData \<times> bool \<Rightarrow> (PasteData \<times> bool) run" where
  "split_step E env W bundleIndex userId n i s = (case s of (d, hasExtraRecord) \<Rightarrow> do {
     record \<leftarrow> record_at (snapshot_pos env n d i) d;
     if rec_recordId record = rec_from record then Some (d, hasExtraRecord)
     else do {
       (htmlEntry, record1) \<leftarrow> GetEntryByMimeType E env MIMETYPE_TEXT_HTML record;
       let d1 = set_record (snapshot_pos env n d i) record1 d;
       html \<leftarrow> (case htmlEntry of None \<Rightarrow> Some None | Some e \<Rightarrow> ConvertToHtml E e);
       case html of
         None \<Rightarrow> Some (d1, hasExtraRecord)
       | Some h \<Rightarrow>
           if h = [] then Some (d1, hasExtraRecord)
           else (let extraUriRecords = SplitHtml2Records E W h (rec_recordId record1) bundleIndex userId
                 in if extraUriRecords = [] then Some (d1, hasExtraRecord)
                    else (let d2 = fold (\<lambda>item. AddRecord (IsPasteboardService env) (Some item)) extraUriRecords d1
                          in Some (set_record (snapshot_pos env n d2 i)
                                     (record1\<lparr>rec_from := rec_recordId record1\<rparr>) d2, True)))
     }
   })"

definition SplitWebviewPasteData ::
    "ext \<Rightarrow> client \<Rightarrow> web_env \<Rightarrow> string \<Rightarrow> i32 \<Rightarrow> PasteData \<Rightarrow> (bool \<times> PasteData) run" where
  "SplitWebviewPasteData E env W bundleIndex userId d = do {
     (d1, hasExtraRecord) \<leftarrow> fold_run (split_step E env W bundleIndex userId (length (pd_records d)))
                                [0..<length (pd_records d)] (d, False);
     Some (hasExtraRecord, if hasExtraRecord
             then d1\<lparr>pd_props := (pd_props d1)\<lparr>prop_tag := WEBVIEW_PASTEDATA_TAG\<rparr>\<rparr> else d1)
   }"

section \<open>Translating the URIs\<close>

definition set_webview_step :: "ext \<Rightarrow> string \<Rightarrow> nat \<Rightarrow> PasteData \<Rightarrow> PasteData run" where
  "set_webview_step E bundleIndex i d = do {
     item \<leftarrow> record_at i d;
     p \<leftarrow> GetUriV0 E item;
     case p of
       None \<Rightarrow> Some d
     | Some uriStr \<Rightarrow>
         if rec_from item = 0 \<or> rec_recordId item = rec_from item then Some d
         else if is_prefix IMG_LOCAL_URI uriStr
         then do {
           item1 \<leftarrow> SetUri E (Some (mk_uri E (local_uri bundleIndex uriStr))) item;
           Some (set_record i item1 d)
         }
         else Some d
   }"

definition SetWebviewPasteData :: "ext \<Rightarrow> string \<Rightarrow> PasteData \<Rightarrow> PasteData run" where
  "SetWebviewPasteData E bundleIndex d =
     (if prop_tag (pd_props d) \<noteq> WEBVIEW_PASTEDATA_TAG then Some d
      else fold_run (set_webview_step E bundleIndex) [0..<length (pd_records d)] d)"

section \<open>Permissions of the URIs\<close>

definition ANCO_SERVICE_BROKER_UID :: i32 where "ANCO_SERVICE_BROKER_UID = 5557"
definition URI_BATCH_SIZE :: nat where "URI_BATCH_SIZE = 10000"

definition READ_PERMISSION :: "web_env \<Rightarrow> u32" where
  "READ_PERMISSION W = FLAG_AUTH_READ W"

definition READ_WRITE_PERMISSION :: "web_env \<Rightarrow> u32" where
  "READ_WRITE_PERMISSION W = FLAG_AUTH_READ W OR FLAG_AUTH_WRITE W"

definition need_check_step :: "ext \<Rightarrow> web_env \<Rightarrow> bool \<Rightarrow> nat \<Rightarrow>
    PasteData \<times> nat \<times> (string \<times> nat) list \<Rightarrow> (PasteData \<times> nat \<times> (string \<times> nat) list) run" where
  "need_check_step E W ancoFlag i s = (case s of (d, uriCount, uris) \<Rightarrow>
     (case GetRecordAt i d of
        None \<Rightarrow> Some s
      | Some item \<Rightarrow> do {
          p \<leftarrow> GetOriginUri E item;
          case p of
            None \<Rightarrow> Some s
          | Some u \<Rightarrow>
              if ancoFlag
              then Some (set_record i (item\<lparr>rec_hasGrantUriPermission := True,
                           rec_uriPermission := (if uri_persistable W then READ_WRITE_PERMISSION W else READ_PERMISSION W)\<rparr>) d,
                         uriCount + 1, uris)
              else Some (d, uriCount + 1, uris @ [(u, i)])
        }))"

text \<open>The URIs to check with the indices of their records, and the number of URIs.\<close>

definition GetNeedCheckUris ::
    "ext \<Rightarrow> web_env \<Rightarrow> bool \<Rightarrow> PasteData \<Rightarrow> (PasteData \<times> nat \<times> (string \<times> nat) list) run" where
  "GetNeedCheckUris E W ancoFlag d =
     fold_run (need_check_step E W ancoFlag) [0..<length (pd_records d)] (d, 0, [])"

definition SetUriPermission :: "web_env \<Rightarrow> bool \<Rightarrow> bool \<Rightarrow> bool \<Rightarrow> PasteDataRecord \<Rightarrow> PasteDataRecord" where
  "SetUriPermission W isRead isWrite isNeedPersistance r =
     (if \<not> isRead then r
      else if isNeedPersistance \<and> isWrite then r\<lparr>rec_uriPermission := READ_WRITE_PERMISSION W\<rparr>
      else r\<lparr>rec_uriPermission := READ_PERMISSION W\<rparr>)"

text \<open>The loop that asks for the authorization in batches.\<close>

function check_batches :: "(string list \<Rightarrow> bool list) \<Rightarrow> string list \<Rightarrow> bool list" where
  "check_batches ask uris = (if uris = [] then []
     else ask (take URI_BATCH_SIZE uris) @ check_batches ask (drop URI_BATCH_SIZE uris))"
  by auto
termination by (relation "measure (length \<circ> snd)") (auto simp: URI_BATCH_SIZE_def)

declare check_batches.simps [simp del]

definition grant_step ::
    "ext \<Rightarrow> web_env \<Rightarrow> nat \<times> bool \<times> bool \<Rightarrow> PasteData \<Rightarrow> PasteData run" where
  "grant_step E W x d = (case x of (i, r, w) \<Rightarrow>
     (case GetRecordAt i d of
        None \<Rightarrow> Some d
      | Some item \<Rightarrow> do {
          p \<leftarrow> GetOriginUri E item;
          case p of
            None \<Rightarrow> Some d
          | Some u \<Rightarrow> Some (set_record i (SetUriPermission W r w (uri_persistable W)
                                (item\<lparr>rec_hasGrantUriPermission := r\<rparr>)) d)
        }))"

definition CheckAppUriPermission :: "ext \<Rightarrow> web_env \<Rightarrow> PasteData \<Rightarrow> PasteData run" where
  "CheckAppUriPermission E W d0 = do {
     (d, uriCount, uris) \<leftarrow> GetNeedCheckUris E W (calling_uid W = ANCO_SERVICE_BROKER_UID) d0;
     if uris = [] then Some d
     else do {
       let tokenId = prop_tokenId (pd_props d);
       let checkReadResults = check_batches (\<lambda>us. CheckUriAuthorization W us (FLAG_AUTH_READ W) tokenId) (map fst uris);
       let checkWriteResults = check_batches (\<lambda>us. CheckUriAuthorization W us (FLAG_AUTH_WRITE W) tokenId) (map fst uris);
       if length checkReadResults \<noteq> length uris \<or> length checkWriteResults \<noteq> length uris then Some d
       else fold_run (grant_step E W) (zip (map snd uris) (zip checkReadResults checkWriteResults)) d
     }
   }"

definition IsValidUri :: "web_env \<Rightarrow> uri option \<Rightarrow> bool \<Rightarrow> bool" where
  "IsValidUri W p hasPermission = (case p of
      None \<Rightarrow> False
    | Some u \<Rightarrow>
        if GetScheme W u = [] \<or> (GetScheme W u = ''file'' \<and> GetAuthority W u = []) then False
        else if GetScheme W u = ''file'' \<and> \<not> hasPermission then False
        else True)"

definition RemoveInvalidUri_entry :: "ext \<Rightarrow> web_env \<Rightarrow> PasteDataEntry \<Rightarrow> (bool \<times> PasteDataEntry) run" where
  "RemoveInvalidUri_entry E W e =
     (if ent_mimeType e \<noteq> MIMETYPE_TEXT_URI then Some (False, e)
      else do {
        uriPtr \<leftarrow> ConvertToUri E e;
        if uriPtr = None then Some (False, e)
        else if IsValidUri W uriPtr True then Some (False, e)
        else (case ent_value e of
                VString _ \<Rightarrow> Some (True, e\<lparr>ent_value := VString []\<rparr>)
              | VObject p \<Rightarrow> do {
                  obj \<leftarrow> p;
                  Some (True, e\<lparr>ent_value := VObject (Some (assign (FILE_URI_PARAM E) (VString []) obj))\<rparr>)
                }
              | _ \<Rightarrow> Some (True, e))
      })"

definition remove_invalid_step :: "ext \<Rightarrow> web_env \<Rightarrow> nat \<Rightarrow> PasteData \<Rightarrow> PasteData run" where
  "remove_invalid_step E W i d = (case GetRecordAt i d of
      None \<Rightarrow> Some d
    | Some record \<Rightarrow> do {
        uriPtr \<leftarrow> GetOriginUri E record;
        if uriPtr = None \<or> IsValidUri W uriPtr (rec_hasGrantUriPermission record) then Some d
        else do {
          record1 \<leftarrow> SetUri E (Some (mk_uri E [])) record;
          Some (set_record i (record1\<lparr>rec_convertUri := []\<rparr>) d)
        }
      })"

definition RemoveInvalidUri :: "ext \<Rightarrow> web_env \<Rightarrow> PasteData \<Rightarrow> PasteData run" where
  "RemoveInvalidUri E W d =
     (if pd_isLocalPaste d then Some d
      else fold_run (remove_invalid_step E W) [0..<length (pd_records d)] d)"

definition RetainUri :: "PasteData \<Rightarrow> PasteData" where
  "RetainUri d = (if \<not> pd_isLocalPaste d then d
     else d\<lparr>pd_records := map (map_option (\<lambda>r. r\<lparr>rec_convertUri := []\<rparr>)) (pd_records d)\<rparr>)"

section \<open>Rebuilding the HTML of a paste\<close>

definition DISTRIBUTEDFILES_TAG :: string where "DISTRIBUTEDFILES_TAG = ''distributedfiles''"

definition RefreshUri :: "ext \<Rightarrow> client \<Rightarrow> web_env \<Rightarrow> string \<Rightarrow> i32 \<Rightarrow> PasteDataRecord \<Rightarrow> PasteDataRecord run" where
  "RefreshUri E env W targetBundle appIndex record = do {
     let bundleIndex = snd (GetDirByBundleNameAndAppIndex W targetBundle appIndex);
     p \<leftarrow> GetUriV0 E record;
     case p of
       None \<Rightarrow> Some record
     | Some puri \<Rightarrow>
         if \<not> (rec_from record \<noteq> 0 \<and> rec_from record \<noteq> rec_recordId record) then Some record
         else
           (let realPath = (if IsPasteboardService env then GetRealPathBySA W puri bundleIndex else GetRealPath W puri);
                isFile = is_prefix FILE_SCHEME_PREFIX puri;
                realUri = (if isFile then FILE_SCHEME_PREFIX @ realPath else puri)
            in if isFile \<and> realPath = [] then Some record
               else if contains_str DISTRIBUTEDFILES_TAG realUri then Some (record\<lparr>rec_convertUri := realUri\<rparr>)
               else SetUri E (Some (mk_uri E realUri)) record)
   }"

definition GroupRecordWithFrom :: "PasteData \<Rightarrow> (u32 \<times> nat list) list run" where
  "GroupRecordWithFrom d = fold_run (\<lambda>i groupMap. do {
     record \<leftarrow> record_at i d;
     Some (if rec_from record = 0 then groupMap
           else assign (rec_from record)
                  ((case map_of groupMap (rec_from record) of None \<Rightarrow> [] | Some v \<Rightarrow> v) @ [i]) groupMap)
   }) [0..<length (pd_records d)] []"

type_synonym content = "PasteData \<times> nat option \<times> string option \<times> OffsetMap"

definition extract_step :: "ext \<Rightarrow> client \<Rightarrow> nat \<Rightarrow> content \<Rightarrow> content run" where
  "extract_step E env i s = (case s of (d, htmlRecord, htmlData, replaceUris) \<Rightarrow> do {
     item \<leftarrow> record_at i d;
     (htmlEntry, item1) \<leftarrow> GetEntryByMimeType E env MIMETYPE_TEXT_HTML item;
     let d1 = set_record i item1 d;
     html \<leftarrow> (case htmlEntry of None \<Rightarrow> Some None | Some e \<Rightarrow> ConvertToHtml E e);
     if nonempty_ptr html then Some (d1, Some i, html, replaceUris)
     else do {
       u \<leftarrow> GetUriV0 E item1;
       customData \<leftarrow> GetCustomData E item1;
       Some (d1, htmlRecord, htmlData,
         (case (u, customData) of
            (Some uriStr, Some items) \<Rightarrow> fold (collect_offsets uriStr) items replaceUris
          | _ \<Rightarrow> replaceUris))
     }
   })"

definition ExtractContent :: "ext \<Rightarrow> client \<Rightarrow> nat list \<Rightarrow> PasteData \<Rightarrow> content run" where
  "ExtractContent E env records d = fold_run (extract_step E env) records (d, None, None, [])"

definition UpdateHtmlRecord :: "ext \<Rightarrow> client \<Rightarrow> string \<Rightarrow> PasteDataRecord \<Rightarrow> PasteDataRecord run" where
  "UpdateHtmlRecord E env htmlData htmlRecord = do {
     (p, r1) \<leftarrow> GetEntryByMimeType E env MIMETYPE_TEXT_HTML htmlRecord;
     case p of
       None \<Rightarrow> Some r1
     | Some entry \<Rightarrow> do {
         v \<leftarrow> (case ent_value entry of
                 VString _ \<Rightarrow> Some (VString htmlData)
               | VObject q \<Rightarrow> do { obj \<leftarrow> q; Some (VObject (Some (assign (HTML_CONTENT E) (VString htmlData) obj))) }
               | other \<Rightarrow> Some other);
         Some ((AddEntryByMimeType E MIMETYPE_TEXT_HTML (Some (entry\<lparr>ent_value := v\<rparr>)) r1)\<lparr>rec_from := 0\<rparr>)
       }
   }"

definition ReplaceHtmlRecordContentByExtraUris :: "ext \<Rightarrow> client \<Rightarrow> nat list \<Rightarrow> PasteData \<Rightarrow> PasteData run" where
  "ReplaceHtmlRecordContentByExtraUris E env records d0 = do {
     (d, htmlRecord, htmlData, replaceUris) \<leftarrow> ExtractContent E env records d0;
     case (htmlRecord, htmlData) of
       (Some i, Some h) \<Rightarrow> do {
         r \<leftarrow> record_at i d;
         r1 \<leftarrow> UpdateHtmlRecord E env (replace_uris replaceUris h) r;
         Some (set_record i r1 d)
       }
     | _ \<Rightarrow> Some d
   }"

fun RemoveRecordById_from :: "u32 \<Rightarrow> nat \<Rightarrow> PasteDataRecord option list \<Rightarrow> nat option" where
  "RemoveRecordById_from recordId i [] = None"
| "RemoveRecordById_from recordId i (p # ps) =
     (case p of
        Some r \<Rightarrow> if rec_recordId r = recordId then Some i else RemoveRecordById_from recordId (Suc i) ps
      | None \<Rightarrow> RemoveRecordById_from recordId (Suc i) ps)"

definition RemoveRecordById :: "u32 \<Rightarrow> PasteData \<Rightarrow> PasteData" where
  "RemoveRecordById recordId d = (case RemoveRecordById_from recordId 0 (pd_records d) of
      None \<Rightarrow> d
    | Some i \<Rightarrow> snd (RemoveRecordAt i d))"

definition RemoveAllRecord :: "PasteData \<Rightarrow> PasteData" where
  "RemoveAllRecord d = fold (\<lambda>i d'. snd (RemoveRecordAt 0 d')) [0..<length (pd_records d)] d"

definition RemoveExtraUris :: "PasteData \<Rightarrow> PasteData run" where
  "RemoveExtraUris d = fold_run (\<lambda>p d'. do {
     record \<leftarrow> p;
     Some (if rec_from record > 0 \<and> GetMimeType_record record = MIMETYPE_TEXT_URI
           then RemoveRecordById (rec_recordId record) d' else d')
   }) (pd_records d) d"

definition MergeExtraUris2Html :: "ext \<Rightarrow> client \<Rightarrow> PasteData \<Rightarrow> PasteData run" where
  "MergeExtraUris2Html E env d = do {
     recordGroups \<leftarrow> GroupRecordWithFrom d;
     d1 \<leftarrow> fold_run (\<lambda>(_, records). ReplaceHtmlRecordContentByExtraUris E env records) recordGroups d;
     RemoveExtraUris d1
   }"

definition rebuild_step :: "ext \<Rightarrow> client \<Rightarrow> web_env \<Rightarrow> string \<Rightarrow> i32 \<Rightarrow> nat \<Rightarrow>
    PasteData \<times> bool \<Rightarrow> (PasteData \<times> bool) run" where
  "rebuild_step E env W targetBundle appIndex i s = (case s of (d, justSplitHtml) \<Rightarrow> do {
     item \<leftarrow> record_at i d;
     item1 \<leftarrow> RefreshUri E env W targetBundle appIndex item;
     Some (set_record i item1 d, justSplitHtml \<or> rec_from item > 0)
   })"

definition RebuildWebviewPasteData ::
    "ext \<Rightarrow> client \<Rightarrow> web_env \<Rightarrow> string \<Rightarrow> i32 \<Rightarrow> PasteData \<Rightarrow> PasteData run" where
  "RebuildWebviewPasteData E env W targetBundle appIndex d =
     (if prop_tag (pd_props d) \<noteq> WEBVIEW_PASTEDATA_TAG then Some d
      else do {
        (d1, justSplitHtml) \<leftarrow> fold_run (rebuild_step E env W targetBundle appIndex)
                                  [0..<length (pd_records d)] (d, False);
        if justSplitHtml then MergeExtraUris2Html E env d1 else Some d1
      })"

lemma fold_run_append: "fold_run f (xs @ ys) s = Option.bind (fold_run f xs s) (fold_run f ys)"
  by (induction xs arbitrary: s) (auto simp: bind_assoc split: Option.bind_splits)

end
