(* ===== verification/Web_Roundtrip.thy ===== *)
theory Web_Roundtrip
  imports Web_Controller
begin

text \<open>
  Copying HTML and pasting it: the composition of \<open>SplitWebviewPasteData\<close>,
  \<open>SetWebviewPasteData\<close> and \<open>RebuildWebviewPasteData\<close> on data with one HTML record. The extra
  records the copy adds have one shape (\<open>img_rec\<close>) that each step keeps.
\<close>

definition uri_entry :: "ext \<Rightarrow> string \<Rightarrow> PasteDataEntry" where
  "uri_entry E v = mk_entry_mime (GetUtdIdFromUtdEnum E (FILE_URI E)) MIMETYPE_TEXT_URI (VString v)"

definition html_entry :: "ext \<Rightarrow> string \<Rightarrow> PasteDataEntry" where
  "html_entry E h = mk_entry_mime (GetUtdIdFromUtdEnum E (HTML E)) MIMETYPE_TEXT_HTML (VString h)"

text \<open>The record of an image: the URI in its entry, the converted URI, the source it stands for with
  its positions.\<close>

definition img_rec :: "ext \<Rightarrow> string \<Rightarrow> byte list \<Rightarrow> string \<Rightarrow> string \<Rightarrow> PasteDataRecord \<Rightarrow> bool" where
  "img_rec E k bs c v r \<longleftrightarrow> rec_entries r = [Some (uri_entry E v)] \<and> rec_convertUri r = c
     \<and> rec_customData r = Some [(k, bs)] \<and> rec_mimeType r = MIMETYPE_TEXT_URI \<and> \<not> rec_isDelay r"

definition html_rec :: "ext \<Rightarrow> string \<Rightarrow> PasteDataRecord \<Rightarrow> bool" where
  "html_rec E h r \<longleftrightarrow> rec_entries r = [Some (html_entry E h)] \<and> rec_convertUri r = [] \<and> rec_uri r = None
     \<and> rec_customData r = None \<and> \<not> rec_isDelay r"

text \<open>\<open>Uri::ToString\<close> gives the text the URI was made from.\<close>

definition uri_plain :: "ext \<Rightarrow> bool" where
  "uri_plain E \<longleftrightarrow> (\<forall>s. mk_uri E s = s)"

lemma split_first_single [simp]:
  "split_first P [x] = (if P x then Some ([], x, []) else None)"
  by simp

lemma html_not_uri:
  assumes "utd_ok E"
  shows "\<not> IsFileUri E (GetUtdIdFromUtdEnum E (HTML E))"
    "GetUtdIdFromUtdEnum E (FILE_URI E) \<noteq> GetUtdIdFromUtdEnum E (HTML E)"
    "IsFileUri E (GetUtdIdFromUtdEnum E (FILE_URI E))"
  using utd_ids_neq[OF assms] by (auto simp: known_enums_def IsFileUri_def)

lemma img_rec_getters:
  assumes "utd_ok E" "uri_plain E" "img_rec E k bs c v r"
  shows "GetUriV0 E r = Some (Some (if c = [] then v else c))"
    "GetCustomData E r = Some (Some [(k, bs)])"
    "GetMimeType_record r = MIMETYPE_TEXT_URI"
    "k \<noteq> MIMETYPE_TEXT_HTML \<Longrightarrow> GetEntryByMimeType E env MIMETYPE_TEXT_HTML r = Some (None, r)"
proof -
  note r = assms(3)[unfolded img_rec_def] and u = assms(2)[unfolded uri_plain_def] and n = html_not_uri[OF assms(1)]
  show "GetUriV0 E r = Some (Some (if c = [] then v else c))"
    using r u n by (simp add: GetUriV0_def GetOriginUri_def entry_with_mime_def uri_entry_def mk_entry_mime_def ConvertToUri_def)
  show "GetCustomData E r = Some (Some [(k, bs)])"
    using r by (simp add: GetCustomData_def add_items_def AddItemData_def uri_entry_def mk_entry_mime_def ConvertToCustomData_def)
  show "GetMimeType_record r = MIMETYPE_TEXT_URI" using r by (simp add: GetMimeType_record_def mime_defs)
  show "GetEntryByMimeType E env MIMETYPE_TEXT_HTML r = Some (None, r)" if "k \<noteq> MIMETYPE_TEXT_HTML"
  proof -
    have "GetEntry E env (GetUtdIdFromUtdEnum E (HTML E)) r = Some (None, r)"
      using r n by (simp add: GetEntry_def matches_utd_def uri_entry_def mk_entry_mime_def)
    then show ?thesis using r that
      by (simp add: GetEntryByMimeType_def Convert2UtdId_def mime_defs)
  qed
qed

lemma SetUri_img:
  assumes "img_rec E k bs c v r"
  shows "\<exists>r'. SetUri E (Some x) r = Some r' \<and> img_rec E k bs c x r'
    \<and> rec_recordId r' = rec_recordId r \<and> rec_from r' = rec_from r"
  using assms by (simp add: SetUri_def img_rec_def uri_entry_def mk_entry_mime_def)

lemma html_rec_getters:
  assumes "utd_ok E" "html_rec E h r"
  shows "GetUriV0 E r = Some None"
    "GetEntryByMimeType E env MIMETYPE_TEXT_HTML r = Some (Some (html_entry E h), r)"
    "ConvertToHtml E (html_entry E h) = Some (Some h)"
    "GetHtmlTextV0 E r = Some (Some h)"
proof -
  note r = assms(2)[unfolded html_rec_def] and n = html_not_uri[OF assms(1)]
  have "GetEntry E env (GetUtdIdFromUtdEnum E (HTML E)) r = Some (Some (html_entry E h), r)"
    using r n by (simp add: GetEntry_def matches_utd_def html_entry_def mk_entry_mime_def Let_def)
  then show "GetEntryByMimeType E env MIMETYPE_TEXT_HTML r = Some (Some (html_entry E h), r)"
    using r by (simp add: GetEntryByMimeType_def Convert2UtdId_def mime_defs)
  show "GetUriV0 E r = Some None"
    using r by (simp add: GetUriV0_def GetOriginUri_def entry_with_mime_def html_entry_def mk_entry_mime_def mime_defs)
  show c: "ConvertToHtml E (html_entry E h) = Some (Some h)"
    by (simp add: ConvertToHtml_def html_entry_def mk_entry_mime_def)
  then show "GetHtmlTextV0 E r = Some (Some h)"
    using r by (simp add: GetHtmlTextV0_def entry_with_mime_def) (simp add: html_entry_def mk_entry_mime_def)
qed

lemma UpdateHtmlRecord_html:
  assumes "utd_ok E" "html_rec E h r"
  shows "\<exists>r'. UpdateHtmlRecord E env h' r = Some r' \<and> html_rec E h' r' \<and> rec_from r' = 0
    \<and> rec_recordId r' = rec_recordId r"
  using html_rec_getters(2)[OF assms, of env] assms(2)
  by (simp add: UpdateHtmlRecord_def AddEntryByMimeType_def AddEntry_def html_rec_def html_entry_def
      mk_entry_mime_def Convert2UtdId_def mime_defs replaces_def Let_def)

lemma Build_img:
  assumes "uri_plain E" "r = (Build E (Builder_SetCustomData (Some (AddItemData k bs []))
      (Builder_SetUri E (Some (mk_uri E k)) (mk_Builder E MIMETYPE_TEXT_URI))))\<lparr>rec_from := f\<rparr>"
  shows "img_rec E k bs [] k r" "rec_from r = f"
proof -
  show "img_rec E k bs [] k r"
    using assms(1) unfolding assms(2)
    by (simp add: img_rec_def uri_entry_def Build_def Builder_SetCustomData_def Builder_SetUri_def Builder_add_def
        AddEntryByMimeType_def AddEntry_def mk_Builder_def empty_record_def empty_entry_def mk_entry_mime_def
        Convert2UtdId_def mime_defs Let_def AddItemData_def uri_plain_def)
  show "rec_from r = f" unfolding assms(2) by simp
qed

section \<open>Loops that change each record once\<close>

lemma fold_run_records_acc:
  assumes rs: "pd_records d = map Some rs" and len: "length rs' = length rs"
    and step: "\<And>i d' a. i < length rs \<Longrightarrow> pd_records d' ! i = Some (rs ! i) \<Longrightarrow> length (pd_records d') = length rs \<Longrightarrow>
      step i (d', a) = Some (set_record i (rs' ! i) d', acc i a)"
  shows "fold_run step [0..<length rs] (d, a) = Some (d\<lparr>pd_records := map Some rs'\<rparr>, fold acc [0..<length rs] a)"
proof -
  have "fold_run step [0..<m] (d, a) =
      Some (d\<lparr>pd_records := map Some (take m rs' @ drop m rs)\<rparr>, fold acc [0..<m] a)" if "m \<le> length rs" for m
    using that
  proof (induction m)
    case 0
    then show ?case using rs by simp
  next
    case (Suc m)
    let ?d = "d\<lparr>pd_records := map Some (take m rs' @ drop m rs)\<rparr>"
    have m: "m < length rs" "m < length rs'" using Suc.prems len by auto
    then have "pd_records ?d ! m = Some (rs ! m)" by (simp add: nth_append)
    from step[OF m(1) this] len m have "step m (?d, fold acc [0..<m] a) =
        Some (set_record m (rs' ! m) ?d, acc m (fold acc [0..<m] a))" by simp
    moreover have "set_record m (rs' ! m) ?d = d\<lparr>pd_records := map Some (take (Suc m) rs' @ drop (Suc m) rs)\<rparr>"
      using m len by (simp add: set_record_def take_Suc_conv_app_nth list_update_append map_update[symmetric]
          Cons_nth_drop_Suc[symmetric])
    ultimately show ?case using Suc m by (simp add: fold_run_append)
  qed
  from this[of "length rs"] len show ?thesis by simp
qed

lemma fold_run_records:
  assumes rs: "pd_records d = map Some rs" and len: "length rs' = length rs"
    and step: "\<And>i d'. i < length rs \<Longrightarrow> pd_records d' ! i = Some (rs ! i) \<Longrightarrow> length (pd_records d') = length rs \<Longrightarrow>
      step i d' = Some (set_record i (rs' ! i) d')"
  shows "fold_run step [0..<length rs] d = Some (d\<lparr>pd_records := map Some rs'\<rparr>)"
proof -
  let ?step = "\<lambda>i (d, u :: unit). map_option (\<lambda>d'. (d', u)) (step i d)"
  have "fold_run ?step xs (d, ()) = map_option (\<lambda>d'. (d', ())) (fold_run step xs d)" for xs d
  proof (induction xs arbitrary: d)
    case (Cons x xs)
    then show ?case by (cases "step x d") simp_all
  qed simp
  moreover have "fold_run ?step [0..<length rs] (d, ()) =
      Some (d\<lparr>pd_records := map Some rs'\<rparr>, fold (\<lambda>_ u. u) [0..<length rs] ())"
    using step by (intro fold_run_records_acc[OF rs len]) simp
  ultimately show ?thesis by (auto simp: map_option_case split: option.splits)
qed

section \<open>The copy\<close>

text \<open>The extra records of a split, with the ids \<open>AddRecord\<close> gives them.\<close>

fun numbered :: "u32 \<Rightarrow> PasteDataRecord list \<Rightarrow> PasteDataRecord list" where
  "numbered n [] = []"
| "numbered n (r # rs) = r\<lparr>rec_recordId := n + 1\<rparr> # numbered (n + 1) rs"

lemma fold_AddRecord:
  "pd_records (fold (\<lambda>item. AddRecord True (Some item)) xs d) = pd_records d @ map Some (numbered (pd_recordId d) xs)"
  by (induction xs arbitrary: d) (simp_all add: AddRecord_def Let_def)

lemma length_numbered [simp]: "length (numbered n xs) = length xs"
  by (induction xs arbitrary: n) auto

lemma numbered_nth: "i < length xs \<Longrightarrow> numbered n xs ! i = (xs ! i)\<lparr>rec_recordId := n + of_nat (Suc i)\<rparr>"
  by (induction xs arbitrary: n i) (auto simp: nth_Cons' split: nat.split)

definition img_sources :: "web_env \<Rightarrow> string \<Rightarrow> i32 \<Rightarrow> string \<Rightarrow> (string \<times> byte list) list" where
  "img_sources W bundleIndex userId html =
     RemoveInvalidImgSrc (ExtractImgSrc W html bundleIndex userId) (SplitHtmlWithImgSrcLabel (SplitHtmlWithImgLabel html))"

lemma SplitHtml2Records_eq:
  "SplitHtml2Records E W html recordId bundleIndex userId =
     BuildPasteDataRecords E (img_sources W bundleIndex userId html) recordId"
  by (simp add: SplitHtml2Records_def img_sources_def Let_def BuildPasteDataRecords_def
      SplitHtmlWithImgSrcLabel_def RemoveInvalidImgSrc_def)

lemma img_sources_file: "(k, bs) \<in> set (img_sources W bundleIndex userId html) \<Longrightarrow> is_prefix IMG_LOCAL_URI k"
  by (auto simp: img_sources_def RemoveInvalidImgSrc_def ExtractImgSrc_def FilterExistFileUris_def
      exists_file_def split: if_splits)

lemma Split_one_html:
  assumes E: "utd_ok E" and svc: "IsPasteboardService env" and r: "html_rec E h r" "h \<noteq> []"
    and d: "pd_records d = [Some r]" "rec_recordId r \<noteq> rec_from r"
    and src: "img_sources W bi userId h \<noteq> []"
  defines "xs \<equiv> numbered (pd_recordId d) (BuildPasteDataRecords E (img_sources W bi userId h) (rec_recordId r))"
  shows "\<exists>d'. SplitWebviewPasteData E env W bi userId d = Some (True, d')
    \<and> pd_records d' = map Some (r\<lparr>rec_from := rec_recordId r\<rparr> # xs)
    \<and> prop_tag (pd_props d') = WEBVIEW_PASTEDATA_TAG"
proof -
  have ne: "BuildPasteDataRecords E (img_sources W bi userId h) (rec_recordId r) \<noteq> []"
    using src by (simp add: BuildPasteDataRecords_def)
  note g = html_rec_getters[OF E r(1)]
  have sr: "set_record 0 r d = d" using d by (simp add: set_record_def)
  have "split_step E env W bi userId 1 0 (d, False) =
      Some (set_record 0 (r\<lparr>rec_from := rec_recordId r\<rparr>)
        (fold (\<lambda>item. AddRecord True (Some item))
           (BuildPasteDataRecords E (img_sources W bi userId h) (rec_recordId r)) d), True)"
    using d svc ne r(2)
    by (simp add: split_step_def record_at_def snapshot_pos_def g SplitHtml2Records_eq Let_def sr)
  then show ?thesis
    using d by (simp add: SplitWebviewPasteData_def xs_def set_record_def fold_AddRecord)
qed

section \<open>The records of the images, step by step\<close>

text \<open>\<open>f k\<close>: the converted URI and the URI of the record of source \<open>k\<close>; \<open>n\<close> is the id of the HTML
  record, and the records of the images were numbered after it.\<close>

definition imgs :: "ext \<Rightarrow> (string \<Rightarrow> string \<times> string) \<Rightarrow> (string \<times> byte list) list \<Rightarrow> u32 \<Rightarrow>
    PasteDataRecord list \<Rightarrow> bool" where
  "imgs E f m n xs \<longleftrightarrow> length xs = length m \<and> (\<forall>j < length m.
     img_rec E (fst (m ! j)) (snd (m ! j)) (fst (f (fst (m ! j)))) (snd (f (fst (m ! j)))) (xs ! j)
     \<and> rec_from (xs ! j) = n \<and> rec_recordId (xs ! j) = n + of_nat (Suc j))"

lemma imgs_numbered:
  assumes "uri_plain E"
  shows "imgs E (\<lambda>k. ([], k)) m n (numbered n (BuildPasteDataRecords E m n))"
proof -
  have "img_rec E k bs [] k (r\<lparr>rec_recordId := i\<rparr>)" if "img_rec E k bs [] k r" for k bs r i
    using that by (simp add: img_rec_def)
  then show ?thesis
    using Build_img[OF assms]
    by (auto simp: imgs_def numbered_nth BuildPasteDataRecords_def case_prod_unfold)
qed

lemma imgs_map:
  assumes "imgs E f m n xs"
    and "\<And>k bs r. (k, bs) \<in> set m \<Longrightarrow> img_rec E k bs (fst (f k)) (snd (f k)) r \<Longrightarrow>
      \<exists>r'. g r = Some r' \<and> img_rec E k bs (fst (f' k)) (snd (f' k)) r'
        \<and> rec_recordId r' = rec_recordId r \<and> rec_from r' = rec_from r"
  shows "imgs E f' m n (map (the \<circ> g) xs)" "j < length m \<Longrightarrow> g (xs ! j) = Some (map (the \<circ> g) xs ! j)"
proof -
  have len: "length xs = length m" using assms(1) by (simp add: imgs_def)
  have j: "g (xs ! j) = Some (the (g (xs ! j)))
      \<and> img_rec E (fst (m ! j)) (snd (m ! j)) (fst (f' (fst (m ! j)))) (snd (f' (fst (m ! j)))) (the (g (xs ! j)))
      \<and> rec_from (the (g (xs ! j))) = n \<and> rec_recordId (the (g (xs ! j))) = n + of_nat (Suc j)"
    if "j < length m" for j
  proof -
    have x: "img_rec E (fst (m ! j)) (snd (m ! j)) (fst (f (fst (m ! j)))) (snd (f (fst (m ! j)))) (xs ! j)"
      "rec_from (xs ! j) = n" "rec_recordId (xs ! j) = n + of_nat (Suc j)"
      using assms(1) that by (auto simp: imgs_def)
    have "(fst (m ! j), snd (m ! j)) \<in> set m" using that by simp
    from assms(2)[OF this x(1)] x(2,3) show ?thesis by auto
  qed
  show "imgs E f' m n (map (the \<circ> g) xs)" unfolding imgs_def using j len by simp
  show "j < length m \<Longrightarrow> g (xs ! j) = Some (map (the \<circ> g) xs ! j)" using j[of j] len by simp
qed

lemma id_neq: "Suc j < 2 ^ 32 \<Longrightarrow> n + of_nat (Suc j) \<noteq> (n :: u32)"
proof
  assume j: "Suc j < 2 ^ 32" and "n + of_nat (Suc j) = n"
  then have "unat (of_nat (Suc j) :: u32) = 0" by (simp del: of_nat_Suc)
  with j show False by (simp add: unat_of_nat take_bit_nat_eq_self del: of_nat_Suc)
qed

lemma SetWebview_imgs:
  assumes E: "utd_ok E" "uri_plain E" and r: "html_rec E h r" and xs: "imgs E (\<lambda>k. ([], k)) m n xs" "n \<noteq> 0"
    and m: "length m < 2 ^ 32 - 1" "\<forall>k \<in> fst ` set m. is_prefix IMG_LOCAL_URI k"
    and d: "pd_records d = map Some (r # xs)" "prop_tag (pd_props d) = WEBVIEW_PASTEDATA_TAG"
  shows "\<exists>xs'. SetWebviewPasteData E bi d = Some (d\<lparr>pd_records := map Some (r # xs')\<rparr>)
    \<and> imgs E (\<lambda>k. ([], local_uri bi k)) m n xs'"
proof -
  define g where "g = (\<lambda>r. case GetUriV0 E r of Some (Some u) \<Rightarrow> SetUri E (Some (local_uri bi u)) r | _ \<Rightarrow> None)"
  have g: "\<exists>r'. g r = Some r' \<and> img_rec E k bs [] (local_uri bi k) r' \<and> rec_recordId r' = rec_recordId r
      \<and> rec_from r' = rec_from r" if "img_rec E k bs [] k r" for k bs r
    using SetUri_img[OF that, of "local_uri bi k"] img_rec_getters(1)[OF E that] by (simp add: g_def)
  let ?xs' = "map (the \<circ> g) xs"
  have i: "imgs E (\<lambda>k. ([], local_uri bi k)) m n ?xs'" "\<And>j. j < length m \<Longrightarrow> g (xs ! j) = Some (?xs' ! j)"
    using imgs_map[OF xs(1), of g "\<lambda>k. ([], local_uri bi k)"] g by simp_all
  have len: "length xs = length m" using xs by (simp add: imgs_def)
  have u: "GetUriV0 E (xs ! j) = Some (Some (fst (m ! j)))" "rec_from (xs ! j) = n"
    "rec_recordId (xs ! j) \<noteq> n" "is_prefix IMG_LOCAL_URI (fst (m ! j))" if "j < length m" for j
    using that xs img_rec_getters(1)[OF E, of "fst (m ! j)" "snd (m ! j)" "[]" "fst (m ! j)" "xs ! j"]
      id_neq[of j n] m(1) m(2)[rule_format, OF imageI[OF nth_mem[OF that]]] by (auto simp: imgs_def)
  have "fold_run (set_webview_step E bi) [0..<length (r # xs)] d = Some (d\<lparr>pd_records := map Some (r # ?xs')\<rparr>)"
  proof (rule fold_run_records[OF d(1)])
    fix i and d' :: PasteData
    assume a: "i < length (r # xs)" "pd_records d' ! i = Some ((r # xs) ! i)"
      "length (pd_records d') = length (r # xs)"
    show "set_webview_step E bi i d' = Some (set_record i ((r # ?xs') ! i) d')"
    proof (cases i)
      case 0
      then have "set_record 0 r d' = d'" using a by (simp add: set_record_def list_update_same_conv)
      then show ?thesis using a 0 html_rec_getters(1)[OF E(1) r]
        by (simp add: set_webview_step_def record_at_def)
    next
      case (Suc j)
      then have j: "j < length m" using a len by simp
      have "SetUri E (Some (local_uri bi (fst (m ! j)))) (xs ! j) = Some (?xs' ! j)"
        using i(2)[OF j] u(1)[OF j] by (simp add: g_def)
      then show ?thesis using a Suc u[OF j] xs(2) E(2)
        by (simp add: set_webview_step_def record_at_def uri_plain_def)
    qed
  qed simp
  then show ?thesis using d by (intro exI[of _ ?xs'] conjI i(1)) (simp add: SetWebviewPasteData_def)
qed

text \<open>The URI of an image after the paste: the path the target application can read, if there is one.\<close>

definition real_path :: "client \<Rightarrow> web_env \<Rightarrow> string \<Rightarrow> i32 \<Rightarrow> string \<Rightarrow> string" where
  "real_path env W target appIndex u =
     (if IsPasteboardService env then GetRealPathBySA W u (snd (GetDirByBundleNameAndAppIndex W target appIndex))
      else GetRealPath W u)"

definition refreshed :: "client \<Rightarrow> web_env \<Rightarrow> string \<Rightarrow> i32 \<Rightarrow> string \<Rightarrow> string \<times> string" where
  "refreshed env W target appIndex u =
     (let realUri = FILE_SCHEME_PREFIX @ real_path env W target appIndex u
      in if real_path env W target appIndex u = [] then ([], u)
         else if contains_str DISTRIBUTEDFILES_TAG realUri then (realUri, u) else ([], realUri))"

lemma local_uri_file: "is_prefix IMG_LOCAL_URI k \<Longrightarrow> is_prefix FILE_SCHEME_PREFIX (local_uri bi k)"
  by (auto simp: local_uri_def is_prefix_def uri_prefix_defs replace_prefix_def)

lemma RefreshUri_img:
  assumes E: "utd_ok E" "uri_plain E" and r: "img_rec E k bs [] u r" "rec_from r \<noteq> 0" "rec_from r \<noteq> rec_recordId r"
    and u: "is_prefix FILE_SCHEME_PREFIX u"
  shows "\<exists>r'. RefreshUri E env W target appIndex r = Some r'
    \<and> img_rec E k bs (fst (refreshed env W target appIndex u)) (snd (refreshed env W target appIndex u)) r'
    \<and> rec_recordId r' = rec_recordId r \<and> rec_from r' = rec_from r"
proof -
  let ?p = "real_path env W target appIndex u"
  let ?q = "FILE_SCHEME_PREFIX @ ?p"
  have e: "RefreshUri E env W target appIndex r =
      (if ?p = [] then Some r else if contains_str DISTRIBUTEDFILES_TAG ?q then Some (r\<lparr>rec_convertUri := ?q\<rparr>)
       else SetUri E (Some ?q) r)"
    using img_rec_getters(1)[OF E r(1)] r(2,3) u E(2)
    by (simp add: RefreshUri_def real_path_def Let_def uri_plain_def)
  obtain r' where s: "SetUri E (Some ?q) r = Some r'" "img_rec E k bs [] ?q r'"
    "rec_recordId r' = rec_recordId r" "rec_from r' = rec_from r"
    using SetUri_img[OF r(1), of ?q] by blast
  have "img_rec E k bs ?q u (r\<lparr>rec_convertUri := ?q\<rparr>)" using r(1) by (simp add: img_rec_def)
  with e s r(1) show ?thesis by (simp add: refreshed_def Let_def)
qed

lemma Rebuild_imgs:
  assumes E: "utd_ok E" "uri_plain E" and r: "html_rec E h r" and xs: "imgs E (\<lambda>k. ([], f k)) m n xs" "n \<noteq> 0"
    and m: "length m < 2 ^ 32 - 1" "m \<noteq> []" "\<forall>k \<in> fst ` set m. is_prefix FILE_SCHEME_PREFIX (f k)"
    and d: "pd_records d = map Some (r # xs)" "prop_tag (pd_props d) = WEBVIEW_PASTEDATA_TAG"
  shows "\<exists>xs'. RebuildWebviewPasteData E env W target appIndex d =
      MergeExtraUris2Html E env (d\<lparr>pd_records := map Some (r # xs')\<rparr>)
    \<and> imgs E (\<lambda>k. refreshed env W target appIndex (f k)) m n xs'"
proof -
  let ?g = "RefreshUri E env W target appIndex"
  let ?xs' = "map (the \<circ> ?g) xs"
  have len: "length xs = length m" using xs by (simp add: imgs_def)
  have x: "rec_from (xs ! j) = n" "rec_from (xs ! j) \<noteq> 0" "rec_from (xs ! j) \<noteq> rec_recordId (xs ! j)"
    "img_rec E (fst (m ! j)) (snd (m ! j)) [] (f (fst (m ! j))) (xs ! j)"
    "is_prefix FILE_SCHEME_PREFIX (f (fst (m ! j)))" if "j < length m" for j
    using that xs id_neq[of j n] m(1) m(3)[rule_format, OF imageI[OF nth_mem[OF that]]] by (auto simp: imgs_def)
  have s: "?g (xs ! j) = Some (?xs' ! j)"
    "img_rec E (fst (m ! j)) (snd (m ! j)) (fst (refreshed env W target appIndex (f (fst (m ! j)))))
       (snd (refreshed env W target appIndex (f (fst (m ! j))))) (?xs' ! j)"
    "rec_from (?xs' ! j) = n" "rec_recordId (?xs' ! j) = rec_recordId (xs ! j)" if "j < length m" for j
    using RefreshUri_img[OF E, of "fst (m ! j)" "snd (m ! j)" "f (fst (m ! j))" "xs ! j" env W target appIndex]
      x[OF that] that len by auto
  have i: "imgs E (\<lambda>k. refreshed env W target appIndex (f k)) m n ?xs'"
    using s(2,3,4) xs(1) len by (auto simp: imgs_def)
  let ?acc = "\<lambda>i b. b \<or> rec_from ((r # xs) ! i) > 0"
  have "fold_run (rebuild_step E env W target appIndex) [0..<length (r # xs)] (d, False) =
      Some (d\<lparr>pd_records := map Some (r # ?xs')\<rparr>, fold ?acc [0..<length (r # xs)] False)"
  proof (rule fold_run_records_acc[OF d(1)])
    fix i b and d' :: PasteData
    assume a: "i < length (r # xs)" "pd_records d' ! i = Some ((r # xs) ! i)" "length (pd_records d') = length (r # xs)"
    show "rebuild_step E env W target appIndex i (d', b) = Some (set_record i ((r # ?xs') ! i) d', ?acc i b)"
    proof (cases i)
      case 0
      have "?g r = Some r" using html_rec_getters(1)[OF E(1) r] by (simp add: RefreshUri_def)
      then show ?thesis using a 0 by (simp add: rebuild_step_def record_at_def)
    next
      case (Suc j)
      then obtain y where "?g (xs ! j) = Some y" "?xs' ! j = y" using s(1)[of j] a len by auto
      then show ?thesis using Suc a by (simp add: rebuild_step_def record_at_def)
    qed
  qed simp
  moreover have "fold ?acc [0..<length (r # xs)] False"
  proof -
    have f: "fold ?acc js b = (b \<or> (\<exists>i \<in> set js. rec_from ((r # xs) ! i) > 0))" for js b
      by (induction js arbitrary: b) auto
    have "\<exists>i \<in> set [0..<length (r # xs)]. rec_from ((r # xs) ! i) > 0"
    proof (rule bexI[of _ 1])
      show "rec_from ((r # xs) ! 1) > 0" using x(2)[of 0] m(2) by (simp add: word_gt_0)
      have "0 < length m" using m(2) by simp
      then have "1 < length (r # xs)" using len by simp
      then show "1 \<in> set [0..<length (r # xs)]" by (simp only: set_upt atLeastLessThan_iff le0 simp_thms)
    qed
    then show ?thesis unfolding f by blast
  qed
  ultimately show ?thesis using d by (intro exI[of _ ?xs'] conjI i) (simp add: RebuildWebviewPasteData_def)
qed

section \<open>The paste\<close>

definition uri_of :: "string \<times> string \<Rightarrow> string" where
  "uri_of cv = (if fst cv = [] then snd cv else fst cv)"

lemma GroupRecordWithFrom_one:
  assumes "pd_records d = map Some rs" "\<And>r. r \<in> set rs \<Longrightarrow> rec_from r = n" "n \<noteq> 0" "rs \<noteq> []"
  shows "GroupRecordWithFrom d = Some [(n, [0..<length rs])]"
proof -
  let ?step = "\<lambda>i groupMap. do {
     record \<leftarrow> record_at i d;
     Some (if rec_from record = 0 then groupMap
           else assign (rec_from record)
                  ((case map_of groupMap (rec_from record) of None \<Rightarrow> [] | Some v \<Rightarrow> v) @ [i]) groupMap) }"
  have "fold_run ?step [0..<Suc j] [] = Some [(n, [0..<Suc j])]" if "j < length rs" for j
    using that
  proof (induction j)
    case 0
    then show ?case using assms(1,3) assms(2)[of "rs ! 0"] by (simp add: record_at_def)
  next
    case (Suc j)
    have "fold_run ?step [0..<Suc j] [] = Some [(n, [0..<Suc j])]" using Suc by simp
    moreover have "record_at (Suc j) d = Some (rs ! Suc j)" "rec_from (rs ! Suc j) = n"
      using Suc.prems assms(1,2) by (simp_all add: record_at_def)
    ultimately show ?case unfolding upt_Suc_append[OF le0, of "Suc j"] fold_run_append using assms(3) by simp
  qed
  from this[of "length rs - 1"] assms(4) have "fold_run ?step [0..<length rs] [] = Some [(n, [0..<length rs])]" by simp
  then show ?thesis using assms(1) by (simp add: GroupRecordWithFrom_def)
qed

lemma extract_imgs:
  assumes E: "utd_ok E" "uri_plain E" and xs: "imgs E f m n xs" and k: "MIMETYPE_TEXT_HTML \<notin> fst ` set m"
    and d: "pd_records d = map Some (r # xs)" and j: "j \<le> length m"
  shows "fold_run (extract_step E env) (map Suc [0..<j]) (d, hr, ht, []) =
    Some (d, hr, ht, replacements (\<lambda>k. uri_of (f k)) (take j m))"
  using j
proof (induction j)
  case 0
  then show ?case by (simp add: replacements_def)
next
  case (Suc j)
  have len: "j < length m" "length xs = length m" using Suc.prems xs by (auto simp: imgs_def)
  let ?k = "fst (m ! j)" and ?bs = "snd (m ! j)"
  have x: "img_rec E ?k ?bs (fst (f ?k)) (snd (f ?k)) (xs ! j)" using xs len by (simp add: imgs_def)
  have "?k \<noteq> MIMETYPE_TEXT_HTML" using k len by (metis nth_mem imageI)
  note g = img_rec_getters(1,2)[OF E x] img_rec_getters(4)[OF E x this]
  have at: "record_at (Suc j) d = Some (xs ! j)" "set_record (Suc j) (xs ! j) d = d"
    using d len by (simp_all add: record_at_def set_record_def list_update_same_conv)
  have "extract_step E env (Suc j) (d, hr, ht, acc) = Some (d, hr, ht, collect_offsets (uri_of (f ?k)) (?k, ?bs) acc)" for acc
    by (simp add: extract_step_def at g nonempty_ptr_def uri_of_def)
  moreover have "replacements (\<lambda>k. uri_of (f k)) (take (Suc j) m) =
      collect_offsets (uri_of (f ?k)) (?k, ?bs) (replacements (\<lambda>k. uri_of (f k)) (take j m))"
    using len by (simp add: replacements_def take_Suc_conv_app_nth)
  ultimately show ?case using Suc by (simp add: fold_run_append)
qed

lemma Replace_imgs:
  assumes E: "utd_ok E" "uri_plain E" and r: "html_rec E h r" "h \<noteq> []" and xs: "imgs E f m n xs"
    and k: "MIMETYPE_TEXT_HTML \<notin> fst ` set m" and d: "pd_records d = map Some (r # xs)"
  shows "\<exists>r'. ReplaceHtmlRecordContentByExtraUris E env [0..<length (r # xs)] d = Some (d\<lparr>pd_records := map Some (r' # xs)\<rparr>)
    \<and> html_rec E (replace_uris (replacements (\<lambda>k. uri_of (f k)) m) h) r' \<and> rec_from r' = 0 \<and> rec_recordId r' = rec_recordId r"
proof -
  have len: "length xs = length m" using xs by (simp add: imgs_def)
  have at: "record_at 0 d = Some r" "set_record 0 r d = d" using d by (simp_all add: record_at_def set_record_def)
  have "[0..<Suc n] = 0 # map Suc [0..<n]" for n by (simp add: map_Suc_upt upt_conv_Cons del: upt_Suc)
  then have l: "[0..<length (r # xs)] = 0 # map Suc [0..<length m]" using len by (simp del: upt_Suc)
  have ex: "fold_run (extract_step E env) (map Suc [0..<length m]) (d, Some 0, Some h, []) =
      Some (d, Some 0, Some h, replacements (\<lambda>k. uri_of (f k)) (take (length m) m))"
    by (rule extract_imgs[OF E xs k d]) simp_all
  have "ExtractContent E env [0..<length (r # xs)] d = Some (d, Some 0, Some h, replacements (\<lambda>k. uri_of (f k)) m)"
    unfolding ExtractContent_def l fold_run.simps
    using ex html_rec_getters(2,3)[OF E(1) r(1)] r(2)
    by (simp add: extract_step_def[of E env 0] at nonempty_ptr_def)
  moreover obtain r' where u: "UpdateHtmlRecord E env (replace_uris (replacements (\<lambda>k. uri_of (f k)) m) h) r = Some r'"
    "html_rec E (replace_uris (replacements (\<lambda>k. uri_of (f k)) m) h) r'" "rec_from r' = 0" "rec_recordId r' = rec_recordId r"
    using UpdateHtmlRecord_html[OF E(1) r(1)] by blast
  ultimately have "ReplaceHtmlRecordContentByExtraUris E env [0..<length (r # xs)] d = Some (set_record 0 r' d)"
    by (simp add: ReplaceHtmlRecordContentByExtraUris_def at del: upt_Suc)
  moreover have "set_record 0 r' d = d\<lparr>pd_records := map Some (r' # xs)\<rparr>" using d by (simp add: set_record_def)
  ultimately show ?thesis using u(2-4) by auto
qed

lemma RemoveRecordById_second:
  assumes "pd_records d = map Some (r # x # xs)" "rec_recordId r \<noteq> rec_recordId x"
  shows "pd_records (RemoveRecordById (rec_recordId x) d) = map Some (r # xs)"
  using assms by (simp add: RemoveRecordById_def RemoveRecordAt_def)

lemma RemoveExtraUris_imgs:
  assumes "pd_records d = map Some (r # xs)" "rec_from r = 0"
    and "\<And>x. x \<in> set xs \<Longrightarrow> rec_from x > 0 \<and> GetMimeType_record x = MIMETYPE_TEXT_URI \<and> rec_recordId x \<noteq> rec_recordId r"
  shows "\<exists>d'. RemoveExtraUris d = Some d' \<and> pd_records d' = [Some r]"
proof -
  let ?step = "\<lambda>p d'. do { record \<leftarrow> p;
     Some (if rec_from record > 0 \<and> GetMimeType_record record = MIMETYPE_TEXT_URI
           then RemoveRecordById (rec_recordId record) d' else d') }"
  have "\<exists>d'. fold_run ?step (map Some ys) d = Some d' \<and> pd_records d' = [Some r]"
    if "pd_records d = map Some (r # ys)" "set ys \<subseteq> set xs" for ys d
    using that
  proof (induction ys arbitrary: d)
    case (Cons x ys)
    have x: "rec_from x > 0" "GetMimeType_record x = MIMETYPE_TEXT_URI" "rec_recordId r \<noteq> rec_recordId x"
      using assms(3)[of x] Cons.prems(2) by auto
    show ?case
      using Cons.IH[OF RemoveRecordById_second[OF Cons.prems(1) x(3)]] Cons.prems(2) x(1,2) by simp
  qed simp
  from this[OF assms(1)] show ?thesis using assms(1,2) by (simp add: RemoveExtraUris_def)
qed

lemma Merge_imgs:
  assumes E: "utd_ok E" "uri_plain E" and r: "html_rec E h r" "h \<noteq> []" "rec_from r = n" "rec_recordId r = n"
    and xs: "imgs E f m n xs" "n \<noteq> 0" and m: "length m < 2 ^ 32 - 1"
    and k: "MIMETYPE_TEXT_HTML \<notin> fst ` set m" and d: "pd_records d = map Some (r # xs)"
  shows "\<exists>d' r'. MergeExtraUris2Html E env d = Some d' \<and> pd_records d' = [Some r']
    \<and> html_rec E (replace_uris (replacements (\<lambda>k. uri_of (f k)) m) h) r' \<and> rec_from r' = 0"
proof -
  have len: "length xs = length m" using xs by (simp add: imgs_def)
  have x: "rec_from (xs ! j) = n" "rec_recordId (xs ! j) \<noteq> n" "GetMimeType_record (xs ! j) = MIMETYPE_TEXT_URI"
    if "j < length m" for j
    using that xs id_neq[of j n] m
      img_rec_getters(3)[OF E, of "fst (m ! j)" "snd (m ! j)" "fst (f (fst (m ! j)))" "snd (f (fst (m ! j)))" "xs ! j"]
    by (auto simp: imgs_def)
  have x': "y \<in> set xs \<Longrightarrow> rec_from y = n \<and> rec_recordId y \<noteq> n \<and> GetMimeType_record y = MIMETYPE_TEXT_URI" for y
    using x len by (metis in_set_conv_nth)
  have "rec_from y = n" if "y \<in> set (r # xs)" for y using that r(3) x' by auto
  from GroupRecordWithFrom_one[OF d this xs(2)]
  have g: "GroupRecordWithFrom d = Some [(n, [0..<length (r # xs)])]" by simp
  obtain r' where r': "ReplaceHtmlRecordContentByExtraUris E env [0..<length (r # xs)] d = Some (d\<lparr>pd_records := map Some (r' # xs)\<rparr>)"
    "html_rec E (replace_uris (replacements (\<lambda>k. uri_of (f k)) m) h) r'" "rec_from r' = 0" "rec_recordId r' = n"
    using Replace_imgs[OF E r(1,2) xs(1) k d] r(4) by auto
  have "\<exists>d'. RemoveExtraUris (d\<lparr>pd_records := map Some (r' # xs)\<rparr>) = Some d' \<and> pd_records d' = [Some r']"
    using x' xs(2) r'(3,4) by (intro RemoveExtraUris_imgs) (auto simp: word_gt_0)
  then show ?thesis using r' g by (auto simp: MergeExtraUris2Html_def simp del: upt_Suc)
qed

lemma occurs_length: "occurs k L s \<Longrightarrow> length L \<le> length s"
proof (induction L arbitrary: k s)
  case (Cons pv L)
  obtain p v where pv: "pv = (p, v)" by (cases pv)
  have o: "k \<le> p" "p + length v < k + length s" "occurs (p + length v + 1) L (drop (p - k + length v + 1) s)"
    using Cons.prems unfolding pv occurs.simps by blast+
  from Cons.IH[OF o(3)] o(1,2) show ?case by (simp add: pv)
qed simp

lemma length_img_sources: "length (img_sources W bi userId h) \<le> length h"
proof -
  let ?m = "SplitHtmlWithImgSrcLabel (SplitHtmlWithImgLabel h)" and ?L = "html_occs h"
  note of = fold_add_occ[of ?L, folded sources_of_occs]
  have d: "distinct (map fst ?m)" using of[THEN conjunct1] by (auto simp: map_ok_def strict_sorted_iff)
  have "set (map fst ?m) \<subseteq> snd ` set ?L"
  proof
    fix k assume "k \<in> set (map fst ?m)"
    then have "map_of ?m k \<noteq> None" by (auto simp: map_of_eq_None_iff)
    then have "positions k ?L \<noteq> []" using of[of k] by (auto split: if_splits)
    then show "k \<in> snd ` set ?L" by (force simp: positions_def filter_empty_conv)
  qed
  then have "card (set (map fst ?m)) \<le> card (snd ` set ?L)" by (intro card_mono) auto
  also have "\<dots> \<le> length ?L" by (metis card_image_le card_length finite_set le_trans)
  also have "\<dots> \<le> length h" by (rule occurs_length[OF html_occs_facts(1)])
  finally have "length ?m \<le> length h" using distinct_card[OF d] by simp
  moreover have "length (img_sources W bi userId h) \<le> length ?m"
    by (simp add: img_sources_def RemoveInvalidImgSrc_def)
  ultimately show ?thesis by simp
qed

text \<open>C34: Copying and pasting HTML. For data with one HTML record whose text shows a local image:
  the copy splits the text and translates the URIs of the images, the paste refreshes them for
  the target and merges them, and none of the steps fails. What is pasted is one record, whose
  text is the copied text with exactly the sources of existing local images replaced, each by the
  URI of its record, at every place it occurs; the offsets survive replacements of another length.\<close>

theorem html_copy_paste:
  assumes E: "utd_ok E" "uri_plain E" and svc: "IsPasteboardService env"
    and r: "html_rec E h r" "h \<noteq> []" "length h < MAX_TEXT_LEN"
    and d: "pd_records d = [Some r]" "rec_recordId r = pd_recordId d" "rec_recordId r \<noteq> 0" "rec_from r = 0"
    and src: "img_sources W bi userId h \<noteq> []"
  shows "\<exists>d1 d2 d3 r'. SplitWebviewPasteData E env W bi userId d = Some (True, d1)
    \<and> SetWebviewPasteData E bi d1 = Some d2
    \<and> RebuildWebviewPasteData E env' W target appIndex d2 = Some d3
    \<and> pd_records d3 = [Some r']
    \<and> GetHtmlTextV0 E r' = Some (Some (rewrite_html (\<lambda>v.
         if IsLocalURI v \<and> v \<in> set (ExtractImgSrc W h bi userId)
         then uri_of (refreshed env' W target appIndex (local_uri bi v)) else v) h))"
proof -
  let ?m = "img_sources W bi userId h" and ?n = "rec_recordId r"
  let ?r = "r\<lparr>rec_from := ?n\<rparr>" and ?f = "\<lambda>k. refreshed env' W target appIndex (local_uri bi k)"
  have len: "length ?m < 2 ^ 32 - 1" "length h < 2 ^ 32"
    using length_img_sources[of W bi userId h] r(3) by (auto simp: MAX_TEXT_LEN_def)
  have pre: "\<forall>k \<in> fst ` set ?m. is_prefix IMG_LOCAL_URI k" using img_sources_file by fastforce
  then have pre2: "\<forall>k \<in> fst ` set ?m. is_prefix FILE_SCHEME_PREFIX (local_uri bi k)" using local_uri_file by blast
  have r': "html_rec E h ?r" "rec_from ?r = ?n" "rec_recordId ?r = ?n" using r(1) by (simp_all add: html_rec_def)
  have html: "MIMETYPE_TEXT_HTML \<notin> fst ` set ?m"
    using pre by (force simp: is_prefix_def uri_prefix_defs mime_defs)
  have ne: "rec_recordId r \<noteq> rec_from r" using d(3,4) by simp
  obtain d1 xs where d1: "SplitWebviewPasteData E env W bi userId d = Some (True, d1)"
    "pd_records d1 = map Some (?r # xs)" "prop_tag (pd_props d1) = WEBVIEW_PASTEDATA_TAG"
    "imgs E (\<lambda>k. ([], k)) ?m ?n xs"
    using Split_one_html[OF E(1) svc r(1,2) d(1) ne src] imgs_numbered[OF E(2), of ?m ?n] d(2) by auto
  obtain xs2 where x2: "SetWebviewPasteData E bi d1 = Some (d1\<lparr>pd_records := map Some (?r # xs2)\<rparr>)"
    "imgs E (\<lambda>k. ([], local_uri bi k)) ?m ?n xs2"
    using SetWebview_imgs[OF E r'(1) d1(4) d(3) len(1) pre d1(2,3), of bi] by blast
  let ?d2 = "d1\<lparr>pd_records := map Some (?r # xs2)\<rparr>"
  have tag: "pd_records ?d2 = map Some (?r # xs2)" "prop_tag (pd_props ?d2) = WEBVIEW_PASTEDATA_TAG"
    using d1(3) by simp_all
  obtain xs3 where x3: "RebuildWebviewPasteData E env' W target appIndex ?d2 =
      MergeExtraUris2Html E env' (?d2\<lparr>pd_records := map Some (?r # xs3)\<rparr>)" "imgs E ?f ?m ?n xs3"
    using Rebuild_imgs[OF E r'(1) x2(2) d(3) len(1) src pre2 tag, of env' W target appIndex] by blast
  let ?d3 = "?d2\<lparr>pd_records := map Some (?r # xs3)\<rparr>"
  have p3: "pd_records ?d3 = map Some (?r # xs3)" by simp
  obtain d3 r3 where m3: "MergeExtraUris2Html E env' ?d3 = Some d3" "pd_records d3 = [Some r3]"
    "html_rec E (replace_uris (replacements (\<lambda>k. uri_of (?f k)) ?m) h) r3"
    using Merge_imgs[OF E r'(1) r(2) r'(2,3) x3(2) d(3) len(1) html p3, of env'] by blast
  have "GetHtmlTextV0 E r3 = Some (Some (rewrite_html (\<lambda>v.
         if IsLocalURI v \<and> v \<in> set (ExtractImgSrc W h bi userId) then uri_of (?f v) else v) h))"
    using html_rec_getters(4)[OF E(1) m3(3)] rewrites_sources[OF len(2), of "\<lambda>k. uri_of (?f k)"]
    by (simp add: img_sources_def)
  with d1(1) x2(1) x3(1) m3(1,2) show ?thesis by (intro exI[of _ d1] exI[of _ ?d2] exI[of _ d3] exI[of _ r3]) simp
qed

text \<open>An instance: every path exists, and a pasted file is read below \<open>/real\<close>.\<close>

definition sample_web :: web_env where
  "sample_web = \<lparr>img_nodes = (\<lambda>_. Some [None, Some ''file:///a.png'', Some ''http://b/c.png'']),
     IsValidPath = (\<lambda>_. True), GetPhysicalPath = (\<lambda>u _. Some u), path_stat = (\<lambda>_. StatFile), calling_uid = 0,
     uri_persistable = False, FLAG_AUTH_READ = 1, FLAG_AUTH_WRITE = 2,
     CheckUriAuthorization = (\<lambda>us f t. map (\<lambda>u. f = 1) us),
     GetDirByBundleNameAndAppIndex = (\<lambda>b i. (0, b)), GetRealPathBySA = (\<lambda>u b. ''/real/'' @ b),
     GetRealPath = (\<lambda>u. ''/real''), GetScheme = (\<lambda>u. if is_prefix ''file://'' u then ''file'' else ''http''),
     GetAuthority = (\<lambda>u. ''app'')\<rparr>"

definition sample_page :: "string \<Rightarrow> string" where
  "sample_page u = ''<p><img src='' @ [CHR 0x22] @ u @ [CHR 0x22] @ ''></p>''"

definition sample_html_record :: PasteDataRecord where
  "sample_html_record = (empty_record sample_ext)\<lparr>rec_mimeType := MIMETYPE_TEXT_HTML, rec_recordId := 1,
     rec_entries := [Some (html_entry sample_ext (sample_page ''file:///a.png''))]\<rparr>"

definition sample_html_data :: PasteData where
  "sample_html_data = (new_data sample_params 0)\<lparr>pd_recordId := 1, pd_records := [Some sample_html_record]\<rparr>"

definition sample_service :: client where
  "sample_service = \<lparr>IsPasteboardService = True, GetRecordValueByType = (\<lambda>_ _ e. e)\<rparr>"

lemma sample_sources:
  "img_sources sample_web ''app'' 100 (sample_page ''file:///a.png'') \<noteq> []"
  "rewrite_html (\<lambda>v. if IsLocalURI v \<and> v \<in> set (ExtractImgSrc sample_web (sample_page ''file:///a.png'') ''app'' 100)
     then uri_of (refreshed sample_service sample_web ''b'' 0 (local_uri ''app'' v)) else v)
     (sample_page ''file:///a.png'') = sample_page ''file:///real/b''"
  by code_simp+

theorem html_copy_paste_witness:
  "\<exists>d1 d2 d3 r'. SplitWebviewPasteData sample_ext sample_service sample_web ''app'' 100 sample_html_data = Some (True, d1)
    \<and> SetWebviewPasteData sample_ext ''app'' d1 = Some d2
    \<and> RebuildWebviewPasteData sample_ext sample_service sample_web ''b'' 0 d2 = Some d3
    \<and> pd_records d3 = [Some r'] \<and> GetHtmlTextV0 sample_ext r' = Some (Some (sample_page ''file:///real/b''))"
proof -
  have "uri_plain sample_ext" by (simp add: uri_plain_def sample_ext_def)
  moreover have "html_rec sample_ext (sample_page ''file:///a.png'') sample_html_record"
    by (simp add: html_rec_def sample_html_record_def empty_record_def)
  moreover have "length (sample_page ''file:///a.png'') < MAX_TEXT_LEN" "sample_page ''file:///a.png'' \<noteq> []"
    by (simp_all add: sample_page_def MAX_TEXT_LEN_def)
  moreover have "pd_records sample_html_data = [Some sample_html_record]"
    "rec_recordId sample_html_record = pd_recordId sample_html_data" "rec_recordId sample_html_record \<noteq> 0"
    "rec_from sample_html_record = 0" "IsPasteboardService sample_service"
    by (simp_all add: sample_html_data_def sample_html_record_def empty_record_def sample_service_def)
  ultimately show ?thesis
    using html_copy_paste[of sample_ext sample_service "sample_page ''file:///a.png''" sample_html_record sample_html_data
        sample_web "''app''" 100 sample_service "''b''" 0] sample_utd_ok sample_sources
    by simp
qed

section \<open>Permissions\<close>

lemma check_batches_map:
  assumes "\<And>us. ask us = map a us"
  shows "check_batches ask uris = map a uris"
proof (induction "length uris" arbitrary: uris rule: less_induct)
  case less
  show ?case
  proof (cases "uris = []")
    case False
    then have "length (drop URI_BATCH_SIZE uris) < length uris" by (simp add: URI_BATCH_SIZE_def)
    from less[OF this] have "check_batches ask uris = map a (take URI_BATCH_SIZE uris @ drop URI_BATCH_SIZE uris)"
      using False by (subst check_batches.simps) (simp only: assms map_append if_False)
    then show ?thesis by simp
  qed (simp add: check_batches.simps)
qed

definition stamp_uri :: "ext \<Rightarrow> web_env \<Rightarrow> (u32 \<Rightarrow> u32 \<Rightarrow> string \<Rightarrow> bool) \<Rightarrow> u32 \<Rightarrow> PasteDataRecord \<Rightarrow> PasteDataRecord" where
  "stamp_uri E W auth tokenId r = (case GetOriginUri E r of
      Some (Some u) \<Rightarrow> SetUriPermission W (auth (FLAG_AUTH_READ W) tokenId u) (auth (FLAG_AUTH_WRITE W) tokenId u)
                        (uri_persistable W) (r\<lparr>rec_hasGrantUriPermission := auth (FLAG_AUTH_READ W) tokenId u\<rparr>)
    | _ \<Rightarrow> r)"


definition uri_index :: "ext \<Rightarrow> PasteData \<Rightarrow> nat \<Rightarrow> uri option" where
  "uri_index E d i = (case pd_records d ! i of None \<Rightarrow> None | Some r \<Rightarrow> the (GetOriginUri E r))"

lemma GetNeedCheckUris_eq:
  assumes "\<And>r. Some r \<in> set (pd_records d) \<Longrightarrow> GetOriginUri E r \<noteq> None"
  shows "\<exists>n. GetNeedCheckUris E W False d = Some (d, n,
    map (\<lambda>i. (the (uri_index E d i), i)) (filter (\<lambda>i. uri_index E d i \<noteq> None) [0..<length (pd_records d)]))"
proof -
  have "\<exists>n. fold_run (need_check_step E W False) [0..<m] (d, 0, []) = Some (d, n,
    map (\<lambda>i. (the (uri_index E d i), i)) (filter (\<lambda>i. uri_index E d i \<noteq> None) [0..<m]))"
    if "m \<le> length (pd_records d)" for m
    using that
  proof (induction m)
    case (Suc m)
    then obtain n where n: "fold_run (need_check_step E W False) [0..<m] (d, 0, []) = Some (d, n,
      map (\<lambda>i. (the (uri_index E d i), i)) (filter (\<lambda>i. uri_index E d i \<noteq> None) [0..<m]))" by auto
    have m: "m < length (pd_records d)" using Suc.prems by simp
    let ?x = "if uri_index E d m = None then [] else [(the (uri_index E d m), m)]"
    have "\<exists>k. need_check_step E W False m (d, n, us) = Some (d, k, us @ ?x)" for us
    proof (cases "pd_records d ! m")
      case None
      then show ?thesis using m by (simp add: need_check_step_def GetRecordAt_def uri_index_def)
    next
      case (Some r)
      then obtain p where "GetOriginUri E r = Some p" using assms[of r] m by (metis nth_mem option.collapse)
      then show ?thesis using m Some
        by (cases p) (simp_all add: need_check_step_def GetRecordAt_def uri_index_def)
    qed
    then obtain k where "need_check_step E W False m (d, n,
        map (\<lambda>i. (the (uri_index E d i), i)) (filter (\<lambda>i. uri_index E d i \<noteq> None) [0..<m])) =
      Some (d, k, map (\<lambda>i. (the (uri_index E d i), i)) (filter (\<lambda>i. uri_index E d i \<noteq> None) [0..<m]) @ ?x)" by blast
    with n show ?case by (intro exI[of _ k]) (simp add: fold_run_append)
  qed simp
  then show ?thesis by (simp add: GetNeedCheckUris_def)
qed

lemma grant_all:
  assumes def: "\<And>r. Some r \<in> set (pd_records d) \<Longrightarrow> GetOriginUri E r \<noteq> None" and m: "m \<le> length (pd_records d)"
  shows "fold_run (grant_step E W) (map (\<lambda>i. (i, auth (FLAG_AUTH_READ W) t (the (uri_index E d i)),
      auth (FLAG_AUTH_WRITE W) t (the (uri_index E d i)))) (filter (\<lambda>i. uri_index E d i \<noteq> None) [0..<m])) d =
    Some (d\<lparr>pd_records := map (map_option (stamp_uri E W auth t)) (take m (pd_records d)) @ drop m (pd_records d)\<rparr>)"
  using m
proof (induction m)
  case (Suc m)
  let ?rs = "pd_records d" and ?st = "map_option (stamp_uri E W auth t)"
  let ?d = "d\<lparr>pd_records := map ?st (take m ?rs) @ drop m ?rs\<rparr>"
  have m: "m < length ?rs" using Suc.prems by simp
  have at: "GetRecordAt m ?d = ?rs ! m" using m by (simp add: GetRecordAt_def nth_append)
  have upd: "set_record m x ?d = d\<lparr>pd_records := map ?st (take (Suc m) ?rs) @ drop (Suc m) ?rs\<rparr>"
    if "Some x = ?st (?rs ! m)" for x
    using m that by (simp add: set_record_def take_Suc_conv_app_nth list_update_append Cons_nth_drop_Suc[symmetric])
  have keep: "?d = d\<lparr>pd_records := map ?st (take (Suc m) ?rs) @ drop (Suc m) ?rs\<rparr>" if "?st (?rs ! m) = ?rs ! m"
    using m that by (simp add: take_Suc_conv_app_nth Cons_nth_drop_Suc[symmetric])
  show ?case
  proof (cases "uri_index E d m")
    case None
    have "?st (?rs ! m) = ?rs ! m"
    proof (cases "?rs ! m")
      case (Some r)
      then obtain p where p: "GetOriginUri E r = Some p" using def[of r] nth_mem[OF m] by auto
      then have "p = None" using None Some by (simp add: uri_index_def)
      then show ?thesis using Some p by (simp add: stamp_uri_def)
    qed simp
    from keep[OF this] Suc m have "fold_run (grant_step E W) (map (\<lambda>i. (i, auth (FLAG_AUTH_READ W) t (the (uri_index E d i)),
        auth (FLAG_AUTH_WRITE W) t (the (uri_index E d i)))) (filter (\<lambda>i. uri_index E d i \<noteq> None) [0..<m])) d =
      Some (d\<lparr>pd_records := map ?st (take (Suc m) ?rs) @ drop (Suc m) ?rs\<rparr>)"
      by (metis less_imp_le)
    then show ?thesis using None by simp
  next
    case (Some u)
    then obtain r where r: "?rs ! m = Some r" "GetOriginUri E r = Some (Some u)"
    proof (cases "?rs ! m")
      case None
      with Some show ?thesis by (simp add: uri_index_def)
    next
      case (Some r)
      then obtain p where p: "GetOriginUri E r = Some p" using def[of r] nth_mem[OF m] by auto
      then have "p = Some u" using Some \<open>uri_index E d m = Some u\<close> by (simp add: uri_index_def)
      with that Some p show ?thesis by blast
    qed
    then have "grant_step E W (m, auth (FLAG_AUTH_READ W) t u, auth (FLAG_AUTH_WRITE W) t u) ?d =
        Some (set_record m (stamp_uri E W auth t r) ?d)"
      by (simp only: grant_step_def prod.case at) (simp add: stamp_uri_def)
    then show ?thesis using Suc Some upd[of "stamp_uri E W auth t r"] r by (simp add: fold_run_append)
  qed
qed simp

text \<open>The permissions of URIs at a copy. When the permission service answers each URI by itself,
  the batches of ten thousand and the index lists make no difference: exactly the records with a URI
  are stamped, each with the answer for its own URI, and nothing else of the data changes.\<close>

theorem uri_permissions_stamped:
  assumes "calling_uid W \<noteq> ANCO_SERVICE_BROKER_UID"
    and ask: "\<forall>us f t. CheckUriAuthorization W us f t = map (auth f t) us"
    and "\<forall>r. Some r \<in> set (pd_records d) \<longrightarrow> no_null_objects r"
  shows "CheckAppUriPermission E W d = Some (d\<lparr>pd_records :=
    map (map_option (stamp_uri E W auth (prop_tokenId (pd_props d)))) (pd_records d)\<rparr>)"
proof -
  have def: "\<And>r. Some r \<in> set (pd_records d) \<Longrightarrow> GetOriginUri E r \<noteq> None"
    using getters_defined assms(3) by blast
  let ?t = "prop_tokenId (pd_props d)" and ?is = "filter (\<lambda>i. uri_index E d i \<noteq> None) [0..<length (pd_records d)]"
  obtain n where n: "GetNeedCheckUris E W False d = Some (d, n, map (\<lambda>i. (the (uri_index E d i), i)) ?is)"
    using GetNeedCheckUris_eq[OF def, where W = W] by blast
  have b: "check_batches (\<lambda>us. CheckUriAuthorization W us f t) uris = map (auth f t) uris" for f t uris
    using ask by (intro check_batches_map) simp
  have z: "zip (map (snd \<circ> (\<lambda>i. (u i, i))) js) (zip (map (a \<circ> (fst \<circ> (\<lambda>i. (u i, i)))) js)
      (map (c \<circ> (fst \<circ> (\<lambda>i. (u i, i)))) js)) = map (\<lambda>i. (i, a (u i), c (u i))) js"
    for u :: "nat \<Rightarrow> string" and a c :: "string \<Rightarrow> bool" and js
    by (induction js) auto
  have g: "fold_run (grant_step E W) (map (\<lambda>i. (i, auth (FLAG_AUTH_READ W) ?t (the (uri_index E d i)),
      auth (FLAG_AUTH_WRITE W) ?t (the (uri_index E d i)))) ?is) d =
    Some (d\<lparr>pd_records := map (map_option (stamp_uri E W auth ?t)) (pd_records d)\<rparr>)"
    using grant_all[OF def order_refl, where W = W and auth = auth and t = "?t"] by simp
  show ?thesis
  proof (cases "?is = []")
    case True
    then show ?thesis using n g assms(1) by (simp add: CheckAppUriPermission_def)
  next
    case False
    then show ?thesis using n g assms(1) by (simp add: CheckAppUriPermission_def b Let_def z)
  qed
qed

theorem uri_permissions_stamped_witness:
  "CheckAppUriPermission sample_ext sample_web
     ((new_data sample_params 0)\<lparr>pd_records := [None, Some (NewUriRecord sample_ext ''file:///a'')]\<rparr>) =
   Some ((new_data sample_params 0)\<lparr>pd_records := [None, Some ((NewUriRecord sample_ext ''file:///a'')
     \<lparr>rec_hasGrantUriPermission := True, rec_uriPermission := 1\<rparr>)]\<rparr>)"
proof -
  let ?r = "NewUriRecord sample_ext ''file:///a''"
  have e: "rec_entries ?r = [Some (uri_entry sample_ext ''file:///a'')]"
    by (simp add: NewUriRecord_def Builder_SetUri_def Build_single mime_defs uri_entry_def Convert2UtdId_def)
  have "no_null_objects ?r" unfolding no_null_objects_def e by (simp add: uri_entry_def mk_entry_mime_def)
  moreover have "stamp_uri sample_ext sample_web (\<lambda>f t u. f = 1) t ?r =
      ?r\<lparr>rec_hasGrantUriPermission := True, rec_uriPermission := 1\<rparr>" for t
    using e by (simp add: stamp_uri_def GetOriginUri_def entry_with_mime_def uri_entry_def mk_entry_mime_def
        ConvertToUri_def IsFileUri_def SetUriPermission_def READ_PERMISSION_def sample_web_def)
  ultimately show ?thesis
    using uri_permissions_stamped[of sample_web "\<lambda>f t u. f = 1"
        "(new_data sample_params 0)\<lparr>pd_records := [None, Some ?r]\<rparr>" sample_ext]
    by (simp add: sample_web_def ANCO_SERVICE_BROKER_UID_def)
qed

end
