(* ===== verification/Service_State.thy ===== *)
theory Service_State
  imports Disposable Observers Data_Tlv Web_Roundtrip
begin

text \<open>
  The state of the pasteboard service (\<open>services/core/src/pasteboard_service.cpp\<close>) and what it is
  told about callers. For every user there is at most one clip; it is valid while the user also
  has a copy time, which the expiration timer removes. What the code asks other system services
  while it handles a request is the record \<open>svc_env\<close>, one for each request. The calls the service
  makes to observers and to the distributed plugin are the list \<open>outputs\<close>. The clips hold
  pointers that are never null.
\<close>

section \<open>The environment of a request\<close>

datatype token_type = TOKEN_HAP | TOKEN_NATIVE | TOKEN_SHELL | TOKEN_OTHER

record hap_info =
  hap_bundleName :: string
  hap_instIndex :: i32
  hap_userID :: i32
  hap_apiVersion :: i32

definition EVT_UNKNOWN :: u16 where "EVT_UNKNOWN = 0"
definition EVT_NORMAL :: u16 where "EVT_NORMAL = 2"

record GlobalEvent =
  evt_version :: byte
  evt_frameNum :: byte
  evt_user :: u16
  evt_seqId :: u16
  evt_status :: u16
  evt_syncTime :: i32
  evt_dataId :: u32
  evt_expiration :: u64
  evt_isDelay :: bool
  evt_notNeedLink :: bool
  evt_deviceId :: string
  evt_account :: string
  evt_dataType :: "string list"

definition new_event :: GlobalEvent where
  "new_event = \<lparr>evt_version = 0, evt_frameNum = 0, evt_user = 0, evt_seqId = 0, evt_status = EVT_UNKNOWN,
     evt_syncTime = 0, evt_dataId = 0, evt_expiration = 0, evt_isDelay = False, evt_notNeedLink = False,
     evt_deviceId = [], evt_account = [], evt_dataType = []\<rparr>"

record svc_env =
  sv_ext :: ext
  sv_params :: params_ops
  sv_web :: web_env
  QueryDlpFileCopyable :: "(u32 \<Rightarrow> bool option) option" \<comment> \<open>outer \<open>None\<close> unless built with DLP, inner \<open>None\<close>: the query fails\<close>
  GetTokenTypeFlag :: "u32 \<Rightarrow> token_type"
  GetHapTokenInfo :: "u32 \<Rightarrow> hap_info option"
  GetNativeTokenInfo :: "u32 \<Rightarrow> string option" \<comment> \<open>the process name\<close>
  ResolveMainDisplayUser :: "i32 option option" \<comment> \<open>\<open>None\<close>: no resolver; \<open>Some None\<close>: not valid\<close>
  IsPermissionGranted :: "string \<Rightarrow> u32 \<Rightarrow> bool"
  IsCtrlVProcess :: bool
  GetLocalNetworkId :: string
  GetCurrentAccount :: string
  GetTime :: string
  GetBootTimeMs :: i64
  maxLocalCapacity :: i64
  recalculate_size :: i64 \<comment> \<open>\<open>static_cast<int64_t>(maxLocalCapacity_ * 0.9f)\<close>\<close>
  max_raw :: i64 \<comment> \<open>\<open>MessageParcelWarp::GetRawDataSize()\<close>\<close>
  has_plugin :: bool
  IsWiFiEnable :: bool
  GetTopEvents :: "i32 \<Rightarrow> GlobalEvent list"
  GetRemoteDeviceInfo :: "string \<Rightarrow> i32"
  constraint_enabled :: "i32 \<Rightarrow> bool option" \<comment> \<open>\<open>None\<close>: the query fails\<close>
  display_of :: "(i32 \<Rightarrow> u64 option) option" \<comment> \<open>\<open>None\<close> unless built for a cockpit\<close>
  focus_window :: i32
  now_ms :: i64

definition svc_client :: client where
  "svc_client = \<lparr>IsPasteboardService = True, GetRecordValueByType = (\<lambda>_ _ e. e)\<rparr>"

section \<open>The state\<close>

datatype svc_output =
    Notified "notification set"
  | Published GlobalEvent PasteData
  | PluginCleared i32
  | FdClosed i32
  | Noticed "notice list"
  | Answered "DisposableInfo list" PasteData \<comment> \<open>handed to the answering thread\<close>
  | Recognized PasteData \<comment> \<open>handed to entity recognition\<close>

record service =
  clips :: "(i32, PasteData) entries"
  clipChangeCount :: "(i32, u32) entries"
  copyTime :: "(i32, u64) entries"
  delayGetters :: "(i32, PasteData \<Rightarrow> PasteData) entries"
  entryGetters :: "(i32, entry_getter) entries"
  setting :: bool
  dataId :: u32
  sequenceId :: u16
  delayDataId :: u32
  delayTokenId :: u32
  setPasteDataUId :: i32
  screenStatusMap :: "(i32, i32) entries"
  globalShareOptions :: share_table
  observers :: observer_state
  disposables :: "DisposableInfo list"
  currentEvent :: GlobalEvent
  dataHistory :: "string list"
  isCritical :: bool
  criticalTimer :: bool
  timers :: "i32 list" \<comment> \<open>users with an armed expiration timer\<close>
  entityObservers :: nat \<comment> \<open>\<open>entityObserverMap_.Size()\<close>\<close>
  outputs :: "svc_output list"

definition emit :: "svc_output \<Rightarrow> service \<Rightarrow> service" where
  "emit out s = s\<lparr>outputs := outputs s @ [out]\<rparr>"

definition notify :: "string \<Rightarrow> i32 \<Rightarrow> event_status \<Rightarrow> service \<Rightarrow> service" where
  "notify bundleName userId status s = emit (Notified (NotifyObservers bundleName userId status (observers s))) s"

section \<open>Who is calling\<close>

record AppInfo =
  ai_bundleName :: string
  ai_tokenType :: token_type
  ai_userId :: i32
  ai_tokenId :: u32
  ai_appIndex :: i32

definition new_AppInfo :: AppInfo where
  "new_AppInfo = \<lparr>ai_bundleName = ''com.pasteboard.default'', ai_tokenType = TOKEN_OTHER, ai_userId = ERROR_USERID,
     ai_tokenId = 0, ai_appIndex = 0\<rparr>"

definition FillHapAppInfo :: "svc_env \<Rightarrow> u32 \<Rightarrow> AppInfo \<Rightarrow> AppInfo" where
  "FillHapAppInfo V tokenId info = (case GetHapTokenInfo V tokenId of
      None \<Rightarrow> info\<lparr>ai_userId := - 1\<rparr>
    | Some h \<Rightarrow> info\<lparr>ai_bundleName := hap_bundleName h, ai_appIndex := hap_instIndex h, ai_userId := hap_userID h\<rparr>)"

definition FillNativeAppInfo :: "svc_env \<Rightarrow> u32 \<Rightarrow> AppInfo \<Rightarrow> AppInfo" where
  "FillNativeAppInfo V tokenId info = (case GetNativeTokenInfo V tokenId of
      None \<Rightarrow> info
    | Some processName \<Rightarrow> info\<lparr>ai_bundleName := processName\<rparr>)"

definition ResolveMainDisplayUserId :: "svc_env \<Rightarrow> i32" where
  "ResolveMainDisplayUserId V = (case ResolveMainDisplayUser V of Some (Some userId) \<Rightarrow> userId | _ \<Rightarrow> ERROR_USERID)"

definition GetAppInfo :: "svc_env \<Rightarrow> u32 \<Rightarrow> AppInfo" where
  "GetAppInfo V tokenId =
     (let info = new_AppInfo\<lparr>ai_tokenId := tokenId, ai_tokenType := GetTokenTypeFlag V tokenId\<rparr>
      in if ai_tokenType info = TOKEN_HAP then FillHapAppInfo V tokenId info
         else (let info1 = info\<lparr>ai_userId := ResolveMainDisplayUserId V\<rparr>
               in if ai_tokenType info1 = TOKEN_NATIVE \<or> ai_tokenType info1 = TOKEN_SHELL
                  then FillNativeAppInfo V tokenId info1 else info1))"

definition IsCopyable :: "svc_env \<Rightarrow> u32 \<Rightarrow> bool" where
  "IsCopyable V tokenId = (case QueryDlpFileCopyable V of
      None \<Rightarrow> True
    | Some query \<Rightarrow> (case query tokenId of None \<Rightarrow> False | Some copyable \<Rightarrow> copyable))"

definition GetAppBundleName :: "AppInfo \<Rightarrow> string" where
  "GetAppBundleName appInfo = (if ai_userId appInfo \<noteq> ERROR_USERID then ai_bundleName appInfo else ''error'')"

definition INVALID_VERSION :: i32 where "INVALID_VERSION = - 1"
definition ADD_PERMISSION_CHECK_SDK_VERSION :: i32 where "ADD_PERMISSION_CHECK_SDK_VERSION = 12"
definition READ_PASTEBOARD_PERMISSION :: string where "READ_PASTEBOARD_PERMISSION = ''ohos.permission.READ_PASTEBOARD''"
definition SECURE_PASTE_PERMISSION :: string where "SECURE_PASTE_PERMISSION = ''ohos.permission.SECURE_PASTE''"
definition PERMISSION_PROXY_AUTHORIZATION_URI :: string where
  "PERMISSION_PROXY_AUTHORIZATION_URI = ''ohos.permission.PROXY_AUTHORIZATION_URI''"

definition GetSdkVersion :: "svc_env \<Rightarrow> u32 \<Rightarrow> i32" where
  "GetSdkVersion V tokenId =
     (if GetTokenTypeFlag V tokenId \<noteq> TOKEN_HAP then 0
      else case GetHapTokenInfo V tokenId of None \<Rightarrow> INVALID_VERSION | Some h \<Rightarrow> hap_apiVersion h)"

definition VerifyPermission :: "svc_env \<Rightarrow> u32 \<Rightarrow> bool" where
  "VerifyPermission V tokenId =
     (let version = GetSdkVersion V tokenId
      in if version = INVALID_VERSION then False
      else let isReadGrant = IsPermissionGranted V READ_PASTEBOARD_PERMISSION tokenId;
               isSecureGrant = IsPermissionGranted V SECURE_PASTE_PERMISSION tokenId
      in if isSecureGrant \<or> isReadGrant then True
      else let tokenType = GetTokenTypeFlag V tokenId;
               isAllowTokenAccess = (tokenType = TOKEN_NATIVE \<or> tokenType = TOKEN_SHELL);
               isGrant = (isReadGrant \<or> isSecureGrant \<or> isAllowTokenAccess \<or> IsCtrlVProcess V)
      in if \<not> isGrant \<and> sint version \<ge> sint ADD_PERMISSION_CHECK_SDK_VERSION then False else True)"

section \<open>Whether a clip may be read\<close>

definition GetScreenStatus :: "i32 \<Rightarrow> service \<Rightarrow> i32" where
  "GetScreenStatus userId s = (case CM_Find 0 userId (screenStatusMap s) of (found, status) \<Rightarrow>
     if found then status else 0)"

definition IsDataAged :: "i32 \<Rightarrow> service \<Rightarrow> bool" where
  "IsDataAged userId s =
     (if userId = ERROR_USERID then True else \<not> fst (CM_Find 0 userId (copyTime s)))"

definition IsDataValid :: "PasteData \<Rightarrow> u32 \<Rightarrow> i32 \<Rightarrow> service \<Rightarrow> i32" where
  "IsDataValid d tokenId userId s =
     (if pd_isDraggedData d \<or> \<not> pd_valid d then INVALID_PARAM_ERROR
      else if IsDataAged userId s then DATA_EXPIRED_ERROR
      else if sint (prop_screenStatus (pd_props d)) > sint (GetScreenStatus userId s) then CROSS_BORDER_ERROR
      else let opt = prop_shareOption (pd_props d)
      in if opt = InApp then (if prop_tokenId (pd_props d) \<noteq> tokenId then PERMISSION_VERIFICATION_ERROR else E_OK)
      else if opt = LocalDevice then E_OK
      else if opt = CrossDevice then E_OK
      else INVALID_DATA_ERROR)"

section \<open>The change count\<close>

definition IncreaseChangeCount :: "i32 \<Rightarrow> service \<Rightarrow> service" where
  "IncreaseChangeCount userId s =
     (case CM_Compute 0 userId (Some (\<lambda>_ changeCount u. (True, if changeCount = - 1 then 0 else changeCount + 1, u)))
             (clipChangeCount s) () of
        (_, m, _) \<Rightarrow> s\<lparr>clipChangeCount := m\<rparr>)"

definition GetChangeCount :: "svc_env \<Rightarrow> caller \<Rightarrow> service \<Rightarrow> i32 \<times> u32" where
  "GetChangeCount V c s =
     (let appInfo = GetAppInfo V (c_tokenId c)
      in (0, snd (snd (CM_ComputeIfPresent (ai_userId appInfo) (Some (\<lambda>_ v (_ :: u32). (True, v, v)))
                   (clipChangeCount s) 0))))"

section \<open>Memory priority\<close>

definition HasActivePasteboardWork :: "service \<Rightarrow> bool" where
  "HasActivePasteboardWork s = CM_ForEachCopies (Some (\<lambda>_ d _. (True, d, True))) (clips s) False"

definition RefreshCriticalState :: "service \<Rightarrow> service" where
  "RefreshCriticalState s = s\<lparr>isCritical := HasActivePasteboardWork s\<rparr>"

definition SetCriticalTimer :: "service \<Rightarrow> service" where
  "SetCriticalTimer s = s\<lparr>criticalTimer := True, isCritical := True\<rparr>"

definition CancelCriticalTimer :: "service \<Rightarrow> service" where
  "CancelCriticalTimer s = s\<lparr>criticalTimer := False, isCritical := False\<rparr>"

text \<open>The task of the critical timer.\<close>

definition critical_task :: "service \<Rightarrow> service" where
  "critical_task s = (let s1 = s\<lparr>criticalTimer := False\<rparr>
     in if \<not> HasActivePasteboardWork s1 then s1\<lparr>isCritical := False\<rparr> else s1)"

section \<open>History and expiration\<close>

definition DATA_HISTORY_SIZE :: nat where "DATA_HISTORY_SIZE = 10"

definition SetPasteboardHistory :: "string \<Rightarrow> string \<Rightarrow> string \<Rightarrow> string \<Rightarrow> i32 \<Rightarrow> service \<Rightarrow> bool \<times> service" where
  "SetPasteboardHistory time bundleName state remote userId s =
     (if userId = ERROR_USERID then (False, s)
      else let history = time @ '' '' @ bundleName @ '' '' @ state @ '' '' @ '' '' @ remote @ '' userId:'' @ i32_string userId;
               old = (if length (dataHistory s) = DATA_HISTORY_SIZE then tl (dataHistory s) else dataHistory s)
           in (True, s\<lparr>dataHistory := old @ [history]\<rparr>))"

definition SetDataExpirationTimer :: "i32 \<Rightarrow> service \<Rightarrow> service" where
  "SetDataExpirationTimer userId s = s\<lparr>timers := List.insert userId (timers s)\<rparr>"

definition ClearAgedData :: "i32 \<Rightarrow> service \<Rightarrow> service" where
  "ClearAgedData userId s =
     (let s1 = (if CM_Contains userId (clips s)
                then s\<lparr>clips := snd (CM_Erase userId (clips s)), delayDataId := 0, delayTokenId := 0\<rparr> else s)
      in RefreshCriticalState (s1\<lparr>copyTime := snd (CM_Erase userId (copyTime s1))\<rparr>))"

text \<open>The expiration timer fires.\<close>

definition expire :: "i32 \<Rightarrow> service \<Rightarrow> service" where
  "expire userId s = ClearAgedData userId (s\<lparr>timers := removeAll userId (timers s)\<rparr>)"

end
