(* ===== verification/Service_Copy.thy ===== *)
theory Service_Copy
  imports Service_State
begin

text \<open>
  Copying, as the pasteboard service does it: \<open>SetPasteData\<close>, \<open>WritePasteData\<close>, \<open>SaveData\<close>, the
  announcement to other devices and the ways a clip is cleared. A request is one step of the
  service; \<open>None\<close> is the dereference of a null record. The thread that sends an announced clip to
  the plugin, and entity recognition, start from the outputs \<open>Published\<close> and \<open>Recognized\<close>.
\<close>

section \<open>Preparing the data\<close>

definition GetDirByAuthority :: "web_env \<Rightarrow> string \<times> i32 \<Rightarrow> string" where
  "GetDirByAuthority W authority = (case GetDirByBundleNameAndAppIndex W (fst authority) (snd authority) of
     (ret, bundleIndex) \<Rightarrow> if ret = ERR_OK then bundleIndex else fst authority)"

definition web_prepare :: "svc_env \<Rightarrow> string \<Rightarrow> i32 \<Rightarrow> PasteData \<Rightarrow> (bool \<times> PasteData) run" where
  "web_prepare V bundleIndex userId d = do {
     (hasSplited, d1) \<leftarrow> SplitWebviewPasteData (sv_ext V) svc_client (sv_web V) bundleIndex userId d;
     d2 \<leftarrow> SetWebviewPasteData (sv_ext V) bundleIndex d1;
     d3 \<leftarrow> CheckAppUriPermission (sv_ext V) (sv_web V) d2;
     Some (hasSplited, d3)
   }"

definition INVALID_TOKEN_ID :: i32 where "INVALID_TOKEN_ID = - 1"

definition GetDataTokenId :: "svc_env \<Rightarrow> caller \<Rightarrow> PasteData \<Rightarrow> u32" where
  "GetDataTokenId V c d =
     (let originTokenId = GetOriginTokenId (sv_params V) d
      in if originTokenId = INVALID_TOKEN_ID then c_tokenId c
         else if \<not> IsPermissionGranted V PERMISSION_PROXY_AUTHORIZATION_URI (c_tokenId c) then c_tokenId c
         else originTokenId)"

definition set_dataId :: "u32 \<Rightarrow> PasteDataRecord option list \<Rightarrow> PasteDataRecord option list run" where
  "set_dataId n rs = (if None \<in> set rs then None else Some (map (map_option (\<lambda>r. r\<lparr>rec_dataId := n\<rparr>)) rs))"

definition SetPasteDataInfo :: "svc_env \<Rightarrow> AppInfo \<Rightarrow> PasteData \<Rightarrow> service \<Rightarrow> (PasteData \<times> service) run" where
  "SetPasteDataInfo V appInfo d0 s = do {
     let d1 = SetBundleInfo (ai_bundleName appInfo) (ai_appIndex appInfo) d0;
     let d2 = d1\<lparr>pd_originAuthority := (ai_bundleName appInfo, ai_appIndex appInfo)\<rparr>;
     let d3 = d2\<lparr>pd_props := (pd_props d2)\<lparr>prop_setTime := GetTime V,
                  prop_screenStatus := GetScreenStatus (ai_userId appInfo) s\<rparr>\<rparr>;
     let n = dataId s + 1;
     rs \<leftarrow> set_dataId n (pd_records d3);
     let d4 = d3\<lparr>pd_dataId := n, pd_records := rs\<rparr>;
     (if rs = [] then Some (d4, s\<lparr>dataId := n\<rparr>)
      else (case GetRecordAt (length rs - 1) d4 of
              None \<Rightarrow> Some (d4, s\<lparr>dataId := n\<rparr>)
            | Some r \<Rightarrow> do {
                t \<leftarrow> ConvertToText (sv_ext V) r;
                Some (d4\<lparr>pd_textSize := word_of_nat (length t)\<rparr>, s\<lparr>dataId := n\<rparr>)
              }))
   }"

section \<open>The getters of delayed data\<close>

type_synonym delay_getter = "PasteData \<Rightarrow> PasteData"

definition RemovePasteData :: "AppInfo \<Rightarrow> service \<Rightarrow> service" where
  "RemovePasteData appInfo s =
     (case CM_ComputeIfPresent (ai_userId appInfo) (Some (\<lambda>_ g u. (False, g, u))) (delayGetters s) () of
        (_, dg, _) \<Rightarrow>
     (case CM_ComputeIfPresent (ai_userId appInfo) (Some (\<lambda>_ g u. (False, g, u))) (entryGetters s) () of
        (_, eg, _) \<Rightarrow> s\<lparr>delayGetters := dg, entryGetters := eg\<rparr>))"

definition HandleDelayDataAndRecord ::
    "PasteData \<Rightarrow> delay_getter option \<Rightarrow> entry_getter option \<Rightarrow> AppInfo \<Rightarrow> service \<Rightarrow> service" where
  "HandleDelayDataAndRecord d delayGetter entryGetter appInfo s =
     (let s1 = (case delayGetter of
                  Some g \<Rightarrow> if pd_isDelayData d
                    then s\<lparr>delayGetters := snd (CM_InsertOrAssign (ai_userId appInfo) g (delayGetters s))\<rparr> else s
                | None \<Rightarrow> s)
      in case entryGetter of
           Some g \<Rightarrow> if pd_isDelayRecord d
             then s1\<lparr>entryGetters := snd (CM_InsertOrAssign (ai_userId appInfo) g (entryGetters s1))\<rparr> else s1
         | None \<Rightarrow> s1)"

definition NotifyDelayGetterDied :: "i32 \<Rightarrow> service \<Rightarrow> service" where
  "NotifyDelayGetterDied userId s =
     (if userId = ERROR_USERID then s else s\<lparr>delayGetters := snd (CM_Erase userId (delayGetters s))\<rparr>)"

definition NotifyEntryGetterDied :: "i32 \<Rightarrow> service \<Rightarrow> service" where
  "NotifyEntryGetterDied userId s =
     (if userId = ERROR_USERID then s else s\<lparr>entryGetters := snd (CM_Erase userId (entryGetters s))\<rparr>)"

section \<open>Announcing a clip to other devices\<close>

definition EXPIRATION_INTERVAL :: u64 where "EXPIRATION_INTERVAL = 120000"
definition DEVICE_COLLABORATION_UID :: i32 where "DEVICE_COLLABORATION_UID = 5521"
definition MAIN_DISPLAY_ID :: u64 where "MAIN_DISPLAY_ID = 0"

definition IsConstraintEnabled :: "svc_env \<Rightarrow> i32 \<Rightarrow> bool" where
  "IsConstraintEnabled V user = (case constraint_enabled V user of None \<Rightarrow> False | Some b \<Rightarrow> b)"

definition IsDisallowDistributed :: "caller \<Rightarrow> bool" where
  "IsDisallowDistributed c \<longleftrightarrow> c_uid c = DEVICE_COLLABORATION_UID"

definition IsCallerOnMainDisplay :: "svc_env \<Rightarrow> i32 \<Rightarrow> bool" where
  "IsCallerOnMainDisplay V userId = (case display_of V of
      None \<Rightarrow> True
    | Some f \<Rightarrow> (case f userId of None \<Rightarrow> False | Some displayId \<Rightarrow> displayId = MAIN_DISPLAY_ID))"

definition SetDistributedData :: "svc_env \<Rightarrow> caller \<Rightarrow> i32 \<Rightarrow> PasteData \<Rightarrow> service \<Rightarrow> (bool \<times> service) run" where
  "SetDistributedData V c user d s =
     (if GetLocalNetworkId V = [] then Some (False, s)
      else do {
        mimeTypes \<leftarrow> GetMimeTypes d;
        let n = sequenceId s + 1;
        let event = new_event\<lparr>evt_user := ucast user, evt_seqId := n,
              evt_expiration := ucast (GetBootTimeMs V + ucast EXPIRATION_INTERVAL),
              evt_deviceId := GetLocalNetworkId V, evt_account := GetCurrentAccount V, evt_status := EVT_NORMAL,
              evt_dataType := mimeTypes, evt_isDelay := pd_isDelayRecord d, evt_dataId := pd_dataId d\<rparr>;
        let s1 = s\<lparr>sequenceId := n, currentEvent := event\<rparr>;
        let shareOpt = prop_shareOption (pd_props d);
        Some (if IsConstraintEnabled V user \<or> IsDisallowDistributed c then (False, s1)
              else if \<not> IsCallerOnMainDisplay V user then (False, s1)
              else if \<not> has_plugin V then (False, s1)
              else if shareOpt = InApp then (False, s1)
              else if CheckMdmShareOption (globalShareOptions s) d \<and> shareOpt = LocalDevice then (False, s1)
              else (True, emit (Published event (copy_data (sv_params V) d)) s1))
      })"

definition CleanDistributedData :: "svc_env \<Rightarrow> i32 \<Rightarrow> service \<Rightarrow> service" where
  "CleanDistributedData V user s =
     (if \<not> IsCallerOnMainDisplay V user then s
      else if \<not> has_plugin V then s
      else emit (PluginCleared user) s)"

definition IsValidCurrentEvent :: "svc_env \<Rightarrow> service \<Rightarrow> bool" where
  "IsValidCurrentEvent V s \<longleftrightarrow> (ucast (GetBootTimeMs V) :: u64) < evt_expiration (currentEvent s)"

text \<open>\<open>switchOn\<close> is the answer of the device collaboration switch of the user.\<close>

definition HandleWifiOffAndClearDistributedEvent :: "svc_env \<Rightarrow> bool \<Rightarrow> i32 \<Rightarrow> service \<Rightarrow> service" where
  "HandleWifiOffAndClearDistributedEvent V switchOn userId s =
     (if switchOn then s else if \<not> IsValidCurrentEvent V s then s else CleanDistributedData V userId s)"

section \<open>Saving a clip\<close>

definition SetPasteDataDot :: "PasteData \<Rightarrow> i32 \<Rightarrow> service \<Rightarrow> service" where
  "SetPasteDataDot d userId s =
     snd (SetPasteboardHistory (prop_setTime (pd_props d)) (prop_bundleName (pd_props d)) ''set'' [] userId s)"

text \<open>The part of \<open>SaveData\<close> after the size of the data is accepted.\<close>

definition store_data :: "svc_env \<Rightarrow> caller \<Rightarrow> AppInfo \<Rightarrow> delay_getter option \<Rightarrow> entry_getter option \<Rightarrow>
    PasteData \<Rightarrow> service \<Rightarrow> service run" where
  "store_data V c appInfo delayGetter entryGetter d s = do {
     let userId = ai_userId appInfo;
     let s1 = RemovePasteData appInfo (s\<lparr>setPasteDataUId := c_uid c\<rparr>);
     let s2 = s1\<lparr>clips := snd (CM_InsertOrAssign userId (copy_data (sv_params V) d) (clips s1))\<rparr>;
     let s3 = IncreaseChangeCount userId s2;
     let s4 = HandleDelayDataAndRecord d delayGetter entryGetter appInfo s3;
     let s5 = s4\<lparr>copyTime := snd (CM_InsertOrAssign userId (ucast (GetBootTimeMs V)) (copyTime s4))\<rparr>;
     let s6 = SetDataExpirationTimer userId s5;
     s7 \<leftarrow> (if pd_isDelayData d then Some s6
            else do {
              (_, s') \<leftarrow> SetDistributedData V c userId d s6;
              Some (notify (ai_bundleName appInfo) userId PASTEBOARD_WRITE s')
            });
     Some ((SetPasteDataDot d userId s7)\<lparr>setting := False\<rparr>)
   }"

definition SaveData :: "svc_env \<Rightarrow> caller \<Rightarrow> i64 \<Rightarrow> delay_getter option \<Rightarrow> entry_getter option \<Rightarrow>
    PasteData \<Rightarrow> service \<Rightarrow> (i32 \<times> PasteData \<times> service) run" where
  "SaveData V c dataSize delayGetter entryGetter d0 s =
     (let tokenId = prop_tokenId (pd_props d0) in
      if \<not> IsCopyable V tokenId then Some (PROHIBIT_COPY, d0, s)
      else if setting s then Some (TASK_PROCESSING, d0, s)
      else let s1 = s\<lparr>setting := True\<rparr>; appInfo = GetAppInfo V tokenId in
      if ai_userId appInfo = ERROR_USERID then Some (INVALID_USERID_ERROR, d0, s1\<lparr>setting := False\<rparr>)
      else do {
        (d1, s2) \<leftarrow> SetPasteDataInfo V appInfo
           (d0\<lparr>pd_userId := ai_userId appInfo, pd_deviceId := GetLocalNetworkId V\<rparr>) s1;
        let bundleIndex = GetDirByAuthority (sv_web V) (ai_bundleName appInfo, ai_appIndex appInfo);
        (hasSplited, d2) \<leftarrow> web_prepare V bundleIndex (ai_userId appInfo) d1;
        (if hasSplited \<or> sint dataSize > sint (recalculate_size V) then do {
           n \<leftarrow> CountTLV_data (sv_ext V) False d2;
           let newDataSize = (word_of_nat n :: i64);
           if sint newDataSize > sint (maxLocalCapacity V)
           then Some (INVALID_DATA_SIZE, d2, s2\<lparr>setting := False\<rparr>)
           else do {
             let d3 = d2\<lparr>pd_rawDataSize := newDataSize\<rparr>;
             s3 \<leftarrow> store_data V c appInfo delayGetter entryGetter d3 s2;
             Some (E_OK, d3, s3)
           }
         } else do {
           s3 \<leftarrow> store_data V c appInfo delayGetter entryGetter d2 s2;
           Some (E_OK, d2, s3)
         })
      })"

section \<open>The copy request\<close>

text \<open>
  The file descriptor the client sends, what \<open>AshmemGetSize\<close> says of it, and the bytes \<open>mmap\<close>
  gives (\<open>None\<close> when it fails).
\<close>

record shared_mem =
  shm_fd :: i32
  shm_size :: i32
  shm_bytes :: "byte list option"

definition MIN_ASHMEM_DATA_SIZE :: i64 where "MIN_ASHMEM_DATA_SIZE = 32 * 1024"

definition CloseSharedMemFd :: "i32 \<Rightarrow> service \<Rightarrow> service" where
  "CloseSharedMemFd fd s = (if sint fd \<ge> 0 then emit (FdClosed fd) s else s)"

definition decode_into :: "svc_env \<Rightarrow> byte list \<Rightarrow> PasteData \<Rightarrow> bool \<times> PasteData" where
  "decode_into V bs d = (case Decode (DecodeTLV_data (sv_ext V) 0 d) bs of ROk d' _ \<Rightarrow> (True, d') | _ \<Rightarrow> (False, d))"

definition WritePasteData :: "svc_env \<Rightarrow> shared_mem \<Rightarrow> i64 \<Rightarrow> byte list \<Rightarrow> PasteData \<Rightarrow> service \<Rightarrow>
    i32 \<times> bool \<times> PasteData \<times> service" where
  "WritePasteData V m rawDataSize buffer d s =
     (let closed = CloseSharedMemFd (shm_fd m) s in
      if sint rawDataSize > sint MIN_ASHMEM_DATA_SIZE then
        (if sint (shm_size m) < 0 \<or> sint rawDataSize > sint (shm_size m) then (INVALID_DATA_SIZE, False, d, closed)
         else case shm_bytes m of
                None \<Rightarrow> (INVALID_DATA_ERROR, False, d, closed)
              | Some bytes \<Rightarrow> (case decode_into V (take (nat (sint rawDataSize)) bytes) d of
                  (hasData, d') \<Rightarrow> (E_OK, hasData, d'\<lparr>pd_rawDataSize := rawDataSize\<rparr>, closed)))
      else (case decode_into V buffer d of
              (hasData, d') \<Rightarrow> (E_OK, hasData, d'\<lparr>pd_rawDataSize := rawDataSize\<rparr>, closed)))"

definition try_disposable :: "svc_env \<Rightarrow> PasteData \<Rightarrow> service \<Rightarrow> bool \<times> service" where
  "try_disposable V d s = (case TryProcessDisposableData (focus_window V) (disposables s) of
     (consumed, notices, matched, infos) \<Rightarrow>
       (consumed, let s1 = s\<lparr>disposables := infos\<rparr>;
                      s2 = (if notices = [] then s1 else emit (Noticed notices) s1)
                  in if matched = [] then s2 else emit (Answered matched (copy_data (sv_params V) d)) s2))"

definition save_request :: "svc_env \<Rightarrow> caller \<Rightarrow> i64 \<Rightarrow> delay_getter option \<Rightarrow> entry_getter option \<Rightarrow> PasteData \<Rightarrow>
    service \<Rightarrow> (i32 \<times> service) run" where
  "save_request V c rawDataSize delayGetter entryGetter d s = do {
     (ret, d1, s1) \<leftarrow> SaveData V c rawDataSize delayGetter entryGetter d s;
     hasText \<leftarrow> (if entityObservers s1 \<noteq> 0 then HasMimeType MIMETYPE_TEXT_PLAIN (pd_records d1) else Some False);
     let s2 = (if hasText then emit (Recognized d1) s1 else s1);
     Some (if ret \<noteq> E_OK then ret else ERR_OK, s2)
   }"

definition SetPasteData :: "svc_env \<Rightarrow> caller \<Rightarrow> shared_mem \<Rightarrow> i64 \<Rightarrow> byte list \<Rightarrow> delay_getter option \<Rightarrow>
    entry_getter option \<Rightarrow> service \<Rightarrow> (i32 \<times> service) run" where
  "SetPasteData V c m rawDataSize buffer delayGetter entryGetter s =
     (if sint (shm_fd m) < 0 then Some (INVALID_PARAM_ERROR, s)
      else let s1 = SetCriticalTimer s in
      if sint rawDataSize \<le> 0 \<or> sint rawDataSize > sint (max_raw V)
      then Some (INVALID_DATA_SIZE, CloseSharedMemFd (shm_fd m) s1)
      else case WritePasteData V m rawDataSize buffer (new_data (sv_params V) (now_ms V)) s1 of
        (ret, result, d, s2) \<Rightarrow>
          if ret \<noteq> E_OK then Some (INVALID_DATA_ERROR, s2)
          else if \<not> result then Some (NO_DATA_ERROR, s2)
          else let d1 = SetTokenId (sv_params V) (GetDataTokenId V c d) d;
                   d2 = UpdateShareOption (globalShareOptions s2) d1
               in case try_disposable V d2 s2 of (consumed, s3) \<Rightarrow>
                 if consumed then Some (ERR_OK, s3)
                 else save_request V c rawDataSize delayGetter entryGetter d2 s3)"

definition SetPasteDataDelayData :: "svc_env \<Rightarrow> caller \<Rightarrow> shared_mem \<Rightarrow> i64 \<Rightarrow> byte list \<Rightarrow> delay_getter option \<Rightarrow>
    service \<Rightarrow> (i32 \<times> service) run" where
  "SetPasteDataDelayData V c m rawDataSize buffer delayGetter =
     SetPasteData V c m rawDataSize buffer delayGetter None"

definition SetPasteDataEntryData :: "svc_env \<Rightarrow> caller \<Rightarrow> shared_mem \<Rightarrow> i64 \<Rightarrow> byte list \<Rightarrow> entry_getter option \<Rightarrow>
    service \<Rightarrow> (i32 \<times> service) run" where
  "SetPasteDataEntryData V c m rawDataSize buffer entryGetter =
     SetPasteData V c m rawDataSize buffer None entryGetter"

definition SetPasteDataOnly :: "svc_env \<Rightarrow> caller \<Rightarrow> shared_mem \<Rightarrow> i64 \<Rightarrow> byte list \<Rightarrow> service \<Rightarrow> (i32 \<times> service) run" where
  "SetPasteDataOnly V c m rawDataSize buffer = SetPasteData V c m rawDataSize buffer None None"

section \<open>Clearing\<close>

definition PASTEBOARD_SERVICE_NAME :: string where "PASTEBOARD_SERVICE_NAME = ''PasteboardService''"

definition ClearInner :: "svc_env \<Rightarrow> i32 \<Rightarrow> AppInfo \<Rightarrow> service \<Rightarrow> i32 \<times> service" where
  "ClearInner V userId appInfo s =
     (let hasData = CM_Contains userId (clips s);
          s1 = (if hasData then s\<lparr>clips := snd (CM_Erase userId (clips s)), delayDataId := 0, delayTokenId := 0\<rparr> else s);
          s2 = CleanDistributedData V userId s1;
          s3 = (if hasData then notify (GetAppBundleName appInfo) userId PASTEBOARD_CLEAR s2 else s2)
      in (ERR_OK, if \<not> HasActivePasteboardWork s3 then CancelCriticalTimer s3 else s3))"

definition Clear :: "svc_env \<Rightarrow> caller \<Rightarrow> service \<Rightarrow> i32 \<times> service" where
  "Clear V c s =
     (let appInfo = GetAppInfo V (c_tokenId c); userId = ai_userId appInfo
      in if userId = ERROR_USERID then (INVALID_USERID_ERROR, s) else ClearInner V userId appInfo s)"

definition ClearByUser :: "svc_env \<Rightarrow> caller \<Rightarrow> i32 \<Rightarrow> service \<Rightarrow> i32 \<times> service" where
  "ClearByUser V c userId s =
     (let appInfo = GetAppInfo V (c_tokenId c)
      in if ai_tokenType appInfo \<noteq> TOKEN_NATIVE then (INVALID_USERID_ERROR, s) else ClearInner V userId appInfo s)"

definition ClearByEventUser :: "svc_env \<Rightarrow> u32 \<Rightarrow> i32 \<Rightarrow> service \<Rightarrow> i32 \<times> service" where
  "ClearByEventUser V selfTokenId userId s =
     (if userId = ERROR_USERID then (INVALID_USERID_ERROR, s)
      else ClearInner V userId (new_AppInfo\<lparr>ai_bundleName := PASTEBOARD_SERVICE_NAME, ai_tokenType := TOKEN_NATIVE,
             ai_userId := userId, ai_tokenId := selfTokenId\<rparr>) s)"

definition ClearByResolvedUser :: "svc_env \<Rightarrow> i32 \<Rightarrow> service \<Rightarrow> service" where
  "ClearByResolvedUser V userId s =
     (if userId = ERROR_USERID then s
      else snd (ClearInner V userId (new_AppInfo\<lparr>ai_userId := userId, ai_bundleName := PASTEBOARD_SERVICE_NAME,
             ai_tokenType := TOKEN_NATIVE\<rparr>) s))"

end
