(* ===== verification/Service_Paste.thy ===== *)
theory Service_Paste
  imports Service_Copy
begin

text \<open>
  Reading the clip of the device: \<open>GetLocalData\<close> with the delayed data it fetches, and the queries
  \<open>HasPasteData\<close>, \<open>GetLocalMimeTypes\<close>, \<open>HasLocalDataType\<close>, \<open>IsRemoteData\<close> and
  \<open>GetPasteDataInfo\<close>. A request is one step, so the copy time read before and after delayed data
  is fetched is the same and the records the clip shares with the data returned are those
  \<open>UpdateClipOnRead\<close> stores.
\<close>

section \<open>Delayed data\<close>

definition GetDelayPasteData :: "svc_env \<Rightarrow> i32 \<Rightarrow> PasteData \<Rightarrow> service \<Rightarrow> (PasteData \<times> service) run" where
  "GetDelayPasteData V userId d s =
     (case CM_ComputeIfPresent userId (Some (\<lambda>_ g _. (False, g, Some g))) (delayGetters s) None of
        (hasGetter, m, delayGetter) \<Rightarrow>
          let s1 = s\<lparr>delayGetters := m\<rparr> in
          if \<not> hasGetter then Some (d, s1)
          else do {
            let fresh = new_data (sv_params V) (now_ms V);
            let d1 = (case delayGetter of Some g \<Rightarrow> g fresh | None \<Rightarrow> fresh);
            let d2 = SetBundleInfo (prop_bundleName (pd_props d)) (GetAppIndex d) (d1\<lparr>pd_isDelayData := False\<rparr>);
            let d3 = d2\<lparr>pd_originAuthority := pd_originAuthority d,
                         pd_props := (pd_props d2)\<lparr>prop_setTime := prop_setTime (pd_props d)\<rparr>\<rparr>;
            let d4 = SetTokenId (sv_params V) (prop_tokenId (pd_props d)) d3;
            (_, d5) \<leftarrow> web_prepare V (GetDirByAuthority (sv_web V) (pd_originAuthority d)) userId d4;
            Some (assign_data d d5, s1)
          })"

definition GetDelayPasteRecord :: "svc_env \<Rightarrow> i32 \<Rightarrow> PasteData \<Rightarrow> service \<Rightarrow> (i32 \<times> PasteData) run" where
  "GetDelayPasteRecord V userId d s =
     (case map_of (entryGetters s) userId of
        None \<Rightarrow> Some (NO_DELAY_GETTER, d)
      | Some getter \<Rightarrow>
          let delayEntryInfos = GetPrimaryDelayEntryInfo (sv_ext V) d in
          if delayEntryInfos = [] then Some (E_OK, d)
          else do {
            let d1 = GetLocalEntryValue (max_raw V) delayEntryInfos (Some getter) d;
            (_, d2) \<leftarrow> web_prepare V (GetDirByAuthority (sv_web V) (pd_originAuthority d1)) userId d1;
            Some (E_OK, d2)
          })"

section \<open>Pasting the clip of this device\<close>

definition UpdateClipOnRead ::
    "svc_env \<Rightarrow> i32 \<Rightarrow> PasteData \<Rightarrow> string \<Rightarrow> u64 \<Rightarrow> u64 \<Rightarrow> service \<Rightarrow> service" where
  "UpdateClipOnRead V userId d originBundleName startTime curTime s =
     (if startTime \<noteq> curTime then s
      else case CM_ComputeIfPresent userId (Some (\<lambda>_ v isNotify.
                  let v1 = (if pd_isDelayData v then copy_data (sv_params V) d else v);
                      v2 = (if pd_isDelayRecord v1 then copy_data (sv_params V) d else v1)
                  in (True, v2, if pd_isDelayData v then True else isNotify))) (clips s) False of
             (_, m, isNotify) \<Rightarrow>
               let s1 = s\<lparr>clips := m\<rparr>
               in if isNotify then notify originBundleName userId PASTEBOARD_WRITE s1 else s1)"

definition SetLocalPasteFlag :: "bool \<Rightarrow> u32 \<Rightarrow> PasteData \<Rightarrow> PasteData" where
  "SetLocalPasteFlag isCrossPaste tokenId d =
     d\<lparr>pd_isLocalPaste := (\<not> isCrossPaste \<and> tokenId = prop_tokenId (pd_props d))\<rparr>"

definition GetLocalData :: "svc_env \<Rightarrow> AppInfo \<Rightarrow> PasteData \<Rightarrow> service \<Rightarrow> (i32 \<times> PasteData \<times> service) run" where
  "GetLocalData V appInfo data0 s =
     (let userId = ai_userId appInfo in
      case (map_of (clips s) userId, map_of (copyTime s) userId) of
        (Some clip, Some tempTime) \<Rightarrow>
          let ret = IsDataValid clip (ai_tokenId appInfo) userId s in
          if ret \<noteq> E_OK then Some (ret, data0, s)
          else do {
            let d = assign_data data0 clip;
            (d1, s1) \<leftarrow> (if pd_isDelayData clip then GetDelayPasteData V userId d s else Some (d, s));
            (_, d2) \<leftarrow> (if pd_isDelayRecord clip then GetDelayPasteRecord V userId d1 s1 else Some (E_OK, d1));
            let d3 = SetBundleInfo (ai_bundleName appInfo) (ai_appIndex appInfo) d2;
            (case map_of (copyTime s1) userId of
               None \<Rightarrow> Some (INVALID_USERID_ERROR, d3, s1)
             | Some curTime \<Rightarrow>
                 let s2 = UpdateClipOnRead V userId d3 (prop_bundleName (pd_props clip)) tempTime curTime s1
                 in Some (E_OK, SetLocalPasteFlag (prop_isRemote (pd_props d3)) (ai_tokenId appInfo) d3, s2))
          }
      | _ \<Rightarrow> Some (NO_DATA_ERROR, data0, s))"

section \<open>Whether another device has a newer clip\<close>

definition GetValidDistributeEvent :: "svc_env \<Rightarrow> i32 \<Rightarrow> service \<Rightarrow> i32 \<times> GlobalEvent" where
  "GetValidDistributeEvent V user s =
     (if \<not> has_plugin V then (PLUGIN_IS_NULL, new_event)
      else if \<not> IsWiFiEnable V then (GET_LOCAL_DATA, new_event)
      else case GetTopEvents V user of
        [] \<Rightarrow> (PLUGIN_EVENT_EMPTY, new_event)
      | evt # _ \<Rightarrow>
          let cur = currentEvent s in
          if evt_deviceId evt = GetLocalNetworkId V \<or> evt_expiration evt < evt_expiration cur then (GET_LOCAL_DATA, evt)
          else if evt_account evt \<noteq> GetCurrentAccount V then (INVALID_EVENT_ACCOUNT, evt)
          else if GetRemoteDeviceInfo V (evt_deviceId evt) \<noteq> E_OK then (GetRemoteDeviceInfo V (evt_deviceId evt), evt)
          else if evt_deviceId evt = evt_deviceId cur \<and> evt_seqId evt = evt_seqId cur
                  \<and> evt_expiration evt = evt_expiration cur then (GET_SAME_REMOTE_DATA, evt)
          else let curTime = (ucast (GetBootTimeMs V) :: u64);
                   ret = (if evt_status evt = EVT_NORMAL then E_OK else INVALID_EVENT_STATUS)
          in if \<not> (curTime \<noteq> 0 \<and> evt_expiration evt \<noteq> EXPIRATION_INTERVAL) then (GET_BOOTTIME_FAILED, evt)
          else (if curTime < evt_expiration evt then ret else DATA_EXPIRED_ERROR, evt))"

section \<open>Queries\<close>

definition ScreenLocked :: i32 where "ScreenLocked = 1"
definition ScreenUnlocked :: i32 where "ScreenUnlocked = 2"

definition HasPasteData :: "svc_env \<Rightarrow> caller \<Rightarrow> service \<Rightarrow> bool" where
  "HasPasteData V c s =
     (let userId = ai_userId (GetAppInfo V (c_tokenId c)) in
      if userId = ERROR_USERID then False
      else if GetScreenStatus userId s = ScreenUnlocked \<and> fst (GetValidDistributeEvent V userId s) = E_OK then True
      else case map_of (clips s) userId of
             None \<Rightarrow> False
           | Some d \<Rightarrow> IsDataValid d (c_tokenId c) userId s = E_OK)"

definition GetLocalMimeTypes :: "svc_env \<Rightarrow> caller \<Rightarrow> service \<Rightarrow> string list run" where
  "GetLocalMimeTypes V c s =
     (let userId = ai_userId (GetAppInfo V (c_tokenId c)) in
      case map_of (clips s) userId of
        None \<Rightarrow> Some []
      | Some d \<Rightarrow> if IsDataValid d (c_tokenId c) userId s \<noteq> E_OK then Some [] else GetMimeTypes d)"

definition HasLocalDataType :: "string \<Rightarrow> u32 \<Rightarrow> i32 \<Rightarrow> service \<Rightarrow> bool run" where
  "HasLocalDataType mimeType tokenId userId s =
     (case map_of (clips s) userId of
        None \<Rightarrow> Some False
      | Some d \<Rightarrow>
          if IsDataValid d tokenId userId s \<noteq> E_OK then Some False
          else if sint (prop_screenStatus (pd_props d)) > sint (GetScreenStatus userId s) then Some False
          else do { mimeTypes \<leftarrow> GetMimeTypes d; Some (mimeType \<in> set mimeTypes) })"

definition IsRemoteData :: "svc_env \<Rightarrow> caller \<Rightarrow> service \<Rightarrow> bool" where
  "IsRemoteData V c s =
     (let userId = ai_userId (GetAppInfo V (c_tokenId c)) in
      if userId = ERROR_USERID then False
      else case map_of (clips s) userId of
             None \<Rightarrow> fst (GetValidDistributeEvent V userId s) = E_OK
           | Some d \<Rightarrow> prop_isRemote (pd_props d))"

definition MIMETYPE_AUTOFILL_SECURE :: string where "MIMETYPE_AUTOFILL_SECURE = ''autofill/secure''"

definition IsBasicType :: "string \<Rightarrow> bool" where
  "IsBasicType mimeType \<longleftrightarrow> mimeType = MIMETYPE_TEXT_HTML \<or> mimeType = MIMETYPE_TEXT_PLAIN \<or>
     mimeType = MIMETYPE_TEXT_URI \<or> mimeType = MIMETYPE_PIXELMAP \<or> mimeType = MIMETYPE_AUTOFILL_SECURE"

definition MAX_BUNDLE_NAME_LENGTH :: nat where "MAX_BUNDLE_NAME_LENGTH = 127"

text \<open>\<open>label\<close> is the label of the application a token belongs to.\<close>

definition GetDataSource :: "svc_env \<Rightarrow> (u32 \<Rightarrow> string) \<Rightarrow> caller \<Rightarrow> string \<Rightarrow> service \<Rightarrow> i32 \<times> string" where
  "GetDataSource V label c bundleName0 s =
     (let userId = ai_userId (GetAppInfo V (c_tokenId c)) in
      if userId = ERROR_USERID then (INVALID_USERID_ERROR, bundleName0)
      else case map_of (clips s) userId of
             None \<Rightarrow> (NO_USER_DATA_ERROR, bundleName0)
           | Some d \<Rightarrow>
               if prop_isRemote (pd_props d) then (REMOTE_EXCEPTION, bundleName0)
               else let bundleName = label (prop_tokenId (pd_props d)) in
                 if bundleName = [] \<or> length bundleName > MAX_BUNDLE_NAME_LENGTH then (INVALID_DATA_ERROR, bundleName)
                 else (ERR_OK, bundleName))"

record PasteDataInfo =
  pdi_isDelayedData :: bool
  pdi_isDelayedRecord :: bool
  pdi_mimeTypes :: "string list"
  pdi_rawDataSize :: i64
  pdi_textDataSize :: i32
  pdi_htmlDataSize :: i32

fun text_sizes :: "ext \<Rightarrow> PasteDataRecord option list \<Rightarrow> i32 \<times> i32 \<Rightarrow> (i32 \<times> i32) run" where
  "text_sizes E [] sizes = Some sizes"
| "text_sizes E (None # rs) sizes = text_sizes E rs sizes"
| "text_sizes E (Some r # rs) (textSize, htmlSize) = do {
     plainText \<leftarrow> GetPlainTextV0 E r;
     htmlText \<leftarrow> GetHtmlTextV0 E r;
     text_sizes E rs
       (case plainText of Some t \<Rightarrow> textSize + word_of_nat (length t) | None \<Rightarrow> textSize,
        case htmlText of Some t \<Rightarrow> htmlSize + word_of_nat (length t) | None \<Rightarrow> htmlSize)
   }"

definition GetPasteDataInfo :: "svc_env \<Rightarrow> caller \<Rightarrow> PasteDataInfo \<Rightarrow> service \<Rightarrow> (i32 \<times> PasteDataInfo) run" where
  "GetPasteDataInfo V c info s =
     (let userId = ai_userId (GetAppInfo V (c_tokenId c)) in
      case map_of (clips s) userId of
        None \<Rightarrow> Some (NO_DATA_ERROR, info)
      | Some d \<Rightarrow>
          let ret = IsDataValid d (c_tokenId c) userId s in
          if ret \<noteq> E_OK then Some (ret, info)
          else do {
            mimeTypes \<leftarrow> GetMimeTypes d;
            (textSize, htmlSize) \<leftarrow> text_sizes (sv_ext V) (pd_records d) (0, 0);
            Some (ERR_OK, \<lparr>pdi_isDelayedData = pd_isDelayData d, pdi_isDelayedRecord = pd_isDelayRecord d,
                           pdi_mimeTypes = mimeTypes, pdi_rawDataSize = pd_rawDataSize d,
                           pdi_textDataSize = textSize, pdi_htmlDataSize = htmlSize\<rparr>)
          })"

definition HandleScreenLocked :: "i32 option \<Rightarrow> service \<Rightarrow> service" where
  "HandleScreenLocked context s = (case context of
      None \<Rightarrow> s
    | Some userId \<Rightarrow> s\<lparr>screenStatusMap := snd (CM_InsertOrAssign userId ScreenLocked (screenStatusMap s))\<rparr>)"

definition HandleScreenUnlocked :: "i32 option \<Rightarrow> service \<Rightarrow> service" where
  "HandleScreenUnlocked context s = (case context of
      None \<Rightarrow> s
    | Some userId \<Rightarrow> s\<lparr>screenStatusMap := snd (CM_InsertOrAssign userId ScreenUnlocked (screenStatusMap s))\<rparr>)"

end
