(* ===== verification/Decode_Ok.thy ===== *)
theory Decode_Ok
  imports Data_Tlv Disposable
begin

text \<open>
  What a decoder can return: whatever the bytes are, paste data that was decoded holds no null
  record and no null object, because every \<open>shared_ptr\<close> it reads is made before it is filled.
\<close>

lemma mapR_ROk: "mapR f r = ROk x b \<longleftrightarrow> (\<exists>y. r = ROk y b \<and> x = f y)"
  by (cases r) (auto simp: mapR_def)

lemma bindR_ROk: "bindR r f = ROk x b \<longleftrightarrow> (\<exists>y b'. r = ROk y b' \<and> f y b' = ROk x b)"
  by (cases r) auto

lemma rloop_yields:
  assumes "rloop n guard body acc b = ROk x b'" "P acc"
    and "\<forall>h a b y b'. P a \<longrightarrow> body h a b = ROk y b' \<longrightarrow> P y"
  shows "P x"
  using assms(1,2)
proof (induction n arbitrary: acc b)
  case 0
  then show ?case by (auto split: if_splits)
next
  case (Suc n)
  show ?case
  proof (cases "guard b")
    case True
    then obtain h b1 y b2 where "body h acc b1 = ROk y b2" "rloop n guard body y b2 = ROk x b'"
      using Suc.prems(1) by (auto simp: bindR_ROk)
    with Suc.IH Suc.prems(2) assms(3) show ?thesis by blast
  qed (use Suc.prems in auto)
qed

lemma decode_yields:
  assumes "decode_fields field acc b = ROk x b'" "P acc" "\<forall>h a b y b'. P a \<longrightarrow> field h a b = ROk y b' \<longrightarrow> P y"
  shows "P x"
  using assms unfolding decode_fields_def while_read_def by (rule rloop_yields)

lemma vector_yields:
  assumes "ReadValue_vector d item old h b = ROk xs b'" "\<forall>x \<in> set old. Q x"
    and "\<forall>d h b x b'. item d h b = ROk x b' \<longrightarrow> Q x"
  shows "\<forall>x \<in> set xs. Q x"
proof -
  have "while_read (\<lambda>y. cursor y < cursor b + hlen h) (\<lambda>vh acc b1. mapR (\<lambda>x. acc @ [x]) (item (Suc d) vh b1)) old b = ROk xs b'"
    using assms(1) by (auto simp: ReadValue_vector_def Let_def split: if_splits)
  then show ?thesis unfolding while_read_def
    by (rule rloop_yields[where P = "\<lambda>ys. \<forall>y \<in> set ys. Q y"]) (use assms(2,3) in \<open>auto simp: mapR_ROk, blast\<close>)
qed

lemma ptr_yields: "ReadValue_ptr d r h b = ROk p b' \<Longrightarrow> \<exists>x. p = Some x \<and> r (Suc d) h b = ROk x b'"
  by (auto simp: ReadValue_ptr_def mapR_ROk split: if_splits)

lemma readable_yields: "ReadValue_readable r h b = ROk x b' \<Longrightarrow> \<exists>b1 b2. r b1 = ROk x b2"
  by (auto simp: ReadValue_readable_def bindR_ROk split: if_splits)

lemma entry_value_yields: "ReadValue_entry E d h b = ROk v b' \<Longrightarrow> v \<noteq> VObject None"
  by (subst (asm) ReadValue_entry.simps)
     (auto simp: ReadVariant_entry_with_def bindR_ROk mapR_ROk dest!: ptr_yields split: if_splits)

lemma entry_yields:
  assumes "DecodeTLV_entry E d e b = ROk x b'" "ent_value e \<noteq> VObject None" shows "ent_value x \<noteq> VObject None"
  using assms unfolding DecodeTLV_entry_def
  by (rule decode_yields[where P = "\<lambda>e. ent_value e \<noteq> VObject None"])
     (auto simp: decode_entry_field_def mapR_ROk dest: entry_value_yields split: if_splits)

abbreviation entries_ok :: "PasteDataEntry option list \<Rightarrow> bool" where
  "entries_ok es \<equiv> \<forall>p \<in> set es. \<forall>e. p = Some e \<longrightarrow> ent_value e \<noteq> VObject None"

lemma entries_yield:
  assumes "ReadValue_entries E d es h b = ROk es' b'" "entries_ok es" shows "entries_ok es'"
  using assms
  by (rule vector_yields)
     (auto simp: empty_entry_def dest!: ptr_yields readable_yields dest: entry_yields)

lemma record_field_yields:
  assumes "DecodeItem1 E d h r b = ROk r' b'" "entries_ok (rec_entries r)" shows "entries_ok (rec_entries r')"
  using assms entries_yield
  by (auto simp: DecodeItem1_def DecodeItem2_def mapR_ROk split: if_splits)

lemma Remote2Local_ok: "pred_option (\<lambda>e. ent_value e \<noteq> VObject None) (Remote2Local E r)"
  unfolding Remote2Local_def Let_def by (simp split: option.split entry_value.split)

lemma finish_ok:
  assumes "entries_ok (rec_entries r)" shows "no_null_objects (finish_decode E r)"
  using assms Remote2Local_ok[of E r]
  by (auto simp: finish_decode_def no_null_objects_def Let_def split: option.splits)

lemma record_yields:
  assumes "DecodeTLV_record E d (empty_record E) b = ROk r b'" shows "no_null_objects r"
proof -
  obtain r0 where r0: "decode_fields (DecodeItem1 E d) (empty_record E) b = ROk r0 b'" "r = finish_decode E r0"
    using assms by (auto simp: DecodeTLV_record_def mapR_ROk)
  have "entries_ok (rec_entries r0)"
    by (rule decode_yields[OF r0(1), where P = "\<lambda>r. entries_ok (rec_entries r)"])
       (use record_field_yields in \<open>auto simp: empty_record_def\<close>)
  then show ?thesis unfolding r0(2) by (rule finish_ok)
qed

lemma data_field_yields:
  assumes "decode_data_field E n h d b = ROk d' b'" "data_ok d" shows "data_ok d'"
proof (cases "head_tag h = TAG_RECORDS")
  case True
  then obtain rs where rs: "ReadValue_vector n (\<lambda>n1. ReadValue_ptr n1 (\<lambda>n2. ReadValue_readable (DecodeTLV_record E n2 (empty_record E))))
      (pd_records d) h b = ROk rs b'" "d' = d\<lparr>pd_records := rs\<rparr>"
    using assms(1) by (auto simp: decode_data_field_def mapR_ROk TAG_RECORDS_def TAG_PROPS_def)
  have "\<forall>p \<in> set rs. \<exists>r. p = Some r \<and> no_null_objects r"
    by (rule vector_yields[OF rs(1)])
       (use assms(2) record_yields in \<open>auto simp: data_ok_def dest!: ptr_yields readable_yields\<close>)
  then show ?thesis by (simp add: rs data_ok_def)
next
  case False
  then show ?thesis using assms by (auto simp: decode_data_field_def mapR_ROk data_ok_def split: if_splits)
qed

lemma decoded_data_ok:
  assumes "Decode (DecodeTLV_data E n d) bs = ROk d' b" "data_ok d" shows "data_ok d'"
proof -
  have "decode_fields (decode_data_field E n) d (mk_ReadOnlyBuffer bs) = ROk d' b"
    using assms(1) by (simp add: Decode_def DecodeTLV_data_def)
  then show ?thesis using assms(2) by (rule decode_yields) (blast intro: data_field_yields)
qed

end
