(* ===== verification/Service_Total.thy ===== *)
theory Service_Total
  imports Service_Paste Decode_Ok
begin

text \<open>
  The requests of the service return: data whose records and object values are not null stays so
  while it is prepared, and no operation on it dereferences a null pointer.
\<close>

section \<open>Records\<close>

lemma no_null_entries:
  "no_null_objects (r\<lparr>rec_entries := es\<rparr>) \<longleftrightarrow> (\<forall>e. Some e \<in> set es \<longrightarrow> ent_value e \<noteq> VObject None)"
  by (auto simp: no_null_objects_def)

lemma no_null_iff: "no_null_objects r \<longleftrightarrow> (\<forall>e. Some e \<in> set (rec_entries r) \<longrightarrow> ent_value e \<noteq> VObject None)"
  by (auto simp: no_null_objects_def)

lemma no_null_updates [simp]:
  "no_null_objects (r\<lparr>rec_from := a\<rparr>) = no_null_objects r"
  "no_null_objects (r\<lparr>rec_dataId := b\<rparr>) = no_null_objects r"
  "no_null_objects (r\<lparr>rec_recordId := c\<rparr>) = no_null_objects r"
  "no_null_objects (r\<lparr>rec_uriPermission := d\<rparr>) = no_null_objects r"
  "no_null_objects (r\<lparr>rec_hasGrantUriPermission := e\<rparr>) = no_null_objects r"
  "no_null_objects (r\<lparr>rec_customData := f\<rparr>) = no_null_objects r"
  "no_null_objects (r\<lparr>rec_mimeType := g\<rparr>) = no_null_objects r"
  "no_null_objects (r\<lparr>rec_udType := h\<rparr>) = no_null_objects r"
  by (simp_all add: no_null_objects_def)

lemma no_null_AddEntry:
  assumes "no_null_objects r" "\<forall>v. p = Some v \<longrightarrow> ent_value v \<noteq> VObject None"
  shows "no_null_objects (AddEntry E u p r)"
  using assms by (auto simp: AddEntry_def no_null_iff Let_def split: option.splits dest!: split_first_Some[THEN iffD1])

lemma no_null_AddEntryByMimeType:
  assumes "no_null_objects r" "\<forall>v. p = Some v \<longrightarrow> ent_value v \<noteq> VObject None"
  shows "no_null_objects (AddEntryByMimeType E m p r)"
  using assms by (auto simp: AddEntryByMimeType_def Let_def intro!: no_null_AddEntry split: option.splits)

lemma no_null_SetUri:
  assumes "no_null_objects r" shows "\<exists>r'. SetUri E p r = Some r' \<and> no_null_objects r'"
proof (cases p)
  case (Some u)
  let ?q = "\<lambda>e. case e of None \<Rightarrow> False | Some x \<Rightarrow> ent_mimeType x = MIMETYPE_TEXT_URI"
  show ?thesis
  proof (cases "split_first ?q (rec_entries r)")
    case None
    then show ?thesis using assms by (auto simp: SetUri_def Some intro!: no_null_AddEntryByMimeType)
  next
    case (Some t)
    then obtain pre e post where sp: "split_first ?q (rec_entries r) = Some (pre, e, post)" by (cases t) auto
    then have eq: "rec_entries r = pre @ e # post" and "?q e" by (simp_all add: split_first_Some)
    then obtain x where x: "e = Some x" by (cases e) auto
    have nn: "ent_value x \<noteq> VObject None" using assms by (simp add: no_null_iff eq x)
    have ne: "\<forall>y. Some y \<in> set pre \<union> set post \<longrightarrow> ent_value y \<noteq> VObject None" using assms by (auto simp: no_null_iff eq)
    obtain v where v: "(case ent_value x of
          VObject q \<Rightarrow> do { obj \<leftarrow> q; Some (VObject (Some (assign (FILE_URI_PARAM E) (VString u) obj))) }
        | _ \<Rightarrow> Some (VString u)) = Some v" "v \<noteq> VObject None"
      using nn by (cases "ent_value x") auto
    have "SetUri E p r = Some (r\<lparr>rec_entries := pre @ Some (x\<lparr>ent_value := v\<rparr>) # post\<rparr>)"
      using sp v(1) by (simp add: SetUri_def \<open>p = Some u\<close> x)
    then show ?thesis using ne v(2) by (auto simp: no_null_entries)
  qed
qed (simp add: SetUri_def assms)

lemma no_null_Build:
  assumes "no_null_objects r" shows "no_null_objects (Build E r)"
proof -
  have f: "no_null_objects (fold (\<lambda>e. AddEntry E (ent_utdId e) (Some e)) es r0)"
    if "no_null_objects r0" "\<forall>e \<in> set es. ent_value e \<noteq> VObject None" for es r0
    using that by (induction es arbitrary: r0) (auto intro: no_null_AddEntry)
  have "no_null_objects (empty_record E)" by (simp add: no_null_objects_def empty_record_def)
  then have "no_null_objects (fold (\<lambda>e. AddEntry E (ent_utdId e) (Some e))
      (filter (\<lambda>e. m = ent_mimeType e) (somes (rec_entries r)) @ filter (\<lambda>e. m \<noteq> ent_mimeType e) (somes (rec_entries r)))
      (empty_record E))" for m
    by (rule f) (use assms in \<open>auto simp: no_null_iff\<close>)
  then show ?thesis using assms by (auto simp: Build_def Let_def)
qed

lemma no_null_SplitHtml: "\<forall>r \<in> set (SplitHtml2Records E W h rid b u). no_null_objects r"
proof -
  have "no_null_objects (Builder_SetUri E (Some v) (mk_Builder E m))" for v m
    unfolding Builder_SetUri_def Builder_add_def option.map option.case
    by (rule no_null_AddEntryByMimeType) (simp_all add: no_null_objects_def mk_Builder_def empty_record_def)
  then show ?thesis
    by (auto simp: SplitHtml2Records_def BuildPasteDataRecords_def Let_def Builder_SetCustomData_def intro!: no_null_Build)
qed

section \<open>Data\<close>

lemma data_ok_iff: "data_ok d \<longleftrightarrow> (\<forall>i < length (pd_records d). \<exists>r. pd_records d ! i = Some r \<and> no_null_objects r)"
  by (auto simp: data_ok_def all_set_conv_all_nth)

lemma data_ok_set_record: "data_ok d \<Longrightarrow> no_null_objects r \<Longrightarrow> data_ok (set_record i r d)"
  by (auto simp: data_ok_def set_record_def dest!: set_update_subset_insert[THEN subsetD])

lemma data_ok_AddRecord: "data_ok d \<Longrightarrow> no_null_objects r \<Longrightarrow> data_ok (AddRecord b (Some r) d)"
  by (auto simp: data_ok_def AddRecord_def Let_def)

lemma data_ok_fold_AddRecord:
  "data_ok d \<Longrightarrow> \<forall>r \<in> set rs. no_null_objects r \<Longrightarrow> data_ok (fold (\<lambda>item. AddRecord b (Some item)) rs d)"
  by (induction rs arbitrary: d) (auto intro: data_ok_AddRecord)

lemma length_AddRecord: "length (pd_records (fold (\<lambda>item. AddRecord b (Some item)) rs d)) = length rs + length (pd_records d)"
  by (induction rs arbitrary: d) (auto simp: AddRecord_def Let_def)

lemma length_set_record [simp]: "length (pd_records (set_record i r d)) = length (pd_records d)"
  by (simp add: set_record_def)

lemma record_at_ok:
  assumes "data_ok d" "i < length (pd_records d)"
  shows "\<exists>r. record_at i d = Some r \<and> no_null_objects r"
  using assms by (auto simp: data_ok_iff record_at_def)

lemma fold_run_defined:
  assumes "P s" and "\<forall>x \<in> set xs. \<forall>s. P s \<longrightarrow> (\<exists>s'. f x s = Some s' \<and> P s')"
  shows "\<exists>s'. fold_run f xs s = Some s' \<and> P s'"
  using assms
proof (induction xs arbitrary: s)
  case (Cons x xs)
  then obtain t where "f x s = Some t" "P t" by auto
  with Cons show ?case by auto
qed simp

lemma split_step_defined:
  assumes "IsPasteboardService env" "i < n" "data_ok d" "n \<le> length (pd_records d)"
  shows "\<exists>d' h'. split_step E env W b u n i (d, h) = Some (d', h') \<and> data_ok d' \<and> n \<le> length (pd_records d')"
proof -
  have pos: "snapshot_pos env n x i = i" for x using assms(1) by (simp add: snapshot_pos_def)
  obtain r where r: "record_at i d = Some r" "no_null_objects r" using record_at_ok[of d i] assms by auto
  obtain res where res: "GetEntryByMimeType E env MIMETYPE_TEXT_HTML r = Some (res, r)"
    "\<forall>e. res = Some e \<longrightarrow> ent_value e \<noteq> VObject None"
    using GetEntryByMimeType_keeps[OF assms(1) r(2)] by blast
  obtain html where html: "(case res of None \<Rightarrow> Some None | Some e \<Rightarrow> ConvertToHtml E e) = Some html"
    using res(2) conversions_defined(2)[of _ E] by (cases res) auto
  let ?d1 = "set_record i r d"
  have d1: "data_ok ?d1" using assms(3) r(2) by (rule data_ok_set_record)
  let ?rs = "\<lambda>x. SplitHtml2Records E W x (rec_recordId r) b u"
  have d2: "data_ok (fold (\<lambda>item. AddRecord (IsPasteboardService env) (Some item)) (?rs x) ?d1)" for x
    by (rule data_ok_fold_AddRecord[OF d1 no_null_SplitHtml])
  show ?thesis using d1 d2 assms r(2)
    by (auto simp: split_step_def pos r res html Let_def length_AddRecord data_ok_set_record split: option.split)
qed

lemma split_defined:
  assumes "IsPasteboardService env" "data_ok d"
  shows "\<exists>r d'. SplitWebviewPasteData E env W b u d = Some (r, d') \<and> data_ok d'"
proof -
  let ?n = "length (pd_records d)"
  have "\<exists>x. fold_run (split_step E env W b u ?n) [0..<?n] (d, False) = Some x
      \<and> data_ok (fst x) \<and> ?n \<le> length (pd_records (fst x))"
    by (rule fold_run_defined[where P = "\<lambda>x. data_ok (fst x) \<and> ?n \<le> length (pd_records (fst x))"])
       (use assms split_step_defined[OF assms(1)] in fastforce)+
  then show ?thesis by (auto simp: SplitWebviewPasteData_def data_ok_def split: prod.splits)
qed

lemma set_webview_defined:
  assumes "data_ok d" shows "\<exists>d'. SetWebviewPasteData E b d = Some d' \<and> data_ok d'"
proof -
  let ?n = "length (pd_records d)"
  have step: "\<exists>x'. set_webview_step E b i x = Some x' \<and> data_ok x' \<and> length (pd_records x') = ?n"
    if i: "i < ?n" and x: "data_ok x" "length (pd_records x) = ?n" for i x
  proof -
    obtain r where r: "record_at i x = Some r" "no_null_objects r" using record_at_ok[OF x(1), of i] i x(2) by auto
    obtain p where p: "GetUriV0 E r = Some p" using getters_defined(5)[OF r(2)] by blast
    obtain r' where "SetUri E (Some (mk_uri E (local_uri b (the p)))) r = Some r'" "no_null_objects r'"
      using no_null_SetUri[OF r(2)] by blast
    with x show ?thesis by (auto simp: set_webview_step_def r p data_ok_set_record split: option.split)
  qed
  have "\<exists>x. fold_run (set_webview_step E b) [0..<?n] d = Some x \<and> data_ok x \<and> length (pd_records x) = ?n"
    by (rule fold_run_defined[where P = "\<lambda>x. data_ok x \<and> length (pd_records x) = ?n"])
       (use assms step in auto)
  with assms show ?thesis by (auto simp: SetWebviewPasteData_def)
qed

lemma GetRecordAt_ok: "data_ok d \<Longrightarrow> GetRecordAt i d = Some r \<Longrightarrow> no_null_objects r"
  by (auto simp: data_ok_iff GetRecordAt_def split: if_splits)

lemma need_check_defined:
  assumes "data_ok d" shows "\<exists>d' us. need_check_step E W a i (d, m, vs) = Some (d', us) \<and> data_ok d'"
proof (cases "GetRecordAt i d")
  case (Some r)
  then have "no_null_objects r" using GetRecordAt_ok assms by blast
  moreover obtain p where "GetOriginUri E r = Some p" using getters_defined(4) calculation by blast
  ultimately show ?thesis using assms
    by (auto simp: need_check_step_def Some intro!: data_ok_set_record split: option.split)
qed (simp add: need_check_step_def assms)

lemma grant_defined:
  assumes "data_ok d" shows "\<exists>d'. grant_step E W x d = Some d' \<and> data_ok d'"
proof -
  obtain i rd wr where x: "x = (i, rd, wr)" by (cases x)
  show ?thesis
  proof (cases "GetRecordAt i d")
    case (Some r)
    then have "no_null_objects r" using GetRecordAt_ok assms by blast
    moreover obtain p where "GetOriginUri E r = Some p" using getters_defined(4) calculation by blast
    ultimately show ?thesis using assms
      by (auto simp: grant_step_def Some x SetUriPermission_def intro!: data_ok_set_record split: option.split)
  qed (simp add: grant_step_def assms x)
qed

lemma check_uri_defined:
  assumes "data_ok d" shows "\<exists>d'. CheckAppUriPermission E W d = Some d' \<and> data_ok d'"
proof -
  have "\<exists>x. GetNeedCheckUris E W a d = Some x \<and> data_ok (fst x)" for a unfolding GetNeedCheckUris_def
    by (rule fold_run_defined[where P = "\<lambda>x. data_ok (fst x)"]) (use assms need_check_defined in fastforce)+
  then obtain d1 m us where g: "GetNeedCheckUris E W (calling_uid W = ANCO_SERVICE_BROKER_UID) d = Some (d1, m, us)"
    and d1: "data_ok d1" by (metis prod.collapse)
  have "\<exists>x. fold_run (grant_step E W) xs d1 = Some x \<and> data_ok x" for xs
    by (rule fold_run_defined) (use d1 grant_defined in auto)
  with d1 show ?thesis by (simp add: CheckAppUriPermission_def g Let_def)
qed

lemma web_prepare_defined:
  assumes "data_ok d" shows "\<exists>r d'. web_prepare V b u d = Some (r, d') \<and> data_ok d'"
proof -
  have svc: "IsPasteboardService svc_client" by (simp add: svc_client_def)
  obtain r d1 where 1: "SplitWebviewPasteData (sv_ext V) svc_client (sv_web V) b u d = Some (r, d1)" "data_ok d1"
    using split_defined[OF svc assms] by blast
  obtain d2 where 2: "SetWebviewPasteData (sv_ext V) b d1 = Some d2" "data_ok d2"
    using set_webview_defined[OF 1(2)] by blast
  obtain d3 where "CheckAppUriPermission (sv_ext V) (sv_web V) d2 = Some d3" "data_ok d3"
    using check_uri_defined[OF 2(2)] by blast
  with 1 2 show ?thesis by (simp add: web_prepare_def)
qed

section \<open>Copying\<close>

text \<open>The data \<open>SetPasteDataInfo\<close> leaves, \<open>k\<close> the text size.\<close>

definition with_info :: "svc_env \<Rightarrow> AppInfo \<Rightarrow> service \<Rightarrow> u64 \<Rightarrow> PasteData \<Rightarrow> PasteData" where
  "with_info V a s k d = d\<lparr>pd_props := (pd_props d)\<lparr>prop_bundleName := ai_bundleName a, prop_appIndex := ai_appIndex a,
       prop_setTime := GetTime V, prop_screenStatus := GetScreenStatus (ai_userId a) s\<rparr>,
     pd_originAuthority := (ai_bundleName a, ai_appIndex a), pd_dataId := dataId s + 1,
     pd_records := map (map_option (\<lambda>r. r\<lparr>rec_dataId := dataId s + 1\<rparr>)) (pd_records d), pd_textSize := k\<rparr>"

lemma data_ok_with_info [simp]: "data_ok (with_info V a s k d) \<longleftrightarrow> data_ok d"
proof -
  have "(\<exists>r. map_option (\<lambda>r. r\<lparr>rec_dataId := n\<rparr>) p = Some r \<and> no_null_objects r) \<longleftrightarrow>
      (\<exists>r. p = Some r \<and> no_null_objects r)" for p n
    by (cases p) auto
  then show ?thesis by (simp add: data_ok_def with_info_def del: map_option_eq_Some)
qed

lemma SetPasteDataInfo_eq:
  assumes "data_ok d" shows "\<exists>k. SetPasteDataInfo V a d s = Some (with_info V a s k d, s\<lparr>dataId := dataId s + 1\<rparr>)"
proof -
  define rs where "rs = map (map_option (\<lambda>r. r\<lparr>rec_dataId := dataId s + 1\<rparr>)) (pd_records d)"
  have n: "set_dataId (dataId s + 1) (pd_records d) = Some rs"
    using assms by (auto simp: set_dataId_def data_ok_def rs_def)
  have ok: "\<forall>p \<in> set rs. \<exists>r. p = Some r \<and> no_null_objects r" using assms by (auto simp: data_ok_def rs_def)
  show ?thesis
  proof (cases "rs = []")
    case True
    then have "SetPasteDataInfo V a d s = Some (with_info V a s (pd_textSize d) d, s\<lparr>dataId := dataId s + 1\<rparr>)"
      using n by (simp add: SetPasteDataInfo_def Let_def SetBundleInfo_def with_info_def rs_def)
    then show ?thesis by blast
  next
    case False
    then obtain r where r: "rs ! (length rs - 1) = Some r" "no_null_objects r"
      using ok nth_mem[of "length rs - 1" rs] by fastforce
    obtain t where t: "ConvertToText (sv_ext V) r = Some t" using ConvertToText_defined[OF r(2)] by blast
    have "SetPasteDataInfo V a d s = Some (with_info V a s (word_of_nat (length t)) d, s\<lparr>dataId := dataId s + 1\<rparr>)"
      using False r(1)
      by (simp add: SetPasteDataInfo_def Let_def SetBundleInfo_def n GetRecordAt_def t with_info_def rs_def[symmetric])
    then show ?thesis by blast
  qed
qed

lemma store_data_defined: "data_ok d \<Longrightarrow> \<exists>s'. store_data V c a dg eg d s = Some s'"
  using GetMimeTypes_defined[of d]
  by (auto simp: store_data_def Let_def SetDistributedData_def)

lemma data_ok_user [simp]: "data_ok (d\<lparr>pd_userId := a, pd_deviceId := b\<rparr>) \<longleftrightarrow> data_ok d"
  by (simp add: data_ok_def)

lemma CountTLV_data_defined: "\<exists>m. CountTLV_data E False d = Some m"
proof -
  have "\<exists>ns. record_counts E False rs = Some ns" for rs
  proof (induction rs)
    case (Cons p rs)
    then show ?case by (cases p) (auto simp: CountTLV_record_def)
  qed simp
  then obtain ns where "record_counts E False (pd_records d) = Some ns" by blast
  then show ?thesis by (simp add: CountTLV_data_def)
qed

lemma SaveData_defined:
  assumes "data_ok d" shows "\<exists>ret d' s'. SaveData V c n dg eg d s = Some (ret, d', s') \<and> data_ok d'"
proof -
  let ?a = "GetAppInfo V (prop_tokenId (pd_props d))"
  let ?d = "d\<lparr>pd_userId := ai_userId ?a, pd_deviceId := GetLocalNetworkId V\<rparr>"
  obtain d1 s1 where 1: "SetPasteDataInfo V ?a ?d (s\<lparr>setting := True\<rparr>) = Some (d1, s1)" "data_ok d1"
    using SetPasteDataInfo_eq[of ?d] assms by (metis data_ok_with_info data_ok_user)
  let ?b = "GetDirByAuthority (sv_web V) (ai_bundleName ?a, ai_appIndex ?a)"
  obtain r d2 where 2: "web_prepare V ?b (ai_userId ?a) d1 = Some (r, d2)" "data_ok d2"
    using web_prepare_defined[OF 1(2)] by blast
  obtain m where m: "CountTLV_data (sv_ext V) False d2 = Some m" using CountTLV_data_defined by blast
  have ok: "data_ok (d2\<lparr>pd_rawDataSize := k\<rparr>)" for k using 2(2) by (simp add: data_ok_def)
  obtain t where t: "store_data V c ?a dg eg d2 s1 = Some t" using store_data_defined[OF 2(2)] by blast
  obtain t' where t': "store_data V c ?a dg eg (d2\<lparr>pd_rawDataSize := word_of_nat m\<rparr>) s1 = Some t'"
    using store_data_defined[OF ok] by blast
  show ?thesis using assms 2(2) ok by (simp add: SaveData_def Let_def 1 2 m t t')
qed

section \<open>Pasting\<close>

lemma data_ok_copies [simp]:
  "data_ok (copy_data P d) \<longleftrightarrow> (\<forall>r. Some r \<in> set (pd_records d) \<longrightarrow> no_null_objects r)"
  "data_ok (assign_data e d) \<longleftrightarrow> (\<forall>r. Some r \<in> set (pd_records d) \<longrightarrow> no_null_objects r)"
  by (auto simp: copy_data_def assign_data_def data_ok_def)

lemma data_okD: "data_ok d \<Longrightarrow> Some r \<in> set (pd_records d) \<Longrightarrow> no_null_objects r"
  by (auto simp: data_ok_def)

lemma data_ok_SetTokenId [simp]: "data_ok (SetTokenId P t d) \<longleftrightarrow> data_ok d"
  by (simp add: data_ok_def SetTokenId_def Let_def)

lemma data_ok_SetBundleInfo [simp]: "data_ok (SetBundleInfo b i d) \<longleftrightarrow> data_ok d"
  by (simp add: data_ok_def SetBundleInfo_def)

lemma data_ok_set_entry:
  assumes "data_ok d" "ent_value e \<noteq> VObject None" "fst p < length (pd_records d)"
  shows "data_ok (set_entry_at p e d)"
proof -
  obtain i j where p: "p = (i, j)" by (cases p)
  obtain r where r: "pd_records d ! i = Some r" "no_null_objects r" using assms p by (auto simp: data_ok_iff)
  have "no_null_objects (r\<lparr>rec_entries := (rec_entries r)[j := Some e]\<rparr>)"
    using r(2) assms(2) by (auto simp: no_null_entries no_null_iff dest!: set_update_subset_insert[THEN subsetD])
  then show ?thesis using data_ok_set_record[OF assms(1)] by (simp add: set_entry_at_def p r set_record_def)
qed

lemma fetch_entry_ok:
  assumes "data_ok d" "getter_ok (Some g)" shows "data_ok (fetch_entry m g info d)"
proof (cases "entry_at (die_entry info) d")
  case (Some e)
  then have i: "fst (die_entry info) < length (pd_records d)"
    by (auto simp: entry_at_def split: prod.splits if_splits)
  obtain ret tmp where g: "g (die_recordId info) e = (ret, tmp)" by (cases "g (die_recordId info) e")
  then have "ent_value tmp \<noteq> VObject None" using assms(2) by (metis getter_ok_def snd_conv)
  then have "data_ok (set_entry_at (die_entry info) (e\<lparr>ent_value := ent_value tmp, ent_rawDataSize := ent_rawDataSize tmp\<rparr>) d)"
    using data_ok_set_entry[OF assms(1) _ i] by simp
  then show ?thesis using assms(1) by (simp add: fetch_entry_def Some g Let_def data_ok_def)
qed (simp add: fetch_entry_def assms)

lemma GetLocalEntryValue_ok:
  "data_ok d \<Longrightarrow> getter_ok (Some g) \<Longrightarrow> data_ok (GetLocalEntryValue m infos (Some g) d)"
  unfolding GetLocalEntryValue_def option.case
  by (induction infos arbitrary: d) (auto intro: fetch_entry_ok)

lemma GetDelayPasteData_defined:
  assumes "data_ok d" "\<forall>u g. map_of (delayGetters s) u = Some g \<longrightarrow> (\<forall>x. data_ok (g x))"
  shows "\<exists>d' m. GetDelayPasteData V u d s = Some (d', s\<lparr>delayGetters := m\<rparr>) \<and> data_ok d'
    \<and> map_of m = (map_of (delayGetters s))(u := None)"
proof (cases "map_of (delayGetters s) u")
  case None
  then show ?thesis using assms(1)
    by (auto simp: GetDelayPasteData_def CM_ComputeIfPresent_def Let_def fun_eq_iff intro!: exI[of _ "delayGetters s"])
next
  case (Some g)
  define d4 where "d4 = (let d2 = SetBundleInfo (prop_bundleName (pd_props d)) (GetAppIndex d)
       ((g (new_data (sv_params V) (now_ms V)))\<lparr>pd_isDelayData := False\<rparr>)
     in SetTokenId (sv_params V) (prop_tokenId (pd_props d)) (d2\<lparr>pd_originAuthority := pd_originAuthority d,
       pd_props := (pd_props d2)\<lparr>prop_setTime := prop_setTime (pd_props d)\<rparr>\<rparr>))"
  have "data_ok (g (new_data (sv_params V) (now_ms V)))" using assms(2) Some by blast
  then have "data_ok d4"
    by (simp add: d4_def Let_def) (simp add: data_ok_def SetBundleInfo_def)
  then obtain r d5 where w: "web_prepare V (GetDirByAuthority (sv_web V) (pd_originAuthority d)) u d4 = Some (r, d5)" "data_ok d5"
    using web_prepare_defined by blast
  have "GetDelayPasteData V u d s = Some (assign_data d d5, s\<lparr>delayGetters := snd (CM_Erase u (delayGetters s))\<rparr>)"
    using w(1) by (simp add: GetDelayPasteData_def CM_ComputeIfPresent_def Some Let_def d4_def)
  then show ?thesis using data_okD[OF w(2)] by (auto simp: lookup_ops intro!: exI[of _ "snd (CM_Erase u (delayGetters s))"])
qed

lemma GetDelayPasteRecord_defined:
  assumes "data_ok d" "\<forall>u g. map_of (entryGetters s) u = Some g \<longrightarrow> getter_ok (Some g)"
  shows "\<exists>ret d'. GetDelayPasteRecord V u d s = Some (ret, d') \<and> data_ok d'"
proof (cases "map_of (entryGetters s) u")
  case (Some g)
  let ?d1 = "GetLocalEntryValue (max_raw V) (GetPrimaryDelayEntryInfo (sv_ext V) d) (Some g) d"
  have "data_ok ?d1" using GetLocalEntryValue_ok[OF assms(1)] assms(2) Some by blast
  then obtain r d2 where "web_prepare V (GetDirByAuthority (sv_web V) (pd_originAuthority ?d1)) u ?d1 = Some (r, d2)"
    "data_ok d2" using web_prepare_defined by blast
  then show ?thesis using assms(1) by (simp add: GetDelayPasteRecord_def Some Let_def)
qed (simp add: GetDelayPasteRecord_def assms)

lemma GetLocalData_defined:
  assumes "\<forall>u d. map_of (clips s) u = Some d \<longrightarrow> data_ok d"
    and "\<forall>u g. map_of (delayGetters s) u = Some g \<longrightarrow> (\<forall>x. data_ok (g x))"
    and "\<forall>u g. map_of (entryGetters s) u = Some g \<longrightarrow> getter_ok (Some g)"
  shows "GetLocalData V a d0 s \<noteq> None"
proof (cases "map_of (clips s) (ai_userId a)")
  case (Some clip)
  then have "data_ok clip" using assms(1) by blast
  then have d: "data_ok (assign_data d0 clip)" using data_okD by auto
  obtain d1 m where 1: "GetDelayPasteData V (ai_userId a) (assign_data d0 clip) s = Some (d1, s\<lparr>delayGetters := m\<rparr>)" "data_ok d1"
    using GetDelayPasteData_defined[OF d assms(2)] by blast
  have r: "\<exists>ret d'. GetDelayPasteRecord V (ai_userId a) x t = Some (ret, d')"
    if "data_ok x" "entryGetters t = entryGetters s" for x t
    using GetDelayPasteRecord_defined[OF that(1), of t V "ai_userId a"] assms(3) that(2) by auto
  obtain r2 d2 where 2: "GetDelayPasteRecord V (ai_userId a) d1 (s\<lparr>delayGetters := m\<rparr>) = Some (r2, d2)"
    using r[OF 1(2)] by fastforce
  obtain r3 d3 where 3: "GetDelayPasteRecord V (ai_userId a) (assign_data d0 clip) s = Some (r3, d3)"
    using r[OF d] by blast
  show ?thesis by (simp add: GetLocalData_def Some Let_def 1 2 3 split: option.split)
qed (simp add: GetLocalData_def Let_def)

end
