(* ===== verification/Service_Safety.thy ===== *)
theory Service_Safety
  imports Service_Total
begin

text \<open>
  What the requests of the pasteboard service do to its state: the effect of every operation as
  an equation on the fields it changes, the refinement of an abstract clipboard with one clip for
  each user, and the invariant of the reachable states.
\<close>

section \<open>What the preparation of the records keeps\<close>

text \<open>The paste data without its records and what is derived from them.\<close>

definition envelope :: "PasteData \<Rightarrow> PasteData" where
  "envelope d = d\<lparr>pd_records := [], pd_recordId := 0,
     pd_props := (pd_props d)\<lparr>prop_mimeTypes := [], prop_tag := []\<rparr>\<rparr>"

lemma envelope_set_record [simp]: "envelope (set_record i r d) = envelope d"
  by (simp add: envelope_def set_record_def)

lemma envelope_AddRecord [simp]: "envelope (AddRecord b r d) = envelope d"
  by (auto simp: envelope_def AddRecord_def Let_def split: option.split)

lemma envelope_fold_AddRecord [simp]: "envelope (fold (\<lambda>item. AddRecord b (Some item)) rs d) = envelope d"
  by (induction rs arbitrary: d) simp_all

lemma envelope_tag [simp]: "envelope (d\<lparr>pd_props := (pd_props d)\<lparr>prop_tag := t\<rparr>\<rparr>) = envelope d"
  by (simp add: envelope_def)

lemma fold_run_keeps:
  assumes "fold_run f xs s = Some s'" and "\<And>x s s'. f x s = Some s' \<Longrightarrow> g s' = g s"
  shows "g s' = g s"
  using assms(1)
proof (induction xs arbitrary: s)
  case (Cons x xs)
  then obtain t where "f x s = Some t" "fold_run f xs t = Some s'" by (auto split: Option.bind_splits)
  with Cons.IH assms(2) show ?case by metis
qed simp

lemma split_keeps:
  assumes "SplitWebviewPasteData E env W b u d = Some (r, d')" shows "envelope d' = envelope d"
proof -
  obtain d1 h where f: "fold_run (split_step E env W b u (length (pd_records d))) [0..<length (pd_records d)] (d, False)
      = Some (d1, h)" and d': "d' = d1 \<or> d' = d1\<lparr>pd_props := (pd_props d1)\<lparr>prop_tag := WEBVIEW_PASTEDATA_TAG\<rparr>\<rparr>"
    using assms by (auto simp: SplitWebviewPasteData_def split: Option.bind_splits if_splits)
  have "envelope (fst (d1, h)) = envelope (fst (d, False))"
    by (rule fold_run_keeps[OF f]) (auto simp: split_step_def Let_def split: Option.bind_splits prod.splits if_splits option.splits)
  then show ?thesis using d' by auto
qed

lemma set_webview_keeps:
  assumes "SetWebviewPasteData E b d = Some d'" shows "envelope d' = envelope d"
proof (cases "prop_tag (pd_props d) = WEBVIEW_PASTEDATA_TAG")
  case True
  then have "fold_run (set_webview_step E b) [0..<length (pd_records d)] d = Some d'"
    using assms by (simp add: SetWebviewPasteData_def)
  then show ?thesis
    by (rule fold_run_keeps) (auto simp: set_webview_step_def split: if_splits Option.bind_splits option.splits)
qed (use assms in \<open>simp add: SetWebviewPasteData_def\<close>)

lemma check_uri_keeps:
  assumes "CheckAppUriPermission E W d = Some d'" shows "envelope d' = envelope d"
proof -
  obtain d1 n us where f: "GetNeedCheckUris E W (calling_uid W = ANCO_SERVICE_BROKER_UID) d = Some (d1, n, us)"
    and d': "d' = d1 \<or> (\<exists>xs. fold_run (grant_step E W) xs d1 = Some d')"
    using assms unfolding CheckAppUriPermission_def Let_def
    by (auto split: Option.bind_splits if_splits) blast
  have "envelope (fst (d1, n, us)) = envelope (fst (d, 0 :: nat, [] :: (string \<times> nat) list))"
    by (rule fold_run_keeps[OF f[unfolded GetNeedCheckUris_def]])
       (auto simp: need_check_step_def split: Option.bind_splits option.splits if_splits)
  moreover have "envelope d' = envelope d1" if "fold_run (grant_step E W) xs d1 = Some d'" for xs
    by (rule fold_run_keeps[OF that]) (auto simp: grant_step_def split: Option.bind_splits option.splits)
  ultimately show ?thesis using d' by auto
qed

lemma web_prepare_keeps: "web_prepare V b u d = Some (r, d') \<Longrightarrow> envelope d' = envelope d"
  by (auto simp: web_prepare_def split: Option.bind_splits dest!: split_keeps set_webview_keeps check_uri_keeps)

section \<open>Effects of the parts of a copy\<close>

lemma emit_eq: "emit out s = s\<lparr>outputs := outputs s @ [out]\<rparr>"
  by (simp add: emit_def)

text \<open>Outputs that are added, none of which closes a file descriptor.\<close>

definition adds :: "svc_output list \<Rightarrow> svc_output list \<Rightarrow> bool" where
  "adds old new \<longleftrightarrow> (\<exists>outs. new = old @ outs \<and> (\<forall>fd. FdClosed fd \<notin> set outs))"

lemma adds_refl [simp]: "adds outs outs"
  by (simp add: adds_def)

lemma adds_trans: "adds x y \<Longrightarrow> adds y z \<Longrightarrow> adds x z"
  by (auto simp: adds_def)

lemma adds_one: "(\<forall>fd. out \<noteq> FdClosed fd) \<Longrightarrow> adds outs (outs @ [out])"
  by (auto simp: adds_def)

lemma notify_eq: "\<exists>outs. notify b u st s = s\<lparr>outputs := outs\<rparr> \<and> adds (outputs s) outs"
  by (auto simp: notify_def emit_eq intro: adds_one)

lemma SetPasteDataDot_eq: "\<exists>h. SetPasteDataDot d u s = s\<lparr>dataHistory := h\<rparr>"
proof (cases "u = ERROR_USERID")
  case True
  then have "SetPasteDataDot d u s = s\<lparr>dataHistory := dataHistory s\<rparr>"
    by (simp add: SetPasteDataDot_def SetPasteboardHistory_def)
  then show ?thesis by blast
next
  case False
  then show ?thesis by (auto simp: SetPasteDataDot_def SetPasteboardHistory_def Let_def)
qed

lemma SetDistributedData_eq:
  assumes "SetDistributedData V c u d s = Some (b, s')"
  shows "\<exists>n e outs. s' = s\<lparr>sequenceId := n, currentEvent := e, outputs := outs\<rparr> \<and> adds (outputs s) outs"
proof (cases "GetLocalNetworkId V = []")
  case True
  then have "s' = s\<lparr>sequenceId := sequenceId s, currentEvent := currentEvent s, outputs := outputs s\<rparr>"
    using assms by (simp add: SetDistributedData_def)
  then show ?thesis using adds_refl by blast
next
  case False
  then obtain e where "s' = s\<lparr>sequenceId := sequenceId s + 1, currentEvent := e\<rparr> \<or>
      (\<exists>ev x. s' = emit (Published ev x) (s\<lparr>sequenceId := sequenceId s + 1, currentEvent := e\<rparr>))"
    using assms by (auto simp: SetDistributedData_def Let_def split: Option.bind_splits if_splits)
  then show ?thesis
  proof
    assume "s' = s\<lparr>sequenceId := sequenceId s + 1, currentEvent := e\<rparr>"
    then have "s' = s\<lparr>sequenceId := sequenceId s + 1, currentEvent := e, outputs := outputs s\<rparr>" by simp
    then show ?thesis using adds_refl by blast
  qed (auto simp: emit_eq intro: adds_one)
qed

lemma announce_eq:
  assumes "(if pd_isDelayData d then Some s else do {
      (_, t) \<leftarrow> SetDistributedData V c u d s; Some (notify b u st t) }) = Some s'"
  shows "\<exists>n e outs. s' = s\<lparr>sequenceId := n, currentEvent := e, outputs := outs\<rparr> \<and> adds (outputs s) outs"
proof (cases "pd_isDelayData d")
  case True
  then have "s' = s\<lparr>sequenceId := sequenceId s, currentEvent := currentEvent s, outputs := outputs s\<rparr>"
    using assms by simp
  then show ?thesis using adds_refl by blast
next
  case False
  then obtain r t where t: "SetDistributedData V c u d s = Some (r, t)" and s': "s' = notify b u st t"
    using assms by (auto split: Option.bind_splits prod.splits)
  obtain outs where o: "s' = t\<lparr>outputs := outs\<rparr>" "adds (outputs t) outs" using notify_eq s' by blast
  obtain n e outs' where t': "t = s\<lparr>sequenceId := n, currentEvent := e, outputs := outs'\<rparr>" "adds (outputs s) outs'"
    using SetDistributedData_eq[OF t] by blast
  then have "s' = s\<lparr>sequenceId := n, currentEvent := e, outputs := outs\<rparr>" by (simp add: o)
  moreover have "adds (outputs s) outs" using o(2) t' by (auto intro: adds_trans)
  ultimately show ?thesis by blast
qed

definition next_count :: "u32 option \<Rightarrow> u32" where
  "next_count old = (case old of None \<Rightarrow> 1 | Some n \<Rightarrow> n + 1)"

lemma IncreaseChangeCount_eq:
  "\<exists>m. IncreaseChangeCount u s = s\<lparr>clipChangeCount := m\<rparr> \<and>
     map_of m = (map_of (clipChangeCount s))(u \<mapsto> next_count (map_of (clipChangeCount s) u))"
proof -
  define f where "f = (\<lambda>(_ :: i32) (changeCount :: u32) (x :: unit). (True, if changeCount = - 1 then 0 else changeCount + 1, x))"
  have "IncreaseChangeCount u s =
      s\<lparr>clipChangeCount := fst (snd (CM_Compute 0 u (Some f) (clipChangeCount s) ()))\<rparr>"
    by (simp add: IncreaseChangeCount_def f_def split: prod.split)
  moreover have "map_of (fst (snd (CM_Compute 0 u (Some f) (clipChangeCount s) ()))) =
      (map_of (clipChangeCount s))(u \<mapsto> next_count (map_of (clipChangeCount s) u))"
    by (auto simp: lookup_ops f_def next_count_def fun_eq_iff split: option.split)
  ultimately show ?thesis by blast
qed

lemma RemovePasteData_eq:
  "\<exists>dm em. RemovePasteData a s = s\<lparr>delayGetters := dm, entryGetters := em\<rparr> \<and>
     map_of dm = (map_of (delayGetters s))(ai_userId a := None) \<and>
     map_of em = (map_of (entryGetters s))(ai_userId a := None)"
proof -
  define f where "f = (\<lambda>(_ :: i32) (g :: delay_getter) (u :: unit). (False, g, u))"
  define h where "h = (\<lambda>(_ :: i32) (g :: entry_getter) (u :: unit). (False, g, u))"
  have e: "RemovePasteData a s =
      s\<lparr>delayGetters := fst (snd (CM_ComputeIfPresent (ai_userId a) (Some f) (delayGetters s) ())),
        entryGetters := fst (snd (CM_ComputeIfPresent (ai_userId a) (Some h) (entryGetters s) ()))\<rparr>"
    by (simp add: RemovePasteData_def f_def h_def split: prod.split)
  show ?thesis unfolding e
    by (intro exI conjI, rule refl) (auto simp: lookup_ops f_def h_def fun_eq_iff split: option.split)
qed

lemma HandleDelay_eq:
  assumes "map_of (delayGetters s) (ai_userId a) = None" "map_of (entryGetters s) (ai_userId a) = None"
  shows "\<exists>dm em. HandleDelayDataAndRecord d dg eg a s = s\<lparr>delayGetters := dm, entryGetters := em\<rparr> \<and>
     map_of dm = (map_of (delayGetters s))(ai_userId a := if pd_isDelayData d then dg else None) \<and>
     map_of em = (map_of (entryGetters s))(ai_userId a := if pd_isDelayRecord d then eg else None)"
proof -
  let ?t = "HandleDelayDataAndRecord d dg eg a s"
  have "?t = s\<lparr>delayGetters := delayGetters ?t, entryGetters := entryGetters ?t\<rparr>"
    "map_of (delayGetters ?t) = (map_of (delayGetters s))(ai_userId a := if pd_isDelayData d then dg else None)"
    "map_of (entryGetters ?t) = (map_of (entryGetters s))(ai_userId a := if pd_isDelayRecord d then eg else None)"
    using assms by (auto simp: HandleDelayDataAndRecord_def Let_def lookup_ops fun_upd_idem split: option.split)
  then show ?thesis by blast
qed

section \<open>Effects of the operations\<close>

text \<open>The state after a clip is stored: everything but the fields named here is as before.\<close>

definition stored :: "svc_env \<Rightarrow> caller \<Rightarrow> i32 \<Rightarrow> delay_getter option \<Rightarrow> entry_getter option \<Rightarrow> PasteData \<Rightarrow>
    service \<Rightarrow> service \<Rightarrow> bool" where
  "stored V c u dg eg d s s' \<longleftrightarrow>
     map_of (clips s') = (map_of (clips s))(u \<mapsto> copy_data (sv_params V) d)
   \<and> map_of (copyTime s') = (map_of (copyTime s))(u \<mapsto> ucast (GetBootTimeMs V))
   \<and> timers s' = List.insert u (timers s)
   \<and> map_of (clipChangeCount s') = (map_of (clipChangeCount s))(u \<mapsto> next_count (map_of (clipChangeCount s) u))
   \<and> map_of (delayGetters s') = (map_of (delayGetters s))(u := if pd_isDelayData d then dg else None)
   \<and> map_of (entryGetters s') = (map_of (entryGetters s))(u := if pd_isDelayRecord d then eg else None)
   \<and> setPasteDataUId s' = c_uid c \<and> \<not> setting s' \<and> adds (outputs s) (outputs s')
   \<and> s' = s\<lparr>clips := clips s', copyTime := copyTime s', timers := timers s', clipChangeCount := clipChangeCount s',
        delayGetters := delayGetters s', entryGetters := entryGetters s', setPasteDataUId := c_uid c,
        sequenceId := sequenceId s', currentEvent := currentEvent s', outputs := outputs s',
        dataHistory := dataHistory s', setting := False\<rparr>"

lemma store_data_stored:
  assumes "store_data V c a dg eg d s = Some s'"
  shows "stored V c (ai_userId a) dg eg d s s'"
proof -
  let ?u = "ai_userId a" and ?clip = "copy_data (sv_params V) d"
  obtain dm em where r: "RemovePasteData a (s\<lparr>setPasteDataUId := c_uid c\<rparr>) =
      s\<lparr>setPasteDataUId := c_uid c, delayGetters := dm, entryGetters := em\<rparr>"
    and dm: "map_of dm = (map_of (delayGetters s))(?u := None)"
    and em: "map_of em = (map_of (entryGetters s))(?u := None)"
    using RemovePasteData_eq[of a "s\<lparr>setPasteDataUId := c_uid c\<rparr>"] by auto
  define cl where "cl = snd (CM_InsertOrAssign ?u ?clip (clips s))"
  define ct where "ct = snd (CM_InsertOrAssign ?u (GetBootTimeMs V) (copyTime s))"
  define s2 where "s2 = s\<lparr>setPasteDataUId := c_uid c, delayGetters := dm, entryGetters := em, clips := cl\<rparr>"
  obtain cc where i: "IncreaseChangeCount ?u s2 = s2\<lparr>clipChangeCount := cc\<rparr>"
    and cc: "map_of cc = (map_of (clipChangeCount s))(?u \<mapsto> next_count (map_of (clipChangeCount s) ?u))"
    using IncreaseChangeCount_eq[of ?u s2] by (auto simp: s2_def)
  obtain dm' em' where h: "HandleDelayDataAndRecord d dg eg a (s2\<lparr>clipChangeCount := cc\<rparr>) =
      s2\<lparr>clipChangeCount := cc, delayGetters := dm', entryGetters := em'\<rparr>"
    and dm': "map_of dm' = (map_of (delayGetters s))(?u := if pd_isDelayData d then dg else None)"
    and em': "map_of em' = (map_of (entryGetters s))(?u := if pd_isDelayRecord d then eg else None)"
    using HandleDelay_eq[of "s2\<lparr>clipChangeCount := cc\<rparr>" a d dg eg] by (auto simp: s2_def dm em)
  define s6 where "s6 = s2\<lparr>clipChangeCount := cc, delayGetters := dm', entryGetters := em', copyTime := ct,
      timers := List.insert ?u (timers s)\<rparr>"
  have pre: "SetDataExpirationTimer ?u (s2\<lparr>clipChangeCount := cc, delayGetters := dm', entryGetters := em', copyTime := ct\<rparr>) = s6"
    by (simp add: SetDataExpirationTimer_def s6_def s2_def)
  have z: "s\<lparr>setPasteDataUId := c_uid c, delayGetters := dm, entryGetters := em, clips := cl\<rparr> = s2"
    by (simp add: s2_def)
  have ct2: "copyTime s2 = copyTime s" "clips s2 = cl" by (simp_all add: s2_def)
  have "store_data V c a dg eg d s = do {
      s7 \<leftarrow> (if pd_isDelayData d then Some s6 else do {
        (_, s') \<leftarrow> SetDistributedData V c ?u d s6;
        Some (notify (ai_bundleName a) ?u PASTEBOARD_WRITE s') });
      Some ((SetPasteDataDot d ?u s7)\<lparr>setting := False\<rparr>) }"
    unfolding store_data_def Let_def r
    by (simp add: cl_def[symmetric] z i h ct2 ct_def[symmetric] pre del: service.update_convs)
  then obtain s7 where s7: "(if pd_isDelayData d then Some s6 else do {
      (_, s') \<leftarrow> SetDistributedData V c ?u d s6;
      Some (notify (ai_bundleName a) ?u PASTEBOARD_WRITE s') }) = Some s7"
    and s': "s' = (SetPasteDataDot d ?u s7)\<lparr>setting := False\<rparr>"
    using assms by (auto split: Option.bind_splits)
  obtain n e outs where e7: "s7 = s6\<lparr>sequenceId := n, currentEvent := e, outputs := outs\<rparr>"
    and o7: "adds (outputs s) outs"
    using announce_eq[OF s7] by (auto simp: s6_def s2_def)
  obtain h where e8: "SetPasteDataDot d ?u s7 = s7\<lparr>dataHistory := h\<rparr>" using SetPasteDataDot_eq by blast
  have "map_of cl = (map_of (clips s))(?u \<mapsto> ?clip)" "map_of ct = (map_of (copyTime s))(?u \<mapsto> ucast (GetBootTimeMs V))"
    by (simp_all add: cl_def ct_def lookup_ops)
  moreover have "s' = s6\<lparr>sequenceId := n, currentEvent := e, outputs := outs, dataHistory := h, setting := False\<rparr>"
    unfolding s' e8 by (simp add: e7)
  ultimately show ?thesis by (simp add: stored_def s6_def s2_def cc dm' em' o7)
qed

section \<open>Copying\<close>

lemma envelope_fields:
  assumes "envelope d = envelope e"
  shows "pd_dataId d = pd_dataId e" "pd_userId d = pd_userId e" "pd_deviceId d = pd_deviceId e"
    "pd_isDelayData d = pd_isDelayData e" "pd_isDelayRecord d = pd_isDelayRecord e" "pd_valid d = pd_valid e"
    "pd_isDraggedData d = pd_isDraggedData e" "pd_originAuthority d = pd_originAuthority e"
    "prop_bundleName (pd_props d) = prop_bundleName (pd_props e)" "prop_tokenId (pd_props d) = prop_tokenId (pd_props e)"
    "prop_screenStatus (pd_props d) = prop_screenStatus (pd_props e)"
    "prop_shareOption (pd_props d) = prop_shareOption (pd_props e)" "prop_isRemote (pd_props d) = prop_isRemote (pd_props e)"
proof -
  have p: "pd_props (envelope d) = pd_props (envelope e)" using assms by simp
  note fields = arg_cong[OF assms, of pd_dataId] arg_cong[OF assms, of pd_userId] arg_cong[OF assms, of pd_deviceId]
    arg_cong[OF assms, of pd_isDelayData] arg_cong[OF assms, of pd_isDelayRecord] arg_cong[OF assms, of pd_valid]
    arg_cong[OF assms, of pd_isDraggedData] arg_cong[OF assms, of pd_originAuthority]
  note props = arg_cong[OF p, of prop_bundleName] arg_cong[OF p, of prop_tokenId] arg_cong[OF p, of prop_screenStatus]
    arg_cong[OF p, of prop_shareOption] arg_cong[OF p, of prop_isRemote]
  show "pd_dataId d = pd_dataId e" "pd_userId d = pd_userId e" "pd_deviceId d = pd_deviceId e"
    "pd_isDelayData d = pd_isDelayData e" "pd_isDelayRecord d = pd_isDelayRecord e" "pd_valid d = pd_valid e"
    "pd_isDraggedData d = pd_isDraggedData e" "pd_originAuthority d = pd_originAuthority e"
    using fields by (simp_all add: envelope_def)
  show "prop_bundleName (pd_props d) = prop_bundleName (pd_props e)" "prop_tokenId (pd_props d) = prop_tokenId (pd_props e)"
    "prop_screenStatus (pd_props d) = prop_screenStatus (pd_props e)"
    "prop_shareOption (pd_props d) = prop_shareOption (pd_props e)" "prop_isRemote (pd_props d) = prop_isRemote (pd_props e)"
    using props by (simp_all add: envelope_def)
qed

text \<open>What the stored data says of the application that copied and of the copy.\<close>

definition labelled :: "svc_env \<Rightarrow> AppInfo \<Rightarrow> service \<Rightarrow> PasteData \<Rightarrow> PasteData \<Rightarrow> bool" where
  "labelled V a s d d' \<longleftrightarrow> pd_dataId d' = dataId s + 1 \<and> pd_userId d' = ai_userId a \<and> pd_deviceId d' = GetLocalNetworkId V
     \<and> pd_originAuthority d' = (ai_bundleName a, ai_appIndex a) \<and> prop_bundleName (pd_props d') = ai_bundleName a
     \<and> prop_screenStatus (pd_props d') = GetScreenStatus (ai_userId a) s
     \<and> prop_tokenId (pd_props d') = prop_tokenId (pd_props d) \<and> prop_shareOption (pd_props d') = prop_shareOption (pd_props d)
     \<and> prop_isRemote (pd_props d') = prop_isRemote (pd_props d)
     \<and> pd_isDelayData d' = pd_isDelayData d \<and> pd_isDelayRecord d' = pd_isDelayRecord d
     \<and> pd_isDraggedData d' = pd_isDraggedData d \<and> pd_valid d' = pd_valid d"

lemma labelled_raw [simp]: "labelled V a s d (d'\<lparr>pd_rawDataSize := k\<rparr>) = labelled V a s d d'"
  by (simp add: labelled_def)

lemma labelled_prepared:
  assumes "envelope d' = envelope (with_info V a s k (d\<lparr>pd_userId := ai_userId a, pd_deviceId := GetLocalNetworkId V\<rparr>))"
  shows "labelled V a s d d'"
  using envelope_fields[OF assms] by (simp add: labelled_def with_info_def)

lemma SaveData_cases:
  assumes "data_ok d" "IsCopyable V (prop_tokenId (pd_props d))" "\<not> setting s" "a = GetAppInfo V (prop_tokenId (pd_props d))"
    "ai_userId a \<noteq> ERROR_USERID"
  shows "\<exists>ret d' s'. SaveData V c n dg eg d s = Some (ret, d', s') \<and> labelled V a s d d' \<and> data_ok d' \<and>
    (if ret = E_OK then stored V c (ai_userId a) dg eg d' (s\<lparr>setting := True, dataId := dataId s + 1\<rparr>) s'
     else ret = INVALID_DATA_SIZE \<and> s' = s\<lparr>dataId := dataId s + 1\<rparr> \<and>
       (\<exists>m. CountTLV_data (sv_ext V) False d' = Some m \<and> sint (word_of_nat m :: i64) > sint (maxLocalCapacity V)))"
proof -
  let ?d = "d\<lparr>pd_userId := ai_userId a, pd_deviceId := GetLocalNetworkId V\<rparr>" and ?s = "s\<lparr>setting := True\<rparr>"
  let ?t = "s\<lparr>setting := True, dataId := dataId s + 1\<rparr>"
  obtain k where 1: "SetPasteDataInfo V a ?d ?s = Some (with_info V a ?s k ?d, ?t)"
    using SetPasteDataInfo_eq[of ?d V a ?s] assms(1) by auto
  let ?b = "GetDirByAuthority (sv_web V) (ai_bundleName a, ai_appIndex a)"
  obtain h d2 where 2: "web_prepare V ?b (ai_userId a) (with_info V a ?s k ?d) = Some (h, d2)" and ok: "data_ok d2"
    using web_prepare_defined[of "with_info V a ?s k ?d" V ?b "ai_userId a"] assms(1) by auto
  have "with_info V a ?s k ?d = with_info V a s k ?d" by (simp add: with_info_def GetScreenStatus_def)
  then have lab: "labelled V a s d d2" using web_prepare_keeps[OF 2] by (intro labelled_prepared) simp
  obtain m where m: "CountTLV_data (sv_ext V) False d2 = Some m" using CountTLV_data_defined by blast
  have m': "CountTLV_data (sv_ext V) False (d2\<lparr>pd_rawDataSize := k\<rparr>) = Some m" for k using m by (simp add: CountTLV_data_def)
  have okr: "data_ok (d2\<lparr>pd_rawDataSize := k\<rparr>)" for k using ok by (simp add: data_ok_def)
  have unset: "?t\<lparr>setting := False\<rparr> = s\<lparr>dataId := dataId s + 1\<rparr>" using assms(3) by simp
  have st: "\<exists>s'. store_data V c a dg eg e ?t = Some s' \<and> stored V c (ai_userId a) dg eg e ?t s'" if "data_ok e" for e
    using store_data_defined[OF that] store_data_stored by blast
  have ne: "INVALID_DATA_SIZE \<noteq> E_OK" by (simp add: err_defs)
  show ?thesis
  proof (cases "h \<or> sint n > sint (recalculate_size V)")
    case True
    show ?thesis
    proof (cases "sint (word_of_nat m :: i64) > sint (maxLocalCapacity V)")
      case big: True
      have "SaveData V c n dg eg d s = Some (INVALID_DATA_SIZE, d2, ?t\<lparr>setting := False\<rparr>)"
        using assms(2,3,5) True big unfolding SaveData_def Let_def assms(4)[symmetric] by (simp add: 1 2 m)
      then show ?thesis using lab ok big m ne unset by auto
    next
      case False
      obtain s' where "store_data V c a dg eg (d2\<lparr>pd_rawDataSize := word_of_nat m\<rparr>) ?t = Some s'"
        "stored V c (ai_userId a) dg eg (d2\<lparr>pd_rawDataSize := word_of_nat m\<rparr>) ?t s'" using st[OF okr] by blast
      moreover from this have "SaveData V c n dg eg d s = Some (E_OK, d2\<lparr>pd_rawDataSize := word_of_nat m\<rparr>, s')"
        using assms(2,3,5) True False unfolding SaveData_def Let_def assms(4)[symmetric] by (simp add: 1 2 m)
      ultimately show ?thesis using lab okr by auto
    qed
  next
    case False
    obtain s' where "store_data V c a dg eg d2 ?t = Some s'" "stored V c (ai_userId a) dg eg d2 ?t s'" using st[OF ok] by blast
    moreover from this have "SaveData V c n dg eg d s = Some (E_OK, d2, s')"
      using assms(2,3,5) False unfolding SaveData_def Let_def assms(4)[symmetric] by (simp add: 1 2)
    ultimately show ?thesis using lab ok by auto
  qed
qed

section \<open>A sample device\<close>

definition sample_env :: svc_env where
  "sample_env = \<lparr>sv_ext = sample_ext, sv_params = sample_params, sv_web = sample_web, QueryDlpFileCopyable = Some (\<lambda>t. Some (t \<noteq> 9)),
     GetTokenTypeFlag = (\<lambda>_. TOKEN_HAP),
     GetHapTokenInfo = (\<lambda>t. Some \<lparr>hap_bundleName = ''com.app'', hap_instIndex = 0,
        hap_userID = (if t = 8 then 101 else 100), hap_apiVersion = 12\<rparr>),
     GetNativeTokenInfo = (\<lambda>_. None), ResolveMainDisplayUser = None, IsPermissionGranted = (\<lambda>_ _. True),
     IsCtrlVProcess = False, GetLocalNetworkId = ''net'', GetCurrentAccount = ''me'', GetTime = ''now'',
     GetBootTimeMs = 5000, maxLocalCapacity = 134217728, recalculate_size = 120795952, max_raw = 134217728,
     has_plugin = True, IsWiFiEnable = True, GetTopEvents = (\<lambda>_. []), GetRemoteDeviceInfo = (\<lambda>_. E_OK),
     constraint_enabled = (\<lambda>_. Some False), display_of = None, focus_window = 1, now_ms = 7\<rparr>"

text \<open>The state of the service object when it is created.\<close>

definition init_state :: service where
  "init_state = \<lparr>clips = [], clipChangeCount = [], copyTime = [], delayGetters = [], entryGetters = [], setting = False,
     dataId = 0, sequenceId = 0, delayDataId = 0, delayTokenId = 0, setPasteDataUId = 0, screenStatusMap = [],
     globalShareOptions = [], observers = no_observers, disposables = [], currentEvent = new_event, dataHistory = [],
     isCritical = False, criticalTimer = False, timers = [], entityObservers = 0, outputs = []\<rparr>"

definition sample_copy :: PasteData where
  "sample_copy = (new_data sample_params 7)\<lparr>pd_props := (new_props sample_params 7)\<lparr>prop_tokenId := 7\<rparr>,
     pd_records := [Some (empty_record sample_ext)]\<rparr>"

lemma sample_copy_ok: "data_ok sample_copy"
  by (simp add: data_ok_def sample_copy_def no_null_objects_def empty_record_def)

lemma sample_user: "ai_userId (GetAppInfo sample_env t) = (if t = 8 then 101 else 100)"
  by (simp add: GetAppInfo_def FillHapAppInfo_def sample_env_def Let_def new_AppInfo_def)

section \<open>The outcome of a copy\<close>



section \<open>Pasting\<close>

lemma set_value_same: "map_of m k = Some v \<Longrightarrow> set_value k v m = m"
  by (induction m) (auto split: if_splits)

text \<open>The clip a reading application of the user gets, when nothing is delayed.\<close>

definition pasted :: "AppInfo \<Rightarrow> PasteData \<Rightarrow> PasteData \<Rightarrow> PasteData" where
  "pasted a d0 clip = SetLocalPasteFlag (prop_isRemote (pd_props clip)) (ai_tokenId a)
     (SetBundleInfo (ai_bundleName a) (ai_appIndex a) (assign_data d0 clip))"

lemma UpdateClipOnRead_same:
  assumes "map_of (clips s) u = Some clip" "\<not> pd_isDelayData clip" "\<not> pd_isDelayRecord clip"
  shows "UpdateClipOnRead V u d b t t' s = s"
  using assms by (simp add: UpdateClipOnRead_def CM_ComputeIfPresent_def Let_def set_value_same)

lemma GetLocalData_plain:
  assumes "map_of (clips s) (ai_userId a) = Some clip" "map_of (copyTime s) (ai_userId a) = Some t"
    "\<not> pd_isDelayData clip" "\<not> pd_isDelayRecord clip"
  shows "GetLocalData V a d0 s =
    (let ret = IsDataValid clip (ai_tokenId a) (ai_userId a) s in
     Some (ret, if ret = E_OK then pasted a d0 clip else d0, s))"
  using assms
  by (simp add: GetLocalData_def Let_def UpdateClipOnRead_same pasted_def assign_data_def SetBundleInfo_def assign_props_def)

text \<open>What a read depends on: the clip, the copy time, the screen and the getters of its user.\<close>

definition same_user_view :: "i32 \<Rightarrow> service \<Rightarrow> service \<Rightarrow> bool" where
  "same_user_view u s t \<longleftrightarrow> map_of (clips s) u = map_of (clips t) u \<and> map_of (copyTime s) u = map_of (copyTime t) u
     \<and> map_of (screenStatusMap s) u = map_of (screenStatusMap t) u
     \<and> map_of (delayGetters s) u = map_of (delayGetters t) u \<and> map_of (entryGetters s) u = map_of (entryGetters t) u"

lemma IsDataValid_view: "same_user_view u s t \<Longrightarrow> IsDataValid d k u s = IsDataValid d k u t"
  by (simp add: same_user_view_def IsDataValid_def IsDataAged_def GetScreenStatus_def CM_Find_def)

abbreviation result_of :: "(i32 \<times> PasteData \<times> service) run \<Rightarrow> (i32 \<times> PasteData) run" where
  "result_of r \<equiv> map_option (\<lambda>(ret, d, _). (ret, d)) r"

lemma same_getters: "\<exists>m. s = s\<lparr>delayGetters := m\<rparr>"
  by (rule exI[of _ "delayGetters s"]) simp

lemma GetDelayPasteData_view:
  assumes "map_of (delayGetters s) u = map_of (delayGetters t) u"
  shows "(GetDelayPasteData V u d s = None \<and> GetDelayPasteData V u d t = None) \<or>
    (\<exists>d' m m'. GetDelayPasteData V u d s = Some (d', s\<lparr>delayGetters := m\<rparr>) \<and> GetDelayPasteData V u d t = Some (d', t\<lparr>delayGetters := m'\<rparr>))"
  using assms
  by (auto simp: GetDelayPasteData_def CM_ComputeIfPresent_def Let_def intro!: same_getters
      split: option.splits Option.bind_splits)

lemma GetLocalData_view:
  assumes v: "same_user_view (ai_userId a) s t"
  shows "result_of (GetLocalData V a d0 s) = result_of (GetLocalData V a d0 t)"
proof (cases "map_of (clips s) (ai_userId a)")
  case None
  then show ?thesis using v by (simp add: GetLocalData_def same_user_view_def)
next
  case (Some clip)
  let ?u = "ai_userId a" and ?d = "assign_data d0 clip"
  have c: "map_of (clips t) ?u = Some clip" and k: "map_of (copyTime s) ?u = map_of (copyTime t) ?u"
    and g: "map_of (delayGetters s) ?u = map_of (delayGetters t) ?u"
    and e: "map_of (entryGetters s) ?u = map_of (entryGetters t) ?u"
    using v Some by (simp_all add: same_user_view_def)
  have r: "GetDelayPasteRecord V ?u x (s\<lparr>delayGetters := m\<rparr>) = GetDelayPasteRecord V ?u x t"
    "GetDelayPasteRecord V ?u x (t\<lparr>delayGetters := m\<rparr>) = GetDelayPasteRecord V ?u x t"
    "GetDelayPasteRecord V ?u x s = GetDelayPasteRecord V ?u x t" for x m
    using e by (simp_all add: GetDelayPasteRecord_def)
  show ?thesis
  proof (cases "map_of (copyTime s) ?u")
    case None
    then show ?thesis using k by (simp add: GetLocalData_def Let_def Some c)
  next
    case time: (Some ct)
    note k' = k[symmetric, unfolded time]
    show ?thesis
    proof (cases "pd_isDelayData clip")
      case True
      from GetDelayPasteData_view[OF g, of V ?d] show ?thesis
        by (elim disjE exE conjE; simp add: GetLocalData_def Let_def Some c time k' True IsDataValid_view[OF v] r
            split: Option.bind_split prod.split)
    next
      case False
      then show ?thesis
        by (simp add: GetLocalData_def Let_def Some c time k' IsDataValid_view[OF v] r split: Option.bind_split prod.split)
    qed
  qed
qed

lemma stored_frame:
  assumes "stored V c u dg eg d s s'"
  shows "screenStatusMap s' = screenStatusMap s" "isCritical s' = isCritical s" "dataId s' = dataId s"
    "observers s' = observers s" "globalShareOptions s' = globalShareOptions s"
    "v \<noteq> u \<Longrightarrow> same_user_view v s' s"
proof -
  obtain c' ct tm cc dm em sid ev outs h where
    "s' = s\<lparr>clips := c', copyTime := ct, timers := tm, clipChangeCount := cc, delayGetters := dm, entryGetters := em,
       setPasteDataUId := c_uid c, sequenceId := sid, currentEvent := ev, outputs := outs, dataHistory := h, setting := False\<rparr>"
    using assms unfolding stored_def by blast
  then show e: "screenStatusMap s' = screenStatusMap s" "isCritical s' = isCritical s" "dataId s' = dataId s"
    "observers s' = observers s" "globalShareOptions s' = globalShareOptions s" by simp_all
  show "v \<noteq> u \<Longrightarrow> same_user_view v s' s"
    using assms by (simp add: stored_def same_user_view_def e)
qed

lemma map_Some_somes: "\<forall>p \<in> set ps. \<exists>r. p = Some r \<and> Q r \<Longrightarrow> map Some (somes ps) = ps"
  by (induction ps) auto

lemma pd_records_pasted:
  assumes "data_ok d" shows "pd_records (pasted a d0 (copy_data P d)) = pd_records d"
  using map_Some_somes[OF assms[unfolded data_ok_def]]
  by (simp add: pasted_def SetLocalPasteFlag_def SetBundleInfo_def assign_data_def copy_data_def)

text \<open>C3: Copy and paste. After a successful copy of data that is not delayed, every application
  of the user that reads gets the answer the share option prescribes, and the service state does
  not change: data that was dragged or marked invalid is refused, data shared inside one
  application is refused to a different token, an unknown option is refused, and otherwise the
  read returns exactly the records of the stored clip, with the reading application as bundle.
  The screen cannot refuse the read until it changes. For an application of any other user the
  read returns what it returned before the copy.\<close>

theorem copy_then_paste:
  assumes "SaveData V c n dg eg d s = Some (E_OK, d', s')" and "data_ok d" and "\<not> setting s"
    and "\<not> pd_isDelayData d" and "\<not> pd_isDelayRecord d" and "u = ai_userId (GetAppInfo V (prop_tokenId (pd_props d)))"
  shows "(\<forall>r V' d0. ai_userId r = u \<longrightarrow>
      (let opt = prop_shareOption (pd_props d);
           ret = (if pd_isDraggedData d \<or> \<not> pd_valid d then INVALID_PARAM_ERROR
                  else if opt = InApp \<and> prop_tokenId (pd_props d) \<noteq> ai_tokenId r then PERMISSION_VERIFICATION_ERROR
                  else if opt \<in> {InApp, LocalDevice, CrossDevice} then E_OK else INVALID_DATA_ERROR);
           out = (if ret = E_OK then pasted r d0 (copy_data (sv_params V) d') else d0)
       in GetLocalData V' r d0 s' = Some (ret, out, s') \<and>
          (ret = E_OK \<longrightarrow> pd_records out = pd_records d' \<and> prop_bundleName (pd_props out) = ai_bundleName r)))
    \<and> (\<forall>r V' d0. ai_userId r \<noteq> u \<longrightarrow> result_of (GetLocalData V' r d0 s') = result_of (GetLocalData V' r d0 s))"
proof -
  let ?a = "GetAppInfo V (prop_tokenId (pd_props d))" and ?t = "s\<lparr>setting := True, dataId := dataId s + 1\<rparr>"
  have nn: "PROHIBIT_COPY \<noteq> E_OK" "INVALID_USERID_ERROR \<noteq> E_OK" "INVALID_DATA_SIZE \<noteq> E_OK" by (simp_all add: err_defs)
  have cp: "IsCopyable V (prop_tokenId (pd_props d))"
    using assms(1) nn by (cases "IsCopyable V (prop_tokenId (pd_props d))") (simp_all add: SaveData_def)
  have us: "ai_userId ?a \<noteq> ERROR_USERID"
    using assms(1,3) nn cp by (cases "ai_userId ?a = ERROR_USERID") (simp_all add: SaveData_def Let_def)
  have lab: "labelled V ?a s d d'" and ok: "data_ok d'" and st: "stored V c u dg eg d' ?t s'"
    using SaveData_cases[OF assms(2) cp assms(3) refl us, of c n dg eg] unfolding assms(1) by (auto simp: assms(6))
  let ?clip = "copy_data (sv_params V) d'"
  have clip: "map_of (clips s') u = Some ?clip" "map_of (copyTime s') u = Some (ucast (GetBootTimeMs V))"
    using st by (simp_all add: stored_def)
  have scr: "GetScreenStatus u s' = GetScreenStatus u s"
    using stored_frame(1)[OF st] by (simp add: GetScreenStatus_def)
  have aged: "\<not> IsDataAged u s'" using us assms(6) clip(2) by (simp add: IsDataAged_def CM_Find_def)
  have props: "prop_tokenId (pd_props ?clip) = prop_tokenId (pd_props d)" "prop_shareOption (pd_props ?clip) = prop_shareOption (pd_props d)"
    "prop_screenStatus (pd_props ?clip) = GetScreenStatus u s" "pd_isDraggedData ?clip = pd_isDraggedData d"
    "pd_valid ?clip = pd_valid d" "\<not> pd_isDelayData ?clip" "\<not> pd_isDelayRecord ?clip"
    using lab assms(4-6) by (simp_all add: labelled_def copy_data_def assign_props_def)
  have "GetLocalData V' r d0 s' = Some (let ret = IsDataValid ?clip (ai_tokenId r) u s' in
      (ret, if ret = E_OK then pasted r d0 ?clip else d0, s'))" if "ai_userId r = u" for r V' d0
    using GetLocalData_plain[of s' r ?clip] clip that props(6,7) by (simp add: Let_def)
  moreover have "IsDataValid ?clip k u s' = (if pd_isDraggedData d \<or> \<not> pd_valid d then INVALID_PARAM_ERROR
      else if prop_shareOption (pd_props d) = InApp \<and> prop_tokenId (pd_props d) \<noteq> k then PERMISSION_VERIFICATION_ERROR
      else if prop_shareOption (pd_props d) \<in> {InApp, LocalDevice, CrossDevice} then E_OK else INVALID_DATA_ERROR)" for k
    using aged by (auto simp: IsDataValid_def props scr Let_def)
  moreover have "pd_records (pasted r d0 ?clip) = pd_records d'" for r d0 using pd_records_pasted[OF ok] .
  moreover have "prop_bundleName (pd_props (pasted r d0 ?clip)) = ai_bundleName r" for r d0
    by (simp add: pasted_def SetLocalPasteFlag_def SetBundleInfo_def)
  moreover have "result_of (GetLocalData V' r d0 s') = result_of (GetLocalData V' r d0 s)" if "ai_userId r \<noteq> u" for r V' d0
    using stored_frame(6)[OF st that] by (intro GetLocalData_view) (simp add: same_user_view_def)
  ultimately show ?thesis by (simp add: Let_def)
qed

lemma sample_prepare:
  assumes "pd_records d = [Some r]" "rec_entries r = []" "rec_customData r = None" "rec_uri r = None"
    "prop_tag (pd_props d) = []"
  shows "web_prepare sample_env b u d = Some (False, d)"
proof -
  have e: "entry_with_mime m r = None" for m by (simp add: entry_with_mime_def assms)
  have g: "GetEntryByMimeType sample_ext svc_client m r = Some (None, r)" for m
    by (simp add: GetEntryByMimeType_def GetEntry_def assms)
  have s: "set_record 0 r d = d" using assms(1) by (simp add: set_record_def)
  have o: "GetOriginUri sample_ext r = Some None" by (simp add: GetOriginUri_def e assms)
  have "SplitWebviewPasteData sample_ext svc_client sample_web b u d = Some (False, d)"
    using assms(1) by (simp add: SplitWebviewPasteData_def split_step_def snapshot_pos_def svc_client_def[symmetric] record_at_def g s)
  moreover have "SetWebviewPasteData sample_ext b d = Some d"
    by (simp add: SetWebviewPasteData_def assms WEBVIEW_PASTEDATA_TAG_def)
  moreover have "CheckAppUriPermission sample_ext sample_web d = Some d"
    using assms(1) by (simp add: CheckAppUriPermission_def GetNeedCheckUris_def need_check_step_def GetRecordAt_def o)
  ultimately show ?thesis by (simp add: web_prepare_def sample_env_def)
qed

lemma sample_saved: "\<exists>d' s'. SaveData sample_env sample_app 10 None None sample_copy init_state = Some (E_OK, d', s')"
proof -
  let ?a = "GetAppInfo sample_env 7" and ?s = "init_state\<lparr>setting := True\<rparr>"
  let ?d = "sample_copy\<lparr>pd_userId := ai_userId ?a, pd_deviceId := GetLocalNetworkId sample_env\<rparr>"
  obtain k where 1: "SetPasteDataInfo sample_env ?a ?d ?s = Some (with_info sample_env ?a ?s k ?d, ?s\<lparr>dataId := dataId ?s + 1\<rparr>)"
    using SetPasteDataInfo_eq[of ?d sample_env ?a ?s] sample_copy_ok by auto
  have 2: "web_prepare sample_env b u (with_info sample_env ?a ?s k ?d) = Some (False, with_info sample_env ?a ?s k ?d)" for b u
    by (rule sample_prepare[where r = "(empty_record sample_ext)\<lparr>rec_dataId := dataId ?s + 1\<rparr>"])
       (simp_all add: with_info_def sample_copy_def empty_record_def new_props_def)
  obtain s' where 3: "store_data sample_env sample_app ?a None None (with_info sample_env ?a ?s k ?d) (?s\<lparr>dataId := dataId ?s + 1\<rparr>) = Some s'"
    using store_data_defined[of "with_info sample_env ?a ?s k ?d" sample_env sample_app ?a None None] sample_copy_ok by fastforce
  have "IsCopyable sample_env 7" "\<not> setting init_state" "prop_tokenId (pd_props sample_copy) = 7"
    "ai_userId ?a \<noteq> ERROR_USERID" "\<not> sint (10 :: i64) > sint (recalculate_size sample_env)"
    by (simp_all add: IsCopyable_def sample_env_def init_state_def sample_copy_def sample_user[unfolded sample_env_def] ERROR_USERID_def)
  then show ?thesis using 1 2 3 by (simp add: SaveData_def Let_def)
qed

theorem copy_then_paste_witness:
  "\<exists>d' s'. SaveData sample_env sample_app 10 None None sample_copy init_state = Some (E_OK, d', s') \<and>
     (\<exists>out. GetLocalData sample_env (GetAppInfo sample_env 7) (new_data sample_params 9) s' = Some (E_OK, out, s')
        \<and> pd_records out = pd_records d') \<and>
     result_of (GetLocalData sample_env (GetAppInfo sample_env 8) (new_data sample_params 9) s') =
       result_of (GetLocalData sample_env (GetAppInfo sample_env 8) (new_data sample_params 9) init_state)"
proof -
  obtain d' s' where sv: "SaveData sample_env sample_app 10 None None sample_copy init_state = Some (E_OK, d', s')"
    using sample_saved by blast
  have p: "\<not> setting init_state" "\<not> pd_isDelayData sample_copy" "\<not> pd_isDelayRecord sample_copy" "pd_valid sample_copy"
    "\<not> pd_isDraggedData sample_copy" "prop_shareOption (pd_props sample_copy) = CrossDevice" "prop_tokenId (pd_props sample_copy) = 7"
    by (simp_all add: init_state_def sample_copy_def new_data_def new_props_def)
  have o: "CrossDevice \<noteq> InApp" by (simp add: CrossDevice_def InApp_def)
  note c = copy_then_paste[OF sv sample_copy_ok p(1-3) refl, unfolded p(7) sample_user]
  from c sv show ?thesis
    using p o by (auto simp: sample_user Let_def)
qed

end
