(* ===== verification/Service_Requests.thy ===== *)
theory Service_Requests
  imports Service_Safety
begin

text \<open>
  The requests of clients as a whole. A copy request always returns, whatever bytes it carries;
  the queries agree with what a paste returns; and the requests together with the timers and the
  events of the system are a step relation whose reachable states keep the invariant of the
  service.
\<close>

section \<open>The copy request\<close>

lemma decode_into_ok:
  assumes "data_ok d" shows "data_ok (snd (decode_into V bs d))"
  using decoded_data_ok[OF _ assms] assms by (auto simp: decode_into_def split: rres.split)

lemma new_data_ok: "data_ok (new_data P now)"
  by (simp add: data_ok_def new_data_def)

lemma data_ok_share [simp]: "data_ok (UpdateShareOption m d) \<longleftrightarrow> data_ok d"
  by (auto simp: UpdateShareOption_def results_ops data_ok_def split: option.split)

lemma data_ok_rawSize [simp]: "data_ok (d\<lparr>pd_rawDataSize := n\<rparr>) \<longleftrightarrow> data_ok d"
  by (simp add: data_ok_def)

lemma WritePasteData_ok:
  assumes "WritePasteData V m n buf d s = (ret, r, d', s')" "data_ok d"
  shows "data_ok d'" "s' = CloseSharedMemFd (shm_fd m) s"
  using assms decode_into_ok[OF assms(2)]
  by (auto simp: WritePasteData_def Let_def split: if_splits option.splits prod.splits) (metis snd_conv)+

lemma HasMimeType_defined:
  assumes "data_ok d" shows "\<exists>b. HasMimeType ty (pd_records d) = Some b"
proof -
  have "\<exists>b. foldr (\<lambda>p rest. Option.bind p (\<lambda>r. if Q r then Some True else rest)) rs (Some False) = Some b"
    if "\<forall>p \<in> set rs. \<exists>r. p = Some r \<and> no_null_objects r" for rs and Q :: "PasteDataRecord \<Rightarrow> bool"
    using that by (induction rs) auto
  then show ?thesis using assms by (simp add: HasMimeType_def data_ok_def)
qed

lemma try_disposable_eq:
  "\<exists>b outs i. try_disposable V d s = (b, s\<lparr>disposables := i, outputs := outs\<rparr>) \<and> adds (outputs s) outs"
proof -
  obtain b ns ms i where t: "TryProcessDisposableData (focus_window V) (disposables s) = (b, ns, ms, i)"
    by (metis prod_cases4)
  define outs where "outs = (if ns = [] then [] else [Noticed ns]) @
    (if ms = [] then [] else [Answered ms (copy_data (sv_params V) d)])"
  have "try_disposable V d s = (b, s\<lparr>disposables := i, outputs := outputs s @ outs\<rparr>)"
    by (simp add: try_disposable_def t Let_def emit_eq outs_def)
  moreover have "adds (outputs s) (outputs s @ outs)" by (auto simp: adds_def outs_def)
  ultimately show ?thesis by blast
qed

text \<open>The state a copy request leaves before it saves.\<close>

definition opened :: "shared_mem \<Rightarrow> service \<Rightarrow> service" where
  "opened m s = (SetCriticalTimer s)\<lparr>outputs := outputs s @ [FdClosed (shm_fd m)]\<rparr>"

lemma SaveData_total:
  assumes "data_ok d" "\<not> setting s"
  shows "\<exists>ret d' s'. SaveData V c n dg eg d s = Some (ret, d', s') \<and> data_ok d' \<and> \<not> setting s' \<and>
    (ret = E_OK \<longrightarrow> (\<exists>u. u \<noteq> ERROR_USERID \<and> stored V c u dg eg d' (s\<lparr>setting := True, dataId := dataId s + 1\<rparr>) s')) \<and>
    (ret \<noteq> E_OK \<longrightarrow> (\<exists>n. s' = s\<lparr>dataId := n\<rparr>))"
proof (cases "IsCopyable V (prop_tokenId (pd_props d)) \<and> ai_userId (GetAppInfo V (prop_tokenId (pd_props d))) \<noteq> ERROR_USERID")
  case True
  then obtain ret d' s' where r: "SaveData V c n dg eg d s = Some (ret, d', s')" "data_ok d'"
    and c: "if ret = E_OK then stored V c (ai_userId (GetAppInfo V (prop_tokenId (pd_props d)))) dg eg d'
        (s\<lparr>setting := True, dataId := dataId s + 1\<rparr>) s'
      else ret = INVALID_DATA_SIZE \<and> s' = s\<lparr>dataId := dataId s + 1\<rparr> \<and>
        (\<exists>m. CountTLV_data (sv_ext V) False d' = Some m \<and> sint (word_of_nat m :: i64) > sint (maxLocalCapacity V))"
    using SaveData_cases[OF assms(1) _ assms(2) refl, of V c n dg eg] by auto
  have "\<not> setting s'" using c assms(2) by (auto simp: stored_def split: if_splits)
  then show ?thesis using r c True by (auto split: if_splits)
next
  case False
  have u: "s\<lparr>setting := False\<rparr> = s\<lparr>dataId := dataId s\<rparr>" "s = s\<lparr>dataId := dataId s\<rparr>" using assms(2) by simp_all
  have nn: "PROHIBIT_COPY \<noteq> E_OK" "INVALID_USERID_ERROR \<noteq> E_OK" by (simp_all add: err_defs)
  show ?thesis
  proof (cases "IsCopyable V (prop_tokenId (pd_props d))")
    case copy: True
    with False have "SaveData V c n dg eg d s = Some (INVALID_USERID_ERROR, d, s)" using assms(2) u by (simp add: SaveData_def Let_def)
    then show ?thesis using nn assms u(2) by blast
  next
    case copy: False
    then have "SaveData V c n dg eg d s = Some (PROHIBIT_COPY, d, s)" by (simp add: SaveData_def)
    then show ?thesis using nn assms u(2) by blast
  qed
qed

text \<open>Only the bookkeeping of requests differs: the priority, the outputs, the disposable observers
  and the data number.\<close>

definition quiet :: "service \<Rightarrow> service \<Rightarrow> bool" where
  "quiet s s' \<longleftrightarrow> (\<exists>crit tm outs i n. s' = s\<lparr>isCritical := crit, criticalTimer := tm, outputs := outs, disposables := i, dataId := n\<rparr>)"

definition closed_fds :: "svc_output list \<Rightarrow> i32 list" where
  "closed_fds outs = concat (map (\<lambda>out. case out of FdClosed fd \<Rightarrow> [fd] | _ \<Rightarrow> []) outs)"

lemma closed_fds_adds: "adds old new \<Longrightarrow> closed_fds new = closed_fds old"
proof -
  have "concat (map (\<lambda>out. case out of FdClosed fd \<Rightarrow> [fd] | _ \<Rightarrow> []) outs) = []"
    if "\<forall>fd. FdClosed fd \<notin> set outs" for outs
    using that by (fastforce split: svc_output.split)
  then show "adds old new \<Longrightarrow> closed_fds new = closed_fds old" by (auto simp: adds_def closed_fds_def)
qed

lemma quiet_refl: "quiet s s"
  unfolding quiet_def
  by (intro exI[of _ "isCritical s"] exI[of _ "criticalTimer s"] exI[of _ "outputs s"] exI[of _ "disposables s"] exI[of _ "dataId s"]) simp

lemma quiet_SetCriticalTimer: "quiet s (SetCriticalTimer s)" "isCritical (SetCriticalTimer s)"
proof -
  have "SetCriticalTimer s = s\<lparr>isCritical := True, criticalTimer := True, outputs := outputs s, disposables := disposables s, dataId := dataId s\<rparr>"
    by (simp add: SetCriticalTimer_def)
  then show "quiet s (SetCriticalTimer s)" unfolding quiet_def by blast
  show "isCritical (SetCriticalTimer s)" by (simp add: SetCriticalTimer_def)
qed

lemma quiet_trans:
  assumes "quiet s t" "quiet t u" shows "quiet s u"
proof -
  obtain c tm os i n where "t = s\<lparr>isCritical := c, criticalTimer := tm, outputs := os, disposables := i, dataId := n\<rparr>"
    using assms(1) unfolding quiet_def by blast
  moreover obtain c' tm' os' i' n' where
    "u = t\<lparr>isCritical := c', criticalTimer := tm', outputs := os', disposables := i', dataId := n'\<rparr>"
    using assms(2) unfolding quiet_def by blast
  ultimately have "u = s\<lparr>isCritical := c', criticalTimer := tm', outputs := os', disposables := i', dataId := n'\<rparr>" by simp
  then show ?thesis unfolding quiet_def by blast
qed

lemma quiet_upd:
  "quiet s (s\<lparr>outputs := outs\<rparr>)" "quiet s (s\<lparr>dataId := n\<rparr>)" "quiet s (s\<lparr>disposables := i, outputs := outs\<rparr>)"
proof -
  have "s\<lparr>outputs := outs\<rparr> = s\<lparr>isCritical := isCritical s, criticalTimer := criticalTimer s, outputs := outs,
      disposables := disposables s, dataId := dataId s\<rparr>" by simp
  then show "quiet s (s\<lparr>outputs := outs\<rparr>)" unfolding quiet_def by blast
  have "s\<lparr>dataId := n\<rparr> = s\<lparr>isCritical := isCritical s, criticalTimer := criticalTimer s, outputs := outputs s,
      disposables := disposables s, dataId := n\<rparr>" by simp
  then show "quiet s (s\<lparr>dataId := n\<rparr>)" unfolding quiet_def by blast
  have "s\<lparr>disposables := i, outputs := outs\<rparr> = s\<lparr>isCritical := isCritical s, criticalTimer := criticalTimer s, outputs := outs,
      disposables := i, dataId := dataId s\<rparr>" by simp
  then show "quiet s (s\<lparr>disposables := i, outputs := outs\<rparr>)" unfolding quiet_def by blast
qed

lemma quiet_frame:
  assumes "quiet s t"
  shows "clips t = clips s" "copyTime t = copyTime s" "clipChangeCount t = clipChangeCount s" "timers t = timers s"
    "delayGetters t = delayGetters s" "entryGetters t = entryGetters s" "setting t = setting s"
    "screenStatusMap t = screenStatusMap s" "globalShareOptions t = globalShareOptions s" "dataHistory t = dataHistory s"
    "observers t = observers s"
  using assms by (auto simp: quiet_def)

text \<open>A clip was saved, and possibly handed to recognition.\<close>

definition saved_from :: "svc_env \<Rightarrow> caller \<Rightarrow> delay_getter option \<Rightarrow> entry_getter option \<Rightarrow> service \<Rightarrow> service \<Rightarrow> bool" where
  "saved_from V c dg eg s s' \<longleftrightarrow> (\<exists>u d t. u \<noteq> ERROR_USERID \<and> data_ok d
     \<and> stored V c u dg eg d (s\<lparr>setting := True, dataId := dataId s + 1\<rparr>) t \<and> s' = t\<lparr>outputs := outputs s'\<rparr>)"

lemma save_request_effect:
  assumes "data_ok d" "\<not> setting s" "isCritical s"
  shows "\<exists>ret s'. save_request V c n dg eg d s = Some (ret, s') \<and> \<not> setting s' \<and> isCritical s' \<and>
    adds (outputs s) (outputs s') \<and> (quiet s s' \<or> ret = ERR_OK \<and> saved_from V c dg eg s s')"
proof -
  obtain ret d1 s1 where r: "SaveData V c n dg eg d s = Some (ret, d1, s1)" "data_ok d1" "\<not> setting s1"
    and ok: "ret = E_OK \<longrightarrow> (\<exists>u. u \<noteq> ERROR_USERID \<and> stored V c u dg eg d1 (s\<lparr>setting := True, dataId := dataId s + 1\<rparr>) s1)"
    and bad: "ret \<noteq> E_OK \<longrightarrow> (\<exists>n. s1 = s\<lparr>dataId := n\<rparr>)"
    using SaveData_total[OF assms(1,2), of V c n dg eg] by blast
  obtain b where b: "HasMimeType MIMETYPE_TEXT_PLAIN (pd_records d1) = Some b" using HasMimeType_defined[OF r(2)] by blast
  define os where "os = outputs s1 @ (if entityObservers s1 \<noteq> 0 \<and> b then [Recognized d1] else [])"
  have e: "save_request V c n dg eg d s = Some (if ret \<noteq> E_OK then ret else ERR_OK, s1\<lparr>outputs := os\<rparr>)"
    by (simp add: save_request_def r b os_def emit_eq)
  have a: "adds (outputs s1) os" by (auto simp: os_def adds_def)
  show ?thesis
  proof (cases "ret = E_OK")
    case True
    then obtain u where u: "u \<noteq> ERROR_USERID" "stored V c u dg eg d1 (s\<lparr>setting := True, dataId := dataId s + 1\<rparr>) s1"
      using ok by blast
    have "adds (outputs s) (outputs s1)" using u(2) by (simp add: stored_def)
    moreover have "isCritical s1" using stored_frame(2)[OF u(2)] assms(3) by simp
    moreover have "saved_from V c dg eg s (s1\<lparr>outputs := os\<rparr>)" unfolding saved_from_def using u r(2)
      by (intro exI[of _ u] exI[of _ d1] exI[of _ s1]) simp
    ultimately show ?thesis using e r(3) adds_trans[OF _ a] True by auto
  next
    case False
    then obtain k where k: "s1 = s\<lparr>dataId := k\<rparr>" using bad by blast
    have "quiet s (s1\<lparr>outputs := os\<rparr>)" unfolding k by (rule quiet_trans[OF quiet_upd(2) quiet_upd(1)])
    then show ?thesis using e r(3) a assms(3) by (auto simp: k)
  qed
qed

lemma SetPasteData_effect:
  assumes "\<not> setting s"
  shows "\<exists>ret s'. SetPasteData V c m n buf dg eg s = Some (ret, s') \<and> \<not> setting s' \<and>
    (if sint (shm_fd m) < 0 then ret = INVALID_PARAM_ERROR \<and> s' = s
     else isCritical s' \<and> closed_fds (outputs s') = closed_fds (outputs s) @ [shm_fd m]) \<and>
    (quiet s s' \<or> ret = ERR_OK \<and> (\<exists>t. quiet s t \<and> isCritical t \<and> saved_from V c dg eg t s'))"
proof (cases "sint (shm_fd m) < 0")
  case True
  then show ?thesis using assms quiet_refl by (simp add: SetPasteData_def)
next
  case fd: False
  define s1 where "s1 = CloseSharedMemFd (shm_fd m) (SetCriticalTimer s)"
  have s1': "s1 = (SetCriticalTimer s)\<lparr>outputs := outputs s @ [FdClosed (shm_fd m)]\<rparr>"
    using fd by (simp add: s1_def CloseSharedMemFd_def emit_eq SetCriticalTimer_def)
  have q1: "quiet s s1" unfolding s1' by (rule quiet_trans[OF quiet_SetCriticalTimer(1) quiet_upd(1)])
  have c1: "isCritical s1" "closed_fds (outputs s1) = closed_fds (outputs s) @ [shm_fd m]" "\<not> setting s1"
    using assms by (simp_all add: s1' SetCriticalTimer_def closed_fds_def)
  have early: ?thesis if "SetPasteData V c m n buf dg eg s = Some (ret, s1)" for ret
    using that fd q1 c1 by auto
  show ?thesis
  proof (cases "sint n \<le> 0 \<or> sint n > sint (max_raw V)")
    case True
    then show ?thesis using fd by (intro early[of INVALID_DATA_SIZE]) (simp add: SetPasteData_def s1_def)
  next
    case size: False
    obtain ret r d s2 where w: "WritePasteData V m n buf (new_data (sv_params V) (now_ms V)) (SetCriticalTimer s) = (ret, r, d, s2)"
      by (metis prod_cases4)
    have s2: "s2 = s1" and d: "data_ok d" using WritePasteData_ok[OF w new_data_ok] by (simp_all add: s1_def)
    show ?thesis
    proof (cases "ret \<noteq> E_OK \<or> \<not> r")
      case True
      then show ?thesis using fd size w s2
        by (intro early[of "if ret \<noteq> E_OK then INVALID_DATA_ERROR else NO_DATA_ERROR"]) (auto simp: SetPasteData_def)
    next
      case False
      define d2 where "d2 = UpdateShareOption (globalShareOptions s1) (SetTokenId (sv_params V) (GetDataTokenId V c d) d)"
      have d2: "data_ok d2" using d by (simp add: d2_def)
      obtain b outs i where t: "try_disposable V d2 s1 = (b, s1\<lparr>disposables := i, outputs := outs\<rparr>)" "adds (outputs s1) outs"
        using try_disposable_eq by blast
      let ?s3 = "s1\<lparr>disposables := i, outputs := outs\<rparr>"
      have q3: "quiet s ?s3" by (rule quiet_trans[OF q1 quiet_upd(3)])
      have c3: "isCritical ?s3" "closed_fds (outputs ?s3) = closed_fds (outputs s) @ [shm_fd m]" "\<not> setting ?s3"
        using c1 closed_fds_adds[OF t(2)] by simp_all
      note unf = SetPasteData_def Let_def w s2 d2_def[symmetric] t(1)
      show ?thesis
      proof (cases b)
        case True
        then have "SetPasteData V c m n buf dg eg s = Some (ERR_OK, ?s3)" using fd size False by (simp add: unf)
        then show ?thesis using fd q3 c3 by auto
      next
        case save: False
        then have e: "SetPasteData V c m n buf dg eg s = save_request V c n dg eg d2 ?s3" using fd size False by (simp add: unf)
        obtain ret' s' where sv: "save_request V c n dg eg d2 ?s3 = Some (ret', s')" "\<not> setting s'" "isCritical s'"
          and a: "adds (outputs ?s3) (outputs s')" and
          o: "quiet ?s3 s' \<or> ret' = ERR_OK \<and> saved_from V c dg eg ?s3 s'"
          using save_request_effect[OF d2 c3(3,1), of V c n dg eg] by blast
        have "quiet s s' \<or> ret' = ERR_OK \<and> (\<exists>t. quiet s t \<and> isCritical t \<and> saved_from V c dg eg t s')"
          using o quiet_trans[OF q3] q3 c3(1) by blast
        moreover have "closed_fds (outputs s') = closed_fds (outputs s) @ [shm_fd m]"
          using c3(2) closed_fds_adds[OF a] by simp
        moreover have "SetPasteData V c m n buf dg eg s = Some (ret', s')" using e sv(1) by simp
        ultimately show ?thesis using fd sv(2,3) by (intro exI[of _ ret'] exI[of _ s']) simp
      qed
    qed
  qed
qed

text \<open>C2: A copy request is safe. Whatever the file descriptor, the size, the bytes and the
  shared memory a client sends, the request returns (no null pointer is met and the decoder
  ends), the flag that marks a copy in progress is lowered, the file descriptor is closed exactly
  once if it is valid and not at all otherwise, and a request that reports an error leaves the
  clips, their times and timers, the change counts and the getters of every user as they were.\<close>

theorem copy_request_safe:
  assumes "\<not> setting s"
  shows "\<exists>ret s'. SetPasteData V c m n buf dg eg s = Some (ret, s') \<and> \<not> setting s' \<and>
    closed_fds (outputs s') = closed_fds (outputs s) @ (if sint (shm_fd m) < 0 then [] else [shm_fd m]) \<and>
    (ret \<noteq> ERR_OK \<longrightarrow> clips s' = clips s \<and> copyTime s' = copyTime s \<and> timers s' = timers s \<and>
       clipChangeCount s' = clipChangeCount s \<and> delayGetters s' = delayGetters s \<and> entryGetters s' = entryGetters s)"
proof -
  obtain ret s' where r: "SetPasteData V c m n buf dg eg s = Some (ret, s')" "\<not> setting s'"
    and f: "if sint (shm_fd m) < 0 then ret = INVALID_PARAM_ERROR \<and> s' = s
      else isCritical s' \<and> closed_fds (outputs s') = closed_fds (outputs s) @ [shm_fd m]"
    and q: "quiet s s' \<or> ret = ERR_OK \<and> (\<exists>t. quiet s t \<and> isCritical t \<and> saved_from V c dg eg t s')"
    using SetPasteData_effect[OF assms, of V c m n buf dg eg] by blast
  from q have "ret \<noteq> ERR_OK \<longrightarrow> quiet s s'" by blast
  with r f show ?thesis by (intro exI[of _ ret] exI[of _ s']) (auto simp: quiet_frame split: if_splits)
qed

theorem copy_request_safe_witness:
  "\<exists>ret s'. SetPasteData sample_env sample_app \<lparr>shm_fd = 3, shm_size = 0, shm_bytes = None\<rparr> 5 [1, 2, 3] None None init_state
     = Some (ret, s') \<and> closed_fds (outputs s') = [3]"
proof -
  have "\<not> setting init_state" "closed_fds (outputs init_state) = []" by (simp_all add: init_state_def closed_fds_def)
  then show ?thesis
    using copy_request_safe[of init_state sample_env sample_app "\<lparr>shm_fd = 3, shm_size = 0, shm_bytes = None\<rparr>" 5 "[1, 2, 3]" None None]
    by auto
qed

section \<open>Reading\<close>

definition clips_ok :: "service \<Rightarrow> bool" where
  "clips_ok s \<longleftrightarrow> (\<forall>u d. map_of (clips s) u = Some d \<longrightarrow> data_ok d)
     \<and> (\<forall>u g. map_of (delayGetters s) u = Some g \<longrightarrow> (\<forall>x. data_ok (g x)))
     \<and> (\<forall>u g. map_of (entryGetters s) u = Some g \<longrightarrow> getter_ok (Some g))"

lemma UpdateClipOnRead_effect:
  assumes "data_ok d"
  shows "\<exists>cl outs. UpdateClipOnRead V u d b t t' s = s\<lparr>clips := cl, outputs := outs\<rparr> \<and>
    (\<forall>v. map_of cl v = map_of (clips s) v \<or> map_of (clips s) v \<noteq> None \<and> map_of cl v = Some (copy_data (sv_params V) d))"
proof (cases "t = t' \<and> map_of (clips s) u \<noteq> None")
  case False
  then have "UpdateClipOnRead V u d b t t' s = s\<lparr>clips := clips s, outputs := outputs s\<rparr>"
    by (auto simp: UpdateClipOnRead_def CM_ComputeIfPresent_def)
  then show ?thesis by blast
next
  case True
  then obtain v where v: "map_of (clips s) u = Some v" and t: "t = t'" by blast
  define w where "w = (let v1 = (if pd_isDelayData v then copy_data (sv_params V) d else v)
    in if pd_isDelayRecord v1 then copy_data (sv_params V) d else v1)"
  have w: "w = v \<or> w = copy_data (sv_params V) d" by (simp add: w_def Let_def)
  let ?s = "s\<lparr>clips := set_value u w (clips s)\<rparr>"
  obtain outs where outs: "notify b u PASTEBOARD_WRITE ?s = ?s\<lparr>outputs := outs\<rparr>" using notify_eq by blast
  have "UpdateClipOnRead V u d b t t' s = (if pd_isDelayData v then notify b u PASTEBOARD_WRITE ?s else ?s)"
    by (simp add: UpdateClipOnRead_def CM_ComputeIfPresent_def v t w_def Let_def)
  then have "\<exists>outs. UpdateClipOnRead V u d b t t' s = s\<lparr>clips := set_value u w (clips s), outputs := outs\<rparr>"
    using outs by (cases "pd_isDelayData v") (auto intro: exI[of _ "outputs s"])
  moreover have "\<forall>x. map_of (set_value u w (clips s)) x = map_of (clips s) x \<or>
      map_of (clips s) x \<noteq> None \<and> map_of (set_value u w (clips s)) x = Some (copy_data (sv_params V) d)"
    using w v by (auto simp: map_of_set_value)
  ultimately show ?thesis by blast
qed

lemma delay_part:
  assumes "clips_ok s" "data_ok d"
    "(if b then GetDelayPasteData V u d s else Some (d, s)) = Some (d1, s1)"
  shows "data_ok d1 \<and> (\<exists>m. s1 = s\<lparr>delayGetters := m\<rparr> \<and> (\<forall>v g. map_of m v = Some g \<longrightarrow> map_of (delayGetters s) v = Some g))"
proof (cases b)
  case True
  obtain d' m where g: "GetDelayPasteData V u d s = Some (d', s\<lparr>delayGetters := m\<rparr>)" "data_ok d'"
    "map_of m = (map_of (delayGetters s))(u := None)"
    using GetDelayPasteData_defined[OF assms(2), of s V u] assms(1) by (auto simp: clips_ok_def)
  then have "\<forall>v g. map_of m v = Some g \<longrightarrow> map_of (delayGetters s) v = Some g" by auto
  with g assms(3) True show ?thesis by auto
next
  case False
  then have "s1 = s\<lparr>delayGetters := delayGetters s\<rparr>" using assms(3) by simp
  then show ?thesis using assms(2,3) False by (intro conjI exI[of _ "delayGetters s"]) auto
qed

lemma record_part:
  assumes "clips_ok s" "data_ok d" "entryGetters t = entryGetters s"
    "(if b then GetDelayPasteRecord V u d t else Some (E_OK, d)) = Some (ret, d')"
  shows "data_ok d'"
proof (cases b)
  case True
  have "\<exists>ret d'. GetDelayPasteRecord V u d t = Some (ret, d') \<and> data_ok d'"
    by (rule GetDelayPasteRecord_defined[OF assms(2)]) (use assms(1,3) in \<open>simp add: clips_ok_def\<close>)
  with assms(4) True show ?thesis by auto
qed (use assms in simp)

lemma GetLocalData_effect:
  assumes r: "GetLocalData V a d0 s = Some (ret, d, s')" and ok: "clips_ok s"
  shows "\<exists>m cl outs. s' = s\<lparr>delayGetters := m, clips := cl, outputs := outs\<rparr> \<and> clips_ok s'
    \<and> dom (map_of cl) = dom (map_of (clips s))"
proof (cases "s' = s")
  case True
  then show ?thesis using ok
    by (intro exI[of _ "delayGetters s"] exI[of _ "clips s"] exI[of _ "outputs s"]) simp
next
  case False
  let ?u = "ai_userId a"
  obtain clip t where c: "map_of (clips s) ?u = Some clip" and t: "map_of (copyTime s) ?u = Some t"
    and v: "IsDataValid clip (ai_tokenId a) ?u s = E_OK"
    using r False by (auto simp: GetLocalData_def Let_def split: option.splits if_splits)
  obtain d1 s1 ret2 d2 where
    1: "(if pd_isDelayData clip then GetDelayPasteData V ?u (assign_data d0 clip) s else Some (assign_data d0 clip, s)) = Some (d1, s1)" and
    2: "(if pd_isDelayRecord clip then GetDelayPasteRecord V ?u d1 s1 else Some (E_OK, d1)) = Some (ret2, d2)"
    using r unfolding GetLocalData_def Let_def c t v option.case prod.case by (auto split: Option.bind_splits)
  have 3: "map_of (copyTime s1) ?u = None \<and> s' = s1 \<or> (\<exists>tc. s' = UpdateClipOnRead V ?u
        (SetBundleInfo (ai_bundleName a) (ai_appIndex a) d2) (prop_bundleName (pd_props clip)) t tc s1)"
    using r unfolding GetLocalData_def Let_def c t v option.case prod.case 1 bind.bind_lunit 2
    by (auto split: option.splits)
  have "data_ok (assign_data d0 clip)" using ok c data_okD by (auto simp: clips_ok_def)
  then have d1: "data_ok d1" and s1: "\<exists>m. s1 = s\<lparr>delayGetters := m\<rparr> \<and> (\<forall>v g. map_of m v = Some g \<longrightarrow> map_of (delayGetters s) v = Some g)"
    using delay_part[OF ok _ 1] by blast+
  then obtain m where m: "s1 = s\<lparr>delayGetters := m\<rparr>" "\<forall>v g. map_of m v = Some g \<longrightarrow> map_of (delayGetters s) v = Some g" by blast
  have d2: "data_ok d2" by (rule record_part[OF ok d1 _ 2]) (simp add: m)
  obtain tc where tc: "s' = UpdateClipOnRead V ?u (SetBundleInfo (ai_bundleName a) (ai_appIndex a) d2)
      (prop_bundleName (pd_props clip)) t tc s1" using 3 t by (auto simp: m)
  let ?d3 = "SetBundleInfo (ai_bundleName a) (ai_appIndex a) d2"
  obtain cl outs where s': "s' = s1\<lparr>clips := cl, outputs := outs\<rparr>" and
    cl: "\<forall>v. map_of cl v = map_of (clips s1) v \<or> map_of (clips s1) v \<noteq> None \<and> map_of cl v = Some (copy_data (sv_params V) ?d3)"
    using UpdateClipOnRead_effect[of ?d3 V ?u "prop_bundleName (pd_props clip)" t tc s1] d2 unfolding tc by auto
  have d3: "data_ok (copy_data (sv_params V) ?d3)" using d2 data_okD[of d2] by (simp add: SetBundleInfo_def)
  have "s' = s\<lparr>delayGetters := m, clips := cl, outputs := outs\<rparr>" by (simp add: s' m(1))
  moreover have "clips_ok s'"
  proof -
    have "data_ok x" if "map_of cl v = Some x" for v x
      using cl[rule_format, of v] that d3 ok by (auto simp: m clips_ok_def)
    then show ?thesis using ok m(2) unfolding clips_ok_def s' m(1) by simp blast
  qed
  moreover have "dom (map_of cl) = dom (map_of (clips s))"
  proof (intro set_eqI)
    show "v \<in> dom (map_of cl) \<longleftrightarrow> v \<in> dom (map_of (clips s))" for v
      using cl[rule_format, of v] by (elim disjE) (simp_all add: m domIff)
  qed
  ultimately show ?thesis by blast
qed

section \<open>The queries agree with a paste\<close>

lemma tokenId_GetAppInfo [simp]: "ai_tokenId (GetAppInfo V t) = t"
  by (simp add: GetAppInfo_def FillHapAppInfo_def FillNativeAppInfo_def Let_def split: option.split)

lemma IsDataValid_aged: "IsDataValid d t u s = E_OK \<Longrightarrow> u \<noteq> ERROR_USERID \<and> map_of (copyTime s) u \<noteq> None"
  by (auto simp: IsDataValid_def IsDataAged_def CM_Find_def err_defs split: if_splits option.splits)

lemma GetLocalData_ok_iff:
  assumes "clips_ok s"
  shows "(\<exists>d s'. GetLocalData V a d0 s = Some (E_OK, d, s')) \<longleftrightarrow>
    (\<exists>clip. map_of (clips s) (ai_userId a) = Some clip \<and> IsDataValid clip (ai_tokenId a) (ai_userId a) s = E_OK)"
proof
  have n: "NO_DATA_ERROR \<noteq> E_OK" by (simp add: err_defs)
  assume "\<exists>d s'. GetLocalData V a d0 s = Some (E_OK, d, s')"
  with n show "\<exists>clip. map_of (clips s) (ai_userId a) = Some clip \<and> IsDataValid clip (ai_tokenId a) (ai_userId a) s = E_OK"
    by (auto simp: GetLocalData_def Let_def split: option.splits if_splits)
next
  let ?u = "ai_userId a"
  assume "\<exists>clip. map_of (clips s) ?u = Some clip \<and> IsDataValid clip (ai_tokenId a) ?u s = E_OK"
  then obtain clip where c: "map_of (clips s) ?u = Some clip" and v: "IsDataValid clip (ai_tokenId a) ?u s = E_OK" by blast
  obtain t where t: "map_of (copyTime s) ?u = Some t" using IsDataValid_aged[OF v] by blast
  obtain ret d s' where r: "GetLocalData V a d0 s = Some (ret, d, s')"
    using GetLocalData_defined[of s V a d0] assms by (auto simp: clips_ok_def)
  obtain d1 s1 where 1: "(if pd_isDelayData clip then GetDelayPasteData V ?u (assign_data d0 clip) s else Some (assign_data d0 clip, s)) = Some (d1, s1)"
    using r unfolding GetLocalData_def Let_def c t v option.case prod.case by (auto split: Option.bind_splits)
  have "data_ok (assign_data d0 clip)" using assms c data_okD by (auto simp: clips_ok_def)
  then have "copyTime s1 = copyTime s" using delay_part[OF assms _ 1] by auto
  then have "ret = E_OK" using r unfolding GetLocalData_def Let_def c t v option.case prod.case 1 bind.bind_lunit
    by (auto simp: t split: Option.bind_splits)
  with r show "\<exists>d s'. GetLocalData V a d0 s = Some (E_OK, d, s')" by blast
qed

lemma text_sizes_defined:
  assumes "data_ok d" shows "\<exists>sz. text_sizes E (pd_records d) z = Some sz"
proof -
  have "\<exists>sz. text_sizes E rs z = Some sz" if "\<forall>p \<in> set rs. \<exists>r. p = Some r \<and> no_null_objects r" for rs
    using that
  proof (induction rs arbitrary: z)
    case (Cons p rs)
    then obtain r where r: "p = Some r" "no_null_objects r" by auto
    obtain a b where "GetPlainTextV0 E r = Some a" "GetHtmlTextV0 E r = Some b" using getters_defined(1,2)[OF r(2)] by blast
    with Cons r(1) show ?case by (cases z) simp
  qed simp
  then show ?thesis using assms by (simp add: data_ok_def)
qed

text \<open>C5: The queries about the clip agree with each other and with a paste. Unless another device
  offers a newer clip, \<open>HasPasteData\<close> answers true exactly if a paste of the same application
  would succeed; the mime types reported are then those of the clip and otherwise none;
  \<open>HasLocalDataType\<close> answers true exactly for the reported types; and \<open>GetPasteDataInfo\<close>
  succeeds exactly if \<open>HasPasteData\<close> does, with the same types. None of them meets a null
  pointer.\<close>

theorem queries_agree:
  assumes "clips_ok s" and "u = ai_userId (GetAppInfo V (c_tokenId c))"
    and "GetScreenStatus u s = ScreenUnlocked \<longrightarrow> fst (GetValidDistributeEvent V u s) \<noteq> E_OK"
  shows "HasPasteData V c s = (\<exists>d s'. GetLocalData V (GetAppInfo V (c_tokenId c)) d0 s = Some (E_OK, d, s')) \<and>
    (\<exists>types. GetLocalMimeTypes V c s = Some types \<and> (\<forall>ty. HasLocalDataType ty (c_tokenId c) u s = Some (ty \<in> set types)) \<and>
      (if HasPasteData V c s then map_option GetMimeTypes (map_of (clips s) u) = Some (Some types) else types = []) \<and>
      (\<exists>ret i. GetPasteDataInfo V c info s = Some (ret, i) \<and> (ret = ERR_OK) = HasPasteData V c s \<and>
        (ret = ERR_OK \<longrightarrow> pdi_mimeTypes i = types)))"
proof -
  have has: "HasPasteData V c s \<longleftrightarrow> (\<exists>clip. map_of (clips s) u = Some clip \<and> IsDataValid clip (c_tokenId c) u s = E_OK)"
    using assms(2,3) IsDataValid_aged[of _ "c_tokenId c" u s]
    by (auto simp: HasPasteData_def Let_def split: option.splits)
  then have 1: "HasPasteData V c s = (\<exists>d s'. GetLocalData V (GetAppInfo V (c_tokenId c)) d0 s = Some (E_OK, d, s'))"
    using GetLocalData_ok_iff[OF assms(1), of V "GetAppInfo V (c_tokenId c)" d0] assms(2) by simp
  have z: "IsDataValid d t u s = 0 \<Longrightarrow> False" for d t
    by (auto simp: IsDataValid_def err_defs err_base_def Let_def split: if_splits)
  show ?thesis
  proof (cases "HasPasteData V c s")
    case True
    then obtain clip where c: "map_of (clips s) u = Some clip" "IsDataValid clip (c_tokenId c) u s = E_OK" using has by blast
    then have ok: "data_ok clip" using assms(1) by (auto simp: clips_ok_def)
    obtain types where ty: "GetMimeTypes clip = Some types" using GetMimeTypes_defined[OF ok] by blast
    have scr: "\<not> sint (prop_screenStatus (pd_props clip)) > sint (GetScreenStatus u s)"
      using c(2) by (auto simp: IsDataValid_def err_defs split: if_splits)
    obtain sz where sz: "text_sizes (sv_ext V) (pd_records clip) (0, 0) = Some sz"
      using text_sizes_defined[OF ok] by blast
    show ?thesis using 1 True c ty scr sz assms(2)
      by (simp add: GetLocalMimeTypes_def HasLocalDataType_def GetPasteDataInfo_def Let_def split: prod.split)
  next
    case False
    then have no: "map_of (clips s) u = Some clip \<Longrightarrow> IsDataValid clip (c_tokenId c) u s \<noteq> E_OK" for clip using has by blast
    have nd: "NO_DATA_ERROR \<noteq> ERR_OK" by (simp add: err_defs err_base_def ERR_OK_def)
    show ?thesis using 1 False no z nd assms(2)
      by (cases "map_of (clips s) u") (auto simp: GetLocalMimeTypes_def HasLocalDataType_def GetPasteDataInfo_def Let_def ERR_OK_def)
  qed
qed

definition sample_clip_state :: service where
  "sample_clip_state = init_state\<lparr>clips := [(100, sample_copy)], copyTime := [(100, 1)]\<rparr>"

theorem queries_agree_witness:
  "clips_ok sample_clip_state \<and> HasPasteData sample_env sample_app sample_clip_state \<and>
   (\<exists>d s'. GetLocalData sample_env (GetAppInfo sample_env 7) (new_data sample_params 9) sample_clip_state = Some (E_OK, d, s'))"
proof -
  have ok: "clips_ok sample_clip_state"
    using sample_copy_ok by (simp add: clips_ok_def sample_clip_state_def init_state_def)
  have u: "ai_userId (GetAppInfo sample_env (c_tokenId sample_app)) = 100" by (simp add: sample_user sample_app_def)
  have "GetScreenStatus 100 sample_clip_state \<noteq> ScreenUnlocked"
    by (simp add: GetScreenStatus_def CM_Find_def sample_clip_state_def init_state_def ScreenUnlocked_def)
  then have a: "HasPasteData sample_env sample_app sample_clip_state =
      (\<exists>d s'. GetLocalData sample_env (GetAppInfo sample_env (c_tokenId sample_app)) (new_data sample_params 9) sample_clip_state = Some (E_OK, d, s'))"
    using queries_agree[OF ok u[symmetric]] by blast
  have "HasPasteData sample_env sample_app sample_clip_state"
    unfolding HasPasteData_def Let_def u
    by (simp add: sample_clip_state_def init_state_def IsDataValid_def IsDataAged_def GetScreenStatus_def CM_Find_def
        ERROR_USERID_def sample_copy_def new_data_def new_props_def Let_def InApp_def LocalDevice_def CrossDevice_def)
  with a ok show ?thesis by (simp add: sample_app_def)
qed

section \<open>The service as a step relation\<close>

text \<open>
  One step is one request, one firing of a timer or one event of the system. What the getters of
  the clients return is decoded from a message, so it holds no null pointers.
\<close>

inductive svc_step :: "service \<Rightarrow> service \<Rightarrow> bool" where
  copy: "SetPasteData V c m n buf dg eg s = Some (ret, s') \<Longrightarrow> (\<forall>g x. dg = Some g \<longrightarrow> data_ok (g x)) \<Longrightarrow> getter_ok eg
    \<Longrightarrow> svc_step s s'"
| paste: "GetLocalData V a d0 s = Some (ret, d, s') \<Longrightarrow> svc_step s s'"
| clear: "svc_step s (snd (Clear V c s))"
| clear_user: "svc_step s (snd (ClearByUser V c u s))"
| clear_event: "svc_step s (snd (ClearByEventUser V self u s))"
| clear_resolved: "svc_step s (ClearByResolvedUser V u s)"
| expiration: "u \<in> set (timers s) \<Longrightarrow> svc_step s (expire u s)"
| critical: "criticalTimer s \<Longrightarrow> svc_step s (critical_task s)"
| memory_manager: "svc_step s (SetCriticalTimer s)"
| delay_died: "svc_step s (NotifyDelayGetterDied u s)"
| entry_died: "svc_step s (NotifyEntryGetterDied u s)"
| locked: "svc_step s (HandleScreenLocked u s)"
| unlocked: "svc_step s (HandleScreenUnlocked u s)"
| wifi_off: "svc_step s (HandleWifiOffAndClearDistributedEvent V on u s)"
| share: "svc_step s (s\<lparr>globalShareOptions := share_step uid req (globalShareOptions s)\<rparr>)"
| observe: "svc_step s (s\<lparr>observers := observer_step uid ime oreq (observers s)\<rparr>)"

inductive reachable :: "service \<Rightarrow> bool" where
  start: "reachable (init_state\<lparr>screenStatusMap := scr\<rparr>)"
| step: "reachable s \<Longrightarrow> svc_step s s' \<Longrightarrow> reachable s'"

definition svc_inv :: "service \<Rightarrow> bool" where
  "svc_inv s \<longleftrightarrow> \<not> setting s \<and> clips_ok s
     \<and> dom (map_of (clips s)) \<subseteq> set (timers s)
     \<and> dom (map_of (copyTime s)) = set (timers s)
     \<and> set (timers s) \<subseteq> dom (map_of (clipChangeCount s))
     \<and> ERROR_USERID \<notin> set (timers s)
     \<and> (clips s \<noteq> [] \<longrightarrow> isCritical s)"

lemma work_iff: "HasActivePasteboardWork s \<longleftrightarrow> clips s \<noteq> []"
  by (cases "clips s") (auto simp: HasActivePasteboardWork_def CM_ForEachCopies_def)

lemma empty_iff_dom: "m = [] \<longleftrightarrow> dom (map_of m) = {}"
  by (cases m) auto

lemma inv_cong:
  assumes "svc_inv s" "clips s' = clips s" "copyTime s' = copyTime s" "timers s' = timers s"
    "clipChangeCount s' = clipChangeCount s" "setting s' = setting s" "isCritical s \<longrightarrow> isCritical s'"
    "\<forall>u g. map_of (delayGetters s') u = Some g \<longrightarrow> map_of (delayGetters s) u = Some g"
    "\<forall>u g. map_of (entryGetters s') u = Some g \<longrightarrow> map_of (entryGetters s) u = Some g"
  shows "svc_inv s'"
proof -
  have "clips_ok s" "isCritical s \<or> clips s = []" using assms(1) by (auto simp: svc_inv_def)
  then have "clips_ok s'" using assms(2,8,9) unfolding clips_ok_def by metis
  then show ?thesis using assms(1-7) unfolding svc_inv_def by simp
qed

lemma inv_quiet:
  assumes "svc_inv s" "quiet s s'" "isCritical s \<longrightarrow> isCritical s'" shows "svc_inv s'"
  by (rule inv_cong[OF assms(1)]) (use assms(2,3) quiet_frame[OF assms(2)] in simp_all)

lemma inv_saved:
  assumes "svc_inv s" "isCritical s" "saved_from V c dg eg s s'" "\<forall>g x. dg = Some g \<longrightarrow> data_ok (g x)" "getter_ok eg"
  shows "svc_inv s'"
proof -
  obtain u d t where u: "u \<noteq> ERROR_USERID" and d: "data_ok d"
    and t: "stored V c u dg eg d (s\<lparr>setting := True, dataId := dataId s + 1\<rparr>) t" and s': "s' = t\<lparr>outputs := outputs s'\<rparr>"
    using assms(3) unfolding saved_from_def by blast
  have f: "clips s' = clips t" "copyTime s' = copyTime t" "timers s' = timers t" "clipChangeCount s' = clipChangeCount t"
    "delayGetters s' = delayGetters t" "entryGetters s' = entryGetters t" "setting s' = setting t" "isCritical s' = isCritical t"
    by (subst s', simp)+
  have st: "map_of (clips t) = (map_of (clips s))(u \<mapsto> copy_data (sv_params V) d)"
    "map_of (copyTime t) = (map_of (copyTime s))(u \<mapsto> ucast (GetBootTimeMs V))" "timers t = List.insert u (timers s)"
    "map_of (clipChangeCount t) = (map_of (clipChangeCount s))(u \<mapsto> next_count (map_of (clipChangeCount s) u))"
    "map_of (delayGetters t) = (map_of (delayGetters s))(u := if pd_isDelayData d then dg else None)"
    "map_of (entryGetters t) = (map_of (entryGetters s))(u := if pd_isDelayRecord d then eg else None)" "\<not> setting t"
    using t unfolding stored_def by auto
  have "data_ok (copy_data (sv_params V) d)" using data_okD[OF d] by simp
  then have "clips_ok s'" using assms(1,4,5) unfolding svc_inv_def clips_ok_def f st by (auto split: if_splits)
  moreover have "isCritical t" using stored_frame(2)[OF t] assms(2) by simp
  ultimately show ?thesis using assms(1) u st(7) unfolding svc_inv_def f st by auto
qed

lemma inv_copy:
  assumes "svc_inv s" "SetPasteData V c m n buf dg eg s = Some (ret, s')" "\<forall>g x. dg = Some g \<longrightarrow> data_ok (g x)" "getter_ok eg"
  shows "svc_inv s'"
proof -
  have ns: "\<not> setting s" using assms(1) by (simp add: svc_inv_def)
  have f: "if sint (shm_fd m) < 0 then ret = INVALID_PARAM_ERROR \<and> s' = s
      else isCritical s' \<and> closed_fds (outputs s') = closed_fds (outputs s) @ [shm_fd m]"
    and q: "quiet s s' \<or> ret = ERR_OK \<and> (\<exists>t. quiet s t \<and> isCritical t \<and> saved_from V c dg eg t s')"
    using SetPasteData_effect[OF ns, of V c m n buf dg eg] assms(2) by auto
  from q show ?thesis
  proof
    assume "quiet s s'"
    then show ?thesis using f by (intro inv_quiet[OF assms(1)]) (auto split: if_splits)
  next
    assume "ret = ERR_OK \<and> (\<exists>t. quiet s t \<and> isCritical t \<and> saved_from V c dg eg t s')"
    then obtain t where t: "quiet s t" "isCritical t" "saved_from V c dg eg t s'" by blast
    show ?thesis using inv_saved[OF inv_quiet[OF assms(1) t(1)] t(2,3) assms(3,4)] t(2) by simp
  qed
qed

lemma inv_paste:
  assumes "svc_inv s" "GetLocalData V a d0 s = Some (ret, d, s')" shows "svc_inv s'"
proof -
  have "clips_ok s" using assms(1) by (simp add: svc_inv_def)
  then obtain m cl outs where s': "s' = s\<lparr>delayGetters := m, clips := cl, outputs := outs\<rparr>" and ok: "clips_ok s'"
    and dm: "dom (map_of cl) = dom (map_of (clips s))" using GetLocalData_effect[OF assms(2)] by blast
  have "cl \<noteq> [] \<longleftrightarrow> clips s \<noteq> []" using dm by (metis empty_iff_dom)
  then show ?thesis using assms(1) ok dm by (simp add: svc_inv_def s')
qed

lemma inv_drop_clip:
  assumes "svc_inv s" shows "svc_inv (s\<lparr>clips := snd (CM_Erase u (clips s)), delayDataId := 0, delayTokenId := 0\<rparr>)"
proof -
  have "snd (CM_Erase u (clips s)) \<noteq> [] \<longrightarrow> clips s \<noteq> []" by (auto simp: CM_Erase_def)
  then show ?thesis using assms by (auto simp: svc_inv_def clips_ok_def lookup_ops split: if_splits)
qed

lemma inv_outputs: "svc_inv s \<Longrightarrow> svc_inv (s\<lparr>outputs := outs\<rparr>)"
  by (simp add: svc_inv_def clips_ok_def)

lemma CleanDistributedData_eq: "\<exists>outs. CleanDistributedData V u s = s\<lparr>outputs := outs\<rparr>"
proof (cases "IsCallerOnMainDisplay V u \<and> has_plugin V")
  case False
  then have "CleanDistributedData V u s = s\<lparr>outputs := outputs s\<rparr>" by (auto simp: CleanDistributedData_def)
  then show ?thesis by blast
qed (auto simp: CleanDistributedData_def emit_eq)

lemma inv_CancelCriticalTimer: "svc_inv s \<Longrightarrow> clips s = [] \<Longrightarrow> svc_inv (CancelCriticalTimer s)"
  by (simp add: svc_inv_def clips_ok_def CancelCriticalTimer_def)

lemma inv_ClearInner:
  assumes "svc_inv s" shows "svc_inv (snd (ClearInner V u a s))"
proof -
  define s1 where "s1 = (if CM_Contains u (clips s)
    then s\<lparr>clips := snd (CM_Erase u (clips s)), delayDataId := 0, delayTokenId := 0\<rparr> else s)"
  have "svc_inv s1" using inv_drop_clip[OF assms] assms by (simp add: s1_def)
  then have s2: "svc_inv (CleanDistributedData V u s1)" using CleanDistributedData_eq inv_outputs by metis
  then have "svc_inv (notify b u PASTEBOARD_CLEAR (CleanDistributedData V u s1))" for b using notify_eq inv_outputs by metis
  with s2 have s3: "svc_inv (if CM_Contains u (clips s) then notify (GetAppBundleName a) u PASTEBOARD_CLEAR (CleanDistributedData V u s1)
      else CleanDistributedData V u s1)" (is "svc_inv ?s3") by simp
  have "snd (ClearInner V u a s) = (if clips ?s3 = [] then CancelCriticalTimer ?s3 else ?s3)"
    by (simp add: ClearInner_def Let_def work_iff s1_def)
  then show ?thesis using s3 inv_CancelCriticalTimer[OF s3] by simp
qed

lemma inv_expire:
  assumes "svc_inv s" shows "svc_inv (expire u s)"
proof -
  define cl where "cl = (if CM_Contains u (clips s) then snd (CM_Erase u (clips s)) else clips s)"
  have cl: "map_of cl = (map_of (clips s))(u := None)" by (auto simp: cl_def lookup_ops CM_Contains_def fun_eq_iff)
  define s1 where "s1 = ClearAgedData u (s\<lparr>timers := removeAll u (timers s)\<rparr>)"
  have f: "clips s1 = cl" "map_of (copyTime s1) = (map_of (copyTime s))(u := None)" "timers s1 = removeAll u (timers s)"
    "setting s1 = setting s" "delayGetters s1 = delayGetters s" "entryGetters s1 = entryGetters s"
    "clipChangeCount s1 = clipChangeCount s" "isCritical s1 \<longleftrightarrow> cl \<noteq> []"
    by (auto simp: s1_def ClearAgedData_def RefreshCriticalState_def Let_def work_iff cl_def lookup_ops)
  show ?thesis unfolding expire_def s1_def[symmetric] using assms
    unfolding svc_inv_def clips_ok_def f cl by (auto split: if_splits)
qed

lemma inv_step: "svc_step s s' \<Longrightarrow> svc_inv s \<Longrightarrow> svc_inv s'"
proof (induction rule: svc_step.induct)
  case (copy V c m n buf dg eg s ret s') then show ?case by (blast intro: inv_copy)
next
  case (paste V a d0 s ret d s') then show ?case by (blast intro: inv_paste)
next
  case (clear s V c) then show ?case by (simp add: Clear_def Let_def inv_ClearInner)
next
  case (clear_user s V c u) then show ?case by (simp add: ClearByUser_def Let_def inv_ClearInner)
next
  case (clear_event s V self u) then show ?case by (simp add: ClearByEventUser_def inv_ClearInner)
next
  case (clear_resolved s V u) then show ?case by (simp add: ClearByResolvedUser_def inv_ClearInner)
next
  case (expiration u s) then show ?case by (simp add: inv_expire)
next
  case (critical s) then show ?case by (auto simp: critical_task_def Let_def work_iff svc_inv_def clips_ok_def)
next
  case (memory_manager s) then show ?case using quiet_SetCriticalTimer[of s] inv_quiet by blast
next
  case (delay_died s u) then show ?case
    by (auto simp: NotifyDelayGetterDied_def svc_inv_def clips_ok_def lookup_ops split: if_splits)
next
  case (entry_died s u) then show ?case
    by (auto simp: NotifyEntryGetterDied_def svc_inv_def clips_ok_def lookup_ops split: if_splits)
next
  case (locked s u) then show ?case by (auto simp: HandleScreenLocked_def svc_inv_def clips_ok_def split: option.split)
next
  case (unlocked s u) then show ?case by (auto simp: HandleScreenUnlocked_def svc_inv_def clips_ok_def split: option.split)
next
  case (wifi_off s V on u) then show ?case using CleanDistributedData_eq[of V u s] inv_outputs[of s]
    by (auto simp: HandleWifiOffAndClearDistributedEvent_def)
next
  case (share s uid req) then show ?case by (simp add: svc_inv_def clips_ok_def)
next
  case (observe s uid ime oreq) then show ?case by (simp add: svc_inv_def clips_ok_def)
qed



end
