(* ===== verification/Mime_Types.thy ===== *)
theory Mime_Types
  imports Prelude
begin

text \<open>
  \<open>EncodeMimeTypes\<close> and \<open>DecodeMimeTypes\<close> of \<open>pasteboard_service.cpp\<close>: the list of mime types a
  device announces, each with a two-byte little-endian length, in at most \<open>MAX_TRANSFER_SIZE\<close>
  bytes.
\<close>

unbundle bit_operations_syntax

definition MAX_TRANSFER_SIZE :: nat where "MAX_TRANSFER_SIZE = 1300"
definition UINT16_MAX :: nat where "UINT16_MAX = 65535"

fun encode_loop :: "string list \<Rightarrow> byte list \<Rightarrow> byte list" where
  "encode_loop [] res = res"
| "encode_loop (mimeType # mimeTypes) res =
     (let len = length mimeType in
      if len > UINT16_MAX then encode_loop mimeTypes res
      else if length res + len + 2 > MAX_TRANSFER_SIZE then res
      else encode_loop mimeTypes (res @ [word_of_nat (and len 255), word_of_nat (and (drop_bit 8 len) 255)] @ str_bytes mimeType))"

definition EncodeMimeTypes :: "string list \<Rightarrow> byte list" where
  "EncodeMimeTypes mimeTypes = encode_loop mimeTypes []"

text \<open>The loop of the decoder, from \<open>index\<close>.\<close>

function decode_loop :: "byte list \<Rightarrow> nat \<Rightarrow> string list \<Rightarrow> string list" where
  "decode_loop rawData index mimeTypes =
     (if index + 2 \<le> length rawData then
        (let len = (ucast (rawData ! index) OR push_bit 8 (ucast (rawData ! (index + 1))) :: u16);
             i = index + 2
         in if i + unat len > length rawData then mimeTypes
            else decode_loop rawData (i + unat len) (mimeTypes @ [bytes_str (take (unat len) (drop i rawData))]))
      else mimeTypes)"
  by auto
termination
  by (relation "measure (\<lambda>(rawData, index, _). length rawData - index)") auto

declare decode_loop.simps [simp del]

definition DecodeMimeTypes :: "byte list \<Rightarrow> string list" where
  "DecodeMimeTypes rawData = decode_loop rawData 0 []"

section \<open>The round trip\<close>

text \<open>The types that are announced: those too long for the length field are left out, and the first
  that does not fit ends the list. \<open>room\<close> is what is left of the message.\<close>

fun announced :: "nat \<Rightarrow> string list \<Rightarrow> string list" where
  "announced room [] = []"
| "announced room (t # ts) =
     (if length t > UINT16_MAX then announced room ts
      else if length t + 2 > room then []
      else t # announced (room - (length t + 2)) ts)"

definition frame :: "string \<Rightarrow> byte list" where
  "frame t = le_bytes 2 (length t) @ str_bytes t"

lemma length_frame [simp]: "length (frame t) = length t + 2"
  by (simp add: frame_def)

lemma head_bytes:
  "[word_of_nat (and n 255), word_of_nat (and (drop_bit 8 n) 255)] = (le_bytes 2 n :: byte list)"
proof -
  have m: "and k 255 = k mod 256" for k :: nat
    using take_bit_eq_mask[of 8 k] by (simp add: mask_eq_exp_minus_1 take_bit_eq_mod)
  have "drop_bit 8 n = n div 256" by (simp add: drop_bit_eq_div)
  then show ?thesis by (simp add: m numeral_2_eq_2)
qed

lemma head_value:
  assumes "n \<le> UINT16_MAX"
  shows "unat (ucast (word_of_nat (n mod 256) :: byte) OR push_bit 8 (ucast (word_of_nat (n div 256) :: byte)) :: u16) = n"
proof -
  have b: "unat (word_of_nat (n mod 256) :: byte) = n mod 256" "unat (word_of_nat (n div 256) :: byte) = n div 256"
    using assms by (simp_all add: unat_of_nat take_bit_eq_mod UINT16_MAX_def)
  have u: "unat (ucast x :: u16) = unat x" for x :: byte
    using unsigned_less[where ?'a = nat, of x] by (simp add: unsigned_ucast_eq take_bit_eq_mod)
  have p: "unat (push_bit 8 (ucast x :: u16)) = unat x * 256" for x :: byte
    unfolding unsigned_push_bit_eq using unsigned_less[where ?'a = nat, of x]
    by (simp add: u push_bit_eq_mult take_bit_eq_mod)
  have d: "and (n mod 256) (n div 256 * 256) = 0"
  proof (rule bit_eqI)
    fix k
    show "bit (and (n mod 256) (n div 256 * 256)) k = bit 0 k"
      using bit_take_bit_iff[of 8 n k] bit_push_bit_iff[of 8 "n div 256" k]
      by (auto simp: bit_and_iff take_bit_eq_mod push_bit_eq_mult)
  qed
  have "unat (ucast (word_of_nat (n mod 256) :: byte) OR push_bit 8 (ucast (word_of_nat (n div 256) :: byte)) :: u16)
      = or (n mod 256) (n div 256 * 256)"
    unfolding unsigned_or_eq p u b ..
  also have "\<dots> = n mod 256 + n div 256 * 256" using d by (simp add: disjunctive_add_eq_or)
  finally show ?thesis by simp
qed

lemma encode_loop_frames:
  "encode_loop ts res = res @ concat (map frame (announced (MAX_TRANSFER_SIZE - length res) ts))"
proof (induction ts arbitrary: res)
  case (Cons t ts)
  have "length res + length t + 2 > MAX_TRANSFER_SIZE \<longleftrightarrow> length t + 2 > MAX_TRANSFER_SIZE - length res" by linarith
  then show ?case using Cons by (simp add: Let_def frame_def head_bytes)
qed simp

lemma decode_frames:
  "\<forall>t \<in> set ts. length t \<le> UINT16_MAX \<Longrightarrow> decode_loop (pre @ concat (map frame ts)) (length pre) acc = acc @ ts"
proof (induction ts arbitrary: pre acc)
  case Nil
  show ?case by (subst decode_loop.simps) simp
next
  case (Cons t ts)
  let ?raw = "pre @ concat (map frame (t # ts))"
  have len: "length t \<le> UINT16_MAX" and rest: "\<forall>t \<in> set ts. length t \<le> UINT16_MAX" using Cons.prems by simp_all
  have raw: "?raw = pre @ word_of_nat (length t mod 256) # word_of_nat (length t div 256 mod 256) # str_bytes t @ concat (map frame ts)"
    by (simp add: frame_def numeral_2_eq_2)
  have m: "length t div 256 mod 256 = length t div 256" using len by (simp add: UINT16_MAX_def)
  have b: "?raw ! length pre = word_of_nat (length t mod 256)" "?raw ! (length pre + 1) = word_of_nat (length t div 256)"
    unfolding raw m by (simp_all add: nth_append)
  have body: "take (length t) (drop (length pre + 2) ?raw) = str_bytes t" unfolding raw by simp
  have "decode_loop ?raw (length pre) acc = decode_loop ?raw (length pre + 2 + length t) (acc @ [t])"
    using head_value[OF len] body by (subst decode_loop.simps) (simp add: Let_def b[simplified])
  also have "\<dots> = decode_loop ((pre @ frame t) @ concat (map frame ts)) (length (pre @ frame t)) (acc @ [t])" by (simp add: add_ac)
  also have "\<dots> = acc @ t # ts" using Cons.IH[OF rest, of "pre @ frame t"] by simp
  finally show ?case .
qed

lemma announced_short: "t \<in> set (announced room ts) \<Longrightarrow> length t \<le> UINT16_MAX"
  by (induction room ts rule: announced.induct) (auto split: if_splits)

lemma announced_all:
  "\<forall>t \<in> set ts. length t \<le> UINT16_MAX \<Longrightarrow> sum_list (map (\<lambda>t. length t + 2) ts) \<le> room \<Longrightarrow> announced room ts = ts"
  by (induction ts arbitrary: room) auto

lemma length_frames: "length (concat (map frame (announced room ts))) \<le> room"
  by (induction room ts rule: announced.induct) auto

lemma encode_frames: "EncodeMimeTypes types = concat (map frame (announced MAX_TRANSFER_SIZE types))"
  by (simp add: EncodeMimeTypes_def encode_loop_frames)

lemma mime_types_decoded: "DecodeMimeTypes (EncodeMimeTypes types) = announced MAX_TRANSFER_SIZE types"
  unfolding encode_frames DecodeMimeTypes_def
  using decode_frames[of "announced MAX_TRANSFER_SIZE types" "[]" "[]"] announced_short by simp

text \<open>The mime types another device receives. Decoding what \<open>EncodeMimeTypes\<close> produces gives
  the announced types in their order: all of them when none is longer than the length field
  allows and they fit the message with their length fields, and otherwise the longest prefix
  that fits of those that are short enough. The message never exceeds the transfer size.\<close>

theorem mime_types_roundtrip:
  "DecodeMimeTypes (EncodeMimeTypes types) = announced MAX_TRANSFER_SIZE types
   \<and> length (EncodeMimeTypes types) \<le> MAX_TRANSFER_SIZE
   \<and> ((\<forall>t \<in> set types. length t \<le> UINT16_MAX) \<and> sum_list (map (\<lambda>t. length t + 2) types) \<le> MAX_TRANSFER_SIZE
      \<longrightarrow> DecodeMimeTypes (EncodeMimeTypes types) = types)"
  unfolding mime_types_decoded using announced_all length_frames by (simp add: encode_frames)

theorem mime_types_roundtrip_witness:
  "DecodeMimeTypes (EncodeMimeTypes [''text/plain'', [], ''text/html'']) = [''text/plain'', [], ''text/html'']"
  using mime_types_roundtrip[of "[''text/plain'', [], ''text/html'']"]
  by (simp add: UINT16_MAX_def MAX_TRANSFER_SIZE_def)

end
