(* ===== verification/Uri_Grant.thy ===== *)
theory Uri_Grant
  imports Service_Paste
begin

text \<open>
  The URIs of a clip, as the pasteboard service hands them to the application that pastes
  (\<open>services/core/src/pasteboard_service.cpp\<close>): which URIs may be granted, the grants in batches,
  the distributed URIs of a clip that leaves the device, and the removal of the URIs of an
  application that is uninstalled. The URI permission manager and the distributed file system are
  the record \<open>grant_env\<close>; the grants that are made are the list \<open>grant_calls\<close>, each with the answer.
\<close>

record grant_env =
  GrantUriPermissionPrivileged :: "uri list \<Rightarrow> u32 \<Rightarrow> string \<Rightarrow> i32 \<Rightarrow> i32"
  GrantUriPermission_client :: "uri list \<Rightarrow> u32 \<Rightarrow> u32 \<Rightarrow> u32 \<Rightarrow> i32"
  GetDfsUrisDirFromLocal :: "string list \<Rightarrow> i32 \<Rightarrow> i32 \<times> (string \<rightharpoonup> string \<times> u64)"
    \<comment> \<open>the distributed URI and the size of the file\<close>

datatype grant_call =
    Privileged (uris_of: "uri list") (flag_of: u32) string i32
  | ToToken (uris_of: "uri list") (flag_of: u32) u32 u32

record grants =
  grant_calls :: "(grant_call \<times> i32) list"
  readBundles :: "u32 list"

section \<open>Which URIs may be granted\<close>

definition IsBundleOwnUriPermission :: "web_env \<Rightarrow> string \<Rightarrow> uri \<Rightarrow> bool" where
  "IsBundleOwnUriPermission W bundleName u \<longleftrightarrow> bundleName = GetAuthority W u"

text \<open>The body of the loop of \<open>CheckUriPermission\<close>: a distributed URI that was made on this device is
  dropped, the URI of the record is chosen, and the record at \<open>i\<close> contributes it to one of the lists.\<close>

definition drop_local_uri :: "PasteDataRecord \<Rightarrow> PasteDataRecord" where
  "drop_local_uri item = (if \<not> rec_isConvertUriFromRemote item \<and> rec_convertUri item \<noteq> []
     then item\<lparr>rec_convertUri := []\<rparr> else item)"

definition paste_uri :: "ext \<Rightarrow> PasteDataRecord \<Rightarrow> uri option run" where
  "paste_uri E item =
     (if rec_isConvertUriFromRemote item \<and> rec_convertUri item \<noteq> [] then Some (Some (mk_uri E (rec_convertUri item)))
      else if \<not> rec_isConvertUriFromRemote item then GetOriginUri E item
      else Some None)"

definition check_uri_step :: "ext \<Rightarrow> web_env \<Rightarrow> string \<times> i32 \<Rightarrow> nat \<Rightarrow>
    PasteData \<times> uri list \<times> uri list \<Rightarrow> (PasteData \<times> uri list \<times> uri list) run" where
  "check_uri_step E W target i s = (case s of (d, readUris, writeUris) \<Rightarrow>
     (case GetRecordAt i d of
        None \<Rightarrow> Some s
      | Some item0 \<Rightarrow>
          if \<not> prop_isRemote (pd_props d) \<and> target = pd_originAuthority d then Some s
          else do {
            let item = drop_local_uri item0;
            let d1 = set_record i item d;
            u \<leftarrow> paste_uri E item;
            case u of
              None \<Rightarrow> Some (d1, readUris, writeUris)
            | Some v \<Rightarrow>
                if \<not> IsBundleOwnUriPermission W (fst (pd_originAuthority d)) v \<and> \<not> rec_hasGrantUriPermission item
                then Some (d1, readUris, writeUris)
                else if prop_isRemote (pd_props d) then Some (d1, readUris @ [v], writeUris)
                else if rec_uriPermission item = READ_PERMISSION W then Some (d1, readUris @ [v], writeUris)
                else if rec_uriPermission item = READ_WRITE_PERMISSION W then Some (d1, readUris, writeUris @ [v])
                else Some (d1, readUris, writeUris)
          }))"

definition CheckUriPermission :: "ext \<Rightarrow> web_env \<Rightarrow> string \<times> i32 \<Rightarrow> PasteData \<Rightarrow>
    ((u32 \<times> uri list) list \<times> PasteData) run" where
  "CheckUriPermission E W target d = do {
     (d1, readUris, writeUris) \<leftarrow> fold_run (check_uri_step E W target) [0..<length (pd_records d)] (d, [], []);
     Some (assign (READ_WRITE_PERMISSION W) writeUris (assign (READ_PERMISSION W) readUris []), d1)
   }"

section \<open>Granting them\<close>

definition RemoveInvalidRemoteUri :: "uri list \<Rightarrow> uri list" where
  "RemoveInvalidRemoteUri = filter (contains_str ''networkid='')"

definition FILEMANAGER_KEY :: string where "FILEMANAGER_KEY = ''filemanager''"
definition FILE_DOCS_URI_PREFIX :: string where "FILE_DOCS_URI_PREFIX = ''file://docs/''"
definition MAX_REMOTE_FILE_MANAGER_URI_COUNT :: nat where "MAX_REMOTE_FILE_MANAGER_URI_COUNT = 256"

definition IsFileManagerApp :: "caller \<Rightarrow> string \<Rightarrow> bool" where
  "IsFileManagerApp c bundleName \<longleftrightarrow>
     IsSystemAppByFullTokenID (c_fullTokenId c) \<and> contains_str FILEMANAGER_KEY bundleName"

definition StartWith :: "string \<Rightarrow> string \<Rightarrow> bool" where
  "StartWith str pre \<longleftrightarrow> (if length pre > length str then False else take (length pre) str = pre)"

definition CheckRemoteFileDocsUriLimit :: "caller \<Rightarrow> uri list \<Rightarrow> string \<Rightarrow> i32" where
  "CheckRemoteFileDocsUriLimit c grantUris bundleName =
     (if IsFileManagerApp c bundleName \<or> length grantUris \<le> MAX_REMOTE_FILE_MANAGER_URI_COUNT then E_OK
      else if list_ex (\<lambda>u. StartWith u FILE_DOCS_URI_PREFIX) grantUris then REMOTE_DATA_SIZE_EXCEEDED
      else E_OK)"

text \<open>The loop of \<open>GrantPermission\<close>: the calls with their answers, whether one was granted, and the
  last error.\<close>

function grant_loop :: "(uri list \<Rightarrow> grant_call) \<Rightarrow> (grant_call \<Rightarrow> i32) \<Rightarrow> uri list \<Rightarrow> bool \<Rightarrow> i32 \<Rightarrow>
    (grant_call \<times> i32) list \<times> bool \<times> i32" where
  "grant_loop mk ask uris hasGranted ret =
     (if uris = [] then ([], hasGranted, ret)
      else let call = mk (take URI_BATCH_SIZE uris);
               permissionCode = ask call
           in case grant_loop mk ask (drop URI_BATCH_SIZE uris) (hasGranted \<or> permissionCode = 0)
                     (if permissionCode = 0 then ret else permissionCode) of
                (calls, r) \<Rightarrow> ((call, permissionCode) # calls, r))"
  by auto
termination by (relation "measure (\<lambda>(_, _, uris, _). length uris)") (auto simp: URI_BATCH_SIZE_def)

declare grant_loop.simps [simp del]

definition GrantPermission :: "svc_env \<Rightarrow> grant_env \<Rightarrow> caller \<Rightarrow> uri list \<Rightarrow> u32 \<Rightarrow> bool \<Rightarrow> u32 \<Rightarrow>
    service \<Rightarrow> grants \<Rightarrow> i32 \<times> grants" where
  "GrantPermission V G c grantUris permFlag isRemoteData targetTokenId s g =
     (let appInfo = GetAppInfo V targetTokenId;
          srcTokenId = (case map_of (clips s) (ai_userId appInfo) of Some d \<Rightarrow> prop_tokenId (pd_props d) | None \<Rightarrow> 0) in
      if isRemoteData \<and> CheckRemoteFileDocsUriLimit c grantUris (ai_bundleName appInfo) \<noteq> E_OK then (0, g)
      else
        let mk = (\<lambda>us. if isRemoteData then Privileged us permFlag (ai_bundleName appInfo) (ai_appIndex appInfo)
                       else ToToken us permFlag targetTokenId srcTokenId);
            ask = (\<lambda>call. case call of
                     Privileged us f b i \<Rightarrow> GrantUriPermissionPrivileged G us f b i
                   | ToToken us f t src \<Rightarrow> GrantUriPermission_client G us f t src) in
        case grant_loop mk ask grantUris False 0 of
          (calls, hasGranted, ret) \<Rightarrow>
            (ret, g\<lparr>grant_calls := grant_calls g @ calls,
                    readBundles := (if hasGranted then List.insert targetTokenId (readBundles g) else readBundles g)\<rparr>))"

definition GrantUriPermission :: "svc_env \<Rightarrow> grant_env \<Rightarrow> caller \<Rightarrow> (u32 \<times> uri list) list \<Rightarrow> u32 \<Rightarrow> bool \<Rightarrow>
    service \<Rightarrow> grants \<Rightarrow> i32 \<times> grants" where
  "GrantUriPermission V G c grantUris targetTokenId isRemoteData s g =
     (let W = sv_web V;
          at = (\<lambda>k. case map_of grantUris k of Some us \<Rightarrow> us | None \<Rightarrow> []);
          readUris0 = at (READ_PERMISSION W); writeUris0 = at (READ_WRITE_PERMISSION W) in
      if readUris0 = [] \<and> writeUris0 = [] then (E_OK, g)
      else if c_uid c = ANCO_SERVICE_BROKER_UID then (E_OK, g)
      else
        let readUris = (if isRemoteData then RemoveInvalidRemoteUri readUris0 else readUris0);
            writeUris = (if isRemoteData then RemoveInvalidRemoteUri writeUris0 else writeUris0);
            (_, g1) = GrantPermission V G c readUris (READ_PERMISSION W) isRemoteData targetTokenId s g;
            permFlag = (if isRemoteData then READ_PERMISSION W else READ_WRITE_PERMISSION W);
            (_, g2) = GrantPermission V G c writeUris permFlag isRemoteData targetTokenId s g1
        in (E_OK, g2))"

section \<open>Distributed URIs\<close>

definition IsNeedLink :: "PasteData \<Rightarrow> bool" where
  "IsNeedLink d \<longleftrightarrow> list_ex (\<lambda>p. case p of
       None \<Rightarrow> False
     | Some r \<Rightarrow> rec_convertUri r \<noteq> [] \<and> contains_str ''networkid='' (rec_convertUri r)) (pd_records d)"

text \<open>The two loops of \<open>GenerateDistributedUri\<close>: the URIs to translate with the indices of their
  records, and the translated URIs with the size of their files.\<close>

definition collect_uri_step :: "ext \<Rightarrow> web_env \<Rightarrow> nat \<Rightarrow> PasteData \<times> (string \<times> nat) list \<Rightarrow>
    (PasteData \<times> (string \<times> nat) list) run" where
  "collect_uri_step E W i s = (case s of (d, uris) \<Rightarrow>
     (case GetRecordAt i d of
        None \<Rightarrow> Some s
      | Some item0 \<Rightarrow> do {
          let item = item0\<lparr>rec_convertUri := []\<rparr>;
          let d1 = set_record i item d;
          u \<leftarrow> GetOriginUri E item;
          case u of
            None \<Rightarrow> Some (d1, uris)
          | Some v \<Rightarrow>
              if \<not> IsBundleOwnUriPermission W (fst (pd_originAuthority d)) v \<and> \<not> rec_hasGrantUriPermission item
              then Some (d1, uris) else Some (d1, uris @ [(v, i)])
        }))"

definition place_uri_step :: "ext \<Rightarrow> (string \<rightharpoonup> string \<times> u64) \<Rightarrow> nat \<Rightarrow> PasteData \<times> u64 \<Rightarrow> (PasteData \<times> u64) run" where
  "place_uri_step E dfsUris i s = (case s of (d, fileSize) \<Rightarrow>
     (case GetRecordAt i d of
        None \<Rightarrow> Some s
      | Some item \<Rightarrow> do {
          u \<leftarrow> GetOriginUri E item;
          case u of
            None \<Rightarrow> Some (if rec_convertUri item \<noteq> [] then set_record i (item\<lparr>rec_convertUri := '' ''\<rparr>) d else d, fileSize)
          | Some v \<Rightarrow> (case dfsUris v of
                Some (uriStr, n) \<Rightarrow> Some (set_record i (item\<lparr>rec_convertUri := uriStr\<rparr>) d, fileSize + n)
              | None \<Rightarrow> Some (set_record i (item\<lparr>rec_convertUri := '' ''\<rparr>) d, fileSize))
        }))"

definition GenerateDistributedUri :: "svc_env \<Rightarrow> grant_env \<Rightarrow> caller \<Rightarrow> PasteData \<Rightarrow> PasteData run" where
  "GenerateDistributedUri V G c d =
     (let userId = ai_userId (GetAppInfo V (c_tokenId c)) in
      if userId = ERROR_USERID then Some d
      else do {
        (d1, uris) \<leftarrow> fold_run (collect_uri_step (sv_ext V) (sv_web V)) [0..<length (pd_records d)] (d, []);
        (d2, fileSize) \<leftarrow>
          (if uris = [] then Some (d1, 0)
           else fold_run (place_uri_step (sv_ext V) (snd (GetDfsUrisDirFromLocal G (map fst uris) userId)))
                  (map snd uris) (d1, 0));
        Some (SetFileSize (sv_params V) (ucast fileSize) d2)
      })"

section \<open>Remote URIs of a clip\<close>

definition has_networkid :: "string \<Rightarrow> bool" where
  "has_networkid u \<longleftrightarrow> u \<noteq> [] \<and> is_prefix FILE_SCHEME_PREFIX u \<and> contains_str ''networkid='' u"

definition remote_uri_in :: "ext \<Rightarrow> PasteDataRecord \<Rightarrow> bool run" where
  "remote_uri_in E r =
     (if MIMETYPE_TEXT_URI \<notin> GetMimeTypes_record r then Some False
      else if has_networkid (rec_convertUri r) then Some True
      else do {
        (entry, _) \<leftarrow> GetEntryByMimeType E svc_client MIMETYPE_TEXT_URI r;
        case entry of
          None \<Rightarrow> Some False
        | Some e \<Rightarrow> do {
            hasContent \<leftarrow> HasContentByMimeType E MIMETYPE_TEXT_URI e;
            if \<not> hasContent then Some True
            else do {
              u \<leftarrow> ConvertToUri E e;
              Some (case u of None \<Rightarrow> False | Some v \<Rightarrow> has_networkid v)
            }
          }
      })"

fun HasRemoteUri :: "ext \<Rightarrow> PasteDataRecord option list \<Rightarrow> bool run" where
  "HasRemoteUri E [] = Some False"
| "HasRemoteUri E (None # rs) = HasRemoteUri E rs"
| "HasRemoteUri E (Some r # rs) = do { b \<leftarrow> remote_uri_in E r; if b then Some True else HasRemoteUri E rs }"

section \<open>The uninstallation of an application\<close>

definition clear_uri_step :: "ext \<Rightarrow> nat \<Rightarrow> PasteData \<Rightarrow> PasteData run" where
  "clear_uri_step E i d = (case GetRecordAt i d of
      None \<Rightarrow> Some d
    | Some item \<Rightarrow> do {
        u \<leftarrow> GetOriginUri E item;
        case u of
          None \<Rightarrow> Some d
        | Some _ \<Rightarrow> do { item' \<leftarrow> SetUri E (Some (mk_uri E [])) item; Some (set_record i item' d) }
      })"

text \<open>The thread that clears the URIs; the result says whether the plugin is cleared.\<close>

definition clear_uris :: "svc_env \<Rightarrow> PasteData \<Rightarrow> (bool \<times> PasteData) run" where
  "clear_uris V d = do {
     hasUri \<leftarrow> HasMimeType MIMETYPE_TEXT_URI (pd_records d);
     if \<not> hasUri then Some (False, d)
     else do {
       d1 \<leftarrow> fold_run (clear_uri_step (sv_ext V)) [0..<length (pd_records d)] d;
       Some (IsCallerOnMainDisplay V (pd_userId d1) \<and> has_plugin V, d1)
     }
   }"

definition ClearUriOnUninstall :: "svc_env \<Rightarrow> i32 \<Rightarrow> i32 \<Rightarrow> service \<Rightarrow> service run" where
  "ClearUriOnUninstall V userId tokenId s =
     (if sint tokenId < 0 then Some s
      else if userId = ERROR_USERID then Some s
      else case map_of (clips s) userId of
             None \<Rightarrow> Some s
           | Some d \<Rightarrow>
               if prop_tokenId (pd_props d) \<noteq> tokenId then Some s
               else do {
                 (cleared, d1) \<leftarrow> clear_uris V d;
                 let s1 = s\<lparr>clips := snd (CM_InsertOrAssign userId d1 (clips s)),
                            delayGetters := snd (CM_Erase userId (delayGetters s)),
                            entryGetters := snd (CM_Erase userId (entryGetters s))\<rparr>;
                 Some (if cleared then emit (PluginCleared (pd_userId d1)) s1 else s1)
               })"

end
