(* ===== verification/Uri_Grant_Safe.thy ===== *)
theory Uri_Grant_Safe
  imports Uri_Grant Service_Requests
begin

text \<open>
  What the grants of URIs guarantee: the URIs handed to the permission manager are exactly those
  the owner of the clip may pass on, in batches of bounded size, and after an uninstallation the
  clip of the application holds no URI.
\<close>

section \<open>Loops over the records\<close>

text \<open>A loop over the indices whose body reads and replaces the record at the index only.\<close>

lemma fold_run_each:
  assumes "\<And>i rs acc. i < length rs \<Longrightarrow> Q (rs ! i) \<Longrightarrow>
      f i (mk rs acc) = Some (mk (rs[i := h (rs ! i)]) (k (rs ! i) acc))" and "\<forall>p \<in> set rs0. Q p"
  shows "fold_run f [0..<length rs0] (mk rs0 acc) = Some (mk (map h rs0) (fold k rs0 acc))"
proof -
  have "fold_run f [0..<m] (mk rs0 acc) = Some (mk (map h (take m rs0) @ drop m rs0) (fold k (take m rs0) acc))"
    if "m \<le> length rs0" for m
    using that
  proof (induction m)
    case (Suc m)
    let ?rs = "map h (take m rs0) @ drop m rs0"
    have m: "m < length ?rs" "?rs ! m = rs0 ! m" using Suc.prems by (simp_all add: nth_append)
    have q: "Q (?rs ! m)" using assms(2) Suc.prems m(2) by simp
    have "?rs[m := h (rs0 ! m)] = map h (take (Suc m) rs0) @ drop (Suc m) rs0"
      using Suc.prems by (simp add: list_update_append upd_conv_take_nth_drop take_Suc_conv_app_nth Cons_nth_drop_Suc[symmetric])
    moreover have "fold k (take (Suc m) rs0) acc = k (rs0 ! m) (fold k (take m rs0) acc)"
      using Suc.prems by (simp add: take_Suc_conv_app_nth)
    ultimately show ?case
      using Suc.IH Suc.prems assms(1)[OF m(1) q, of "fold k (take m rs0) acc"] m(2)
      by (simp add: fold_run_append)
  qed simp
  from this[of "length rs0"] show ?thesis by simp
qed

section \<open>What may be granted\<close>

definition record_uri :: "ext \<Rightarrow> PasteDataRecord \<Rightarrow> uri option" where
  "record_uri E r = (if rec_isConvertUriFromRemote r
     then (if rec_convertUri r = [] then None else Some (mk_uri E (rec_convertUri r)))
     else the (GetOriginUri E r))"

text \<open>The URI of a record that may be passed on: the application that copied owns it or was granted it.
  An application pasting its own clip needs no grant.\<close>

definition grantable :: "ext \<Rightarrow> web_env \<Rightarrow> string \<times> i32 \<Rightarrow> PasteData \<Rightarrow> PasteDataRecord \<Rightarrow> uri option" where
  "grantable E W target d r =
     (if \<not> prop_isRemote (pd_props d) \<and> target = pd_originAuthority d then None
      else case record_uri E r of
             None \<Rightarrow> None
           | Some u \<Rightarrow> if fst (pd_originAuthority d) = GetAuthority W u \<or> rec_hasGrantUriPermission r then Some u else None)"

definition uris_for :: "(PasteDataRecord \<Rightarrow> bool) \<Rightarrow> ext \<Rightarrow> web_env \<Rightarrow> string \<times> i32 \<Rightarrow> PasteData \<Rightarrow> uri list" where
  "uris_for P E W target d = somes (map (grantable E W target d) (filter P (somes (pd_records d))))"

definition readable :: "web_env \<Rightarrow> PasteData \<Rightarrow> PasteDataRecord \<Rightarrow> bool" where
  "readable W d r \<longleftrightarrow> prop_isRemote (pd_props d) \<or> rec_uriPermission r = READ_PERMISSION W"

definition writeable :: "web_env \<Rightarrow> PasteData \<Rightarrow> PasteDataRecord \<Rightarrow> bool" where
  "writeable W d r \<longleftrightarrow> \<not> prop_isRemote (pd_props d) \<and> rec_uriPermission r \<noteq> READ_PERMISSION W
     \<and> rec_uriPermission r = READ_WRITE_PERMISSION W"

definition tidy :: "string \<times> i32 \<Rightarrow> PasteData \<Rightarrow> PasteDataRecord \<Rightarrow> PasteDataRecord" where
  "tidy target d r = (if \<not> prop_isRemote (pd_props d) \<and> target = pd_originAuthority d then r else drop_local_uri r)"

lemma GetOriginUri_convert [simp]: "GetOriginUri E (r\<lparr>rec_convertUri := u\<rparr>) = GetOriginUri E r"
  by (simp add: GetOriginUri_def entry_with_mime_def split: option.split)

lemma drop_local_uri_fields [simp]:
  "rec_hasGrantUriPermission (drop_local_uri r) = rec_hasGrantUriPermission r"
  "rec_uriPermission (drop_local_uri r) = rec_uriPermission r"
  by (simp_all add: drop_local_uri_def)

lemma paste_uri_eq: "no_null_objects r \<Longrightarrow> paste_uri E (drop_local_uri r) = Some (record_uri E r)"
  using getters_defined(4)[of r E] by (auto simp: paste_uri_def drop_local_uri_def record_uri_def)

definition add_uri :: "(PasteDataRecord \<Rightarrow> bool) \<Rightarrow> (PasteDataRecord \<Rightarrow> uri option) \<Rightarrow> PasteDataRecord option \<Rightarrow> uri list \<Rightarrow> uri list" where
  "add_uri P g p us = us @ somes (map g (filter P (somes [p])))"

lemma fold_add_uri: "fold (add_uri P g) ps us = us @ somes (map g (filter P (somes ps)))"
proof (induction ps arbitrary: us)
  case (Cons p ps)
  show ?case
  proof (cases p)
    case (Some x) then show ?thesis using Cons by (cases "g x") (simp_all add: add_uri_def)
  qed (use Cons in \<open>simp add: add_uri_def\<close>)
qed simp

lemma check_uri_step_eq:
  assumes "i < length rs" "\<forall>r. rs ! i = Some r \<longrightarrow> no_null_objects r"
  shows "check_uri_step E W target i (d\<lparr>pd_records := rs\<rparr>, acc) =
    Some (d\<lparr>pd_records := rs[i := map_option (tidy target d) (rs ! i)]\<rparr>,
      (\<lambda>(us, vs). (add_uri (readable W d) (grantable E W target d) (rs ! i) us,
                   add_uri (writeable W d) (grantable E W target d) (rs ! i) vs)) acc)"
proof (cases "rs ! i")
  case None
  then have "rs[i := None] = rs" using list_update_id[of rs i] by simp
  then show ?thesis using None assms(1) by (cases acc) (simp add: check_uri_step_def GetRecordAt_def add_uri_def)
next
  case (Some r)
  then have id: "rs[i := Some r] = rs" using list_update_id[of rs i] by simp
  have p: "paste_uri E (drop_local_uri r) = Some (record_uri E r)" using assms(2) Some by (simp add: paste_uri_eq)
  obtain us vs where acc: "acc = (us, vs)" by (cases acc)
  show ?thesis
  proof (cases "\<not> prop_isRemote (pd_props d) \<and> target = pd_originAuthority d")
    case True
    then show ?thesis using Some id assms(1)
      by (simp add: check_uri_step_def GetRecordAt_def add_uri_def acc grantable_def tidy_def)
  next
    case False
    then have n: "(\<not> prop_isRemote (pd_props d) \<and> target = pd_originAuthority d) = False" by simp
    have g: "GetRecordAt i (d\<lparr>pd_records := rs\<rparr>) = Some r" using Some assms(1) by (simp add: GetRecordAt_def)
    let ?out = "set_record i (drop_local_uri r) (d\<lparr>pd_records := rs\<rparr>)"
    have o: "?out = d\<lparr>pd_records := rs[i := map_option (tidy target d) (rs ! i)]\<rparr>"
      unfolding Some tidy_def n by (simp add: set_record_def)
    have "check_uri_step E W target i (d\<lparr>pd_records := rs\<rparr>, us, vs) = (case record_uri E r of
        None \<Rightarrow> Some (?out, us, vs)
      | Some v \<Rightarrow> if fst (pd_originAuthority d) \<noteq> GetAuthority W v \<and> \<not> rec_hasGrantUriPermission r then Some (?out, us, vs)
          else if readable W d r then Some (?out, us @ [v], vs)
          else if writeable W d r then Some (?out, us, vs @ [v]) else Some (?out, us, vs))"
      unfolding check_uri_step_def prod.case g option.case Let_def p bind.bind_lunit
      by (auto simp: n IsBundleOwnUriPermission_def readable_def writeable_def split: option.split)
    moreover have "\<not> (readable W d r \<and> writeable W d r)" by (auto simp: readable_def writeable_def)
    ultimately show ?thesis
      unfolding o acc unfolding Some add_uri_def grantable_def n
      by (cases "record_uri E r") simp_all
  qed
qed

lemma CheckUriPermission_eq:
  assumes "data_ok d"
  shows "CheckUriPermission E W target d =
    Some (assign (READ_WRITE_PERMISSION W) (uris_for (writeable W d) E W target d)
            (assign (READ_PERMISSION W) (uris_for (readable W d) E W target d) []),
          d\<lparr>pd_records := map (map_option (tidy target d)) (pd_records d)\<rparr>)"
proof -
  let ?k = "\<lambda>P. add_uri P (grantable E W target d)"
  have f: "fold (\<lambda>p (us, vs). (?k P p us, ?k Q p vs)) ps (us, vs) = (fold (?k P) ps us, fold (?k Q) ps vs)" for P Q ps us vs
    by (induction ps arbitrary: us vs) auto
  have "fold_run (check_uri_step E W target) [0..<length (pd_records d)] (d\<lparr>pd_records := pd_records d\<rparr>, [], []) =
    Some (d\<lparr>pd_records := map (map_option (tidy target d)) (pd_records d)\<rparr>,
      fold (\<lambda>p (us, vs). (?k (readable W d) p us, ?k (writeable W d) p vs)) (pd_records d) ([], []))"
    using assms by (intro fold_run_each[where mk = "\<lambda>rs acc. (d\<lparr>pd_records := rs\<rparr>, acc)" and Q = "\<lambda>p. \<forall>r. p = Some r \<longrightarrow> no_null_objects r"]
        check_uri_step_eq) (auto simp: data_ok_def)
  then show ?thesis by (simp add: CheckUriPermission_def f fold_add_uri uris_for_def)
qed

section \<open>The grants\<close>

definition granted :: "u32 \<Rightarrow> (grant_call \<times> i32) list \<Rightarrow> uri list" where
  "granted flag calls = concat (map (\<lambda>(call, _). if flag_of call = flag then uris_of call else []) calls)"

lemma granted_append [simp]: "granted f (xs @ ys) = granted f xs @ granted f ys"
  by (simp add: granted_def)

lemma granted_Nil [simp]: "granted f [] = []"
  by (simp add: granted_def)

lemma grant_loop_effect:
  assumes "\<And>us. uris_of (mk us) = us" "\<And>us. flag_of (mk us) = f"
  shows "\<exists>calls ret. grant_loop mk ask us h r = (calls, h \<or> (\<exists>call. (call, 0) \<in> set calls), ret) \<and>
    granted f calls = us \<and> (\<forall>f'. f' \<noteq> f \<longrightarrow> granted f' calls = []) \<and>
    (\<forall>(call, code) \<in> set calls. call = mk (uris_of call) \<and> code = ask call \<and> uris_of call \<noteq> [] \<and> length (uris_of call) \<le> URI_BATCH_SIZE)"
  using assms
proof (induction mk ask us h r rule: grant_loop.induct)
  case (1 mk ask us h r)
  note mk = 1(2,3)
  show ?case
  proof (cases "us = []")
    case True then show ?thesis by (simp add: grant_loop.simps)
  next
    case False
    let ?c = "mk (take URI_BATCH_SIZE us)"
    obtain calls ret where c: "grant_loop mk ask (drop URI_BATCH_SIZE us) (h \<or> ask ?c = 0) (if ask ?c = 0 then r else ask ?c)
        = (calls, (h \<or> ask ?c = 0) \<or> (\<exists>call. (call, 0) \<in> set calls), ret)"
      and g: "granted f calls = drop URI_BATCH_SIZE us" "\<forall>f'. f' \<noteq> f \<longrightarrow> granted f' calls = []"
        "\<forall>(call, code) \<in> set calls. call = mk (uris_of call) \<and> code = ask call \<and> uris_of call \<noteq> [] \<and> length (uris_of call) \<le> URI_BATCH_SIZE"
      using 1(1)[OF False refl refl mk] by blast
    let ?cs = "(?c, ask ?c) # calls"
    have "grant_loop mk ask us h r = (?cs, h \<or> (\<exists>call. (call, 0) \<in> set ?cs), ret)"
      using c False by (subst grant_loop.simps) (auto simp: Let_def)
    moreover have "granted f ?cs = us" "\<forall>f'. f' \<noteq> f \<longrightarrow> granted f' ?cs = []" using g(1,2) mk by (simp_all add: granted_def)
    moreover have "\<forall>(call, code) \<in> set ?cs. call = mk (uris_of call) \<and> code = ask call \<and> uris_of call \<noteq> [] \<and> length (uris_of call) \<le> URI_BATCH_SIZE"
      using g(3) mk False by (auto simp: URI_BATCH_SIZE_def)
    ultimately show ?thesis by blast
  qed
qed

text \<open>What a round of grants hands out, of the URIs \<open>us\<close>.\<close>

definition over_limit :: "svc_env \<Rightarrow> caller \<Rightarrow> u32 \<Rightarrow> bool \<Rightarrow> uri list \<Rightarrow> bool" where
  "over_limit V c t remote us \<longleftrightarrow> remote \<and> CheckRemoteFileDocsUriLimit c us (ai_bundleName (GetAppInfo V t)) \<noteq> E_OK"

definition addressed :: "svc_env \<Rightarrow> u32 \<Rightarrow> bool \<Rightarrow> service \<Rightarrow> grant_call \<Rightarrow> bool" where
  "addressed V t remote s call = (let a = GetAppInfo V t in
     if remote then call = Privileged (uris_of call) (flag_of call) (ai_bundleName a) (ai_appIndex a)
     else call = ToToken (uris_of call) (flag_of call) t
            (case map_of (clips s) (ai_userId a) of Some d \<Rightarrow> prop_tokenId (pd_props d) | None \<Rightarrow> 0))"

definition calls_ok :: "svc_env \<Rightarrow> u32 \<Rightarrow> bool \<Rightarrow> service \<Rightarrow> (grant_call \<times> i32) list \<Rightarrow> bool" where
  "calls_ok V t remote s calls \<longleftrightarrow> (\<forall>(call, code) \<in> set calls.
     addressed V t remote s call \<and> uris_of call \<noteq> [] \<and> length (uris_of call) \<le> URI_BATCH_SIZE)"

definition readers :: "u32 \<Rightarrow> (grant_call \<times> i32) list \<Rightarrow> u32 set \<Rightarrow> u32 set" where
  "readers t calls R = (if \<exists>call. (call, 0) \<in> set calls then insert t R else R)"

lemma GrantPermission_effect:
  "\<exists>ret calls g'. GrantPermission V G c us f remote t s g = (ret, g') \<and> grant_calls g' = grant_calls g @ calls \<and>
     set (readBundles g') = readers t calls (set (readBundles g)) \<and> calls_ok V t remote s calls \<and>
     granted f calls = (if over_limit V c t remote us then [] else us) \<and> (\<forall>f'. f' \<noteq> f \<longrightarrow> granted f' calls = [])"
proof (cases "over_limit V c t remote us")
  case True
  then show ?thesis
    by (intro exI[of _ 0] exI[of _ "[]"] exI[of _ g])
       (auto simp: GrantPermission_def over_limit_def readers_def calls_ok_def)
next
  case False
  define a where "a = GetAppInfo V t"
  define src where "src = (case map_of (clips s) (ai_userId a) of Some d \<Rightarrow> prop_tokenId (pd_props d) | None \<Rightarrow> 0)"
  define mk where "mk = (\<lambda>us. if remote then Privileged us f (ai_bundleName a) (ai_appIndex a) else ToToken us f t src)"
  define ask where "ask = (\<lambda>call. case call of Privileged us f b i \<Rightarrow> GrantUriPermissionPrivileged G us f b i
                   | ToToken us f t src \<Rightarrow> GrantUriPermission_client G us f t src)"
  have mk: "uris_of (mk us) = us" "flag_of (mk us) = f" for us by (simp_all add: mk_def)
  obtain calls ret where l: "grant_loop mk ask us False 0 = (calls, False \<or> (\<exists>call. (call, 0) \<in> set calls), ret)"
    and g: "granted f calls = us" "\<forall>f'. f' \<noteq> f \<longrightarrow> granted f' calls = []"
    and o: "\<forall>(call, code) \<in> set calls. call = mk (uris_of call) \<and> code = ask call \<and> uris_of call \<noteq> [] \<and> length (uris_of call) \<le> URI_BATCH_SIZE"
    using grant_loop_effect[of mk f ask us False 0, OF mk] by blast
  have ad: "addressed V t remote s (mk vs)" for vs by (simp add: addressed_def mk_def a_def src_def Let_def)
  have "calls_ok V t remote s calls"
    unfolding calls_ok_def
  proof (clarify, intro conjI)
    fix call code assume m: "(call, code) \<in> set calls"
    then show "uris_of call \<noteq> []" "length (uris_of call) \<le> URI_BATCH_SIZE" using o by auto
    from m o have "call = mk (uris_of call)" by auto
    then show "addressed V t remote s call" by (metis ad)
  qed
  moreover have "GrantPermission V G c us f remote t s g = (ret, g\<lparr>grant_calls := grant_calls g @ calls,
      readBundles := (if \<exists>call. (call, 0) \<in> set calls then List.insert t (readBundles g) else readBundles g)\<rparr>)"
  proof -
    have n: "(remote \<and> CheckRemoteFileDocsUriLimit c us (ai_bundleName a) \<noteq> E_OK) = False"
      using False by (simp add: over_limit_def a_def)
    show ?thesis
      using l unfolding GrantPermission_def a_def[symmetric] src_def[symmetric] mk_def[symmetric] ask_def[symmetric] Let_def n
      by simp
  qed
  ultimately show ?thesis using g False by (auto simp: readers_def)
qed

lemma grant_lists:
  assumes "data_ok d" and "READ_PERMISSION W \<noteq> READ_WRITE_PERMISSION W"
    and "CheckUriPermission E W target d = Some (m, d')"
  shows "map_of m (READ_PERMISSION W) = Some (uris_for (readable W d) E W target d)"
    "map_of m (READ_WRITE_PERMISSION W) = Some (uris_for (writeable W d) E W target d)"
  using assms(2,3) CheckUriPermission_eq[OF assms(1), of E W target]
  by (auto simp: map_of_assign map_ok_assign)

lemma readers_readers: "readers t calls2 (readers t calls1 R) = readers t (calls1 @ calls2) R"
  by (auto simp: readers_def)

lemma calls_ok_append [simp]: "calls_ok V t remote s (xs @ ys) \<longleftrightarrow> calls_ok V t remote s xs \<and> calls_ok V t remote s ys"
  by (auto simp: calls_ok_def)

lemma over_limit_Nil [simp]: "\<not> over_limit V c t remote []"
  by (simp add: over_limit_def CheckRemoteFileDocsUriLimit_def MAX_REMOTE_FILE_MANAGER_URI_COUNT_def)

lemma writeable_remote: "prop_isRemote (pd_props d) \<Longrightarrow> uris_for (writeable W d) E W target d = []"
  by (simp add: uris_for_def writeable_def)

lemma somes_None [simp]: "somes (map (\<lambda>_. None) xs) = []"
  by (induction xs) simp_all

lemma uris_for_own: "\<not> prop_isRemote (pd_props d) \<Longrightarrow> target = pd_originAuthority d \<Longrightarrow> uris_for P E W target d = []"
proof -
  assume "\<not> prop_isRemote (pd_props d)" "target = pd_originAuthority d"
  then have "grantable E W target d = (\<lambda>_. None)" by (simp add: grantable_def fun_eq_iff)
  then show ?thesis by (simp add: uris_for_def)
qed

lemma GrantUriPermission_effect:
  assumes "map_of m (READ_PERMISSION (sv_web V)) = Some rs" "map_of m (READ_WRITE_PERMISSION (sv_web V)) = Some ws"
    and "READ_PERMISSION (sv_web V) \<noteq> READ_WRITE_PERMISSION (sv_web V)" and "remote \<longrightarrow> ws = []"
  shows "\<exists>calls g'. GrantUriPermission V G c m t remote s g = (E_OK, g') \<and> grant_calls g' = grant_calls g @ calls \<and>
     set (readBundles g') = readers t calls (set (readBundles g)) \<and> calls_ok V t remote s calls \<and>
     (if c_uid c = ANCO_SERVICE_BROKER_UID then calls = []
      else granted (READ_PERMISSION (sv_web V)) calls =
             (let us = (if remote then RemoveInvalidRemoteUri rs else rs) in if over_limit V c t remote us then [] else us) \<and>
           granted (READ_WRITE_PERMISSION (sv_web V)) calls = ws)"
proof -
  let ?R = "READ_PERMISSION (sv_web V)" and ?W = "READ_WRITE_PERMISSION (sv_web V)"
  let ?us = "if remote then RemoveInvalidRemoteUri rs else rs" and ?vs = "if remote then RemoveInvalidRemoteUri ws else ws"
  consider "rs = [] \<and> ws = []" | "c_uid c = ANCO_SERVICE_BROKER_UID" | "\<not> (rs = [] \<and> ws = [])" "c_uid c \<noteq> ANCO_SERVICE_BROKER_UID" by blast
  then show ?thesis
  proof cases
    case 1
    then show ?thesis using assms(1,2)
      by (intro exI[of _ "[]"] exI[of _ g]) (simp add: GrantUriPermission_def readers_def calls_ok_def RemoveInvalidRemoteUri_def)
  next
    case 2
    then show ?thesis using assms(1,2)
      by (intro exI[of _ "[]"] exI[of _ g]) (simp add: GrantUriPermission_def readers_def calls_ok_def Let_def)
  next
    case 3
    obtain r1 c1 g1 where 1: "GrantPermission V G c ?us ?R remote t s g = (r1, g1)" "grant_calls g1 = grant_calls g @ c1"
      "set (readBundles g1) = readers t c1 (set (readBundles g))" "calls_ok V t remote s c1"
      "granted ?R c1 = (if over_limit V c t remote ?us then [] else ?us)" "\<forall>f'. f' \<noteq> ?R \<longrightarrow> granted f' c1 = []"
      using GrantPermission_effect[of V G c ?us ?R remote t s g] by blast
    let ?f = "if remote then ?R else ?W"
    obtain r2 c2 g2 where 2: "GrantPermission V G c ?vs ?f remote t s g1 = (r2, g2)" "grant_calls g2 = grant_calls g1 @ c2"
      "set (readBundles g2) = readers t c2 (set (readBundles g1))" "calls_ok V t remote s c2"
      "granted ?f c2 = (if over_limit V c t remote ?vs then [] else ?vs)" "\<forall>f'. f' \<noteq> ?f \<longrightarrow> granted f' c2 = []"
      using GrantPermission_effect[of V G c ?vs ?f remote t s g1] by blast
    have e: "GrantUriPermission V G c m t remote s g = (E_OK, g2)"
      using 1(1) 2(1) 3 by (cases remote) (auto simp: GrantUriPermission_def assms(1,2) Let_def)
    have v: "remote \<Longrightarrow> ?vs = []" using assms(4) by (simp add: RemoveInvalidRemoteUri_def)
    have w: "granted ?W (c1 @ c2) = ws" "granted ?R c2 = []"
    proof -
      have c1: "granted ?W c1 = []" using 1(6) assms(3) by (metis (full_types))
      have nl: "\<not> remote \<Longrightarrow> \<not> over_limit V c t remote us" for us by (simp add: over_limit_def)
      have "granted ?W c2 = ws \<and> granted ?R c2 = []"
      proof (cases remote)
        case True
        then have "granted ?R c2 = []" using 2(5) v by simp
        moreover have "granted ?W c2 = []" using 2(6) True assms(3) by (metis (full_types))
        ultimately show ?thesis using assms(4) True by simp
      next
        case False
        then have "granted ?W c2 = ws" using 2(5) nl[of ws] by simp
        moreover have "granted ?R c2 = []" using 2(6) False assms(3) by (metis (full_types))
        ultimately show ?thesis by simp
      qed
      then show "granted ?W (c1 @ c2) = ws" "granted ?R c2 = []" using c1 by simp_all
    qed
    have "grant_calls g2 = grant_calls g @ c1 @ c2" "set (readBundles g2) = readers t (c1 @ c2) (set (readBundles g))"
      "calls_ok V t remote s (c1 @ c2)" using 1(2-4) 2(2-4) by (simp_all add: readers_readers)
    moreover have "granted ?R (c1 @ c2) = (let us = ?us in if over_limit V c t remote us then [] else us)"
      using 1(5) w(2) by (simp add: Let_def)
    ultimately show ?thesis using e w(1) 3(2) by metis
  qed
qed

text \<open>C10: The URIs of a paste. The URIs handed to the permission manager for the pasting application \<open>t\<close>
  are exactly those it may get, in the order of the records: those marked readable for reading and,
  for a clip of this device, those marked writeable for writing. Every one of them belongs to a record
  of the clip and is owned by the application that copied or was granted to it; from another device only
  URIs that name a device are passed on, and none at all beyond the limit for documents; an application
  that pastes its own clip, and the broker, get no grants. Each call carries between one and
  \<open>URI_BATCH_SIZE\<close> URIs and is addressed to the pasting application on behalf of the owner of the clip, and
  the application is remembered as a reader exactly if one of the calls succeeded.\<close>

theorem uri_grants_exact:
  assumes "data_ok d" and "READ_PERMISSION (sv_web V) \<noteq> READ_WRITE_PERMISSION (sv_web V)"
    and "target = (ai_bundleName (GetAppInfo V t), ai_appIndex (GetAppInfo V t))" and "remote = prop_isRemote (pd_props d)"
  shows "\<exists>m d' calls g'. CheckUriPermission (sv_ext V) (sv_web V) target d = Some (m, d') \<and>
    GrantUriPermission V G c m t remote s g = (E_OK, g') \<and> grant_calls g' = grant_calls g @ calls \<and>
    set (readBundles g') = readers t calls (set (readBundles g)) \<and> calls_ok V t remote s calls \<and>
    (if c_uid c = ANCO_SERVICE_BROKER_UID \<or> \<not> remote \<and> target = pd_originAuthority d
     then granted (READ_PERMISSION (sv_web V)) calls = [] \<and> granted (READ_WRITE_PERMISSION (sv_web V)) calls = []
     else let rs = uris_for (readable (sv_web V) d) (sv_ext V) (sv_web V) target d;
              us = (if remote then filter (contains_str ''networkid='') rs else rs) in
       granted (READ_PERMISSION (sv_web V)) calls = (if over_limit V c t remote us then [] else us) \<and>
       granted (READ_WRITE_PERMISSION (sv_web V)) calls = uris_for (writeable (sv_web V) d) (sv_ext V) (sv_web V) target d) \<and>
    (\<forall>f u. u \<in> set (granted f calls) \<longrightarrow> f \<in> {READ_PERMISSION (sv_web V), READ_WRITE_PERMISSION (sv_web V)} \<longrightarrow>
       (\<exists>r. Some r \<in> set (pd_records d) \<and> record_uri (sv_ext V) r = Some u \<and>
          (fst (pd_originAuthority d) = GetAuthority (sv_web V) u \<or> rec_hasGrantUriPermission r)))"
proof -
  let ?E = "sv_ext V" and ?W = "sv_web V"
  let ?rs = "uris_for (readable ?W d) ?E ?W target d" and ?ws = "uris_for (writeable ?W d) ?E ?W target d"
  obtain m d' where c: "CheckUriPermission ?E ?W target d = Some (m, d')" using CheckUriPermission_eq[OF assms(1)] by simp
  note l = grant_lists[OF assms(1,2) c]
  have w: "remote \<longrightarrow> ?ws = []" using writeable_remote assms(4) by blast
  obtain calls g' where g: "GrantUriPermission V G c m t remote s g = (E_OK, g')" "grant_calls g' = grant_calls g @ calls"
     "set (readBundles g') = readers t calls (set (readBundles g))" "calls_ok V t remote s calls"
     "if c_uid c = ANCO_SERVICE_BROKER_UID then calls = []
      else granted (READ_PERMISSION ?W) calls =
             (let us = (if remote then RemoveInvalidRemoteUri ?rs else ?rs) in if over_limit V c t remote us then [] else us) \<and>
           granted (READ_WRITE_PERMISSION ?W) calls = ?ws"
    using GrantUriPermission_effect[OF l assms(2) w, of G c t s g] by blast
  have own: "\<not> remote \<Longrightarrow> target = pd_originAuthority d \<Longrightarrow> uris_for P ?E ?W target d = []" for P
    using uris_for_own assms(4) by blast
  have src: "\<exists>r. Some r \<in> set (pd_records d) \<and> record_uri ?E r = Some u \<and>
      (fst (pd_originAuthority d) = GetAuthority ?W u \<or> rec_hasGrantUriPermission r)" if "u \<in> set (uris_for P ?E ?W target d)" for u P
    using that by (auto simp: uris_for_def grantable_def split: if_splits option.splits)
  have "u \<in> set ?rs \<or> u \<in> set ?ws" if "u \<in> set (granted f calls)" "f \<in> {READ_PERMISSION ?W, READ_WRITE_PERMISSION ?W}" for u f
    using that g(5) by (auto simp: Let_def RemoveInvalidRemoteUri_def split: if_splits)
  then have s: "\<forall>f u. u \<in> set (granted f calls) \<longrightarrow> f \<in> {READ_PERMISSION ?W, READ_WRITE_PERMISSION ?W} \<longrightarrow>
       (\<exists>r. Some r \<in> set (pd_records d) \<and> record_uri ?E r = Some u \<and>
          (fst (pd_originAuthority d) = GetAuthority ?W u \<or> rec_hasGrantUriPermission r))"
    using src by blast
  have "if c_uid c = ANCO_SERVICE_BROKER_UID \<or> \<not> remote \<and> target = pd_originAuthority d
     then granted (READ_PERMISSION ?W) calls = [] \<and> granted (READ_WRITE_PERMISSION ?W) calls = []
     else let rs = ?rs; us = (if remote then filter (contains_str ''networkid='') rs else rs) in
       granted (READ_PERMISSION ?W) calls = (if over_limit V c t remote us then [] else us) \<and>
       granted (READ_WRITE_PERMISSION ?W) calls = ?ws"
    using g(5) own by (auto simp: Let_def RemoveInvalidRemoteUri_def split: if_splits)
  then show ?thesis using c g(1-4) s by (intro exI conjI)
qed

definition sample_grants :: grant_env where
  "sample_grants = \<lparr>GrantUriPermissionPrivileged = (\<lambda>_ _ _ _. 0), GrantUriPermission_client = (\<lambda>_ _ _ _. 0),
     GetDfsUrisDirFromLocal = (\<lambda>us _. (0, \<lambda>u. if u \<in> set us then Some (u @ ''?networkid=1'', 5) else None))\<rparr>"

definition sample_uri_data :: PasteData where
  "sample_uri_data = (new_data sample_params 7)\<lparr>pd_originAuthority := (''other'', 0),
     pd_records := [Some ((empty_record sample_ext)\<lparr>rec_hasGrantUriPermission := True, rec_uriPermission := 1,
       rec_entries := [Some (uri_entry sample_ext ''file://docs/x'')]\<rparr>)]\<rparr>"

theorem uri_grants_exact_witness:
  "\<exists>m d' g'. CheckUriPermission sample_ext sample_web (''com.app'', 0) sample_uri_data = Some (m, d') \<and>
     GrantUriPermission sample_env sample_grants \<lparr>c_uid = 1, c_pid = 1, c_tokenId = 7, c_fullTokenId = 7, c_userId = 100, c_manageShare = False\<rparr> m 7 False
       init_state \<lparr>grant_calls = [], readBundles = []\<rparr> = (E_OK, g') \<and>
     granted 1 (grant_calls g') = [''file://docs/x'']"
proof -
  have ok: "data_ok sample_uri_data"
    by (simp add: data_ok_def sample_uri_data_def no_null_objects_def empty_record_def uri_entry_def mk_entry_mime_def)
  have E: "sv_ext sample_env = sample_ext" "sv_web sample_env = sample_web" by (simp_all add: sample_env_def)
  have R: "READ_PERMISSION sample_web = 1" "READ_WRITE_PERMISSION sample_web = 3"
    by (simp_all add: READ_PERMISSION_def READ_WRITE_PERMISSION_def sample_web_def)
  have a: "ai_bundleName (GetAppInfo sample_env 7) = ''com.app''" "ai_appIndex (GetAppInfo sample_env 7) = 0"
    by (simp_all add: GetAppInfo_def FillHapAppInfo_def sample_env_def Let_def new_AppInfo_def)
  have rem: "prop_isRemote (pd_props sample_uri_data) = False" "pd_originAuthority sample_uri_data = (''other'', 0)"
    by (simp_all add: sample_uri_data_def new_data_def new_props_def)
  have us: "uris_for (readable sample_web sample_uri_data) sample_ext sample_web (''com.app'', 0) sample_uri_data = [''file://docs/x'']"
    by (simp add: uris_for_def sample_uri_data_def readable_def R rem[unfolded sample_uri_data_def] grantable_def record_uri_def
        empty_record_def GetOriginUri_def entry_with_mime_def uri_entry_def mk_entry_mime_def ConvertToUri_def IsFileUri_def
        sample_ext_def sample_ids_def)
  show ?thesis
    using uri_grants_exact[OF ok, of sample_env "(''com.app'', 0)" 7 False sample_grants
        "\<lparr>c_uid = 1, c_pid = 1, c_tokenId = 7, c_fullTokenId = 7, c_userId = 100, c_manageShare = False\<rparr>" init_state
        "\<lparr>grant_calls = [], readBundles = []\<rparr>"] us
    by (auto simp: E R a rem ANCO_SERVICE_BROKER_UID_def over_limit_def Let_def)
qed

end
