(* ===== verification/Ffrt_Timer.thy ===== *)
theory Ffrt_Timer
  imports Concurrent_Map "HOL-Library.AList"
begin

text \<open>
  The named timers of \<open>framework/framework/ffrt/ffrt_utils.cpp\<close>. A timer keeps for every name the
  handle of the task it submitted last; a delayed task waits in the queue under its handle until it
  is cancelled or its time comes (\<open>fire\<close>), a task without delay is submitted at once. The queue is
  the one of the task library: \<open>submit_h\<close> gives a fresh handle, \<open>cancel\<close> removes a waiting task and
  does nothing to one that has run. Entries of the unordered maps that \<open>operator[]\<close> has not made yet
  have the default value. The contract of named timers is the locale \<open>named_timers\<close>.
\<close>

record 'a FFRTTimer =
  handleMap :: "(string \<times> nat) list" \<comment> \<open>the names with a handle that is not null\<close>
  taskId :: "string \<Rightarrow> u32"
  queue :: "(nat \<times> 'a) list"
  submitted :: "'a list" \<comment> \<open>tasks that are due\<close>
  next_handle :: nat

definition new_timer :: "'a FFRTTimer" where
  "new_timer = \<lparr>handleMap = [], taskId = (\<lambda>_. 0), queue = [], submitted = [], next_handle = 0\<rparr>"

section \<open>Operations\<close>

definition CancelTask :: "nat \<Rightarrow> 'a FFRTTimer \<Rightarrow> 'a FFRTTimer" where
  "CancelTask h t = t\<lparr>queue := filter (\<lambda>(k, _). k \<noteq> h) (queue t)\<rparr>"

definition CancelTimerInner :: "string \<Rightarrow> 'a FFRTTimer \<Rightarrow> 'a FFRTTimer" where
  "CancelTimerInner timerId t = (case map_of (handleMap t) timerId of
      None \<Rightarrow> t
    | Some h \<Rightarrow> (let t1 = CancelTask h t in t1\<lparr>handleMap := AList.delete timerId (handleMap t1)\<rparr>))"

definition CancelTimer :: "string \<Rightarrow> 'a FFRTTimer \<Rightarrow> 'a FFRTTimer" where
  "CancelTimer timerId t = CancelTimerInner timerId t"

definition SubmitTask :: "'a \<Rightarrow> 'a FFRTTimer \<Rightarrow> 'a FFRTTimer" where
  "SubmitTask task t = t\<lparr>submitted := submitted t @ [task]\<rparr>"

definition SetTimer :: "string \<Rightarrow> 'a \<Rightarrow> u32 \<Rightarrow> 'a FFRTTimer \<Rightarrow> 'a FFRTTimer" where
  "SetTimer timerId task delayMs t =
     (let t1 = CancelTimerInner timerId t;
          t2 = t1\<lparr>taskId := (taskId t1)(timerId := taskId t1 timerId + 1)\<rparr>
      in if delayMs = 0 then SubmitTask task t2
         else t2\<lparr>handleMap := AList.update timerId (next_handle t2) (handleMap t2),
                 queue := queue t2 @ [(next_handle t2, task)], next_handle := Suc (next_handle t2)\<rparr>)"

definition GetTaskId :: "string \<Rightarrow> 'a FFRTTimer \<Rightarrow> u32" where
  "GetTaskId timerId t = taskId t timerId"

text \<open>Every handle in the map is cancelled: the entries of the map are those with a handle.\<close>

definition CancelAllTimerInner :: "'a FFRTTimer \<Rightarrow> 'a FFRTTimer" where
  "CancelAllTimerInner t = t\<lparr>queue := filter (\<lambda>(k, _). k \<notin> set (map snd (handleMap t))) (queue t)\<rparr>"

definition CancelAllTimer :: "'a FFRTTimer \<Rightarrow> 'a FFRTTimer" where
  "CancelAllTimer t = CancelAllTimerInner t"

definition Clear_timer :: "'a FFRTTimer \<Rightarrow> 'a FFRTTimer" where
  "Clear_timer t = (CancelAllTimerInner t)\<lparr>handleMap := [], taskId := (\<lambda>_. 0)\<rparr>"

text \<open>The time of a waiting task has come.\<close>

definition fire :: "nat \<Rightarrow> 'a FFRTTimer \<Rightarrow> 'a FFRTTimer" where
  "fire h t = (case map_of (queue t) h of
      None \<Rightarrow> t
    | Some task \<Rightarrow> SubmitTask task (CancelTask h t))"

section \<open>What is waiting under a name\<close>

definition armed :: "'a FFRTTimer \<Rightarrow> string \<Rightarrow> 'a option" where
  "armed t n = (case map_of (handleMap t) n of None \<Rightarrow> None | Some h \<Rightarrow> map_of (queue t) h)"

definition timer_ok :: "'a FFRTTimer \<Rightarrow> bool" where
  "timer_ok t \<longleftrightarrow> distinct (map fst (queue t)) \<and> distinct (map fst (handleMap t)) \<and> distinct (map snd (handleMap t)) \<and>
     set (map fst (queue t)) \<subseteq> set (map snd (handleMap t)) \<and> (\<forall>h \<in> set (map snd (handleMap t)). h < next_handle t)"

lemma new_timer_ok [simp]: "timer_ok new_timer" and armed_new [simp]: "armed new_timer n = None"
  by (simp_all add: timer_ok_def new_timer_def armed_def)

lemma map_of_cancel: "map_of (filter (\<lambda>(k, _). k \<noteq> h) q) = (map_of q)(h := None)"
  by (induction q) (auto simp: fun_eq_iff)

lemma map_of_queue_end: "h \<notin> set (map fst q) \<Longrightarrow> map_of (q @ [(h, a)]) = (map_of q)(h \<mapsto> a)"
  by (induction q) (auto simp: fun_eq_iff)

lemma handle_unique:
  assumes "timer_ok t" "map_of (handleMap t) n = Some h" "map_of (handleMap t) m = Some h" shows "n = m"
proof -
  have "inj_on snd (set (handleMap t))" "distinct (handleMap t)" using assms(1) by (simp_all add: timer_ok_def distinct_map)
  then show ?thesis using inj_onD[where f = snd, OF _ _ map_of_SomeD[OF assms(2)] map_of_SomeD[OF assms(3)]] by simp
qed

lemma CancelTimer_ok: "timer_ok t \<Longrightarrow> timer_ok (CancelTimerInner n t)"
proof (cases "map_of (handleMap t) n")
  case (Some h)
  assume ok: "timer_ok t"
  let ?m = "AList.delete n (handleMap t)" and ?q = "filter (\<lambda>(k, _). k \<noteq> h) (queue t)"
  have d: "?m = filter (\<lambda>(k, _). k \<noteq> n) (handleMap t)" unfolding AList.delete_eq by (rule filter_cong) auto
  have sub: "set ?m \<subseteq> set (handleMap t)" "set ?q \<subseteq> set (queue t)" by (auto simp: d)
  have q: "h' \<in> set (map snd ?m)" if "(h', a) \<in> set ?q" for h' a
  proof -
    from that have "h' \<in> set (map snd (handleMap t))" "h' \<noteq> h" using ok by (force simp: timer_ok_def)+
    then obtain m where m: "(m, h') \<in> set (handleMap t)" by auto
    then have "map_of (handleMap t) m = Some h'" using ok by (simp add: timer_ok_def)
    then have "m \<noteq> n" using Some \<open>h' \<noteq> h\<close> by auto
    then show ?thesis using m by (force simp: d)
  qed
  have "distinct (map fst ?q)" "distinct (map fst ?m)" "distinct (map snd ?m)"
    using ok by (auto simp: timer_ok_def d distinct_map_filter)
  moreover have "\<forall>h \<in> set (map snd ?m). h < next_handle t" using ok sub by (auto simp: timer_ok_def)
  ultimately show ?thesis using q Some by (auto simp: timer_ok_def CancelTimerInner_def CancelTask_def Let_def)
qed (simp add: CancelTimerInner_def)

lemma CancelTimer_armed: "timer_ok t \<Longrightarrow> armed (CancelTimerInner n t) = (armed t)(n := None)"
proof
  fix m assume ok: "timer_ok t"
  show "armed (CancelTimerInner n t) m = ((armed t)(n := None)) m"
    using handle_unique[OF ok, of n _ m]
    by (auto simp: armed_def CancelTimerInner_def CancelTask_def map_of_cancel delete_conv' Let_def split: option.splits)
qed

lemma CancelTimer_none: "map_of (handleMap (CancelTimerInner n t)) n = None" "taskId (CancelTimerInner n t) = taskId t"
  "submitted (CancelTimerInner n t) = submitted t"
  by (auto simp: CancelTimerInner_def CancelTask_def Let_def delete_conv' split: option.splits)

lemma armed_fields [simp]: "armed (t\<lparr>taskId := f\<rparr>) = armed t" "armed (t\<lparr>submitted := xs\<rparr>) = armed t"
  by (simp_all add: armed_def fun_eq_iff split: option.split)

lemma timer_ok_fields [simp]: "timer_ok (t\<lparr>taskId := f\<rparr>) = timer_ok t" "timer_ok (t\<lparr>submitted := xs\<rparr>) = timer_ok t"
  by (simp_all add: timer_ok_def)

lemma update_fresh: "map_of m n = None \<Longrightarrow> AList.update n h m = m @ [(n, h)]"
  by (induction m) (auto split: if_splits)

lemma enqueue_ok:
  fixes a :: 'a and t :: "'a FFRTTimer"
  assumes "timer_ok t" "map_of (handleMap t) n = None"
  defines "t' \<equiv> t\<lparr>handleMap := AList.update n (next_handle t) (handleMap t), queue := queue t @ [(next_handle t, a)],
      next_handle := Suc (next_handle t)\<rparr>"
  shows "timer_ok t'" "armed t' = (armed t)(n \<mapsto> a)"
proof -
  have fresh: "next_handle t \<notin> set (map snd (handleMap t))" "next_handle t \<notin> set (map fst (queue t))"
    using assms(1) unfolding timer_ok_def by blast+
  have n: "n \<notin> fst ` set (handleMap t)" using assms(2) by (simp add: map_of_eq_None_iff)
  show "timer_ok t'" using assms(1) fresh n unfolding timer_ok_def t'_def update_fresh[OF assms(2)]
    by (auto simp: less_Suc_eq)
  have f: "map_of (handleMap t) m \<noteq> Some (next_handle t)" for m
    using fresh(1) map_of_SomeD[of "handleMap t" m "next_handle t"] by force
  show "armed t' = (armed t)(n \<mapsto> a)" using f map_of_queue_end[OF fresh(2), of a]
    by (auto simp: armed_def t'_def fun_eq_iff update_conv' split: option.splits)
qed

definition bumped :: "string \<Rightarrow> 'a FFRTTimer \<Rightarrow> 'a FFRTTimer" where
  "bumped n t = (CancelTimerInner n t)\<lparr>taskId := (taskId t)(n := taskId t n + 1)\<rparr>"

lemma bumped_facts:
  assumes "timer_ok t"
  shows "timer_ok (bumped n t)" "map_of (handleMap (bumped n t)) n = None" "armed (bumped n t) = (armed t)(n := None)"
  using CancelTimer_ok[OF assms] CancelTimer_armed[OF assms] CancelTimer_none(1) by (simp_all add: bumped_def)

lemma SetTimer_eq: "SetTimer n a ms t = (let t2 = bumped n t in if ms = 0 then SubmitTask a t2
    else t2\<lparr>handleMap := AList.update n (next_handle t2) (handleMap t2), queue := queue t2 @ [(next_handle t2, a)],
            next_handle := Suc (next_handle t2)\<rparr>)"
  by (simp add: SetTimer_def bumped_def Let_def CancelTimer_none)

lemma SetTimer_ok: "timer_ok t \<Longrightarrow> timer_ok (SetTimer n a ms t)"
  using enqueue_ok(1)[OF bumped_facts(1,2), of t n a] bumped_facts(1)[of t n]
  by (simp add: SetTimer_eq Let_def SubmitTask_def)

lemma SetTimer_armed: "timer_ok t \<Longrightarrow> armed (SetTimer n a ms t) = (armed t)(n := if ms = 0 then None else Some a)"
  using enqueue_ok(2)[OF bumped_facts(1,2), of t n a] bumped_facts(3)[of t n]
  by (simp add: SetTimer_eq Let_def SubmitTask_def)

lemma cancelled_queue: "timer_ok t \<Longrightarrow> queue (CancelAllTimerInner t) = []"
  by (simp add: timer_ok_def CancelAllTimerInner_def filter_empty_conv subset_iff case_prod_unfold)

lemma CancelAll_armed: "timer_ok t \<Longrightarrow> armed (CancelAllTimerInner t) = Map.empty"
  by (simp add: armed_def cancelled_queue fun_eq_iff split: option.split)

lemma CancelAll_ok: "timer_ok t \<Longrightarrow> timer_ok (CancelAllTimerInner t)"
  by (auto simp: timer_ok_def CancelAllTimerInner_def distinct_map_filter)

lemma Clear_ok: "timer_ok t \<Longrightarrow> timer_ok (Clear_timer t)"
  using cancelled_queue[of t] by (simp add: timer_ok_def Clear_timer_def)

lemma Clear_armed: "armed (Clear_timer t) = Map.empty"
  by (simp add: armed_def Clear_timer_def fun_eq_iff)

lemma CancelTask_ok: "timer_ok t \<Longrightarrow> timer_ok (CancelTask h t)"
proof -
  assume ok: "timer_ok t"
  then have "distinct (map fst (queue (CancelTask h t)))" by (simp add: timer_ok_def CancelTask_def distinct_map_filter)
  moreover have "set (map fst (queue (CancelTask h t))) \<subseteq> set (map fst (queue t))" by (simp add: CancelTask_def image_mono)
  ultimately show ?thesis using ok unfolding timer_ok_def CancelTask_def by (simp, blast)
qed

lemma fire_ok: "timer_ok t \<Longrightarrow> timer_ok (fire h t)"
  by (simp add: fire_def SubmitTask_def CancelTask_ok split: option.split)

lemma fire_armed:
  assumes "timer_ok t" "map_of (handleMap t) n = Some h" "armed t n = Some a"
  shows "armed (fire h t) = (armed t)(n := None)" "submitted (fire h t) = submitted t @ [a]"
proof -
  have q: "map_of (queue t) h = Some a" using assms by (simp add: armed_def)
  have h: "map_of (handleMap t) m \<noteq> Some h" if "m \<noteq> n" for m using handle_unique[OF assms(1,2)] that by blast
  show "armed (fire h t) = (armed t)(n := None)" using q assms(2) h
    by (simp add: fire_def armed_def SubmitTask_def CancelTask_def map_of_cancel fun_eq_iff split: option.split) blast
  show "submitted (fire h t) = submitted t @ [a]" using q by (simp add: fire_def SubmitTask_def CancelTask_def)
qed

section \<open>The contract\<close>

text \<open>A service of named timers: setting a name replaces what was waiting under it, cancelling a name
  leaves nothing waiting, and no other name is touched.\<close>

locale named_timers =
  fixes ok :: "'t \<Rightarrow> bool" and waiting :: "'t \<Rightarrow> string \<Rightarrow> 'a option"
    and set_timer :: "string \<Rightarrow> 'a \<Rightarrow> u32 \<Rightarrow> 't \<Rightarrow> 't" and cancel :: "string \<Rightarrow> 't \<Rightarrow> 't" and cancel_all :: "'t \<Rightarrow> 't"
  assumes set_ok: "ok t \<Longrightarrow> ok (set_timer n a ms t)"
    and set_waiting: "ok t \<Longrightarrow> ms \<noteq> 0 \<Longrightarrow> waiting (set_timer n a ms t) = (waiting t)(n \<mapsto> a)"
    and cancel_ok: "ok t \<Longrightarrow> ok (cancel n t)"
    and cancel_waiting: "ok t \<Longrightarrow> waiting (cancel n t) = (waiting t)(n := None)"
    and all_ok: "ok t \<Longrightarrow> ok (cancel_all t)"
    and all_waiting: "ok t \<Longrightarrow> waiting (cancel_all t) = Map.empty"
begin

lemma set_twice: "ok t \<Longrightarrow> ms \<noteq> 0 \<Longrightarrow> ms' \<noteq> 0 \<Longrightarrow> waiting (set_timer n b ms' (set_timer n a ms t)) = waiting (set_timer n b ms' t)"
  by (simp add: set_ok set_waiting)

lemma set_cancel: "ok t \<Longrightarrow> ms \<noteq> 0 \<Longrightarrow> waiting (cancel n (set_timer n a ms t)) = waiting (cancel n t)"
  by (simp add: set_ok set_waiting cancel_waiting)

lemma cancel_other: "ok t \<Longrightarrow> n \<noteq> m \<Longrightarrow> waiting (cancel n t) m = waiting t m"
  by (simp add: cancel_waiting)

end

interpretation ffrt: named_timers timer_ok armed SetTimer CancelTimer CancelAllTimer
  by unfold_locales (simp_all add: SetTimer_ok SetTimer_armed CancelTimer_def CancelTimer_ok CancelTimer_armed
      CancelAllTimer_def CancelAll_ok CancelAll_armed)

section \<open>The pool of timers\<close>

type_synonym 'a FFRTPool = "(string, 'a FFRTTimer) entries"

definition GetTimer :: "string \<Rightarrow> 'a FFRTPool \<Rightarrow> 'a FFRTTimer \<times> 'a FFRTPool" where
  "GetTimer name pool = (case map_of pool name of
      Some timer \<Rightarrow> (timer, pool)
    | None \<Rightarrow> (new_timer, snd (CM_InsertOrAssign name new_timer pool)))"

definition Clear_pool :: "'a FFRTPool \<Rightarrow> 'a FFRTPool" where
  "Clear_pool pool = []"

lemma GetTimer_shared:
  "map_of (snd (GetTimer name pool)) name = Some (fst (GetTimer name pool))"
  "other \<noteq> name \<Longrightarrow> map_of (snd (GetTimer name pool)) other = map_of pool other"
  "snd (GetTimer name (snd (GetTimer name pool))) = snd (GetTimer name pool)"
  by (auto simp: GetTimer_def lookup_ops split: option.split)

end
