(* ===== verification/P2p_Links.thy ===== *)
theory P2p_Links
  imports Ffrt_Timer Service_State
begin

text \<open>
  The links to other devices that pastes of remote files hold
  (\<open>services/core/src/pasteboard_service.cpp\<close>, built with the device manager). \<open>p2pMap_\<close> has for every
  device the pastes that use its link; a paste enters it before the link is opened and leaves it
  when it completes, when nobody starts it in time, or when its process exits; the last one to leave
  closes the link. A link opened ahead of a paste is held by the entry \<open>P2P_PRESYNC_ID\<close>.
  An operation is one step; what it hands to a thread is a \<open>p2p_task\<close> of the timer, run in a later
  step in any order. The calls to the file service and to the plugin are recorded in \<open>calls\<close>, with
  their results; \<open>linked\<close> reads off which links are open. A block object is a number, \<open>ready\<close> holds
  those whose value has been set.
\<close>

section \<open>State\<close>

record PasteboardP2pInfo =
  callPid :: i32
  isSuccess :: bool

datatype p2p_task =
    CompleteTask string string \<comment> \<open>\<open>PasteComplete(networkId, pasteId)\<close>\<close>
  | PreSyncTimeoutTask string
  | OnEstablishTask string nat
  | PreEstablishTask string bool

datatype p2p_status = CONNECT_SUCC | IDLE

datatype p2p_call =
    ConnectDfs string i32
  | DisconnectDfs string
  | ApplyAdvancedResource string i32
  | PublishServiceState string p2p_status i32

record p2p_env =
  p2p_device :: "string \<Rightarrow> i32" \<comment> \<open>the result of \<open>DMAdapter::GetRemoteDeviceInfo\<close>\<close>
  p2p_localId :: string
  p2p_plugin :: bool
  p2p_apply :: "string \<Rightarrow> i32"
  p2p_publish :: "string \<Rightarrow> p2p_status \<Rightarrow> i32"
  p2p_connect :: "string \<Rightarrow> i32"

record p2p =
  p2pMap :: "(string, (string, PasteboardP2pInfo) entries) entries"
  preSyncP2pMap :: "(string \<times> nat) list"
  establishNetworkId :: string
  establishBlock :: "nat option"
  ffrtTimer :: "p2p_task FFRTTimer option"
  ready :: "nat set"
  next_block :: nat
  calls :: "p2p_call list"

definition RESULT_OK :: i32 where "RESULT_OK = 0"
definition P2P_ESTABLISH_STR :: string where "P2P_ESTABLISH_STR = ''P2pEstablish''"
definition P2P_PRESYNC_ID :: string where "P2P_PRESYNC_ID = ''P2pPreSyncId_''"
definition MIN_TRANMISSION_TIME :: u32 where "MIN_TRANMISSION_TIME = 30 * 1000"
definition PRE_ESTABLISH_P2P_LINK_TIME :: u32 where "PRE_ESTABLISH_P2P_LINK_TIME = 2 * 60 * 1000"

definition new_p2p :: p2p where
  "new_p2p = \<lparr>p2pMap = [], preSyncP2pMap = [], establishNetworkId = [], establishBlock = None,
     ffrtTimer = Some new_timer, ready = {}, next_block = 0, calls = []\<rparr>"

definition call :: "p2p_call \<Rightarrow> p2p \<Rightarrow> p2p" where
  "call c s = s\<lparr>calls := calls s @ [c]\<rparr>"

definition set_block :: "nat \<Rightarrow> p2p \<Rightarrow> p2p" where
  "set_block b s = s\<lparr>ready := insert b (ready s)\<rparr>"

definition on_timer :: "(p2p_task FFRTTimer \<Rightarrow> p2p_task FFRTTimer) \<Rightarrow> p2p \<Rightarrow> p2p" where
  "on_timer f s = s\<lparr>ffrtTimer := map_option f (ffrtTimer s)\<rparr>"

section \<open>Opening and closing a link\<close>

definition ClearP2PEstablishTaskInfo :: "p2p \<Rightarrow> p2p" where
  "ClearP2PEstablishTaskInfo s = s\<lparr>establishNetworkId := [], establishBlock := None\<rparr>"

definition erase_device :: "string \<Rightarrow> p2p \<Rightarrow> p2p" where
  "erase_device networkId s = s\<lparr>p2pMap := snd (CM_Erase networkId (p2pMap s))\<rparr>"

definition OpenP2PLink :: "p2p_env \<Rightarrow> string \<Rightarrow> p2p \<Rightarrow> p2p" where
  "OpenP2PLink V networkId s =
     (if p2p_device V networkId \<noteq> E_OK then erase_device networkId s
      else if \<not> p2p_plugin V then erase_device networkId s
      else
        (let status = p2p_apply V networkId; s1 = call (ApplyAdvancedResource networkId status) s
         in if status \<noteq> RESULT_OK then s1
            else
              (let status = p2p_publish V networkId CONNECT_SUCC; s2 = call (PublishServiceState networkId CONNECT_SUCC status) s1
               in if status \<noteq> RESULT_OK then s2
                  else
                    (let status = p2p_connect V networkId; s3 = call (ConnectDfs networkId status) s2
                     in if status \<noteq> RESULT_OK
                        then erase_device networkId (call (PublishServiceState networkId IDLE (p2p_publish V networkId IDLE)) s3)
                        else s3))))"

definition CloseP2PLink :: "p2p_env \<Rightarrow> string \<Rightarrow> p2p \<Rightarrow> p2p" where
  "CloseP2PLink V networkId s =
     (if p2p_device V networkId \<noteq> E_OK then s
      else
        (let s1 = call (DisconnectDfs networkId) s
         in if \<not> p2p_plugin V then s1
            else call (PublishServiceState networkId IDLE (p2p_publish V networkId IDLE)) s1))"

definition default_info :: PasteboardP2pInfo where
  "default_info = \<lparr>callPid = 0, isSuccess = False\<rparr>"

definition put_paste :: "string \<Rightarrow> string \<Rightarrow> (PasteboardP2pInfo \<Rightarrow> PasteboardP2pInfo) \<Rightarrow> p2p \<Rightarrow> p2p" where
  "put_paste networkId pasteId f s = s\<lparr>p2pMap :=
     fst (snd (CM_Compute [] networkId (Some (\<lambda>_ value c.
        (True, fst (snd (CM_Compute default_info pasteId (Some (\<lambda>_ v c. (True, f v, c))) value ())), c))) (p2pMap s) ()))\<rparr>"

definition drop_paste :: "string \<Rightarrow> string \<Rightarrow> p2p \<Rightarrow> p2p" where
  "drop_paste networkId pasteId s = s\<lparr>p2pMap :=
     fst (snd (CM_ComputeIfPresent networkId (Some (\<lambda>_ value c.
        (True, fst (snd (CM_ComputeIfPresent pasteId (Some (\<lambda>_ v c. (False, v, c))) value ())), c))) (p2pMap s) ()))\<rparr>"

definition EstablishP2PLink :: "p2p_env \<Rightarrow> i32 \<Rightarrow> string \<Rightarrow> string \<Rightarrow> p2p \<Rightarrow> p2p" where
  "EstablishP2PLink V pid networkId pasteId s =
     (let s1 = put_paste networkId pasteId (\<lambda>v. v\<lparr>callPid := pid, isSuccess := False\<rparr>) s;
          s2 = on_timer (SetTimer pasteId (CompleteTask networkId pasteId) MIN_TRANMISSION_TIME) s1
      in OpenP2PLink V networkId s2)"

definition presync_ready :: "string \<Rightarrow> p2p \<Rightarrow> bool" where
  "presync_ready networkId s = (case CM_Find [] networkId (p2pMap s) of (found, value) \<Rightarrow>
     found \<and> fst (CM_Find default_info P2P_PRESYNC_ID value) \<and> isSuccess (snd (CM_Find default_info P2P_PRESYNC_ID value)))"

definition CheckAndReuseP2PLink :: "i32 \<Rightarrow> string \<Rightarrow> string \<Rightarrow> p2p \<Rightarrow> nat option \<times> p2p" where
  "CheckAndReuseP2PLink pid networkId pasteId s =
     (let s1 = put_paste networkId pasteId (\<lambda>v. v\<lparr>callPid := pid, isSuccess := False\<rparr>) s;
          s2 = on_timer (SetTimer pasteId (CompleteTask networkId pasteId) MIN_TRANMISSION_TIME) s1
      in if presync_ready networkId s2
         then
           (let s3 = on_timer (CancelTimer (P2P_PRESYNC_ID @ networkId)) s2;
                s4 = drop_paste networkId P2P_PRESYNC_ID s3
            in (map_of (preSyncP2pMap s4) networkId, s4\<lparr>preSyncP2pMap := AList.delete networkId (preSyncP2pMap s4)\<rparr>))
         else (None, s2))"

definition IsContainUri :: "GlobalEvent \<Rightarrow> bool" where
  "IsContainUri evt =
     (if evt_notNeedLink evt \<and> \<not> evt_isDelay evt then False
      else list_ex (\<lambda>key. key \<in> set (evt_dataType evt)) [MIMETYPE_TEXT_URI, MIMETYPE_TEXT_HTML])"

definition OnEstablishP2PLinkTask :: "p2p_env \<Rightarrow> string \<Rightarrow> nat option \<Rightarrow> p2p \<Rightarrow> p2p" where
  "OnEstablishP2PLinkTask V networkId pasteBlock s = (case pasteBlock of
      None \<Rightarrow> s
    | Some b \<Rightarrow>
        (let s1 = set_block b (OpenP2PLink V networkId s)
         in (case CM_Find [] networkId (p2pMap s1) of (found, value) \<Rightarrow>
               if \<not> found \<or> CM_Empty value then CloseP2PLink V networkId s1 else s1)))"

definition EstablishP2PLinkTask :: "p2p_env \<Rightarrow> i32 \<Rightarrow> string \<Rightarrow> GlobalEvent \<Rightarrow> p2p \<Rightarrow> nat option \<times> p2p" where
  "EstablishP2PLinkTask V pid pasteId event s =
     (let networkId = evt_deviceId event
      in if networkId = [] \<or> networkId = p2p_localId V then (None, s)
         else if \<not> IsContainUri event then (None, s)
         else
           (case CheckAndReuseP2PLink pid networkId pasteId s of
              (Some result, s1) \<Rightarrow> (Some result, s1)
            | (None, s1) \<Rightarrow>
                if ffrtTimer s1 = None then (None, s1)
                else
                  (let b = next_block s1;
                       s2 = s1\<lparr>next_block := Suc b, establishNetworkId := networkId, establishBlock := Some b\<rparr>
                   in (Some b, on_timer (SetTimer (pasteId @ P2P_ESTABLISH_STR) (OnEstablishTask networkId b) 0) s2))))"

section \<open>The end of a paste\<close>

definition PasteStart :: "string \<Rightarrow> p2p \<Rightarrow> p2p" where
  "PasteStart pasteId s = on_timer (CancelTimer pasteId) s"

definition PasteComplete :: "p2p_env \<Rightarrow> string \<Rightarrow> string \<Rightarrow> p2p \<Rightarrow> i32 \<times> p2p" where
  "PasteComplete V deviceId pasteId s =
     (if deviceId = [] then (NO_DATA_ERROR, s)
      else
        (case CM_ComputeIfPresent deviceId (Some (\<lambda>_ value s1.
             (let value' = fst (snd (CM_ComputeIfPresent pasteId (Some (\<lambda>_ v c. (False, v, c))) value ()))
              in if CM_Empty value' then (False, value', CloseP2PLink V deviceId s1) else (True, value', s1)))) (p2pMap s) s
         of (_, m, s2) \<Rightarrow> (ERR_OK, s2\<lparr>p2pMap := m\<rparr>)))"

definition exit_paste :: "i32 \<Rightarrow> string \<Rightarrow> (string, PasteboardP2pInfo, p2p) action" where
  "exit_paste pid networkId _ value s = (if callPid value = pid then (True, value, PasteStart networkId s) else (False, value, s))"

definition exit_device :: "i32 \<Rightarrow> (string, (string, PasteboardP2pInfo) entries, string list \<times> p2p) action" where
  "exit_device pid networkId pidMap st = (case st of (networkIds, s) \<Rightarrow>
     (case CM_EraseIf (Some (exit_paste pid networkId)) pidMap s of (_, pidMap', s') \<Rightarrow>
        if CM_Empty pidMap' then (True, pidMap', networkIds @ [networkId], s') else (False, pidMap', networkIds, s')))"

definition exit_links :: "p2p_env \<Rightarrow> i32 \<Rightarrow> p2p \<Rightarrow> p2p" where
  "exit_links V pid s =
     (case CM_EraseIf (Some (exit_device pid)) (p2pMap s) ([], s) of (_, m, networkIds, s1) \<Rightarrow>
        fold (CloseP2PLink V) networkIds (s1\<lparr>p2pMap := m\<rparr>))"

definition close_links :: "p2p_env \<Rightarrow> p2p \<Rightarrow> p2p" where
  "close_links V s =
     (case CM_ForEach (Some (\<lambda>deviceId value s1. (False, value, CloseP2PLink V deviceId s1))) (p2pMap s) s of
        (m, s2) \<Rightarrow> s2\<lparr>p2pMap := CM_Clear m\<rparr>)"

section \<open>Links opened ahead of a paste\<close>

definition DeletePreSyncP2pMap :: "string \<Rightarrow> p2p \<Rightarrow> p2p" where
  "DeletePreSyncP2pMap networkId s = (case map_of (preSyncP2pMap s) networkId of
      None \<Rightarrow> s
    | Some b \<Rightarrow> (set_block b s)\<lparr>preSyncP2pMap := AList.delete networkId (preSyncP2pMap s)\<rparr>)"

definition DeletePreSyncP2pFromP2pMap :: "string \<Rightarrow> p2p \<Rightarrow> p2p" where
  "DeletePreSyncP2pFromP2pMap networkId s =
     DeletePreSyncP2pMap networkId
       (drop_paste networkId P2P_PRESYNC_ID (on_timer (CancelTimer (P2P_PRESYNC_ID @ networkId)) s))"

definition AddPreSyncP2pTimeoutTask :: "string \<Rightarrow> p2p \<Rightarrow> p2p" where
  "AddPreSyncP2pTimeoutTask networkId s =
     on_timer (\<lambda>t. SetTimer (P2P_PRESYNC_ID @ networkId) (PreSyncTimeoutTask networkId) PRE_ESTABLISH_P2P_LINK_TIME
       (CancelTimer (P2P_PRESYNC_ID @ networkId) t)) s"

definition OpenP2PLinkForPreEstablish :: "p2p_env \<Rightarrow> string \<Rightarrow> bool \<Rightarrow> p2p \<Rightarrow> bool \<times> p2p" where
  "OpenP2PLinkForPreEstablish V networkId clipPlugin s =
     (if p2p_device V networkId \<noteq> E_OK then (False, DeletePreSyncP2pFromP2pMap networkId s)
      else
        (let status = p2p_connect V networkId; s1 = call (ConnectDfs networkId status) s
         in if status \<noteq> RESULT_OK then (False, DeletePreSyncP2pFromP2pMap networkId s1)
            else
              (let s2 = put_paste networkId P2P_PRESYNC_ID (\<lambda>v. v\<lparr>isSuccess := True\<rparr>) s1;
                   s3 = (if clipPlugin then call (PublishServiceState networkId CONNECT_SUCC (p2p_publish V networkId CONNECT_SUCC)) s2
                         else s2)
               in (True, AddPreSyncP2pTimeoutTask networkId s3))))"

definition PreEstablishP2PLink :: "p2p_env \<Rightarrow> string \<Rightarrow> bool \<Rightarrow> p2p \<Rightarrow> p2p" where
  "PreEstablishP2PLink V networkId clipPlugin s =
     (if establishBlock s \<noteq> None \<and> establishNetworkId s = networkId then s
      else if presync_ready networkId s then AddPreSyncP2pTimeoutTask networkId s
      else
        (let b = next_block s;
             s1 = put_paste networkId P2P_PRESYNC_ID (\<lambda>v. v\<lparr>callPid := 0, isSuccess := False\<rparr>) (s\<lparr>next_block := Suc b\<rparr>);
             s2 = s1\<lparr>preSyncP2pMap := (if map_of (preSyncP2pMap s1) networkId = None then (networkId, b) # preSyncP2pMap s1
                     else preSyncP2pMap s1)\<rparr>
         in set_block b (snd (OpenP2PLinkForPreEstablish V networkId clipPlugin s2))))"

definition PreEstablishP2PLinkCallback :: "string \<Rightarrow> bool \<Rightarrow> p2p \<Rightarrow> p2p" where
  "PreEstablishP2PLinkCallback networkId clipPlugin s =
     (if networkId = [] then s
      else if \<not> clipPlugin then s
      else if ffrtTimer s = None then s
      else on_timer (SetTimer (''PreEstablishP2PLink_'' @ networkId) (PreEstablishTask networkId clipPlugin) 0) s)"

section \<open>Threads\<close>

definition run_task :: "p2p_env \<Rightarrow> p2p_task \<Rightarrow> p2p \<Rightarrow> p2p" where
  "run_task V task s = (case task of
      CompleteTask networkId pasteId \<Rightarrow> snd (PasteComplete V networkId pasteId s)
    | PreSyncTimeoutTask networkId \<Rightarrow> DeletePreSyncP2pMap networkId (snd (PasteComplete V networkId P2P_PRESYNC_ID s))
    | OnEstablishTask networkId b \<Rightarrow> OnEstablishP2PLinkTask V networkId (Some b) s
    | PreEstablishTask networkId clipPlugin \<Rightarrow> PreEstablishP2PLink V networkId clipPlugin s)"

end
