(* ===== verification/P2p_Safe.thy ===== *)
theory P2p_Safe
  imports P2p_Links
begin

text \<open>
  Which links are open, and the runs of the link table: every request, exit, switch, timer and
  thread is one event. As long as a device with an open link can be reached and connected to again,
  every open link belongs to a device of the table, so that it is closed when the last paste
  leaves; a paste that nobody starts is released by its timer.
\<close>

section \<open>Open links\<close>

fun link_step :: "p2p_call \<Rightarrow> string set \<Rightarrow> string set" where
  "link_step (ConnectDfs d r) L = (if r = RESULT_OK then insert d L else L)"
| "link_step (DisconnectDfs d) L = L - {d}"
| "link_step _ L = L"

definition linked :: "p2p \<Rightarrow> string set" where
  "linked s = fold link_step (calls s) {}"

definition devices :: "p2p \<Rightarrow> string set" where
  "devices s = fst ` set (p2pMap s)"

lemma devices_lookup: "d \<in> devices s \<longleftrightarrow> map_of (p2pMap s) d \<noteq> None"
  by (simp add: devices_def in_keys_iff)

lemma linked_call [simp]: "linked (call c s) = link_step c (linked s)" and devices_call [simp]: "devices (call c s) = devices s"
  by (simp_all add: linked_def call_def devices_def)

lemma fields_kept [simp]:
  "linked (on_timer f s) = linked s" "devices (on_timer f s) = devices s"
  "linked (set_block b s) = linked s" "devices (set_block b s) = devices s"
  "linked (s\<lparr>preSyncP2pMap := m\<rparr>) = linked s" "devices (s\<lparr>preSyncP2pMap := m\<rparr>) = devices s"
  "linked (s\<lparr>next_block := b\<rparr>) = linked s" "devices (s\<lparr>next_block := b\<rparr>) = devices s"
  "linked (s\<lparr>establishNetworkId := n\<rparr>) = linked s" "devices (s\<lparr>establishNetworkId := n\<rparr>) = devices s"
  "linked (s\<lparr>establishBlock := x\<rparr>) = linked s" "devices (s\<lparr>establishBlock := x\<rparr>) = devices s"
  "linked (s\<lparr>ffrtTimer := t\<rparr>) = linked s" "devices (s\<lparr>ffrtTimer := t\<rparr>) = devices s"
  "linked (s\<lparr>p2pMap := mm\<rparr>) = linked s"
  by (simp_all add: linked_def on_timer_def devices_def set_block_def)

lemma linked_paste [simp]: "linked (put_paste d p f s) = linked s" "linked (drop_paste d p s) = linked s"
    "linked (erase_device d s) = linked s"
  by (simp_all add: put_paste_def drop_paste_def erase_device_def)

lemma devices_put [simp]: "devices (put_paste d p f s) = insert d (devices s)"
  by (rule set_eqI) (simp add: devices_lookup put_paste_def lookup_ops Let_def split: if_splits)

lemma devices_drop [simp]: "devices (drop_paste d p s) = devices s"
  by (rule set_eqI) (auto simp: devices_lookup drop_paste_def lookup_ops split: option.split)

lemma devices_erase [simp]: "devices (erase_device d s) = devices s - {d}"
  by (rule set_eqI) (simp add: devices_lookup erase_device_def lookup_ops)

definition opens :: "p2p_env \<Rightarrow> string \<Rightarrow> bool" where
  "opens V d \<longleftrightarrow> p2p_device V d = E_OK \<and> p2p_plugin V \<and> p2p_apply V d = RESULT_OK \<and>
     p2p_publish V d CONNECT_SUCC = RESULT_OK \<and> p2p_connect V d = RESULT_OK"

lemma linked_Open [simp]: "linked (OpenP2PLink V d s) = (if opens V d then insert d (linked s) else linked s)"
  by (simp add: OpenP2PLink_def opens_def Let_def)

lemma devices_Open: "devices (OpenP2PLink V d s) = devices s \<or>
    (devices (OpenP2PLink V d s) = devices s - {d} \<and> \<not> (p2p_device V d = E_OK \<and> p2p_plugin V \<and> p2p_connect V d = RESULT_OK))"
  by (simp add: OpenP2PLink_def Let_def)

lemma linked_Close [simp]: "linked (CloseP2PLink V d s) = (if p2p_device V d = E_OK then linked s - {d} else linked s)"
  by (simp add: CloseP2PLink_def Let_def)

lemma p2pMap_Close [simp]: "p2pMap (CloseP2PLink V d s) = p2pMap s"
  by (simp add: CloseP2PLink_def Let_def call_def)

lemma devices_Close [simp]: "devices (CloseP2PLink V d s) = devices s"
  by (simp add: devices_def)

section \<open>Held links\<close>

definition held :: "p2p \<Rightarrow> bool" where
  "held s \<longleftrightarrow> linked s \<subseteq> devices s"

text \<open>What is relied on: a device with an open link is online, the plugin is loaded, and connecting to
  it once more succeeds.\<close>

definition stable :: "p2p_env \<Rightarrow> p2p \<Rightarrow> bool" where
  "stable V s \<longleftrightarrow> (\<forall>d \<in> linked s. p2p_device V d = E_OK \<and> p2p_plugin V \<and> p2p_connect V d = RESULT_OK)"

lemma Open_held:
  assumes "stable V s" "held s"
  shows "linked (OpenP2PLink V d s) - {d} \<subseteq> devices (OpenP2PLink V d s)"
    "d \<in> devices s \<Longrightarrow> held (OpenP2PLink V d s)"
  using assms devices_Open[of V d s] by (auto simp: stable_def opens_def held_def)

lemma EstablishP2PLink_held: "stable V s \<Longrightarrow> held s \<Longrightarrow> held (EstablishP2PLink V pid d p s)"
  unfolding EstablishP2PLink_def Let_def by (rule Open_held(2)) (auto simp: held_def stable_def)

lemma Reuse_held: "held s \<Longrightarrow> held (snd (CheckAndReuseP2PLink pid d p s))"
  by (auto simp: CheckAndReuseP2PLink_def Let_def held_def)

lemma EstablishTask_held: "held s \<Longrightarrow> held (snd (EstablishP2PLinkTask V pid p evt s))"
  using Reuse_held[of s pid "evt_deviceId evt" p]
  by (auto simp: EstablishP2PLinkTask_def Let_def held_def split: prod.split option.split)

lemma found_device: "fst (CM_Find dflt d (p2pMap s)) \<longleftrightarrow> d \<in> devices s"
  by (simp add: results_ops devices_lookup)

lemma OnEstablish_held: "stable V s \<Longrightarrow> held s \<Longrightarrow> held (OnEstablishP2PLinkTask V d b s)"
proof (cases b)
  case (Some n)
  assume st: "stable V s" and h: "held s"
  define s1 where "s1 = set_block n (OpenP2PLink V d s)"
  have a: "linked s1 - {d} \<subseteq> devices s1" using Open_held(1)[OF st h, of d] by (simp add: s1_def)
  have d: "d \<in> linked s1 \<Longrightarrow> p2p_device V d = E_OK" using st
    by (auto simp: s1_def stable_def opens_def split: if_splits)
  obtain found v where f: "CM_Find [] d (p2pMap s1) = (found, v)" by (cases "CM_Find [] d (p2pMap s1)")
  have fd: "found \<longleftrightarrow> d \<in> devices s1" using found_device[of "[]" d s1] by (simp add: f)
  have e: "OnEstablishP2PLinkTask V d b s = (if \<not> found \<or> CM_Empty v then CloseP2PLink V d s1 else s1)"
    using f by (simp add: OnEstablishP2PLinkTask_def Some s1_def Let_def)
  show ?thesis unfolding e held_def using a d fd by auto
qed (simp add: OnEstablishP2PLinkTask_def)

lemma PasteComplete_result: "fst (PasteComplete V d p s) = (if d = [] then NO_DATA_ERROR else ERR_OK)"
  by (simp add: PasteComplete_def split: prod.split)

definition without :: "string \<Rightarrow> (string, PasteboardP2pInfo) entries \<Rightarrow> (string, PasteboardP2pInfo) entries" where
  "without p m = (if map_of m p = None then m else filter (\<lambda>e. fst e \<noteq> p) m)"

lemma PasteComplete_eq:
  "snd (PasteComplete V d p s) =
     (if d = [] then s
      else (case map_of (p2pMap s) d of
          None \<Rightarrow> s
        | Some m \<Rightarrow> if without p m = [] then (CloseP2PLink V d s)\<lparr>p2pMap := filter (\<lambda>e. fst e \<noteq> d) (p2pMap s)\<rparr>
                    else s\<lparr>p2pMap := set_value d (without p m) (p2pMap s)\<rparr>))"
  by (cases "map_of (p2pMap s) d")
    (auto simp: PasteComplete_def CM_ComputeIfPresent_def CM_Empty_def CM_Erase_def without_def Let_def split: option.split)

lemma devices_PasteComplete: "devices (snd (PasteComplete V d p s)) = devices s \<or>
    (devices (snd (PasteComplete V d p s)) = devices s - {d} \<and> linked (snd (PasteComplete V d p s)) = linked (CloseP2PLink V d s))"
proof (cases "map_of (p2pMap s) d")
  case (Some m)
  have k: "fst ` set (set_value d v m) = fst ` set m" for v m by (metis keys_set_value list.set_map)
  have f: "fst ` {e \<in> set (p2pMap s). fst e \<noteq> d} = fst ` set (p2pMap s) - {d}" by auto
  show ?thesis by (simp add: PasteComplete_eq Some k f devices_def)
qed (simp add: PasteComplete_eq)

lemma linked_PasteComplete: "linked (snd (PasteComplete V d p s)) \<subseteq> linked s"
  by (auto simp: PasteComplete_eq split: option.split)

lemma PasteComplete_held:
  assumes "stable V s" "held s" shows "held (snd (PasteComplete V d p s))"
  using devices_PasteComplete[of V d p s] linked_PasteComplete[of V d p s] assms
  by (auto simp: held_def stable_def split: if_splits)

lemma Delete_held [simp]: "linked (DeletePreSyncP2pMap d s) = linked s" "devices (DeletePreSyncP2pMap d s) = devices s"
  by (simp_all add: DeletePreSyncP2pMap_def split: option.split)

lemma DeleteFrom_held [simp]: "linked (DeletePreSyncP2pFromP2pMap d s) = linked s"
    "devices (DeletePreSyncP2pFromP2pMap d s) = devices s"
  by (simp_all add: DeletePreSyncP2pFromP2pMap_def)

lemma AddTimeout_held [simp]: "linked (AddPreSyncP2pTimeoutTask d s) = linked s" "devices (AddPreSyncP2pTimeoutTask d s) = devices s"
  by (simp_all add: AddPreSyncP2pTimeoutTask_def)

lemma PreEstablish_held: "held s \<Longrightarrow> held (PreEstablishP2PLink V d c s)"
  by (auto simp: PreEstablishP2PLink_def OpenP2PLinkForPreEstablish_def held_def Let_def)

lemma run_held:
  assumes "stable V s" "held s" shows "held (run_task V t s)"
proof (cases t)
  case (PreSyncTimeoutTask d)
  then show ?thesis using PasteComplete_held[OF assms, of d P2P_PRESYNC_ID] by (simp add: run_task_def held_def)
qed (simp_all add: run_task_def PasteComplete_held OnEstablish_held PreEstablish_held assms)

section \<open>Exit of a process and the switch\<close>

definition kept :: "i32 \<Rightarrow> (string, PasteboardP2pInfo) entries \<Rightarrow> (string, PasteboardP2pInfo) entries" where
  "kept pid = filter (\<lambda>(_, v). callPid v \<noteq> pid)"

lemma same_links:
  assumes "linked s' = linked s" "devices s' = devices s" shows "held s' = held s"
  using assms by (simp add: held_def)

lemma on_timer_id: "on_timer (\<lambda>a. a) s = s"
  by (cases s) (simp add: on_timer_def option.map_ident)

lemma on_timer_comp: "on_timer f (on_timer g s) = on_timer (f \<circ> g) s"
  by (simp add: on_timer_def option.map_comp)

lemma exit_paste_loop: "\<exists>f. erase_loop (exit_paste pid d) m s = (kept pid m, on_timer f s)"
proof (induction m arbitrary: s)
  case Nil
  show ?case by (rule exI[of _ "\<lambda>a. a"]) (simp add: on_timer_id kept_def)
next
  case (Cons kv m)
  obtain k v where kv: "kv = (k, v)" by (cases kv)
  obtain f where f: "erase_loop (exit_paste pid d) m (PasteStart d s) = (kept pid m, on_timer f (PasteStart d s))"
    using Cons.IH by blast
  obtain g where g: "erase_loop (exit_paste pid d) m s = (kept pid m, on_timer g s)" using Cons.IH by blast
  have p: "exit_paste pid d k v s = (if callPid v = pid then (True, v, PasteStart d s) else (False, v, s))"
    by (simp add: exit_paste_def)
  show ?case
  proof (cases "callPid v = pid")
    case True
    then have "erase_loop (exit_paste pid d) (kv # m) s = (kept pid (kv # m), on_timer (f \<circ> CancelTimer d) s)"
      using f by (simp add: kv erase_loop_Cons p kept_def PasteStart_def on_timer_comp del: erase_loop.simps)
    then show ?thesis by blast
  next
    case False
    then have "erase_loop (exit_paste pid d) (kv # m) s = (kept pid (kv # m), on_timer g s)"
      using g by (simp add: kv erase_loop_Cons p kept_def del: erase_loop.simps)
    then show ?thesis by blast
  qed
qed

definition closing :: "i32 \<Rightarrow> (string, (string, PasteboardP2pInfo) entries) entries \<Rightarrow> string list" where
  "closing pid m = map fst (filter (\<lambda>(_, v). kept pid v = []) m)"

definition remaining :: "i32 \<Rightarrow> (string, (string, PasteboardP2pInfo) entries) entries \<Rightarrow>
    (string, (string, PasteboardP2pInfo) entries) entries" where
  "remaining pid m = filter (\<lambda>(_, v). v \<noteq> []) (map (\<lambda>(d, v). (d, kept pid v)) m)"

lemma exit_device_loop:
  "\<exists>f. erase_loop (exit_device pid) m (ds, s) = (remaining pid m, ds @ closing pid m, on_timer f s)"
proof (induction m arbitrary: ds s)
  case Nil
  show ?case by (rule exI[of _ "\<lambda>a. a"]) (simp add: on_timer_id remaining_def closing_def)
next
  case (Cons kv m)
  obtain d v where kv: "kv = (d, v)" by (cases kv)
  obtain g where g: "erase_loop (exit_paste pid d) v s = (kept pid v, on_timer g s)" using exit_paste_loop by blast
  have e: "exit_device pid d v (ds, s) =
      (if kept pid v = [] then (True, [], ds @ [d], on_timer g s) else (False, kept pid v, ds, on_timer g s))"
    using g by (auto simp: exit_device_def CM_EraseIf_def CM_Empty_def)
  obtain f where f: "erase_loop (exit_device pid) m (if kept pid v = [] then ds @ [d] else ds, on_timer g s) =
      (remaining pid m, (if kept pid v = [] then ds @ [d] else ds) @ closing pid m, on_timer f (on_timer g s))"
    using Cons.IH by blast
  have "erase_loop (exit_device pid) (kv # m) (ds, s) = (remaining pid (kv # m), ds @ closing pid (kv # m), on_timer (f \<circ> g) s)"
    using f by (cases "kept pid v = []")
      (simp_all add: kv erase_loop_Cons e remaining_def closing_def on_timer_comp del: erase_loop.simps)
  then show ?case by blast
qed

lemma fold_close: "p2pMap (fold (CloseP2PLink V) ds s) = p2pMap s"
    "linked (fold (CloseP2PLink V) ds s) = linked s - {d \<in> set ds. p2p_device V d = E_OK}"
  by (induction ds arbitrary: s) auto

lemma exit_links_eq:
  "p2pMap (exit_links V pid s) = remaining pid (p2pMap s)"
  "linked (exit_links V pid s) = linked s - {d \<in> set (closing pid (p2pMap s)). p2p_device V d = E_OK}"
proof -
  obtain f where "erase_loop (exit_device pid) (p2pMap s) ([], s) = (remaining pid (p2pMap s), closing pid (p2pMap s), on_timer f s)"
    using exit_device_loop[of pid "p2pMap s" "[]" s] by auto
  then have "exit_links V pid s = fold (CloseP2PLink V) (closing pid (p2pMap s)) ((on_timer f s)\<lparr>p2pMap := remaining pid (p2pMap s)\<rparr>)"
    by (simp add: exit_links_def CM_EraseIf_def)
  then show "p2pMap (exit_links V pid s) = remaining pid (p2pMap s)"
    "linked (exit_links V pid s) = linked s - {d \<in> set (closing pid (p2pMap s)). p2p_device V d = E_OK}"
    by (simp_all add: fold_close)
qed

lemma exit_held:
  assumes "stable V s" "held s" shows "held (exit_links V pid s)"
proof -
  have "d \<in> devices (exit_links V pid s)" if "d \<in> linked (exit_links V pid s)" for d
  proof -
    have "d \<in> linked s" using that by (simp add: exit_links_eq)
    then have on: "p2p_device V d = E_OK" and "d \<in> devices s" using assms by (auto simp: stable_def held_def)
    then obtain v where v: "(d, v) \<in> set (p2pMap s)" by (auto simp: devices_def)
    then have "kept pid v \<noteq> []" using that on by (force simp: exit_links_eq closing_def)
    then show ?thesis using v by (force simp: devices_def exit_links_eq remaining_def)
  qed
  then show ?thesis by (auto simp: held_def)
qed

lemma close_loop: "fst (each_loop (\<lambda>d v s1. (False, v, CloseP2PLink V d s1)) m s) = m"
    "snd (each_loop (\<lambda>d v s1. (False, v, CloseP2PLink V d s1)) m s) = fold (CloseP2PLink V) (map fst m) s"
  by (induction m arbitrary: s) (auto simp: case_prod_unfold)

lemma close_links_eq: "close_links V s = (fold (CloseP2PLink V) (map fst (p2pMap s)) s)\<lparr>p2pMap := []\<rparr>"
  by (simp add: close_links_def CM_ForEach_def CM_Clear_def case_prod_unfold close_loop)

lemma close_links_held: "stable V s \<Longrightarrow> held s \<Longrightarrow> linked (close_links V s) = {}"
  by (auto simp: close_links_eq fold_close held_def devices_def stable_def)

section \<open>Runs\<close>

datatype p2p_event =
    Establish i32 string string
  | EstablishWithTask i32 string GlobalEvent
  | EstablishDone
  | Start string
  | Complete string string
  | Exit i32
  | SwitchOff
  | PreEstablishCallback string bool
  | Fire nat
  | Run nat

text \<open>\<open>Run k\<close> starts one of the tasks that are due, \<open>Fire h\<close> is the time of a waiting task.\<close>

fun exec :: "p2p_env \<Rightarrow> p2p_event \<Rightarrow> p2p \<Rightarrow> p2p" where
  "exec V (Establish pid d p) s = EstablishP2PLink V pid d p s"
| "exec V (EstablishWithTask pid p evt) s = snd (EstablishP2PLinkTask V pid p evt s)"
| "exec V EstablishDone s = ClearP2PEstablishTaskInfo s"
| "exec V (Start p) s = PasteStart p s"
| "exec V (Complete d p) s = snd (PasteComplete V d p s)"
| "exec V (Exit pid) s = exit_links V pid s"
| "exec V SwitchOff s = close_links V s"
| "exec V (PreEstablishCallback d c) s = PreEstablishP2PLinkCallback d c s"
| "exec V (Fire h) s = on_timer (fire h) s"
| "exec V (Run k) s = (case ffrtTimer s of
      None \<Rightarrow> s
    | Some t \<Rightarrow> if k < length (submitted t)
        then run_task V (submitted t ! k) (s\<lparr>ffrtTimer := Some (t\<lparr>submitted := take k (submitted t) @ drop (Suc k) (submitted t)\<rparr>)\<rparr>)
        else s)"

inductive link_run :: "p2p \<Rightarrow> bool" where
  link_init: "link_run new_p2p"
| link_next: "link_run s \<Longrightarrow> stable V s \<Longrightarrow> link_run (exec V ev s)"

lemma exec_held:
  assumes "stable V s" "held s" shows "held (exec V ev s)"
proof (cases ev)
  case (Run k)
  have "held (run_task V t (s\<lparr>ffrtTimer := x\<rparr>))" for t x
    using run_held[of V "s\<lparr>ffrtTimer := x\<rparr>" t] assms by (simp add: stable_def held_def)
  then show ?thesis using assms by (auto simp: Run split: option.split)
next
  case SwitchOff
  then show ?thesis using close_links_held[OF assms] by (simp add: held_def)
next
  case EstablishDone
  then show ?thesis using assms(2) by (simp add: ClearP2PEstablishTaskInfo_def held_def)
next
  case (Start p)
  then show ?thesis using assms(2) by (simp add: PasteStart_def held_def)
next
  case (PreEstablishCallback d c)
  then show ?thesis using assms(2) by (simp add: PreEstablishP2PLinkCallback_def held_def)
next
  case (Fire h)
  then show ?thesis using assms(2) by (simp add: held_def)
qed (simp_all add: EstablishP2PLink_held EstablishTask_held PasteComplete_held exit_held assms)

lemma links_never_forgotten_facts:
  assumes "link_run s" "stable V s"
  shows "linked s \<subseteq> devices s"
    and "\<lbrakk>d \<noteq> []; map_of (p2pMap s) d = Some m; without p m = []\<rbrakk> \<Longrightarrow> d \<notin> linked (snd (PasteComplete V d p s)) \<and> d \<notin> devices (snd (PasteComplete V d p s))"
    and "\<lbrakk>map_of (p2pMap s) d = Some m; without p m \<noteq> []\<rbrakk> \<Longrightarrow> linked (snd (PasteComplete V d p s)) = linked s"
    and "linked (close_links V s) = {}"
proof -
  have h: "held s'" if "link_run s'" for s' using that by induction (simp_all add: exec_held, simp add: held_def linked_def new_p2p_def)
  from h[OF assms(1)] show l: "linked s \<subseteq> devices s" by (simp add: held_def)
  show "d \<notin> linked (snd (PasteComplete V d p s)) \<and> d \<notin> devices (snd (PasteComplete V d p s))"
    if "d \<noteq> []" "map_of (p2pMap s) d = Some m" "without p m = []"
    using that assms(2) by (auto simp: PasteComplete_eq devices_def stable_def)
  show "linked (snd (PasteComplete V d p s)) = linked s" if "map_of (p2pMap s) d = Some m" "without p m \<noteq> []"
    using that by (simp add: PasteComplete_eq)
  show "linked (close_links V s) = {}" by (rule close_links_held[OF assms(2)]) (simp add: l held_def)
qed


definition online_env :: p2p_env where
  "online_env = \<lparr>p2p_device = (\<lambda>_. E_OK), p2p_localId = ''me'', p2p_plugin = True, p2p_apply = (\<lambda>_. 0),
     p2p_publish = (\<lambda>_ _. 0), p2p_connect = (\<lambda>_. 0)\<rparr>"


section \<open>Pastes that nobody starts\<close>

lemma put_lookup: "map_of (p2pMap (put_paste d p f s)) d = Some (fst (snd (CM_Compute default_info p (Some (\<lambda>_ v c. (True, f v, c)))
    (case map_of (p2pMap s) d of None \<Rightarrow> [] | Some m \<Rightarrow> m) ())))"
  by (simp add: put_paste_def lookup_ops Let_def)

lemma waits_after_reuse:
  assumes "ffrtTimer s = Some t" "timer_ok t" "p \<noteq> P2P_PRESYNC_ID @ d"
  shows "\<exists>t'. ffrtTimer (snd (CheckAndReuseP2PLink pid d p s)) = Some t' \<and> timer_ok t' \<and> armed t' p = Some (CompleteTask d p)"
proof -
  let ?t1 = "SetTimer p (CompleteTask d p) MIN_TRANMISSION_TIME t"
  have ms: "MIN_TRANMISSION_TIME \<noteq> 0" by (simp add: MIN_TRANMISSION_TIME_def)
  have t1: "timer_ok ?t1" "armed ?t1 p = Some (CompleteTask d p)" using ffrt.set_ok[OF assms(2)] ffrt.set_waiting[OF assms(2) ms]
    by simp_all
  have t2: "timer_ok (CancelTimer (P2P_PRESYNC_ID @ d) ?t1)" "armed (CancelTimer (P2P_PRESYNC_ID @ d) ?t1) p = Some (CompleteTask d p)"
    using ffrt.cancel_ok[OF t1(1)] ffrt.cancel_other[OF t1(1), of "P2P_PRESYNC_ID @ d" p] t1(2) assms(3) by simp_all
  show ?thesis using assms(1) t1 t2
    by (simp add: CheckAndReuseP2PLink_def Let_def on_timer_def put_paste_def drop_paste_def)
qed

lemma waits_after_establish:
  assumes "ffrtTimer s = Some t" "timer_ok t" "evt_deviceId evt \<noteq> []" "evt_deviceId evt \<noteq> p2p_localId V" "IsContainUri evt"
    "p \<noteq> P2P_PRESYNC_ID @ evt_deviceId evt"
  shows "\<exists>t'. ffrtTimer (snd (EstablishP2PLinkTask V pid p evt s)) = Some t' \<and> timer_ok t' \<and>
    armed t' p = Some (CompleteTask (evt_deviceId evt) p)"
proof -
  obtain r s1 where c: "CheckAndReuseP2PLink pid (evt_deviceId evt) p s = (r, s1)" by (meson surj_pair)
  obtain t1 where t1: "ffrtTimer s1 = Some t1" "timer_ok t1" "armed t1 p = Some (CompleteTask (evt_deviceId evt) p)"
    using waits_after_reuse[OF assms(1,2,6), of pid] by (auto simp: c)
  have n: "p @ P2P_ESTABLISH_STR \<noteq> p" by (simp add: P2P_ESTABLISH_STR_def)
  have "armed (SetTimer (p @ P2P_ESTABLISH_STR) a 0 t1) p = armed t1 p" for a using n by (simp add: SetTimer_armed[OF t1(2)])
  then show ?thesis using assms c t1 ffrt.set_ok[OF t1(2)]
    by (cases r) (simp_all add: EstablishP2PLinkTask_def Let_def on_timer_def)
qed

lemma abandoned_paste_released_facts:
  assumes timer: "ffrtTimer s = Some t" "timer_ok t"
    and remote: "evt_deviceId evt \<noteq> []" "evt_deviceId evt \<noteq> p2p_localId V" "IsContainUri evt"
    and id: "p \<noteq> P2P_PRESYNC_ID @ evt_deviceId evt"
    and online: "p2p_device V (evt_deviceId evt) = E_OK"
    and s1: "s1 = snd (EstablishP2PLinkTask V pid p evt s)"
  shows "\<exists>t1. ffrtTimer s1 = Some t1 \<and> armed t1 p = Some (CompleteTask (evt_deviceId evt) p)"
    and "\<exists>t2. ffrtTimer (PasteStart p s1) = Some t2 \<and> armed t2 p = None"
    and "map_of (p2pMap (run_task V (CompleteTask (evt_deviceId evt) p) s2)) (evt_deviceId evt) =
      (case map_of (p2pMap s2) (evt_deviceId evt) of
         None \<Rightarrow> None | Some m \<Rightarrow> if without p m = [] then None else Some (without p m))"
    and "map_of (p2pMap s2) (evt_deviceId evt) = Some [(p, i)] \<Longrightarrow>
      evt_deviceId evt \<notin> linked (run_task V (CompleteTask (evt_deviceId evt) p) s2)"
proof -
  obtain t1 where t1: "ffrtTimer s1 = Some t1" "timer_ok t1" "armed t1 p = Some (CompleteTask (evt_deviceId evt) p)"
    using waits_after_establish[OF timer remote id, of pid] unfolding s1 by blast
  then show "\<exists>t1. ffrtTimer s1 = Some t1 \<and> armed t1 p = Some (CompleteTask (evt_deviceId evt) p)" by blast
  show "\<exists>t2. ffrtTimer (PasteStart p s1) = Some t2 \<and> armed t2 p = None"
    using t1 ffrt.cancel_waiting[OF t1(2), of p] by (simp add: PasteStart_def on_timer_def)
  show "map_of (p2pMap (run_task V (CompleteTask (evt_deviceId evt) p) s2)) (evt_deviceId evt) =
      (case map_of (p2pMap s2) (evt_deviceId evt) of
         None \<Rightarrow> None | Some m \<Rightarrow> if without p m = [] then None else Some (without p m))"
    by (cases "map_of (p2pMap s2) (evt_deviceId evt)")
      (simp_all add: run_task_def PasteComplete_eq remote map_of_filter_key map_of_set_value)
  show "evt_deviceId evt \<notin> linked (run_task V (CompleteTask (evt_deviceId evt) p) s2)"
    if "map_of (p2pMap s2) (evt_deviceId evt) = Some [(p, i)]"
    using that online remote by (simp add: run_task_def PasteComplete_eq without_def)
qed

text \<open>C27: A paste that is announced and never started does not keep the link. When a link is requested
  for a paste of remote files, its timer waits with the completion of exactly this paste, whatever
  waited under its name before; when it fires and the task runs, the paste is gone from the device,
  and if it was the only one the device is out of the table with its link closed. Starting the
  paste cancels the timer.\<close>

theorem abandoned_paste_released:
  assumes timer: "ffrtTimer s = Some t" "timer_ok t"
    and remote: "evt_deviceId evt \<noteq> []" "evt_deviceId evt \<noteq> p2p_localId V" "IsContainUri evt"
    and id: "p \<noteq> P2P_PRESYNC_ID @ evt_deviceId evt"
    and online: "p2p_device V (evt_deviceId evt) = E_OK"
    and s1: "s1 = snd (EstablishP2PLinkTask V pid p evt s)"
  shows "(\<exists>t1. ffrtTimer s1 = Some t1 \<and> armed t1 p = Some (CompleteTask (evt_deviceId evt) p)) \<and>
    (\<exists>t2. ffrtTimer (PasteStart p s1) = Some t2 \<and> armed t2 p = None) \<and>
    (map_of (p2pMap (run_task V (CompleteTask (evt_deviceId evt) p) s2)) (evt_deviceId evt) =
      (case map_of (p2pMap s2) (evt_deviceId evt) of
         None \<Rightarrow> None | Some m \<Rightarrow> if without p m = [] then None else Some (without p m))) \<and>
    (map_of (p2pMap s2) (evt_deviceId evt) = Some [(p, i)] \<longrightarrow>
      evt_deviceId evt \<notin> linked (run_task V (CompleteTask (evt_deviceId evt) p) s2))"
  using abandoned_paste_released_facts[OF assms] by blast

definition file_event :: GlobalEvent where
  "file_event = new_event\<lparr>evt_deviceId := ''tv'', evt_dataType := [MIMETYPE_TEXT_URI]\<rparr>"

theorem abandoned_paste_released_witness:
  "\<exists>t1. ffrtTimer (snd (EstablishP2PLinkTask online_env 7 ''p1'' file_event new_p2p)) = Some t1 \<and>
     armed t1 ''p1'' = Some (CompleteTask ''tv'' ''p1'')"
  using abandoned_paste_released[of new_p2p new_timer file_event online_env "''p1''" _ 7]
  by (simp add: new_p2p_def file_event_def new_event_def online_env_def IsContainUri_def P2P_PRESYNC_ID_def)

section \<open>A link that is lost\<close>

text \<open>When opening fails because the plugin is gone, or connecting once more fails, the entries of every
  paste of the device are erased: the link an earlier paste has opened stays open, and its completion no
  longer closes it.\<close>

definition failing_env :: p2p_env where
  "failing_env = online_env\<lparr>p2p_connect := (\<lambda>_. 1)\<rparr>"

theorem link_lost_on_failure:
  "(let s1 = exec online_env (Establish 7 ''tv'' ''p1'') new_p2p;
        s2 = exec failing_env (Establish 8 ''tv'' ''p2'') s1;
        s3 = exec online_env (Complete ''tv'' ''p2'') (exec online_env (Complete ''tv'' ''p1'') s2)
    in ''tv'' \<in> linked s3 \<and> p2pMap s3 = [])"
  by (simp add: EstablishP2PLink_def OpenP2PLink_def put_paste_def CM_Compute_def CM_Emplace_def Let_def erase_device_def
      call_def on_timer_def new_p2p_def online_env_def failing_env_def RESULT_OK_def default_info_def linked_def CM_Erase_def
      PasteComplete_def CM_ComputeIfPresent_def)

end
