(* ===== verification/Distributed_Send.thy ===== *)
theory Distributed_Send
  imports Service_State
begin

text \<open>
  The threads that send a copy to other devices (\<open>SetCurrentDistributedData\<close> and the start of
  \<open>SetCurrentData\<close> in \<open>services/core/src/pasteboard_service.cpp\<close>). Every copy starts a thread that
  stores it in \<open>setDistributedMemory_\<close>; the first one becomes the loop, the others return. The loop
  starts a sender for every round, waits for it until a timeout, and stops when the event that was
  taken last is the one stored last. Senders take what is stored when they run, so a sender that is
  late may take a newer copy. Each critical section of \<open>setDistributedMemory_.mutex\<close> is one step and
  the steps of all threads interleave.
\<close>

section \<open>Memory and threads\<close>

record 'd dist_memory =
  latestEvent :: GlobalEvent
  latestData :: "'d option"
  takenEvent :: GlobalEvent \<comment> \<open>\<open>currentEvent\<close> of the memory\<close>
  isRunning :: bool

record 'd dist_state =
  memory :: "'d dist_memory"
  loop :: "bool option" \<comment> \<open>the loop is at its head, with \<open>isNeedCheck\<close>\<close>
  senders :: nat \<comment> \<open>sender threads that have not taken a copy yet\<close>
  stored :: "(GlobalEvent \<times> 'd) list" \<comment> \<open>the copies in the order they were stored\<close>
  taken :: "(GlobalEvent \<times> 'd) list" \<comment> \<open>what the senders took\<close>

definition new_dist :: "'d dist_state" where
  "new_dist = \<lparr>memory = \<lparr>latestEvent = new_event, latestData = None, takenEvent = new_event, isRunning = False\<rparr>,
     loop = None, senders = 0, stored = [], taken = []\<rparr>"

definition store_copy :: "GlobalEvent \<Rightarrow> 'd \<Rightarrow> 'd dist_state \<Rightarrow> 'd dist_state" where
  "store_copy event d s =
     (let m = (memory s)\<lparr>latestEvent := event, latestData := Some d\<rparr>;
          s1 = s\<lparr>memory := m, stored := stored s @ [(event, d)]\<rparr>
      in if isRunning m then s1 else s1\<lparr>memory := m\<lparr>isRunning := True\<rparr>, loop := Some False\<rparr>)"

definition loop_round :: "'d dist_state \<Rightarrow> 'd dist_state" where
  "loop_round s = (case loop s of
      None \<Rightarrow> s
    | Some isNeedCheck \<Rightarrow>
        (let m = memory s
         in if (evt_seqId (takenEvent m) = evt_seqId (latestEvent m) \<and> isNeedCheck) \<or> latestData m = None
            then s\<lparr>memory := m\<lparr>latestData := None, isRunning := False\<rparr>, loop := None\<rparr>
            else s\<lparr>loop := Some True, senders := Suc (senders s)\<rparr>))"

definition take_copy :: "'d dist_state \<Rightarrow> bool \<times> 'd dist_state" where
  "take_copy s =
     (if senders s = 0 then (False, s)
      else
        (let s1 = s\<lparr>senders := senders s - 1\<rparr>; m = memory s
         in (case latestData m of
               None \<Rightarrow> (False, s1)
             | Some d \<Rightarrow> (True, s1\<lparr>memory := m\<lparr>takenEvent := latestEvent m\<rparr>, taken := taken s @ [(latestEvent m, d)]\<rparr>))))"

section \<open>Interleavings\<close>

inductive dist_run :: "'d dist_state \<Rightarrow> bool" where
  dist_init: "dist_run new_dist"
| dist_store: "dist_run s \<Longrightarrow> dist_run (store_copy event d s)"
| dist_loop: "dist_run s \<Longrightarrow> dist_run (loop_round s)"
| dist_take: "dist_run s \<Longrightarrow> dist_run (snd (take_copy s))"

definition numbered :: "'d dist_state \<Rightarrow> bool" where
  "numbered s \<longleftrightarrow> distinct (evt_seqId new_event # map (evt_seqId \<circ> fst) (stored s))"

definition dist_inv :: "'d dist_state \<Rightarrow> bool" where
  "dist_inv s \<longleftrightarrow>
     (isRunning (memory s) \<longleftrightarrow> loop s \<noteq> None) \<and>
     (isRunning (memory s) \<longleftrightarrow> latestData (memory s) \<noteq> None) \<and>
     (\<forall>d. latestData (memory s) = Some d \<longrightarrow> stored s \<noteq> [] \<and> last (stored s) = (latestEvent (memory s), d)) \<and>
     (stored s \<noteq> [] \<longrightarrow> latestEvent (memory s) = fst (last (stored s))) \<and>
     set (taken s) \<subseteq> set (stored s) \<and>
     takenEvent (memory s) = (if taken s = [] then new_event else fst (last (taken s))) \<and>
     (numbered s \<longrightarrow> stored s \<noteq> [] \<longrightarrow> \<not> isRunning (memory s) \<longrightarrow> last (stored s) \<in> set (taken s))"

lemma dist_inv_cong:
  assumes "dist_inv s" "memory s' = memory s" "(loop s' \<noteq> None) = (loop s \<noteq> None)" "stored s' = stored s" "taken s' = taken s"
  shows "dist_inv s'"
  using assms(1) unfolding dist_inv_def numbered_def assms(2-5) .

lemma new_dist_inv: "dist_inv new_dist"
  by (simp add: dist_inv_def new_dist_def)

lemma store_inv: "dist_inv s \<Longrightarrow> dist_inv (store_copy event d s)"
  by (auto simp: dist_inv_def store_copy_def Let_def numbered_def split: option.splits)

lemma same_number:
  assumes "numbered s" "x \<in> set (stored s)" "y \<in> set (stored s)" "evt_seqId (fst x) = evt_seqId (fst y)" shows "x = y"
proof -
  have "inj_on (evt_seqId \<circ> fst) (set (stored s))" using assms(1) by (simp add: numbered_def distinct_map)
  from inj_onD[OF this _ assms(2,3)] assms(4) show ?thesis by simp
qed

lemma taken_is_latest:
  assumes "dist_inv s" "numbered s" "stored s \<noteq> []" "evt_seqId (takenEvent (memory s)) = evt_seqId (latestEvent (memory s))"
  shows "last (stored s) \<in> set (taken s)"
proof -
  have l: "latestEvent (memory s) = fst (last (stored s))" "last (stored s) \<in> set (stored s)"
    using assms(1,3) by (auto simp: dist_inv_def)
  have t: "taken s \<noteq> []"
  proof
    assume "taken s = []"
    then have "evt_seqId new_event = evt_seqId (fst (last (stored s)))" using assms(1,4) l by (simp add: dist_inv_def)
    then show False using assms(2) l(2) by (auto simp: numbered_def)
  qed
  then have "last (taken s) \<in> set (taken s)" by simp
  then have "takenEvent (memory s) = fst (last (taken s))" "last (taken s) \<in> set (stored s)"
    using assms(1) t unfolding dist_inv_def by (simp, blast)
  then have "last (taken s) = last (stored s)" using same_number[OF assms(2) _ l(2)] l(1) assms(4) by simp
  then show ?thesis using t last_in_set by fastforce
qed

lemma loop_inv:
  assumes "dist_inv s" shows "dist_inv (loop_round s)"
proof (cases "loop s")
  case (Some need)
  have d: "latestData (memory s) \<noteq> None" "stored s \<noteq> []" using assms Some by (auto simp: dist_inv_def split: option.splits)
  show ?thesis
  proof (cases "evt_seqId (takenEvent (memory s)) = evt_seqId (latestEvent (memory s)) \<and> need")
    case True
    then have "loop_round s = s\<lparr>memory := (memory s)\<lparr>latestData := None, isRunning := False\<rparr>, loop := None\<rparr>"
      using Some by (simp add: loop_round_def)
    moreover have "numbered s \<Longrightarrow> last (stored s) \<in> set (taken s)" using taken_is_latest[OF assms _ d(2)] True by blast
    ultimately show ?thesis using assms d by (simp add: dist_inv_def numbered_def)
  next
    case False
    then have "loop_round s = s\<lparr>loop := Some True, senders := Suc (senders s)\<rparr>" using Some d(1) by (auto simp: loop_round_def Let_def)
    then show ?thesis by (intro dist_inv_cong[OF assms]) (simp_all add: Some)
  qed
qed (simp add: loop_round_def assms)

lemma take_eq: "senders s \<noteq> 0 \<Longrightarrow> latestData (memory s) = Some d \<Longrightarrow> snd (take_copy s) =
    s\<lparr>senders := senders s - 1, memory := (memory s)\<lparr>takenEvent := latestEvent (memory s)\<rparr>,
      taken := taken s @ [(latestEvent (memory s), d)]\<rparr>"
  by (simp add: take_copy_def Let_def)

lemma take_none: "senders s = 0 \<or> latestData (memory s) = None \<Longrightarrow> \<exists>n. snd (take_copy s) = s\<lparr>senders := n\<rparr>"
  by (cases "senders s = 0") (auto simp: take_copy_def Let_def intro: exI[of _ 0])

lemma take_inv:
  assumes inv: "dist_inv s" shows "dist_inv (snd (take_copy s))"
proof (cases "senders s = 0 \<or> latestData (memory s) = None")
  case True
  then obtain n where "snd (take_copy s) = s\<lparr>senders := n\<rparr>" using take_none by blast
  then show ?thesis by (intro dist_inv_cong[OF inv]) simp_all
next
  case False
  then obtain d where d: "senders s \<noteq> 0" "latestData (memory s) = Some d" by auto
  have l: "stored s \<noteq> []" "last (stored s) = (latestEvent (memory s), d)" using inv d unfolding dist_inv_def by blast+
  then have m: "(latestEvent (memory s), d) \<in> set (stored s)" by (metis last_in_set)
  define s' where "s' = snd (take_copy s)"
  have f: "memory s' = (memory s)\<lparr>takenEvent := latestEvent (memory s)\<rparr>" "loop s' = loop s" "stored s' = stored s"
    "taken s' = taken s @ [last (stored s)]"
    by (simp_all add: s'_def take_eq[OF d] l)
  have "isRunning (memory s) \<longleftrightarrow> loop s \<noteq> None" "isRunning (memory s) \<longleftrightarrow> latestData (memory s) \<noteq> None" "set (taken s) \<subseteq> set (stored s)"
    using inv unfolding dist_inv_def by blast+
  then show ?thesis unfolding s'_def[symmetric] dist_inv_def numbered_def f using d l m by simp
qed

lemma dist_run_inv: "dist_run s \<Longrightarrow> dist_inv s"
  by (induction rule: dist_run.induct) (simp_all add: new_dist_inv store_inv loop_inv take_inv)

lemma latest_copy_sent_facts:
  assumes "dist_run s" "numbered s"
  shows "set (taken s) \<subseteq> set (stored s)"
    and "isRunning (memory s) \<longleftrightarrow> loop s \<noteq> None"
    and "\<lbrakk>stored s \<noteq> []; loop s = None\<rbrakk> \<Longrightarrow> last (stored s) \<in> set (taken s)"
    and "\<lbrakk>loop s = Some True; fst (take_copy s)\<rbrakk> \<Longrightarrow> loop (loop_round (snd (take_copy s))) = None"
    and "\<lbrakk>loop s = Some b; b \<longrightarrow> evt_seqId (takenEvent (memory s)) \<noteq> evt_seqId (latestEvent (memory s))\<rbrakk> \<Longrightarrow>
      fst (take_copy (loop_round s)) \<and> loop (loop_round (snd (take_copy (loop_round s)))) = None"
proof -
  have inv: "dist_inv s" by (rule dist_run_inv[OF assms(1)])
  show "set (taken s) \<subseteq> set (stored s)" "isRunning (memory s) \<longleftrightarrow> loop s \<noteq> None" using inv by (simp_all add: dist_inv_def)
  show "last (stored s) \<in> set (taken s)" if "stored s \<noteq> []" "loop s = None" using inv assms(2) that by (simp add: dist_inv_def)
  show "loop (loop_round (snd (take_copy s))) = None" if "loop s = Some True" "fst (take_copy s)"
    using that by (auto simp: take_copy_def loop_round_def Let_def split: if_splits option.splits)
  show "fst (take_copy (loop_round s)) \<and> loop (loop_round (snd (take_copy (loop_round s)))) = None"
    if l: "loop s = Some b" and c: "b \<longrightarrow> evt_seqId (takenEvent (memory s)) \<noteq> evt_seqId (latestEvent (memory s))"
  proof -
    obtain d where "latestData (memory s) = Some d" using inv l by (auto simp: dist_inv_def)
    then have e: "loop_round s = s\<lparr>loop := Some True, senders := Suc (senders s)\<rparr>" using l c by (auto simp: loop_round_def Let_def)
    show ?thesis using \<open>latestData (memory s) = Some d\<close>
      unfolding e by (simp add: take_copy_def loop_round_def Let_def)
  qed
qed


definition sample_event :: "u16 \<Rightarrow> GlobalEvent" where
  "sample_event n = new_event\<lparr>evt_seqId := n\<rparr>"


end
