(* ===== verification/Decimal.thy ===== *)
theory Decimal
  imports Web_Controller
begin

text \<open>\<open>std::to_string\<close> of unsigned numbers, and that it can be read back.\<close>

definition to_string_u :: "'a::len word \<Rightarrow> string" where
  "to_string_u w = nat_string (unat w)"

definition is_digit :: "char \<Rightarrow> bool" where
  "is_digit c \<longleftrightarrow> 48 \<le> (of_char c :: nat) \<and> (of_char c :: nat) \<le> 57"

definition dec_val :: "string \<Rightarrow> nat" where
  "dec_val s = fold (\<lambda>c v. v * 10 + (of_char c - 48)) s 0"

lemma dec_val_snoc: "dec_val (s @ [c]) = dec_val s * 10 + (of_char c - 48)"
  by (simp add: dec_val_def)

lemma nat_string_cases:
  obtains "n < 10" "nat_string n = [char_of (48 + n)]"
  | "\<not> n < 10" "nat_string n = nat_string (n div 10) @ [char_of (48 + n mod 10)]"
  by (metis nat_string.simps)

lemma dec_val_nat_string [simp]: "dec_val (nat_string n) = n"
proof (induction n rule: nat_string.induct)
  case (1 n)
  show ?case
  proof (cases n rule: nat_string_cases)
    case 1
    then show ?thesis by (simp add: dec_val_def)
  next
    case 2
    then show ?thesis using "1.IH" by (simp add: dec_val_snoc)
  qed
qed

lemma nat_string_inj [simp]: "nat_string m = nat_string n \<longleftrightarrow> m = n"
  by (metis dec_val_nat_string)

lemma nat_string_digits: "c \<in> set (nat_string n) \<Longrightarrow> is_digit c"
proof (induction n rule: nat_string.induct)
  case (1 n)
  show ?case
  proof (cases n rule: nat_string_cases)
    case 1
    then show ?thesis using "1.prems" by (simp add: is_digit_def)
  next
    case 2
    then show ?thesis using "1.IH" "1.prems" by (auto simp: is_digit_def)
  qed
qed

lemma nat_string_not_empty [simp]: "nat_string n \<noteq> []"
  by (subst nat_string.simps) simp

lemma to_string_u_inj [simp]: "to_string_u a = to_string_u b \<longleftrightarrow> a = b"
  by (simp add: to_string_u_def word_unat_eq_iff)

end
