(* ===== verification/Remote_Tasks.thy ===== *)
theory Remote_Tasks
  imports Decimal Service_State
begin

text \<open>
  \<open>RemoteDataTaskManager\<close> of \<open>services/core/src/pasteboard_service.cpp\<close>: pastes that want the same
  clip of another device share one transfer. The first to come owns the task, fetches and notifies;
  the others wait on a block object until they are notified or time out, and read what the task
  holds. \<open>TaskContext\<close> objects are shared pointers: numbers into \<open>contexts\<close>, which a waiting
  thread keeps after the task has left the map. A block object is its flag; a wait that ends by
  the timeout and one that ends by the flag are the same step.
\<close>

section \<open>The task manager\<close>

record 'd TaskContext =
  pasting :: bool
  getDataBlocks :: "(u32, bool) entries"
  ctx_data :: "'d option"

record 'd task_manager =
  dataTasks :: "(string, nat) entries"
  contexts :: "nat \<Rightarrow> 'd TaskContext"
  next_ctx :: nat
  mapKey :: u32

definition new_context :: "'d TaskContext" where
  "new_context = \<lparr>pasting = False, getDataBlocks = [], ctx_data = None\<rparr>"

definition new_manager :: "'d task_manager" where
  "new_manager = \<lparr>dataTasks = [], contexts = (\<lambda>_. new_context), next_ctx = 0, mapKey = 0\<rparr>"

definition task_key :: "GlobalEvent \<Rightarrow> string" where
  "task_key event = evt_deviceId event @ to_string_u (evt_seqId event)"

definition IsRemoteDataPasting :: "string \<Rightarrow> 'd task_manager \<Rightarrow> bool" where
  "IsRemoteDataPasting key m = (case map_of (dataTasks m) key of None \<Rightarrow> False | Some c \<Rightarrow> pasting (contexts m c))"

definition HasRunningTask :: "'d task_manager \<Rightarrow> bool" where
  "HasRunningTask m = list_ex (\<lambda>(_, c). pasting (contexts m c)) (dataTasks m)"

definition find_or_emplace :: "string \<Rightarrow> 'd task_manager \<Rightarrow> nat \<times> 'd task_manager" where
  "find_or_emplace key m = (case map_of (dataTasks m) key of
      Some c \<Rightarrow> (c, m)
    | None \<Rightarrow> (next_ctx m, m\<lparr>dataTasks := snd (CM_Emplace key (next_ctx m) (dataTasks m)),
        contexts := (contexts m)(next_ctx m := new_context), next_ctx := Suc (next_ctx m)\<rparr>))"

definition GetRemoteDataTask :: "string \<Rightarrow> 'd task_manager \<Rightarrow> (nat \<times> bool) \<times> 'd task_manager" where
  "GetRemoteDataTask key m = (case find_or_emplace key m of (c, m1) \<Rightarrow>
     ((c, pasting (contexts m1 c)), m1\<lparr>contexts := (contexts m1)(c := (contexts m1 c)\<lparr>pasting := True\<rparr>)\<rparr>))"

definition Notify :: "string \<Rightarrow> 'd \<Rightarrow> 'd task_manager \<Rightarrow> 'd task_manager" where
  "Notify key d m = (case map_of (dataTasks m) key of
      None \<Rightarrow> m
    | Some c \<Rightarrow>
        (let task = (contexts m c)\<lparr>ctx_data := Some d\<rparr>
         in m\<lparr>contexts := (contexts m)(c := task\<lparr>getDataBlocks :=
              fst (CM_ForEach (Some (\<lambda>_ _ u. (False, True, u))) (getDataBlocks task) ())\<rparr>)\<rparr>))"

definition ClearRemoteDataTask :: "string \<Rightarrow> 'd task_manager \<Rightarrow> 'd task_manager" where
  "ClearRemoteDataTask key m = m\<lparr>dataTasks := snd (CM_Erase key (dataTasks m))\<rparr>"

text \<open>\<open>WaitRemoteData\<close> in three steps: finding the task under the mutex, entering the block object, and
  leaving after the wait. The value read is a shared pointer, \<open>None\<close> when nothing was notified.\<close>

definition wait_find :: "string \<Rightarrow> 'd task_manager \<Rightarrow> nat option" where
  "wait_find key m = map_of (dataTasks m) key"

definition wait_enter :: "nat \<Rightarrow> 'd task_manager \<Rightarrow> u32 \<times> 'd task_manager" where
  "wait_enter c m = (let k = mapKey m + 1 in (k, m\<lparr>mapKey := k, contexts := (contexts m)(c := (contexts m c)\<lparr>getDataBlocks :=
     snd (CM_InsertOrAssign k False (getDataBlocks (contexts m c)))\<rparr>)\<rparr>))"

definition wait_leave :: "nat \<Rightarrow> u32 \<Rightarrow> 'd task_manager \<Rightarrow> 'd option \<times> 'd task_manager" where
  "wait_leave c k m = (ctx_data (contexts m c), m\<lparr>contexts := (contexts m)(c := (contexts m c)\<lparr>getDataBlocks :=
     snd (CM_Erase k (getDataBlocks (contexts m c)))\<rparr>)\<rparr>)"

definition WaitRemoteData :: "string \<Rightarrow> 'd task_manager \<Rightarrow> 'd option \<times> 'd task_manager" where
  "WaitRemoteData key m = (case wait_find key m of
      None \<Rightarrow> (None, m)
    | Some c \<Rightarrow> (case wait_enter c m of (k, m1) \<Rightarrow> wait_leave c k m1))"

section \<open>Threads\<close>

datatype phase =
    Resting
  | Fetching string nat \<comment> \<open>owns the task of a key\<close>
  | Waiting string
  | Found string nat
  | Blocked string nat u32

record 'd task_run =
  manager :: "'d task_manager"
  phases :: "nat \<Rightarrow> phase"
  key_of :: "nat \<Rightarrow> string" \<comment> \<open>the key each context was made for\<close>
  notified :: "(string \<times> 'd) list"
  answers :: "(string \<times> 'd option) list"

definition new_run :: "'d task_run" where
  "new_run = \<lparr>manager = new_manager, phases = (\<lambda>_. Resting), key_of = (\<lambda>_. []), notified = [], answers = []\<rparr>"

inductive task_step :: "'d task_run \<Rightarrow> 'd task_run \<Rightarrow> bool" where
  begin_fetch: "phases s p = Resting \<Longrightarrow> GetRemoteDataTask key (manager s) = ((c, False), m) \<Longrightarrow>
    task_step s (s\<lparr>manager := m, phases := (phases s)(p := Fetching key c),
      key_of := (if wait_find key (manager s) = None then (key_of s)(c := key) else key_of s)\<rparr>)"
| begin_wait: "phases s p = Resting \<Longrightarrow> GetRemoteDataTask key (manager s) = ((c, True), m) \<Longrightarrow>
    task_step s (s\<lparr>manager := m, phases := (phases s)(p := Waiting key)\<rparr>)"
| begin_same: "phases s p = Resting \<Longrightarrow> IsRemoteDataPasting key (manager s) \<Longrightarrow>
    task_step s (s\<lparr>phases := (phases s)(p := Waiting key)\<rparr>)"
| finish: "phases s p = Fetching key c \<Longrightarrow>
    task_step s (s\<lparr>manager := Notify key d (manager s), notified := notified s @ [(key, d)]\<rparr>)"
| clear: "phases s p = Fetching key c \<Longrightarrow>
    task_step s (s\<lparr>manager := ClearRemoteDataTask key (manager s), phases := (phases s)(p := Resting)\<rparr>)"
| find_none: "phases s p = Waiting key \<Longrightarrow> wait_find key (manager s) = None \<Longrightarrow>
    task_step s (s\<lparr>phases := (phases s)(p := Resting), answers := answers s @ [(key, None)]\<rparr>)"
| find_some: "phases s p = Waiting key \<Longrightarrow> wait_find key (manager s) = Some c \<Longrightarrow>
    task_step s (s\<lparr>phases := (phases s)(p := Found key c)\<rparr>)"
| enter: "phases s p = Found key c \<Longrightarrow> wait_enter c (manager s) = (k, m) \<Longrightarrow>
    task_step s (s\<lparr>manager := m, phases := (phases s)(p := Blocked key c k)\<rparr>)"
| leave: "phases s p = Blocked key c k \<Longrightarrow> wait_leave c k (manager s) = (r, m) \<Longrightarrow>
    task_step s (s\<lparr>manager := m, phases := (phases s)(p := Resting), answers := answers s @ [(key, r)]\<rparr>)"

inductive_cases task_stepE: "task_step s s'"

section \<open>Invariant\<close>

fun refers :: "phase \<Rightarrow> string \<Rightarrow> nat \<Rightarrow> bool" where
  "refers (Fetching key c) key' c' \<longleftrightarrow> key = key' \<and> c = c'"
| "refers (Found key c) key' c' \<longleftrightarrow> key = key' \<and> c = c'"
| "refers (Blocked key c k) key' c' \<longleftrightarrow> key = key' \<and> c = c'"
| "refers _ _ _ \<longleftrightarrow> False"

definition owned :: "'d task_run \<Rightarrow> bool" where
  "owned s \<longleftrightarrow> (\<forall>key c. map_of (dataTasks (manager s)) key = Some c \<longrightarrow> (\<exists>p. phases s p = Fetching key c))"

definition single :: "'d task_run \<Rightarrow> bool" where
  "single s \<longleftrightarrow> (\<forall>p key c. phases s p = Fetching key c \<longrightarrow>
     map_of (dataTasks (manager s)) key = Some c \<and> pasting (contexts (manager s) c) \<and>
     (\<forall>q c'. phases s q = Fetching key c' \<longrightarrow> q = p))"

definition referred :: "'d task_run \<Rightarrow> bool" where
  "referred s \<longleftrightarrow> (\<forall>p key c. refers (phases s p) key c \<longrightarrow> c < next_ctx (manager s) \<and> key_of s c = key)"

definition truthful :: "'d task_run \<Rightarrow> bool" where
  "truthful s \<longleftrightarrow>
     (\<forall>c d. c < next_ctx (manager s) \<longrightarrow> ctx_data (contexts (manager s) c) = Some d \<longrightarrow> (key_of s c, d) \<in> set (notified s)) \<and>
     (\<forall>key d. (key, Some d) \<in> set (answers s) \<longrightarrow> (key, d) \<in> set (notified s))"

definition task_inv :: "'d task_run \<Rightarrow> bool" where
  "task_inv s \<longleftrightarrow> owned s \<and> single s \<and> referred s \<and> truthful s"

lemmas task_inv_defs = task_inv_def owned_def single_def referred_def truthful_def

lemma new_run_inv: "task_inv new_run"
  by (simp add: task_inv_defs new_run_def new_manager_def new_context_def)

lemma GetTask_None:
  assumes "map_of (dataTasks m) key = None"
  shows "GetRemoteDataTask key m = ((next_ctx m, False), m\<lparr>dataTasks := (key, next_ctx m) # dataTasks m,
    contexts := (contexts m)(next_ctx m := new_context\<lparr>pasting := True\<rparr>), next_ctx := Suc (next_ctx m)\<rparr>)"
  using assms by (simp add: GetRemoteDataTask_def find_or_emplace_def CM_Emplace_def new_context_def)

lemma GetTask_Some:
  assumes "map_of (dataTasks m) key = Some c"
  shows "GetRemoteDataTask key m = ((c, pasting (contexts m c)), m\<lparr>contexts := (contexts m)(c := (contexts m c)\<lparr>pasting := True\<rparr>)\<rparr>)"
  using assms by (simp add: GetRemoteDataTask_def find_or_emplace_def)

lemma begin_is_new:
  assumes "task_inv s" "GetRemoteDataTask key (manager s) = ((c, False), m)"
  shows "map_of (dataTasks (manager s)) key = None"
proof (rule ccontr)
  assume "map_of (dataTasks (manager s)) key \<noteq> None"
  then obtain c' where c': "map_of (dataTasks (manager s)) key = Some c'" by auto
  then obtain p where "phases s p = Fetching key c'" using assms(1) by (auto simp: task_inv_def owned_def)
  then have "pasting (contexts (manager s) c')" using assms(1) by (auto simp: task_inv_def single_def)
  then show False using assms(2) c' by (simp add: GetTask_Some)
qed

lemma begin_fetch_inv:
  assumes inv: "task_inv s" and idle: "phases s p = Resting" and none: "map_of (dataTasks (manager s)) key = None"
  shows "task_inv (s\<lparr>manager := snd (GetRemoteDataTask key (manager s)), phases := (phases s)(p := Fetching key (next_ctx (manager s))),
    key_of := (key_of s)(next_ctx (manager s) := key)\<rparr>)" (is "task_inv ?s")
proof -
  have free: "phases s q \<noteq> Fetching key c" for q c using none inv by (auto simp: task_inv_def single_def)
  have "owned ?s" using inv idle unfolding task_inv_def owned_def GetTask_None[OF none]
    by (auto split: if_splits) (metis phase.distinct(1))
  moreover have "refers (phases s q) k c \<Longrightarrow> c < next_ctx (manager s) \<and> key_of s c = k" for q k c
    using inv by (auto simp: task_inv_def referred_def)
  then have r: "referred ?s" unfolding referred_def GetTask_None[OF none] by (auto simp: less_Suc_eq)
  moreover have "c \<noteq> next_ctx (manager s)" if "phases s q = Fetching k c" for q k c
    using inv that unfolding task_inv_def referred_def by (metis less_irrefl refers.simps(1))
  then have "single ?s" using inv free unfolding task_inv_def single_def GetTask_None[OF none]
    by (auto simp: new_context_def)
  moreover have "truthful ?s" using inv unfolding task_inv_def truthful_def GetTask_None[OF none]
    by (auto simp: new_context_def less_Suc_eq)
  ultimately show ?thesis by (simp add: task_inv_def)
qed

text \<open>A step that keeps the map, the owners and what the contexts hold keeps the invariant.\<close>

lemma kept_inv:
  assumes "task_inv s" "dataTasks (manager s') = dataTasks (manager s)" "next_ctx (manager s') = next_ctx (manager s)"
    "\<And>c. ctx_data (contexts (manager s') c) = ctx_data (contexts (manager s) c)"
    "\<And>c. pasting (contexts (manager s) c) \<Longrightarrow> pasting (contexts (manager s') c)"
    "\<And>q key c. phases s' q = Fetching key c \<longleftrightarrow> phases s q = Fetching key c"
    "\<And>q key c. refers (phases s' q) key c \<Longrightarrow> refers (phases s q) key c \<or> map_of (dataTasks (manager s)) key = Some c"
    "key_of s' = key_of s" "notified s' = notified s"
    "\<And>key d. (key, Some d) \<in> set (answers s') \<Longrightarrow> (key, d) \<in> set (notified s)"
  shows "task_inv s'"
proof -
  have "referred s'" unfolding referred_def
  proof (intro allI impI)
    fix q key c assume "refers (phases s' q) key c"
    then consider "refers (phases s q) key c" | "map_of (dataTasks (manager s)) key = Some c" using assms(7) by blast
    then have "c < next_ctx (manager s) \<and> key_of s c = key"
    proof cases
      case 2
      then obtain p where "phases s p = Fetching key c" using assms(1) unfolding task_inv_def owned_def by blast
      then have "refers (phases s p) key c" by simp
      then show ?thesis using assms(1) by (auto simp: task_inv_def referred_def)
    qed (use assms(1) in \<open>auto simp: task_inv_def referred_def\<close>)
    then show "c < next_ctx (manager s') \<and> key_of s' c = key" by (simp add: assms(3,8))
  qed
  then show ?thesis using assms(1,5,10) unfolding task_inv_defs assms(2-4,6,8,9) by blast
qed

lemma finish_inv:
  assumes inv: "task_inv s" and f: "phases s p = Fetching key c"
  shows "task_inv (s\<lparr>manager := Notify key d (manager s), notified := notified s @ [(key, d)]\<rparr>)" (is "task_inv ?s")
proof -
  have m: "map_of (dataTasks (manager s)) key = Some c" using inv f by (auto simp: task_inv_def single_def)
  have k: "key_of s c = key" using inv f unfolding task_inv_def referred_def by (metis refers.simps(1))
  let ?m = "manager ?s"
  have f: "dataTasks ?m = dataTasks (manager s)" "next_ctx ?m = next_ctx (manager s)"
    "\<And>c'. pasting (contexts ?m c') = pasting (contexts (manager s) c')"
    "\<And>c'. ctx_data (contexts ?m c') = (if c' = c then Some d else ctx_data (contexts (manager s) c'))"
    using m by (simp_all add: Notify_def Let_def)
  have "truthful ?s" using inv k unfolding task_inv_def truthful_def f by auto
  moreover have "owned ?s" "single ?s" "referred ?s" using inv unfolding task_inv_def owned_def single_def referred_def f by simp_all
  ultimately show ?thesis by (simp add: task_inv_def)
qed

lemma clear_inv:
  assumes inv: "task_inv s" and f: "phases s p = Fetching key c"
  shows "task_inv (s\<lparr>manager := ClearRemoteDataTask key (manager s), phases := (phases s)(p := Resting)\<rparr>)" (is "task_inv ?s")
proof -
  have only: "q = p" if "phases s q = Fetching key c'" for q c' using inv f that unfolding task_inv_def single_def by blast
  have m: "map_of (dataTasks (manager ?s)) = (map_of (dataTasks (manager s)))(key := None)"
    "next_ctx (manager ?s) = next_ctx (manager s)" "contexts (manager ?s) = contexts (manager s)"
    by (simp_all add: ClearRemoteDataTask_def lookup_ops)
  have "owned ?s" using inv f unfolding task_inv_def owned_def m
    by (auto split: if_splits) (metis phase.inject(1))
  moreover have "single ?s" using inv only unfolding task_inv_def single_def m by auto
  moreover have "referred ?s" "truthful ?s" using inv unfolding task_inv_def referred_def truthful_def m by auto
  ultimately show ?thesis by (simp add: task_inv_def)
qed

lemma wait_fields:
  "wait_enter c m = (k, m') \<Longrightarrow> dataTasks m' = dataTasks m \<and> next_ctx m' = next_ctx m \<and>
     (\<forall>x. ctx_data (contexts m' x) = ctx_data (contexts m x) \<and> pasting (contexts m' x) = pasting (contexts m x))"
  "wait_leave c k m = (r, m') \<Longrightarrow> r = ctx_data (contexts m c) \<and> dataTasks m' = dataTasks m \<and> next_ctx m' = next_ctx m \<and>
     (\<forall>x. ctx_data (contexts m' x) = ctx_data (contexts m x) \<and> pasting (contexts m' x) = pasting (contexts m x))"
  by (auto simp: wait_enter_def wait_leave_def Let_def split: if_splits)

lemma answered: "task_inv s \<Longrightarrow> (key, Some d) \<in> set (answers s) \<Longrightarrow> (key, d) \<in> set (notified s)"
  by (auto simp: task_inv_def truthful_def)

lemma step_inv:
  assumes "task_step s s'" "task_inv s" shows "task_inv s'"
  using assms
proof (cases rule: task_step.cases)
  case (begin_fetch p key c m)
  have n: "map_of (dataTasks (manager s)) key = None" by (rule begin_is_new[OF assms(2) begin_fetch(3)])
  then have "c = next_ctx (manager s)" "m = snd (GetRemoteDataTask key (manager s))"
    using begin_fetch(3) GetTask_None[OF n] by auto
  then show ?thesis using begin_fetch_inv[OF assms(2) begin_fetch(2) n] begin_fetch(1) n by (simp add: wait_find_def)
next
  case (begin_wait p key c m)
  have "map_of (dataTasks (manager s)) key = Some c" using begin_wait(3)
    by (cases "map_of (dataTasks (manager s)) key") (auto simp: GetTask_None GetTask_Some)
  then have m: "m = (manager s)\<lparr>contexts := (contexts (manager s))(c := (contexts (manager s) c)\<lparr>pasting := True\<rparr>)\<rparr>"
    using begin_wait(3) by (simp add: GetTask_Some)
  show ?thesis unfolding begin_wait(1) by (rule kept_inv[OF assms(2)]) (use begin_wait(2) answered[OF assms(2)] in \<open>auto simp: m split: if_splits\<close>)
next
  case (begin_same p key)
  show ?thesis unfolding begin_same(1) by (rule kept_inv[OF assms(2)]) (use begin_same(2) answered[OF assms(2)] in \<open>auto split: if_splits\<close>)
next
  case (finish p key c d)
  then show ?thesis using finish_inv[OF assms(2)] by simp
next
  case (clear p key c)
  then show ?thesis using clear_inv[OF assms(2)] by simp
next
  case (find_none p key)
  show ?thesis unfolding find_none(1) by (rule kept_inv[OF assms(2)]) (use find_none(2) answered[OF assms(2)] in \<open>auto split: if_splits\<close>)
next
  case (find_some p key c)
  show ?thesis unfolding find_some(1)
    by (rule kept_inv[OF assms(2)]) (use find_some(2,3) answered[OF assms(2)] in \<open>auto simp: wait_find_def split: if_splits\<close>)
next
  case (enter p key c k m)
  show ?thesis unfolding enter(1)
    by (rule kept_inv[OF assms(2)]) (use enter(2) wait_fields(1)[OF enter(3)] answered[OF assms(2)] in \<open>auto split: if_splits\<close>)
next
  case (leave p key c k r m)
  have f: "r = ctx_data (contexts (manager s) c)" using wait_fields(2)[OF leave(3)] by blast
  have c: "c < next_ctx (manager s) \<and> key_of s c = key" using assms(2) leave(2) unfolding task_inv_def referred_def by (metis refers.simps(3))
  have r: "r = Some d \<Longrightarrow> (key, d) \<in> set (notified s)" for d using assms(2) c f unfolding task_inv_def truthful_def by auto
  show ?thesis unfolding leave(1)
    by (rule kept_inv[OF assms(2)]) (use leave(2) wait_fields(2)[OF leave(3)] answered[OF assms(2)] r in \<open>auto split: if_splits\<close>)
qed

lemma run_inv: "task_step\<^sup>*\<^sup>* new_run s \<Longrightarrow> task_inv s"
  by (induction rule: rtranclp_induct) (auto simp: new_run_inv step_inv)

lemma remote_fetch_shared_facts:
  assumes "task_step\<^sup>*\<^sup>* new_run s"
  shows "\<lbrakk>phases s p = Fetching key c; phases s q = Fetching key c'\<rbrakk> \<Longrightarrow> p = q"
    and "wait_find key (manager s) = Some c \<longleftrightarrow> (\<exists>p. phases s p = Fetching key c)"
    and "snd (fst (GetRemoteDataTask key (manager s))) \<longleftrightarrow> (\<exists>p c. phases s p = Fetching key c)"
    and "(key, Some d) \<in> set (answers s) \<Longrightarrow> (key, d) \<in> set (notified s)"
proof -
  have inv: "task_inv s" by (rule run_inv[OF assms])
  show "p = q" if "phases s p = Fetching key c" "phases s q = Fetching key c'"
    using inv that unfolding task_inv_def single_def by blast
  show w: "wait_find key (manager s) = Some c \<longleftrightarrow> (\<exists>p. phases s p = Fetching key c)" for c
    using inv unfolding task_inv_def single_def owned_def wait_find_def by blast
  show "snd (fst (GetRemoteDataTask key (manager s))) \<longleftrightarrow> (\<exists>p c. phases s p = Fetching key c)"
  proof (cases "map_of (dataTasks (manager s)) key")
    case None
    then have "\<not> (\<exists>p c. phases s p = Fetching key c)" using w unfolding wait_find_def by (metis option.distinct(1))
    then show ?thesis by (simp add: GetTask_None[OF None])
  next
    case (Some c)
    then obtain p where p: "phases s p = Fetching key c" using w unfolding wait_find_def by blast
    then have "pasting (contexts (manager s) c)" using inv unfolding task_inv_def single_def by blast
    then show ?thesis using p by (auto simp: GetTask_Some[OF Some])
  qed
  show "(key, d) \<in> set (notified s)" if "(key, Some d) \<in> set (answers s)" by (rule answered[OF inv that])
qed

text \<open>C24: Pastes of one remote clip share a single transfer, in every interleaving of the threads. At
  most one thread fetches the clip of a device and sequence number at a time; the task is in the map exactly while
  it is being fetched, so that a failed or finished transfer never blocks a later paste; a paste that comes
  meanwhile waits; and every waiting paste that gets data gets data its own transfer has delivered, even when
  the task has left the map or the notification came before it began to wait.\<close>

theorem remote_fetch_shared:
  assumes "task_step\<^sup>*\<^sup>* new_run s"
  shows "(phases s p = Fetching key c \<and> phases s q = Fetching key c' \<longrightarrow> p = q) \<and>
    (wait_find key (manager s) = Some c \<longleftrightarrow> (\<exists>p. phases s p = Fetching key c)) \<and>
    (snd (fst (GetRemoteDataTask key (manager s))) \<longleftrightarrow> (\<exists>p c. phases s p = Fetching key c)) \<and>
    ((key, Some d) \<in> set (answers s) \<longrightarrow> (key, d) \<in> set (notified s))"
  using remote_fetch_shared_facts[OF assms] by blast

theorem remote_fetch_shared_witness:
  "\<exists>s :: string task_run. task_step\<^sup>*\<^sup>* new_run s \<and> phases s 1 = Fetching ''tv5'' 0 \<and> snd (fst (GetRemoteDataTask ''tv5'' (manager s)))"
proof -
  let ?r = "new_run :: string task_run" and ?m = "new_manager :: string task_manager"
  let ?s = "?r\<lparr>manager := snd (GetRemoteDataTask ''tv5'' ?m), phases := (phases ?r)(1 := Fetching ''tv5'' 0),
    key_of := (key_of ?r)(0 := ''tv5'')\<rparr>"
  have g: "GetRemoteDataTask ''tv5'' ?m = ((0, False), snd (GetRemoteDataTask ''tv5'' ?m))"
    by (simp add: GetTask_None new_manager_def)
  have "task_step ?r ?s"
    using begin_fetch[of ?r 1 "''tv5''" 0 "snd (GetRemoteDataTask ''tv5'' ?m)"] g
    by (simp add: new_run_def wait_find_def new_manager_def)
  then have r: "task_step\<^sup>*\<^sup>* ?r ?s" by (rule r_into_rtranclp)
  have p: "phases ?s 1 = Fetching ''tv5'' 0" by simp
  then have "snd (fst (GetRemoteDataTask ''tv5'' (manager ?s)))" using remote_fetch_shared[OF r, where key = "''tv5''"] by blast
  then show ?thesis using r p by blast
qed

end
