(* ===== verification/Service_Read.thy ===== *)
theory Service_Read
  imports Service_Paste Uri_Grant P2p_Links Remote_Tasks
begin

text \<open>
  The paste request: \<open>GetPasteData\<close> of \<open>services/core/src/pasteboard_service.cpp\<close> from the check of
  the permission to the bytes handed to the caller. A paste reads the clip of this device or
  transfers the clip of another one; a transfer that does not finish in time goes on in its thread
  (\<open>fetch_thread\<close>) after the request has returned. The answers of other services during the request are
  the record \<open>remote_env\<close>; the event is asked for again before and after a transfer, so it has
  the environments of those moments. \<open>Decode\<close> is called on what the other device sends and its result
  is ignored: \<open>rm_leftover\<close> is what a failed call leaves in the object. Reports to the event
  service and the log are left out. The records of the data returned are those of the clip
  (shared pointers), so \<open>share_records\<close> writes changes to them back.
\<close>

section \<open>State and environment\<close>

record PasteDateTime =
  pdt_syncTime :: i32
  pdt_errorCode :: i32
  pdt_data :: "PasteData option"

record remote_env =
  rm_fetch :: "GlobalEvent \<Rightarrow> (i32 \<times> i32) \<times> byte list" \<comment> \<open>\<open>ClipPlugin::GetPasteData\<close>\<close>
  rm_leftover :: "byte list \<Rightarrow> PasteData"
  rm_in_time :: bool
  rm_entry :: "GlobalEvent \<Rightarrow> u32 \<Rightarrow> string \<Rightarrow> i32 \<times> byte list" \<comment> \<open>\<open>ClipPlugin::GetPasteDataEntry\<close>\<close>
  rm_entry_leftover :: "byte list \<Rightarrow> PasteDataEntry"
  rm_min_version :: nat \<comment> \<open>\<open>DistributedModuleConfig::GetRemoteDeviceMinVersion\<close>\<close>
  rm_before :: svc_env
  rm_after :: svc_env
  rm_online :: "string \<Rightarrow> bool"
  rm_udid :: "string \<Rightarrow> string"
  rm_links :: p2p_env
  rm_grant :: grant_env
  rm_developer :: bool
  AshmemCreate :: "i64 \<Rightarrow> i32"
  AshmemSetProt :: "i32 \<Rightarrow> i32"
  mmap_ok :: bool
  MemcpyData_ok :: bool

record pasteboard =
  svc :: service
  taskMgr :: "PasteDateTime task_manager"
  links :: p2p
  grantState :: grants
  shared :: "(i32 \<times> byte list) list" \<comment> \<open>shared memory made for callers\<close>

definition same_event :: "GlobalEvent \<Rightarrow> GlobalEvent \<Rightarrow> bool" where
  "same_event a b \<longleftrightarrow> evt_seqId a = evt_seqId b \<and> evt_deviceId a = evt_deviceId b"

definition CreatePasteId :: "string \<Rightarrow> u32 \<Rightarrow> i32 \<Rightarrow> string" where
  "CreatePasteId name sequence pid = name @ ''_'' @ i32_string pid @ ''_'' @ to_string_u sequence"

section \<open>The clip of another device\<close>

definition MakeRemoteTaskError :: "PasteData option \<times> i32 \<times> i32" where
  "MakeRemoteTaskError = (None, - 1, REMOTE_TASK_ERROR)"

fun mark_remote_uris :: "ext \<Rightarrow> PasteDataRecord option list \<Rightarrow> PasteDataRecord option list run" where
  "mark_remote_uris E [] = Some []"
| "mark_remote_uris E (None # rs) = do { rs' \<leftarrow> mark_remote_uris E rs; Some (None # rs') }"
| "mark_remote_uris E (Some item # rs) = do {
     item' \<leftarrow> (if rec_convertUri item = [] then Some item
               else do {
                 origin \<leftarrow> GetOriginUri E item;
                 Some (if origin = None then item\<lparr>rec_convertUri := []\<rparr> else item\<lparr>rec_isConvertUriFromRemote := True\<rparr>)
               });
     rs' \<leftarrow> mark_remote_uris E rs;
     Some (Some item' # rs')
   }"

definition decode_remote :: "svc_env \<Rightarrow> remote_env \<Rightarrow> byte list \<Rightarrow> PasteData" where
  "decode_remote V R bs = (case Decode (DecodeTLV_data (sv_ext V) 0 (new_data (sv_params V) (now_ms V))) bs of
      ROk d _ \<Rightarrow> d
    | _ \<Rightarrow> rm_leftover R bs)"

definition GetDistributedData :: "svc_env \<Rightarrow> remote_env \<Rightarrow> GlobalEvent \<Rightarrow> i32 \<Rightarrow> service \<Rightarrow>
    ((PasteData option \<times> i32 \<times> i32) \<times> service) run" where
  "GetDistributedData V R event user s =
     (if \<not> IsCallerOnMainDisplay V user then Some (MakeRemoteTaskError, s)
      else if \<not> has_plugin V then Some (MakeRemoteTaskError, s)
      else case rm_fetch R event of ((ret, syncTime), rawData) \<Rightarrow>
        if ret \<noteq> 0 then Some ((None, - 1, ret), s)
        else if int (length rawData) > sint (maxLocalCapacity V) then Some ((None, 0, REMOTE_DATA_SIZE_EXCEEDED), s)
        else do {
          let s1 = s\<lparr>currentEvent := event\<rparr>;
          let d = decode_remote V R rawData;
          let d1 = d\<lparr>pd_originAuthority := (prop_bundleName (pd_props d), GetAppIndex d), pd_rawDataSize := word_of_nat (length rawData)\<rparr>;
          rs \<leftarrow> mark_remote_uris (sv_ext V) (pd_records d1);
          Some ((Some (d1\<lparr>pd_records := rs\<rparr>), syncTime, E_OK), s1)
        })"

definition fetch_thread :: "svc_env \<Rightarrow> remote_env \<Rightarrow> GlobalEvent \<Rightarrow> i32 \<Rightarrow> pasteboard \<Rightarrow>
    (PasteDateTime \<times> bool \<times> pasteboard) run" where
  "fetch_thread V R event userId b = do {
     ((result, syncTime, errorCode), s1) \<leftarrow> GetDistributedData V R event userId (svc b);
     let distEvt = snd (GetValidDistributeEvent (rm_after R) userId s1);
     let key = task_key event;
     (case result of
        Some d0 \<Rightarrow>
          let d = d0\<lparr>pd_props := (pd_props d0)\<lparr>prop_isRemote := True\<rparr>\<rparr>;
              stored = same_event distEvt event;
              s2 = (if stored
                    then SetDataExpirationTimer userId
                      (let s' = IncreaseChangeCount userId (s1\<lparr>clips := snd (CM_InsertOrAssign userId d (clips s1))\<rparr>)
                       in s'\<lparr>copyTime := snd (CM_InsertOrAssign userId (ucast (GetBootTimeMs V)) (copyTime s'))\<rparr>)
                    else s1);
              v = \<lparr>pdt_syncTime = syncTime, pdt_errorCode = errorCode, pdt_data = Some d\<rparr>
          in Some (v, stored, b\<lparr>svc := s2, taskMgr := ClearRemoteDataTask key (Notify key v (taskMgr b))\<rparr>)
      | None \<Rightarrow>
          let v = \<lparr>pdt_syncTime = 0, pdt_errorCode = errorCode, pdt_data = None\<rparr>
          in Some (v, False, b\<lparr>svc := s1, taskMgr := ClearRemoteDataTask key (Notify key v (taskMgr b))\<rparr>))
   }"

text \<open>What a read returns: the code, the data, the time of the transfer and whether the records are those
  of the clip of the user.\<close>

type_synonym read_result = "i32 \<times> PasteData \<times> i32 \<times> bool \<times> pasteboard"

definition GetRemotePasteData :: "svc_env \<Rightarrow> remote_env \<Rightarrow> i32 \<Rightarrow> GlobalEvent \<Rightarrow> PasteData \<Rightarrow> i32 \<Rightarrow> pasteboard \<Rightarrow> read_result run" where
  "GetRemotePasteData V R userId event d syncTime b =
     (if \<not> rm_in_time R then Some (TIMEOUT_ERROR, d, syncTime, False, b)
      else do {
        (v, stored, b1) \<leftarrow> fetch_thread V R event userId b;
        Some (case pdt_data v of
            Some d' \<Rightarrow> (pdt_errorCode v, assign_data d d', pdt_syncTime v, stored, b1)
          | None \<Rightarrow> (pdt_errorCode v, d, syncTime, False, b1))
      })"

definition GetRemoteData :: "svc_env \<Rightarrow> remote_env \<Rightarrow> i32 \<Rightarrow> GlobalEvent \<Rightarrow> PasteData \<Rightarrow> pasteboard \<Rightarrow> read_result run" where
  "GetRemoteData V R userId event d b =
     (let key = task_key event in
      case GetRemoteDataTask key (taskMgr b) of ((_, isPasting), m1) \<Rightarrow>
        let b1 = b\<lparr>taskMgr := m1\<rparr> in
        if isPasting
        then (case WaitRemoteData key m1 of (value, m2) \<Rightarrow>
                let b2 = b1\<lparr>taskMgr := m2\<rparr> in
                case value of
                  None \<Rightarrow> Some (TASK_PROCESSING, d, - 1, False, b2)
                | Some v \<Rightarrow> (case pdt_data v of
                    None \<Rightarrow> Some (TASK_PROCESSING, d, - 1, False, b2)
                  | Some d' \<Rightarrow> Some (E_OK, assign_data d d', pdt_syncTime v, False, b2)))
        else case GetValidDistributeEvent (rm_before R) userId (svc b1) of (distRet, distEvt) \<Rightarrow>
          if distRet \<noteq> E_OK \<or> \<not> same_event distEvt event
          then (let ret = (if distRet = E_OK then INVALID_EVENT_ERROR else distRet);
                    b2 = b1\<lparr>taskMgr := ClearRemoteDataTask key m1\<rparr>
                in case map_of (clips (svc b1)) userId of
                     None \<Rightarrow> Some (ret, d, - 1, False, b2)
                   | Some clip \<Rightarrow> Some (E_OK, assign_data d clip, - 1, True, b2))
          else GetRemotePasteData V R userId event d (- 1) b1)"

section \<open>After the data is read\<close>

definition HandleGetDataError :: "remote_env \<Rightarrow> nat option \<Rightarrow> string \<Rightarrow> string \<Rightarrow> pasteboard \<Rightarrow> pasteboard" where
  "HandleGetDataError R pasteBlock deviceId pasteId b =
     b\<lparr>links := ClearP2PEstablishTaskInfo
        (if pasteBlock \<noteq> None then snd (PasteComplete (rm_links R) deviceId pasteId (links b)) else links b)\<rparr>"

definition HandleNotificationsAndStatusChecks :: "remote_env \<Rightarrow> AppInfo \<Rightarrow> string \<Rightarrow> bool \<Rightarrow> pasteboard \<Rightarrow> bool \<times> pasteboard" where
  "HandleNotificationsAndStatusChecks R appInfo peerNetId isPeerOnline b =
     (if peerNetId \<noteq> [] then rm_online R peerNetId else isPeerOnline,
      if observerEventMap (observers (svc b)) \<noteq> Map.empty
      then b\<lparr>svc := notify (GetAppBundleName appInfo) (ai_userId appInfo) PASTEBOARD_READ (svc b)\<rparr> else b)"

definition PublishIdle :: "svc_env \<Rightarrow> remote_env \<Rightarrow> PasteData \<Rightarrow> i32 \<Rightarrow> string \<Rightarrow> nat option \<Rightarrow> pasteboard \<Rightarrow> pasteboard" where
  "PublishIdle V R d syncTime peerNetId pasteBlock b =
     (if prop_isRemote (pd_props d) \<and> syncTime \<noteq> 0 \<and> pasteBlock = None \<and> has_plugin V
      then b\<lparr>links := call (PublishServiceState peerNetId IDLE (p2p_publish (rm_links R) peerNetId IDLE)) (links b)\<rparr> else b)"

definition GetPasteDataDot :: "svc_env \<Rightarrow> PasteData \<Rightarrow> string \<Rightarrow> i32 \<Rightarrow> service \<Rightarrow> service" where
  "GetPasteDataDot V d bundleName userId s =
     snd (SetPasteboardHistory (GetTime V) bundleName ''get'' (if prop_isRemote (pd_props d) then ''remote'' else []) userId s)"

definition share_records :: "bool \<Rightarrow> i32 \<Rightarrow> PasteData \<Rightarrow> service \<Rightarrow> service" where
  "share_records same userId d s = (if \<not> same then s else case map_of (clips s) userId of
      None \<Rightarrow> s
    | Some clip \<Rightarrow> s\<lparr>clips := set_value userId (clip\<lparr>pd_records := pd_records d\<rparr>) (clips s)\<rparr>)"

definition wait_block :: "nat \<Rightarrow> p2p \<Rightarrow> p2p" where
  "wait_block n s = s\<lparr>ready := ready s - {n}\<rparr>"

definition CheckAndGrantRemoteUri :: "svc_env \<Rightarrow> remote_env \<Rightarrow> caller \<Rightarrow> PasteData \<Rightarrow> bool \<Rightarrow> AppInfo \<Rightarrow> string \<Rightarrow> nat option \<Rightarrow>
    pasteboard \<Rightarrow> (i32 \<times> PasteData \<times> pasteboard) run" where
  "CheckAndGrantRemoteUri V R c d same appInfo pasteId pasteBlock b = do {
     let s1 = GetPasteDataDot V d (ai_bundleName appInfo) (ai_userId appInfo) (svc b);
     (grantUris, d1) \<leftarrow> CheckUriPermission (sv_ext V) (sv_web V) (ai_bundleName appInfo, ai_appIndex appInfo) d;
     let isRemoteData = prop_isRemote (pd_props d);
     let s2 = share_records same (ai_userId appInfo) d1 s1;
     let d2 = (if isRemoteData then d1\<lparr>pd_pasteId := pasteId\<rparr> else d1);
     let l1 = (if isRemoteData
               then (case pasteBlock of
                       None \<Rightarrow> links b
                     | Some n \<Rightarrow> if grantUris \<noteq> [] then wait_block n (links b)
                                 else snd (PasteComplete (rm_links R) (pd_deviceId d2) pasteId (links b)))
               else links b);
     let l2 = ClearP2PEstablishTaskInfo l1;
     (case GrantUriPermission V (rm_grant R) c grantUris (ai_tokenId appInfo) isRemoteData s2 (grantState b) of
        (ret, g) \<Rightarrow> Some (ret, d2, b\<lparr>svc := s2, links := l2, grantState := g\<rparr>))
   }"

section \<open>The request\<close>

record paste_out =
  po_data :: PasteData
  po_syncTime :: i32
  po_isPeerOnline :: bool
  po_peerNetId :: string
  po_peerUdid :: string

definition local_read :: "svc_env \<Rightarrow> AppInfo \<Rightarrow> PasteData \<Rightarrow> i32 \<Rightarrow> pasteboard \<Rightarrow> read_result run" where
  "local_read V appInfo d syncTime b = do {
     (ret, d', s') \<leftarrow> GetLocalData V appInfo d (svc b);
     Some (ret, d', syncTime, ret = E_OK, b\<lparr>svc := s'\<rparr>)
   }"

definition read_step :: "svc_env \<Rightarrow> remote_env \<Rightarrow> caller \<Rightarrow> AppInfo \<Rightarrow> i32 \<times> GlobalEvent \<Rightarrow> paste_out \<Rightarrow> pasteboard \<Rightarrow>
    (i32 \<times> bool \<times> nat option \<times> paste_out \<times> pasteboard) run" where
  "read_step V R c appInfo dist out b = (case dist of (distRet, distEvt) \<Rightarrow>
     let d = po_data out; pasteId = pd_pasteId d in
     if distRet \<noteq> E_OK \<or> GetScreenStatus (ai_userId appInfo) (svc b) \<noteq> ScreenUnlocked
     then do {
       let event = currentEvent (svc b);
       let (pasteBlock, l) = EstablishP2PLinkTask (rm_links R) (c_pid c) pasteId event (links b);
       (ret, d', syncTime, same, b1) \<leftarrow> local_read V appInfo d (po_syncTime out) (b\<lparr>links := l\<rparr>);
       let out1 = out\<lparr>po_data := d', po_syncTime := syncTime\<rparr>;
       Some (ret, same, pasteBlock,
         if distRet = GET_SAME_REMOTE_DATA
         then out1\<lparr>po_peerNetId := evt_deviceId event, po_peerUdid := rm_udid R (evt_deviceId event)\<rparr> else out1, b1)
     }
     else do {
       let (pasteBlock, l) = EstablishP2PLinkTask (rm_links R) (c_pid c) pasteId distEvt (links b);
       (ret, d', syncTime, same, b1) \<leftarrow> GetRemoteData V R (ai_userId appInfo) distEvt d (b\<lparr>links := l\<rparr>);
       if ret = REMOTE_DATA_SIZE_EXCEEDED
       then do {
         (ret', d'', syncTime', same', b2) \<leftarrow>
           local_read V appInfo d' syncTime (HandleGetDataError R pasteBlock (evt_deviceId distEvt) pasteId b1);
         Some (ret', same', pasteBlock, out\<lparr>po_data := d'', po_syncTime := syncTime'\<rparr>, b2)
       }
       else Some (ret, same, pasteBlock, out\<lparr>po_data := d', po_syncTime := syncTime,
         po_peerNetId := evt_deviceId distEvt, po_peerUdid := rm_udid R (evt_deviceId distEvt)\<rparr>, b1)
     })"

definition GetData :: "svc_env \<Rightarrow> remote_env \<Rightarrow> caller \<Rightarrow> paste_out \<Rightarrow> pasteboard \<Rightarrow> (i32 \<times> paste_out \<times> pasteboard) run" where
  "GetData V R c out b = do {
     let appInfo = GetAppInfo V (c_tokenId c);
     let pasteId = pd_pasteId (po_data out);
     let (distRet, distEvt) = GetValidDistributeEvent V (ai_userId appInfo) (svc b);
     let b0 = (if distRet = GET_SAME_REMOTE_DATA \<and> IsRemoteDataPasting (task_key distEvt) (taskMgr b)
               then b\<lparr>taskMgr := snd (WaitRemoteData (task_key distEvt) (taskMgr b))\<rparr> else b);
     (result, same, pasteBlock, out1, b1) \<leftarrow> read_step V R c appInfo (distRet, distEvt) out b0;
     let (isPeerOnline, b2) = HandleNotificationsAndStatusChecks R appInfo (po_peerNetId out1) (po_isPeerOnline out1) b1;
     let out2 = out1\<lparr>po_isPeerOnline := isPeerOnline\<rparr>;
     let b3 = PublishIdle V R (po_data out2) (po_syncTime out2) (po_peerNetId out2) pasteBlock b2;
     if result \<noteq> E_OK then Some (result, out2, HandleGetDataError R pasteBlock (evt_deviceId distEvt) pasteId b3)
     else do {
       (ret, d, b4) \<leftarrow> CheckAndGrantRemoteUri V R c (po_data out2) same appInfo pasteId pasteBlock b3;
       Some (ret, out2\<lparr>po_data := d\<rparr>, b4)
     }
   }"

definition WriteRawData :: "svc_env \<Rightarrow> remote_env \<Rightarrow> byte list \<Rightarrow> i64 \<Rightarrow> i32 \<Rightarrow> pasteboard \<Rightarrow> bool \<times> i32 \<times> pasteboard" where
  "WriteRawData V R bytes size0 serFd b =
     (if \<not> (0 < sint size0 \<and> sint size0 \<le> sint (max_raw V)) then (False, serFd, b)
      else
        (let fd = AshmemCreate R size0; closed = b\<lparr>svc := emit (FdClosed fd) (svc b)\<rparr>
         in if sint fd < 0 then (False, serFd, b)
            else if sint (AshmemSetProt R fd) < 0 then (False, serFd, closed)
            else if \<not> mmap_ok R then (False, serFd, closed)
            else if \<not> MemcpyData_ok R then (False, serFd, closed)
            else (True, fd, b\<lparr>shared := (fd, take (nat (sint size0)) bytes) # shared b\<rparr>)))"

definition DealData :: "svc_env \<Rightarrow> remote_env \<Rightarrow> i32 \<Rightarrow> i64 \<Rightarrow> byte list \<Rightarrow> PasteData \<Rightarrow> pasteboard \<Rightarrow>
    (i32 \<times> i32 \<times> i64 \<times> byte list \<times> pasteboard) run" where
  "DealData V R fd size0 rawData d b = do {
     (ok, pasteDataTlv) \<leftarrow> Encode_data (sv_ext V) False d;
     let tlvSize = (word_of_nat (length pasteDataTlv) :: i64);
     (if \<not> ok then Some (SERIALIZATION_ERROR, fd, size0, rawData, b)
      else if sint tlvSize > sint MIN_ASHMEM_DATA_SIZE
      then (case WriteRawData V R pasteDataTlv tlvSize (- 1) b of (res, serviceFd, b1) \<Rightarrow>
              Some (if \<not> res then (SERIALIZATION_ERROR, fd, size0, rawData, b1) else (ERR_OK, serviceFd, tlvSize, [], b1)))
      else (let serviceFd = AshmemCreate R 1
            in Some (if sint serviceFd < 0 then (SERIALIZATION_ERROR, fd, size0, rawData, b)
                     else (ERR_OK, serviceFd, tlvSize, pasteDataTlv, b))))
   }"

definition TEST_SERVER_UID :: i32 where "TEST_SERVER_UID = 3500"

definition GetPasteDataInner :: "svc_env \<Rightarrow> remote_env \<Rightarrow> caller \<Rightarrow> i32 \<Rightarrow> i64 \<Rightarrow> byte list \<Rightarrow> string \<Rightarrow> i32 \<Rightarrow> pasteboard \<Rightarrow>
    (i32 \<times> i32 \<times> i64 \<times> byte list \<times> i32 \<times> pasteboard) run" where
  "GetPasteDataInner V R c fd size0 rawData pasteId syncTime b =
     (let data0 = (new_data (sv_params V) (now_ms V))\<lparr>pd_pasteId := pasteId\<rparr>;
          tokenId = c_tokenId c;
          appInfo = GetAppInfo V tokenId;
          isTestServerSetPasteData = (rm_developer R \<and> setPasteDataUId (svc b) = TEST_SERVER_UID)
      in if \<not> VerifyPermission V tokenId \<and> \<not> isTestServerSetPasteData
         then Some (PERMISSION_VERIFICATION_ERROR, fd, size0, rawData, syncTime, b)
         else do {
           (ret, out, b1) \<leftarrow> GetData V R c \<lparr>po_data = data0, po_syncTime = syncTime, po_isPeerOnline = False,
             po_peerNetId = [], po_peerUdid = []\<rparr> b;
           let d = SetBundleInfo (ai_bundleName appInfo) (ai_appIndex appInfo) (po_data out);
           if ret \<noteq> E_OK then Some (ret, fd, size0, rawData, po_syncTime out, b1)
           else do {
             let b2 = b1\<lparr>svc := (svc b1)\<lparr>delayDataId := pd_dataId d, delayTokenId := tokenId\<rparr>\<rparr>;
             (ret', fd', size1, rawData', b3) \<leftarrow> DealData V R fd size0 rawData d b2;
             Some (ret', fd', size1, rawData', po_syncTime out, b3)
           }
         })"

text \<open>The result of the call, the descriptor, size0, bytes, time of the transfer and \<open>realErrCode\<close>.\<close>

definition GetPasteData :: "svc_env \<Rightarrow> remote_env \<Rightarrow> caller \<Rightarrow> i64 \<Rightarrow> byte list \<Rightarrow> u32 \<Rightarrow> i32 \<Rightarrow> i32 \<Rightarrow> pasteboard \<Rightarrow>
    (i32 \<times> i32 \<times> i64 \<times> byte list \<times> i32 \<times> i32 \<times> pasteboard) run" where
  "GetPasteData V R c size0 rawData pasteSeqId syncTime realErrCode b = do {
     let pasteId = CreatePasteId ''GetPasteData'' pasteSeqId (c_pid c);
     (ret, fd, size1, rawData', syncTime', b1) \<leftarrow> GetPasteDataInner V R c (- 1) size0 rawData pasteId syncTime b;
     let fd' = (if fd = - 1 then AshmemCreate R 1 else fd);
     if fd = - 1 \<and> sint fd' < 0 then Some (SERIALIZATION_ERROR, fd', size1, rawData', syncTime', realErrCode, b1)
     else Some (0, fd', size1, rawData', syncTime', ret, b1)
   }"

end
