(* ===== verification/Paste_Request.thy ===== *)
theory Paste_Request
  imports Service_Read Uri_Grant_Safe
begin

text \<open>
  What a paste request delivers: nothing without permission, for a clip of this device the bytes
  that decode to the records of the clip, for a clip of another device the transferred data or an
  error that leaves the clips alone.
\<close>

section \<open>Permission\<close>

definition may_paste :: "svc_env \<Rightarrow> remote_env \<Rightarrow> caller \<Rightarrow> service \<Rightarrow> bool" where
  "may_paste V R c s \<longleftrightarrow> VerifyPermission V (c_tokenId c) \<or> rm_developer R \<and> setPasteDataUId s = TEST_SERVER_UID"

lemma Inner_refused:
  "\<not> may_paste V R c (svc b) \<Longrightarrow>
   GetPasteDataInner V R c fd n raw pid t b = Some (PERMISSION_VERIFICATION_ERROR, fd, n, raw, t, b)"
  by (simp add: GetPasteDataInner_def may_paste_def Let_def)


section \<open>The bytes of the answer\<close>

text \<open>What the caller reads: the shared memory for a large answer, else the bytes themselves.\<close>

definition received_bytes :: "i32 \<Rightarrow> i64 \<Rightarrow> byte list \<Rightarrow> pasteboard \<Rightarrow> byte list option" where
  "received_bytes fd n raw b = (if sint n > sint MIN_ASHMEM_DATA_SIZE then map_of (shared b) fd else Some raw)"

lemma sint_length: "n < 2 ^ 63 \<Longrightarrow> sint (word_of_nat n :: i64) = int n"
  by (simp add: signed_of_nat signed_take_bit_int_eq_self)

lemma WriteRawData_bytes:
  assumes "WriteRawData V R bytes n fd b = (True, fd', b')"
  shows "map_of (shared b') fd' = Some (take (nat (sint n)) bytes)" "svc b' = svc b" "taskMgr b' = taskMgr b"
  using assms by (auto simp: WriteRawData_def Let_def split: if_splits)

lemma DealData_delivers:
  assumes "DealData V R fd n raw d b = Some (ERR_OK, fd', n', raw', b')"
    and "data_fits (sv_ext V) False 0 d" "CountTLV_data (sv_ext V) False d = Some c" "c < 2 ^ 32" "c \<le> rsize_max (sv_ext V)"
  shows "\<exists>bytes buf. received_bytes fd' n' raw' b' = Some bytes \<and> int (length bytes) = sint n' \<and>
    Decode (DecodeTLV_data (sv_ext V) 0 (new_data P now)) bytes = ROk (data_received (sv_ext V) False d) buf"
proof -
  obtain bs buf where e: "Encode_data (sv_ext V) False d = Some (True, bs)"
    "Decode (DecodeTLV_data (sv_ext V) 0 (new_data P now)) bs = ROk (data_received (sv_ext V) False d) buf"
    using Encode_Decode_data[OF assms(2-5), of P now] by blast
  have "c = length (enc_data (sv_ext V) False d) + 6 * data_slack (sv_ext V) False d"
    using count_data_covers[OF assms(2)] assms(3) by simp
  then have "length bs = c" using Encode_data_bytes[OF assms(2-5)] e(1) by simp
  then have n: "sint (word_of_nat (length bs) :: i64) = int (length bs)" using assms(4) by (intro sint_length) simp
  have ne: "SERIALIZATION_ERROR \<noteq> ERR_OK" by (simp add: err_defs ERR_OK_def err_base_def)
  show ?thesis
  proof (cases "sint (word_of_nat (length bs) :: i64) > sint MIN_ASHMEM_DATA_SIZE")
    case True
    obtain res serviceFd b1 where w: "WriteRawData V R bs (word_of_nat (length bs)) (- 1) b = (res, serviceFd, b1)" by (meson prod_cases3)
    then have r: "res" "fd' = serviceFd" "n' = word_of_nat (length bs)" "b' = b1"
      using assms(1) e(1) True ne by (auto simp: DealData_def Let_def split: if_splits)
    have "map_of (shared b1) serviceFd = Some bs" using WriteRawData_bytes(1)[of V R bs "word_of_nat (length bs)" "- 1" b serviceFd b1] w r(1) n by simp
    then show ?thesis using r e(2) True n by (simp add: received_bytes_def)
  next
    case False
    then have "n' = word_of_nat (length bs)" "raw' = bs"
      using assms(1) e(1) ne by (auto simp: DealData_def Let_def split: if_splits)
    then show ?thesis using e(2) False n by (simp add: received_bytes_def)
  qed
qed

lemma DealData_works:
  assumes fits: "data_fits (sv_ext V) False 0 d" "CountTLV_data (sv_ext V) False d = Some n" "n < 2 ^ 32" "n \<le> rsize_max (sv_ext V)"
      "0 < n" "int n \<le> sint (max_raw V)"
    and memory: "\<And>k. 0 \<le> sint (AshmemCreate R k)" "\<And>f. 0 \<le> sint (AshmemSetProt R f)" "mmap_ok R" "MemcpyData_ok R"
  shows "\<exists>fd' size1 raw' b'. DealData V R fd size0 raw d b = Some (ERR_OK, fd', size1, raw', b') \<and> svc b' = svc b \<and> fd' = AshmemCreate R (if int n > sint MIN_ASHMEM_DATA_SIZE then word_of_nat n else 1) \<and> size1 = word_of_nat n"
proof -
  obtain bs where e: "Encode_data (sv_ext V) False d = Some (True, bs)" "length bs = n"
    using Encode_data_bytes[OF fits(1-4)] count_data_covers[OF fits(1)] fits(2) by auto
  have n: "sint (word_of_nat n :: i64) = int n" using fits(3) by (intro sint_length) simp
  have w: "WriteRawData V R bs (word_of_nat n) (- 1) b =
      (True, AshmemCreate R (word_of_nat n), b\<lparr>shared := (AshmemCreate R (word_of_nat n), take n bs) # shared b\<rparr>)"
    using memory(2)[of "AshmemCreate R (word_of_nat n)"] memory(1)[of "word_of_nat n"] memory(3,4) fits(5,6) n
    by (simp add: WriteRawData_def Let_def)
  show ?thesis using e w memory(1)[of 1] memory(1)[of "word_of_nat n"] by (simp add: DealData_def Let_def n)
qed

section \<open>Pasting the clip of this device\<close>

lemma grant_succeeds:
  assumes "data_ok d" "READ_PERMISSION (sv_web V) \<noteq> READ_WRITE_PERMISSION (sv_web V)"
    and "CheckUriPermission (sv_ext V) (sv_web V) target d = Some (m, d')"
  obtains g' where "GrantUriPermission V G c m t (prop_isRemote (pd_props d)) s g = (E_OK, g')"
  using GrantUriPermission_effect[OF grant_lists[OF assms] assms(2), of "prop_isRemote (pd_props d)" G c t s g]
    writeable_remote[of d] by blast

definition tidied :: "AppInfo \<Rightarrow> PasteData \<Rightarrow> PasteData" where
  "tidied a d = d\<lparr>pd_records := map (map_option (tidy (ai_bundleName a, ai_appIndex a) d)) (pd_records d)\<rparr>"

definition delivered :: "AppInfo \<Rightarrow> string \<Rightarrow> PasteData \<Rightarrow> PasteData" where
  "delivered a pid d = (let d1 = tidied a d in if prop_isRemote (pd_props d) then d1\<lparr>pd_pasteId := pid\<rparr> else d1)"

lemma CheckAndGrant_ok:
  assumes "data_ok d" "READ_PERMISSION (sv_web V) \<noteq> READ_WRITE_PERMISSION (sv_web V)"
  shows "\<exists>b'. CheckAndGrantRemoteUri V R c d same a pid blk b = Some (E_OK, delivered a pid d, b')"
proof -
  obtain m where m: "CheckUriPermission (sv_ext V) (sv_web V) (ai_bundleName a, ai_appIndex a) d = Some (m, tidied a d)"
    using CheckUriPermission_eq[OF assms(1)] by (simp add: tidied_def)
  obtain g' where "GrantUriPermission V (rm_grant R) c m (ai_tokenId a) (prop_isRemote (pd_props d))
      (share_records same (ai_userId a) (tidied a d) (GetPasteDataDot V d (ai_bundleName a) (ai_userId a) (svc b))) (grantState b) = (E_OK, g')"
    by (rule grant_succeeds[OF assms m])
  then show ?thesis by (simp add: CheckAndGrantRemoteUri_def m Let_def delivered_def)
qed

lemma data_ok_pasted: "data_ok clip \<Longrightarrow> data_ok (pasted a d0 clip)"
proof -
  assume "data_ok clip"
  then have "data_ok (assign_data d0 clip)" using data_okD by auto
  then show ?thesis by (simp add: pasted_def SetLocalPasteFlag_def data_ok_def SetBundleInfo_def)
qed

lemma local_read_plain:
  assumes "map_of (clips (svc b)) (ai_userId a) = Some clip" "map_of (copyTime (svc b)) (ai_userId a) = Some t"
    "\<not> pd_isDelayData clip" "\<not> pd_isDelayRecord clip" "IsDataValid clip (ai_tokenId a) (ai_userId a) (svc b) = E_OK"
  shows "local_read V a d0 n b = Some (E_OK, pasted a d0 clip, n, True, b)"
  using GetLocalData_plain[OF assms(1-4), of V d0] assms(5) by (simp add: local_read_def Let_def)

lemma GetData_local:
  assumes a: "a = GetAppInfo V (c_tokenId c)"
    and clip: "map_of (clips (svc b)) (ai_userId a) = Some clip" "map_of (copyTime (svc b)) (ai_userId a) = Some t"
      "\<not> pd_isDelayData clip" "\<not> pd_isDelayRecord clip" "data_ok clip"
    and valid: "IsDataValid clip (ai_tokenId a) (ai_userId a) (svc b) = E_OK"
    and here: "fst (GetValidDistributeEvent V (ai_userId a) (svc b)) \<noteq> E_OK \<or> GetScreenStatus (ai_userId a) (svc b) \<noteq> ScreenUnlocked"
    and perms: "READ_PERMISSION (sv_web V) \<noteq> READ_WRITE_PERMISSION (sv_web V)"
  shows "\<exists>out' b'. GetData V R c out b = Some (E_OK, out', b') \<and>
    po_data out' = delivered a (pd_pasteId (po_data out)) (pasted a (po_data out) clip)"
proof -
  let ?d = "pasted a (po_data out) clip" and ?pid = "pd_pasteId (po_data out)"
  obtain distRet distEvt where e: "GetValidDistributeEvent V (ai_userId a) (svc b) = (distRet, distEvt)" by (meson surj_pair)
  define b0 where "b0 = (if distRet = GET_SAME_REMOTE_DATA \<and> IsRemoteDataPasting (task_key distEvt) (taskMgr b)
               then b\<lparr>taskMgr := snd (WaitRemoteData (task_key distEvt) (taskMgr b))\<rparr> else b)"
  have s0: "svc b0 = svc b" by (simp add: b0_def)
  obtain blk l where p: "EstablishP2PLinkTask (rm_links R) (c_pid c) ?pid (currentEvent (svc b)) (links b0) = (blk, l)" by (meson surj_pair)
  have r: "local_read V a (po_data out) (po_syncTime out) (b0\<lparr>links := l\<rparr>) = Some (E_OK, ?d, po_syncTime out, True, b0\<lparr>links := l\<rparr>)"
    by (rule local_read_plain) (simp_all add: s0 clip valid)
  have "\<exists>out1 b1. read_step V R c a (distRet, distEvt) out b0 = Some (E_OK, True, blk, out1, b1) \<and> po_data out1 = ?d"
    using here by (simp add: read_step_def e s0 p r Let_def)
  then obtain out1 b1 where r1: "read_step V R c a (distRet, distEvt) out b0 = Some (E_OK, True, blk, out1, b1)" "po_data out1 = ?d" by blast
  obtain on b2 where h: "HandleNotificationsAndStatusChecks R a (po_peerNetId out1) (po_isPeerOnline out1) b1 = (on, b2)" by (meson surj_pair)
  obtain b4 where g: "CheckAndGrantRemoteUri V R c ?d True a ?pid blk
      (PublishIdle V R ?d (po_syncTime out1) (po_peerNetId out1) blk b2) = Some (E_OK, delivered a ?pid ?d, b4)"
    using CheckAndGrant_ok[OF data_ok_pasted[OF clip(5)] perms] by blast
  show ?thesis
    using r1 h g by (simp add: GetData_def a[symmetric] e b0_def[symmetric] Let_def)
qed

lemma local_paste_answer:
  assumes a: "a = GetAppInfo V (c_tokenId c)" and may: "may_paste V R c (svc b)"
    and clip: "map_of (clips (svc b)) (ai_userId a) = Some clip" "map_of (copyTime (svc b)) (ai_userId a) = Some t"
      "\<not> pd_isDelayData clip" "\<not> pd_isDelayRecord clip" "data_ok clip"
    and valid: "IsDataValid clip (ai_tokenId a) (ai_userId a) (svc b) = E_OK"
    and here: "fst (GetValidDistributeEvent V (ai_userId a) (svc b)) \<noteq> E_OK \<or> GetScreenStatus (ai_userId a) (svc b) \<noteq> ScreenUnlocked"
    and perms: "READ_PERMISSION (sv_web V) \<noteq> READ_WRITE_PERMISSION (sv_web V)"
    and d: "pid = CreatePasteId ''GetPasteData'' seq (c_pid c)"
      "d = SetBundleInfo (ai_bundleName a) (ai_appIndex a) (delivered a pid
         (pasted a ((new_data (sv_params V) (now_ms V))\<lparr>pd_pasteId := pid\<rparr>) clip))"
    and fits: "data_fits (sv_ext V) False 0 d" "CountTLV_data (sv_ext V) False d = Some n" "n < 2 ^ 32" "n \<le> rsize_max (sv_ext V)"
      "0 < n" "int n \<le> sint (max_raw V)"
    and memory: "\<And>k. 0 \<le> sint (AshmemCreate R k)" "\<And>f. 0 \<le> sint (AshmemSetProt R f)" "mmap_ok R" "MemcpyData_ok R"
  shows "\<exists>fd size1 raw1 t1 b1 bytes buf. GetPasteData V R c size0 raw0 seq t0 e b = Some (0, fd, size1, raw1, t1, ERR_OK, b1) \<and>
    received_bytes fd size1 raw1 b1 = Some bytes \<and> int (length bytes) = sint size1 \<and>
    Decode (DecodeTLV_data (sv_ext V) 0 (new_data P now)) bytes = ROk (data_received (sv_ext V) False d) buf \<and>
    delayTokenId (svc b1) = c_tokenId c \<and> delayDataId (svc b1) = pd_dataId d \<and>
    fd = AshmemCreate R (if int n > sint MIN_ASHMEM_DATA_SIZE then word_of_nat n else 1) \<and> size1 = word_of_nat n"
proof -
  let ?out = "\<lparr>po_data = (new_data (sv_params V) (now_ms V))\<lparr>pd_pasteId := pid\<rparr>, po_syncTime = t0, po_isPeerOnline = False,
             po_peerNetId = [], po_peerUdid = []\<rparr>"
  obtain out' b' where g: "GetData V R c ?out b = Some (E_OK, out', b')" "SetBundleInfo (ai_bundleName a) (ai_appIndex a) (po_data out') = d"
    using GetData_local[OF a clip valid here perms, of R ?out] d(2) by auto
  define b2 where "b2 = b'\<lparr>svc := (svc b')\<lparr>delayDataId := pd_dataId d, delayTokenId := c_tokenId c\<rparr>\<rparr>"
  obtain fd size1 raw1 b1 where dd: "DealData V R (- 1) size0 raw0 d b2 = Some (ERR_OK, fd, size1, raw1, b1)" "svc b1 = svc b2" "fd = AshmemCreate R (if int n > sint MIN_ASHMEM_DATA_SIZE then word_of_nat n else 1)" "size1 = word_of_nat n"
    using DealData_works[OF fits memory] by blast
  obtain bytes buf where r: "received_bytes fd size1 raw1 b1 = Some bytes" "int (length bytes) = sint size1"
    "Decode (DecodeTLV_data (sv_ext V) 0 (new_data P now)) bytes = ROk (data_received (sv_ext V) False d) buf"
    using DealData_delivers[OF dd(1) fits(1-4), of P now] by blast
  have "GetPasteDataInner V R c (- 1) size0 raw0 pid t0 b = Some (ERR_OK, fd, size1, raw1, po_syncTime out', b1)"
    using may g dd(1) by (auto simp: GetPasteDataInner_def may_paste_def a[symmetric] b2_def Let_def)
  then have "GetPasteData V R c size0 raw0 seq t0 e b = Some (0, fd, size1, raw1, po_syncTime out', ERR_OK, b1)"
    using dd(3) memory(1)[of "(if int n > sint MIN_ASHMEM_DATA_SIZE then word_of_nat n else 1)"] by (auto simp: GetPasteData_def d(1) Let_def)
  then show ?thesis using r dd(2-4) by (auto simp: b2_def)
qed

text \<open>From the clip to the caller. When an application that may read the pasteboard pastes and no other
  device has a newer clip, or the screen is locked, and the shared memory works, the request succeeds
  and the caller receives bytes that decode to the clip: all its records with their entries and every
  property that is transmitted, apart from the name of the application, which is that of the caller, and the
  distributed URIs made on this device, which are dropped. The size reported is the number of bytes, small
  answers come inline and large ones in the memory of the returned descriptor, and only the caller may fetch
  the delayed entries of this clip.\<close>

theorem local_paste_delivers:
  assumes a: "a = GetAppInfo V (c_tokenId c)" and may: "may_paste V R c (svc b)"
    and clip: "map_of (clips (svc b)) (ai_userId a) = Some clip" "map_of (copyTime (svc b)) (ai_userId a) = Some t"
      "\<not> pd_isDelayData clip" "\<not> pd_isDelayRecord clip" "data_ok clip"
    and valid: "IsDataValid clip (ai_tokenId a) (ai_userId a) (svc b) = E_OK"
    and here: "fst (GetValidDistributeEvent V (ai_userId a) (svc b)) \<noteq> E_OK \<or> GetScreenStatus (ai_userId a) (svc b) \<noteq> ScreenUnlocked"
    and perms: "READ_PERMISSION (sv_web V) \<noteq> READ_WRITE_PERMISSION (sv_web V)"
    and d: "pid = CreatePasteId ''GetPasteData'' seq (c_pid c)"
      "d = SetBundleInfo (ai_bundleName a) (ai_appIndex a) (delivered a pid
         (pasted a ((new_data (sv_params V) (now_ms V))\<lparr>pd_pasteId := pid\<rparr>) clip))"
    and fits: "data_fits (sv_ext V) False 0 d" "CountTLV_data (sv_ext V) False d = Some n" "n < 2 ^ 32" "n \<le> rsize_max (sv_ext V)"
      "0 < n" "int n \<le> sint (max_raw V)"
    and memory: "\<And>k. 0 \<le> sint (AshmemCreate R k)" "\<And>f. 0 \<le> sint (AshmemSetProt R f)" "mmap_ok R" "MemcpyData_ok R"
  shows "\<exists>fd size1 raw1 t1 b1 bytes buf. GetPasteData V R c size0 raw0 seq t0 e b = Some (0, fd, size1, raw1, t1, ERR_OK, b1) \<and>
    received_bytes fd size1 raw1 b1 = Some bytes \<and> int (length bytes) = sint size1 \<and>
    Decode (DecodeTLV_data (sv_ext V) 0 (new_data P now)) bytes = ROk (data_received (sv_ext V) False d) buf \<and>
    delayTokenId (svc b1) = c_tokenId c \<and> delayDataId (svc b1) = pd_dataId d"
  using local_paste_answer[OF assms, of size0 raw0 t0 e P now] by blast

definition sample_remote_env :: remote_env where
  "sample_remote_env = \<lparr>rm_fetch = (\<lambda>_. ((1, 0), [])), rm_leftover = (\<lambda>_. new_data sample_params 0), rm_in_time = True,
     rm_entry = (\<lambda>_ _ _. (0, [])), rm_entry_leftover = (\<lambda>_. empty_entry), rm_min_version = 6,
     rm_before = sample_env, rm_after = sample_env, rm_online = (\<lambda>_. True), rm_udid = (\<lambda>_. []), rm_links =
       \<lparr>p2p_device = (\<lambda>_. E_OK), p2p_localId = ''net'', p2p_plugin = True, p2p_apply = (\<lambda>_. 0), p2p_publish = (\<lambda>_ _. 0), p2p_connect = (\<lambda>_. 0)\<rparr>,
     rm_grant = sample_grants, rm_developer = False, AshmemCreate = (\<lambda>_. 5), AshmemSetProt = (\<lambda>_. 0), mmap_ok = True, MemcpyData_ok = True\<rparr>"

definition sample_clip :: PasteData where
  "sample_clip = (new_data sample_params 0)\<lparr>pd_records := [Some sample_record], pd_dataId := 3\<rparr>"

definition sample_board :: pasteboard where
  "sample_board = \<lparr>svc = init_state\<lparr>clips := [(100, sample_clip)], copyTime := [(100, 1)]\<rparr>, taskMgr = new_manager, links = new_p2p,
     grantState = \<lparr>grant_calls = [], readBundles = []\<rparr>, shared = []\<rparr>"

definition sample_caller :: caller where
  "sample_caller = \<lparr>c_uid = 1, c_pid = 1, c_tokenId = 7, c_fullTokenId = 7, c_userId = 100, c_manageShare = False\<rparr>"

abbreviation sample_answer :: PasteData where
  "sample_answer \<equiv> SetBundleInfo (ai_bundleName (GetAppInfo sample_env 7)) (ai_appIndex (GetAppInfo sample_env 7))
     (delivered (GetAppInfo sample_env 7) ''GetPasteData_1_4''
        (pasted (GetAppInfo sample_env 7) ((new_data sample_params 7)\<lparr>pd_pasteId := ''GetPasteData_1_4''\<rparr>) sample_clip))"

lemma sample_answer_eq: "sample_answer = sample_clip\<lparr>pd_props := (pd_props sample_clip)\<lparr>prop_bundleName := ''com.app''\<rparr>,
    pd_isLocalPaste := False\<rparr>"
proof -
  have a: "GetAppInfo sample_env 7 = \<lparr>ai_bundleName = ''com.app'', ai_tokenType = TOKEN_HAP, ai_userId = 100, ai_tokenId = 7, ai_appIndex = 0\<rparr>"
    by (simp add: GetAppInfo_def FillHapAppInfo_def sample_env_def Let_def new_AppInfo_def)
  have r: "drop_local_uri sample_record = sample_record" by (simp add: drop_local_uri_def sample_record_def empty_record_def)
  show ?thesis
    by (simp add: a r delivered_def tidied_def tidy_def Let_def pasted_def SetLocalPasteFlag_def SetBundleInfo_def assign_data_def
        assign_props_def sample_clip_def new_data_def new_props_def)
qed

lemma sample_answer_fits: "data_fits sample_ext False 0 sample_answer"
  unfolding sample_answer_eq using sample_rec_fits sample_codecs_ok(2) [of 0]
  by (simp add: data_fits_def sample_clip_def new_data_def new_props_def sample_params_def records_fit_def MAX_DEPTH_def numeral_2_eq_2)

lemma sample_answer_count: "\<exists>n. CountTLV_data sample_ext False sample_answer = Some n \<and> n \<le> 9999 \<and> 0 < n"
proof -
  have p: "CountTLV_props sample_ext (pd_props sample_answer) \<le> 199"
    unfolding sample_answer_eq by (simp add: CountTLV_props_def sample_clip_def new_data_def new_props_def Parcelable2Raw_def Count_RawMem_def
        Count_vector_sum Count_string_def Count_basic_def sample_ext_def)
  obtain c where c: "CountTLV_record sample_ext False sample_record = Some c" "c \<le> 999"
    using sample_record_count by (simp add: CountTLV_record_def)
  have "CountTLV_data sample_ext False sample_answer = Some (Count_writeable (CountTLV_props sample_ext (pd_props sample_answer)) +
      Count_vector (Count_ptr Count_writeable) [Some c] + (3 * Count_basic 1 + Count_string [] + Count_string [] + Count_basic 1 + 3 * Count_basic 4))"
    unfolding sample_answer_eq by (simp add: CountTLV_data_def sample_clip_def new_data_def c)
  then show ?thesis using p c(2) by (simp add: Count_vector_sum Count_writeable_def Count_basic_def Count_string_def)
qed

lemma sample_paste:
  shows sample_env_fields: "sv_ext sample_env = sample_ext" "sv_web sample_env = sample_web" "sv_params sample_env = sample_params" "now_ms sample_env = 7"
      "max_raw sample_env = 134217728"
    and sample_web_perms: "READ_PERMISSION sample_web \<noteq> READ_WRITE_PERMISSION sample_web"
    and sample_caller_fields: "c_tokenId sample_caller = 7" "c_pid sample_caller = 1"
    and sample_reader: "ai_userId (GetAppInfo sample_env 7) = 100" "ai_tokenId (GetAppInfo sample_env 7) = 7"
    and sample_may_paste: "may_paste sample_env sample_remote_env sample_caller (svc sample_board)"
    and sample_clip_ok: "data_ok sample_clip"
    and sample_clip_valid: "IsDataValid sample_clip 7 100 (svc sample_board) = E_OK"
    and sample_no_event: "fst (GetValidDistributeEvent sample_env 100 (svc sample_board)) \<noteq> E_OK"
    and sample_paste_id: "''GetPasteData_1_4'' = CreatePasteId ''GetPasteData'' 4 (c_pid sample_caller)"
proof -
  show "sv_ext sample_env = sample_ext" "sv_web sample_env = sample_web" "sv_params sample_env = sample_params" "now_ms sample_env = 7"
    "max_raw sample_env = 134217728" by (simp_all add: sample_env_def)
  show "READ_PERMISSION sample_web \<noteq> READ_WRITE_PERMISSION sample_web" by (simp add: READ_PERMISSION_def READ_WRITE_PERMISSION_def sample_web_def)
  show c: "c_tokenId sample_caller = 7" "c_pid sample_caller = 1" by (simp_all add: sample_caller_def)
  show "ai_userId (GetAppInfo sample_env 7) = 100" "ai_tokenId (GetAppInfo sample_env 7) = 7"
    by (simp_all add: GetAppInfo_def FillHapAppInfo_def sample_env_def Let_def new_AppInfo_def)
  show "may_paste sample_env sample_remote_env sample_caller (svc sample_board)"
    by (simp add: may_paste_def VerifyPermission_def GetSdkVersion_def sample_env_def INVALID_VERSION_def Let_def)
  show "data_ok sample_clip"
    by (simp add: data_ok_def sample_clip_def no_null_objects_def sample_record_def empty_record_def mk_entry_mime_def)
  show "IsDataValid sample_clip 7 100 (svc sample_board) = E_OK"
    by (simp add: IsDataValid_def sample_clip_def new_data_def new_props_def IsDataAged_def sample_board_def CM_Find_def ERROR_USERID_def
        GetScreenStatus_def init_state_def InApp_def LocalDevice_def CrossDevice_def Let_def)
  show "fst (GetValidDistributeEvent sample_env 100 (svc sample_board)) \<noteq> E_OK"
    by (simp add: GetValidDistributeEvent_def sample_env_def err_defs err_base_def)
  have ch: "char_of (49 :: nat) = CHR ''1''" "char_of (52 :: nat) = CHR ''4''" by code_simp+
  show "''GetPasteData_1_4'' = CreatePasteId ''GetPasteData'' 4 (c_pid sample_caller)"
    by (simp add: CreatePasteId_def c i32_string_def to_string_u_def nat_string.simps ch)
qed

theorem local_paste_delivers_witness:
  "\<exists>fd size1 raw1 t1 b1 bytes buf. GetPasteData sample_env sample_remote_env sample_caller 0 [] 4 0 0 sample_board =
       Some (0, fd, size1, raw1, t1, ERR_OK, b1) \<and> received_bytes fd size1 raw1 b1 = Some bytes \<and>
     Decode (DecodeTLV_data sample_ext 0 (new_data sample_params 9)) bytes = ROk (data_received sample_ext False sample_answer) buf"
proof -
  obtain n where n: "CountTLV_data sample_ext False sample_answer = Some n" "n \<le> 9999" "0 < n" using sample_answer_count by blast
  have "\<exists>fd size1 raw1 t1 b1 bytes buf. GetPasteData sample_env sample_remote_env sample_caller 0 [] 4 0 0 sample_board =
       Some (0, fd, size1, raw1, t1, ERR_OK, b1) \<and> received_bytes fd size1 raw1 b1 = Some bytes \<and> int (length bytes) = sint size1 \<and>
     Decode (DecodeTLV_data (sv_ext sample_env) 0 (new_data sample_params 9)) bytes = ROk (data_received (sv_ext sample_env) False sample_answer) buf \<and>
     delayTokenId (svc b1) = c_tokenId sample_caller \<and> delayDataId (svc b1) = pd_dataId sample_answer"
    by (rule local_paste_delivers[where a = "GetAppInfo sample_env 7" and clip = sample_clip and t = 1 and n = n and pid = "''GetPasteData_1_4''"])
      (use n sample_answer_fits sample_may_paste sample_clip_ok sample_clip_valid sample_no_event sample_web_perms sample_paste_id in
        \<open>simp_all add: sample_env_fields sample_caller_fields sample_reader sample_board_def init_state_def sample_clip_def new_data_def sample_remote_env_def sample_ext_def\<close>)
  then show ?thesis unfolding sample_env_fields(1) by blast
qed


section \<open>Pasting the clip of another device\<close>

definition marked :: "ext \<Rightarrow> PasteDataRecord \<Rightarrow> PasteDataRecord" where
  "marked E r = (if rec_convertUri r = [] then r
     else if GetOriginUri E r = Some None then r\<lparr>rec_convertUri := []\<rparr> else r\<lparr>rec_isConvertUriFromRemote := True\<rparr>)"

lemma mark_remote_uris_eq:
  assumes "\<forall>p \<in> set rs. \<forall>r. p = Some r \<longrightarrow> no_null_objects r"
  shows "mark_remote_uris E rs = Some (map (map_option (marked E)) rs)"
  using assms
proof (induction rs)
  case (Cons p rs)
  then show ?case
  proof (cases p)
    case (Some r)
    then obtain u where "GetOriginUri E r = Some u" using getters_defined(4)[of r E] Cons.prems by auto
    then show ?thesis using Cons Some by (cases u) (simp_all add: marked_def)
  qed simp
qed simp

text \<open>The data of a transfer, before the receiving application is noted.\<close>

definition transferred :: "svc_env \<Rightarrow> remote_env \<Rightarrow> byte list \<Rightarrow> PasteData" where
  "transferred V R bs = (let d = decode_remote V R bs in
     d\<lparr>pd_originAuthority := (prop_bundleName (pd_props d), GetAppIndex d), pd_rawDataSize := word_of_nat (length bs),
       pd_records := map (map_option (marked (sv_ext V))) (pd_records d), pd_props := (pd_props d)\<lparr>prop_isRemote := True\<rparr>\<rparr>)"

lemma decode_remote_ok: "data_ok (rm_leftover R bs) \<Longrightarrow> data_ok (decode_remote V R bs)"
  using decoded_data_ok[of "sv_ext V" 0 "new_data (sv_params V) (now_ms V)" bs]
  by (auto simp: decode_remote_def data_ok_def new_data_def split: rres.split)

datatype fetch_outcome = FetchFailed i32 | FetchedClip i32 PasteData

definition fetch_outcome :: "svc_env \<Rightarrow> remote_env \<Rightarrow> i32 \<Rightarrow> GlobalEvent \<Rightarrow> fetch_outcome" where
  "fetch_outcome V R user event =
     (if \<not> IsCallerOnMainDisplay V user \<or> \<not> has_plugin V then FetchFailed REMOTE_TASK_ERROR
      else case rm_fetch R event of ((ret, t), bs) \<Rightarrow>
        if ret \<noteq> 0 then FetchFailed ret
        else if int (length bs) > sint (maxLocalCapacity V) then FetchFailed REMOTE_DATA_SIZE_EXCEEDED
        else FetchedClip t (transferred V R bs))"

lemma GetDistributedData_eq:
  assumes "\<And>bs. data_ok (rm_leftover R bs)"
  shows "\<exists>t d0. GetDistributedData V R event user s = Some (case fetch_outcome V R user event of
      FetchFailed e \<Rightarrow> ((None, t, e), s)
    | FetchedClip t' d \<Rightarrow> ((Some d0, t', E_OK), s\<lparr>currentEvent := event\<rparr>)) \<and>
    (\<forall>t' d. fetch_outcome V R user event = FetchedClip t' d \<longrightarrow> d = d0\<lparr>pd_props := (pd_props d0)\<lparr>prop_isRemote := True\<rparr>\<rparr>)"
proof -
  obtain ret t bs where f: "rm_fetch R event = ((ret, t), bs)" by (metis surj_pair)
  have m: "mark_remote_uris (sv_ext V) (pd_records (decode_remote V R bs)) = Some (map (map_option (marked (sv_ext V))) (pd_records (decode_remote V R bs)))"
    by (rule mark_remote_uris_eq) (use decode_remote_ok[OF assms, of V bs] in \<open>auto simp: data_ok_def\<close>)
  show ?thesis
    by (auto simp: GetDistributedData_def fetch_outcome_def f m MakeRemoteTaskError_def transferred_def Let_def)
qed

definition store_remote :: "svc_env \<Rightarrow> remote_env \<Rightarrow> i32 \<Rightarrow> GlobalEvent \<Rightarrow> PasteData \<Rightarrow> service \<Rightarrow> service" where
  "store_remote V R user event d s =
     (if same_event (snd (GetValidDistributeEvent (rm_after R) user s)) event
      then SetDataExpirationTimer user
        (let s' = IncreaseChangeCount user (s\<lparr>clips := snd (CM_InsertOrAssign user d (clips s))\<rparr>)
         in s'\<lparr>copyTime := snd (CM_InsertOrAssign user (ucast (GetBootTimeMs V)) (copyTime s'))\<rparr>)
      else s)"

definition fetched_svc :: "svc_env \<Rightarrow> remote_env \<Rightarrow> i32 \<Rightarrow> GlobalEvent \<Rightarrow> service \<Rightarrow> service" where
  "fetched_svc V R user event s = (case fetch_outcome V R user event of
      FetchFailed e \<Rightarrow> s
    | FetchedClip t d \<Rightarrow> store_remote V R user event d (s\<lparr>currentEvent := event\<rparr>))"

definition fetched_value :: "svc_env \<Rightarrow> remote_env \<Rightarrow> i32 \<Rightarrow> GlobalEvent \<Rightarrow> PasteDateTime" where
  "fetched_value V R user event = (case fetch_outcome V R user event of
      FetchFailed e \<Rightarrow> \<lparr>pdt_syncTime = 0, pdt_errorCode = e, pdt_data = None\<rparr>
    | FetchedClip t d \<Rightarrow> \<lparr>pdt_syncTime = t, pdt_errorCode = E_OK, pdt_data = Some d\<rparr>)"

lemma fetch_thread_eq:
  assumes "\<And>bs. data_ok (rm_leftover R bs)"
  shows "\<exists>same. fetch_thread V R event user b = Some (fetched_value V R user event, same,
    b\<lparr>svc := fetched_svc V R user event (svc b),
      taskMgr := ClearRemoteDataTask (task_key event) (Notify (task_key event) (fetched_value V R user event) (taskMgr b))\<rparr>)"
proof -
  obtain t d0 where g: "GetDistributedData V R event user (svc b) = Some (case fetch_outcome V R user event of
      FetchFailed e \<Rightarrow> ((None, t, e), svc b)
    | FetchedClip t' d \<Rightarrow> ((Some d0, t', E_OK), (svc b)\<lparr>currentEvent := event\<rparr>))"
    "\<And>t' d. fetch_outcome V R user event = FetchedClip t' d \<Longrightarrow> d = d0\<lparr>pd_props := (pd_props d0)\<lparr>prop_isRemote := True\<rparr>\<rparr>"
    using GetDistributedData_eq[OF assms, of V event user "svc b"] by blast
  show ?thesis
  proof (cases "fetch_outcome V R user event")
    case (FetchFailed e)
    then show ?thesis using g(1) by (auto simp: fetch_thread_def fetched_svc_def fetched_value_def Let_def)
  next
    case (FetchedClip t' d)
    then show ?thesis using g(1) g(2)[OF FetchedClip]
      by (simp add: fetch_thread_def store_remote_def fetched_svc_def fetched_value_def Let_def)
  qed
qed

lemma cleared: "wait_find key (ClearRemoteDataTask key m) = None"
  by (simp add: wait_find_def ClearRemoteDataTask_def lookup_ops)

lemma fetched_clip:
  assumes "fetch_outcome V R u event = FetchedClip t x"
  shows "prop_isRemote (pd_props x)"
    and "map_of (clips (store_remote V R u event x s)) =
      (if same_event (snd (GetValidDistributeEvent (rm_after R) u s)) event then (map_of (clips s))(u \<mapsto> x) else map_of (clips s))"
  using assms
  by (auto simp: fetch_outcome_def transferred_def Let_def split: if_splits prod.splits)
    (simp_all add: store_remote_def SetDataExpirationTimer_def IncreaseChangeCount_def Let_def lookup_ops case_prod_unfold)

lemma remote_paste_cases:
  assumes leftover: "\<And>bs. data_ok (rm_leftover R bs)"
    and fresh: "wait_find (task_key event) (taskMgr b) = None"
    and newest: "fst (GetValidDistributeEvent (rm_before R) u (svc b)) = E_OK" "same_event (snd (GetValidDistributeEvent (rm_before R) u (svc b))) event"
  shows "\<not> rm_in_time R \<Longrightarrow> \<exists>m. GetRemoteData V R u event d b = Some (TIMEOUT_ERROR, d, - 1, False, b\<lparr>taskMgr := m\<rparr>)"
    and "\<lbrakk>rm_in_time R; fetch_outcome V R u event = FetchFailed e\<rbrakk> \<Longrightarrow>
      \<exists>m. GetRemoteData V R u event d b = Some (e, d, - 1, False, b\<lparr>taskMgr := m\<rparr>) \<and> wait_find (task_key event) m = None"
    and "\<lbrakk>rm_in_time R; fetch_outcome V R u event = FetchedClip t d'\<rbrakk> \<Longrightarrow>
      \<exists>m same. GetRemoteData V R u event d b =
          Some (E_OK, assign_data d d', t, same, b\<lparr>taskMgr := m, svc := store_remote V R u event d' ((svc b)\<lparr>currentEvent := event\<rparr>)\<rparr>) \<and>
        wait_find (task_key event) m = None \<and> prop_isRemote (pd_props d') \<and>
        map_of (clips (store_remote V R u event d' ((svc b)\<lparr>currentEvent := event\<rparr>))) =
          (if same_event (snd (GetValidDistributeEvent (rm_after R) u ((svc b)\<lparr>currentEvent := event\<rparr>))) event
           then (map_of (clips (svc b)))(u \<mapsto> d') else map_of (clips (svc b)))"
proof -
  define m1 where "m1 = snd (GetRemoteDataTask (task_key event) (taskMgr b))"
  have g: "\<exists>c. GetRemoteDataTask (task_key event) (taskMgr b) = ((c, False), m1)"
    using fresh by (simp add: m1_def wait_find_def GetTask_None)
  obtain ret evt where v: "GetValidDistributeEvent (rm_before R) u (svc b) = (ret, evt)" by (meson surj_pair)
  have e: "GetRemoteData V R u event d b = GetRemotePasteData V R u event d (- 1) (b\<lparr>taskMgr := m1\<rparr>)"
    using g newest by (auto simp: GetRemoteData_def v Let_def)
  show "\<exists>m. GetRemoteData V R u event d b = Some (TIMEOUT_ERROR, d, - 1, False, b\<lparr>taskMgr := m\<rparr>)" if "\<not> rm_in_time R"
    using that by (auto simp: e GetRemotePasteData_def)
  let ?b1 = "b\<lparr>taskMgr := m1\<rparr>"
  define m where "m = ClearRemoteDataTask (task_key event) (Notify (task_key event) (fetched_value V R u event) m1)"
  obtain same where f: "fetch_thread V R event u ?b1 = Some (fetched_value V R u event, same,
      b\<lparr>svc := fetched_svc V R u event (svc b), taskMgr := m\<rparr>)"
    using fetch_thread_eq[OF leftover, of V event u ?b1] by (auto simp: m_def)
  have w: "wait_find (task_key event) m = None" by (simp add: m_def cleared)
  show "\<exists>m. GetRemoteData V R u event d b = Some (e, d, - 1, False, b\<lparr>taskMgr := m\<rparr>) \<and> wait_find (task_key event) m = None"
    if "rm_in_time R" "fetch_outcome V R u event = FetchFailed e"
  proof (rule exI[of _ m])
    show "GetRemoteData V R u event d b = Some (e, d, - 1, False, b\<lparr>taskMgr := m\<rparr>) \<and> wait_find (task_key event) m = None"
      using that w by (simp add: e GetRemotePasteData_def f fetched_svc_def fetched_value_def)
  qed
  show "\<exists>m same. GetRemoteData V R u event d b =
          Some (E_OK, assign_data d d', t, same, b\<lparr>taskMgr := m, svc := store_remote V R u event d' ((svc b)\<lparr>currentEvent := event\<rparr>)\<rparr>) \<and>
        wait_find (task_key event) m = None \<and> prop_isRemote (pd_props d') \<and>
        map_of (clips (store_remote V R u event d' ((svc b)\<lparr>currentEvent := event\<rparr>))) =
          (if same_event (snd (GetValidDistributeEvent (rm_after R) u ((svc b)\<lparr>currentEvent := event\<rparr>))) event
           then (map_of (clips (svc b)))(u \<mapsto> d') else map_of (clips (svc b)))"
    if "rm_in_time R" "fetch_outcome V R u event = FetchedClip t d'"
    by (rule exI[of _ m], rule exI[of _ same])
      (use that w fetched_clip(1)[OF that(2)] fetched_clip(2)[OF that(2), where s = "(svc b)\<lparr>currentEvent := event\<rparr>"] in
        \<open>simp add: e GetRemotePasteData_def f fetched_svc_def fetched_value_def\<close>)
qed

text \<open>C6: The outcome of a remote paste. When the event of another device is still the newest and no transfer
  of it is under way, the paste waits for its own transfer. If the transfer succeeds within the size limit, the
  paste returns the transferred data marked as remote, and it becomes the clip of the user exactly if the event is
  still the newest afterwards; if it fails the paste reports the error of the transfer and every clip, count, copy time and timer
  stays as it was. In both cases no task is left behind. If it does not end in time the paste reports
  that and only the task remains, which the transfer removes when it ends.\<close>

theorem remote_paste_outcome:
  assumes leftover: "\<And>bs. data_ok (rm_leftover R bs)"
    and fresh: "wait_find (task_key event) (taskMgr b) = None"
    and newest: "fst (GetValidDistributeEvent (rm_before R) u (svc b)) = E_OK" "same_event (snd (GetValidDistributeEvent (rm_before R) u (svc b))) event"
  shows "\<exists>m same. GetRemoteData V R u event d b = Some
      (if \<not> rm_in_time R then (TIMEOUT_ERROR, d, - 1, False, b\<lparr>taskMgr := m\<rparr>)
       else case fetch_outcome V R u event of
           FetchFailed e \<Rightarrow> (e, d, - 1, False, b\<lparr>taskMgr := m\<rparr>)
         | FetchedClip t d' \<Rightarrow> (E_OK, assign_data d d', t, same,
             b\<lparr>taskMgr := m, svc := store_remote V R u event d' ((svc b)\<lparr>currentEvent := event\<rparr>)\<rparr>)) \<and>
    (rm_in_time R \<longrightarrow> wait_find (task_key event) m = None) \<and>
    (\<forall>t d'. fetch_outcome V R u event = FetchedClip t d' \<longrightarrow> prop_isRemote (pd_props d') \<and>
      map_of (clips (store_remote V R u event d' ((svc b)\<lparr>currentEvent := event\<rparr>))) =
        (if same_event (snd (GetValidDistributeEvent (rm_after R) u ((svc b)\<lparr>currentEvent := event\<rparr>))) event
         then (map_of (clips (svc b)))(u \<mapsto> d') else map_of (clips (svc b))))"
proof (cases "rm_in_time R")
  case False
  then show ?thesis using remote_paste_cases(1)[OF assms False, of V d] fetched_clip(1)[of V R u event] fetched_clip(2)[of V R u event, where s = "(svc b)\<lparr>currentEvent := event\<rparr>"] by auto
next
  case True
  show ?thesis
  proof (cases "fetch_outcome V R u event")
    case (FetchFailed e)
    then show ?thesis using remote_paste_cases(2)[OF assms True FetchFailed, of d] True by auto
  next
    case (FetchedClip t d')
    then show ?thesis using remote_paste_cases(3)[OF assms True FetchedClip, of d] True by auto
  qed
qed

definition tv_event :: GlobalEvent where
  "tv_event = new_event\<lparr>evt_deviceId := ''tv'', evt_seqId := 5, evt_expiration := 9000, evt_status := EVT_NORMAL, evt_account := ''me''\<rparr>"

theorem remote_paste_outcome_witness:
  "\<exists>m. GetRemoteData sample_env (sample_remote_env\<lparr>rm_before := sample_env\<lparr>GetTopEvents := (\<lambda>_. [tv_event])\<rparr>\<rparr>) 100 tv_event sample_clip sample_board =
     Some (1, sample_clip, - 1, False, sample_board\<lparr>taskMgr := m\<rparr>) \<and> wait_find (task_key tv_event) m = None"
proof -
  let ?R = "sample_remote_env\<lparr>rm_before := sample_env\<lparr>GetTopEvents := (\<lambda>_. [tv_event])\<rparr>\<rparr>"
  have ok: "data_ok (rm_leftover ?R bs)" for bs by (simp add: sample_remote_env_def data_ok_def new_data_def)
  have ev: "GetValidDistributeEvent (rm_before ?R) 100 (svc sample_board) = (E_OK, tv_event)"
    by (simp add: GetValidDistributeEvent_def sample_env_def sample_board_def init_state_def new_event_def tv_event_def
        EXPIRATION_INTERVAL_def Let_def)
  have f: "wait_find (task_key tv_event) (taskMgr sample_board) = None"
    by (simp add: wait_find_def sample_board_def new_manager_def)
  have o: "fetch_outcome sample_env ?R 100 tv_event = FetchFailed 1"
    by (simp add: fetch_outcome_def IsCallerOnMainDisplay_def sample_env_def sample_remote_env_def)
  have e1: "fst (GetValidDistributeEvent (rm_before ?R) 100 (svc sample_board)) = E_OK"
    "same_event (snd (GetValidDistributeEvent (rm_before ?R) 100 (svc sample_board))) tv_event"
    unfolding ev by (simp_all add: same_event_def)
  have t: "rm_in_time ?R" by (simp add: sample_remote_env_def)
  show ?thesis using remote_paste_outcome[OF ok f e1, of sample_env sample_clip] t o by auto
qed

end
