(* ===== verification/Record_Value.thy ===== *)
theory Record_Value
  imports Service_Read Mime_Types
begin

text \<open>
  Entries that are fetched when they are needed (\<open>services/core/src/pasteboard_service.cpp\<close>):
  \<open>GetRecordValueByType\<close> for applications of this device, \<open>GetDistributedDelayEntry\<close> and
  \<open>GetDistributedDelayData\<close> for other devices, and \<open>SyncDelayedData\<close> when the application that copied
  goes away. \<open>clips_.Find\<close> yields a shared pointer, so what these operations change in the data is changed
  in the clip; the model takes the clip out, works on it and puts it back (\<open>put_clip\<close>). A request is one step.
\<close>

section \<open>Records of the clip\<close>

fun update_record_list :: "u32 \<Rightarrow> (PasteDataRecord \<Rightarrow> PasteDataRecord) \<Rightarrow> PasteDataRecord option list \<Rightarrow> PasteDataRecord option list" where
  "update_record_list rid f [] = []"
| "update_record_list rid f (None # rs) = None # update_record_list rid f rs"
| "update_record_list rid f (Some r # rs) = (if rec_recordId r = rid then Some (f r) # rs else Some r # update_record_list rid f rs)"

definition update_record :: "u32 \<Rightarrow> (PasteDataRecord \<Rightarrow> PasteDataRecord) \<Rightarrow> PasteData \<Rightarrow> PasteData" where
  "update_record rid f d = d\<lparr>pd_records := update_record_list rid f (pd_records d)\<rparr>"

definition put_clip :: "i32 \<Rightarrow> PasteData \<Rightarrow> pasteboard \<Rightarrow> pasteboard" where
  "put_clip userId d b = b\<lparr>svc := (svc b)\<lparr>clips := set_value userId d (clips (svc b))\<rparr>\<rparr>"

text \<open>Data that shares its record objects with the clip but is an object of its own: changes of the records show in
  the clip, by the numbers of the records, other changes do not.\<close>

definition refresh_records :: "i32 \<Rightarrow> PasteData \<Rightarrow> service \<Rightarrow> service" where
  "refresh_records userId d s = (case map_of (clips s) userId of
      None \<Rightarrow> s
    | Some clip \<Rightarrow>
        if pd_dataId clip \<noteq> pd_dataId d then s
        else s\<lparr>clips := set_value userId (clip\<lparr>pd_records :=
          map (map_option (\<lambda>r. case GetRecordById (rec_recordId r) d of None \<Rightarrow> r | Some r' \<Rightarrow> r')) (pd_records clip)\<rparr>) (clips s)\<rparr>)"

text \<open>A fetched value is kept in the clip while there is space.\<close>

definition keep_entry :: "svc_env \<Rightarrow> u32 \<Rightarrow> string \<Rightarrow> PasteDataEntry \<Rightarrow> PasteData \<Rightarrow> PasteData" where
  "keep_entry V rid utdId value d =
     (let n = pd_rawDataSize d + word_of_int (ent_rawDataSize value)
      in if sint n < sint (maxLocalCapacity V)
         then (update_record rid (AddEntry (sv_ext V) utdId (Some value)) d)\<lparr>pd_rawDataSize := n\<rparr>
         else d)"

section \<open>Values of this device\<close>

definition GetLocalEntryValue_svc :: "svc_env \<Rightarrow> i32 \<Rightarrow> PasteDataRecord \<Rightarrow> PasteDataEntry \<Rightarrow> PasteData \<Rightarrow> service \<Rightarrow>
    (i32 \<times> PasteDataEntry \<times> PasteData) run" where
  "GetLocalEntryValue_svc V userId r value d s = do {
     let utdId = ent_utdId value;
     (entry, _) \<leftarrow> GetEntry (sv_ext V) svc_client utdId r;
     case entry of
       None \<Rightarrow> Some (INVALID_MIMETYPE, value, d)
     | Some e \<Rightarrow> do {
         let value1 = value\<lparr>ent_mimeType := ent_mimeType e\<rparr>;
         has \<leftarrow> HasContent (sv_ext V) utdId e;
         if has then Some (E_OK, value1\<lparr>ent_value := ent_value e\<rparr>, d)
         else case map_of (entryGetters s) userId of
             None \<Rightarrow> Some (NO_DELAY_GETTER, value1, d)
           | Some getter \<Rightarrow> (case getter (rec_recordId r) value1 of (ret, value2) \<Rightarrow>
               if ret \<noteq> E_OK then Some (ret, value2, d)
               else Some (E_OK, value2, keep_entry V (rec_recordId r) utdId value2 d))
       }
   }"

definition set_html :: "ext \<Rightarrow> string \<Rightarrow> PasteDataEntry \<Rightarrow> PasteDataEntry run" where
  "set_html E html e = (case ent_value e of
      VString _ \<Rightarrow> Some (e\<lparr>ent_value := VString html\<rparr>)
    | VObject p \<Rightarrow> do { obj \<leftarrow> p; Some (e\<lparr>ent_value := VObject (Some (assign (HTML_CONTENT E) (VString html) obj))\<rparr>) }
    | _ \<Rightarrow> Some e)"

definition PostProcessDelayHtmlEntry :: "svc_env \<Rightarrow> AppInfo \<Rightarrow> PasteData \<Rightarrow> PasteDataEntry \<Rightarrow> (i32 \<times> PasteDataEntry) run" where
  "PostProcessDelayHtmlEntry V target d entry = do {
     let d1 = RetainUri d;
     d2 \<leftarrow> RemoveInvalidUri (sv_ext V) (sv_web V) d1;
     d3 \<leftarrow> RebuildWebviewPasteData (sv_ext V) svc_client (sv_web V) (ai_bundleName target) (ai_appIndex target) d2;
     (html, _) \<leftarrow> GetPrimaryHtml (sv_ext V) svc_client d3;
     case html of
       None \<Rightarrow> Some (REBUILD_HTML_FAILED, entry)
     | Some h \<Rightarrow> do { e \<leftarrow> set_html (sv_ext V) h entry; Some (E_OK, e) }
   }"

text \<open>The result, the entry, the data of the clip and the grants.\<close>

definition ProcessDelayHtmlEntry :: "svc_env \<Rightarrow> grant_env \<Rightarrow> caller \<Rightarrow> AppInfo \<Rightarrow> PasteData \<Rightarrow> PasteDataEntry \<Rightarrow> service \<Rightarrow> grants \<Rightarrow>
    (i32 \<times> PasteDataEntry \<times> PasteData \<times> grants) run" where
  "ProcessDelayHtmlEntry V G c target d entry s g = do {
     let E = sv_ext V;
     let bundleIndex = GetDirByAuthority (sv_web V) (pd_originAuthority d);
     (split, d1) \<leftarrow> SplitWebviewPasteData E svc_client (sv_web V) bundleIndex (ai_userId target) d;
     if \<not> split then Some (E_OK, entry, d1, g)
     else do {
       d2 \<leftarrow> SetWebviewPasteData E bundleIndex d1;
       d3 \<leftarrow> CheckAppUriPermission E (sv_web V) d2;
       html \<leftarrow> ConvertToHtml E entry;
       case html of
         None \<Rightarrow> Some (GET_ENTRY_VALUE_FAILED, entry, d3, g)
       | Some h \<Rightarrow> do {
           let isRemoteData = prop_isRemote (pd_props d3);
           let t0 = AddHtmlRecord E True h (new_data (sv_params V) (now_ms V));
           let t1 = SetTokenId (sv_params V) (prop_tokenId (pd_props d3)) (t0\<lparr>pd_originAuthority := pd_originAuthority d3\<rparr>);
           let t2 = t1\<lparr>pd_props := (pd_props t1)\<lparr>prop_isRemote := isRemoteData\<rparr>\<rparr>;
           let t3 = SetLocalPasteFlag isRemoteData (ai_tokenId target) t2;
           (_, t4) \<leftarrow> web_prepare V (GetDirByAuthority (sv_web V) (pd_originAuthority d3)) (ai_userId target) t3;
           (grantUris, t5) \<leftarrow> CheckUriPermission E (sv_web V) (ai_bundleName target, ai_appIndex target) t4;
           (case GrantUriPermission V G c grantUris (ai_tokenId target) isRemoteData s g of (ret, g1) \<Rightarrow>
              if ret \<noteq> E_OK then Some (ret, entry, d3, g1)
              else do { (ret', e) \<leftarrow> PostProcessDelayHtmlEntry V target t5 entry; Some (ret', e, d3, g1) })
         }
     }
   }"

section \<open>Values of another device\<close>

definition add_file_size :: "params_ops \<Rightarrow> i64 \<Rightarrow> PasteData \<Rightarrow> PasteData" where
  "add_file_size P n d =
     (if sint n > 0
      then SetFileSize P (if sint n > 2 ^ 63 - 1 - sint (GetFileSize P d) then word_of_int (2 ^ 63 - 1) else n + GetFileSize P d) d
      else d)"

definition link_and_grant :: "svc_env \<Rightarrow> remote_env \<Rightarrow> caller \<Rightarrow> AppInfo \<Rightarrow> string \<Rightarrow> PasteData \<Rightarrow> pasteboard \<Rightarrow>
    (i32 \<times> PasteData \<times> pasteboard) run" where
  "link_and_grant V R c appInfo deviceId d b = do {
     (grantUris, d1) \<leftarrow> CheckUriPermission (sv_ext V) (sv_web V) (ai_bundleName appInfo, ai_appIndex appInfo) d;
     if grantUris = [] then Some (E_OK, d1, b)
     else do {
       let l = EstablishP2PLink (rm_links R) (c_pid c) deviceId (pd_pasteId d1) (links b);
       (case GrantUriPermission V (rm_grant R) c grantUris (ai_tokenId appInfo) (prop_isRemote (pd_props d1)) (svc b) (grantState b) of
          (ret, g) \<Rightarrow> Some (ret, d1, b\<lparr>links := l, grantState := g\<rparr>))
     }
   }"

definition ProcessRemoteDelayUri :: "svc_env \<Rightarrow> remote_env \<Rightarrow> caller \<Rightarrow> AppInfo \<Rightarrow> string \<Rightarrow> u32 \<Rightarrow> PasteDataEntry \<Rightarrow> PasteData \<Rightarrow> pasteboard \<Rightarrow>
    (i32 \<times> PasteData \<times> pasteboard) run" where
  "ProcessRemoteDelayUri V R c appInfo deviceId rid entry d b = do {
     uri \<leftarrow> ConvertToUri (sv_ext V) entry;
     case uri of
       None \<Rightarrow> Some (GET_ENTRY_VALUE_FAILED, d, b)
     | Some u \<Rightarrow>
         let d1 = update_record rid (\<lambda>r. r\<lparr>rec_convertUri := u, rec_isConvertUriFromRemote := True, rec_hasGrantUriPermission := True\<rparr>) d
         in link_and_grant V R c appInfo deviceId (add_file_size (sv_params V) (GetFileSize_entry (sv_ext V) entry) d1) b
   }"

definition take_html_record :: "u32 \<Rightarrow> PasteDataRecord option \<Rightarrow> PasteData \<times> PasteDataRecord option list \<Rightarrow> PasteData \<times> PasteDataRecord option list" where
  "take_html_record htmlId p acc = (case acc of (d, done) \<Rightarrow>
     (case p of
        None \<Rightarrow> (d, done @ [None])
      | Some r \<Rightarrow>
          let r1 = (if rec_convertUri r \<noteq> [] then r\<lparr>rec_isConvertUriFromRemote := True\<rparr> else r)
          in if secondary r1 then (let r2 = r1\<lparr>rec_from := htmlId\<rparr> in (AddRecord True (Some r2) d, done @ [Some r2]))
             else (d, done @ [Some r1])))"

definition ProcessRemoteDelayHtmlInner :: "svc_env \<Rightarrow> remote_env \<Rightarrow> caller \<Rightarrow> AppInfo \<Rightarrow> string \<Rightarrow> PasteData \<Rightarrow> PasteDataEntry \<Rightarrow> PasteData \<Rightarrow> pasteboard \<Rightarrow>
    (i32 \<times> PasteDataEntry \<times> PasteData \<times> pasteboard) run" where
  "ProcessRemoteDelayHtmlInner V R c appInfo remoteDeviceId tmpData entry d b = do {
     let d1 = add_file_size (sv_params V) (GetFileSize (sv_params V) tmpData) d;
     (isInvalid, entry1) \<leftarrow> RemoveInvalidUri_entry (sv_ext V) (sv_web V) entry;
     if isInvalid then Some (INVALID_URI_ERROR, entry1, d1, b)
     else do {
       (ret, d2, b1) \<leftarrow> link_and_grant V R c appInfo remoteDeviceId d1 b;
       if ret \<noteq> E_OK then Some (ret, entry1, d2, b1)
       else do {
         let t1 = SetTokenId (sv_params V) (prop_tokenId (pd_props d2)) (tmpData\<lparr>pd_originAuthority := pd_originAuthority d2\<rparr>);
         let t2 = t1\<lparr>pd_props := (pd_props t1)\<lparr>prop_isRemote := prop_isRemote (pd_props d2)\<rparr>\<rparr>;
         let t3 = SetLocalPasteFlag (prop_isRemote (pd_props t2)) (ai_tokenId appInfo) t2;
         (ret', entry2) \<leftarrow> PostProcessDelayHtmlEntry V appInfo t3 entry1;
         Some (ret', entry2, d2, b1)
       }
     }
   }"

definition ProcessRemoteDelayHtml :: "svc_env \<Rightarrow> remote_env \<Rightarrow> caller \<Rightarrow> AppInfo \<Rightarrow> string \<Rightarrow> byte list \<Rightarrow> u32 \<Rightarrow> PasteDataEntry \<Rightarrow> PasteData \<Rightarrow> pasteboard \<Rightarrow>
    (i32 \<times> PasteDataEntry \<times> PasteData \<times> pasteboard) run" where
  "ProcessRemoteDelayHtml V R c appInfo remoteDeviceId rawData rid entry d b =
     (let tmpData = decode_remote V R rawData in
      case GetRecordById 1 tmpData of
        None \<Rightarrow> Some (GET_ENTRY_VALUE_FAILED, entry, d, b)
      | Some htmlRecord \<Rightarrow> do {
          (htmlEntry, _) \<leftarrow> GetEntryByMimeType (sv_ext V) svc_client MIMETYPE_TEXT_HTML htmlRecord;
          case htmlEntry of
            None \<Rightarrow> Some (GET_ENTRY_VALUE_FAILED, entry, d, b)
          | Some he \<Rightarrow> do {
              let entry1 = entry\<lparr>ent_value := ent_value he, ent_rawDataSize := int (length rawData)\<rparr>;
              let d1 = keep_entry V rid (ent_utdId entry1) entry1 d;
              if rec_from htmlRecord = 0 then Some (E_OK, entry1, d1, b)
              else do {
                let d2 = update_record rid (\<lambda>r. r\<lparr>rec_from := rid\<rparr>) (d1\<lparr>pd_props := (pd_props d1)\<lparr>prop_tag := WEBVIEW_PASTEDATA_TAG\<rparr>\<rparr>);
                let (d3, rs) = fold (take_html_record rid) (pd_records tmpData) (d2, []);
                ProcessRemoteDelayHtmlInner V R c appInfo remoteDeviceId (tmpData\<lparr>pd_records := rs\<rparr>) entry1 d3 b
              }
            }
        })"

definition decode_entry_remote :: "svc_env \<Rightarrow> remote_env \<Rightarrow> byte list \<Rightarrow> PasteDataEntry" where
  "decode_entry_remote V R bs = (case Decode (DecodeTLV_entry (sv_ext V) 0 empty_entry) bs of
      ROk e _ \<Rightarrow> e
    | _ \<Rightarrow> rm_entry_leftover R bs)"

definition GetRemoteEntryValue :: "svc_env \<Rightarrow> remote_env \<Rightarrow> caller \<Rightarrow> AppInfo \<Rightarrow> u32 \<Rightarrow> PasteDataEntry \<Rightarrow> PasteData \<Rightarrow> pasteboard \<Rightarrow>
    (i32 \<times> PasteDataEntry \<times> PasteData \<times> pasteboard) run" where
  "GetRemoteEntryValue V R c appInfo rid entry d b =
     (if \<not> IsCallerOnMainDisplay V (ai_userId appInfo) then Some (PLUGIN_IS_NULL, entry, d, b)
      else if \<not> has_plugin V then Some (PLUGIN_IS_NULL, entry, d, b)
      else case GetValidDistributeEvent V (ai_userId appInfo) (svc b) of (distRet, distEvt) \<Rightarrow>
        if distRet \<noteq> E_OK \<and> distRet \<noteq> GET_SAME_REMOTE_DATA then Some (distRet, entry, d, b)
        else case rm_entry R distEvt rid (ent_utdId entry) of (ret, rawData) \<Rightarrow>
          if ret \<noteq> 0 then Some (ret, entry, d, b)
          else if ent_mimeType entry = MIMETYPE_TEXT_HTML
          then ProcessRemoteDelayHtml V R c appInfo (evt_deviceId distEvt) rawData rid entry d b
          else
            let entry1 = entry\<lparr>ent_value := ent_value (decode_entry_remote V R rawData), ent_rawDataSize := int (length rawData)\<rparr>;
                d1 = keep_entry V rid (ent_utdId entry) entry1 d
            in if ent_mimeType entry \<noteq> MIMETYPE_TEXT_URI then Some (E_OK, entry1, d1, b)
               else do { (ret', d2, b1) \<leftarrow> ProcessRemoteDelayUri V R c appInfo (evt_deviceId distEvt) rid entry1 d1 b;
                         Some (ret', entry1, d2, b1) })"

section \<open>Requests of applications\<close>

text \<open>\<open>GetRecordValueByType(dataId, recordId, value)\<close>.\<close>

definition GetRecordValueByType_entry :: "svc_env \<Rightarrow> remote_env \<Rightarrow> caller \<Rightarrow> u32 \<Rightarrow> u32 \<Rightarrow> PasteDataEntry \<Rightarrow> pasteboard \<Rightarrow>
    (i32 \<times> PasteDataEntry \<times> pasteboard) run" where
  "GetRecordValueByType_entry V R c dataId0 recordId value b =
     (let tokenId = c_tokenId c; appInfo = GetAppInfo V tokenId; userId = ai_userId appInfo; s = svc b in
      if \<not> ((dataId0 = delayDataId s \<and> tokenId = delayTokenId s) \<or> VerifyPermission V tokenId)
      then Some (PERMISSION_VERIFICATION_ERROR, value, b)
      else case map_of (clips s) userId of
        None \<Rightarrow> Some (NO_DATA_ERROR, value, b)
      | Some d \<Rightarrow>
          if IsDataValid d tokenId userId s \<noteq> E_OK then Some (IsDataValid d tokenId userId s, value, b)
          else if dataId0 \<noteq> pd_dataId d then Some (INVALID_DATA_ID, value, b)
          else case GetRecordById recordId d of
            None \<Rightarrow> Some (INVALID_RECORD_ID, value, b)
          | Some r \<Rightarrow> do {
              (entry, _) \<leftarrow> GetEntry (sv_ext V) svc_client (ent_utdId value) r;
              case entry of
                None \<Rightarrow> Some (INVALID_MIMETYPE, value, b)
              | Some e \<Rightarrow> do {
                  let isRemoteData = prop_isRemote (pd_props d);
                  has \<leftarrow> (if isRemoteData then HasContent (sv_ext V) (ent_utdId value) e else Some True);
                  if isRemoteData \<and> \<not> has
                  then do {
                    (ret, value1, d1, b1) \<leftarrow> GetRemoteEntryValue V R c appInfo recordId value d b;
                    Some (ret, value1, put_clip userId d1 b1)
                  }
                  else do {
                    (ret, value1, d1) \<leftarrow> GetLocalEntryValue_svc V userId r value d s;
                    if ret \<noteq> E_OK then Some (ret, value1, put_clip userId d1 b)
                    else if ent_mimeType value1 = MIMETYPE_TEXT_HTML
                    then do {
                      (ret', value2, d2, g) \<leftarrow> ProcessDelayHtmlEntry V (rm_grant R) c appInfo d1 value1 s (grantState b);
                      Some (ret', value2, put_clip userId d2 (b\<lparr>grantState := g\<rparr>))
                    }
                    else if ent_mimeType value1 = MIMETYPE_TEXT_URI
                    then do {
                      (isInvalid, value2) \<leftarrow> (if isRemoteData \<or> tokenId \<noteq> prop_tokenId (pd_props d1)
                        then RemoveInvalidUri_entry (sv_ext V) (sv_web V) value1 else Some (False, value1));
                      if isInvalid then Some (INVALID_URI_ERROR, value2, put_clip userId d1 b)
                      else do {
                        (grantUris, d2) \<leftarrow> CheckUriPermission (sv_ext V) (sv_web V) (ai_bundleName appInfo, ai_appIndex appInfo) d1;
                        (case GrantUriPermission V (rm_grant R) c grantUris (ai_tokenId appInfo) isRemoteData s (grantState b) of
                           (ret', g) \<Rightarrow> Some (ret', value2, put_clip userId d2 (b\<lparr>grantState := g\<rparr>)))
                      }
                    }
                    else Some (E_OK, value1, put_clip userId d1 b)
                  }
                }
            })"

text \<open>The encoded value for the caller: \<open>GetRecordValueByType(rawDataSize, buffer, fd, entryValue)\<close>. The result,
  the size, the bytes and the descriptor.\<close>

definition answer_value :: "svc_env \<Rightarrow> remote_env \<Rightarrow> PasteDataEntry \<Rightarrow> i32 \<Rightarrow> byte list \<Rightarrow> pasteboard \<Rightarrow>
    i32 \<times> i64 \<times> byte list \<times> i32 \<times> pasteboard" where
  "answer_value V R value fd buffer b =
     (case Encode (CountTLV_entry (sv_ext V) value) (EncodeTLV_entry (sv_ext V) value) of (ok, entryValueTLV) \<Rightarrow>
        if \<not> ok then (INVALID_DATA_ERROR, 0, buffer, fd, b)
        else
          let rawDataSize = (word_of_nat (length entryValueTLV) :: i64)
          in if sint rawDataSize > sint MIN_ASHMEM_DATA_SIZE
             then (case WriteRawData V R entryValueTLV rawDataSize fd b of (res, fd1, b1) \<Rightarrow>
                     if \<not> res then (SERIALIZATION_ERROR, rawDataSize, buffer, fd1, b1) else (ERR_OK, rawDataSize, buffer, fd1, b1))
             else
               (let fd1 = AshmemCreate R 1
                in if sint fd1 < 0 then (SERIALIZATION_ERROR, rawDataSize, buffer, fd1, b)
                   else (ERR_OK, rawDataSize, entryValueTLV, fd1, b)))"

definition GetRecordValueByType_request :: "svc_env \<Rightarrow> remote_env \<Rightarrow> caller \<Rightarrow> u32 \<Rightarrow> u32 \<Rightarrow> i64 \<Rightarrow> byte list \<Rightarrow> shared_mem \<Rightarrow> pasteboard \<Rightarrow>
    (i32 \<times> i64 \<times> byte list \<times> i32 \<times> pasteboard) run" where
  "GetRecordValueByType_request V R c dataId0 recordId rawDataSize buffer m b =
     (if sint rawDataSize \<le> 0 \<or> sint rawDataSize > sint (max_raw V) then Some (INVALID_PARAM_ERROR, rawDataSize, buffer, shm_fd m, b)
      else if sint rawDataSize > sint MIN_ASHMEM_DATA_SIZE \<and> \<not> (sint (shm_size m) \<ge> 0 \<and> sint rawDataSize \<le> sint (shm_size m))
      then Some (INVALID_DATA_SIZE, rawDataSize, buffer, shm_fd m, b)
      else if sint rawDataSize > sint MIN_ASHMEM_DATA_SIZE \<and> shm_bytes m = None
      then Some (DESERIALIZATION_ERROR, rawDataSize, buffer, shm_fd m, b)
      else
        let bytes = (if sint rawDataSize > sint MIN_ASHMEM_DATA_SIZE then take (nat (sint rawDataSize)) (the (shm_bytes m)) else buffer)
        in case Decode (DecodeTLV_entry (sv_ext V) 0 empty_entry) bytes of
             ROk value _ \<Rightarrow> do {
               (ret, value1, b1) \<leftarrow> GetRecordValueByType_entry V R c dataId0 recordId value b;
               Some (if ret \<noteq> E_OK then (ret, rawDataSize, buffer, shm_fd m, b1) else answer_value V R value1 (- 1) [] b1)
             }
           | _ \<Rightarrow> Some (INVALID_DATA_ERROR, rawDataSize, buffer, shm_fd m, b))"

section \<open>All delayed values at once\<close>

definition GetFullDelayPasteData :: "svc_env \<Rightarrow> i32 \<Rightarrow> PasteData \<Rightarrow> service \<Rightarrow> (i32 \<times> PasteData \<times> service) run" where
  "GetFullDelayPasteData V userId d s =
     (case map_of (entryGetters s) userId of
        None \<Rightarrow> Some (NO_DELAY_GETTER, d, s)
      | Some getter \<Rightarrow>
          let infos = GetAllDelayEntryInfo (sv_ext V) d in
          if infos = [] then Some (E_OK, d, s)
          else do {
            let d1 = GetLocalEntryValue (max_raw V) infos (Some getter) d;
            (_, d2) \<leftarrow> web_prepare V (GetDirByAuthority (sv_web V) (pd_originAuthority d1)) userId d1;
            Some (E_OK, d2, s\<lparr>clips := fst (snd (CM_ComputeIfPresent userId (Some (\<lambda>_ v u.
              (True, if pd_dataId d2 \<noteq> pd_dataId v then v else copy_data (sv_params V) d2, u))) (clips s) ()))\<rparr>)
          })"

text \<open>The data handed to the thread of \<open>SyncDelayedData\<close> is the object that was the clip when the request came; \<open>GetFullDelayPasteData\<close>
  has stored a copy of it as the clip.\<close>

definition SyncDelayedData :: "svc_env \<Rightarrow> caller \<Rightarrow> service \<Rightarrow> (i32 \<times> (i32 \<times> PasteData) option \<times> service) run" where
  "SyncDelayedData V c s =
     (let appInfo = GetAppInfo V (c_tokenId c); userId = ai_userId appInfo in
      case map_of (clips s) userId of
        None \<Rightarrow> Some (NO_DATA_ERROR, None, s)
      | Some d \<Rightarrow>
          if c_tokenId c \<noteq> prop_tokenId (pd_props d) then Some (INVALID_TOKEN_ID_ERROR, None, s)
          else do {
            (ret, d1, s1) \<leftarrow> GetFullDelayPasteData V userId d s;
            if ret \<noteq> E_OK then Some (ret, None, s1) else Some (ERR_OK, Some (userId, d1), s1)
          })"

definition sync_thread :: "i32 \<Rightarrow> PasteData \<Rightarrow> service \<Rightarrow> service" where
  "sync_thread userId d s =
     (let d1 = RemoveEmptyEntry_data d
      in s\<lparr>clips := fst (snd (CM_ComputeIfPresent userId (Some (\<lambda>_ v u.
           (True, if pd_dataId d1 = pd_dataId v then d1 else v, u))) (clips s) ()))\<rparr>)"

section \<open>Requests of other devices\<close>

definition VERSION_FOUR :: nat where "VERSION_FOUR = 4"
definition VERSION_FIVE :: nat where "VERSION_FIVE = 5"

definition ProcessDistributedDelayEntry :: "svc_env \<Rightarrow> PasteDataEntry \<Rightarrow> i32 \<times> byte list" where
  "ProcessDistributedDelayEntry V entry =
     (case Encode (CountTLV_entry (sv_ext V) entry) (EncodeTLV_entry (sv_ext V) entry) of (ok, bytes) \<Rightarrow>
        (if \<not> ok then DATA_ENCODE_ERROR else E_OK, bytes))"

definition set_dfs_uri :: "ext \<Rightarrow> string \<Rightarrow> u64 \<Rightarrow> PasteDataEntry \<Rightarrow> PasteDataEntry run" where
  "set_dfs_uri E uri fileSize e = (case ent_value e of
      VString _ \<Rightarrow> Some (e\<lparr>ent_value := VString uri\<rparr>)
    | VObject p \<Rightarrow> do {
        obj \<leftarrow> p;
        Some (SetFileSize_entry (ucast fileSize) (e\<lparr>ent_value := VObject (Some (assign (FILE_URI_PARAM E) (VString uri) obj))\<rparr>))
      }
    | _ \<Rightarrow> Some e)"

definition ProcessDistributedDelayUri :: "svc_env \<Rightarrow> remote_env \<Rightarrow> i32 \<Rightarrow> u32 \<Rightarrow> PasteDataEntry \<Rightarrow> PasteData \<Rightarrow> byte list \<Rightarrow>
    (i32 \<times> byte list \<times> PasteData) run" where
  "ProcessDistributedDelayUri V R userId recordId entry d rawData = do {
     uri \<leftarrow> ConvertToUri (sv_ext V) entry;
     case uri of
       None \<Rightarrow> Some (GET_ENTRY_VALUE_FAILED, rawData, d)
     | Some localUri \<Rightarrow> do {
         d1 \<leftarrow> CheckAppUriPermission (sv_ext V) (sv_web V) d;
         case GetRecordById recordId d1 of
           None \<Rightarrow> Some (INVALID_RECORD_ID, rawData, d1)
         | Some item \<Rightarrow>
             if \<not> rec_hasGrantUriPermission item then Some (INVALID_URI_ERROR, rawData, d1)
             else case GetDfsUrisDirFromLocal (rm_grant R) [localUri] userId of (ret, dfsUris) \<Rightarrow>
               if ret \<noteq> 0 then Some (ret, rawData, d1)
               else case dfsUris localUri of
                   None \<Rightarrow> Some (NO_DATA_ERROR, rawData, d1)
                 | Some (distributedUri, fileSize) \<Rightarrow> do {
                     entry1 \<leftarrow> set_dfs_uri (sv_ext V) distributedUri fileSize entry;
                     (case ProcessDistributedDelayEntry V entry1 of (ret', bytes) \<Rightarrow> Some (ret', bytes, d1))
                   }
       }
   }"

definition html_data :: "svc_env \<Rightarrow> PasteDataEntry \<Rightarrow> (PasteData option) run" where
  "html_data V entry =
     (let tmp = new_data (sv_params V) (now_ms V) in
      case ent_value entry of
        VObject p \<Rightarrow> do {
          obj \<leftarrow> p;
          let newEntry = mk_entry_mime (ent_utdId entry) (ent_mimeType entry) (VObject (Some obj));
          Some (Some (AddRecord True (Some (AddEntryByMimeType (sv_ext V) MIMETYPE_TEXT_HTML (Some newEntry) (empty_record (sv_ext V)))) tmp))
        }
      | _ \<Rightarrow> do {
          html \<leftarrow> ConvertToHtml (sv_ext V) entry;
          Some (map_option (\<lambda>h. AddHtmlRecord (sv_ext V) True h tmp) html)
        })"

definition ProcessDistributedDelayHtml :: "svc_env \<Rightarrow> remote_env \<Rightarrow> caller \<Rightarrow> PasteDataEntry \<Rightarrow> PasteData \<Rightarrow> byte list \<Rightarrow>
    (i32 \<times> byte list \<times> PasteData) run" where
  "ProcessDistributedDelayHtml V R c entry d rawData = do {
     let E = sv_ext V;
     let bundleIndex = GetDirByAuthority (sv_web V) (pd_originAuthority d);
     (split, d1) \<leftarrow> SplitWebviewPasteData E svc_client (sv_web V) bundleIndex (pd_userId d) d;
     d2 \<leftarrow> (if split then do { x \<leftarrow> SetWebviewPasteData E bundleIndex d1; CheckAppUriPermission E (sv_web V) x } else Some d1);
     tmp \<leftarrow> html_data V entry;
     case tmp of
       None \<Rightarrow> Some (GET_ENTRY_VALUE_FAILED, rawData, d2)
     | Some t0 \<Rightarrow> do {
         let t1 = (SetBundleInfo (prop_bundleName (pd_props d2)) (GetAppIndex d2) t0)\<lparr>pd_originAuthority := pd_originAuthority d2\<rparr>;
         let t2 = SetTokenId (sv_params V) (prop_tokenId (pd_props d2)) t1;
         let index = GetDirByAuthority (sv_web V) (pd_originAuthority d2);
         (split2, t3) \<leftarrow> SplitWebviewPasteData E svc_client (sv_web V) index (pd_userId d2) t2;
         t4 \<leftarrow> (if split2 then do {
                  x \<leftarrow> SetWebviewPasteData E index t3; y \<leftarrow> CheckAppUriPermission E (sv_web V) x;
                  GenerateDistributedUri V (rm_grant R) c y } else Some t3);
         (ok, bytes) \<leftarrow> Encode_data E (rm_min_version R \<le> VERSION_FIVE) t4;
         Some (if \<not> ok then DATA_ENCODE_ERROR else E_OK, bytes, d2)
       }
   }"

definition GetDistributedDelayEntry :: "svc_env \<Rightarrow> remote_env \<Rightarrow> caller \<Rightarrow> GlobalEvent \<Rightarrow> u32 \<Rightarrow> string \<Rightarrow> byte list \<Rightarrow> pasteboard \<Rightarrow>
    (i32 \<times> byte list \<times> pasteboard) run" where
  "GetDistributedDelayEntry V R c evt recordId utdId rawData b =
     (let userId = (ucast (evt_user evt) :: i32) in
      case map_of (clips (svc b)) userId of
        None \<Rightarrow> Some (NO_DATA_ERROR, rawData, b)
      | Some d \<Rightarrow>
          if evt_dataId evt \<noteq> pd_dataId d then Some (INVALID_DATA_ID, rawData, b)
          else case GetRecordById recordId d of
            None \<Rightarrow> Some (INVALID_RECORD_ID, rawData, b)
          | Some r \<Rightarrow> do {
              (ret, entry, d1) \<leftarrow> GetLocalEntryValue_svc V userId r (empty_entry\<lparr>ent_utdId := utdId\<rparr>) d (svc b);
              if ret \<noteq> E_OK then Some (ret, rawData, put_clip userId d1 b)
              else do {
                (ret', bytes, d2) \<leftarrow>
                  (if ent_mimeType entry = MIMETYPE_TEXT_URI then ProcessDistributedDelayUri V R userId recordId entry d1 rawData
                   else if ent_mimeType entry = MIMETYPE_TEXT_HTML then ProcessDistributedDelayHtml V R c entry d1 rawData
                   else (case ProcessDistributedDelayEntry V entry of (x, y) \<Rightarrow> Some (x, y, d1)));
                Some (ret', bytes, put_clip userId d2 b)
              }
            })"

definition GetDistributedDelayData :: "svc_env \<Rightarrow> remote_env \<Rightarrow> caller \<Rightarrow> GlobalEvent \<Rightarrow> byte \<Rightarrow> byte list \<Rightarrow> pasteboard \<Rightarrow>
    (i32 \<times> byte list \<times> pasteboard) run" where
  "GetDistributedDelayData V R c evt version rawData b =
     (let userId = (ucast (evt_user evt) :: i32) in
      case map_of (clips (svc b)) userId of
        None \<Rightarrow> Some (NO_DATA_ERROR, rawData, b)
      | Some d \<Rightarrow>
          if evt_dataId evt \<noteq> pd_dataId d then Some (INVALID_DATA_ID, rawData, b)
          else do {
            (ret, d1, s1) \<leftarrow> (if version = 0 then GetFullDelayPasteData V userId d (svc b)
                          else if version = 1 then do { (x, y) \<leftarrow> GetDelayPasteRecord V userId d (svc b); Some (x, y, svc b) }
                          else Some (E_OK, d, svc b));
            let copied = (version = 0 \<and> GetAllDelayEntryInfo (sv_ext V) d \<noteq> []);
            if ret \<noteq> E_OK then Some (ret, rawData, put_clip userId d1 b)
            else do {
              let d2 = SetBundleInfo (fst (pd_originAuthority d1)) (snd (pd_originAuthority d1)) d1;
              (_, d3) \<leftarrow> web_prepare V (GetDirByAuthority (sv_web V) (pd_originAuthority d1)) userId d2;
              d4 \<leftarrow> GenerateDistributedUri V (rm_grant R) c d3;
              (ok, bytes) \<leftarrow> Encode_data (sv_ext V) (rm_min_version R \<le> VERSION_FIVE) d4;
              Some (if \<not> ok then DATA_ENCODE_ERROR else E_OK, bytes,
                if copied then b\<lparr>svc := refresh_records userId d4 s1\<rparr> else put_clip userId d4 (b\<lparr>svc := s1\<rparr>))
            }
          })"

section \<open>Sending a copy\<close>

datatype send_call =
    RegisterDelayCallback
  | SendPasteData GlobalEvent "byte list" nat "byte list"

text \<open>\<open>SetCurrentData\<close> after it has taken the copy: whether it was handed to the plugin, the calls made and the state.\<close>

definition SetCurrentData :: "svc_env \<Rightarrow> remote_env \<Rightarrow> caller \<Rightarrow> GlobalEvent \<Rightarrow> PasteData \<Rightarrow> service \<Rightarrow>
    (bool \<times> send_call list \<times> service) run" where
  "SetCurrentData V R c event d s =
     (if \<not> has_plugin V then Some (False, [], s)
      else do {
        let needFull = (pd_isDelayRecord d \<and> rm_min_version R = VERSION_FOUR);
        (evt1, d1, s1) \<leftarrow>
          (if needFull
           then do {
             (_, x, s') \<leftarrow> GetFullDelayPasteData V (ucast (evt_user event)) d s;
             (_, y) \<leftarrow> web_prepare V (GetDirByAuthority (sv_web V) (pd_originAuthority x)) (pd_userId x) x;
             Some (event\<lparr>evt_isDelay := False\<rparr>, y, s')
           }
           else Some (event, d, s));
        d2 \<leftarrow> GenerateDistributedUri V (rm_grant R) c d1;
        let evt2 = evt1\<lparr>evt_notNeedLink := \<not> IsNeedLink d2\<rparr>;
        (ok, rawData) \<leftarrow> Encode_data (sv_ext V) (rm_min_version R \<le> VERSION_FIVE) d2;
        let s2 = refresh_records (ucast (evt_user event)) d2 s1;
        if \<not> ok then Some (False, [], s2)
        else do {
          let pre = (if pd_isDelayRecord d2 \<and> \<not> needFull then [RegisterDelayCallback] else []);
          mimeTypes \<leftarrow> GetMimeTypes d2;
          let rawMimeTypes = (if length rawData > MAX_TRANSFER_SIZE then EncodeMimeTypes mimeTypes else []);
          Some (True, pre @ [SendPasteData evt2 rawData (rm_min_version R) rawMimeTypes], s2)
        }
      })"

end
