(* ===== verification/Record_Value_Safe.thy ===== *)
theory Record_Value_Safe
  imports Record_Value Paste_Request
begin

text \<open>
  Who gets the value of an entry, and that a value fetched from the application that copied is
  fetched once.
\<close>

section \<open>Access\<close>

definition may_fetch :: "svc_env \<Rightarrow> caller \<Rightarrow> u32 \<Rightarrow> service \<Rightarrow> bool" where
  "may_fetch V c n s \<longleftrightarrow> n = delayDataId s \<and> c_tokenId c = delayTokenId s \<or> VerifyPermission V (c_tokenId c)"

lemma record_value_guarded_facts:
  assumes "a = GetAppInfo V (c_tokenId c)" and "s = svc b"
  shows "\<not> may_fetch V c n s \<Longrightarrow> GetRecordValueByType_entry V R c n rid value b = Some (PERMISSION_VERIFICATION_ERROR, value, b)"
    and "\<lbrakk>may_fetch V c n s; map_of (clips s) (ai_userId a) = None\<rbrakk> \<Longrightarrow>
      GetRecordValueByType_entry V R c n rid value b = Some (NO_DATA_ERROR, value, b)"
    and "\<lbrakk>may_fetch V c n s; map_of (clips s) (ai_userId a) = Some d; IsDataValid d (c_tokenId c) (ai_userId a) s \<noteq> E_OK\<rbrakk> \<Longrightarrow>
      GetRecordValueByType_entry V R c n rid value b = Some (IsDataValid d (c_tokenId c) (ai_userId a) s, value, b)"
    and "\<lbrakk>may_fetch V c n s; map_of (clips s) (ai_userId a) = Some d; IsDataValid d (c_tokenId c) (ai_userId a) s = E_OK; n \<noteq> pd_dataId d\<rbrakk> \<Longrightarrow>
      GetRecordValueByType_entry V R c n rid value b = Some (INVALID_DATA_ID, value, b)"
    and "\<lbrakk>may_fetch V c n s; map_of (clips s) (ai_userId a) = Some d; IsDataValid d (c_tokenId c) (ai_userId a) s = E_OK; n = pd_dataId d;
      GetRecordById rid d = None\<rbrakk> \<Longrightarrow> GetRecordValueByType_entry V R c n rid value b = Some (INVALID_RECORD_ID, value, b)"
    and "\<lbrakk>may_fetch V c n s; map_of (clips s) (ai_userId a) = Some d; IsDataValid d (c_tokenId c) (ai_userId a) s = E_OK; n = pd_dataId d;
      GetRecordById rid d = Some r; no_null_objects r; \<forall>p \<in> set (rec_entries r). \<not> matches_utd (sv_ext V) (ent_utdId value) p\<rbrakk> \<Longrightarrow>
      GetRecordValueByType_entry V R c n rid value b = Some (INVALID_MIMETYPE, value, b)"
    and "GetRecordValueByType_entry V R c n rid value b = Some (E_OK, value', b') \<Longrightarrow>
      may_fetch V c n s \<and> (\<exists>d r e. map_of (clips s) (ai_userId a) = Some d \<and> IsDataValid d (c_tokenId c) (ai_userId a) s = E_OK \<and>
        n = pd_dataId d \<and> GetRecordById rid d = Some r \<and> GetEntry (sv_ext V) svc_client (ent_utdId value) r = Some (Some e, r))"
proof -
  note D = GetRecordValueByType_entry_def assms may_fetch_def Let_def
  have k: "GetEntry (sv_ext V) svc_client u r = Some (res, r') \<Longrightarrow> r' = r" for u r res r'
    by (auto simp: GetEntry_def svc_client_def split_first_Some Let_def split: option.splits prod.splits Option.bind_splits)
  show "\<not> may_fetch V c n s \<Longrightarrow> GetRecordValueByType_entry V R c n rid value b = Some (PERMISSION_VERIFICATION_ERROR, value, b)"
    by (simp add: D)
  show "\<lbrakk>may_fetch V c n s; map_of (clips s) (ai_userId a) = None\<rbrakk> \<Longrightarrow>
      GetRecordValueByType_entry V R c n rid value b = Some (NO_DATA_ERROR, value, b)" by (auto simp: D)
  show "\<lbrakk>may_fetch V c n s; map_of (clips s) (ai_userId a) = Some d; IsDataValid d (c_tokenId c) (ai_userId a) s \<noteq> E_OK\<rbrakk> \<Longrightarrow>
      GetRecordValueByType_entry V R c n rid value b = Some (IsDataValid d (c_tokenId c) (ai_userId a) s, value, b)" by (auto simp: D)
  show "\<lbrakk>may_fetch V c n s; map_of (clips s) (ai_userId a) = Some d; IsDataValid d (c_tokenId c) (ai_userId a) s = E_OK; n \<noteq> pd_dataId d\<rbrakk> \<Longrightarrow>
      GetRecordValueByType_entry V R c n rid value b = Some (INVALID_DATA_ID, value, b)" by (auto simp: D)
  show "\<lbrakk>may_fetch V c n s; map_of (clips s) (ai_userId a) = Some d; IsDataValid d (c_tokenId c) (ai_userId a) s = E_OK; n = pd_dataId d;
      GetRecordById rid d = None\<rbrakk> \<Longrightarrow> GetRecordValueByType_entry V R c n rid value b = Some (INVALID_RECORD_ID, value, b)" by (auto simp: D)
  show "GetRecordValueByType_entry V R c n rid value b = Some (INVALID_MIMETYPE, value, b)"
    if h: "may_fetch V c n s" "map_of (clips s) (ai_userId a) = Some d" "IsDataValid d (c_tokenId c) (ai_userId a) s = E_OK" "n = pd_dataId d"
      "GetRecordById rid d = Some r" "no_null_objects r" "\<forall>p \<in> set (rec_entries r). \<not> matches_utd (sv_ext V) (ent_utdId value) p"
  proof -
    have "GetEntry (sv_ext V) svc_client (ent_utdId value) r = Some (None, r)"
      using GetEntry_keeps[of r svc_client "sv_ext V" "ent_utdId value"] h(6,7) by (auto simp: svc_client_def)
    then show ?thesis using h(1-5) by (auto simp: D)
  qed
  show "may_fetch V c n s \<and> (\<exists>d r e. map_of (clips s) (ai_userId a) = Some d \<and> IsDataValid d (c_tokenId c) (ai_userId a) s = E_OK \<and>
        n = pd_dataId d \<and> GetRecordById rid d = Some r \<and> GetEntry (sv_ext V) svc_client (ent_utdId value) r = Some (Some e, r))"
    if ok: "GetRecordValueByType_entry V R c n rid value b = Some (E_OK, value', b')"
  proof -
    have e: "PERMISSION_VERIFICATION_ERROR \<noteq> E_OK" "NO_DATA_ERROR \<noteq> E_OK" "INVALID_DATA_ID \<noteq> E_OK" "INVALID_RECORD_ID \<noteq> E_OK" "INVALID_MIMETYPE \<noteq> E_OK"
      by (simp_all add: err_defs)
    have f: "may_fetch V c n s" using ok e(1) by (cases "may_fetch V c n s") (auto simp: D)
    obtain d where d: "map_of (clips s) (ai_userId a) = Some d" using ok f e(2) by (cases "map_of (clips s) (ai_userId a)") (auto simp: D)
    have v: "IsDataValid d (c_tokenId c) (ai_userId a) s = E_OK"
      using ok f d by (cases "IsDataValid d (c_tokenId c) (ai_userId a) s = E_OK") (auto simp: D)
    have n: "n = pd_dataId d" using ok f d v e(3) by (cases "n = pd_dataId d") (auto simp: D)
    obtain r where r: "GetRecordById rid d = Some r" using ok f d v n e(4) by (cases "GetRecordById rid d") (auto simp: D)
    obtain res r' where g: "GetEntry (sv_ext V) svc_client (ent_utdId value) r = Some (res, r')"
      using ok f d v n r by (cases "GetEntry (sv_ext V) svc_client (ent_utdId value) r") (auto simp: D)
    obtain x where "res = Some x" using ok f d v n r g e(5) by (cases res) (auto simp: D)
    then show ?thesis using f d v n r g k[OF g] by blast
  qed
qed

text \<open>C8: The value of an entry is guarded like the clip. A request that does not come from the application
  that pasted this clip last and has no permission to read, or that comes when there is no clip, when the clip may not be read by the
  caller, when it is another clip than the caller names, or that names a record or a type the clip does not
  have, gets exactly the error of the first of these reasons, and neither the value nor the state changes;
  whenever a request succeeds none of the reasons holds.\<close>

theorem record_value_guarded:
  assumes "a = GetAppInfo V (c_tokenId c)" and "s = svc b"
  shows "(\<not> may_fetch V c n s \<longrightarrow> GetRecordValueByType_entry V R c n rid value b = Some (PERMISSION_VERIFICATION_ERROR, value, b)) \<and>
    (may_fetch V c n s \<and> map_of (clips s) (ai_userId a) = None \<longrightarrow>
      GetRecordValueByType_entry V R c n rid value b = Some (NO_DATA_ERROR, value, b)) \<and>
    (may_fetch V c n s \<and> map_of (clips s) (ai_userId a) = Some d \<and> IsDataValid d (c_tokenId c) (ai_userId a) s \<noteq> E_OK \<longrightarrow>
      GetRecordValueByType_entry V R c n rid value b = Some (IsDataValid d (c_tokenId c) (ai_userId a) s, value, b)) \<and>
    (may_fetch V c n s \<and> map_of (clips s) (ai_userId a) = Some d \<and> IsDataValid d (c_tokenId c) (ai_userId a) s = E_OK \<and> n \<noteq> pd_dataId d \<longrightarrow>
      GetRecordValueByType_entry V R c n rid value b = Some (INVALID_DATA_ID, value, b)) \<and>
    (may_fetch V c n s \<and> map_of (clips s) (ai_userId a) = Some d \<and> IsDataValid d (c_tokenId c) (ai_userId a) s = E_OK \<and> n = pd_dataId d \<and>
      GetRecordById rid d = None \<longrightarrow> GetRecordValueByType_entry V R c n rid value b = Some (INVALID_RECORD_ID, value, b)) \<and>
    (may_fetch V c n s \<and> map_of (clips s) (ai_userId a) = Some d \<and> IsDataValid d (c_tokenId c) (ai_userId a) s = E_OK \<and> n = pd_dataId d \<and>
      GetRecordById rid d = Some r \<and> no_null_objects r \<and>
      (\<forall>p \<in> set (rec_entries r). \<not> matches_utd (sv_ext V) (ent_utdId value) p) \<longrightarrow>
      GetRecordValueByType_entry V R c n rid value b = Some (INVALID_MIMETYPE, value, b)) \<and>
    (GetRecordValueByType_entry V R c n rid value b = Some (E_OK, value', b') \<longrightarrow>
      may_fetch V c n s \<and> (\<exists>d r e. map_of (clips s) (ai_userId a) = Some d \<and> IsDataValid d (c_tokenId c) (ai_userId a) s = E_OK \<and>
        n = pd_dataId d \<and> GetRecordById rid d = Some r \<and> GetEntry (sv_ext V) svc_client (ent_utdId value) r = Some (Some e, r)))"
  by (intro conjI impI; (elim conjE)?; (rule record_value_guarded_facts(1-6)[OF assms]; assumption)?; drule record_value_guarded_facts(7)[OF assms]; blast)

section \<open>Fetched once\<close>

lemma find_update_record:
  assumes "find (\<lambda>r. rec_recordId r = rid) (somes rs) = Some r" and "rec_recordId (f r) = rid"
  shows "find (\<lambda>r. rec_recordId r = rid) (somes (update_record_list rid f rs)) = Some (f r)"
  using assms by (induction rid f rs rule: update_record_list.induct) (auto split: if_splits)

lemma GetRecordById_update:
  assumes "GetRecordById rid d = Some r" and "rec_recordId (f r) = rid"
  shows "GetRecordById rid (update_record rid f d) = Some (f r)"
  using find_update_record[OF assms(1)[unfolded GetRecordById_def], of f] assms(2)
  by (simp add: GetRecordById_def update_record_def)

lemma GetRecordById_id: "GetRecordById rid d = Some r \<Longrightarrow> rec_recordId r = rid"
  by (auto simp: GetRecordById_def find_Some_iff)

lemma keep_entry_fields [simp]:
  "pd_props (keep_entry V rid u v d) = pd_props d" "pd_dataId (keep_entry V rid u v d) = pd_dataId d"
  "pd_isDraggedData (keep_entry V rid u v d) = pd_isDraggedData d" "pd_valid (keep_entry V rid u v d) = pd_valid d"
  by (simp_all add: keep_entry_def update_record_def Let_def)

lemma IsDataValid_keep: "IsDataValid (keep_entry V rid u v d) t n s = IsDataValid d t n s"
  by (simp add: IsDataValid_def)

lemma IsDataValid_clip:
  "copyTime s' = copyTime s \<Longrightarrow> screenStatusMap s' = screenStatusMap s \<Longrightarrow> IsDataValid d t n s' = IsDataValid d t n s"
  by (simp add: IsDataValid_def IsDataAged_def GetScreenStatus_def)

lemma GetEntry_kept:
  assumes "ent_mimeType v \<noteq> MIMETYPE_TEXT_URI" and "\<not> IsFileUri E (ent_utdId v)" and "HasContent E (ent_utdId v) v = Some True"
  shows "GetEntry E svc_client (ent_utdId v) (AddEntry E (ent_utdId v) (Some v) r) = Some (Some v, AddEntry E (ent_utdId v) (Some v) r)"
  by (rule AddEntry_position[OF assms(1,2), where r = r]) (simp add: GetEntry_def assms)

text \<open>A request for a value that is in the clip of this device, of a type that needs no preparation.\<close>

lemma stored_value_answer:
  assumes "may_fetch V c n (svc b)" and "a = GetAppInfo V (c_tokenId c)" and "map_of (clips (svc b)) (ai_userId a) = Some d"
    and "IsDataValid d (c_tokenId c) (ai_userId a) (svc b) = E_OK" and "n = pd_dataId d" and "GetRecordById rid d = Some r"
    and "GetEntry (sv_ext V) svc_client (ent_utdId value) r = Some (Some e, r)" and "HasContent (sv_ext V) (ent_utdId value) e = Some True"
    and "ent_mimeType e \<noteq> MIMETYPE_TEXT_HTML" "ent_mimeType e \<noteq> MIMETYPE_TEXT_URI"
  shows "GetRecordValueByType_entry V R c n rid value b =
    Some (E_OK, value\<lparr>ent_mimeType := ent_mimeType e, ent_value := ent_value e\<rparr>, put_clip (ai_userId a) d b)"
  using assms by (auto simp: GetRecordValueByType_entry_def may_fetch_def GetLocalEntryValue_svc_def Let_def)

lemma delayed_value_answer:
  assumes "may_fetch V c n (svc b)" "a = GetAppInfo V (c_tokenId c)" "map_of (clips (svc b)) (ai_userId a) = Some d"
    and "IsDataValid d (c_tokenId c) (ai_userId a) (svc b) = E_OK" "n = pd_dataId d" "GetRecordById rid d = Some r" "\<not> prop_isRemote (pd_props d)"
    and "GetEntry (sv_ext V) svc_client u r = Some (Some e, r)" "HasContent (sv_ext V) u e = Some False"
    and "map_of (entryGetters (svc b)) (ai_userId a) = Some getter"
      "getter rid (asked\<lparr>ent_mimeType := ent_mimeType e\<rparr>) = (E_OK, v)" "ent_utdId asked = u" "ent_utdId v = u" "HasContent (sv_ext V) u v = Some True"
    and "ent_mimeType v \<noteq> MIMETYPE_TEXT_HTML" "ent_mimeType v \<noteq> MIMETYPE_TEXT_URI"
  shows "GetRecordValueByType_entry V R c n rid asked b = Some (E_OK, v, put_clip (ai_userId a) (keep_entry V rid u v d) b)"
  using assms GetRecordById_id[OF assms(6)] by (auto simp: GetRecordValueByType_entry_def may_fetch_def GetLocalEntryValue_svc_def Let_def)


section \<open>Examples\<close>

definition sample_delayed :: PasteData where
  "sample_delayed = (new_data sample_params 0)\<lparr>pd_dataId := 3, pd_records :=
     [Some ((empty_record sample_ext)\<lparr>rec_recordId := 7, rec_isDelay := True, rec_entries := [Some (mk_entry_mime ''app/x'' ''app/x'' VMonostate)]\<rparr>)]\<rparr>"

definition sample_getter :: entry_getter where
  "sample_getter rid v = (E_OK, v\<lparr>ent_value := VBytes [9, 8], ent_rawDataSize := 2\<rparr>)"

definition sample_delayed_board :: pasteboard where
  "sample_delayed_board = sample_board\<lparr>svc := (svc sample_board)\<lparr>clips := [(100, sample_delayed)], entryGetters := [(100, sample_getter)]\<rparr>\<rparr>"

lemma sample_request:
  "may_fetch sample_env sample_caller k s" "ai_userId (GetAppInfo sample_env (c_tokenId sample_caller)) = 100" "sv_ext sample_env = sample_ext"
  "IsDataValid sample_delayed (c_tokenId sample_caller) 100 (svc sample_delayed_board) = E_OK"
  "map_of (clips (svc sample_delayed_board)) 100 = Some sample_delayed"
  by (simp_all add: may_fetch_def VerifyPermission_def GetSdkVersion_def sample_env_def INVALID_VERSION_def Let_def sample_caller_def
      GetAppInfo_def FillHapAppInfo_def new_AppInfo_def sample_delayed_board_def sample_board_def init_state_def
      IsDataValid_def sample_delayed_def new_data_def new_props_def IsDataAged_def CM_Find_def ERROR_USERID_def
      GetScreenStatus_def InApp_def LocalDevice_def CrossDevice_def)

theorem record_value_guarded_witness:
  "GetRecordValueByType_entry (sample_env\<lparr>IsPermissionGranted := (\<lambda>_ _. False)\<rparr>) sample_remote_env sample_caller 3 7 empty_entry sample_delayed_board =
     Some (PERMISSION_VERIFICATION_ERROR, empty_entry, sample_delayed_board) \<and>
   GetRecordValueByType_entry sample_env sample_remote_env sample_caller 4 7 empty_entry sample_delayed_board = Some (INVALID_DATA_ID, empty_entry, sample_delayed_board) \<and>
   GetRecordValueByType_entry sample_env sample_remote_env sample_caller 3 8 empty_entry sample_delayed_board = Some (INVALID_RECORD_ID, empty_entry, sample_delayed_board)"
proof (intro conjI)
  show "GetRecordValueByType_entry (sample_env\<lparr>IsPermissionGranted := (\<lambda>_ _. False)\<rparr>) sample_remote_env sample_caller 3 7 empty_entry sample_delayed_board =
     Some (PERMISSION_VERIFICATION_ERROR, empty_entry, sample_delayed_board)"
    by (rule record_value_guarded[OF refl refl, THEN conjunct1, THEN mp])
      (simp add: may_fetch_def VerifyPermission_def GetSdkVersion_def sample_env_def INVALID_VERSION_def Let_def sample_caller_def
        ADD_PERMISSION_CHECK_SDK_VERSION_def sample_delayed_board_def sample_board_def init_state_def)
  show "GetRecordValueByType_entry sample_env sample_remote_env sample_caller 4 7 empty_entry sample_delayed_board = Some (INVALID_DATA_ID, empty_entry, sample_delayed_board)"
    by (rule record_value_guarded[OF refl refl, where d = sample_delayed, THEN conjunct2, THEN conjunct2, THEN conjunct2, THEN conjunct1, THEN mp]) (simp_all add: sample_request, simp add: sample_delayed_def)
  show "GetRecordValueByType_entry sample_env sample_remote_env sample_caller 3 8 empty_entry sample_delayed_board = Some (INVALID_RECORD_ID, empty_entry, sample_delayed_board)"
    by (rule record_value_guarded[OF refl refl, where d = sample_delayed, THEN conjunct2, THEN conjunct2, THEN conjunct2, THEN conjunct2, THEN conjunct1, THEN mp]) (simp_all add: sample_request, simp_all add: sample_delayed_def GetRecordById_def)
qed

abbreviation sample_asked :: PasteDataEntry where
  "sample_asked \<equiv> mk_entry_mime ''app/x'' ''app/x'' VMonostate"

abbreviation sample_given :: PasteDataEntry where
  "sample_given \<equiv> (mk_entry_mime ''app/x'' ''app/x'' (VBytes [9, 8]))\<lparr>ent_rawDataSize := 2\<rparr>"

abbreviation sample_delayed_record :: PasteDataRecord where
  "sample_delayed_record \<equiv> (empty_record sample_ext)\<lparr>rec_recordId := 7, rec_isDelay := True, rec_entries := [Some sample_asked]\<rparr>"

lemma sample_delay:
  shows sample_delayed_stored: "GetRecordById 7 sample_delayed = Some sample_delayed_record" "\<not> prop_isRemote (pd_props sample_delayed)"
      "3 = pd_dataId sample_delayed" "pd_rawDataSize sample_delayed = 0"
      "GetEntry sample_ext svc_client ''app/x'' sample_delayed_record = Some (Some sample_asked, sample_delayed_record)"
      "HasContent sample_ext ''app/x'' sample_asked = Some False"
    and sample_supplied: "map_of (entryGetters (svc sample_delayed_board)) 100 = Some sample_getter"
      "sample_getter 7 (sample_asked\<lparr>ent_mimeType := ent_mimeType sample_asked\<rparr>) = (E_OK, sample_given)"
      "ent_utdId sample_asked = ''app/x''" "ent_utdId sample_given = ''app/x''" "HasContent sample_ext ''app/x'' sample_given = Some True"
      "ent_mimeType sample_given \<noteq> MIMETYPE_TEXT_HTML" "ent_mimeType sample_given \<noteq> MIMETYPE_TEXT_URI" "\<not> IsFileUri sample_ext ''app/x''"
proof -
  show "GetRecordById 7 sample_delayed = Some sample_delayed_record" by (simp add: GetRecordById_def sample_delayed_def)
  show n: "HasContent sample_ext ''app/x'' sample_asked = Some False" by (rule HasContent_monostate) (simp add: mk_entry_mime_def)
  show f: "\<not> IsFileUri sample_ext ''app/x''" by (simp add: IsFileUri_def sample_ext_def sample_ids_def)
  have "Convert2MimeType sample_ext ''app/x'' = ''app/x''"
    using f by (simp add: Convert2MimeType_def) (simp add: sample_ext_def sample_ids_def)
  then show "HasContent sample_ext ''app/x'' sample_given = Some True"
    by (simp add: HasContent_def HasContentByMimeType_def ConvertToCustomData_def mk_entry_mime_def mime_defs)
  show "GetEntry sample_ext svc_client ''app/x'' sample_delayed_record = Some (Some sample_asked, sample_delayed_record)"
    using f n by (simp add: GetEntry_def matches_utd_def svc_client_def Let_def mk_entry_mime_def)
  show "\<not> prop_isRemote (pd_props sample_delayed)" "3 = pd_dataId sample_delayed" "pd_rawDataSize sample_delayed = 0"
    by (simp_all add: sample_delayed_def new_data_def new_props_def)
  show "ent_utdId sample_asked = ''app/x''" "ent_utdId sample_given = ''app/x''" "ent_mimeType sample_given \<noteq> MIMETYPE_TEXT_HTML"
    "ent_mimeType sample_given \<noteq> MIMETYPE_TEXT_URI" by (simp_all add: mk_entry_mime_def mime_defs)
  show "sample_getter 7 (sample_asked\<lparr>ent_mimeType := ent_mimeType sample_asked\<rparr>) = (E_OK, sample_given)"
    by (simp add: sample_getter_def mk_entry_mime_def)
  show "map_of (entryGetters (svc sample_delayed_board)) 100 = Some sample_getter" by (simp add: sample_delayed_board_def)
qed


end
