(* ===== verification/Regex.thy ===== *)
theory Regex
  imports Prelude
begin

text \<open>
  Regular expressions as \<open>std::regex\<close> searches them (ECMAScript grammar, the constructs the pasteboard uses):
  character classes, sequence, ordered alternatives, greedy repetition that stops at an empty
  iteration, the start of the text and word boundaries. \<open>match_lengths\<close> lists the lengths of all matches at a position
  in the order in which the backtracking matcher meets them, so the match \<open>regex_search\<close> reports is the
  first one at the first position that has any. The relation \<open>matches\<close> is the reference meaning.
\<close>

section \<open>Expressions\<close>

datatype regex =
    Eps
  | Cls "char \<Rightarrow> bool"
  | Seq regex regex
  | Alt regex regex
  | Star regex
  | Bol
  | Wordb

definition char_between :: "char \<Rightarrow> char \<Rightarrow> char \<Rightarrow> bool" where
  "char_between a b c \<longleftrightarrow> of_char a \<le> (of_char c :: nat) \<and> (of_char c :: nat) \<le> of_char b"

definition is_upper :: "char \<Rightarrow> bool" where "is_upper = char_between CHR ''A'' CHR ''Z''"
definition is_lower :: "char \<Rightarrow> bool" where "is_lower = char_between CHR ''a'' CHR ''z''"
definition is_dec :: "char \<Rightarrow> bool" where "is_dec = char_between CHR ''0'' CHR ''9''"
definition is_alnum :: "char \<Rightarrow> bool" where "is_alnum c \<longleftrightarrow> is_upper c \<or> is_lower c \<or> is_dec c"
definition is_word :: "char \<Rightarrow> bool" where "is_word c \<longleftrightarrow> is_alnum c \<or> c = CHR ''_''"
definition is_space :: "char \<Rightarrow> bool" where "is_space c \<longleftrightarrow> c = CHR '' '' \<or> (9 \<le> (of_char c :: nat) \<and> (of_char c :: nat) \<le> 13)"

definition one_of :: "string \<Rightarrow> regex" where "one_of cs = Cls (\<lambda>c. c \<in> set cs)"
definition alnum_or :: "string \<Rightarrow> regex" where "alnum_or cs = Cls (\<lambda>c. is_alnum c \<or> c \<in> set cs)"

fun lit :: "string \<Rightarrow> regex" where
  "lit [] = Eps"
| "lit (c # cs) = Seq (Cls (\<lambda>x. x = c)) (lit cs)"

definition Plus :: "regex \<Rightarrow> regex" where "Plus r = Seq r (Star r)"
definition Opt :: "regex \<Rightarrow> regex" where "Opt r = Alt r Eps"

text \<open>\<open>r{m,m+k}\<close>.\<close>

fun upto_times :: "nat \<Rightarrow> regex \<Rightarrow> regex" where
  "upto_times 0 r = Eps"
| "upto_times (Suc k) r = Opt (Seq r (upto_times k r))"

fun times :: "nat \<Rightarrow> regex \<Rightarrow> regex" where
  "times 0 r = Eps"
| "times (Suc k) r = Seq r (times k r)"

definition between :: "nat \<Rightarrow> nat \<Rightarrow> regex \<Rightarrow> regex" where
  "between m n r = Seq (times m r) (upto_times (n - m) r)"

section \<open>The matcher\<close>

text \<open>Whether there is a word boundary between the text before, read backwards, and the text after.\<close>

definition boundary :: "string \<Rightarrow> string \<Rightarrow> bool" where
  "boundary before after \<longleftrightarrow> (before \<noteq> [] \<and> is_word (hd before)) \<noteq> (after \<noteq> [] \<and> is_word (hd after))"

function match_lengths :: "regex \<Rightarrow> string \<Rightarrow> string \<Rightarrow> nat list" where
  "match_lengths Eps p s = [0]"
| "match_lengths (Cls f) p s = (case s of [] \<Rightarrow> [] | c # _ \<Rightarrow> if f c then [1] else [])"
| "match_lengths (Seq a b) p s =
     concat (map (\<lambda>n. map ((+) n) (match_lengths b (rev (take n s) @ p) (drop n s))) (match_lengths a p s))"
| "match_lengths (Alt a b) p s = match_lengths a p s @ match_lengths b p s"
| "match_lengths (Star a) p s =
     concat (map (\<lambda>n. if 0 < n \<and> n \<le> length s then map ((+) n) (match_lengths (Star a) (rev (take n s) @ p) (drop n s)) else [])
       (match_lengths a p s)) @ [0]"
| "match_lengths Bol p s = (if p = [] then [0] else [])"
| "match_lengths Wordb p s = (if boundary p s then [0] else [])"
  by pat_completeness auto
termination by (relation "measures [\<lambda>(r, _, _). size r, \<lambda>(_, _, s). length s]") auto

declare match_lengths.simps(5) [simp del]

text \<open>\<open>regex_search\<close>: the position and length of the match that is reported.\<close>

fun search_from :: "regex \<Rightarrow> string \<Rightarrow> string \<Rightarrow> (nat \<times> nat) option" where
  "search_from r p s = (case match_lengths r p s of
      n # _ \<Rightarrow> Some (length p, n)
    | [] \<Rightarrow> (case s of [] \<Rightarrow> None | c # cs \<Rightarrow> search_from r (c # p) cs))"

definition regex_find :: "regex \<Rightarrow> string \<Rightarrow> string option" where
  "regex_find r text = map_option (\<lambda>(i, n). take n (drop i text)) (search_from r [] text)"

section \<open>The reference meaning\<close>

inductive matches :: "regex \<Rightarrow> string \<Rightarrow> string \<Rightarrow> nat \<Rightarrow> bool" where
  "matches Eps p s 0"
| "f c \<Longrightarrow> matches (Cls f) p (c # s) 1"
| "\<lbrakk>matches a p s n; matches b (rev (take n s) @ p) (drop n s) m\<rbrakk> \<Longrightarrow> matches (Seq a b) p s (n + m)"
| "matches a p s n \<Longrightarrow> matches (Alt a b) p s n"
| "matches b p s n \<Longrightarrow> matches (Alt a b) p s n"
| "matches (Star a) p s 0"
| "\<lbrakk>matches a p s n; 0 < n; n \<le> length s; matches (Star a) (rev (take n s) @ p) (drop n s) m\<rbrakk> \<Longrightarrow> matches (Star a) p s (n + m)"
| "matches Bol [] s 0"
| "boundary p s \<Longrightarrow> matches Wordb p s 0"

inductive_cases matches_StarE: "matches (Star a) p s n"
inductive_simps matches_simps [simp]: "matches Eps p s n" "matches (Cls f) p s n" "matches (Seq a b) p s n" "matches (Alt a b) p s n"
  "matches Bol p s n" "matches Wordb p s n"

lemma match_lengths_Star_iff:
  "n \<in> set (match_lengths (Star a) p s) \<longleftrightarrow> n = 0 \<or> (\<exists>k m. n = k + m \<and> k \<in> set (match_lengths a p s) \<and> 0 < k \<and> k \<le> length s \<and>
     m \<in> set (match_lengths (Star a) (rev (take k s) @ p) (drop k s)))"
  by (subst match_lengths.simps(5)) (auto split: if_splits)

lemma match_lengths_complete: "matches r p s n \<Longrightarrow> n \<in> set (match_lengths r p s)"
proof (induction rule: matches.induct)
  case (7 a p s n m)
  then show ?case by (subst match_lengths_Star_iff) blast
next
  case (6 a p s)
  then show ?case by (subst match_lengths_Star_iff) simp
qed auto

lemma match_lengths_sound: "n \<in> set (match_lengths r p s) \<Longrightarrow> matches r p s n"
proof (induction r p s arbitrary: n rule: match_lengths.induct)
  case (3 a b p s)
  then obtain x y where "n = x + y" "x \<in> set (match_lengths a p s)" "y \<in> set (match_lengths b (rev (take x s) @ p) (drop x s))" by auto
  then show ?case using "3.IH" by (metis matches.intros(3))
next
  case (5 a p s)
  from "5.prems" show ?case unfolding match_lengths_Star_iff[of n] using 5 by (blast intro: matches.intros)
qed (auto split: list.splits if_splits intro: matches.intros)

lemma match_lengths_iff: "set (match_lengths r p s) = {n. matches r p s n}"
  using match_lengths_sound match_lengths_complete by blast

lemma matches_length: "matches r p s n \<Longrightarrow> n \<le> length s"
  by (induction rule: matches.induct) auto

text \<open>A match is found exactly if there is one, and what is reported is a match.\<close>

lemma search_from_Some:
  "search_from r p s = Some (i, n) \<Longrightarrow> \<exists>k. i = length p + k \<and> k \<le> length s \<and> matches r (rev (take k s) @ p) (drop k s) n"
proof (induction r p s rule: search_from.induct)
  case (1 r p s)
  show ?case
  proof (cases "match_lengths r p s")
    case (Cons m ms)
    then have "matches r p s n" "i = length p" using "1.prems" match_lengths_iff[of r p s] by auto
    then show ?thesis by (intro exI[of _ 0]) simp
  next
    case Nil
    then obtain c cs where s: "s = c # cs" "search_from r (c # p) cs = Some (i, n)" using "1.prems" by (auto split: list.splits)
    then obtain k where "i = length (c # p) + k" "k \<le> length cs" "matches r (rev (take k cs) @ c # p) (drop k cs) n"
      using "1.IH" Nil by blast
    then show ?thesis using s by (intro exI[of _ "Suc k"]) simp
  qed
qed

lemma search_from_None:
  "search_from r p s = None \<longleftrightarrow> (\<forall>k n. k \<le> length s \<longrightarrow> \<not> matches r (rev (take k s) @ p) (drop k s) n)"
proof (induction r p s rule: search_from.induct)
  case (1 r p s)
  show ?case
  proof (cases "match_lengths r p s")
    case (Cons m ms)
    then have "matches r p s m" using match_lengths_iff[of r p s] by auto
    then have "\<not> (\<forall>k n. k \<le> length s \<longrightarrow> \<not> matches r (rev (take k s) @ p) (drop k s) n)" by (metis append_Nil drop0 le0 rev.simps(1) take0)
    then show ?thesis using Cons by simp
  next
    case Nil
    then have n: "\<not> matches r p s n" for n using match_lengths_iff[of r p s] by auto
    show ?thesis
    proof (cases s)
      case (Cons c cs)
      have "(\<forall>k n. k \<le> length s \<longrightarrow> \<not> matches r (rev (take k s) @ p) (drop k s) n) \<longleftrightarrow>
          (\<forall>k n. k \<le> length cs \<longrightarrow> \<not> matches r (rev (take k cs) @ c # p) (drop k cs) n)" (is "?L \<longleftrightarrow> ?R")
      proof
        assume l: ?L
        show ?R
        proof (intro allI impI)
          fix k n assume "k \<le> length cs"
          then show "\<not> matches r (rev (take k cs) @ c # p) (drop k cs) n" using l[rule_format, of "Suc k" n] Cons by simp
        qed
      next
        assume r: ?R
        show ?L
        proof (intro allI impI)
          fix k n' assume "k \<le> length s"
          then show "\<not> matches r (rev (take k s) @ p) (drop k s) n'" using r n Cons by (cases k) auto
        qed
      qed
      then show ?thesis using 1[OF Nil Cons] Nil Cons by simp
    qed (use Nil n in simp)
  qed
qed

lemma regex_find_iff:
  "regex_find r t \<noteq> None \<longleftrightarrow> (\<exists>a b n. t = a @ b \<and> matches r (rev a) b n)"
proof
  assume "regex_find r t \<noteq> None"
  then obtain k n where "k \<le> length t" "matches r (rev (take k t)) (drop k t) n"
    unfolding regex_find_def using search_from_None[of r "[]" t] by auto
  then show "\<exists>a b n. t = a @ b \<and> matches r (rev a) b n" by (intro exI[of _ "take k t"] exI[of _ "drop k t"]) auto
next
  assume "\<exists>a b n. t = a @ b \<and> matches r (rev a) b n"
  then obtain a b n where "t = a @ b" "matches r (rev a) b n" by blast
  then have "length a \<le> length t \<and> matches r (rev (take (length a) t) @ []) (drop (length a) t) n" by simp
  then show "regex_find r t \<noteq> None" unfolding regex_find_def using search_from_None[of r "[]" t] by auto
qed

lemma regex_find_Some:
  assumes "regex_find r t = Some m"
  shows "\<exists>a b. t = a @ m @ b \<and> matches r (rev a) (m @ b) (length m)"
proof -
  obtain i n where s: "search_from r [] t = Some (i, n)" "m = take n (drop i t)" using assms by (auto simp: regex_find_def)
  from search_from_Some[OF s(1)] have k: "i \<le> length t" "matches r (rev (take i t)) (drop i t) n" by auto
  have "length m = n" using matches_length[OF k(2)] s(2) by simp
  moreover have "t = take i t @ m @ drop n (drop i t)" "drop i t = m @ drop n (drop i t)" using s(2) by (metis append_take_drop_id)+
  ultimately show ?thesis using k by metis
qed

section \<open>Matches of the constructs\<close>

lemma matches_lit [simp]: "matches (lit w) p s n \<longleftrightarrow> n = length w \<and> (\<exists>t. s = w @ t)"
proof (induction w arbitrary: p s n)
  case (Cons c cs)
  show ?case
  proof
    assume "matches (lit (c # cs)) p s n"
    then show "n = length (c # cs) \<and> (\<exists>t. s = (c # cs) @ t)" using Cons by auto
  next
    assume "n = length (c # cs) \<and> (\<exists>t. s = (c # cs) @ t)"
    then obtain t where "n = 1 + length cs" "s = c # (cs @ t)" by auto
    then show "matches (lit (c # cs)) p s n" using Cons[of "c # p" "cs @ t" "length cs"] by auto
  qed
qed simp

lemma matches_Opt [simp]: "matches (Opt r) p s n \<longleftrightarrow> matches r p s n \<or> n = 0"
  by (simp add: Opt_def)

lemma matches_Star_Cls: "matches (Star (Cls f)) p s n \<longleftrightarrow> n \<le> length s \<and> list_all f (take n s)"
proof (induction n arbitrary: p s)
  case 0
  then show ?case by (auto intro: matches.intros)
next
  case (Suc n)
  show ?case
  proof
    assume "matches (Star (Cls f)) p s (Suc n)"
    then show "Suc n \<le> length s \<and> list_all f (take (Suc n) s)" by (cases rule: matches_StarE) (auto simp: Suc)
  next
    assume a: "Suc n \<le> length s \<and> list_all f (take (Suc n) s)"
    then obtain c t where s: "s = c # t" by (cases s) auto
    then have "matches (Cls f) p s 1" "matches (Star (Cls f)) (rev (take 1 s) @ p) (drop 1 s) n" using a Suc by auto
    then show "matches (Star (Cls f)) p s (Suc n)" using matches.intros(7)[of "Cls f" p s 1 n] s by simp
  qed
qed

lemma matches_Plus_Cls: "matches (Plus (Cls f)) p s n \<longleftrightarrow> 0 < n \<and> n \<le> length s \<and> list_all f (take n s)"
proof -
  have "matches (Plus (Cls f)) p s n \<longleftrightarrow> (\<exists>c t m. s = c # t \<and> f c \<and> n = Suc m \<and> m \<le> length t \<and> list_all f (take m t))"
    by (auto simp: Plus_def matches_Star_Cls)
  also have "\<dots> \<longleftrightarrow> 0 < n \<and> n \<le> length s \<and> list_all f (take n s)" by (cases n; cases s) auto
  finally show ?thesis .
qed

lemma matches_times_Cls: "matches (times k (Cls f)) p s n \<longleftrightarrow> n = k \<and> k \<le> length s \<and> list_all f (take k s)"
proof (induction k arbitrary: p s n)
  case (Suc k)
  have "matches (times (Suc k) (Cls f)) p s n \<longleftrightarrow> (\<exists>c t. s = c # t \<and> f c \<and> n = Suc k \<and> k \<le> length t \<and> list_all f (take k t))"
    by (auto simp: Suc)
  then show ?case by (cases s) auto
qed auto

lemma matches_upto_Cls: "matches (upto_times k (Cls f)) p s n \<longleftrightarrow> n \<le> k \<and> n \<le> length s \<and> list_all f (take n s)"
proof (induction k arbitrary: p s n)
  case (Suc k)
  have "matches (upto_times (Suc k) (Cls f)) p s n \<longleftrightarrow> n = 0 \<or> (\<exists>c t m. s = c # t \<and> f c \<and> n = Suc m \<and> m \<le> k \<and> m \<le> length t \<and> list_all f (take m t))"
    by (auto simp: Suc)
  then show ?case by (cases n; cases s) auto
qed auto

lemma matches_between_Cls:
  assumes "m \<le> k"
  shows "matches (between m k (Cls f)) p s n \<longleftrightarrow> m \<le> n \<and> n \<le> k \<and> n \<le> length s \<and> list_all f (take n s)"
proof
  assume "matches (between m k (Cls f)) p s n"
  then obtain j where "n = m + j" "m \<le> length s" "list_all f (take m s)" "j \<le> k - m" "j \<le> length s - m" "list_all f (take j (drop m s))"
    by (auto simp: between_def matches_times_Cls matches_upto_Cls)
  then show "m \<le> n \<and> n \<le> k \<and> n \<le> length s \<and> list_all f (take n s)" using assms by (simp add: take_add) linarith
next
  assume a: "m \<le> n \<and> n \<le> k \<and> n \<le> length s \<and> list_all f (take n s)"
  then have "list_all f (take m s @ take (n - m) (drop m s))" by (metis le_add_diff_inverse take_add)
  then show "matches (between m k (Cls f)) p s n"
    using a unfolding between_def matches_simps(3) matches_times_Cls matches_upto_Cls
    by (intro exI[of _ m] exI[of _ "n - m"]) auto
qed

lemma matches_Seq_lit:
  "matches (Seq (lit w) r) p s n \<longleftrightarrow> (\<exists>t m. s = w @ t \<and> n = length w + m \<and> matches r (rev w @ p) t m)"
proof
  assume "matches (Seq (lit w) r) p s n"
  then show "\<exists>t m. s = w @ t \<and> n = length w + m \<and> matches r (rev w @ p) t m" by auto
next
  assume "\<exists>t m. s = w @ t \<and> n = length w + m \<and> matches r (rev w @ p) t m"
  then obtain t m where "s = w @ t" "n = length w + m" "matches r (rev w @ p) t m" by blast
  then show "matches (Seq (lit w) r) p s n" using matches.intros(3)[of "lit w" p s "length w" r m] by simp
qed

lemma matches_Seq_Opt: "matches (Seq (Opt a) r) p s n \<longleftrightarrow> matches (Seq a r) p s n \<or> matches r p s n"
proof
  assume "matches (Seq (Opt a) r) p s n"
  then obtain k m where "n = k + m" "matches a p s k \<or> k = 0" "matches r (rev (take k s) @ p) (drop k s) m" by auto
  then show "matches (Seq a r) p s n \<or> matches r p s n" by (auto intro: matches.intros(3))
next
  assume "matches (Seq a r) p s n \<or> matches r p s n"
  then show "matches (Seq (Opt a) r) p s n"
  proof
    assume "matches r p s n"
    then show ?thesis using matches.intros(3)[of "Opt a" p s 0 r n] by simp
  qed auto
qed

lemma some_match_lit: "(\<exists>n. matches (Seq (lit w) r) p s n) \<longleftrightarrow> (\<exists>t. s = w @ t \<and> (\<exists>m. matches r (rev w @ p) t m))"
  unfolding matches_Seq_lit by blast

lemma some_match_Opt: "(\<exists>n. matches (Seq (Opt a) r) p s n) \<longleftrightarrow> (\<exists>n. matches (Seq a r) p s n) \<or> (\<exists>n. matches r p s n)"
  unfolding matches_Seq_Opt by blast

end
