(* ===== verification/Patterns.thy ===== *)
theory Patterns
  imports Regex Service_Paste
begin

text \<open>
  Detection of patterns in the text of the clip: \<open>PatternDetection\<close> of
  \<open>services/core/src/pasteboard_pattern.cpp\<close> and the request \<open>DetectPatterns\<close>. The parser of HTML is a
  parameter (\<open>html\<close>): the text content of a document, or \<open>None\<close> when it has no root or no content.
\<close>

section \<open>The patterns\<close>

definition URL_PATTERN :: u32 where "URL_PATTERN = 0"
definition NUMBER_PATTERN :: u32 where "NUMBER_PATTERN = 1"
definition EMAIL_ADDRESS_PATTERN :: u32 where "EMAIL_ADDRESS_PATTERN = 2"
definition HTTP_URL_PATTERN :: u32 where "HTTP_URL_PATTERN = 3"
definition FLIGHT_NUMBER_PATTERN :: u32 where "FLIGHT_NUMBER_PATTERN = 4"
definition COUNT_PATTERN :: u32 where "COUNT_PATTERN = 5"

lemmas pattern_defs = URL_PATTERN_def NUMBER_PATTERN_def EMAIL_ADDRESS_PATTERN_def HTTP_URL_PATTERN_def FLIGHT_NUMBER_PATTERN_def COUNT_PATTERN_def

definition digits :: regex where "digits = Cls is_dec"
definition uppers :: regex where "uppers = Cls is_upper"

definition url_regex :: regex where
  "url_regex = Seq (Plus (alnum_or ''+.-'')) (Seq (lit ''://'') (Seq (Star (alnum_or ''-+&@#/%?=~_|!:,.;'')) (alnum_or ''-+&@#/%=~_'')))"

definition number_regex :: regex where
  "number_regex = Seq (Opt (one_of ''-+'')) (Seq (Star digits) (Seq (Opt (lit ''.'')) (Plus digits)))"

definition email_regex :: regex where
  "email_regex =
     Seq (Plus (alnum_or ''_-.%+'')) (Seq (lit ''@'') (Seq
       (Alt (Seq (Plus (alnum_or ''-'')) (Star (Seq (lit ''.'') (Plus (alnum_or ''-'')))))
            (Seq (lit ''['') (Seq (times 3 (Seq (between 1 3 digits) (lit ''.''))) (Seq (between 1 3 digits) (lit '']'')))))
       (Alt (Plus (Cls (\<lambda>c. is_lower c \<or> is_upper c))) (Alt (between 1 3 digits) (Seq (lit ''.'') (Plus (alnum_or ''-'')))))))"

definition http_regex :: regex where
  "http_regex = Seq (Alt Bol (Plus (Cls is_space))) (Seq (lit ''http'') (Seq (Opt (lit ''s'')) (Seq (lit ''://'') (Plus (Cls (\<lambda>c. \<not> is_space c))))))"

definition flight_regex :: regex where
  "flight_regex = Seq Wordb (Seq (Alt (times 2 uppers) (Seq digits uppers)) (Seq (between 3 4 digits) (Seq (Opt uppers) Wordb)))"

definition patterns_map :: "(u32 \<times> regex) list" where
  "patterns_map = [(URL_PATTERN, url_regex), (NUMBER_PATTERN, number_regex), (EMAIL_ADDRESS_PATTERN, email_regex),
     (HTTP_URL_PATTERN, http_regex), (FLIGHT_NUMBER_PATTERN, flight_regex)]"

definition MIN_HTTP_URL_LENGTH :: nat where "MIN_HTTP_URL_LENGTH = 7"
definition MIN_FLIGHT_NUMBER_LENGTH :: nat where "MIN_FLIGHT_NUMBER_LENGTH = 5"
definition MAX_FLIGHT_NUMBER_LENGTH :: nat where "MAX_FLIGHT_NUMBER_LENGTH = 7"

section \<open>Detection\<close>

definition IsValid_patterns :: "u32 list \<Rightarrow> bool" where
  "IsValid_patterns ps \<longleftrightarrow> list_all (\<lambda>p. p < COUNT_PATTERN) ps"

definition is_valid_match :: "u32 \<Rightarrow> string \<Rightarrow> bool" where
  "is_valid_match p matched =
     (if p = HTTP_URL_PATTERN then length matched \<ge> MIN_HTTP_URL_LENGTH
      else if p = FLIGHT_NUMBER_PATTERN then length matched \<ge> MIN_FLIGHT_NUMBER_LENGTH \<and> length matched \<le> MAX_FLIGHT_NUMBER_LENGTH
      else True)"

definition detect_one :: "string \<Rightarrow> u32 \<Rightarrow> u32 set \<Rightarrow> u32 set" where
  "detect_one plainText p patternsOut =
     (if p \<in> patternsOut then patternsOut
      else case map_of patterns_map p of
          None \<Rightarrow> patternsOut
        | Some r \<Rightarrow> (case regex_find r plainText of
            None \<Rightarrow> patternsOut
          | Some matched \<Rightarrow> if is_valid_match p matched then insert p patternsOut else patternsOut))"

text \<open>The set of requested patterns as the list of its elements in order.\<close>

definition DetectPlainText :: "u32 set \<Rightarrow> u32 list \<Rightarrow> string \<Rightarrow> u32 set" where
  "DetectPlainText patternsOut patternsIn plainText = fold (detect_one plainText) patternsIn patternsOut"

definition ExtractHtmlContent :: "(string \<Rightarrow> string option) \<Rightarrow> string \<Rightarrow> string" where
  "ExtractHtmlContent html s = (case html s of None \<Rightarrow> [] | Some c \<Rightarrow> c)"

definition detect_record :: "ext \<Rightarrow> (string \<Rightarrow> string option) \<Rightarrow> bool \<Rightarrow> bool \<Rightarrow> u32 list \<Rightarrow> PasteDataRecord \<Rightarrow> u32 set \<Rightarrow> u32 set run" where
  "detect_record E html hasHTML hasPlain patternsToCheck r existed = do {
     plain \<leftarrow> (if hasPlain then GetPlainTextV0 E r else Some None);
     let e1 = (case plain of None \<Rightarrow> existed | Some t \<Rightarrow> DetectPlainText existed patternsToCheck t);
     htm \<leftarrow> (if hasHTML then GetHtmlTextV0 E r else Some None);
     Some (case htm of None \<Rightarrow> e1 | Some h \<Rightarrow> DetectPlainText e1 patternsToCheck (ExtractHtmlContent html h))
   }"

fun Detect_loop :: "ext \<Rightarrow> (string \<Rightarrow> string option) \<Rightarrow> bool \<Rightarrow> bool \<Rightarrow> u32 list \<Rightarrow> PasteDataRecord option list \<Rightarrow> u32 set \<Rightarrow> u32 set run" where
  "Detect_loop E html hasHTML hasPlain ps [] existed = Some existed"
| "Detect_loop E html hasHTML hasPlain ps (p # rs) existed =
     (if set ps = existed then Some existed
      else do { r \<leftarrow> p; existed' \<leftarrow> detect_record E html hasHTML hasPlain ps r existed; Detect_loop E html hasHTML hasPlain ps rs existed' })"

definition Detect :: "ext \<Rightarrow> (string \<Rightarrow> string option) \<Rightarrow> u32 list \<Rightarrow> PasteData \<Rightarrow> bool \<Rightarrow> bool \<Rightarrow> u32 set run" where
  "Detect E html patternsToCheck d hasHTML hasPlain = Detect_loop E html hasHTML hasPlain patternsToCheck (pd_records d) {}"

section \<open>The request\<close>

definition DetectPatterns :: "svc_env \<Rightarrow> (string \<Rightarrow> string option) \<Rightarrow> caller \<Rightarrow> u32 list \<Rightarrow> u32 list \<Rightarrow> service \<Rightarrow> (i32 \<times> u32 list) run" where
  "DetectPatterns V html c patternsToCheck funcResult s =
     (let tokenId = c_tokenId c; userId = ai_userId (GetAppInfo V tokenId) in
      if userId = ERROR_USERID then Some (INVALID_USERID_ERROR, funcResult)
      else do {
        hasPlain \<leftarrow> HasLocalDataType MIMETYPE_TEXT_PLAIN tokenId userId s;
        hasHTML \<leftarrow> HasLocalDataType MIMETYPE_TEXT_HTML tokenId userId s;
        if \<not> hasHTML \<and> \<not> hasPlain then Some (NO_DATA_ERROR, [])
        else case map_of (clips s) userId of
            None \<Rightarrow> Some (NO_DATA_ERROR, [])
          | Some d \<Rightarrow> do {
              result \<leftarrow> Detect (sv_ext V) html (sorted_list_of_set (set patternsToCheck)) d hasHTML hasPlain;
              Some (ERR_OK, sorted_list_of_set result)
            }
      })"

end
