(* ===== verification/Patterns_Spec.thy ===== *)
theory Patterns_Spec
  imports Patterns Service_Safety
begin

text \<open>
  What is detected: a pattern is reported exactly if the text of some record contains a match of it, and
  for three of the patterns what a match is can be said without the expression.
\<close>

section \<open>A pattern in a text\<close>

definition text_has :: "string \<Rightarrow> u32 \<Rightarrow> bool" where
  "text_has t p \<longleftrightarrow> (\<exists>r a b n. map_of patterns_map p = Some r \<and> t = a @ b \<and> matches r (rev a) b n)"

lemma http_match: "matches http_regex p s n \<Longrightarrow> MIN_HTTP_URL_LENGTH \<le> n"
  by (auto simp: http_regex_def matches_Plus_Cls MIN_HTTP_URL_LENGTH_def)

lemma flight_match: "matches flight_regex p s n \<Longrightarrow> MIN_FLIGHT_NUMBER_LENGTH \<le> n \<and> n \<le> MAX_FLIGHT_NUMBER_LENGTH"
  by (auto simp: flight_regex_def digits_def uppers_def matches_between_Cls matches_times_Cls
      MIN_FLIGHT_NUMBER_LENGTH_def MAX_FLIGHT_NUMBER_LENGTH_def)

text \<open>The test of the length never rejects the match that is found.\<close>

lemma valid_match:
  assumes "map_of patterns_map p = Some r" "regex_find r t = Some m"
  shows "is_valid_match p m"
proof -
  obtain a b where m: "matches r (rev a) (m @ b) (length m)" using regex_find_Some[OF assms(2)] by blast
  show ?thesis
  proof (cases "p = HTTP_URL_PATTERN \<or> p = FLIGHT_NUMBER_PATTERN")
    case True
    then have "p = HTTP_URL_PATTERN \<and> r = http_regex \<or> p = FLIGHT_NUMBER_PATTERN \<and> r = flight_regex"
      using assms(1) by (auto simp: patterns_map_def pattern_defs)
    then show ?thesis using m http_match flight_match by (auto simp: is_valid_match_def pattern_defs)
  qed (simp add: is_valid_match_def)
qed

lemma detect_one_eq: "detect_one t p out = (if text_has t p then insert p out else out)"
proof (cases "map_of patterns_map p")
  case (Some r)
  then have "text_has t p \<longleftrightarrow> regex_find r t \<noteq> None" unfolding regex_find_iff text_has_def by auto
  then show ?thesis using Some valid_match[OF Some, of t] by (auto simp: detect_one_def insert_absorb split: option.splits)
qed (simp add: detect_one_def text_has_def)

lemma DetectPlainText_eq: "DetectPlainText out ps t = out \<union> {p \<in> set ps. text_has t p}"
  unfolding DetectPlainText_def by (induction ps arbitrary: out) (auto simp: detect_one_eq)

section \<open>The texts of the clip\<close>

definition record_texts :: "ext \<Rightarrow> (string \<Rightarrow> string option) \<Rightarrow> bool \<Rightarrow> bool \<Rightarrow> PasteDataRecord \<Rightarrow> string set" where
  "record_texts E html hasHTML hasPlain r =
     {t. hasPlain \<and> GetPlainTextV0 E r = Some (Some t)} \<union>
     {t. \<exists>h. hasHTML \<and> GetHtmlTextV0 E r = Some (Some h) \<and> t = ExtractHtmlContent html h}"

definition found_in :: "ext \<Rightarrow> (string \<Rightarrow> string option) \<Rightarrow> bool \<Rightarrow> bool \<Rightarrow> PasteDataRecord list \<Rightarrow> u32 \<Rightarrow> bool" where
  "found_in E html hasHTML hasPlain rs p \<longleftrightarrow> (\<exists>r \<in> set rs. \<exists>t \<in> record_texts E html hasHTML hasPlain r. text_has t p)"

lemma detect_record_eq:
  assumes "no_null_objects r"
  shows "detect_record E html hasHTML hasPlain ps r ex = Some (ex \<union> {p \<in> set ps. \<exists>t \<in> record_texts E html hasHTML hasPlain r. text_has t p})"
proof -
  obtain u h where g: "GetPlainTextV0 E r = Some u" "GetHtmlTextV0 E r = Some h" using getters_defined[OF assms, of E] by fastforce
  show ?thesis
    by (cases u; cases h; cases hasHTML; cases hasPlain) (auto simp: detect_record_def record_texts_def g DetectPlainText_eq)
qed

lemma Detect_loop_eq:
  assumes "\<forall>p \<in> set rs. \<exists>r. p = Some r \<and> no_null_objects r" "ex \<subseteq> set ps"
  shows "Detect_loop E html hasHTML hasPlain ps rs ex = Some (ex \<union> {p \<in> set ps. found_in E html hasHTML hasPlain (somes rs) p})"
  using assms
proof (induction rs arbitrary: ex)
  case (Cons q rs)
  then obtain r where r: "q = Some r" "no_null_objects r" by auto
  show ?case
  proof (cases "set ps = ex")
    case True
    then show ?thesis by auto
  next
    case False
    then show ?thesis using Cons.IH[of "ex \<union> {p \<in> set ps. \<exists>t \<in> record_texts E html hasHTML hasPlain r. text_has t p}"] Cons.prems
      by (auto simp: r detect_record_eq[OF r(2)] found_in_def)
  qed
qed (simp add: found_in_def)

section \<open>What the patterns mean\<close>

lemma list_all_takeI: "list_all f s \<Longrightarrow> list_all f (take n s)"
  by (auto simp: list_all_iff dest: in_set_takeD)

lemma number_iff: "text_has t NUMBER_PATTERN \<longleftrightarrow> (\<exists>c \<in> set t. is_dec c)"
proof
  assume "text_has t NUMBER_PATTERN"
  then obtain a b n where t: "t = a @ b" and m: "matches number_regex (rev a) b n" by (auto simp: text_has_def patterns_map_def pattern_defs)
  from m obtain k j s where k: "0 < k" "list_all is_dec (take k s)" "k \<le> length s" and d: "s = drop j b"
    unfolding number_regex_def matches_simps(3) digits_def matches_Plus_Cls drop_drop by blast
  from k obtain x xs where s: "s = x # xs" by (cases s) auto
  then have x: "is_dec x" using k by (cases k) auto
  have "x \<in> set b" using in_set_dropD[of x j b] s d by simp
  then show "\<exists>c \<in> set t. is_dec c" using t x by auto
next
  assume "\<exists>c \<in> set t. is_dec c"
  then obtain a c b where t: "t = a @ c # b" "is_dec c" by (metis split_list)
  have z: "matches (Star digits) (rev a) (c # b) 0" by (rule matches.intros(6))
  have "matches number_regex (rev a) (c # b) (0 + (0 + (0 + 1)))"
    unfolding number_regex_def by (intro matches.intros(3)) (use z t(2) in \<open>auto simp: digits_def matches_Plus_Cls\<close>)
  then show "text_has t NUMBER_PATTERN" using t(1) unfolding text_has_def by (auto simp: patterns_map_def pattern_defs)
qed

definition http_tail :: "string \<Rightarrow> bool" where
  "http_tail s \<longleftrightarrow> (\<exists>c b. (s = ''http://'' @ c # b \<or> s = ''https://'' @ c # b) \<and> \<not> is_space c)"

lemma http_tail_iff:
  "(\<exists>n. matches (Seq (lit ''http'') (Seq (Opt (lit ''s'')) (Seq (lit ''://'') (Plus (Cls (\<lambda>c. \<not> is_space c)))))) p s n) \<longleftrightarrow> http_tail s"
    (is "(\<exists>n. matches ?r p s n) \<longleftrightarrow> _")
proof -
  have c: "(\<exists>m. matches (Plus (Cls (\<lambda>c. \<not> is_space c))) q t m) \<longleftrightarrow> (\<exists>c b. t = c # b \<and> \<not> is_space c)" for q t
  proof
    assume "\<exists>m. matches (Plus (Cls (\<lambda>c. \<not> is_space c))) q t m"
    then obtain m where m: "0 < m" "m \<le> length t" "list_all (\<lambda>c. \<not> is_space c) (take m t)" unfolding matches_Plus_Cls by blast
    then show "\<exists>c b. t = c # b \<and> \<not> is_space c" by (cases t; cases m) auto
  next
    assume "\<exists>c b. t = c # b \<and> \<not> is_space c"
    then show "\<exists>m. matches (Plus (Cls (\<lambda>c. \<not> is_space c))) q t m" unfolding matches_Plus_Cls by (intro exI[of _ 1]) auto
  qed
  have "(\<exists>n. matches ?r p s n) \<longleftrightarrow> (\<exists>t. s = ''http'' @ ''s'' @ ''://'' @ t \<and> (\<exists>c b. t = c # b \<and> \<not> is_space c)) \<or>
      (\<exists>t. s = ''http'' @ ''://'' @ t \<and> (\<exists>c b. t = c # b \<and> \<not> is_space c))"
    unfolding some_match_lit[where w = "''http''"] some_match_Opt some_match_lit[where w = "''s''"] some_match_lit[where w = "''://''"] c by auto
  also have "\<dots> \<longleftrightarrow> http_tail s" unfolding http_tail_def by auto
  finally show ?thesis .
qed

lemma http_iff:
  "text_has t HTTP_URL_PATTERN \<longleftrightarrow> (\<exists>a s. t = a @ s \<and> http_tail s \<and> (a = [] \<or> is_space (last a)))"
proof
  let ?r = "Seq (lit ''http'') (Seq (Opt (lit ''s'')) (Seq (lit ''://'') (Plus (Cls (\<lambda>c. \<not> is_space c)))))"
  assume "text_has t HTTP_URL_PATTERN"
  then obtain x y n where t: "t = x @ y" and m: "matches http_regex (rev x) y n" by (auto simp: text_has_def patterns_map_def pattern_defs)
  from m obtain k j where k: "matches (Alt Bol (Plus (Cls is_space))) (rev x) y k" "matches ?r (rev (take k y) @ rev x) (drop k y) j"
    unfolding http_regex_def matches_simps(3) by blast
  have h: "http_tail (drop k y)" using k(2) http_tail_iff by blast
  have "x @ take k y = [] \<or> is_space (last (x @ take k y))"
  proof -
    have "x = [] \<and> k = 0 \<or> 0 < k \<and> k \<le> length y \<and> list_all is_space (take k y)" using k(1) by (simp add: matches_Plus_Cls)
    then show ?thesis
    proof
      assume k: "0 < k \<and> k \<le> length y \<and> list_all is_space (take k y)"
      then have "take k y \<noteq> []" by auto
      then show ?thesis using k by (simp add: list_all_iff last_in_set)
    qed simp
  qed
  then show "\<exists>a s. t = a @ s \<and> http_tail s \<and> (a = [] \<or> is_space (last a))"
    using t h by (intro exI[of _ "x @ take k y"] exI[of _ "drop k y"]) simp
next
  let ?r = "Seq (lit ''http'') (Seq (Opt (lit ''s'')) (Seq (lit ''://'') (Plus (Cls (\<lambda>c. \<not> is_space c)))))"
  assume "\<exists>a s. t = a @ s \<and> http_tail s \<and> (a = [] \<or> is_space (last a))"
  then obtain a s where t: "t = a @ s" "http_tail s" and sp: "a = [] \<or> is_space (last a)" by blast
  obtain j where j: "matches ?r (rev a) s j" using t(2) http_tail_iff by blast
  have "\<exists>x y n. t = x @ y \<and> matches http_regex (rev x) y n"
  proof (cases "a = []")
    case True
    then have "matches http_regex (rev []) s (0 + j)" unfolding http_regex_def using j by (intro matches.intros(3)) auto
    then show ?thesis using t True by (intro exI[of _ "[]"] exI[of _ s]) auto
  next
    case False
    define x where "x = butlast a"
    have a: "a = x @ [last a]" using False by (simp add: x_def)
    have e: "rev (take 1 (last a # s)) @ rev x = rev a" "drop 1 (last a # s) = s" by (subst (2) a) simp_all
    have "matches (Alt Bol (Plus (Cls is_space))) (rev x) (last a # s) 1" using sp False by (simp add: matches_Plus_Cls)
    then have "matches http_regex (rev x) (last a # s) (1 + j)" unfolding http_regex_def
      by (rule matches.intros(3)) (unfold e, rule j)
    then show ?thesis using t a by (metis append.assoc append_Cons append_Nil)
  qed
  then show "text_has t HTTP_URL_PATTERN" unfolding text_has_def by (simp add: patterns_map_def pattern_defs)
qed

definition is_flight :: "string \<Rightarrow> bool" where
  "is_flight m \<longleftrightarrow> (\<exists>x y ds z. m = x # y # ds @ z \<and> (is_upper x \<or> is_dec x) \<and> is_upper y \<and> length ds \<in> {3, 4} \<and> list_all is_dec ds \<and>
     (z = [] \<or> (\<exists>c. z = [c] \<and> is_upper c)))"

lemma flight_code: "matches (Alt (times 2 uppers) (Seq digits uppers)) p s n \<longleftrightarrow>
    n = 2 \<and> (\<exists>x y u. s = x # y # u \<and> (is_upper x \<or> is_dec x) \<and> is_upper y)"
  by (auto simp: uppers_def digits_def numeral_2_eq_2)

lemma flight_upper: "matches (Seq (Opt uppers) Wordb) p s n \<longleftrightarrow>
    (\<exists>z b. s = z @ b \<and> n = length z \<and> (z = [] \<or> (\<exists>c. z = [c] \<and> is_upper c)) \<and> boundary (rev z @ p) b)"
proof
  assume "matches (Seq (Opt uppers) Wordb) p s n"
  then show "\<exists>z b. s = z @ b \<and> n = length z \<and> (z = [] \<or> (\<exists>c. z = [c] \<and> is_upper c)) \<and> boundary (rev z @ p) b"
    unfolding matches_Seq_Opt
  proof
    assume "matches (Seq uppers Wordb) p s n"
    then obtain c u where "s = c # u" "is_upper c" "n = 1" "boundary (c # p) u" by (auto simp: uppers_def)
    then show ?thesis by (intro exI[of _ "[c]"] exI[of _ u]) simp
  qed simp
next
  assume "\<exists>z b. s = z @ b \<and> n = length z \<and> (z = [] \<or> (\<exists>c. z = [c] \<and> is_upper c)) \<and> boundary (rev z @ p) b"
  then show "matches (Seq (Opt uppers) Wordb) p s n" unfolding matches_Seq_Opt by (auto simp: uppers_def)
qed

lemma words: "is_upper c \<Longrightarrow> is_word c" "is_dec c \<Longrightarrow> is_word c" by (simp_all add: is_word_def is_alnum_def)

lemma is_flight_ends: "is_flight m \<Longrightarrow> m \<noteq> [] \<and> is_word (hd m) \<and> is_word (last m)"
proof -
  assume "is_flight m"
  then obtain x y ds z where m: "m = x # y # ds @ z" "is_upper x \<or> is_dec x" "length ds \<in> {3, 4}" "list_all is_dec ds" "z = [] \<or> (\<exists>c. z = [c] \<and> is_upper c)"
    by (auto simp: is_flight_def)
  have "ds \<noteq> []" using m(3) by auto
  then have "is_dec (last ds)" using m(4) by (simp add: list_all_iff)
  then show ?thesis using m \<open>ds \<noteq> []\<close> by (auto intro: words)
qed

lemma matches_flight: "matches flight_regex p s n \<longleftrightarrow>
    (\<exists>m b. s = m @ b \<and> n = length m \<and> is_flight m \<and> boundary p s \<and> boundary (rev m @ p) b)"
proof
  assume "matches flight_regex p s n"
  then obtain m where b: "boundary p s" and m: "matches (Seq (Alt (times 2 uppers) (Seq digits uppers)) (Seq (between 3 4 digits) (Seq (Opt uppers) Wordb))) p s m" "n = m"
    unfolding flight_regex_def matches_simps(3)[of Wordb] matches_simps(6) by fastforce
  from m obtain i where c: "\<exists>x y u. s = x # y # u \<and> (is_upper x \<or> is_dec x) \<and> is_upper y"
    and i: "matches (Seq (between 3 4 digits) (Seq (Opt uppers) Wordb)) (rev (take 2 s) @ p) (drop 2 s) i" "n = 2 + i"
    unfolding matches_simps(3)[of "Alt (times 2 uppers) (Seq digits uppers)"] flight_code by blast
  from i obtain k j where k: "matches (between 3 4 digits) (rev (take 2 s) @ p) (drop 2 s) k"
    and j: "matches (Seq (Opt uppers) Wordb) (rev (take k (drop 2 s)) @ rev (take 2 s) @ p) (drop k (drop 2 s)) j" and n: "n = 2 + (k + j)"
    unfolding matches_simps(3)[of "between 3 4 digits"] by blast
  obtain x y u where s: "s = x # y # u" "is_upper x \<or> is_dec x" "is_upper y" using c by blast
  obtain z e where z: "drop k u = z @ e" "j = length z" "z = [] \<or> (\<exists>c. z = [c] \<and> is_upper c)" "boundary (rev z @ rev (take k u) @ y # x # p) e"
    using j[unfolded flight_upper] s(1) by auto
  have d: "3 \<le> k" "k \<le> 4" "k \<le> length u" "list_all is_dec (take k u)" using k s by (auto simp: digits_def matches_between_Cls)
  have l: "length (take k u) \<in> {3, 4}" using d by auto
  have "is_flight (x # y # take k u @ z)" unfolding is_flight_def using s(2,3) l d(4) z(3) by blast
  moreover have "s = (x # y # take k u @ z) @ e" using s(1) z(1) by (metis append_Cons append_assoc append_take_drop_id)
  moreover have "n = length (x # y # take k u @ z)" using n z(2) d(3) by simp
  moreover have "boundary (rev (x # y # take k u @ z) @ p) e" using z(4) by simp
  ultimately show "\<exists>m b. s = m @ b \<and> n = length m \<and> is_flight m \<and> boundary p s \<and> boundary (rev m @ p) b" using b by blast
next
  assume "\<exists>m b. s = m @ b \<and> n = length m \<and> is_flight m \<and> boundary p s \<and> boundary (rev m @ p) b"
  then obtain m b where mb: "s = m @ b" "n = length m" "is_flight m" "boundary p s" "boundary (rev m @ p) b" by blast
  from mb(3) obtain x y ds z where w: "m = x # y # ds @ z" and m: "is_upper x \<or> is_dec x" "is_upper y" "length ds \<in> {3, 4}" "list_all is_dec ds"
    "z = [] \<or> (\<exists>c. z = [c] \<and> is_upper c)" unfolding is_flight_def by blast
  have s: "s = x # y # ds @ z @ b" and n: "n = 0 + (2 + (length ds + length z))" and b: "boundary p s" "boundary (rev z @ rev ds @ y # x # p) b"
    using mb w by simp_all
  have 1: "matches (Seq (Opt uppers) Wordb) (rev ds @ y # x # p) (z @ b) (length z)" unfolding flight_upper using m(5) b(2) by auto
  have 2: "matches (Seq (between 3 4 digits) (Seq (Opt uppers) Wordb)) (y # x # p) (ds @ z @ b) (length ds + length z)"
    by (rule matches.intros(3)) (use 1 m(3,4) in \<open>auto simp: digits_def matches_between_Cls\<close>)
  have 3: "matches (Seq (Alt (times 2 uppers) (Seq digits uppers)) (Seq (between 3 4 digits) (Seq (Opt uppers) Wordb))) p s (2 + (length ds + length z))"
  proof (rule matches.intros(3))
    show "matches (Alt (times 2 uppers) (Seq digits uppers)) p s 2" unfolding flight_code using s m(1,2) by blast
    have "rev (take 2 s) @ p = y # x # p" "drop 2 s = ds @ z @ b" using s by simp_all
    then show "matches (Seq (between 3 4 digits) (Seq (Opt uppers) Wordb)) (rev (take 2 s) @ p) (drop 2 s) (length ds + length z)" using 2 by (simp only:)
  qed
  have "matches Wordb p s 0" using b(1) by simp
  then show "matches flight_regex p s n" unfolding flight_regex_def n by (rule matches.intros(3)) (unfold take_0 drop_0 rev.simps append_Nil, rule 3)
qed

lemma flight_iff:
  "text_has t FLIGHT_NUMBER_PATTERN \<longleftrightarrow> (\<exists>a m b. t = a @ m @ b \<and> is_flight m \<and> (a = [] \<or> \<not> is_word (last a)) \<and> (b = [] \<or> \<not> is_word (hd b)))"
proof -
  have e: "boundary (rev a) (m @ b) \<and> boundary (rev m @ rev a) b \<longleftrightarrow> (a = [] \<or> \<not> is_word (last a)) \<and> (b = [] \<or> \<not> is_word (hd b))" if "is_flight m" for a m b
    using is_flight_ends[OF that] by (auto simp: boundary_def hd_rev)
  have "text_has t FLIGHT_NUMBER_PATTERN \<longleftrightarrow> (\<exists>a s n. t = a @ s \<and> matches flight_regex (rev a) s n)"
    by (simp add: text_has_def patterns_map_def pattern_defs)
  also have "\<dots> \<longleftrightarrow> (\<exists>a m b. t = a @ m @ b \<and> is_flight m \<and> boundary (rev a) (m @ b) \<and> boundary (rev m @ rev a) b)"
    unfolding matches_flight by blast
  finally show ?thesis using e by blast
qed

section \<open>The request\<close>

text \<open>C28: Detection is exact. A request for patterns returns, in order, those of the requested patterns that occur in
  the text of some record the caller may read, plain text or the content of HTML, no matter how early the loops stop;
  a number occurs where there is a digit, a web address where \<open>http://\<close> or \<open>https://\<close> begins the text or follows white
  space and is followed by something else, and a flight number where two letters, or a digit and a letter, three or
  four digits and at most one letter stand as a word.\<close>

theorem patterns_detected:
  assumes user: "u = ai_userId (GetAppInfo V (c_tokenId c))" "u \<noteq> ERROR_USERID"
    and clip: "map_of (clips s) u = Some d" "data_ok d"
    and types: "HasLocalDataType MIMETYPE_TEXT_PLAIN (c_tokenId c) u s = Some hasPlain"
      "HasLocalDataType MIMETYPE_TEXT_HTML (c_tokenId c) u s = Some hasHTML" "hasPlain \<or> hasHTML"
  shows "DetectPatterns V html c ps old s = Some (ERR_OK,
      sorted_list_of_set {p \<in> set ps. \<exists>r \<in> set (somes (pd_records d)). \<exists>t \<in> record_texts (sv_ext V) html hasHTML hasPlain r. text_has t p}) \<and>
    (text_has t NUMBER_PATTERN \<longleftrightarrow> (\<exists>x \<in> set t. is_dec x)) \<and>
    (text_has t HTTP_URL_PATTERN \<longleftrightarrow> (\<exists>a s. t = a @ s \<and> http_tail s \<and> (a = [] \<or> is_space (last a)))) \<and>
    (text_has t FLIGHT_NUMBER_PATTERN \<longleftrightarrow>
      (\<exists>a m b. t = a @ m @ b \<and> is_flight m \<and> (a = [] \<or> \<not> is_word (last a)) \<and> (b = [] \<or> \<not> is_word (hd b))))"
proof (intro conjI number_iff http_iff flight_iff)
  have "Detect_loop (sv_ext V) html hasHTML hasPlain (sorted_list_of_set (set ps)) (pd_records d) {} =
      Some {p \<in> set ps. found_in (sv_ext V) html hasHTML hasPlain (somes (pd_records d)) p}"
    using Detect_loop_eq[of "pd_records d" "{}" "sorted_list_of_set (set ps)"] clip(2) by (simp add: data_ok_def)
  then show "DetectPatterns V html c ps old s = Some (ERR_OK,
      sorted_list_of_set {p \<in> set ps. \<exists>r \<in> set (somes (pd_records d)). \<exists>t \<in> record_texts (sv_ext V) html hasHTML hasPlain r. text_has t p})"
    using user clip(1) types by (auto simp: DetectPatterns_def Detect_def found_in_def Let_def)
qed

definition sample_text :: PasteData where
  "sample_text = (new_data sample_params 0)\<lparr>pd_records := [Some ((empty_record sample_ext)\<lparr>rec_recordId := 1, rec_mimeType := MIMETYPE_TEXT_PLAIN,
     rec_plainText := Some ''CA981 lands''\<rparr>)]\<rparr>"

lemma sample_flight: "text_has ''CA981 lands'' FLIGHT_NUMBER_PATTERN"
proof -
  have "''CA981 lands'' = [] @ ''CA981'' @ '' lands''" by simp
  moreover have "is_flight ''CA981''" unfolding is_flight_def
    by (rule exI[of _ "CHR ''C''"], rule exI[of _ "CHR ''A''"], rule exI[of _ "''981''"], rule exI[of _ "[]"])
      (simp add: is_upper_def is_dec_def char_between_def)
  moreover have "\<not> is_word (hd '' lands'')" by (simp add: is_word_def is_alnum_def is_upper_def is_lower_def is_dec_def char_between_def)
  ultimately show ?thesis unfolding flight_iff by blast
qed

theorem patterns_detected_witness:
  "DetectPatterns sample_env (\<lambda>_. None) \<lparr>c_uid = 1, c_pid = 1, c_tokenId = 7, c_fullTokenId = 7, c_userId = 100, c_manageShare = False\<rparr> [FLIGHT_NUMBER_PATTERN] []
     (init_state\<lparr>clips := [(100, sample_text)], copyTime := [(100, 1)]\<rparr>) = Some (ERR_OK, [FLIGHT_NUMBER_PATTERN])"
proof -
  let ?s = "init_state\<lparr>clips := [(100, sample_text)], copyTime := [(100, 1)]\<rparr>"
  let ?c = "\<lparr>c_uid = 1, c_pid = 1, c_tokenId = 7, c_fullTokenId = 7, c_userId = 100, c_manageShare = False\<rparr>"
  have u: "100 = ai_userId (GetAppInfo sample_env (c_tokenId ?c))" "(100 :: i32) \<noteq> ERROR_USERID"
    by (simp_all add: GetAppInfo_def FillHapAppInfo_def sample_env_def Let_def new_AppInfo_def ERROR_USERID_def)
  have c: "map_of (clips ?s) 100 = Some sample_text" "data_ok sample_text"
    by (simp_all add: data_ok_def sample_text_def no_null_objects_def empty_record_def)
  have v: "IsDataValid sample_text 7 100 ?s = E_OK" "\<not> sint (GetScreenStatus 100 ?s) < sint (prop_screenStatus (pd_props sample_text))"
    by (simp_all add: IsDataValid_def sample_text_def new_data_def new_props_def IsDataAged_def CM_Find_def ERROR_USERID_def
        GetScreenStatus_def init_state_def InApp_def LocalDevice_def CrossDevice_def Let_def)
  have "GetMimeTypes sample_text = Some [MIMETYPE_TEXT_PLAIN]"
    by (simp add: GetMimeTypes_def sample_text_def secondary_def empty_record_def GetMimeTypes_record_def mime_defs)
  then have t: "HasLocalDataType MIMETYPE_TEXT_PLAIN (c_tokenId ?c) 100 ?s = Some True" "HasLocalDataType MIMETYPE_TEXT_HTML (c_tokenId ?c) 100 ?s = Some False"
    using v c(1) by (simp_all add: HasLocalDataType_def) (simp add: mime_defs)
  have "{p \<in> set [FLIGHT_NUMBER_PATTERN]. \<exists>r \<in> set (somes (pd_records sample_text)). \<exists>t \<in> record_texts sample_ext (\<lambda>_. None) False True r. text_has t p} =
      {FLIGHT_NUMBER_PATTERN}"
    using sample_flight by (auto simp: record_texts_def sample_text_def GetPlainTextV0_def entry_with_mime_def empty_record_def)
  then show ?thesis using patterns_detected[OF u c t, of "\<lambda>_. None" "[FLIGHT_NUMBER_PATTERN]" "[]"] by (simp add: sample_env_def)
qed

end
