(* ===== verification/Entity_Observers.thy ===== *)
theory Entity_Observers
  imports Record_Value
begin

text \<open>
  Entity recognition in \<open>services/core/src/pasteboard_service.cpp\<close>: processes subscribe to entities found in copied
  text, the text of a copy is collected, with the delayed values it needs, and handed to the recognition library, and
  what the library finds is sent to the subscribers that may read the pasteboard. The library and the JSON parser
  are parameters (\<open>entity_env\<close>). A copy that is to be recognized is the output \<open>Recognized\<close> of the copy request. The entries of a record
  are shared with the clip, so the values fetched here are written to the clip as well (\<open>set_slot\<close>).
\<close>

section \<open>State\<close>

definition ADDRESS :: u32 where "ADDRESS = 0"
definition MAX_ENTITY_TYPE :: u32 where "MAX_ENTITY_TYPE = 1"
definition MAX_RECOGNITION_LENGTH :: u32 where "MAX_RECOGNITION_LENGTH = 1000"
definition MAX_ENTITY_OBSERVER_COUNT :: nat where "MAX_ENTITY_OBSERVER_COUNT = 10"

record EntityObserverInfo =
  eo_entityType :: u32
  eo_expectedDataLength :: u32
  eo_tokenId :: u32
  eo_observer :: nat

type_synonym entity_map = "(i32, EntityObserverInfo list) entries"

datatype json =
    JNull
  | JNumber int
  | JString string
  | JArray "json list"
  | JObject "(string \<times> json) list"

record entity_env =
  json_parse :: "string \<Rightarrow> json option" \<comment> \<open>\<open>None\<close> where \<open>json::accept\<close> is false\<close>
  json_dump :: "json \<Rightarrow> string"
  to_int :: "int \<Rightarrow> i32" \<comment> \<open>\<open>get<int>\<close> of a number\<close>
  Process :: "(string \<Rightarrow> i32 \<times> string) option" \<comment> \<open>the library, \<open>None\<close> when it cannot be loaded\<close>

section \<open>Subscription\<close>

definition same_subscription :: "u32 \<Rightarrow> u32 \<Rightarrow> EntityObserverInfo \<Rightarrow> bool" where
  "same_subscription entityType len q \<longleftrightarrow> eo_entityType q = entityType \<and> eo_expectedDataLength q = len"

definition subscribe_list :: "u32 \<Rightarrow> u32 \<Rightarrow> u32 \<Rightarrow> nat \<Rightarrow> EntityObserverInfo list \<Rightarrow> bool \<times> EntityObserverInfo list" where
  "subscribe_list entityType len tokenId observer os =
     (case split_first (same_subscription entityType len) os of
        Some (pre, q, post) \<Rightarrow> (False, pre @ q\<lparr>eo_tokenId := tokenId, eo_observer := observer\<rparr> # post)
      | None \<Rightarrow>
          if length os \<ge> MAX_ENTITY_OBSERVER_COUNT then (True, os)
          else (False, os @ [\<lparr>eo_entityType = entityType, eo_expectedDataLength = len, eo_tokenId = tokenId, eo_observer = observer\<rparr>]))"

definition SubscribeEntityObserver :: "svc_env \<Rightarrow> caller \<Rightarrow> u32 \<Rightarrow> u32 \<Rightarrow> nat option \<Rightarrow> entity_map \<Rightarrow> i32 \<times> entity_map" where
  "SubscribeEntityObserver V c entityType len observer m =
     (if \<not> entityType < MAX_ENTITY_TYPE then (INVALID_PARAM_ERROR, m)
      else case observer of
          None \<Rightarrow> (INVALID_PARAM_ERROR, m)
        | Some obs \<Rightarrow>
            if \<not> len \<le> MAX_RECOGNITION_LENGTH then (INVALID_PARAM_ERROR, m)
            else if \<not> VerifyPermission V (c_tokenId c) then (PERMISSION_VERIFICATION_ERROR, m)
            else case CM_Compute [] (c_pid c) (Some (\<lambda>_ os (_ :: bool).
                     case subscribe_list entityType len (c_tokenId c) obs os of (overLimit, os') \<Rightarrow> (True, os', overLimit))) m False of
                (_, m', overLimit) \<Rightarrow> (if overLimit then EXCEEDING_LIMIT_EXCEPTION else ERR_OK, m'))"

definition unsubscribe_list :: "u32 \<Rightarrow> u32 \<Rightarrow> EntityObserverInfo list \<Rightarrow> bool \<times> EntityObserverInfo list" where
  "unsubscribe_list entityType len os =
     (case split_first (same_subscription entityType len) os of
        None \<Rightarrow> (True, os)
      | Some (pre, _, post) \<Rightarrow> (pre @ post \<noteq> [], pre @ post))"

definition UnsubscribeEntityObserver :: "caller \<Rightarrow> u32 \<Rightarrow> u32 \<Rightarrow> nat option \<Rightarrow> entity_map \<Rightarrow> i32 \<times> entity_map" where
  "UnsubscribeEntityObserver c entityType len observer m =
     (if \<not> entityType < MAX_ENTITY_TYPE \<or> observer = None \<or> \<not> len \<le> MAX_RECOGNITION_LENGTH then (INVALID_PARAM_ERROR, m)
      else (ERR_OK, fst (snd (CM_ComputeIfPresent (c_pid c) (Some (\<lambda>_ os (u :: unit).
        case unsubscribe_list entityType len os of (keep, os') \<Rightarrow> (keep, os', u))) m ()))))"

definition UnsubscribeAllEntityObserver :: "entity_map \<Rightarrow> entity_map" where
  "UnsubscribeAllEntityObserver m = CM_Clear m"

definition exit_entity :: "i32 \<Rightarrow> entity_map \<Rightarrow> entity_map" where
  "exit_entity pid m = snd (CM_Erase pid m)"

section \<open>Notification\<close>

text \<open>The calls of \<open>OnRecognitionEvent\<close>: observer, type and entity.\<close>

definition wants :: "svc_env \<Rightarrow> u32 \<Rightarrow> u32 \<Rightarrow> EntityObserverInfo \<Rightarrow> bool" where
  "wants V entityType dataLength q \<longleftrightarrow>
     entityType = eo_entityType q \<and> dataLength \<le> eo_expectedDataLength q \<and> VerifyPermission V (eo_tokenId q)"

definition NotifyEntityObservers :: "svc_env \<Rightarrow> string \<Rightarrow> u32 \<Rightarrow> u32 \<Rightarrow> entity_map \<Rightarrow> (nat \<times> u32 \<times> string) list" where
  "NotifyEntityObservers V entity entityType dataLength m =
     snd (CM_ForEach (Some (\<lambda>_ os calls. (False, os,
       calls @ map (\<lambda>q. (eo_observer q, entityType, entity)) (filter (wants V entityType dataLength) os)))) m [])"

section \<open>The text of a copy\<close>

definition set_slot :: "i32 \<Rightarrow> u32 \<Rightarrow> u32 \<Rightarrow> nat \<Rightarrow> PasteDataEntry \<Rightarrow> pasteboard \<Rightarrow> pasteboard" where
  "set_slot userId dataId0 rid k v b = (case map_of (clips (svc b)) userId of
      None \<Rightarrow> b
    | Some clip \<Rightarrow>
        if pd_dataId clip \<noteq> dataId0 then b
        else put_clip userId (update_record rid (\<lambda>r. r\<lparr>rec_entries := (rec_entries r)[k := Some v]\<rparr>) clip) b)"

fun GetAllEntryPlainText :: "svc_env \<Rightarrow> remote_env \<Rightarrow> caller \<Rightarrow> u32 \<Rightarrow> u32 \<Rightarrow> nat \<Rightarrow> PasteDataEntry option list \<Rightarrow> string \<Rightarrow> pasteboard \<Rightarrow>
    (i32 \<times> string \<times> pasteboard) run" where
  "GetAllEntryPlainText V R c dataId0 rid k [] primaryText b = Some (E_OK, primaryText, b)"
| "GetAllEntryPlainText V R c dataId0 rid k (p # ps) primaryText b =
     (if length primaryText > unat MAX_RECOGNITION_LENGTH then Some (EXCEEDING_LIMIT_EXCEPTION, primaryText, b)
      else do {
        entry \<leftarrow> p;
        has \<leftarrow> (if ent_mimeType entry = MIMETYPE_TEXT_PLAIN then HasContentByMimeType (sv_ext V) MIMETYPE_TEXT_PLAIN entry else Some True);
        (result, entry1, b1) \<leftarrow> (if \<not> has
          then do {
            (ret, v, b') \<leftarrow> GetRecordValueByType_entry V R c dataId0 rid entry b;
            Some (ret, v, set_slot (ai_userId (GetAppInfo V (c_tokenId c))) dataId0 rid k v b')
          }
          else Some (E_OK, entry, b));
        if result \<noteq> E_OK then GetAllEntryPlainText V R c dataId0 rid (Suc k) ps primaryText b1
        else do {
          plainText \<leftarrow> ConvertToPlainText (sv_ext V) entry1;
          GetAllEntryPlainText V R c dataId0 rid (Suc k) ps (case plainText of None \<Rightarrow> primaryText | Some t \<Rightarrow> primaryText @ t) b1
        }
      })"

fun GetAllPrimaryText :: "svc_env \<Rightarrow> remote_env \<Rightarrow> caller \<Rightarrow> u32 \<Rightarrow> PasteDataRecord option list \<Rightarrow> string \<Rightarrow> pasteboard \<Rightarrow> (string \<times> pasteboard) run" where
  "GetAllPrimaryText V R c dataId0 [] primaryText b = Some (primaryText, b)"
| "GetAllPrimaryText V R c dataId0 (p # rs) primaryText b =
     (if length primaryText > unat MAX_RECOGNITION_LENGTH then Some ([], b)
      else do {
        r \<leftarrow> p;
        plainText \<leftarrow> GetPlainTextV0 (sv_ext V) r;
        case plainText of
          Some t \<Rightarrow> GetAllPrimaryText V R c dataId0 rs (primaryText @ t) b
        | None \<Rightarrow> do {
            (result, primaryText', b1) \<leftarrow> GetAllEntryPlainText V R c dataId0 (rec_recordId r) 0 (rec_entries r) primaryText b;
            if result \<noteq> E_OK then Some ([], b1) else GetAllPrimaryText V R c dataId0 rs primaryText' b1
          }
      })"

section \<open>Recognition\<close>

definition member :: "string \<Rightarrow> json \<Rightarrow> json option" where
  "member k j = (case j of JObject kv \<Rightarrow> map_of kv k | _ \<Rightarrow> None)"

definition ExtractEntity :: "entity_env \<Rightarrow> string \<Rightarrow> string \<Rightarrow> i32 \<times> string" where
  "ExtractEntity N entity location =
     (if entity = [] then (INVALID_DATA_ERROR, location)
      else case json_parse N entity of
          None \<Rightarrow> (INVALID_DATA_ERROR, location)
        | Some j \<Rightarrow> (case member ''code'' j of
            Some (JNumber n) \<Rightarrow>
              let code = to_int N n in
              if code \<noteq> 0 then (code, location)
              else (case member ''entity'' j of
                  None \<Rightarrow> (NO_DATA_ERROR, location)
                | Some e \<Rightarrow> (case member ''location'' e of
                    Some (JArray xs) \<Rightarrow> (E_OK, json_dump N (JArray xs))
                  | _ \<Rightarrow> (NO_DATA_ERROR, location)))
          | _ \<Rightarrow> (INVALID_DATA_ERROR, location)))"

definition OnRecognizePasteData :: "svc_env \<Rightarrow> entity_env \<Rightarrow> string \<Rightarrow> entity_map \<Rightarrow> (nat \<times> u32 \<times> string) list" where
  "OnRecognizePasteData V N primaryText m = (case Process N of
      None \<Rightarrow> []
    | Some process \<Rightarrow> (case process primaryText of (result, entity) \<Rightarrow>
        if result \<noteq> ERR_OK then []
        else case ExtractEntity N entity [] of (ret, location) \<Rightarrow>
          if ret \<noteq> E_OK then []
          else NotifyEntityObservers V location ADDRESS (word_of_nat (length primaryText)) m))"

text \<open>The text the task is submitted with, \<open>None\<close> when none is submitted.\<close>

definition RecognizePasteData :: "svc_env \<Rightarrow> remote_env \<Rightarrow> caller \<Rightarrow> PasteData \<Rightarrow> pasteboard \<Rightarrow> (string option \<times> pasteboard) run" where
  "RecognizePasteData V R c d b =
     (if prop_shareOption (pd_props d) = InApp then Some (None, b)
      else do {
        (primaryText, b1) \<leftarrow> GetAllPrimaryText V R c (pd_dataId d) (pd_records d) [] b;
        Some (if primaryText = [] then (None, b1) else (Some primaryText, b1))
      })"

definition recognize_task :: "svc_env \<Rightarrow> entity_env \<Rightarrow> bool \<Rightarrow> string \<Rightarrow> entity_map \<Rightarrow> (nat \<times> u32 \<times> string) list" where
  "recognize_task V N running primaryText m = (if running then OnRecognizePasteData V N primaryText m else [])"

end
