(* ===== verification/Entity_Safe.thy ===== *)
theory Entity_Safe
  imports Entity_Observers Paste_Request
begin

text \<open>
  What subscribers of entities get: bounded lists without duplicates under every sequence of requests, and calls for
  exactly the subscriptions that match, made only to applications that may read the pasteboard.
\<close>

section \<open>The lists\<close>

definition list_ok :: "EntityObserverInfo list \<Rightarrow> bool" where
  "list_ok os \<longleftrightarrow> os \<noteq> [] \<and> length os \<le> MAX_ENTITY_OBSERVER_COUNT \<and> distinct (map (\<lambda>q. (eo_entityType q, eo_expectedDataLength q)) os) \<and>
     (\<forall>q \<in> set os. eo_entityType q = ADDRESS \<and> eo_expectedDataLength q \<le> MAX_RECOGNITION_LENGTH)"

definition entity_ok :: "entity_map \<Rightarrow> bool" where
  "entity_ok m \<longleftrightarrow> keys_ok m \<and> (\<forall>pid os. map_of m pid = Some os \<longrightarrow> list_ok os)"

lemma address_only: "t < MAX_ENTITY_TYPE \<longleftrightarrow> t = ADDRESS"
  by (simp add: MAX_ENTITY_TYPE_def ADDRESS_def word_less_1)

lemma subscribe_list_ok:
  assumes "os = [] \<or> list_ok os" "t < MAX_ENTITY_TYPE" "len \<le> MAX_RECOGNITION_LENGTH"
  shows "list_ok (snd (subscribe_list t len tok x os))"
proof (cases "split_first (same_subscription t len) os")
  case None
  then have n: "\<forall>q \<in> set os. \<not> same_subscription t len q" by (simp add: split_first_None)
  have "(t, len) \<notin> (\<lambda>q. (eo_entityType q, eo_expectedDataLength q)) ` set os" using n by (auto simp: same_subscription_def)
  moreover have "t = ADDRESS" using assms(2) by (simp add: address_only)
  moreover have "snd (subscribe_list t len tok x os) = (if length os \<ge> MAX_ENTITY_OBSERVER_COUNT then os
      else os @ [\<lparr>eo_entityType = t, eo_expectedDataLength = len, eo_tokenId = tok, eo_observer = x\<rparr>])"
    by (simp add: subscribe_list_def None)
  ultimately show ?thesis using assms(1,3) by (auto simp: list_ok_def MAX_ENTITY_OBSERVER_COUNT_def)
next
  case (Some w)
  obtain pre q post where w: "w = (pre, q, post)" by (cases w)
  then have "os = pre @ q # post" using Some by (auto simp: split_first_Some)
  moreover have "snd (subscribe_list t len tok x os) = pre @ q\<lparr>eo_tokenId := tok, eo_observer := x\<rparr> # post"
    by (simp add: subscribe_list_def Some w)
  ultimately show ?thesis using assms(1) by (auto simp: list_ok_def)
qed

lemma unsubscribe_list_ok:
  assumes "list_ok os" "unsubscribe_list t len os = (True, os')"
  shows "list_ok os'"
proof (cases "split_first (same_subscription t len) os")
  case None
  then show ?thesis using assms by (simp add: unsubscribe_list_def)
next
  case (Some w)
  obtain pre q post where w: "w = (pre, q, post)" by (cases w)
  then have "os = pre @ q # post" using Some by (auto simp: split_first_Some)
  moreover have "os' = pre @ post" "pre @ post \<noteq> []" using assms(2) by (auto simp: unsubscribe_list_def Some w)
  ultimately show ?thesis using assms(1) by (auto simp: list_ok_def)
qed

section \<open>Runs\<close>

inductive entity_run :: "entity_map \<Rightarrow> bool" where
  entity_init: "entity_run []"
| entity_subscribe: "entity_run m \<Longrightarrow> entity_run (snd (SubscribeEntityObserver V c t len x m))"
| entity_unsubscribe: "entity_run m \<Longrightarrow> entity_run (snd (UnsubscribeEntityObserver c t len x m))"
| entity_clear: "entity_run m \<Longrightarrow> entity_run (UnsubscribeAllEntityObserver m)"
| entity_exit: "entity_run m \<Longrightarrow> entity_run (exit_entity pid m)"

lemma Subscribe_ok: "entity_ok m \<Longrightarrow> entity_ok (snd (SubscribeEntityObserver V c t len x m))"
proof -
  assume m: "entity_ok m"
  show ?thesis
  proof (cases "t < MAX_ENTITY_TYPE \<and> x \<noteq> None \<and> len \<le> MAX_RECOGNITION_LENGTH \<and> VerifyPermission V (c_tokenId c)")
    case True
    then obtain obs where x: "x = Some obs" by blast
    let ?f = "\<lambda>_ os (_ :: bool). case subscribe_list t len (c_tokenId c) obs os of (overLimit, os') \<Rightarrow> (True, os', overLimit)"
    have e: "snd (SubscribeEntityObserver V c t len x m) = fst (snd (CM_Compute [] (c_pid c) (Some ?f) m False))"
      using True by (simp add: SubscribeEntityObserver_def x split: prod.split)
    have k: "keys_ok m" and l: "\<And>pid os. map_of m pid = Some os \<Longrightarrow> list_ok os" using m by (auto simp: entity_ok_def)
    have "list_ok (snd (subscribe_list t len (c_tokenId c) obs (case map_of m (c_pid c) of None \<Rightarrow> [] | Some os \<Rightarrow> os)))"
      by (rule subscribe_list_ok) (use True l in \<open>auto split: option.split\<close>)
    then show ?thesis unfolding e entity_ok_def lookup_ops using keys_ok_ops(7)[OF k] l
      by (auto simp: Let_def split: if_splits prod.splits)
  qed (use m in \<open>auto simp: SubscribeEntityObserver_def split: option.split\<close>)
qed

lemma Unsubscribe_ok: "entity_ok m \<Longrightarrow> entity_ok (snd (UnsubscribeEntityObserver c t len x m))"
proof -
  assume m: "entity_ok m"
  then have k: "keys_ok m" and l: "\<And>pid os. map_of m pid = Some os \<Longrightarrow> list_ok os" by (auto simp: entity_ok_def)
  let ?f = "\<lambda>_ os (u :: unit). case unsubscribe_list t len os of (keep, os') \<Rightarrow> (keep, os', u)"
  let ?m = "fst (snd (CM_ComputeIfPresent (c_pid c) (Some ?f) m ()))"
  have "list_ok os" if "map_of ?m pid = Some os" for pid os
  proof (cases "map_of m (c_pid c)")
    case None
    then show ?thesis using that l by (simp add: lookup_ops)
  next
    case (Some old)
    obtain keep new where u: "unsubscribe_list t len old = (keep, new)" by (meson surj_pair)
    have "map_of ?m = (map_of m)(c_pid c := if keep then Some new else None)" by (simp add: lookup_ops Some u)
    then show ?thesis using that l[of pid os] unsubscribe_list_ok[OF l[OF Some]] u by (auto split: if_splits)
  qed
  then have "entity_ok ?m" using keys_ok_ops(8)[OF k] by (simp add: entity_ok_def)
  then show ?thesis using m by (simp add: UnsubscribeEntityObserver_def)
qed

lemma entity_run_ok: "entity_run m \<Longrightarrow> entity_ok m"
proof (induction rule: entity_run.induct)
  case (entity_exit m pid)
  then show ?case using keys_ok_ops(4)[of m pid] by (auto simp: exit_entity_def entity_ok_def lookup_ops split: if_splits)
qed (simp_all add: Subscribe_ok Unsubscribe_ok, simp_all add: entity_ok_def keys_ok_def UnsubscribeAllEntityObserver_def CM_Clear_def)

section \<open>Calls\<close>

lemma each_calls: "snd (each_loop (\<lambda>_ os calls. (False, os, calls @ f os)) m cs) = cs @ concat (map (\<lambda>(_, os). f os) m)"
proof (induction m arbitrary: cs)
  case (Cons kv m)
  obtain k v where kv: "kv = (k, v)" by (cases kv)
  have "snd (each_loop (\<lambda>_ os calls. (False, os, calls @ f os)) (kv # m) cs) =
      snd (each_loop (\<lambda>_ os calls. (False, os, calls @ f os)) m (cs @ f v))" by (simp add: kv split: prod.split)
  then show ?case using Cons[of "cs @ f v"] kv by simp
qed simp

lemma NotifyEntityObservers_eq:
  "NotifyEntityObservers V loc t n m =
     concat (map (\<lambda>(_, os). map (\<lambda>q. (eo_observer q, t, loc)) (filter (wants V t n) os)) m)"
  using each_calls[of "\<lambda>os. map (\<lambda>q. (eo_observer q, t, loc)) (filter (wants V t n) os)" m "[]"]
  by (simp add: NotifyEntityObservers_def CM_ForEach_def)

lemma Notify_members:
  assumes "keys_ok m"
  shows "(x, t, loc) \<in> set (NotifyEntityObservers V loc t n m) \<longleftrightarrow>
    (\<exists>pid os q. map_of m pid = Some os \<and> q \<in> set os \<and> wants V t n q \<and> x = eo_observer q)"
  using assms by (fastforce simp: NotifyEntityObservers_eq keys_ok_def)

section \<open>Recognition\<close>

text \<open>C29: Who hears of an entity. Under every sequence of subscriptions, exits and resets a process holds at most ten
  subscriptions, no two of the same kind and length and none for a text longer than the limit. When the library finds an entity
  in a copied text, the calls made are exactly those to the subscriptions of this kind that accept a text of this length and whose
  application may read the pasteboard at this time; when it finds none, or the text is longer than the limit, nobody
  is called.\<close>

theorem entity_observers_notified:
  assumes run: "entity_run m" and len: "length txt < 2 ^ 32"
  shows "(\<forall>pid os. map_of m pid = Some os \<longrightarrow> length os \<le> MAX_ENTITY_OBSERVER_COUNT \<and>
        distinct (map (\<lambda>q. (eo_entityType q, eo_expectedDataLength q)) os) \<and> (\<forall>q \<in> set os. eo_expectedDataLength q \<le> MAX_RECOGNITION_LENGTH)) \<and>
    (Process N = Some process \<and> process txt = (ERR_OK, entity) \<and> ExtractEntity N entity [] = (E_OK, loc) \<longrightarrow>
      (\<forall>x. (x, ADDRESS, loc) \<in> set (OnRecognizePasteData V N txt m) \<longleftrightarrow>
        (\<exists>pid os q. map_of m pid = Some os \<and> q \<in> set os \<and> x = eo_observer q \<and> eo_entityType q = ADDRESS \<and>
           length txt \<le> unat (eo_expectedDataLength q) \<and> VerifyPermission V (eo_tokenId q)))) \<and>
    (Process N = None \<or> (\<exists>process. Process N = Some process \<and> (fst (process txt) \<noteq> ERR_OK \<or>
        fst (ExtractEntity N (snd (process txt)) []) \<noteq> E_OK)) \<or> unat MAX_RECOGNITION_LENGTH < length txt \<longrightarrow>
      OnRecognizePasteData V N txt m = [])"
proof -
  have ok: "entity_ok m" by (rule entity_run_ok[OF run])
  then have k: "keys_ok m" and l: "\<And>pid os. map_of m pid = Some os \<Longrightarrow> list_ok os" by (auto simp: entity_ok_def)
  have le: "(word_of_nat (length txt) \<le> (n :: u32)) \<longleftrightarrow> length txt \<le> unat n" for n
    using len by (simp add: word_le_nat_alt unat_of_nat)
  have w: "wants V ADDRESS (word_of_nat (length txt)) q \<longleftrightarrow> eo_entityType q = ADDRESS \<and> length txt \<le> unat (eo_expectedDataLength q) \<and> VerifyPermission V (eo_tokenId q)" for q
    by (auto simp: wants_def le)
  have long: "NotifyEntityObservers V loc ADDRESS (word_of_nat (length txt)) m = []" if "unat MAX_RECOGNITION_LENGTH < length txt" for loc
  proof -
    have "\<not> wants V ADDRESS (word_of_nat (length txt)) q" if "map_of m pid = Some os" "q \<in> set os" for pid os q
    proof -
      have "unat (eo_expectedDataLength q) \<le> unat MAX_RECOGNITION_LENGTH" using l[OF that(1)] that(2) by (simp add: list_ok_def word_le_nat_alt)
      then show ?thesis using \<open>unat MAX_RECOGNITION_LENGTH < length txt\<close> by (simp add: w)
    qed
    then show ?thesis using k by (auto simp: NotifyEntityObservers_eq filter_empty_conv keys_ok_def)
  qed
  have "OnRecognizePasteData V N txt m = NotifyEntityObservers V loc ADDRESS (word_of_nat (length txt)) m"
    if "Process N = Some process" "process txt = (ERR_OK, entity)" "ExtractEntity N entity [] = (E_OK, loc)"
    using that by (simp add: OnRecognizePasteData_def)
  moreover have "OnRecognizePasteData V N txt m = []" if "Process N = None \<or> (\<exists>process. Process N = Some process \<and> (fst (process txt) \<noteq> ERR_OK \<or>
        fst (ExtractEntity N (snd (process txt)) []) \<noteq> E_OK)) \<or> unat MAX_RECOGNITION_LENGTH < length txt"
    using that long by (auto simp: OnRecognizePasteData_def split: option.split prod.split)
  ultimately show ?thesis using l Notify_members[OF k] w by (auto simp: list_ok_def)
qed

definition sample_entity_env :: entity_env where
  "sample_entity_env = \<lparr>json_parse = (\<lambda>_. Some (JObject [(''code'', JNumber 0), (''entity'', JObject [(''location'', JArray [])])])),
     json_dump = (\<lambda>_. ''[]''), to_int = word_of_int, Process = Some (\<lambda>_. (ERR_OK, ''x''))\<rparr>"

theorem entity_observers_notified_witness:
  "(5, ADDRESS, ''[]'') \<in> set (OnRecognizePasteData sample_env sample_entity_env ''Main St 5''
     (snd (SubscribeEntityObserver sample_env sample_caller ADDRESS 100 (Some 5) [])))"
proof -
  let ?m = "snd (SubscribeEntityObserver sample_env sample_caller ADDRESS 100 (Some 5) [])"
  have r: "entity_run ?m" by (intro entity_run.intros)
  have v: "VerifyPermission sample_env 7"
    by (simp add: VerifyPermission_def GetSdkVersion_def sample_env_def INVALID_VERSION_def Let_def)
  have m: "?m = [(1, [\<lparr>eo_entityType = ADDRESS, eo_expectedDataLength = 100, eo_tokenId = 7, eo_observer = 5\<rparr>])]"
    using v by (simp add: SubscribeEntityObserver_def ADDRESS_def MAX_ENTITY_TYPE_def MAX_RECOGNITION_LENGTH_def sample_caller_def CM_Compute_def
        CM_Emplace_def subscribe_list_def MAX_ENTITY_OBSERVER_COUNT_def Let_def)
  have n: "Process sample_entity_env = Some (\<lambda>_. (ERR_OK, ''x''))" "ExtractEntity sample_entity_env ''x'' [] = (E_OK, ''[]'')"
    by (simp_all add: sample_entity_env_def ExtractEntity_def member_def)
  have "(5, ADDRESS, ''[]'') \<in> set (OnRecognizePasteData sample_env sample_entity_env ''Main St 5'' ?m) \<longleftrightarrow>
      (\<exists>pid os q. map_of ?m pid = Some os \<and> q \<in> set os \<and> 5 = eo_observer q \<and> eo_entityType q = ADDRESS \<and>
         length ''Main St 5'' \<le> unat (eo_expectedDataLength q) \<and> VerifyPermission sample_env (eo_tokenId q))"
    using entity_observers_notified[OF r, of "''Main St 5''" sample_entity_env "\<lambda>_. (ERR_OK, ''x'')" "''x''" "''[]''" sample_env] n by simp
  then show ?thesis unfolding m using v by (auto intro!: exI[of _ 1])
qed

text \<open>The limit is tested before a record is read and not after the last one.\<close>

lemma long_text_recognized:
  assumes "pd_records d = [Some r]" "GetPlainTextV0 (sv_ext V) r = Some (Some t)" "t \<noteq> []" "prop_shareOption (pd_props d) \<noteq> InApp"
  shows "RecognizePasteData V R c d b = Some (Some t, b)"
  using assms by (simp add: RecognizePasteData_def)

lemma inapp_not_recognized: "prop_shareOption (pd_props d) = InApp \<Longrightarrow> RecognizePasteData V R c d b = Some (None, b)"
  by (simp add: RecognizePasteData_def)

end
