(* ===== verification/Service_Queries.thy ===== *)
theory Service_Queries
  imports Paste_Request Mime_Types
begin

text \<open>
  The queries about a clip that may be on another device: \<open>HasRemoteData\<close>, \<open>GetMimeTypes\<close>,
  \<open>HasDataType\<close> and \<open>HasUtdType\<close> of \<open>services/core/src/pasteboard_service.cpp\<close>. A device announces
  a copy with its basic types; the full list of types is asked of the plugin
  (\<open>remote_types\<close>, the result and the bytes of \<open>ClipPlugin::GetMimeTypes\<close>) when the version of the
  event says that the peer answers such requests, and otherwise the clip is transferred.
\<close>

section \<open>Types a query may name\<close>

definition MIMETYPE_MAX_SIZE :: nat where "MIMETYPE_MAX_SIZE = 1024"

definition IsValidMimeType :: "string \<Rightarrow> bool" where
  "IsValidMimeType mimeType \<longleftrightarrow> mimeType \<noteq> [] \<and> length mimeType \<le> MIMETYPE_MAX_SIZE"

definition InfoType_DEFAULT :: byte where "InfoType_DEFAULT = 0"
definition InfoType_MIMETYPE :: byte where "InfoType_MIMETYPE = 2"

type_synonym remote_types = "GlobalEvent \<Rightarrow> i32 \<times> byte list"

section \<open>The types of a clip on another device\<close>

definition GetRemoteMimeTypes :: "svc_env \<Rightarrow> remote_env \<Rightarrow> remote_types \<Rightarrow> string list \<Rightarrow> GlobalEvent \<Rightarrow>
    (i32 \<times> string list) run" where
  "GetRemoteMimeTypes V R T mimeTypes event =
     (if \<not> has_plugin V then Some (PLUGIN_IS_NULL, mimeTypes)
      else case T event of (result, rawData) \<Rightarrow>
        if result \<noteq> E_OK then Some (result, mimeTypes)
        else if evt_version event = InfoType_MIMETYPE then Some (ERR_OK, DecodeMimeTypes rawData)
        else do { ts \<leftarrow> GetMimeTypes (decode_remote V R rawData); Some (ERR_OK, ts) })"

definition HasRemoteDataType :: "svc_env \<Rightarrow> remote_env \<Rightarrow> remote_types \<Rightarrow> string \<Rightarrow> GlobalEvent \<Rightarrow> bool run" where
  "HasRemoteDataType V R T mimeType event = do {
     (ret, mimeTypes) \<leftarrow> GetRemoteMimeTypes V R T [] event;
     Some (ret = ERR_OK \<and> mimeType \<in> set mimeTypes)
   }"

section \<open>The requests\<close>

definition HasRemoteData :: "svc_env \<Rightarrow> caller \<Rightarrow> pasteboard \<Rightarrow> bool run" where
  "HasRemoteData V c b =
     (let userId = ai_userId (GetAppInfo V (c_tokenId c)) in
      if GetScreenStatus userId (svc b) \<noteq> ScreenUnlocked then Some False
      else case GetValidDistributeEvent V userId (svc b) of (distRet, distEvt) \<Rightarrow>
        if distRet = E_OK then Some True
        else if distRet = GET_SAME_REMOTE_DATA \<and> IsRemoteDataPasting (task_key distEvt) (taskMgr b) then Some True
        else case map_of (clips (svc b)) userId of
            None \<Rightarrow> Some False
          | Some d \<Rightarrow> if \<not> prop_isRemote (pd_props d) then Some False else HasRemoteUri (sv_ext V) (pd_records d))"

definition GetMimeTypes_request :: "svc_env \<Rightarrow> remote_env \<Rightarrow> remote_types \<Rightarrow> caller \<Rightarrow> string list \<Rightarrow> pasteboard \<Rightarrow>
    (i32 \<times> string list \<times> pasteboard) run" where
  "GetMimeTypes_request V R T c funcResult b =
     (let userId = ai_userId (GetAppInfo V (c_tokenId c));
          local = (\<lambda>b. do { ts \<leftarrow> GetLocalMimeTypes V c (svc b); Some (ERR_OK, ts, b) })
      in if GetScreenStatus userId (svc b) \<noteq> ScreenUnlocked then local b
      else case GetValidDistributeEvent V userId (svc b) of (distRet, distEvt) \<Rightarrow>
        if distRet \<noteq> E_OK then local b
        else if evt_version distEvt \<noteq> InfoType_DEFAULT
        then do { (ret, ts) \<leftarrow> GetRemoteMimeTypes V R T funcResult distEvt; Some (ret, ts, b) }
        else do {
          (ret, _, _, _, b1) \<leftarrow> GetRemoteData V R userId distEvt (new_data (sv_params V) (now_ms V)) b;
          if ret \<noteq> E_OK then Some (GET_REMOTE_DATA_ERROR, funcResult, b1) else local b1
        })"

definition HasDataType :: "svc_env \<Rightarrow> remote_env \<Rightarrow> remote_types \<Rightarrow> caller \<Rightarrow> string \<Rightarrow> pasteboard \<Rightarrow> (bool \<times> pasteboard) run" where
  "HasDataType V R T c mimeType b =
     (let tokenId = c_tokenId c;
          userId = ai_userId (GetAppInfo V tokenId);
          local = (\<lambda>b. do { has \<leftarrow> HasLocalDataType mimeType tokenId userId (svc b); Some (has, b) })
      in if userId = ERROR_USERID then Some (False, b)
      else if GetScreenStatus userId (svc b) \<noteq> ScreenUnlocked then local b
      else case GetValidDistributeEvent V userId (svc b) of (distRet, distEvt) \<Rightarrow>
        if distRet \<noteq> E_OK then local b
        else if mimeType \<in> set (evt_dataType distEvt) then Some (True, b)
        else if IsBasicType mimeType then Some (False, b)
        else if evt_version distEvt \<noteq> InfoType_DEFAULT
        then do { has \<leftarrow> HasRemoteDataType V R T mimeType distEvt; Some (has, b) }
        else do {
          (ret, _, _, _, b1) \<leftarrow> GetRemoteData V R userId distEvt (new_data (sv_params V) (now_ms V)) b;
          if ret \<noteq> E_OK then Some (False, b1) else local b1
        })"

definition HasDataType_request :: "svc_env \<Rightarrow> remote_env \<Rightarrow> remote_types \<Rightarrow> caller \<Rightarrow> string \<Rightarrow> bool \<Rightarrow> pasteboard \<Rightarrow>
    (i32 \<times> bool \<times> pasteboard) run" where
  "HasDataType_request V R T c mimeType funcResult b =
     (if \<not> IsValidMimeType mimeType then Some (INVALID_PARAM_ERROR, funcResult, b)
      else do { (has, b1) \<leftarrow> HasDataType V R T c mimeType b; Some (ERR_OK, has, b1) })"

definition HasUtdType_svc :: "svc_env \<Rightarrow> remote_env \<Rightarrow> caller \<Rightarrow> string \<Rightarrow> pasteboard \<Rightarrow> (bool \<times> pasteboard) run" where
  "HasUtdType_svc V R c utdType b =
     (let tokenId = c_tokenId c;
          userId = ai_userId (GetAppInfo V tokenId);
          screenStatus = GetScreenStatus userId (svc b);
          local = (case map_of (clips (svc b)) userId of
                     None \<Rightarrow> Some (False, b)
                   | Some d \<Rightarrow>
                       if IsDataValid d tokenId userId (svc b) \<noteq> E_OK then Some (False, b)
                       else if sint (prop_screenStatus (pd_props d)) > sint screenStatus then Some (False, b)
                       else do { has \<leftarrow> HasUtdType (sv_ext V) utdType (pd_records d); Some (has, b) })
      in if screenStatus \<noteq> ScreenUnlocked then local
      else case GetValidDistributeEvent V userId (svc b) of (distRet, distEvt) \<Rightarrow>
        if distRet \<noteq> E_OK then local
        else do {
          (ret, d, _, _, b1) \<leftarrow> GetRemoteData V R userId distEvt (new_data (sv_params V) (now_ms V)) b;
          if ret \<noteq> E_OK then Some (False, b1)
          else do { has \<leftarrow> HasUtdType (sv_ext V) utdType (pd_records d); Some (has, b1) }
        })"

text \<open>\<open>false\<close>, which the request returns for an empty type, is the code of success.\<close>

definition HasUtdType_request :: "svc_env \<Rightarrow> remote_env \<Rightarrow> caller \<Rightarrow> string \<Rightarrow> bool \<Rightarrow> pasteboard \<Rightarrow>
    (i32 \<times> bool \<times> pasteboard) run" where
  "HasUtdType_request V R c utdType funcResult b =
     (if utdType = [] then Some (0, funcResult, b)
      else do { (has, b1) \<leftarrow> HasUtdType_svc V R c utdType b; Some (ERR_OK, has, b1) })"

section \<open>A clip that is announced\<close>

text \<open>Another device has the newest clip and the screen is unlocked.\<close>

definition newest_remote :: "svc_env \<Rightarrow> i32 \<Rightarrow> GlobalEvent \<Rightarrow> pasteboard \<Rightarrow> bool" where
  "newest_remote V user event b \<longleftrightarrow> user \<noteq> ERROR_USERID \<and> GetScreenStatus user (svc b) = ScreenUnlocked \<and>
     GetValidDistributeEvent V user (svc b) = (E_OK, event)"

text \<open>The types of a clip on another device. While the newest clip is on a device that answers with its
  list of types, the queries transfer nothing and change nothing: the list of types is the one the device
  encoded, as far as it fits a message, a type is reported if the event announced it or it is not one of the basic types and
  in that list, and the clip counts as remote. When the device reports an error the list request returns
  that error and leaves the result alone, and only announced types are reported.\<close>

theorem remote_types_answered:
  assumes newest: "newest_remote V (ai_userId (GetAppInfo V (c_tokenId c))) event b"
    and peer: "evt_version event = InfoType_MIMETYPE" "has_plugin V" "T event = (code, EncodeMimeTypes ts)"
    and valid: "IsValidMimeType t"
  shows "GetMimeTypes_request V R T c out b =
      Some (if code = E_OK then (ERR_OK, announced MAX_TRANSFER_SIZE ts, b) else (code, out, b)) \<and>
    HasDataType_request V R T c t r b = Some (ERR_OK, t \<in> set (evt_dataType event) \<or>
      \<not> IsBasicType t \<and> code = E_OK \<and> t \<in> set (announced MAX_TRANSFER_SIZE ts), b) \<and>
    HasRemoteData V c b = Some True"
proof -
  have "GetRemoteMimeTypes V R T x event = Some (if code = E_OK then (ERR_OK, announced MAX_TRANSFER_SIZE ts) else (code, x))" for x
    using peer by (simp add: GetRemoteMimeTypes_def mime_types_decoded)
  then show ?thesis
    using newest peer valid
    by (auto simp: GetMimeTypes_request_def HasDataType_request_def HasDataType_def HasRemoteDataType_def HasRemoteData_def
        newest_remote_def InfoType_MIMETYPE_def InfoType_DEFAULT_def ERR_OK_def E_OK_def Let_def)
qed

definition unlocked_board :: pasteboard where
  "unlocked_board = sample_board\<lparr>svc := HandleScreenUnlocked (Some 100) (svc sample_board)\<rparr>"

theorem remote_types_answered_witness:
  "HasDataType_request (sample_env\<lparr>GetTopEvents := (\<lambda>_. [tv_event\<lparr>evt_version := 2\<rparr>])\<rparr>) sample_remote_env
     (\<lambda>_. (E_OK, EncodeMimeTypes [''text/html'', ''openharmony/x''])) sample_caller ''openharmony/x'' False unlocked_board =
   Some (ERR_OK, True, unlocked_board)"
proof -
  let ?V = "sample_env\<lparr>GetTopEvents := (\<lambda>_. [tv_event\<lparr>evt_version := 2\<rparr>])\<rparr>" and ?e = "tv_event\<lparr>evt_version := 2\<rparr>"
  have u: "ai_userId (GetAppInfo ?V (c_tokenId sample_caller)) = 100"
    by (simp add: GetAppInfo_def FillHapAppInfo_def new_AppInfo_def sample_env_def sample_caller_def Let_def)
  have n: "newest_remote ?V 100 ?e unlocked_board"
    by (simp add: newest_remote_def GetValidDistributeEvent_def GetScreenStatus_def sample_env_def unlocked_board_def sample_board_def HandleScreenUnlocked_def CM_Find_def CM_InsertOrAssign_def init_state_def
        new_event_def tv_event_def EXPIRATION_INTERVAL_def ERROR_USERID_def ScreenUnlocked_def Let_def)
  have v: "IsValidMimeType ''openharmony/x''" by (simp add: IsValidMimeType_def MIMETYPE_MAX_SIZE_def)
  have p: "evt_version ?e = InfoType_MIMETYPE" "has_plugin ?V" by (simp_all add: InfoType_MIMETYPE_def sample_env_def)
  show ?thesis
    using remote_types_answered[of ?V sample_caller ?e unlocked_board "\<lambda>_. (E_OK, EncodeMimeTypes [''text/html'', ''openharmony/x''])" E_OK
        "[''text/html'', ''openharmony/x'']" "''openharmony/x''"] n p v
    by (simp add: u IsBasicType_def MAX_TRANSFER_SIZE_def UINT16_MAX_def MIMETYPE_TEXT_HTML_def MIMETYPE_TEXT_PLAIN_def
        MIMETYPE_TEXT_URI_def MIMETYPE_PIXELMAP_def MIMETYPE_AUTOFILL_SECURE_def)
qed

end
