(* ===== verification/Client_Observers.thy ===== *)
theory Client_Observers
  imports Observers
begin

text \<open>
  The connection of an application to the service and its observers: \<open>PasteboardServiceLoader\<close>
  (\<open>framework/innerkits/src/pasteboard_service_loader.cpp\<close>), the subscription part of
  \<open>pasteboard_client.cpp\<close> and \<open>pasteboard_samgr_listener.cpp\<close>. A service process is a number; \<open>watched\<close> are
  the processes on which the client has a death recipient. The record \<open>link_env\<close> holds the answers
  of the system ability manager and the service during a call. Locks make each method one step; what
  a wait on the condition variable ends with is the answer \<open>le_loaded\<close>. The time after the
  destruction of static objects is left out.
\<close>

section \<open>The connection\<close>

record link_env =
  le_samgr :: bool
  le_check :: "nat option" \<comment> \<open>\<open>CheckSystemAbility\<close>\<close>
  le_load :: i32 \<comment> \<open>\<open>LoadSystemAbility\<close>\<close>
  le_loaded :: "nat option" \<comment> \<open>the object a load delivers in time\<close>
  le_add_recipient :: bool
  le_make_observer :: bool
  le_register :: i32 \<comment> \<open>\<open>RegisterClientDeathObserver\<close>\<close>
  le_subscribe_sa :: i32
  le_anco :: bool \<comment> \<open>the caller is the broker of the ANCO container\<close>

record loader =
  pasteboardServiceProxy :: "nat option"
  deathRecipient :: bool
  clientDeathObserver :: bool
  constructing :: bool
  watched :: "nat set"

definition new_loader :: loader where
  "new_loader = \<lparr>pasteboardServiceProxy = None, deathRecipient = False, clientDeathObserver = False, constructing = False, watched = {}\<rparr>"

definition SetPasteboardServiceProxy :: "link_env \<Rightarrow> nat \<Rightarrow> loader \<Rightarrow> loader" where
  "SetPasteboardServiceProxy e remoteObject l =
     (if \<not> le_add_recipient e then l\<lparr>deathRecipient := False\<rparr>
      else let l1 = l\<lparr>deathRecipient := True, watched := insert remoteObject (watched l), pasteboardServiceProxy := Some remoteObject\<rparr>;
               unwatched = watched l1 - {remoteObject}
      in if \<not> clientDeathObserver l1 \<and> \<not> le_make_observer e then l1\<lparr>watched := unwatched, deathRecipient := False\<rparr>
      else if le_register e \<noteq> 0 then l1\<lparr>watched := unwatched, deathRecipient := False, clientDeathObserver := False\<rparr>
      else l1\<lparr>clientDeathObserver := True\<rparr>)"

definition LoadSystemAbilitySuccess :: "link_env \<Rightarrow> nat \<Rightarrow> loader \<Rightarrow> loader" where
  "LoadSystemAbilitySuccess e remoteObject l = SetPasteboardServiceProxy e remoteObject l"

definition LoadSystemAbilityFail :: "loader \<Rightarrow> loader" where
  "LoadSystemAbilityFail l = l\<lparr>pasteboardServiceProxy := None\<rparr>"

definition wait_loaded :: "link_env \<Rightarrow> loader \<Rightarrow> loader" where
  "wait_loaded e l = (case le_loaded e of None \<Rightarrow> LoadSystemAbilityFail l | Some obj \<Rightarrow> LoadSystemAbilitySuccess e obj l)"

definition GetPasteboardService :: "link_env \<Rightarrow> loader \<Rightarrow> nat option \<times> loader" where
  "GetPasteboardService e l =
     (if pasteboardServiceProxy l \<noteq> None then (pasteboardServiceProxy l, l)
      else if constructing l then (let l1 = wait_loaded e l in (pasteboardServiceProxy l1, l1))
      else if \<not> le_samgr e then (None, l\<lparr>pasteboardServiceProxy := None\<rparr>)
      else case le_check e of
          Some obj \<Rightarrow> (let l1 = SetPasteboardServiceProxy e obj l in (pasteboardServiceProxy l1, l1))
        | None \<Rightarrow>
            if le_load e \<noteq> 0 then (None, l)
            else let l1 = (wait_loaded e (l\<lparr>constructing := True\<rparr>))\<lparr>constructing := False\<rparr>
                 in (pasteboardServiceProxy l1, l1))"

definition ClearPasteboardServiceProxy :: "loader \<Rightarrow> loader" where
  "ClearPasteboardServiceProxy l = l\<lparr>pasteboardServiceProxy := None\<rparr>"

definition OnRemoteSaDied :: "loader \<Rightarrow> loader" where
  "OnRemoteSaDied l = l\<lparr>pasteboardServiceProxy := None\<rparr>"

definition ReleaseDeathRecipient :: "loader \<Rightarrow> loader" where
  "ReleaseDeathRecipient l =
     (if \<not> deathRecipient l then l
      else case pasteboardServiceProxy l of
          None \<Rightarrow> l
        | Some obj \<Rightarrow> l\<lparr>watched := watched l - {obj}, deathRecipient := False\<rparr>)"

section \<open>Observers of the application\<close>

text \<open>\<open>observerSet\<close> lists the set in its order. The listener object with its flag \<open>hasDied\<close> is made anew after
  \<open>UnSubscribePasteboardSA\<close>.\<close>

record observer_client =
  oc_loader :: loader
  observerSet :: "(u32 \<times> nat) list"
  isSubscribeSa :: bool
  saCallback :: bool
  hasDied :: bool

record world =
  w_client :: observer_client
  w_service :: "nat option"
  w_observers :: observer_state

definition SubscribePasteboardSA :: "link_env \<Rightarrow> observer_client \<Rightarrow> observer_client" where
  "SubscribePasteboardSA e oc =
     (if le_anco e \<or> \<not> le_samgr e \<or> isSubscribeSa oc then oc
      else let oc1 = (if saCallback oc then oc else oc\<lparr>saCallback := True, hasDied := False\<rparr>)
           in if le_subscribe_sa e \<noteq> 0 then oc1 else oc1\<lparr>isSubscribeSa := True\<rparr>)"

definition UnSubscribePasteboardSA :: "link_env \<Rightarrow> observer_client \<Rightarrow> observer_client" where
  "UnSubscribePasteboardSA e oc =
     (if le_anco e \<or> \<not> saCallback oc then oc else oc\<lparr>saCallback := False, isSubscribeSa := False\<rparr>)"

definition ReleaseSaListener :: "link_env \<Rightarrow> observer_client \<Rightarrow> observer_client" where
  "ReleaseSaListener e oc = (let oc1 = UnSubscribePasteboardSA e oc in oc1\<lparr>oc_loader := ReleaseDeathRecipient (oc_loader oc1)\<rparr>)"

text \<open>A call reaches the service when the proxy is the running process; another proxy gives an error (\<open>dead\<close>).\<close>

record app =
  ap_uid :: i32 \<comment> \<open>the uid of observers for events\<close>
  ap_ime :: "(i32 \<Rightarrow> i32 \<Rightarrow> bool) option"
  ap_hap :: bool
  ap_caller :: caller
  ap_dead :: i32

definition call_service :: "app \<Rightarrow> nat \<Rightarrow> (observer_state \<Rightarrow> i32 \<times> observer_state) \<Rightarrow> world \<Rightarrow> i32 \<times> world" where
  "call_service A proxy f w =
     (if w_service w = Some proxy then (case f (w_observers w) of (ret, obs) \<Rightarrow> (ret, w\<lparr>w_observers := obs\<rparr>)) else (ap_dead A, w))"

definition on_client :: "(observer_client \<Rightarrow> observer_client) \<Rightarrow> world \<Rightarrow> world" where
  "on_client f w = w\<lparr>w_client := f (w_client w)\<rparr>"

definition get_service :: "link_env \<Rightarrow> world \<Rightarrow> nat option \<times> world" where
  "get_service e w = (case GetPasteboardService e (oc_loader (w_client w)) of (p, l) \<Rightarrow>
     (p, on_client (\<lambda>oc. oc\<lparr>oc_loader := l\<rparr>) w))"

definition Subscribe_client :: "link_env \<Rightarrow> app \<Rightarrow> u32 \<Rightarrow> nat option \<Rightarrow> world \<Rightarrow> bool \<times> world" where
  "Subscribe_client e A ty callback w = (case callback of
      None \<Rightarrow> (False, w)
    | Some cb \<Rightarrow> (case get_service e w of (proxyService, w1) \<Rightarrow>
        let w2 = on_client (\<lambda>oc. oc\<lparr>observerSet := List.insert (ty, cb) (observerSet oc)\<rparr>) w1 in
        case proxyService of
          None \<Rightarrow> (False, w2)
        | Some p \<Rightarrow> (case call_service A p (SubscribeObserver (ap_uid A) (ap_ime A) (ap_caller A) ty (Some cb)) w2 of (ret, w3) \<Rightarrow>
            (ret = 0, on_client (SubscribePasteboardSA e) w3))))"

definition Unsubscribe_client :: "link_env \<Rightarrow> app \<Rightarrow> u32 \<Rightarrow> nat option \<Rightarrow> world \<Rightarrow> world" where
  "Unsubscribe_client e A ty callback w = (case get_service e w of (proxyService, w1) \<Rightarrow>
     case proxyService of
       None \<Rightarrow> w1
     | Some p \<Rightarrow> (case callback of
         None \<Rightarrow>
           let w2 = on_client (\<lambda>oc. oc\<lparr>observerSet := []\<rparr>) w1;
               w3 = snd (call_service A p (UnsubscribeAllObserver (ap_uid A) (ap_caller A) ty) w2)
           in on_client (UnSubscribePasteboardSA e) w3
       | Some cb \<Rightarrow>
           let w2 = on_client (\<lambda>oc. oc\<lparr>observerSet := remove1 (ty, cb) (observerSet oc)\<rparr>) w1;
               w3 = (if observerSet (w_client w2) = [] then on_client (UnSubscribePasteboardSA e) w2 else w2)
           in snd (call_service A p (UnsubscribeObserver (ap_uid A) (ap_caller A) ty (Some cb)) w3)))"

definition resubscribe_one :: "app \<Rightarrow> nat \<Rightarrow> u32 \<times> nat \<Rightarrow> world \<Rightarrow> world" where
  "resubscribe_one A p it w =
     snd (call_service A p (ResubscribeObserver (ap_uid A) (ap_ime A) (ap_hap A) (ap_caller A) (fst it) (Some (snd it))) w)"

definition Resubscribe_client :: "link_env \<Rightarrow> app \<Rightarrow> world \<Rightarrow> world" where
  "Resubscribe_client e A w = (case get_service e w of (proxyService, w1) \<Rightarrow>
     case proxyService of
       None \<Rightarrow> w1
     | Some p \<Rightarrow> fold (resubscribe_one A p) (observerSet (w_client w1)) w1)"

section \<open>Restarts of the service\<close>

definition OnRemoveSystemAbility :: "observer_client \<Rightarrow> observer_client" where
  "OnRemoveSystemAbility oc = oc\<lparr>hasDied := True\<rparr>"

definition OnAddSystemAbility :: "link_env \<Rightarrow> app \<Rightarrow> world \<Rightarrow> world" where
  "OnAddSystemAbility e A w =
     (let w1 = on_client (\<lambda>oc. oc\<lparr>oc_loader := ClearPasteboardServiceProxy (oc_loader oc)\<rparr>) w;
          w2 = (if hasDied (w_client w1) then Resubscribe_client e A w1 else w1)
      in on_client (\<lambda>oc. oc\<lparr>hasDied := False\<rparr>) w2)"

text \<open>The process dies: its observers are gone, death recipients and listeners are told. A new process
  starts: listeners are told.\<close>

definition service_dies :: "world \<Rightarrow> world" where
  "service_dies w = (case w_service w of
      None \<Rightarrow> w
    | Some p \<Rightarrow> on_client (\<lambda>oc.
        let oc1 = (if p \<in> watched (oc_loader oc) then oc\<lparr>oc_loader := OnRemoteSaDied (oc_loader oc)\<rparr> else oc)
        in if isSubscribeSa oc1 then OnRemoveSystemAbility oc1 else oc1)
        (w\<lparr>w_service := None, w_observers := no_observers\<rparr>))"

definition service_starts :: "link_env \<Rightarrow> app \<Rightarrow> nat \<Rightarrow> world \<Rightarrow> world" where
  "service_starts e A p w =
     (let w1 = w\<lparr>w_service := Some p, w_observers := no_observers\<rparr>
      in if isSubscribeSa (w_client w1) then OnAddSystemAbility e A w1 else w1)"

section \<open>Noticing the death of the service\<close>

lemma on_client_simps [simp]: "w_client (on_client f w) = f (w_client w)" "w_service (on_client f w) = w_service w"
    "w_observers (on_client f w) = w_observers w"
  by (simp_all add: on_client_def)

lemma SetPasteboardServiceProxy_watch:
  assumes "le_add_recipient e" "watched l = {}"
  shows "pasteboardServiceProxy (SetPasteboardServiceProxy e p l) = Some p"
    and "p \<in> watched (SetPasteboardServiceProxy e p l) \<longleftrightarrow> le_register e = 0 \<and> (clientDeathObserver l \<or> le_make_observer e)"
  using assms by (simp_all add: SetPasteboardServiceProxy_def Let_def)

lemma service_dies_link:
  assumes "w_service w = Some p"
  shows "w_service (service_dies w) = None"
    and "pasteboardServiceProxy (oc_loader (w_client (service_dies w))) =
      (if p \<in> watched (oc_loader (w_client w)) then None else pasteboardServiceProxy (oc_loader (w_client w)))"
    and "observerSet (w_client (service_dies w)) = observerSet (w_client w)"
    and "isSubscribeSa (w_client (service_dies w)) = isSubscribeSa (w_client w)"
    and "isSubscribeSa (w_client w) \<Longrightarrow> hasDied (w_client (service_dies w))"
    and "constructing (oc_loader (w_client (service_dies w))) = constructing (oc_loader (w_client w))"
  using assms by (simp_all add: service_dies_def on_client_def OnRemoteSaDied_def OnRemoveSystemAbility_def Let_def)

text \<open>C22: A client notices the death of the service exactly if its registration with the service
  succeeded. After the first call connected it, the proxy is the running process. When the
  registration succeeded a death clears the proxy, so the next call connects to the process that runs then. When
  it failed the client keeps the proxy without a death recipient: after the death every call uses the dead process, until
  a listener for restarts clears the proxy.\<close>

theorem service_death_noticed:
  assumes "pasteboardServiceProxy (oc_loader (w_client w)) = None" "\<not> constructing (oc_loader (w_client w))" "watched (oc_loader (w_client w)) = {}"
    and "le_samgr e" "le_check e = Some p" "le_add_recipient e" "w_service w = Some p"
    and "get_service e w = (q, w')"
  shows "q = Some p \<and> (let registered = (le_register e = 0 \<and> (clientDeathObserver (oc_loader (w_client w)) \<or> le_make_observer e)) in
    pasteboardServiceProxy (oc_loader (w_client (service_dies w'))) = (if registered then None else Some p) \<and>
    (\<not> registered \<longrightarrow> (\<forall>e'. fst (get_service e' (service_dies w')) = Some p \<and> (\<forall>A f. fst (call_service A p f (service_dies w')) = ap_dead A))))"
proof -
  let ?l = "oc_loader (w_client w)" and ?r = "le_register e = 0 \<and> (clientDeathObserver (oc_loader (w_client w)) \<or> le_make_observer e)"
  have g: "q = Some p" "w' = on_client (\<lambda>oc. oc\<lparr>oc_loader := SetPasteboardServiceProxy e p ?l\<rparr>) w"
    using assms SetPasteboardServiceProxy_watch(1)[OF assms(6,3), of p] by (simp_all add: get_service_def GetPasteboardService_def Let_def)
  have s: "w_service w' = Some p" using assms(7) by (simp add: g on_client_def)
  have d: "pasteboardServiceProxy (oc_loader (w_client (service_dies w'))) = (if ?r then None else Some p)"
    using service_dies_link(2)[OF s] SetPasteboardServiceProxy_watch[OF assms(6,3), of p] by (simp add: g on_client_def)
  moreover have "fst (get_service e' (service_dies w')) = Some p" if "\<not> ?r" for e'
    using d that by (simp add: get_service_def GetPasteboardService_def)
  moreover have "fst (call_service A p f (service_dies w')) = ap_dead A" for A f
    using service_dies_link(1)[OF s] by (simp add: call_service_def)
  ultimately show ?thesis using g(1) by simp
qed

section \<open>Observers after a restart\<close>

definition map_of_type :: "u32 \<Rightarrow> which_map" where
  "map_of_type ty = (if ty = OBSERVER_LOCAL then LocalMap else if ty = OBSERVER_REMOTE then RemoteMap else EventMap)"

text \<open>The observers a process has when it registered those of the list.\<close>

definition registered_set :: "caller \<Rightarrow> (u32 \<times> nat) list \<Rightarrow> which_map \<Rightarrow> i32 \<Rightarrow> i32 \<Rightarrow> nat set" where
  "registered_set c xs w u p = (if p = c_pid c then {obs. \<exists>ty. (ty, obs) \<in> set xs \<and> map_of_type ty = w \<and> observer_user ty c = u} else {})"

definition observer_type_ok :: "i32 \<Rightarrow> caller \<Rightarrow> u32 \<Rightarrow> bool" where
  "observer_type_ok uid c ty \<longleftrightarrow> ty = OBSERVER_LOCAL \<or> ty = OBSERVER_REMOTE \<or> ty = OBSERVER_EVENT \<and> IsCallerUidValid uid c"

lemma Subscribe_single:
  assumes "observer_type_ok uid c ty" "c_userId c \<noteq> ERROR_USERID"
  shows "snd (SubscribeObserver uid isIme c ty obs s) =
    snd (AddObserver (observer_user ty c) (c_pid c) obs (map_of_type ty) (SetInputMethodPid isIme (observer_user ty c) (c_pid c) s))"
proof -
  have "COMMON_USERID \<noteq> ERROR_USERID" by (simp add: COMMON_USERID_def ERROR_USERID_def)
  then show ?thesis
    using assms
    by (auto simp: observer_type_ok_def SubscribeObserver_def AddObserver_if_def map_of_type_def observer_user_def bits
        OBSERVER_LOCAL_def OBSERVER_REMOTE_def OBSERVER_EVENT_def has_bit_def Let_def split: prod.split)
qed

lemma registered_size:
  assumes "\<And>w u p. obs_of w u p s = registered_set c xs w u p"
  shows "GetAllObserversSize u (c_pid c) s \<le> length xs"
proof -
  let ?of = "\<lambda>t v. {obs. (t, obs) \<in> set xs \<and> observer_user t c = v}"
  have types: "map_of_type ty = LocalMap \<longleftrightarrow> ty = OBSERVER_LOCAL" "map_of_type ty = RemoteMap \<longleftrightarrow> ty = OBSERVER_REMOTE" for ty
    by (auto simp: map_of_type_def OBSERVER_LOCAL_def OBSERVER_REMOTE_def)
  have fin: "finite {x \<in> set xs. P x}" for P by simp
  let ?A = "{x \<in> set xs. fst x = OBSERVER_LOCAL}" and ?B = "{x \<in> set xs. fst x = OBSERVER_REMOTE}"
    and ?C = "{x \<in> set xs. fst x \<noteq> OBSERVER_LOCAL \<and> fst x \<noteq> OBSERVER_REMOTE}"
  have sub: "registered_set c xs LocalMap u (c_pid c) \<subseteq> snd ` ?A" "registered_set c xs RemoteMap u (c_pid c) \<subseteq> snd ` ?B"
    "registered_set c xs EventMap COMMON_USERID (c_pid c) \<subseteq> snd ` ?C"
    by (force simp: registered_set_def map_of_type_def split: if_splits)+
  have le: "card X \<le> card Y" if "X \<subseteq> snd ` Y" "finite Y" for X :: "nat set" and Y :: "(u32 \<times> nat) set"
    using that by (meson card_image_le card_mono finite_imageI order_trans)
  have "GetAllObserversSize u (c_pid c) s \<le> card ?A + card ?B + card ?C"
    unfolding size_obs assms by (intro add_mono le sub fin)
  also have "\<dots> = card (?A \<union> ?B \<union> ?C)"
    by (subst card_Un_disjoint; (subst card_Un_disjoint)?) (auto simp: OBSERVER_LOCAL_def OBSERVER_REMOTE_def)
  also have "\<dots> \<le> card (set xs)" by (intro card_mono) auto
  also have "\<dots> \<le> length xs" by (rule card_length)
  finally show ?thesis .
qed

lemma Subscribe_registers:
  assumes "observer_type_ok uid c ty" "c_userId c \<noteq> ERROR_USERID" "length xs < MAX_OBSERVER_COUNT"
    and "\<And>w u p. obs_of w u p s = registered_set c xs w u p"
  shows "obs_of w u p (snd (SubscribeObserver uid isIme c ty (Some obs) s)) = registered_set c (xs @ [(ty, obs)]) w u p"
proof -
  let ?u = "observer_user ty c" and ?s = "SetInputMethodPid isIme (observer_user ty c) (c_pid c) s"
  have "GetAllObserversSize ?u (c_pid c) ?s < MAX_OBSERVER_COUNT"
    using registered_size[of s c xs ?u] assms(3,4) by simp
  then have "fst (AddObserver ?u (c_pid c) (Some obs) (map_of_type ty) ?s)" by (simp add: AddObserver_result)
  then show ?thesis
    unfolding Subscribe_single[OF assms(1,2)] AddObserver_obs by (auto simp: assms(4) registered_set_def)
qed

lemma resubscribe_fold:
  assumes "ap_hap A" "c_userId (ap_caller A) \<noteq> ERROR_USERID" "\<forall>x \<in> set ys. observer_type_ok (ap_uid A) (ap_caller A) (fst x)"
    and "length (xs @ ys) \<le> MAX_OBSERVER_COUNT" "w_service w = Some p" "\<And>m u q. obs_of m u q (w_observers w) = registered_set (ap_caller A) xs m u q"
  shows "obs_of m u q (w_observers (fold (resubscribe_one A p) ys w)) = registered_set (ap_caller A) (xs @ ys) m u q"
  using assms
proof (induction ys arbitrary: xs w m u q)
  case (Cons y ys)
  let ?s = "snd (SubscribeObserver (ap_uid A) (ap_ime A) (ap_caller A) (fst y) (Some (snd y)) (w_observers w))"
  have s: "resubscribe_one A p y w = w\<lparr>w_observers := ?s\<rparr>"
    using Cons.prems(1,5) by (simp add: resubscribe_one_def call_service_def ResubscribeObserver_def split: prod.split)
  have "obs_of m u q ?s = registered_set (ap_caller A) (xs @ [y]) m u q" for m u q
    using Subscribe_registers[of "ap_uid A" "ap_caller A" "fst y" xs "w_observers w" m u q "ap_ime A" "snd y"] Cons.prems by simp
  then show ?case
    using Cons.IH[of "xs @ [y]" "w\<lparr>w_observers := ?s\<rparr>"] Cons.prems by (simp add: s)
qed simp

text \<open>The system ability manager knows the process and the registration with it succeeds.\<close>

definition link_works :: "link_env \<Rightarrow> nat \<Rightarrow> bool" where
  "link_works e p \<longleftrightarrow> le_samgr e \<and> le_check e = Some p \<and> le_add_recipient e \<and> le_make_observer e \<and> le_register e = 0"

lemma link_connects:
  assumes "link_works e p" "pasteboardServiceProxy l = None" "\<not> constructing l"
  shows "\<exists>l'. GetPasteboardService e l = (Some p, l')"
  using assms by (auto simp: link_works_def GetPasteboardService_def SetPasteboardServiceProxy_def Let_def)

lemma fold_resubscribe_service: "w_service (fold (resubscribe_one A p) ys w) = w_service w"
  by (induction ys arbitrary: w) (simp_all add: resubscribe_one_def call_service_def split: prod.split)

text \<open>C21: Observers survive a restart of the service. When an application that listens for restarts has at most ten
  observers, for changes or, if it may have them, for events, and the service dies and starts again, the new process has for this application exactly the
  observers the client keeps, each for its own kind of event, and no others.\<close>

theorem observers_survive_restart:
  assumes "isSubscribeSa (w_client w)" "w_service w = Some p0" "\<not> constructing (oc_loader (w_client w))"
    and "xs = observerSet (w_client w)" "length xs \<le> MAX_OBSERVER_COUNT"
      "\<forall>x \<in> set xs. observer_type_ok (ap_uid A) (ap_caller A) (fst x)"
    and "ap_hap A" "c_userId (ap_caller A) \<noteq> ERROR_USERID" "link_works e p"
  shows "obs_of m u q (w_observers (service_starts e A p (service_dies w))) = registered_set (ap_caller A) xs m u q"
proof -
  note d = service_dies_link[OF assms(2)]
  let ?w1 = "on_client (\<lambda>oc. oc\<lparr>oc_loader := ClearPasteboardServiceProxy (oc_loader oc)\<rparr>)
      ((service_dies w)\<lparr>w_service := Some p, w_observers := no_observers\<rparr>)"
  obtain l' where g: "GetPasteboardService e (oc_loader (w_client ?w1)) = (Some p, l')"
    using link_connects[OF assms(9), of "oc_loader (w_client ?w1)"] d(6) assms(3)
    by (auto simp: ClearPasteboardServiceProxy_def)
  let ?w2 = "on_client (\<lambda>oc. oc\<lparr>oc_loader := l'\<rparr>) ?w1"
  have o: "obs_of m u q (w_observers ?w2) = registered_set (ap_caller A) [] m u q" for m u q
    by (cases m) (simp_all add: no_observers_def obs_of_def registered_set_def)
  have h: "hasDied (w_client ?w1)" "observerSet (w_client ?w2) = xs" "isSubscribeSa (w_client (service_dies w))"
    using d(3-5) assms(1,4) by simp_all
  have "Resubscribe_client e A ?w1 = fold (resubscribe_one A p) xs ?w2"
    unfolding Resubscribe_client_def get_service_def g using h(2) by (simp only: prod.case option.case)
  then have "w_observers (service_starts e A p (service_dies w)) = w_observers (fold (resubscribe_one A p) xs ?w2)"
    unfolding service_starts_def OnAddSystemAbility_def Let_def using h(1,3) by simp
  moreover have "w_service ?w2 = Some p" by simp
  ultimately show ?thesis
    using resubscribe_fold[OF assms(7,8,6), of "[]" ?w2 p m u q] assms(5) o by simp
qed

definition sample_link :: link_env where
  "sample_link = \<lparr>le_samgr = True, le_check = Some 2, le_load = 0, le_loaded = None, le_add_recipient = True, le_make_observer = True,
     le_register = 0, le_subscribe_sa = 0, le_anco = False\<rparr>"

definition sample_observer_app :: app where
  "sample_observer_app = \<lparr>ap_uid = 1000, ap_ime = None, ap_hap = True, ap_caller = sample_app, ap_dead = 29189\<rparr>"

definition sample_world :: world where
  "sample_world = \<lparr>w_client = \<lparr>oc_loader = new_loader, observerSet = [(OBSERVER_LOCAL, 3)], isSubscribeSa = True, saCallback = True, hasDied = False\<rparr>,
     w_service = Some 1, w_observers = no_observers\<rparr>"

theorem observers_survive_restart_witness:
  "3 \<in> obs_of LocalMap 100 5 (w_observers (service_starts sample_link sample_observer_app 2 (service_dies sample_world)))"
proof -
  have l: "link_works sample_link 2" by (simp add: link_works_def sample_link_def)
  have w: "isSubscribeSa (w_client sample_world)" "w_service sample_world = Some 1" "\<not> constructing (oc_loader (w_client sample_world))"
    "[(OBSERVER_LOCAL, 3)] = observerSet (w_client sample_world)" by (simp_all add: sample_world_def new_loader_def)
  have a: "ap_hap sample_observer_app" "c_userId (ap_caller sample_observer_app) \<noteq> ERROR_USERID"
    by (simp_all add: sample_observer_app_def sample_app_def ERROR_USERID_def)
  have "obs_of LocalMap 100 5 (w_observers (service_starts sample_link sample_observer_app 2 (service_dies sample_world))) =
      registered_set (ap_caller sample_observer_app) [(OBSERVER_LOCAL, 3)] LocalMap 100 5"
    by (rule observers_survive_restart[OF w _ _ a l]) (simp_all add: MAX_OBSERVER_COUNT_def observer_type_ok_def)
  then show ?thesis
    by (simp only:) (simp add: registered_set_def sample_observer_app_def sample_app_def map_of_type_def observer_user_def bits)
qed

theorem service_death_noticed_witness:
  "\<forall>e'. fst (get_service e' (service_dies (snd (get_service (sample_link\<lparr>le_register := 5\<rparr>) (sample_world\<lparr>w_service := Some 2\<rparr>))))) = Some 2"
proof -
  let ?w = "sample_world\<lparr>w_service := Some 2\<rparr>" and ?e = "sample_link\<lparr>le_register := 5\<rparr>"
  obtain q w' where g: "get_service ?e ?w = (q, w')" by (meson surj_pair)
  have "q = Some 2 \<and> (let registered = (le_register ?e = 0 \<and> (clientDeathObserver (oc_loader (w_client ?w)) \<or> le_make_observer ?e)) in
    pasteboardServiceProxy (oc_loader (w_client (service_dies w'))) = (if registered then None else Some 2) \<and>
    (\<not> registered \<longrightarrow> (\<forall>e'. fst (get_service e' (service_dies w')) = Some 2 \<and> (\<forall>A f. fst (call_service A 2 f (service_dies w')) = ap_dead A))))"
    by (rule service_death_noticed[OF _ _ _ _ _ _ _ g]) (simp_all add: sample_world_def sample_link_def new_loader_def)
  moreover have "le_register ?e \<noteq> 0" by simp
  ultimately show ?thesis unfolding g by (simp only: Let_def snd_conv) blast
qed

end
