(* ===== verification/Shared_Memory.thy ===== *)
theory Shared_Memory
  imports Paste_Entry
begin

text \<open>
  Large messages between the client and the service: \<open>MessageParcelWarp\<close> of
  \<open>framework/tlv/message_parcel_warp.cpp\<close>. A parcel is the list of what was written to it, read from
  the front; \<open>ch_memory\<close> holds the contents of shared memory by descriptor. The kernel and the parcel are
  the parameter \<open>mem_env\<close>: the descriptor of new memory (negative on failure), the descriptor a
  reader gets for one that was sent, and which calls succeed. Sizes are below the range of \<open>size_t\<close>, so they are natural
  numbers; a read past the end of the source buffer is \<open>None\<close>.
\<close>

section \<open>State\<close>

definition SIZE_K :: int where "SIZE_K = 1024"
definition KERNEL_MIN_SIZE :: int where "KERNEL_MIN_SIZE = 1"
definition KERNEL_MAX_SIZE :: int where "KERNEL_MAX_SIZE = 2048"
definition MIN_RAW_SIZE :: nat where "MIN_RAW_SIZE = 32 * 1024"
definition WRITE_SPLIT_CHUNK_SIZE :: nat where "WRITE_SPLIT_CHUNK_SIZE = 256 * 1024 * 1024"
definition DEFAULT_MAX_RAW_DATA_SIZE :: int where "DEFAULT_MAX_RAW_DATA_SIZE = 128 * 1024 * 1024"

datatype parcel_item = PInt64 i64 | PBuffer "byte list" | PFd i32

record mem_env =
  me_param :: i32 \<comment> \<open>\<open>const.pasteboard.local_data_capacity\<close>\<close>
  me_memcpy_max :: nat \<comment> \<open>the largest destination \<open>memcpy_s\<close> accepts\<close>
  me_create :: "nat \<Rightarrow> i32"
  me_setprot :: "i32 \<Rightarrow> i32"
  me_mmap :: bool
  me_writes_int64 :: bool
  me_writes_buffer :: bool
  me_writes_fd :: bool
  me_dup :: "i32 \<Rightarrow> i32"
  me_size :: "i32 \<Rightarrow> i32"

record MessageParcelWarp =
  writeRawDataFd :: i32
  readRawDataFd :: i32
  kernelMappedWrite :: bool
  kernelMappedRead :: bool
  warp_rawDataSize :: nat
  canWrite :: bool
  canRead :: bool

record channel =
  ch_parcel :: "parcel_item list"
  ch_memory :: "(i32 \<times> byte list) list"

definition new_warp :: MessageParcelWarp where
  "new_warp = \<lparr>writeRawDataFd = - 1, readRawDataFd = - 1, kernelMappedWrite = False, kernelMappedRead = False,
     warp_rawDataSize = 0, canWrite = True, canRead = True\<rparr>"

definition GetRawDataSize :: "mem_env \<Rightarrow> int" where
  "GetRawDataSize M =
     (if KERNEL_MIN_SIZE \<le> sint (me_param M) \<and> sint (me_param M) \<le> KERNEL_MAX_SIZE
      then sint (me_param M) * SIZE_K * SIZE_K else DEFAULT_MAX_RAW_DATA_SIZE)"

definition close_fd :: "i32 \<Rightarrow> (i32 \<times> byte list) list \<Rightarrow> (i32 \<times> byte list) list" where
  "close_fd fd m = (if sint fd \<ge> 0 then filter (\<lambda>(f, _). f \<noteq> fd) m else m)"

definition destroy_warp :: "MessageParcelWarp \<Rightarrow> channel \<Rightarrow> channel" where
  "destroy_warp w ch = ch\<lparr>ch_memory := close_fd (writeRawDataFd w) (close_fd (readRawDataFd w) (ch_memory ch))\<rparr>"

section \<open>Copying in chunks\<close>

text \<open>\<open>memcpy_s\<close> refuses a destination of size 0 or over its limit, and a source larger than the destination.\<close>

definition memcpy_s :: "nat \<Rightarrow> byte list \<Rightarrow> nat \<Rightarrow> nat \<Rightarrow> byte list \<Rightarrow> byte list option" where
  "memcpy_s limit dest offset destMax bs =
     (if destMax = 0 \<or> destMax > limit \<or> length bs > destMax then None
      else Some (take offset dest @ bs @ drop (offset + length bs) dest))"

definition read_at :: "byte list \<Rightarrow> nat \<Rightarrow> nat \<Rightarrow> byte list run" where
  "read_at data offset n = (if offset + n \<le> length data then Some (take n (drop offset data)) else None)"

text \<open>\<open>Some None\<close> is a copy that \<open>memcpy_s\<close> refuses.\<close>

function memcpy_loop :: "nat \<Rightarrow> byte list \<Rightarrow> byte list \<Rightarrow> nat \<Rightarrow> nat \<Rightarrow> nat \<Rightarrow> byte list option run" where
  "memcpy_loop limit dest data n offset remaining =
     (if remaining = 0 then Some (Some dest)
      else
        let currentChunkSize = (if remaining > WRITE_SPLIT_CHUNK_SIZE then WRITE_SPLIT_CHUNK_SIZE else remaining);
            destSize = n - offset;
            copyCount = (if currentChunkSize \<le> destSize then currentChunkSize else destSize)
        in case read_at data offset currentChunkSize of
             None \<Rightarrow> None
           | Some bs \<Rightarrow> (case memcpy_s limit dest offset copyCount bs of
               None \<Rightarrow> Some None
             | Some dest' \<Rightarrow> memcpy_loop limit dest' data n (offset + currentChunkSize) (remaining - currentChunkSize)))"
  by auto
termination
  by (relation "measure (\<lambda>(_, _, _, _, _, remaining). remaining)") (auto simp: WRITE_SPLIT_CHUNK_SIZE_def)

declare memcpy_loop.simps [simp del]

definition MemcpyData :: "nat \<Rightarrow> byte list \<Rightarrow> nat \<Rightarrow> byte list \<Rightarrow> nat \<Rightarrow> byte list option run" where
  "MemcpyData limit dest n data count =
     (if n \<le> WRITE_SPLIT_CHUNK_SIZE
      then (case read_at data 0 count of None \<Rightarrow> None | Some bs \<Rightarrow> Some (memcpy_s limit dest 0 n bs))
      else memcpy_loop limit dest data n 0 n)"

section \<open>Writing and reading\<close>

definition WriteRawData_warp :: "mem_env \<Rightarrow> byte list \<Rightarrow> nat \<Rightarrow> MessageParcelWarp \<Rightarrow> channel \<Rightarrow>
    (bool \<times> MessageParcelWarp \<times> channel) run" where
  "WriteRawData_warp M data n w ch =
     (if \<not> canWrite w then Some (False, w, ch)
      else let w1 = w\<lparr>canWrite := False\<rparr> in
      if \<not> (0 < n \<and> int n \<le> GetRawDataSize M) then Some (False, w1, ch)
      else if kernelMappedWrite w1 then Some (False, w1, ch)
      else if \<not> me_writes_int64 M then Some (False, w1, ch)
      else let ch1 = ch\<lparr>ch_parcel := ch_parcel ch @ [PInt64 (word_of_nat n)]\<rparr> in
      if n \<le> MIN_RAW_SIZE
      then do {
        bs \<leftarrow> read_at data 0 n;
        Some (if me_writes_buffer M then (True, w1\<lparr>warp_rawDataSize := n\<rparr>, ch1\<lparr>ch_parcel := ch_parcel ch1 @ [PBuffer bs]\<rparr>)
              else (False, w1\<lparr>warp_rawDataSize := n\<rparr>, ch1))
      }
      else let fd = me_create M n in
      if sint fd < 0 then Some (False, w1, ch1)
      else let w2 = w1\<lparr>writeRawDataFd := fd\<rparr>;
               ch2 = ch1\<lparr>ch_memory := (fd, replicate n 0) # ch_memory ch1\<rparr>
           in if sint (me_setprot M fd) < 0 then Some (False, w2, ch2)
      else if \<not> me_mmap M then Some (False, w2, ch2)
      else if \<not> me_writes_fd M then Some (False, w2, ch2)
      else let ch3 = ch2\<lparr>ch_parcel := ch_parcel ch2 @ [PFd fd]\<rparr> in
        do {
          copied \<leftarrow> MemcpyData (me_memcpy_max M) (replicate n 0) n data n;
          case copied of
            None \<Rightarrow> Some (False, w2, ch3)
          | Some bs \<Rightarrow> Some (True, w2\<lparr>kernelMappedWrite := True, warp_rawDataSize := n\<rparr>, ch3\<lparr>ch_memory := (fd, bs) # ch_memory ch1\<rparr>)
        })"

text \<open>\<open>None\<close> of the result is the null pointer. A parcel whose next item is another one yields 0, no bytes and
  an invalid descriptor.\<close>

fun ReadInt64 :: "parcel_item list \<Rightarrow> i64 \<times> parcel_item list" where
  "ReadInt64 (PInt64 n # ps) = (n, ps)"
| "ReadInt64 ps = (0, ps)"

fun ReadUnpadBuffer :: "nat \<Rightarrow> parcel_item list \<Rightarrow> byte list option \<times> parcel_item list" where
  "ReadUnpadBuffer n (PBuffer bs # ps) = (if n \<le> length bs then (Some (take n bs), ps) else (None, PBuffer bs # ps))"
| "ReadUnpadBuffer n ps = (None, ps)"

fun ReadFileDescriptor :: "mem_env \<Rightarrow> channel \<Rightarrow> i32 \<times> channel" where
  "ReadFileDescriptor M ch = (case ch_parcel ch of
      PFd fd # ps \<Rightarrow> (me_dup M fd, ch\<lparr>ch_parcel := ps, ch_memory :=
         (case map_of (ch_memory ch) fd of
            Some bs \<Rightarrow> if sint (me_dup M fd) \<ge> 0 then (me_dup M fd, bs) # ch_memory ch else ch_memory ch
          | None \<Rightarrow> ch_memory ch)\<rparr>)
    | _ \<Rightarrow> (- 1, ch))"

definition ReadRawData :: "mem_env \<Rightarrow> nat \<Rightarrow> MessageParcelWarp \<Rightarrow> channel \<Rightarrow>
    byte list option \<times> MessageParcelWarp \<times> channel" where
  "ReadRawData M n w ch =
     (if \<not> canRead w then (None, w, ch)
      else let w1 = w\<lparr>canRead := False\<rparr> in
      if \<not> (0 < n \<and> int n \<le> GetRawDataSize M) then (None, w1, ch)
      else case ReadInt64 (ch_parcel ch) of (v, ps) \<Rightarrow>
        let bufferSize = unat (ucast v :: u64); ch1 = ch\<lparr>ch_parcel := ps\<rparr> in
        if bufferSize \<noteq> n then (None, w1, ch1)
        else if bufferSize \<le> MIN_RAW_SIZE
        then (case ReadUnpadBuffer n ps of (bs, ps') \<Rightarrow> (bs, w1\<lparr>warp_rawDataSize := n\<rparr>, ch1\<lparr>ch_parcel := ps'\<rparr>))
        else case ReadFileDescriptor M ch1 of (fd, ch2) \<Rightarrow>
          if sint fd < 0 then (None, w1, ch2)
          else let w2 = w1\<lparr>readRawDataFd := fd\<rparr>; actualSize = sint (me_size M fd) in
            if \<not> (actualSize \<ge> 0 \<and> int n \<le> actualSize) then (None, w2, ch2)
            else if \<not> me_mmap M then (None, w2, ch2)
            else (map_option (take n) (map_of (ch_memory ch2) fd), w2\<lparr>kernelMappedRead := True, warp_rawDataSize := n\<rparr>, ch2))"

definition CreateTmpFd :: "mem_env \<Rightarrow> MessageParcelWarp \<Rightarrow> channel \<Rightarrow> i32 \<times> MessageParcelWarp \<times> channel" where
  "CreateTmpFd M w ch =
     (let fd = me_create M 1
      in if sint fd < 0 then (- 1, w, ch)
         else (fd, w\<lparr>writeRawDataFd := fd\<rparr>, ch\<lparr>ch_memory := (fd, [0]) # ch_memory ch\<rparr>))"

definition GetWriteDataFd :: "MessageParcelWarp \<Rightarrow> i32" where
  "GetWriteDataFd w = writeRawDataFd w"

section \<open>What is written is read\<close>

lemma memcpy_loop_copies:
  assumes "offset + remaining = n" "length dest = n" "length data = n" "take offset dest = take offset data"
    and "WRITE_SPLIT_CHUNK_SIZE \<le> limit"
  shows "memcpy_loop limit dest data n offset remaining = Some (Some data)"
  using assms
proof (induction limit dest data n offset remaining rule: memcpy_loop.induct)
  case (1 limit dest data n offset remaining)
  show ?case
  proof (cases "remaining = 0")
    case True
    then show ?thesis using "1.prems" by (simp add: memcpy_loop.simps)
  next
    case False
    define k where "k = (if remaining > WRITE_SPLIT_CHUNK_SIZE then WRITE_SPLIT_CHUNK_SIZE else remaining)"
    have k: "0 < k" "k \<le> remaining" "k \<le> limit" using False "1.prems"(5) by (auto simp: k_def WRITE_SPLIT_CHUNK_SIZE_def)
    let ?bs = "take k (drop offset data)"
    let ?dest = "take offset dest @ ?bs @ drop (offset + k) dest"
    have r: "read_at data offset k = Some ?bs" using k "1.prems"(1,3) by (simp add: read_at_def)
    have len: "length ?bs = k" using k "1.prems"(1,3) by simp
    have m: "memcpy_s limit dest offset k ?bs = Some ?dest" using k len by (simp add: memcpy_s_def)
    have t: "take (offset + k) ?dest = take (offset + k) data"
      using "1.prems"(1-4) k by (simp add: take_add)
    have "memcpy_loop limit ?dest data n (offset + k) (remaining - k) = Some (Some data)"
      using "1.IH"[OF False, of k "n - offset" k ?bs ?dest] k r m t len "1.prems" by (auto simp: k_def[symmetric])
    moreover have "k \<le> n - offset" using k "1.prems"(1) by simp
    ultimately show ?thesis
      using False r m by (subst memcpy_loop.simps) (simp add: k_def[symmetric] Let_def)
  qed
qed

lemma MemcpyData_copies:
  assumes "0 < n" "length dest = n" "length data = n" "WRITE_SPLIT_CHUNK_SIZE \<le> limit"
  shows "MemcpyData limit dest n data n = Some (Some data)"
  using assms memcpy_loop_copies[of 0 n n dest data limit]
  by (auto simp: MemcpyData_def read_at_def memcpy_s_def)

lemma close_fresh [simp]: "fd \<notin> fst ` set m \<Longrightarrow> sint fd \<ge> 0 \<Longrightarrow> close_fd fd ((fd, bs) # m) = m"
  by (force simp: close_fd_def filter_id_conv)

lemma close_none [simp]: "close_fd (- 1) m = m"
  by (simp add: close_fd_def)

lemma close_absent: "fd \<notin> fst ` set m \<Longrightarrow> close_fd fd m = m"
  by (force simp: close_fd_def filter_id_conv)

text \<open>Whatever a call returns, the descriptors it made are closed with the object.\<close>

lemma WriteRawData_released:
  assumes "WriteRawData_warp M data n new_warp ch = Some (ok, w, ch1)" "me_create M n \<notin> fst ` set (ch_memory ch)"
  shows "ch_memory (destroy_warp w ch1) = ch_memory ch"
  using assms
  by (auto simp: WriteRawData_warp_def new_warp_def destroy_warp_def Let_def not_less bind_eq_Some_conv split: if_splits option.splits)

lemma ReadRawData_released:
  assumes "ReadRawData M n new_warp ch = (res, w, ch1)" "\<And>fd. me_dup M fd \<notin> fst ` set (ch_memory ch)"
  shows "ch_memory (destroy_warp w ch1) = ch_memory ch"
  using assms
  by (auto simp: ReadRawData_def new_warp_def destroy_warp_def Let_def not_less close_absent
      split: if_splits option.splits prod.splits list.splits parcel_item.splits)

text \<open>The kernel and the parcel work.\<close>

definition memory_works :: "mem_env \<Rightarrow> nat \<Rightarrow> bool" where
  "memory_works M n \<longleftrightarrow> me_writes_int64 M \<and> me_writes_buffer M \<and> me_writes_fd M \<and> me_mmap M \<and>
     WRITE_SPLIT_CHUNK_SIZE \<le> me_memcpy_max M \<and> 0 \<le> sint (me_create M n) \<and> 0 \<le> sint (me_setprot M (me_create M n)) \<and>
     0 \<le> sint (me_dup M (me_create M n)) \<and> (n > MIN_RAW_SIZE \<longrightarrow> sint (me_size M (me_dup M (me_create M n))) = int n)"

lemma GetRawDataSize_bound: "GetRawDataSize M \<le> 2 ^ 31"
  by (auto simp: GetRawDataSize_def KERNEL_MAX_SIZE_def SIZE_K_def DEFAULT_MAX_RAW_DATA_SIZE_def)

lemma WriteRawData_works:
  assumes "memory_works M n" "n = length data" "0 < n" "int n \<le> GetRawDataSize M"
  shows "WriteRawData_warp M data n new_warp ch = Some (True,
    if n \<le> MIN_RAW_SIZE then (new_warp\<lparr>canWrite := False, warp_rawDataSize := n\<rparr>, ch\<lparr>ch_parcel := ch_parcel ch @ [PInt64 (word_of_nat n), PBuffer data]\<rparr>)
    else (new_warp\<lparr>canWrite := False, warp_rawDataSize := n, writeRawDataFd := me_create M n, kernelMappedWrite := True\<rparr>,
      ch\<lparr>ch_parcel := ch_parcel ch @ [PInt64 (word_of_nat n), PFd (me_create M n)], ch_memory := (me_create M n, data) # ch_memory ch\<rparr>))"
proof -
  have c: "MemcpyData (me_memcpy_max M) (replicate n 0) n data n = Some (Some data)" "read_at data 0 n = Some data"
  proof -
    have l: "WRITE_SPLIT_CHUNK_SIZE \<le> me_memcpy_max M" using assms(1) by (simp add: memory_works_def)
    show "MemcpyData (me_memcpy_max M) (replicate n 0) n data n = Some (Some data)"
      by (rule MemcpyData_copies[OF assms(3) _ assms(2)[symmetric] l]) simp
    show "read_at data 0 n = Some data" using assms(2) by (simp add: read_at_def)
  qed
  have w: "me_writes_int64 M" "me_writes_buffer M" "me_writes_fd M" "me_mmap M" "\<not> sint (me_create M n) < 0"
    "\<not> sint (me_setprot M (me_create M n)) < 0" using assms(1) by (simp_all add: memory_works_def)
  show ?thesis
    using w assms(3,4) by (simp add: WriteRawData_warp_def new_warp_def Let_def c)
qed

lemma ReadRawData_works:
  assumes "me_mmap M" "n = length data" "0 < n" "int n \<le> GetRawDataSize M"
  shows "n \<le> MIN_RAW_SIZE \<Longrightarrow> ch_parcel ch = [PInt64 (word_of_nat n), PBuffer data] \<Longrightarrow>
      ReadRawData M n new_warp ch = (Some data, new_warp\<lparr>canRead := False, warp_rawDataSize := n\<rparr>, ch\<lparr>ch_parcel := []\<rparr>)"
    and "\<not> n \<le> MIN_RAW_SIZE \<Longrightarrow> ch_parcel ch = [PInt64 (word_of_nat n), PFd fd] \<Longrightarrow>
      map_of (ch_memory ch) fd = Some data \<Longrightarrow> 0 \<le> sint (me_dup M fd) \<Longrightarrow> sint (me_size M (me_dup M fd)) = int n \<Longrightarrow>
      ReadRawData M n new_warp ch = (Some data, new_warp\<lparr>canRead := False, warp_rawDataSize := n, readRawDataFd := me_dup M fd, kernelMappedRead := True\<rparr>,
        ch\<lparr>ch_parcel := [], ch_memory := (me_dup M fd, data) # ch_memory ch\<rparr>)"
proof -
  have "unat (ucast (word_of_nat n :: i64) :: u64) = n"
    using assms(4) GetRawDataSize_bound[of M] by (simp add: unat_of_nat take_bit_eq_mod)
  then show "n \<le> MIN_RAW_SIZE \<Longrightarrow> ch_parcel ch = [PInt64 (word_of_nat n), PBuffer data] \<Longrightarrow>
      ReadRawData M n new_warp ch = (Some data, new_warp\<lparr>canRead := False, warp_rawDataSize := n\<rparr>, ch\<lparr>ch_parcel := []\<rparr>)"
    "\<not> n \<le> MIN_RAW_SIZE \<Longrightarrow> ch_parcel ch = [PInt64 (word_of_nat n), PFd fd] \<Longrightarrow>
      map_of (ch_memory ch) fd = Some data \<Longrightarrow> 0 \<le> sint (me_dup M fd) \<Longrightarrow> sint (me_size M (me_dup M fd)) = int n \<Longrightarrow>
      ReadRawData M n new_warp ch = (Some data, new_warp\<lparr>canRead := False, warp_rawDataSize := n, readRawDataFd := me_dup M fd, kernelMappedRead := True\<rparr>,
        ch\<lparr>ch_parcel := [], ch_memory := (me_dup M fd, data) # ch_memory ch\<rparr>)"
    using assms by (auto simp: ReadRawData_def new_warp_def Let_def)
qed

text \<open>C23: Data of any size up to the limit crosses the process boundary unchanged. When the kernel and the
  parcel work, the writer accepts the data, in the parcel itself or in shared memory filled in chunks, the
  reader on the other side gets exactly the same bytes and leaves nothing in the parcel, and after both
  objects are destroyed no descriptor is left open.\<close>

theorem raw_data_roundtrip:
  assumes "memory_works M n" "n = length data" "0 < n" "int n \<le> GetRawDataSize M"
    and "ch_parcel ch = []" "me_create M n \<notin> fst ` set (ch_memory ch)"
      "me_dup M (me_create M n) \<notin> insert (me_create M n) (fst ` set (ch_memory ch))"
  shows "\<exists>w ch1 w' ch2. WriteRawData_warp M data n new_warp ch = Some (True, w, ch1) \<and>
    ReadRawData M n new_warp ch1 = (Some data, w', ch2) \<and> ch_parcel ch2 = [] \<and>
    ch_memory (destroy_warp w (destroy_warp w' ch2)) = ch_memory ch"
proof -
  have mm: "me_mmap M" using assms(1) by (simp add: memory_works_def)
  show ?thesis
  proof (cases "n \<le> MIN_RAW_SIZE")
    case True
    then show ?thesis
      using WriteRawData_works[OF assms(1-4), of ch] ReadRawData_works(1)[OF mm assms(2-4) True, of "ch\<lparr>ch_parcel := [PInt64 (word_of_nat n), PBuffer data]\<rparr>"]
      by (simp add: assms(5) destroy_warp_def new_warp_def)
  next
    case False
    then show ?thesis
      using WriteRawData_works[OF assms(1-4), of ch] ReadRawData_works(2)[OF mm assms(2-4) False,
          of "ch\<lparr>ch_parcel := [PInt64 (word_of_nat n), PFd (me_create M n)], ch_memory := (me_create M n, data) # ch_memory ch\<rparr>" "me_create M n"] assms
      by (auto simp: destroy_warp_def new_warp_def memory_works_def)
  qed
qed

definition sample_mem :: mem_env where
  "sample_mem = \<lparr>me_param = 128, me_memcpy_max = 2147483647, me_create = (\<lambda>_. 5), me_setprot = (\<lambda>_. 0), me_mmap = True,
     me_writes_int64 = True, me_writes_buffer = True, me_writes_fd = True, me_dup = (\<lambda>_. 6), me_size = (\<lambda>_. 40000)\<rparr>"

theorem raw_data_roundtrip_witness:
  "\<exists>w ch1 w' ch2. WriteRawData_warp sample_mem (replicate 40000 7) 40000 new_warp \<lparr>ch_parcel = [], ch_memory = []\<rparr> = Some (True, w, ch1) \<and>
     ReadRawData sample_mem 40000 new_warp ch1 = (Some (replicate 40000 7), w', ch2) \<and> ch_memory (destroy_warp w (destroy_warp w' ch2)) = []"
proof -
  have "memory_works sample_mem 40000" by (simp add: memory_works_def sample_mem_def WRITE_SPLIT_CHUNK_SIZE_def)
  moreover have "int 40000 \<le> GetRawDataSize sample_mem"
    by (simp add: GetRawDataSize_def sample_mem_def KERNEL_MIN_SIZE_def KERNEL_MAX_SIZE_def SIZE_K_def)
  ultimately show ?thesis
    using raw_data_roundtrip[of sample_mem 40000 "replicate 40000 7" "\<lparr>ch_parcel = [], ch_memory = []\<rparr>"]
    by (auto simp: sample_mem_def)
qed

end
