(* ===== verification/Client.thy ===== *)
theory Client
  imports Shared_Memory Paste_Request
begin

text \<open>
  The client of an application, \<open>framework/innerkits/src/pasteboard_client.cpp\<close>: copying and pasting
  through the service, with the shared memory that carries large data (\<open>Shared_Memory\<close>) and the requests of
  the service (\<open>Service_Copy\<close>, \<open>Service_Read\<close>). A call to the service is its model applied to what
  the client sends; a descriptor that is sent is duplicated (\<open>me_dup\<close>). \<open>cl_up\<close> says whether the
  service can be reached. The codes \<open>ERR_INVALID_VALUE\<close> and \<open>ERR_INVALID_DATA\<close> of the system are parameters, and so
  are the data \<open>cl_leftover\<close> a failed \<open>Decode\<close> leaves behind. Reports and traces are left out.
\<close>

section \<open>Environment\<close>

record client_env =
  cl_mem :: mem_env
  cl_up :: bool
  cl_ERR_INVALID_VALUE :: i32
  cl_ERR_INVALID_DATA :: i32
  cl_new_delay :: bool \<comment> \<open>the \<open>nothrow\<close> allocations succeed\<close>
  cl_new_entry :: bool
  cl_fetch :: client \<comment> \<open>delayed values, \<open>PasteboardServiceLoader::GetRecordValueByType\<close>\<close>
  cl_leftover :: "PasteData \<Rightarrow> byte list \<Rightarrow> PasteData"

definition ConvertErrCode :: "client_env \<Rightarrow> i32 \<Rightarrow> i32" where
  "ConvertErrCode C errCode =
     (if errCode = cl_ERR_INVALID_VALUE C \<or> errCode = cl_ERR_INVALID_DATA C then SERIALIZATION_ERROR
      else if errCode = ERR_OK then E_OK
      else errCode)"

section \<open>Copying\<close>

text \<open>The agents the service calls for delayed data: \<open>PasteboardDelayGetterClient\<close>, with the converted data of the
  application (\<open>None\<close> when the conversion gives none), and \<open>PasteboardEntryGetterClient\<close>.\<close>

definition delay_agent :: "PasteData option \<Rightarrow> delay_getter" where
  "delay_agent delayData d = (case delayData of None \<Rightarrow> d | Some d' \<Rightarrow> assign_data d d')"

type_synonym entry_getters = "(u32 \<times> (string \<Rightarrow> entry_value) option) list"

definition entry_agent :: "entry_getters \<Rightarrow> entry_getter" where
  "entry_agent getters recordId value = (case map_of getters recordId of
      None \<Rightarrow> (INVALID_DATA_ERROR, value)
    | Some None \<Rightarrow> (E_OK, value)
    | Some (Some getValueByType) \<Rightarrow> (E_OK, value\<lparr>ent_value := getValueByType (ent_utdId value)\<rparr>))"

definition CreateGetterAgent :: "client_env \<Rightarrow> PasteData option option \<Rightarrow> entry_getters \<Rightarrow> PasteData \<Rightarrow>
    delay_getter option \<times> entry_getter option \<times> PasteData" where
  "CreateGetterAgent C delayGetter getters d =
     (let d1 = (if delayGetter \<noteq> None then d\<lparr>pd_isDelayData := True\<rparr> else d);
          delayAgent = (case delayGetter of Some g \<Rightarrow> if cl_new_delay C then Some (delay_agent g) else None | None \<Rightarrow> None);
          d2 = (if getters \<noteq> [] then d1\<lparr>pd_isDelayRecord := True\<rparr> else d1);
          entryAgent = (if getters \<noteq> [] \<and> cl_new_entry C then Some (entry_agent getters) else None);
          d3 = (if pd_isDelayData d2 \<and> delayAgent = None then d2\<lparr>pd_isDelayData := False\<rparr> else d2);
          d4 = (if pd_isDelayRecord d3 \<and> entryAgent = None then d3\<lparr>pd_isDelayRecord := False\<rparr> else d3)
      in (delayAgent, entryAgent, d4))"

text \<open>The code, the bytes, the descriptor and the size that are sent.\<close>

definition WritePasteData_client :: "client_env \<Rightarrow> ext \<Rightarrow> PasteData \<Rightarrow> MessageParcelWarp \<Rightarrow> channel \<Rightarrow>
    (i32 \<times> byte list \<times> i32 \<times> i64 \<times> MessageParcelWarp \<times> channel) run" where
  "WritePasteData_client C E d w ch = do {
     n \<leftarrow> CountTLV_data E False d;
     let tlvSize = (word_of_nat n :: i64);
     (if \<not> (0 < sint tlvSize \<and> sint tlvSize \<le> GetRawDataSize (cl_mem C)) then Some (INVALID_DATA_SIZE, [], - 1, tlvSize, w, ch)
      else do {
        encodeTLV \<leftarrow> EncodeTLV_data E False d;
        let (result, pasteDataTlv) = Encode_len (nat (sint tlvSize)) encodeTLV;
        if \<not> result then Some (SERIALIZATION_ERROR, [], - 1, tlvSize, w, ch)
        else if sint tlvSize > sint MIN_ASHMEM_DATA_SIZE
        then do {
          (ok, w1, ch1) \<leftarrow> WriteRawData_warp (cl_mem C) pasteDataTlv (length pasteDataTlv) w ch;
          Some (if \<not> ok then (SERIALIZATION_ERROR, [], - 1, tlvSize, w1, ch1)
                else (E_OK, [], GetWriteDataFd w1, tlvSize, w1, ch1))
        }
        else (case CreateTmpFd (cl_mem C) w ch of (fd, w1, ch1) \<Rightarrow>
          Some (if sint fd < 0 then (SERIALIZATION_ERROR, [], fd, tlvSize, w1, ch1)
                else (E_OK, pasteDataTlv, fd, tlvSize, w1, ch1)))
      })
   }"

text \<open>What the service gets for a descriptor.\<close>

definition sent_memory :: "mem_env \<Rightarrow> i32 \<Rightarrow> channel \<Rightarrow> shared_mem" where
  "sent_memory M fd ch = \<lparr>shm_fd = me_dup M fd, shm_size = me_size M (me_dup M fd),
     shm_bytes = (if me_mmap M then map_of (ch_memory ch) fd else None)\<rparr>"

text \<open>The data is passed by reference: the flags for delayed data stay set.\<close>

definition SetPasteData_client :: "client_env \<Rightarrow> svc_env \<Rightarrow> caller \<Rightarrow> PasteData \<Rightarrow> PasteData option option \<Rightarrow> entry_getters \<Rightarrow>
    channel \<Rightarrow> service \<Rightarrow> (i32 \<times> PasteData \<times> channel \<times> service) run" where
  "SetPasteData_client C V c d delayGetter getters ch s =
     (if \<not> cl_up C then Some (OBTAIN_SERVER_SA_ERROR, d, ch, s)
      else case CreateGetterAgent C delayGetter getters d of (delayAgent, entryAgent, d1) \<Rightarrow> do {
        (ret, pasteDataTlv, fd, tlvSize, w, ch1) \<leftarrow> WritePasteData_client C (sv_ext V) d1 new_warp ch;
        if ret \<noteq> E_OK then Some (ret, d1, destroy_warp w ch1, s)
        else do {
          let m = sent_memory (cl_mem C) fd ch1;
          (ret', s') \<leftarrow>
            (if delayAgent \<noteq> None \<and> entryAgent \<noteq> None then SetPasteData V c m tlvSize pasteDataTlv delayAgent entryAgent s
             else if delayAgent \<noteq> None \<and> entryAgent = None then SetPasteDataDelayData V c m tlvSize pasteDataTlv delayAgent s
             else if delayAgent = None \<and> entryAgent \<noteq> None then SetPasteDataEntryData V c m tlvSize pasteDataTlv entryAgent s
             else SetPasteDataOnly V c m tlvSize pasteDataTlv s);
          Some (ConvertErrCode C ret', d1, destroy_warp w ch1, s')
        }
      })"

section \<open>Pasting\<close>

text \<open>The parcel is local to the call. The descriptor is closed after it is written to the parcel; the parcel
  keeps a duplicate.\<close>

definition ProcessPasteData :: "client_env \<Rightarrow> svc_env \<Rightarrow> PasteData \<Rightarrow> i64 \<Rightarrow> i32 \<Rightarrow> byte list \<Rightarrow> (i32 \<times> byte list) list \<Rightarrow>
    i32 \<times> PasteData" where
  "ProcessPasteData C V d rawDataSize fd recvTLV mem =
     (let M = cl_mem C;
          decode = (\<lambda>bs. case Decode (DecodeTLV_data (sv_ext V) 0 d) bs of
              ROk d' _ \<Rightarrow> (E_OK, d') | _ \<Rightarrow> (DESERIALIZATION_ERROR, cl_leftover C d bs))
      in if sint fd < 0 then (DESERIALIZATION_ERROR, d)
      else if sint rawDataSize \<le> 0 \<or> sint rawDataSize > GetRawDataSize M then (INVALID_DATA_SIZE, d)
      else if sint rawDataSize > sint MIN_ASHMEM_DATA_SIZE
      then (let parcelData = (if me_writes_int64 M then [PInt64 rawDataSize] else []) @ (if me_writes_fd M then [PFd fd] else [])
            in case ReadRawData M (nat (sint rawDataSize)) new_warp \<lparr>ch_parcel = parcelData, ch_memory = mem\<rparr> of
                 (None, _) \<Rightarrow> (DESERIALIZATION_ERROR, d)
               | (Some rawData, _) \<Rightarrow> decode rawData)
      else decode recvTLV)"

definition web_finish :: "client_env \<Rightarrow> svc_env \<Rightarrow> PasteData \<Rightarrow> PasteData run" where
  "web_finish C V d = do {
     d1 \<leftarrow> RemoveInvalidUri (sv_ext V) (sv_web V) (RetainUri d);
     RebuildWebviewPasteData (sv_ext V) (cl_fetch C) (sv_web V) [] 0 d1
   }"

text \<open>The shared memory of the service reaches the client under a new descriptor.\<close>

definition received_memory :: "mem_env \<Rightarrow> i32 \<Rightarrow> pasteboard \<Rightarrow> (i32 \<times> byte list) list" where
  "received_memory M fd b = (case map_of (shared b) fd of None \<Rightarrow> [] | Some bs \<Rightarrow> [(me_dup M fd, bs)])"

definition GetPasteData_client :: "client_env \<Rightarrow> svc_env \<Rightarrow> remote_env \<Rightarrow> caller \<Rightarrow> PasteData \<Rightarrow> u32 \<Rightarrow> pasteboard \<Rightarrow>
    (i32 \<times> PasteData \<times> u32 \<times> pasteboard) run" where
  "GetPasteData_client C V R c d seqId b =
     (if \<not> cl_up C then Some (OBTAIN_SERVER_SA_ERROR, d, seqId + 1, b)
      else do {
        (_, fd, rawDataSize, recvTLV, syncTime, realErrCode, b1) \<leftarrow> GetPasteData V R c 0 [] seqId 0 0 b;
        let fd' = (if sint fd < 0 then fd else me_dup (cl_mem C) fd);
        let ret = ConvertErrCode C realErrCode;
        let (result, d1) = ProcessPasteData C V d rawDataSize fd' recvTLV (received_memory (cl_mem C) fd b1);
        d2 \<leftarrow> web_finish C V d1;
        Some (if ret \<noteq> E_OK then ret else if result = SERIALIZATION_ERROR then result else E_OK, d2, seqId + 1, b1)
      })"

section \<open>What the service receives\<close>

lemma encode_sized:
  assumes "data_fits (sv_ext V) False 0 d" "CountTLV_data (sv_ext V) False d = Some n" "n < 2 ^ 32" "n \<le> rsize_max (sv_ext V)"
  obtains w bs buf where "EncodeTLV_data (sv_ext V) False d = Some w" "Encode_len n w = (True, bs)" "length bs = n"
    "Decode (DecodeTLV_data (sv_ext V) 0 (new_data P now)) bs = ROk (data_received (sv_ext V) False d) buf"
proof -
  obtain bs buf where e: "Encode_data (sv_ext V) False d = Some (True, bs)"
    "Decode (DecodeTLV_data (sv_ext V) 0 (new_data P now)) bs = ROk (data_received (sv_ext V) False d) buf"
    using Encode_Decode_data[OF assms, of P now] by blast
  then obtain w where w: "EncodeTLV_data (sv_ext V) False d = Some w" "Encode_len n w = (True, bs)"
    using assms(2) by (auto simp: Encode_data_def Encode_def bind_eq_Some_conv)
  have "length bs = n"
    using Encode_data_bytes[OF assms] count_data_covers[OF assms(1)] assms(2) e(1) by auto
  then show thesis using that[OF w _ e(2)] by blast
qed

text \<open>The client can pass \<open>n\<close> bytes: shared memory works, for the data and for the descriptor of small data.\<close>

definition can_send :: "mem_env \<Rightarrow> nat \<Rightarrow> bool" where
  "can_send M n \<longleftrightarrow> memory_works M n \<and> 0 < n \<and> int n \<le> GetRawDataSize M \<and> 0 \<le> sint (me_create M 1) \<and> 0 \<le> sint (me_dup M (me_create M 1))"

lemma client_hands_over:
  assumes fits: "data_fits (sv_ext V) False 0 d" "CountTLV_data (sv_ext V) False d = Some n" "n < 2 ^ 32" "n \<le> rsize_max (sv_ext V)"
    and send: "can_send (cl_mem C) n" "\<And>k. me_create (cl_mem C) k \<notin> fst ` set (ch_memory ch)"
  shows "\<exists>buf fd w ch1. WritePasteData_client C (sv_ext V) d new_warp ch = Some (E_OK, buf, fd, word_of_nat n, w, ch1) \<and>
    0 \<le> sint (me_dup (cl_mem C) fd) \<and> ch_memory (destroy_warp w ch1) = ch_memory ch \<and>
    WritePasteData V (sent_memory (cl_mem C) fd ch1) (word_of_nat n) buf (new_data P now) s =
      (E_OK, True, (data_received (sv_ext V) False d)\<lparr>pd_rawDataSize := word_of_nat n\<rparr>, CloseSharedMemFd (me_dup (cl_mem C) fd) s)"
proof -
  let ?M = "cl_mem C"
  obtain w bs buf where e: "EncodeTLV_data (sv_ext V) False d = Some w" "Encode_len n w = (True, bs)" "length bs = n"
    "Decode (DecodeTLV_data (sv_ext V) 0 (new_data P now)) bs = ROk (data_received (sv_ext V) False d) buf"
    using encode_sized[OF fits] by blast
  have n: "sint (word_of_nat n :: i64) = int n" using fits(3) by (intro sint_length) simp
  have M: "memory_works ?M n" "0 < n" "int n \<le> GetRawDataSize ?M" using send(1) by (simp_all add: can_send_def)
  have W: "0 \<le> sint (me_dup ?M (me_create ?M n))" "me_mmap ?M" "n > MIN_RAW_SIZE \<Longrightarrow> sint (me_size ?M (me_dup ?M (me_create ?M n))) = int n"
    "0 \<le> sint (me_create ?M n)" using M(1) by (simp_all add: memory_works_def)
  have dec: "decode_into V bs (new_data P now) = (True, data_received (sv_ext V) False d)" by (simp add: decode_into_def e(4))
  show ?thesis
  proof (cases "n > MIN_RAW_SIZE")
    case True
    then have "sint MIN_ASHMEM_DATA_SIZE < int n" by (simp add: MIN_ASHMEM_DATA_SIZE_def MIN_RAW_SIZE_def)
    then show ?thesis
      using WriteRawData_works[OF M(1) e(3)[symmetric] M(2,3), of ch] True W dec send(2)[of n] M(2,3)
      by (simp add: WritePasteData_client_def WritePasteData_def fits(2) e n sent_memory_def GetWriteDataFd_def new_warp_def
          destroy_warp_def Let_def)
  next
    case False
    then have "\<not> sint MIN_ASHMEM_DATA_SIZE < int n" by (simp add: MIN_ASHMEM_DATA_SIZE_def MIN_RAW_SIZE_def)
    then show ?thesis
      using send(1) dec send(2)[of 1] M(2,3)
      by (simp add: WritePasteData_client_def WritePasteData_def fits(2) e n sent_memory_def CreateTmpFd_def can_send_def new_warp_def
          destroy_warp_def Let_def)
  qed
qed

text \<open>What the service does with a copy request once the data is decoded.\<close>

definition copy_decoded :: "svc_env \<Rightarrow> caller \<Rightarrow> i64 \<Rightarrow> delay_getter option \<Rightarrow> entry_getter option \<Rightarrow> PasteData \<Rightarrow> service \<Rightarrow>
    (i32 \<times> service) run" where
  "copy_decoded V c n dg eg d s =
     (let d2 = UpdateShareOption (globalShareOptions s) (SetTokenId (sv_params V) (GetDataTokenId V c d) d)
      in case try_disposable V d2 s of (consumed, s1) \<Rightarrow>
        if consumed then Some (ERR_OK, s1) else save_request V c n dg eg d2 s1)"

lemma SetPasteData_decoded:
  assumes "0 \<le> sint (shm_fd m)" "0 < sint n" "sint n \<le> sint (max_raw V)"
    and "WritePasteData V m n buf (new_data (sv_params V) (now_ms V)) (SetCriticalTimer s) = (E_OK, True, d, s1)"
  shows "SetPasteData V c m n buf dg eg s = copy_decoded V c n dg eg d s1"
  using assms by (simp add: SetPasteData_def copy_decoded_def Let_def)

text \<open>C13: What an application copies is what the service saves. When the data fits the format and shared
  memory works, the client encodes the data, with its flags for delayed values set exactly if there are getters, and
  sends it in the message or in shared memory; the service decodes precisely this data, up to the fields the
  format does not carry, and goes on with it and the getters. The client returns the converted
  code of the service, and its descriptors are closed.\<close>

theorem client_copy_delivers:
  assumes agents: "CreateGetterAgent C delayGetter getters d = (dg, eg, d1)" and up: "cl_up C"
    and fits: "data_fits (sv_ext V) False 0 d1" "CountTLV_data (sv_ext V) False d1 = Some n" "n < 2 ^ 32" "n \<le> rsize_max (sv_ext V)"
      "int n \<le> sint (max_raw V)"
    and send: "can_send (cl_mem C) n" "\<And>k. me_create (cl_mem C) k \<notin> fst ` set (ch_memory ch)"
  shows "(pd_isDelayData d1 \<longleftrightarrow> dg \<noteq> None) \<and> (pd_isDelayRecord d1 \<longleftrightarrow> eg \<noteq> None) \<and> pd_records d1 = pd_records d \<and>
    (\<exists>fd ch1. 0 \<le> sint fd \<and> ch_memory ch1 = ch_memory ch \<and>
      SetPasteData_client C V c d delayGetter getters ch s = do {
        (ret, s') \<leftarrow> copy_decoded V c (word_of_nat n) dg eg ((data_received (sv_ext V) False d1)\<lparr>pd_rawDataSize := word_of_nat n\<rparr>)
          (CloseSharedMemFd fd (SetCriticalTimer s));
        Some (ConvertErrCode C ret, d1, ch1, s')
      })"
proof -
  obtain buf fd w ch1 where w: "WritePasteData_client C (sv_ext V) d1 new_warp ch = Some (E_OK, buf, fd, word_of_nat n, w, ch1)"
    "0 \<le> sint (me_dup (cl_mem C) fd)" "ch_memory (destroy_warp w ch1) = ch_memory ch"
    "WritePasteData V (sent_memory (cl_mem C) fd ch1) (word_of_nat n) buf (new_data (sv_params V) (now_ms V)) (SetCriticalTimer s) =
      (E_OK, True, (data_received (sv_ext V) False d1)\<lparr>pd_rawDataSize := word_of_nat n\<rparr>, CloseSharedMemFd (me_dup (cl_mem C) fd) (SetCriticalTimer s))"
    using client_hands_over[OF fits(1-4) send, of "sv_params V" "now_ms V" "SetCriticalTimer s"] by blast
  have n: "sint (word_of_nat n :: i64) = int n" using fits(3) by (intro sint_length) simp
  have p: "0 < n" using send(1) by (simp add: can_send_def)
  have r: "SetPasteData V c (sent_memory (cl_mem C) fd ch1) (word_of_nat n) buf dg eg s =
      copy_decoded V c (word_of_nat n) dg eg ((data_received (sv_ext V) False d1)\<lparr>pd_rawDataSize := word_of_nat n\<rparr>)
        (CloseSharedMemFd (me_dup (cl_mem C) fd) (SetCriticalTimer s))"
    by (rule SetPasteData_decoded) (use w(2,4) n p fits(5) in \<open>simp_all add: sent_memory_def\<close>)
  have f: "(pd_isDelayData d1 \<longleftrightarrow> dg \<noteq> None) \<and> (pd_isDelayRecord d1 \<longleftrightarrow> eg \<noteq> None) \<and> pd_records d1 = pd_records d"
    using agents by (auto simp: CreateGetterAgent_def Let_def split: option.splits if_splits)
  have "SetPasteData_client C V c d delayGetter getters ch s = do {
        (ret, s') \<leftarrow> copy_decoded V c (word_of_nat n) dg eg ((data_received (sv_ext V) False d1)\<lparr>pd_rawDataSize := word_of_nat n\<rparr>)
          (CloseSharedMemFd (me_dup (cl_mem C) fd) (SetCriticalTimer s));
        Some (ConvertErrCode C ret, d1, destroy_warp w ch1, s')
      }"
    using up r by (cases dg; cases eg) (simp_all add: SetPasteData_client_def agents w(1) SetPasteDataDelayData_def SetPasteDataEntryData_def
        SetPasteDataOnly_def Let_def)
  with w(2,3) f show ?thesis by blast
qed

section \<open>What the application receives\<close>

lemma ProcessPasteData_received:
  assumes M: "me_mmap (cl_mem C)" "me_writes_int64 (cl_mem C)" "me_writes_fd (cl_mem C)"
    and n: "0 < n" "int n \<le> GetRawDataSize (cl_mem C)"
    and fd: "0 \<le> sint fd" "n > MIN_RAW_SIZE \<Longrightarrow> 0 \<le> sint (me_dup (cl_mem C) fd) \<and> sint (me_size (cl_mem C) (me_dup (cl_mem C) fd)) = int n"
    and bs: "length bs = n" "if n > MIN_RAW_SIZE then map_of mem fd = Some bs else raw = bs"
    and dec: "Decode (DecodeTLV_data (sv_ext V) 0 d0) bs = ROk d buf"
  shows "ProcessPasteData C V d0 (word_of_nat n) fd raw mem = (E_OK, d)"
proof -
  have s: "sint (word_of_nat n :: i64) = int n" using n(2) GetRawDataSize_bound[of "cl_mem C"] by (intro sint_length) simp
  have m: "sint MIN_ASHMEM_DATA_SIZE = int MIN_RAW_SIZE" by (simp add: MIN_ASHMEM_DATA_SIZE_def MIN_RAW_SIZE_def)
  show ?thesis
    using ReadRawData_works(2)[OF M(1) bs(1)[symmetric] n, of "\<lparr>ch_parcel = [PInt64 (word_of_nat n), PFd fd], ch_memory = mem\<rparr>" fd] M fd bs(2) dec n
    by (auto simp: ProcessPasteData_def s m Let_def split: if_splits)
qed

text \<open>The client can read an answer of \<open>n\<close> bytes the service sends with the descriptor \<open>fd\<close>.\<close>

definition can_receive :: "mem_env \<Rightarrow> i32 \<Rightarrow> nat \<Rightarrow> bool" where
  "can_receive M fd n \<longleftrightarrow> me_mmap M \<and> me_writes_int64 M \<and> me_writes_fd M \<and> int n \<le> GetRawDataSize M \<and> 0 \<le> sint (me_dup M fd) \<and>
     (n > MIN_RAW_SIZE \<longrightarrow> 0 \<le> sint (me_dup M (me_dup M fd)) \<and> sint (me_size M (me_dup M (me_dup M fd))) = int n)"

lemma ConvertErrCode_ok [simp]: "ERR_OK \<notin> {cl_ERR_INVALID_VALUE C, cl_ERR_INVALID_DATA C} \<Longrightarrow> ConvertErrCode C ERR_OK = E_OK"
  by (simp add: ConvertErrCode_def)

text \<open>C14: Pasting through the client. When an application that may read the pasteboard pastes, no other device has a newer
  clip and nothing in the clip is delayed, the client returns success and the application has the clip of the user as
  the service prepared it for this application, after the last steps for links in HTML and invalid URIs, whether
  the answer came in the message or in shared memory.\<close>

theorem client_paste_delivers:
  assumes a: "a = GetAppInfo V (c_tokenId c)" and may: "may_paste V R c (svc b)"
    and clip: "map_of (clips (svc b)) (ai_userId a) = Some clip" "map_of (copyTime (svc b)) (ai_userId a) = Some t"
      "\<not> pd_isDelayData clip" "\<not> pd_isDelayRecord clip" "data_ok clip"
    and valid: "IsDataValid clip (ai_tokenId a) (ai_userId a) (svc b) = E_OK"
    and here: "fst (GetValidDistributeEvent V (ai_userId a) (svc b)) \<noteq> E_OK \<or> GetScreenStatus (ai_userId a) (svc b) \<noteq> ScreenUnlocked"
    and perms: "READ_PERMISSION (sv_web V) \<noteq> READ_WRITE_PERMISSION (sv_web V)"
    and d: "pid = CreatePasteId ''GetPasteData'' seq (c_pid c)"
      "d = SetBundleInfo (ai_bundleName a) (ai_appIndex a) (delivered a pid
         (pasted a ((new_data (sv_params V) (now_ms V))\<lparr>pd_pasteId := pid\<rparr>) clip))"
    and fits: "data_fits (sv_ext V) False 0 d" "CountTLV_data (sv_ext V) False d = Some n" "n < 2 ^ 32" "n \<le> rsize_max (sv_ext V)"
      "0 < n" "int n \<le> sint (max_raw V)"
    and memory: "\<And>k. 0 \<le> sint (AshmemCreate R k)" "\<And>f. 0 \<le> sint (AshmemSetProt R f)" "mmap_ok R" "MemcpyData_ok R"
    and client: "cl_up C" "ERR_OK \<notin> {cl_ERR_INVALID_VALUE C, cl_ERR_INVALID_DATA C}"
      "can_receive (cl_mem C) (AshmemCreate R (if int n > sint MIN_ASHMEM_DATA_SIZE then word_of_nat n else 1)) n"
  shows "\<exists>b1. delayTokenId (svc b1) = c_tokenId c \<and> delayDataId (svc b1) = pd_dataId d \<and>
    GetPasteData_client C V R c (new_data P now) seq b = do {
      d2 \<leftarrow> web_finish C V (data_received (sv_ext V) False d);
      Some (E_OK, d2, seq + 1, b1)
    }"
proof -
  obtain fd raw1 t1 b1 bytes buf where g: "GetPasteData V R c 0 [] seq 0 0 b = Some (0, fd, word_of_nat n, raw1, t1, ERR_OK, b1)"
    and r: "received_bytes fd (word_of_nat n) raw1 b1 = Some bytes" "int (length bytes) = sint (word_of_nat n :: i64)"
      "Decode (DecodeTLV_data (sv_ext V) 0 (new_data P now)) bytes = ROk (data_received (sv_ext V) False d) buf"
    and s: "delayTokenId (svc b1) = c_tokenId c" "delayDataId (svc b1) = pd_dataId d"
      "fd = AshmemCreate R (if int n > sint MIN_ASHMEM_DATA_SIZE then word_of_nat n else 1)"
    using local_paste_answer[OF a may clip valid here perms d fits memory, of 0 "[]" 0 0 P now] by blast
  have n: "sint (word_of_nat n :: i64) = int n" using fits(3) by (intro sint_length) simp
  have m: "sint MIN_ASHMEM_DATA_SIZE = int MIN_RAW_SIZE" by (simp add: MIN_ASHMEM_DATA_SIZE_def MIN_RAW_SIZE_def)
  have bs: "length bytes = n" "if n > MIN_RAW_SIZE then map_of (received_memory (cl_mem C) fd b1) (me_dup (cl_mem C) fd) = Some bytes else raw1 = bytes"
    using r(1,2) by (auto simp: n received_bytes_def received_memory_def m)
  have "0 \<le> sint fd" unfolding s(3) by (rule memory(1))
  moreover have "ProcessPasteData C V (new_data P now) (word_of_nat n) (me_dup (cl_mem C) fd) raw1 (received_memory (cl_mem C) fd b1) =
      (E_OK, data_received (sv_ext V) False d)"
    by (rule ProcessPasteData_received[OF _ _ _ fits(5) _ _ _ bs r(3)]) (use client(3) s(3) in \<open>simp_all add: can_receive_def\<close>)
  ultimately have "GetPasteData_client C V R c (new_data P now) seq b = do {
      d2 \<leftarrow> web_finish C V (data_received (sv_ext V) False d); Some (E_OK, d2, seq + 1, b1) }"
    using client(1,2) by (simp add: GetPasteData_client_def g Let_def)
  with s(1,2) show ?thesis by blast
qed

section \<open>Errors of the transfer\<close>

lemma ProcessPasteData_code:
  assumes "ProcessPasteData C V d n fd raw mem = (result, d1)"
  shows "result \<noteq> SERIALIZATION_ERROR"
proof -
  have "result \<in> {E_OK, DESERIALIZATION_ERROR, INVALID_DATA_SIZE}"
    using assms by (auto simp: ProcessPasteData_def Let_def split: rres.splits option.splits prod.splits if_splits)
  moreover have "SERIALIZATION_ERROR \<notin> {E_OK, DESERIALIZATION_ERROR, INVALID_DATA_SIZE}" by (simp add: err_defs)
  ultimately show ?thesis by metis
qed

text \<open>The code a paste returns is the code the service passes in \<open>realErrCode\<close>, and nothing else: neither the
  result of the call itself nor a failure to map or decode the answer changes it. When the call fails
  before the service sets \<open>realErrCode\<close>, or the answer cannot be decoded, the client reports success.\<close>

theorem client_paste_code:
  assumes "cl_up C" "GetPasteData V R c 0 [] seq 0 0 b = Some (ret, fd, n, raw, t, e, b1)"
    and "ProcessPasteData C V d n (if sint fd < 0 then fd else me_dup (cl_mem C) fd) raw (received_memory (cl_mem C) fd b1) = (result, d1)"
    and "web_finish C V d1 = Some d2"
  shows "GetPasteData_client C V R c d seq b = Some (ConvertErrCode C e, d2, seq + 1, b1) \<and>
    (sint fd < 0 \<longrightarrow> d1 = d \<and> result = DESERIALIZATION_ERROR)"
proof -
  have "result \<noteq> SERIALIZATION_ERROR" by (rule ProcessPasteData_code[OF assms(3)])
  moreover have "sint fd < 0 \<longrightarrow> d1 = d \<and> result = DESERIALIZATION_ERROR"
    using assms(3) by (auto simp: ProcessPasteData_def Let_def)
  ultimately show ?thesis
    using assms by (simp add: GetPasteData_client_def Let_def)
qed

section \<open>Examples\<close>

definition sample_client :: client_env where
  "sample_client = \<lparr>cl_mem = sample_mem, cl_up = True, cl_ERR_INVALID_VALUE = 22, cl_ERR_INVALID_DATA = 5,
     cl_new_delay = True, cl_new_entry = True, cl_fetch = \<lparr>IsPasteboardService = False, GetRecordValueByType = (\<lambda>_ _ e. e)\<rparr>,
     cl_leftover = (\<lambda>d _. d)\<rparr>"

theorem client_paste_delivers_witness:
  "\<exists>b1. delayTokenId (svc b1) = 7 \<and> GetPasteData_client sample_client sample_env sample_remote_env sample_caller (new_data sample_params 9) 4 sample_board = do {
     d2 \<leftarrow> web_finish sample_client sample_env (data_received sample_ext False sample_answer); Some (E_OK, d2, 5, b1) }"
proof -
  obtain n where n: "CountTLV_data sample_ext False sample_answer = Some n" "n \<le> 9999" "0 < n" using sample_answer_count by blast
  have r: "can_receive sample_mem 5 n"
    using n(2) by (simp add: can_receive_def sample_mem_def GetRawDataSize_def KERNEL_MIN_SIZE_def KERNEL_MAX_SIZE_def SIZE_K_def MIN_RAW_SIZE_def)
  have "\<exists>b1. delayTokenId (svc b1) = c_tokenId sample_caller \<and> delayDataId (svc b1) = pd_dataId sample_answer \<and>
    GetPasteData_client sample_client sample_env sample_remote_env sample_caller (new_data sample_params 9) 4 sample_board = do {
      d2 \<leftarrow> web_finish sample_client sample_env (data_received (sv_ext sample_env) False sample_answer);
      Some (E_OK, d2, 4 + 1, b1)
    }"
    by (rule client_paste_delivers[where a = "GetAppInfo sample_env 7" and clip = sample_clip and t = 1 and n = n and pid = "''GetPasteData_1_4''"])
      (use n r sample_answer_fits sample_may_paste sample_clip_ok sample_clip_valid sample_no_event sample_web_perms sample_paste_id in
        \<open>simp_all add: sample_env_fields sample_caller_fields sample_reader sample_board_def init_state_def sample_clip_def new_data_def
          sample_remote_env_def sample_ext_def sample_client_def ERR_OK_def\<close>)
  then show ?thesis by (auto simp: sample_env_fields sample_caller_fields)
qed

text \<open>An application that may not read, when the service cannot make a descriptor.\<close>

theorem client_paste_code_witness:
  "GetPasteData_client sample_client (sample_env\<lparr>IsPermissionGranted := (\<lambda>_ _. False)\<rparr>) (sample_remote_env\<lparr>AshmemCreate := (\<lambda>_. - 1)\<rparr>)
     sample_caller (new_data sample_params 9) 4 sample_board = Some (E_OK, new_data sample_params 9, 5, sample_board)"
proof -
  let ?V = "sample_env\<lparr>IsPermissionGranted := (\<lambda>_ _. False)\<rparr>" and ?R = "sample_remote_env\<lparr>AshmemCreate := (\<lambda>_. - 1)\<rparr>"
  let ?d = "new_data sample_params 9"
  have "\<not> may_paste ?V ?R sample_caller (svc sample_board)"
    by (simp add: may_paste_def VerifyPermission_def GetSdkVersion_def sample_env_def INVALID_VERSION_def Let_def sample_remote_env_def
        ADD_PERMISSION_CHECK_SDK_VERSION_def)
  then have g: "GetPasteData ?V ?R sample_caller 0 [] 4 0 0 sample_board = Some (SERIALIZATION_ERROR, - 1, 0, [], 0, 0, sample_board)"
    by (simp add: GetPasteData_def Inner_refused Let_def)
  have p: "ProcessPasteData sample_client ?V ?d 0 (- 1) [] (received_memory (cl_mem sample_client) (- 1) sample_board) = (DESERIALIZATION_ERROR, ?d)"
    by (simp add: ProcessPasteData_def Let_def)
  have w: "web_finish sample_client ?V ?d = Some ?d"
    by (simp add: web_finish_def RetainUri_def RemoveInvalidUri_def RebuildWebviewPasteData_def new_data_def new_props_def WEBVIEW_PASTEDATA_TAG_def)
  have "cl_up sample_client" "ConvertErrCode sample_client 0 = E_OK" by (simp_all add: sample_client_def ConvertErrCode_def ERR_OK_def)
  then show ?thesis using client_paste_code[OF _ g, of sample_client ?d DESERIALIZATION_ERROR ?d ?d] p w by simp
qed

theorem client_copy_delivers_witness:
  "\<exists>n fd ch1. CountTLV_data sample_ext False sample_answer = Some n \<and>
     SetPasteData_client sample_client sample_env sample_caller sample_answer None [] \<lparr>ch_parcel = [], ch_memory = []\<rparr> init_state = do {
       (ret, s') \<leftarrow> copy_decoded sample_env sample_caller (word_of_nat n) None None ((data_received sample_ext False sample_answer)\<lparr>pd_rawDataSize := word_of_nat n\<rparr>)
         (CloseSharedMemFd fd (SetCriticalTimer init_state));
       Some (ConvertErrCode sample_client ret, sample_answer, ch1, s')
     }"
proof -
  obtain n where n: "CountTLV_data sample_ext False sample_answer = Some n" "n \<le> 9999" "0 < n" using sample_answer_count by blast
  have d: "\<not> pd_isDelayData sample_answer" "\<not> pd_isDelayRecord sample_answer"
    unfolding sample_answer_eq by (simp_all add: sample_clip_def new_data_def)
  have a: "CreateGetterAgent sample_client None [] sample_answer = (None, None, sample_answer)"
    using d by (simp add: CreateGetterAgent_def Let_def)
  have s: "can_send (cl_mem sample_client) n"
    using n(2,3) by (simp add: can_send_def memory_works_def sample_client_def sample_mem_def GetRawDataSize_def KERNEL_MIN_SIZE_def
        KERNEL_MAX_SIZE_def SIZE_K_def MIN_RAW_SIZE_def WRITE_SPLIT_CHUNK_SIZE_def)
  have "cl_up sample_client" "n \<le> rsize_max sample_ext" using n(2) by (simp_all add: sample_client_def sample_ext_def)
  then show ?thesis
    using client_copy_delivers[OF a, of sample_env n "\<lparr>ch_parcel = [], ch_memory = []\<rparr>" sample_caller init_state] n s sample_answer_fits
    by (auto simp: sample_env_fields)
qed

end
