(* ===== verification/Client_Files.thy ===== *)
theory Client_Files
  imports Paste_Request "HOL-Library.Signed_Division"
begin

text \<open>
  Copying the files of a paste: \<open>framework/innerkits/src/pasteboard_copy.cpp\<close>. The file system, the file URIs of
  the application framework and the distributed file copy are the parameter \<open>copy_env\<close>; a copy
  yields its code and the calls of its progress callback. The flag that cancels a paste can be raised at any time:
  \<open>ce_cancel k j\<close> is the answer of the \<open>j\<close>-th test in round \<open>k\<close> of the loop. Arithmetic on \<open>float\<close> is rounding to 24 bits.
\<close>

section \<open>Progress\<close>

record progress =
  pr_info :: "i32 option" \<comment> \<open>\<open>None\<close>: the pointer is null\<close>
  pr_listener :: bool
  pr_notes :: "i32 option list" \<comment> \<open>the percentage at each call of the listener\<close>

definition notify_progress :: "progress \<Rightarrow> progress" where
  "notify_progress p = (if pr_listener p then p\<lparr>pr_notes := pr_notes p @ [pr_info p]\<rparr> else p)"

definition UpdateProgress :: "i32 \<Rightarrow> progress \<Rightarrow> progress" where
  "UpdateProgress progressValue p = notify_progress (p\<lparr>pr_info := map_option (\<lambda>_. progressValue) (pr_info p)\<rparr>)"

definition PERCENTAGE :: int where "PERCENTAGE = 100"
definition BEGIN_PERCENTAGE :: int where "BEGIN_PERCENTAGE = 20"

text \<open>The length of a number in bits, and rounding to 24 significant bits, ties to even.\<close>

function bit_length :: "int \<Rightarrow> nat" where
  "bit_length n = (if n \<le> 0 then 0 else Suc (bit_length (n div 2)))"
  by auto
termination
  by (relation "measure nat") auto

declare bit_length.simps [simp del]

lemma bit_length_num: "bit_length 0 = 0" "bit_length 1 = 1" "bit_length (numeral (Num.Bit0 w)) = Suc (bit_length (numeral w))"
    "bit_length (numeral (Num.Bit1 w)) = Suc (bit_length (numeral w))"
  by (subst bit_length.simps; simp add: bit_length.simps)+

definition round24 :: "int \<Rightarrow> int" where
  "round24 x =
     (let a = \<bar>x\<bar>; k = bit_length a - 24; q = a div 2 ^ k; r = a mod 2 ^ k;
          q' = (if 2 * r > 2 ^ k \<or> 2 * r = 2 ^ k \<and> odd q then q + 1 else q)
      in sgn x * q' * 2 ^ k)"

text \<open>\<open>FILE_PERCENTAGE\<close>, the \<open>float\<close> nearest to 0.8, times \<open>2 ^ 24\<close>.\<close>

definition FILE_PERCENTAGE :: int where "FILE_PERCENTAGE = 13421773"

definition scale_percentage :: "int \<Rightarrow> int" where
  "scale_percentage p = round24 (round24 (round24 p * FILE_PERCENTAGE) + BEGIN_PERCENTAGE * 2 ^ 24) sdiv 2 ^ 24"

definition OnProgressNotify :: "progress \<Rightarrow> progress" where
  "OnProgressNotify p = (case pr_info p of
      None \<Rightarrow> p
    | Some v \<Rightarrow>
        let v1 = (if sint v > PERCENTAGE then PERCENTAGE else sint v);
            v2 = max \<bar>scale_percentage v1\<bar> 0
        in notify_progress (p\<lparr>pr_info := Some (word_of_int v2)\<rparr>))"

text \<open>The callback of one copy: sizes, and whether the paste is cancelled and the file service can be asked to stop (\<open>canCancel_\<close>). Such a
  callback asks the file service to stop and reports nothing.\<close>

definition callback_percentage :: "u64 \<Rightarrow> u64 \<Rightarrow> u32" where
  "callback_percentage processSize totalSize = (if totalSize \<noteq> 0 then ucast (100 * processSize div totalSize) else 0)"

definition HandleProgress :: "i32 \<Rightarrow> i32 \<Rightarrow> u32 \<Rightarrow> bool \<Rightarrow> progress \<Rightarrow> progress" where
  "HandleProgress recordSize index percentage cancel p =
     (if pr_info p = None \<or> sint index < 1 \<or> sint recordSize \<le> 0 \<or> cancel then p
      else let totalProgress = ((sint index - 1) * PERCENTAGE + sint (ucast percentage :: i32)) sdiv sint recordSize
           in OnProgressNotify (p\<lparr>pr_info := Some (word_of_int totalProgress)\<rparr>))"

section \<open>Paths\<close>

record copy_env =
  ce_cancel :: "nat \<Rightarrow> nat \<Rightarrow> bool"
  ce_copy :: "nat \<Rightarrow> string \<Rightarrow> string \<Rightarrow> i32 \<times> (u64 \<times> u64 \<times> bool) list"
  ce_real_path :: "string \<Rightarrow> string" \<comment> \<open>\<open>FileUri::GetRealPath\<close>\<close>
  ce_path :: "string \<Rightarrow> string" \<comment> \<open>\<open>FileUri::GetPath\<close>\<close>
  ce_uri :: "string \<Rightarrow> string" \<comment> \<open>\<open>CommonFunc::GetUriFromPath\<close>\<close>
  ce_is_dir :: "string \<Rightarrow> bool"
  ce_is_file :: "string \<Rightarrow> bool"
  ce_exists :: "string \<Rightarrow> bool"
  ce_dest :: string
  ce_skip :: bool \<comment> \<open>\<open>fileConflictOption == FILE_SKIP\<close>\<close>

text \<open>The names between the slashes of a path; several slashes count as one, and a path that ends with a slash ends with
  the empty name.\<close>

fun path_names :: "string \<Rightarrow> string \<Rightarrow> string list" where
  "path_names cur [] = [cur]"
| "path_names cur (c # cs) =
     (if c = CHR ''/'' then (if cur = [] then path_names [] cs else cur # path_names [] cs) else path_names (cur @ [c]) cs)"

text \<open>\<open>realPath\<close> is built from the components; \<open>parent_path\<close> of the root and of the empty path is the path itself.\<close>

fun real_names :: "string list \<Rightarrow> string list \<Rightarrow> string list" where
  "real_names acc [] = acc"
| "real_names acc (n # ns) =
     (if n = ''.'' then real_names acc ns
      else if n = ''..'' then real_names (butlast acc) ns
      else real_names (acc @ [n]) ns)"

fun join_names :: "string list \<Rightarrow> string" where
  "join_names [] = []"
| "join_names [n] = n"
| "join_names (n # m # ns) = n @ ''/'' @ join_names (m # ns)"

definition GetRealPath :: "string \<Rightarrow> string" where
  "GetRealPath path = (if take 1 path = ''/'' then ''/'' else []) @ join_names (real_names [] (path_names [] path))"

definition NETWORK_PARA :: string where "NETWORK_PARA = ''?networkid=''"

definition IsRemoteUri :: "string \<Rightarrow> bool" where
  "IsRemoteUri uri \<longleftrightarrow> (\<exists>i \<le> length uri. take (length NETWORK_PARA) (drop i uri) = NETWORK_PARA)"

text \<open>\<open>rfind\<close> with position 0 finds the character only at the front; otherwise it gives \<open>npos\<close>, cut to 32 bits.\<close>

definition rfind_query :: "string \<Rightarrow> nat" where
  "rfind_query s = (if take 1 s = ''?'' then 0 else 2 ^ 32 - 1)"

definition filename :: "string \<Rightarrow> string" where
  "filename path = last (path_names [] path)"

record CopyInfo =
  ci_srcUri :: string
  ci_destUri :: string
  ci_srcPath :: string
  ci_destPath :: string

definition ERRNO_NOERR :: i32 where "ERRNO_NOERR = 0"
definition E_EXIST :: i32 where "E_EXIST = 17"
definition ENOMEM :: i32 where "ENOMEM = 12"
definition DFS_CANCEL_SUCCESS :: i32 where "DFS_CANCEL_SUCCESS = 204"

definition InitCopyInfo :: "copy_env \<Rightarrow> string \<Rightarrow> i32 \<times> CopyInfo" where
  "InitCopyInfo ce srcUri =
     (let srcPath = GetRealPath (ce_real_path ce srcUri);
          destPath = GetRealPath (ce_path ce (ce_dest ce));
          realSrc = (if IsRemoteUri srcUri then take (rfind_query srcPath) srcPath else srcPath);
          destDir = (if destPath \<noteq> [] \<and> last destPath = CHR ''/'' then destPath else destPath @ ''/'');
          (destPath', destUri) = (if ce_is_dir ce destPath
            then (destDir @ filename realSrc, ce_uri ce (destDir @ filename realSrc)) else (destPath, ce_dest ce));
          info = \<lparr>ci_srcUri = srcUri, ci_destUri = destUri, ci_srcPath = srcPath, ci_destPath = destPath'\<rparr>
      in if ce_skip ce \<and> ce_exists ce destPath' then (E_EXIST, info)
         else if \<not> ce_is_file ce (GetRealPath (ce_real_path ce realSrc)) then (ENOMEM, info)
         else (ERRNO_NOERR, info))"

section \<open>The loop over the records\<close>

text \<open>The answer, the code and the record afterwards.\<close>

definition ShouldKeepRecord :: "ext \<Rightarrow> copy_env \<Rightarrow> nat \<Rightarrow> i32 \<Rightarrow> string \<Rightarrow> PasteDataRecord \<Rightarrow> (bool \<times> i32 \<times> PasteDataRecord) run" where
  "ShouldKeepRecord E ce k ret destUri r =
     (if (ret = E_OK \<or> ret = ERRNO_NOERR) \<and> \<not> ce_cancel ce k 1
      then do { r1 \<leftarrow> SetUri E (Some (mk_uri E destUri)) r; Some (True, ret, r1\<lparr>rec_convertUri := []\<rparr>) }
      else if rec_from r > 0 \<and> rec_recordId r \<noteq> rec_from r \<and> \<not> ce_cancel ce k 2 then Some (True, ERRNO_NOERR, r)
      else Some (False, ret, r))"

definition run_callbacks :: "i32 \<Rightarrow> nat \<Rightarrow> (u64 \<times> u64 \<times> bool) list \<Rightarrow> progress \<Rightarrow> progress" where
  "run_callbacks recordSize k cbs p =
     fold (\<lambda>(done, total, cancel). HandleProgress recordSize (word_of_nat k) (callback_percentage done total) cancel) cbs p"

definition copy_one :: "ext \<Rightarrow> copy_env \<Rightarrow> i32 \<Rightarrow> nat \<Rightarrow> PasteDataRecord \<Rightarrow> string \<Rightarrow> progress \<Rightarrow>
    (bool \<times> i32 \<times> PasteDataRecord \<times> progress) run" where
  "copy_one E ce recordSize k r srcUri p =
     (let info = snd (InitCopyInfo ce srcUri);
          (ret, cbs) = ce_copy ce k srcUri (ci_destUri info)
      in do {
        (keep, ret', r') \<leftarrow> ShouldKeepRecord E ce k ret (ci_destUri info) r;
        Some (keep, ret', r', run_callbacks recordSize k cbs p)
      })"

lemma length_RemoveRecordAt: "index < length (pd_records d) \<Longrightarrow> length (pd_records (snd (RemoveRecordAt index d))) = length (pd_records d) - 1"
  by (simp add: RemoveRecordAt_def RefreshMimeProp_def Let_def)

text \<open>One round at \<open>index\<close>, the \<open>k\<close>-th: the loop is left (\<open>Inl\<close>) or goes on with a new index, code, data and progress.\<close>

type_synonym copy_state = "nat \<times> i32 \<times> PasteData \<times> progress"

definition copy_round :: "ext \<Rightarrow> copy_env \<Rightarrow> i32 \<Rightarrow> nat \<Rightarrow> copy_state \<Rightarrow> (i32 \<times> PasteData \<times> progress) run + copy_state" where
  "copy_round E ce recordSize k st = (case st of (index, ret, d, p) \<Rightarrow>
     if ce_cancel ce k 0 then Inr (index, ret, snd (RemoveRecordAt index d), p)
     else case GetRecordAt index d of
         None \<Rightarrow> Inl (Some (INVALID_PARAM_ERROR, d, p))
       | Some r \<Rightarrow> (case GetUriV0 E r of
           None \<Rightarrow> Inl None
         | Some None \<Rightarrow> Inr (Suc index, ret, d, p)
         | Some (Some srcUri) \<Rightarrow>
             if fst (InitCopyInfo ce srcUri) = E_EXIST then Inr (index, ret, snd (RemoveRecordAt index d), p)
             else (case copy_one E ce recordSize k r srcUri p of
                 None \<Rightarrow> Inl None
               | Some (keep, ret', r', p') \<Rightarrow>
                   if keep then Inr (Suc index, ret', set_record index r' d, p')
                   else Inr (index, ret', snd (RemoveRecordAt index d), p'))))"

lemma copy_round_shrinks:
  assumes "copy_round E ce n k (index, ret, d, p) = Inr (index', ret', d', p')" "index < length (pd_records d)"
  shows "length (pd_records d') - index' < length (pd_records d) - index"
  using assms by (auto simp: copy_round_def length_RemoveRecordAt split: if_splits option.splits)

function copy_loop :: "ext \<Rightarrow> copy_env \<Rightarrow> i32 \<Rightarrow> nat \<Rightarrow> copy_state \<Rightarrow> (i32 \<times> PasteData \<times> progress) run" where
  "copy_loop E ce recordSize k (index, ret, d, p) =
     (if index < length (pd_records d)
      then (case copy_round E ce recordSize (Suc k) (index, ret, d, p) of
              Inl result \<Rightarrow> result
            | Inr st \<Rightarrow> copy_loop E ce recordSize (Suc k) st)
      else Some (if ret = ERRNO_NOERR \<or> ret = DFS_CANCEL_SUCCESS then E_OK else ret, d, p))"
  by pat_completeness auto
termination
  proof (relation "measure (\<lambda>(_, _, _, _, index, _, d, _). length (pd_records d) - index)")
  show "wf (measure (\<lambda>(_, _, _, _, index, _, d, _). length (pd_records d) - index))" by (rule wf_measure)
  show "((E, ce, recordSize, Suc k, st), E, ce, recordSize, k, index, ret, d, p)
      \<in> measure (\<lambda>(_, _, _, _, index, _, d, _). length (pd_records d) - index)"
    if "index < length (pd_records d)" "copy_round E ce recordSize (Suc k) (index, ret, d, p) = Inr st"
    for E ce recordSize k index ret d p st
    using that copy_round_shrinks[of E ce recordSize "Suc k" index ret d p] by (cases st) simp
qed

declare copy_loop.simps [simp del]

definition CheckCopyParam :: "PasteData \<Rightarrow> i32 \<times> u32" where
  "CheckCopyParam d = (let recordSize = (word_of_nat (length (pd_records d)) :: u32)
     in if recordSize = 0 then (INVALID_PARAM_ERROR, 0) else (E_OK, recordSize))"

text \<open>At the end \<open>info\<close> is used without a test: a null pointer is \<open>None\<close>.\<close>

definition CopyPasteData :: "ext \<Rightarrow> copy_env \<Rightarrow> PasteData \<Rightarrow> progress \<Rightarrow> (i32 \<times> PasteData \<times> progress) run" where
  "CopyPasteData E ce d p = (case CheckCopyParam d of (ret, recordSize) \<Rightarrow>
     if ret \<noteq> E_OK then Some (ret, d, p)
     else do {
       (ret', d', p1) \<leftarrow> copy_loop E ce (ucast recordSize) 0 (0, E_OK, d, p);
       _ \<leftarrow> pr_info p1;
       Some (if ret' \<noteq> E_OK then COPY_FILE_ERROR else ret', d', OnProgressNotify (p1\<lparr>pr_info := Some (word_of_int PERCENTAGE)\<rparr>))
     })"

section \<open>Paths cannot climb\<close>

lemma path_names_slash: "CHR ''/'' \<notin> set cur \<Longrightarrow> n \<in> set (path_names cur s) \<Longrightarrow> CHR ''/'' \<notin> set n"
  by (induction cur s rule: path_names.induct) (auto split: if_splits)

lemma real_names_subset: "set (real_names acc ns) \<subseteq> set acc \<union> (set ns - {''.'', ''..''})"
proof (induction acc ns rule: real_names.induct)
  case (2 acc n ns)
  have b: "set (butlast acc) \<subseteq> set acc" by (meson in_set_butlastD subsetI)
  show ?case
  proof (cases "n = ''.'' \<or> n = ''..''")
    case True
    then show ?thesis using 2(1,2) b subset_trans[OF _ Un_mono[OF b order_refl]]
      by (cases "n = ''.''") (simp_all add: insert_Diff_if)
  next
    case False
    then have "set (real_names (acc @ [n]) ns) \<subseteq> set (acc @ [n]) \<union> (set ns - {''.'', ''..''})" using 2(3) by simp
    with False show ?thesis by (simp add: insert_Diff_if)
  qed
qed simp

lemma path_names_nonempty [simp]: "path_names cur s \<noteq> []"
  by (induction cur s rule: path_names.induct) auto

lemma last_path_names: "last (path_names cur s) = (if CHR ''/'' \<in> set s then rev (takeWhile (\<lambda>c. c \<noteq> CHR ''/'') (rev s)) else cur @ s)"
proof (induction cur s rule: path_names.induct)
  case (2 cur c cs)
  have t: "takeWhile (\<lambda>c. c \<noteq> CHR ''/'') (rev cs) = rev cs" if "CHR ''/'' \<notin> set cs"
    using that by (auto simp: takeWhile_eq_all_conv)
  then show ?case using 2 by (auto simp: takeWhile_append)
qed simp

lemma filename_no_slash: "CHR ''/'' \<notin> set (filename s)"
  using set_takeWhileD[of "CHR ''/''" "\<lambda>c. c \<noteq> CHR ''/''" "rev s"] by (auto simp: filename_def last_path_names)

lemma filename_join:
  assumes "\<forall>n \<in> set ns. CHR ''/'' \<notin> set n" "ns \<noteq> []" "pre = [] \<or> last pre = CHR ''/''"
  shows "filename (pre @ join_names ns) = last ns"
  using assms
proof (induction ns arbitrary: pre rule: join_names.induct)
  case (2 n)
  then have t: "takeWhile (\<lambda>c. c \<noteq> CHR ''/'') (rev n) = rev n" by (auto simp: takeWhile_eq_all_conv)
  show ?case
  proof (cases "pre = []")
    case True
    then show ?thesis using 2 by (simp add: filename_def last_path_names)
  next
    case False
    then obtain q where "pre = q @ ''/''" using 2(3) by (metis append_butlast_last_id)
    then show ?thesis using t 2(1) by (simp add: filename_def last_path_names takeWhile_append)
  qed
next
  case (3 n m ns)
  then show ?case using "3.IH"[of "pre @ n @ ''/''"] by simp
qed simp

lemma filename_real: "filename (GetRealPath path) \<notin> {''.'', ''..''}"
proof -
  let ?ns = "real_names [] (path_names [] path)" and ?pre = "if take 1 path = ''/'' then ''/'' else []"
  have s: "\<forall>n \<in> set ?ns. CHR ''/'' \<notin> set n \<and> n \<noteq> ''.'' \<and> n \<noteq> ''..''"
    using real_names_subset[of "[]" "path_names [] path"] path_names_slash[of "[]" _ path] by fastforce
  show ?thesis
  proof (cases "?ns = []")
    case True
    then show ?thesis by (simp add: GetRealPath_def filename_def)
  next
    case False
    have "filename (?pre @ join_names ?ns) = last ?ns" by (rule filename_join) (use s False in auto)
    then show ?thesis using s False last_in_set[OF False] by (auto simp: GetRealPath_def)
  qed
qed


section \<open>The loop returns\<close>

lemma OnProgressNotify_info: "pr_info (OnProgressNotify p) = None \<longleftrightarrow> pr_info p = None"
  by (simp add: OnProgressNotify_def notify_progress_def Let_def split: option.split)

lemma HandleProgress_info: "pr_info (HandleProgress n i pct c p) = None \<longleftrightarrow> pr_info p = None"
  by (auto simp: HandleProgress_def OnProgressNotify_info Let_def)

lemma run_callbacks_info: "pr_info (run_callbacks n k cbs p) = None \<longleftrightarrow> pr_info p = None"
  by (induction cbs arbitrary: p) (auto simp: run_callbacks_def HandleProgress_info)

lemma records_RemoveRecordAt: "pd_records (snd (RemoveRecordAt i d)) = take i (pd_records d) @ drop (Suc i) (pd_records d)"
  by (simp add: RemoveRecordAt_def RefreshMimeProp_def Let_def)

lemma data_ok_drop: "data_ok d \<Longrightarrow> data_ok (snd (RemoveRecordAt i d))"
  by (auto simp: data_ok_def records_RemoveRecordAt dest!: in_set_takeD in_set_dropD)

lemma data_ok_set: "data_ok d \<Longrightarrow> no_null_objects r \<Longrightarrow> data_ok (set_record i r d)"
  by (auto simp: data_ok_def set_record_def dest!: set_update_subset_insert[THEN subsetD])

lemma copy_one_total:
  assumes "no_null_objects r"
  shows "\<exists>keep ret r' p'. copy_one E ce n k r u p = Some (keep, ret, r', p') \<and> no_null_objects r' \<and> (pr_info p' = None \<longleftrightarrow> pr_info p = None)"
proof -
  obtain ret cbs where c: "ce_copy ce k u (ci_destUri (snd (InitCopyInfo ce u))) = (ret, cbs)" by (meson surj_pair)
  obtain r1 where r1: "SetUri E (Some (mk_uri E (ci_destUri (snd (InitCopyInfo ce u))))) r = Some r1" "no_null_objects r1"
    using no_null_SetUri[OF assms] by blast
  have "no_null_objects (r1\<lparr>rec_convertUri := []\<rparr>)" using r1(2) by (simp add: no_null_objects_def)
  then show ?thesis using c r1(1) assms by (auto simp: copy_one_def ShouldKeepRecord_def run_callbacks_info Let_def)
qed

lemma copy_round_total:
  assumes "data_ok d" "index < length (pd_records d)"
  shows "\<exists>index' ret' d' p'. copy_round E ce n k (index, ret, d, p) = Inr (index', ret', d', p') \<and> data_ok d' \<and> (pr_info p' = None \<longleftrightarrow> pr_info p = None)"
proof -
  obtain r where r: "GetRecordAt index d = Some r" "no_null_objects r"
    using assms(2) bspec[OF assms(1)[unfolded data_ok_def] nth_mem[OF assms(2)]] by (auto simp: GetRecordAt_def)
  obtain u where u: "GetUriV0 E r = Some u" using getters_defined(5)[OF r(2)] by blast
  show ?thesis
  proof (cases "u = None \<or> ce_cancel ce k 0 \<or> fst (InitCopyInfo ce (the u)) = E_EXIST")
    case True
    then show ?thesis using r(1) u assms(1) data_ok_drop[OF assms(1)] by (cases u) (auto simp: copy_round_def)
  next
    case False
    then obtain srcUri where s: "u = Some srcUri" by auto
    obtain keep ret1 r1 p1 where "copy_one E ce n k r srcUri p = Some (keep, ret1, r1, p1)" "no_null_objects r1" "pr_info p1 = None \<longleftrightarrow> pr_info p = None"
      using copy_one_total[OF r(2), of E ce n k srcUri p] by metis
    then show ?thesis using False r(1) u s assms(1) data_ok_drop data_ok_set by (cases keep) (auto simp: copy_round_def)
  qed
qed

lemma copy_loop_total:
  assumes "data_ok d"
  shows "\<exists>ret' d' p'. copy_loop E ce n k (index, ret, d, p) = Some (ret', d', p') \<and> (pr_info p' = None \<longleftrightarrow> pr_info p = None)"
  using assms
proof (induction "length (pd_records d) - index" arbitrary: k index ret d p rule: less_induct)
  case less
  show ?case
  proof (cases "index < length (pd_records d)")
    case True
    obtain i1 r1 d1 p1 where s: "copy_round E ce n (Suc k) (index, ret, d, p) = Inr (i1, r1, d1, p1)" "data_ok d1" "pr_info p1 = None \<longleftrightarrow> pr_info p = None"
      using copy_round_total[OF less.prems True, of E ce n "Suc k" ret p] by metis
    show ?thesis
      using less.hyps[OF copy_round_shrinks[OF s(1) True] s(2), of "Suc k" r1 p1] s(1,3) True by (auto simp: copy_loop.simps[of E ce n k index])
  qed (simp add: copy_loop.simps)
qed

section \<open>What is left of the records\<close>

text \<open>When nothing is cancelled: the record after round \<open>k\<close>, \<open>None\<close> if it is dropped, and the code the round leaves in \<open>ret\<close>.\<close>

definition round_code :: "ext \<Rightarrow> copy_env \<Rightarrow> nat \<Rightarrow> PasteDataRecord \<Rightarrow> i32 option" where
  "round_code E ce k r = (case GetUriV0 E r of
      Some (Some u) \<Rightarrow> if fst (InitCopyInfo ce u) = E_EXIST then None
        else let ret = fst (ce_copy ce k u (ci_destUri (snd (InitCopyInfo ce u))))
             in if ret \<noteq> E_OK \<and> rec_from r > 0 \<and> rec_recordId r \<noteq> rec_from r then Some ERRNO_NOERR else Some ret
    | _ \<Rightarrow> None)"

definition round_record :: "ext \<Rightarrow> copy_env \<Rightarrow> nat \<Rightarrow> PasteDataRecord \<Rightarrow> PasteDataRecord option" where
  "round_record E ce k r = (case GetUriV0 E r of
      Some (Some u) \<Rightarrow> if fst (InitCopyInfo ce u) = E_EXIST then None
        else let dest = ci_destUri (snd (InitCopyInfo ce u)); ret = fst (ce_copy ce k u dest)
             in if ret = E_OK \<or> ret = ERRNO_NOERR then map_option (\<lambda>r1. r1\<lparr>rec_convertUri := []\<rparr>) (SetUri E (Some (mk_uri E dest)) r)
                else if rec_from r > 0 \<and> rec_recordId r \<noteq> rec_from r then Some r else None
    | _ \<Rightarrow> Some r)"

definition final_code :: "i32 \<Rightarrow> i32" where
  "final_code ret = (if ret = ERRNO_NOERR \<or> ret = DFS_CANCEL_SUCCESS then E_OK else ret)"

lemma copy_one_result:
  assumes "copy_one E ce n k r u p = Some (keep, ret, r', p')" "\<forall>k j. \<not> ce_cancel ce k j"
    and "GetUriV0 E r = Some (Some u)" "fst (InitCopyInfo ce u) \<noteq> E_EXIST"
  shows "round_record E ce k r = (if keep then Some r' else None)" and "final_code ret = final_code (the (round_code E ce k r))"
    and "round_code E ce k r \<noteq> None"
  using assms
  by (auto simp: copy_one_def ShouldKeepRecord_def round_record_def round_code_def final_code_def Let_def bind_eq_Some_conv
      split: prod.splits if_splits)

fun round_records :: "ext \<Rightarrow> copy_env \<Rightarrow> nat \<Rightarrow> PasteDataRecord list \<Rightarrow> PasteDataRecord list" where
  "round_records E ce k [] = []"
| "round_records E ce k (r # rs) = (case round_record E ce k r of Some r' \<Rightarrow> [r'] | None \<Rightarrow> []) @ round_records E ce (Suc k) rs"

fun last_code :: "ext \<Rightarrow> copy_env \<Rightarrow> nat \<Rightarrow> i32 \<Rightarrow> PasteDataRecord list \<Rightarrow> i32" where
  "last_code E ce k ret [] = ret"
| "last_code E ce k ret (r # rs) = last_code E ce (Suc k) (case round_code E ce k r of Some c \<Rightarrow> c | None \<Rightarrow> ret) rs"

lemma last_code_final: "final_code a = final_code b \<Longrightarrow> final_code (last_code E ce k a rs) = final_code (last_code E ce k b rs)"
proof (induction rs arbitrary: k a b)
  case (Cons r rs)
  show ?case
  proof (cases "round_code E ce k r")
    case None
    then show ?thesis using Cons.IH[OF Cons.prems, of "Suc k"] by simp
  qed simp
qed simp

lemma copy_loop_result:
  assumes "\<forall>k j. \<not> ce_cancel ce k j" "pd_records d = map Some (pre @ rest)"
    and "copy_loop E ce n k (length pre, ret, d, p) = Some (ret', d', p')"
  shows "pd_records d' = map Some (pre @ round_records E ce (Suc k) rest) \<and> ret' = final_code (last_code E ce (Suc k) ret rest)"
  using assms(2,3)
proof (induction rest arbitrary: k pre ret d p)
  case Nil
  then show ?case by (auto simp: final_code_def copy_loop.simps)
next
  case (Cons r rest)
  have at: "GetRecordAt (length pre) d = Some r" "length pre < length (pd_records d)"
    using Cons.prems(1) by (simp_all add: GetRecordAt_def nth_append)
  have drop: "pd_records (snd (RemoveRecordAt (length pre) d)) = map Some (pre @ rest)"
    using Cons.prems(1) by (simp add: records_RemoveRecordAt)
  have c0: "\<not> ce_cancel ce (Suc k) 0" using assms(1) by blast
  have step: "copy_loop E ce n k (length pre, ret, d, p) = (case copy_round E ce n (Suc k) (length pre, ret, d, p) of
      Inl result \<Rightarrow> result | Inr st \<Rightarrow> copy_loop E ce n (Suc k) st)"
    using at(2) by (subst copy_loop.simps) simp
  obtain u where u: "GetUriV0 E r = Some u"
    using Cons.prems(2) step at(1) c0 by (cases "GetUriV0 E r") (simp_all add: copy_round_def)
  show ?case
  proof (cases u)
    case None
    then have "copy_loop E ce n (Suc k) (length (pre @ [r]), ret, d, p) = Some (ret', d', p')"
      using Cons.prems(2) step at(1) c0 u by (simp add: copy_round_def)
    then show ?thesis using Cons.IH[of d "pre @ [r]" "Suc k" ret p] Cons.prems(1) u None
      by (simp add: round_record_def round_code_def)
  next
    case (Some srcUri)
    show ?thesis
    proof (cases "fst (InitCopyInfo ce srcUri) = E_EXIST")
      case True
      then have "copy_loop E ce n (Suc k) (length pre, ret, snd (RemoveRecordAt (length pre) d), p) = Some (ret', d', p')"
        using Cons.prems(2) step at(1) c0 u Some by (simp add: copy_round_def)
      then show ?thesis using Cons.IH[OF drop] u Some True by (simp add: round_record_def round_code_def)
    next
      case False
      obtain keep ret1 r1 p1 where o: "copy_one E ce n (Suc k) r srcUri p = Some (keep, ret1, r1, p1)"
        using Cons.prems(2) step at(1) c0 u Some False by (cases "copy_one E ce n (Suc k) r srcUri p") (auto simp: copy_round_def)
      note res = copy_one_result[OF o assms(1) u[unfolded Some] False]
      have code: "final_code (last_code E ce (Suc (Suc k)) ret1 rest) = final_code (last_code E ce (Suc k) ret (r # rest))"
        using last_code_final[OF res(2), of E ce "Suc (Suc k)" rest] res(3) by (auto split: option.splits)
      show ?thesis
      proof (cases keep)
        case True
        then have l: "copy_loop E ce n (Suc k) (length (pre @ [r1]), ret1, set_record (length pre) r1 d, p1) = Some (ret', d', p')"
          using Cons.prems(2) step at(1) c0 u Some False o by (simp add: copy_round_def)
        have "pd_records (set_record (length pre) r1 d) = map Some ((pre @ [r1]) @ rest)"
          using Cons.prems(1) by (simp add: set_record_def list_update_append)
        from Cons.IH[OF this l] show ?thesis using res(1) True code by simp
      next
        case False2: False
        then have l: "copy_loop E ce n (Suc k) (length pre, ret1, snd (RemoveRecordAt (length pre) d), p1) = Some (ret', d', p')"
          using Cons.prems(2) step at(1) c0 u Some False o by (simp add: copy_round_def)
        from Cons.IH[OF drop l] show ?thesis using res(1) False2 code by simp
      qed
    qed
  qed
qed

lemma CheckCopyParam_ok:
  assumes "0 < length (pd_records d)" "length (pd_records d) < 2 ^ 32"
  shows "CheckCopyParam d = (E_OK, word_of_nat (length (pd_records d)))"
proof -
  have "unat (word_of_nat (length (pd_records d)) :: u32) = length (pd_records d)"
    using assms(2) by (simp add: unat_of_nat take_bit_eq_mod)
  then have "(word_of_nat (length (pd_records d)) :: u32) \<noteq> 0" using assms(1) by (metis less_irrefl unsigned_0)
  then show ?thesis by (simp add: CheckCopyParam_def)
qed

lemma CopyPasteData_total:
  assumes "data_ok d" "pr_info p \<noteq> None" "0 < length (pd_records d)" "length (pd_records d) < 2 ^ 32"
  obtains ret d' p1 where "copy_loop E ce (word_of_nat (length (pd_records d))) 0 (0, E_OK, d, p) = Some (ret, d', p1)"
    "CopyPasteData E ce d p = Some (if ret \<noteq> E_OK then COPY_FILE_ERROR else ret, d', OnProgressNotify (p1\<lparr>pr_info := Some (word_of_int PERCENTAGE)\<rparr>))"
proof -
  obtain ret d' p1 where l: "copy_loop E ce (word_of_nat (length (pd_records d))) 0 (0, E_OK, d, p) = Some (ret, d', p1)" "pr_info p1 \<noteq> None"
    using copy_loop_total[OF assms(1), of E ce "word_of_nat (length (pd_records d))" 0 0 E_OK p] assms(2) by metis
  show thesis
    by (rule that[OF l(1)]) (use l in \<open>auto simp: CopyPasteData_def CheckCopyParam_ok[OF assms(3,4)]\<close>)
qed


section \<open>Reported progress\<close>

lemma round24_num: "round24 0 = 0" "round24 1 = 1"
    "round24 (numeral w) = (let k = bit_length (numeral w) - 24; q = (numeral w :: int) div 2 ^ k; r = (numeral w :: int) mod 2 ^ k
       in (if 2 * r > 2 ^ k \<or> 2 * r = 2 ^ k \<and> odd q then q + 1 else q) * 2 ^ k)"
  by (simp_all add: round24_def Let_def bit_length_num)

lemma scale_table: "list_all (\<lambda>p. scale_percentage p = 20 + 4 * p div 5) [0..100]"
  by (simp add: upto_rec1 scale_percentage_def round24_num FILE_PERCENTAGE_def BEGIN_PERCENTAGE_def Let_def bit_length_num signed_divide_int_def)

lemma scale_exact: "0 \<le> p \<Longrightarrow> p \<le> 100 \<Longrightarrow> scale_percentage p = 20 + 4 * p div 5"
  using bspec[OF scale_table[unfolded list_all_iff], of p] unfolding set_upto by simp

definition percent_ok :: "i32 option \<Rightarrow> bool" where
  "percent_ok x \<longleftrightarrow> (\<exists>v. x = Some v \<and> 20 \<le> sint v \<and> sint v \<le> 100)"

definition extends :: "progress \<Rightarrow> progress \<Rightarrow> bool" where
  "extends p p' \<longleftrightarrow> (\<exists>ns. pr_notes p' = pr_notes p @ ns \<and> (\<forall>x \<in> set ns. percent_ok x)) \<and> (pr_info p' = None \<longleftrightarrow> pr_info p = None) \<and>
     pr_listener p' = pr_listener p"

lemma extends_refl [simp]: "extends p p"
  by (simp add: extends_def)

lemma extends_trans: "extends p q \<Longrightarrow> extends q r \<Longrightarrow> extends p r"
  by (auto simp: extends_def)

lemma sint_small: "0 \<le> x \<Longrightarrow> x < 2 ^ 31 \<Longrightarrow> sint (word_of_int x :: i32) = x"
  by (simp add: signed_of_int signed_take_bit_int_eq_self)

lemma OnProgressNotify_value:
  assumes "pr_info p = Some v" "0 \<le> sint v"
  shows "OnProgressNotify p = notify_progress (p\<lparr>pr_info := Some (word_of_int (20 + 4 * min (sint v) 100 div 5))\<rparr>)"
proof -
  have m: "(if sint v > PERCENTAGE then PERCENTAGE else sint v) = min (sint v) 100" by (simp add: PERCENTAGE_def)
  have "max \<bar>scale_percentage (min (sint v) 100)\<bar> 0 = 20 + 4 * min (sint v) 100 div 5"
    using scale_exact[of "min (sint v) 100"] assms(2) by simp
  then show ?thesis unfolding OnProgressNotify_def assms(1) option.case Let_def m by simp
qed

lemma OnProgressNotify_extends:
  assumes "pr_info p0 = Some v0" "pr_notes p = pr_notes p0" "pr_listener p = pr_listener p0" "pr_info p = Some v" "0 \<le> sint v"
  shows "extends p0 (OnProgressNotify p)"
proof -
  let ?x = "20 + 4 * min (sint v) 100 div 5"
  have "0 \<le> ?x" "?x < 2 ^ 31" "20 \<le> ?x" "?x \<le> 100" using assms(5) by auto
  then have "percent_ok (Some (word_of_int ?x))" using sint_small[of ?x] by (simp add: percent_ok_def)
  then show ?thesis
    unfolding OnProgressNotify_value[OF assms(4,5)] using assms(1-3) by (auto simp: extends_def notify_progress_def)
qed

lemma sint_unat: "unat (x :: i32) \<le> 100 \<Longrightarrow> 0 \<le> sint x \<and> sint x \<le> 100"
proof -
  assume "unat x \<le> 100"
  then obtain n where n: "x = word_of_nat n" "n \<le> 100" by (metis of_nat_unat ucast_id)
  then show ?thesis by (simp add: signed_of_nat signed_take_bit_int_eq_self)
qed

lemma callback_small:
  assumes "unat a \<le> unat b" "unat b * 100 < 2 ^ 64"
  shows "0 \<le> sint (ucast (callback_percentage a b) :: i32) \<and> sint (ucast (callback_percentage a b) :: i32) \<le> 100"
proof (cases "b = 0")
  case True
  then show ?thesis by (simp add: callback_percentage_def)
next
  case False
  then have b: "0 < unat b" by (simp add: unat_gt_0)
  have "unat (100 * a) = 100 * unat a"
    using assms by (simp add: unat_word_ariths)
  then have "unat (100 * a div b) = 100 * unat a div unat b" by (simp add: unat_div)
  also have "\<dots> \<le> 100 * unat b div unat b" using assms(1) by (intro div_le_mono) simp
  also have "\<dots> = 100" using b by simp
  finally have u: "unat (100 * a div b) \<le> 100" .
  let ?x = "ucast (callback_percentage a b) :: i32"
  have "unat ?x = unat (100 * a div b)"
    using u False by (simp add: callback_percentage_def unsigned_ucast_eq take_bit_nat_eq_self)
  then have "unat ?x \<le> 100" using u by simp
  then show ?thesis by (rule sint_unat)
qed

lemma sdiv_nonneg: "0 \<le> (a :: int) \<Longrightarrow> 0 < b \<Longrightarrow> a sdiv b = a div b"
  by (cases "a = 0") (simp_all add: signed_divide_int_def)

lemma HandleProgress_extends:
  assumes "k \<le> 20000000" "0 \<le> sint (ucast pct :: i32)" "sint (ucast pct :: i32) \<le> 100" "n < 2 ^ 31"
  shows "extends p (HandleProgress (word_of_nat n) (word_of_nat k) pct cancel p)"
proof -
  have s: "sint (word_of_nat k :: i32) = int k" "sint (word_of_nat n :: i32) = int n"
    using assms(1,4) by (simp_all add: signed_of_nat signed_take_bit_int_eq_self)
  let ?t = "((int k - 1) * PERCENTAGE + sint (ucast pct :: i32)) sdiv int n"
  show ?thesis
  proof (cases "pr_info p = None \<or> int k < 1 \<or> int n \<le> 0 \<or> cancel")
    case False
    have a: "0 \<le> (int k - 1) * PERCENTAGE + sint (ucast pct :: i32)" "(int k - 1) * PERCENTAGE + sint (ucast pct :: i32) < 2 ^ 31"
      using False assms(1-3) by (auto simp: PERCENTAGE_def)
    then have t: "?t = ((int k - 1) * PERCENTAGE + sint (ucast pct :: i32)) div int n" using False by (intro sdiv_nonneg) auto
    have "0 \<le> ?t" using a(1) False unfolding t by (simp add: pos_imp_zdiv_nonneg_iff)
    moreover have "?t < 2 ^ 31"
    proof -
      have "((int k - 1) * PERCENTAGE + sint (ucast pct :: i32)) div int n \<le> (int k - 1) * PERCENTAGE + sint (ucast pct :: i32)"
        using zdiv_mono2[OF a(1), of 1 "int n"] False by simp
      with a(2) show ?thesis unfolding t by linarith
    qed
    ultimately have "0 \<le> sint (word_of_int ?t :: i32)" by (simp add: sint_small)
    moreover have "HandleProgress (word_of_nat n) (word_of_nat k) pct cancel p = OnProgressNotify (p\<lparr>pr_info := Some (word_of_int ?t)\<rparr>)"
      using False unfolding HandleProgress_def s by (auto simp: Let_def)
    moreover obtain v where "pr_info p = Some v" using False by auto
    ultimately show ?thesis using OnProgressNotify_extends[of p v "p\<lparr>pr_info := Some (word_of_int ?t)\<rparr>" "word_of_int ?t"] by simp
  next
    case True
    then show ?thesis unfolding HandleProgress_def s by simp
  qed
qed

text \<open>The file service reports sizes up to the total.\<close>

definition sane_reports :: "copy_env \<Rightarrow> bool" where
  "sane_reports ce \<longleftrightarrow> (\<forall>k s t. \<forall>(a, b, c) \<in> set (snd (ce_copy ce k s t)). unat a \<le> unat b \<and> unat b * 100 < 2 ^ 64)"

lemma run_callbacks_extends:
  assumes "\<forall>(a, b, c) \<in> set cbs. unat a \<le> unat b \<and> unat b * 100 < 2 ^ 64" "k \<le> 20000000" "n < 2 ^ 31"
  shows "extends p (run_callbacks (word_of_nat n) k cbs p)"
  using assms(1)
proof (induction cbs arbitrary: p)
  case (Cons x cbs)
  obtain a b c where x: "x = (a, b, c)" by (cases x)
  let ?p = "HandleProgress (word_of_nat n) (word_of_nat k) (callback_percentage a b) c p"
  have "extends p ?p"
    using HandleProgress_extends[OF assms(2) _ _ assms(3)] callback_small[of a b] Cons.prems by (auto simp: x)
  moreover have "extends ?p (run_callbacks (word_of_nat n) k cbs ?p)" using Cons by auto
  ultimately show ?case using extends_trans by (auto simp: run_callbacks_def x)
qed (simp add: run_callbacks_def)

lemma copy_round_extends:
  assumes "copy_round E ce (word_of_nat n) k (index, ret, d, p) = Inr (index', ret', d', p')" "sane_reports ce" "k \<le> 20000000" "n < 2 ^ 31"
  shows "extends p p'"
  using assms(1) run_callbacks_extends[OF _ assms(3,4)] assms(2)
  by (auto simp: copy_round_def copy_one_def sane_reports_def Let_def bind_eq_Some_conv case_prod_unfold split: if_splits option.splits)

lemma copy_round_stops: "copy_round E ce n k (index, ret, d, p) = Inl (Some (ret', d', p')) \<Longrightarrow> p' = p"
  by (auto simp: copy_round_def split: if_splits option.splits prod.splits)

lemma copy_loop_extends:
  assumes "copy_loop E ce (word_of_nat n) k (index, ret, d, p) = Some (ret', d', p')" "sane_reports ce" "n < 2 ^ 31"
    and "k + (length (pd_records d) - index) \<le> 20000000"
  shows "extends p p'"
  using assms(1,4)
proof (induction "length (pd_records d) - index" arbitrary: k index ret d p rule: less_induct)
  case less
  show ?case
  proof (cases "index < length (pd_records d)")
    case True
    then have step: "(case copy_round E ce (word_of_nat n) (Suc k) (index, ret, d, p) of
        Inl result \<Rightarrow> result | Inr st \<Rightarrow> copy_loop E ce (word_of_nat n) (Suc k) st) = Some (ret', d', p')"
      using less.prems(1) by (simp add: copy_loop.simps)
    show ?thesis
    proof (cases "copy_round E ce (word_of_nat n) (Suc k) (index, ret, d, p)")
      case (Inl r)
      then show ?thesis using step copy_round_stops[of E ce "word_of_nat n" "Suc k" index ret d p ret' d' p'] by simp
    next
      case (Inr st)
      obtain i1 r1 d1 p1 where st: "st = (i1, r1, d1, p1)" by (cases st)
      have sh: "length (pd_records d1) - i1 < length (pd_records d) - index" by (rule copy_round_shrinks[OF Inr[unfolded st] True])
      have "extends p p1" by (rule copy_round_extends[OF Inr[unfolded st] assms(2) _ assms(3)]) (use less.prems(2) True in simp)
      moreover have "extends p1 p'"
        by (rule less.hyps[OF sh]) (use step Inr st sh less.prems(2) in auto)
      ultimately show ?thesis by (rule extends_trans)
    qed
  qed (use less.prems(1) in \<open>auto simp: copy_loop.simps\<close>)
qed

text \<open>C20: Reported progress makes sense. While files are pasted, cancelled or not, every percentage the listener
  of the application sees is between 20, where the transfer of the data ended, and 100, and the last one is 100. The
  scaling in single precision is exact.\<close>

theorem file_progress_bounded:
  assumes "data_ok d" "sane_reports ce" "pr_info p \<noteq> None" "pr_listener p"
    and "0 < length (pd_records d)" "length (pd_records d) \<le> 20000000"
  shows "\<exists>ret d' p' ns. CopyPasteData E ce d p = Some (ret, d', p') \<and> pr_notes p' = pr_notes p @ ns @ [Some 100] \<and> (\<forall>x \<in> set ns. percent_ok x)"
proof -
  have n: "length (pd_records d) < 2 ^ 32" using assms(6) by simp
  obtain ret d' p1 where l: "copy_loop E ce (word_of_nat (length (pd_records d))) 0 (0, E_OK, d, p) = Some (ret, d', p1)"
    "CopyPasteData E ce d p = Some (if ret \<noteq> E_OK then COPY_FILE_ERROR else ret, d', OnProgressNotify (p1\<lparr>pr_info := Some (word_of_int PERCENTAGE)\<rparr>))"
    by (rule CopyPasteData_total[OF assms(1,3,5) n])
  let ?p = "OnProgressNotify (p1\<lparr>pr_info := Some (word_of_int PERCENTAGE)\<rparr>)"
  have e: "extends p p1" by (rule copy_loop_extends[OF l(1) assms(2)]) (use assms(6) in simp_all)
  have "?p = notify_progress (p1\<lparr>pr_info := Some 100\<rparr>)"
    by (subst OnProgressNotify_value[of _ "word_of_int PERCENTAGE"]) (simp_all add: PERCENTAGE_def)
  then have "pr_notes ?p = pr_notes p1 @ [Some 100]" using e assms(4) by (simp add: notify_progress_def extends_def)
  then show ?thesis using e l(2) unfolding extends_def by fastforce
qed

definition sample_copy_env :: copy_env where
  "sample_copy_env = \<lparr>ce_cancel = (\<lambda>_ _. False), ce_copy = (\<lambda>k _ _. (if k = 1 then 5 else 0, [(1, 2, False)])), ce_real_path = (\<lambda>s. s),
     ce_path = (\<lambda>s. s), ce_uri = (\<lambda>s. ''file://'' @ s), ce_is_dir = (\<lambda>s. s = ''/data''), ce_is_file = (\<lambda>_. True),
     ce_exists = (\<lambda>_. False), ce_dest = ''/data'', ce_skip = False\<rparr>"

definition file_record :: "string \<Rightarrow> PasteDataRecord" where
  "file_record u = (empty_record sample_ext)\<lparr>rec_uri := Some u\<rparr>"

definition two_files :: PasteData where
  "two_files = (new_data sample_params 0)\<lparr>pd_records := [Some (file_record ''/a/x''), Some (file_record ''/a/../y'')]\<rparr>"

definition sample_progress :: progress where
  "sample_progress = \<lparr>pr_info = Some 0, pr_listener = True, pr_notes = []\<rparr>"

lemma two_files_ok: "data_ok two_files"
  by (simp add: data_ok_def two_files_def file_record_def no_null_objects_def empty_record_def)

lemma file_record_uri: "GetUriV0 sample_ext (file_record u) = Some (Some u)"
  by (simp add: GetUriV0_def GetOriginUri_def file_record_def empty_record_def entry_with_mime_def)

theorem file_progress_bounded_witness:
  "\<exists>ret d' p' ns. CopyPasteData sample_ext sample_copy_env two_files sample_progress = Some (ret, d', p') \<and>
     pr_notes p' = ns @ [Some 100] \<and> (\<forall>x \<in> set ns. percent_ok x)"
proof -
  have "sane_reports sample_copy_env" by (simp add: sane_reports_def sample_copy_env_def)
  then show ?thesis
    using file_progress_bounded[OF two_files_ok, of sample_copy_env sample_progress sample_ext] by (simp add: sample_progress_def two_files_def)
qed



end
