(* ===== verification/Client_Progress.thy ===== *)
theory Client_Progress
  imports Client Client_Files Decimal
begin

text \<open>
  Pasting with a progress dialog: \<open>GetDataWithProgress\<close> of \<open>framework/innerkits/src/pasteboard_client.cpp\<close> and
  \<open>pasteboard_progress_signal.cpp\<close>. One paste runs at a time (\<open>isPasting_\<close>); the dialog sends signals
  that cancel it or report a time-out, which another thread handles at any time: \<open>pe_signals n\<close> are the signals that arrive before
  the \<open>n\<close>-th test of a flag. The timer of the dialog and reports are left out.
\<close>

section \<open>Signals\<close>

record signals =
  isPasting :: bool
  remoteTask :: bool
  needCancel :: bool

definition NORMAL_PASTE :: int where "NORMAL_PASTE = 0"
definition CANCEL_PASTE :: int where "CANCEL_PASTE = 1"
definition PASTE_TIME_OUT :: int where "PASTE_TIME_OUT = 2"
definition MAX_SIGNAL_VALUE_SIZE :: nat where "MAX_SIGNAL_VALUE_SIZE = 128"

definition is_digit_char :: "char \<Rightarrow> bool" where
  "is_digit_char c \<longleftrightarrow> c \<in> set ''0123456789''"

text \<open>The expression \<open>^[+-]?\d+$\<close>.\<close>

definition signal_number :: "string \<Rightarrow> bool" where
  "signal_number s = (let ds = (case s of c # cs \<Rightarrow> if c = CHR ''+'' \<or> c = CHR ''-'' then cs else s | [] \<Rightarrow> [])
     in ds \<noteq> [] \<and> list_all is_digit_char ds)"

definition digits_value :: "string \<Rightarrow> int" where
  "digits_value ds = foldl (\<lambda>n c. 10 * n + (int (of_char c) - 48)) 0 ds"

text \<open>\<open>std::from_chars\<close> of a 32-bit integer: a leading minus sign but no plus sign, and no value out of range.\<close>

definition from_chars :: "string \<Rightarrow> int option" where
  "from_chars s =
     (let (neg, t) = (case s of c # cs \<Rightarrow> if c = CHR ''-'' then (True, cs) else (False, s) | [] \<Rightarrow> (False, []));
          ds = takeWhile is_digit_char t; v = (if neg then - digits_value ds else digits_value ds)
      in if ds = [] \<or> v < - (2 ^ 31) \<or> v \<ge> 2 ^ 31 then None else Some v)"

definition OnProgressAbnormal :: "signals \<Rightarrow> signals" where
  "OnProgressAbnormal st = st\<lparr>remoteTask := True\<rparr>"

definition HandleSignalValue :: "string \<Rightarrow> signals \<Rightarrow> i32 \<times> signals" where
  "HandleSignalValue signalValue st =
     (if length signalValue > MAX_SIGNAL_VALUE_SIZE then (INVALID_DATA_SIZE, st)
      else if \<not> signal_number signalValue then (INVALID_PARAM_ERROR, st)
      else case from_chars signalValue of
          None \<Rightarrow> (INVALID_PARAM_ERROR, st)
        | Some v \<Rightarrow>
            if v = NORMAL_PASTE then (E_OK, st)
            else if v = CANCEL_PASTE then (E_OK, st\<lparr>needCancel := True\<rparr>)
            else (E_OK, OnProgressAbnormal st))"

section \<open>Progress without files\<close>

record progress_env =
  pe_start :: u64 \<comment> \<open>\<open>progressStartTime_\<close>\<close>
  pe_now :: "nat \<Rightarrow> u64" \<comment> \<open>the clock at the \<open>n\<close>-th reading, in milliseconds\<close>
  pe_signals :: "nat \<Rightarrow> string list"

definition HAP_PULL_UP_TIME :: u64 where "HAP_PULL_UP_TIME = 500"
definition HAP_MIN_SHOW_TIME :: u64 where "HAP_MIN_SHOW_TIME = 300"

definition arrive :: "progress_env \<Rightarrow> nat \<Rightarrow> signals \<Rightarrow> signals" where
  "arrive pe n st = fold (\<lambda>s st. snd (HandleSignalValue s st)) (pe_signals pe n) st"

definition time_over :: "progress_env \<Rightarrow> nat \<Rightarrow> bool" where
  "time_over pe n \<longleftrightarrow> pe_now pe n \<ge> pe_start pe \<and>
     (let duration = pe_now pe n - pe_start pe in duration \<ge> HAP_PULL_UP_TIME + HAP_MIN_SHOW_TIME \<or> duration < HAP_PULL_UP_TIME)"

text \<open>The two loops differ in the step, the bound and the value when the time is over. The counter of flag tests goes up by
  two in a round.\<close>

function progress_loop :: "nat \<Rightarrow> nat \<Rightarrow> nat \<Rightarrow> progress_env \<Rightarrow> nat \<Rightarrow> nat \<Rightarrow> signals \<times> progress \<Rightarrow> nat \<times> signals \<times> progress" where
  "progress_loop step bound jump pe n progressValue sp =
     (let st = arrive pe n (fst sp); p = snd sp
      in if progressValue < bound \<and> \<not> remoteTask st
         then if time_over pe n then (Suc n, st, UpdateProgress (word_of_nat jump) p)
         else let st1 = arrive pe (Suc n) st
         in if needCancel st1 then (n + 2, st1, p)
         else progress_loop step bound jump pe (n + 2) (progressValue + Suc step)
                (st1, UpdateProgress (word_of_nat (progressValue + Suc step)) p)
         else (Suc n, st, p))"
  by pat_completeness auto
termination
  by (relation "measure (\<lambda>(_, bound, _, _, _, v, _). bound - v)") auto

declare progress_loop.simps [simp del]

definition SetProgressWithoutFile :: "progress_env \<Rightarrow> nat \<Rightarrow> signals \<times> progress \<Rightarrow> i32 \<times> nat \<times> signals \<times> progress" where
  "SetProgressWithoutFile pe n sp = (E_OK, progress_loop 9 100 100 pe n 20 sp)"

definition ProgressSmoothToTwentyPercent :: "svc_env \<Rightarrow> client_env \<Rightarrow> progress_env \<Rightarrow> PasteData \<Rightarrow> nat \<Rightarrow> signals \<times> progress \<Rightarrow>
    (PasteData \<times> nat \<times> signals \<times> progress) run" where
  "ProgressSmoothToTwentyPercent V C pe d n sp =
     (if pd_records d = [] then Some (d, n, sp)
      else do {
        (uri, d1) \<leftarrow> GetPrimaryUri (sv_ext V) (cl_fetch C) d;
        Some (d1, progress_loop 4 20 (if uri \<noteq> None then 20 else 100) pe n 0 sp)
      })"

definition ProgressAfterTwentyPercent :: "svc_env \<Rightarrow> client_env \<Rightarrow> progress_env \<Rightarrow> copy_env \<Rightarrow> PasteData \<Rightarrow> nat \<Rightarrow> signals \<times> progress \<Rightarrow>
    (i32 \<times> PasteData \<times> nat \<times> signals \<times> progress) run" where
  "ProgressAfterTwentyPercent V C pe ce d n sp =
     (if pd_records d = [] then Some (NO_DATA_ERROR, d, n, sp)
      else do {
        (uri, d1) \<leftarrow> GetPrimaryUri (sv_ext V) (cl_fetch C) d;
        if uri \<noteq> None
        then do { (ret, d2, p) \<leftarrow> CopyPasteData (sv_ext V) ce d1 (snd sp); Some (ret, d2, n, fst sp, p) }
        else (case SetProgressWithoutFile pe n sp of (ret, r) \<Rightarrow> Some (ret, d1, r))
      })"

section \<open>The paste\<close>

record get_params =
  gp_progress :: progress
  gp_indicator :: bool \<comment> \<open>\<open>progressIndicator != NONE_PROGRESS_INDICATOR\<close>\<close>
  gp_env :: progress_env
  gp_copy :: copy_env

definition CheckProgressParam :: "get_params option \<Rightarrow> signals \<Rightarrow> i32 \<times> signals" where
  "CheckProgressParam params st =
     (if params = None then (INVALID_PARAM_ERROR, st)
      else if isPasting st then (TASK_PROCESSING, st)
      else (E_OK, st\<lparr>needCancel := False\<rparr>))"

definition GetPasteDataFromService :: "client_env \<Rightarrow> svc_env \<Rightarrow> remote_env \<Rightarrow> caller \<Rightarrow> progress_env \<Rightarrow> PasteData \<Rightarrow> u32 \<Rightarrow>
    signals \<times> progress \<Rightarrow> pasteboard \<Rightarrow> (i32 \<times> PasteData \<times> nat \<times> signals \<times> progress \<times> pasteboard) run" where
  "GetPasteDataFromService C V R c pe d seqId sp b =
     (if \<not> cl_up C then Some (OBTAIN_SERVER_SA_ERROR, d, 0, fst sp, snd sp, b)
      else do {
        (_, fd, rawDataSize, recvTLV, syncTime, realErrCode, b1) \<leftarrow> GetPasteData V R c 0 [] seqId 0 0 b;
        let fd' = (if sint fd < 0 then fd else me_dup (cl_mem C) fd);
        let ret = ConvertErrCode C realErrCode;
        let (result, d1) = ProcessPasteData C V d rawDataSize fd' recvTLV (received_memory (cl_mem C) fd b1);
        (d2, n, st, p) \<leftarrow> ProgressSmoothToTwentyPercent V C pe d1 0 sp;
        d3 \<leftarrow> RemoveInvalidUri (sv_ext V) (sv_web V) (RetainUri d2);
        Some (if ret \<noteq> E_OK then ret else if result = SERIALIZATION_ERROR then result else E_OK, d3, n, st, p, b1)
      })"

text \<open>A shown dialog takes over the listener of the application (\<open>GetProgressByProgressInfo\<close>).\<close>

definition GetDataWithProgress :: "client_env \<Rightarrow> svc_env \<Rightarrow> remote_env \<Rightarrow> caller \<Rightarrow> PasteData \<Rightarrow> get_params option \<Rightarrow> u32 \<Rightarrow>
    signals \<Rightarrow> pasteboard \<Rightarrow> (i32 \<times> PasteData \<times> u32 \<times> signals \<times> progress option \<times> pasteboard) run" where
  "GetDataWithProgress C V R c d params seqId st b = (case CheckProgressParam params st of (ret, st1) \<Rightarrow>
     if ret \<noteq> E_OK then Some (ret, d, seqId, st1, map_option gp_progress params, b)
     else do {
       g \<leftarrow> params;
       let st2 = st1\<lparr>isPasting := True\<rparr>;
       let p = (if gp_indicator g then (gp_progress g)\<lparr>pr_listener := True\<rparr> else gp_progress g);
       (ret1, d1, n, st3, p1, b1) \<leftarrow> GetPasteDataFromService C V R c (gp_env g) d seqId (st2, p) b;
       if ret1 \<noteq> E_OK then Some (ret1, d1, seqId + 1, st3\<lparr>remoteTask := False, isPasting := False\<rparr>, Some p1, b1)
       else do {
         (ret2, d2, n2, st4, p2) \<leftarrow> ProgressAfterTwentyPercent V C (gp_env g) (gp_copy g) d1 n (st3, p1);
         d3 \<leftarrow> RebuildWebviewPasteData (sv_ext V) (cl_fetch C) (sv_web V) [] 0 d2;
         let st5 = arrive (gp_env g) n2 st4;
         Some (if remoteTask st5 then PROGRESS_ABNORMAL else ret2, d3, seqId + 1,
           st5\<lparr>remoteTask := False, isPasting := False\<rparr>, Some p2, b1)
       }
     })"

section \<open>One paste at a time\<close>

lemma HandleSignalValue_remote: "remoteTask st \<Longrightarrow> remoteTask (snd (HandleSignalValue s st))"
  by (simp add: HandleSignalValue_def OnProgressAbnormal_def split: option.split)

lemma arrive_remote: "remoteTask st \<Longrightarrow> remoteTask (arrive pe n st)"
  unfolding arrive_def by (rule fold_invariant[where Q = "\<lambda>_. True"]) (simp_all add: HandleSignalValue_remote)

lemma progress_loop_abnormal:
  assumes "remoteTask st"
  shows "progress_loop step bound jump pe n v (st, p) = (Suc n, arrive pe n st, p)"
  by (subst progress_loop.simps) (simp add: Let_def arrive_remote[OF assms])

lemma ProgressSmooth_abnormal:
  assumes "ProgressSmoothToTwentyPercent V C pe d n (st, p) = Some (d', n', st', p')" "remoteTask st"
  shows "remoteTask st'"
  using assms by (auto simp: ProgressSmoothToTwentyPercent_def progress_loop_abnormal arrive_remote split: if_splits bind_splits)

lemma ProgressAfter_abnormal:
  assumes "ProgressAfterTwentyPercent V C pe ce d n (st, p) = Some (ret, d', n', st', p')" "remoteTask st"
  shows "remoteTask st'"
  using assms
  by (auto simp: ProgressAfterTwentyPercent_def SetProgressWithoutFile_def progress_loop_abnormal arrive_remote split: if_splits bind_splits prod.splits)

lemma FromService_abnormal:
  assumes "GetPasteDataFromService C V R c pe d seqId (st, p) b = Some (ret, d', n, st', p', b')" "remoteTask st"
  shows "remoteTask st'"
  using assms ProgressSmooth_abnormal
  by (fastforce simp: GetPasteDataFromService_def Let_def split: if_splits bind_splits prod.splits)


section \<open>The reports of an undisturbed paste\<close>

lemma progress_loop_quiet:
  assumes "\<forall>n. pe_signals pe n = []" "\<not> remoteTask st" "\<not> needCancel st" "v < bound" "Suc step dvd bound - v" "jump \<le> 100" "bound \<le> 100"
  shows "\<exists>n' vs. progress_loop step bound jump pe n v (st, p) = (n', st, fold (\<lambda>x. UpdateProgress (word_of_nat x)) vs p) \<and>
    vs \<noteq> [] \<and> last vs \<in> {bound, jump} \<and> set vs \<subseteq> {..100}"
  using assms(4,5)
proof (induction "bound - v" arbitrary: v n p rule: less_induct)
  case less
  have a: "arrive pe m st = st" for m by (simp add: arrive_def assms(1))
  have le: "v + Suc step \<le> bound" using less.prems dvd_imp_le[of "Suc step" "bound - v"] by simp
  show ?case
  proof (cases "time_over pe n")
    case True
    then have "progress_loop step bound jump pe n v (st, p) = (Suc n, st, fold (\<lambda>x. UpdateProgress (word_of_nat x)) [jump] p)"
      using less.prems(1) assms(2) by (subst progress_loop.simps) (simp add: a)
    then show ?thesis using assms(6) by (intro exI[of _ "Suc n"] exI[of _ "[jump]"]) simp
  next
    case False
    define p1 where "p1 = UpdateProgress (word_of_nat (v + Suc step)) p"
    have next_round: "progress_loop step bound jump pe n v (st, p) = progress_loop step bound jump pe (n + 2) (v + Suc step) (st, p1)"
      using less.prems(1) assms(2,3) False by (subst progress_loop.simps) (simp add: a p1_def)
    show ?thesis
    proof (cases "v + Suc step = bound")
      case True
      then have "progress_loop step bound jump pe n v (st, p) = (Suc (n + 2), st, fold (\<lambda>x. UpdateProgress (word_of_nat x)) [bound] p)"
        unfolding next_round by (subst progress_loop.simps) (simp add: a p1_def)
      then show ?thesis using assms(7) by (intro exI[of _ "Suc (n + 2)"] exI[of _ "[bound]"]) simp
    next
      case more: False
      have "Suc step dvd bound - (v + Suc step)" using less.prems(2) le by (metis diff_diff_left dvd_diff_nat dvd_refl)
      then obtain n' vs where "progress_loop step bound jump pe (n + 2) (v + Suc step) (st, p1) =
          (n', st, fold (\<lambda>x. UpdateProgress (word_of_nat x)) vs p1)" "vs \<noteq> []" "last vs \<in> {bound, jump}" "set vs \<subseteq> {..100}"
        using less.hyps[of "v + Suc step" "n + 2" p1] more le diff_less_mono2[of v "v + Suc step" bound] less.prems(1) by auto
      moreover have "v + Suc step \<le> 100" using le assms(7) by simp
      ultimately show ?thesis
        unfolding next_round by (intro exI[of _ n'] exI[of _ "(v + Suc step) # vs"]) (simp add: p1_def)
    qed
  qed
qed

lemma fold_UpdateProgress:
  "pr_info p \<noteq> None \<Longrightarrow> pr_listener p \<Longrightarrow>
   pr_notes (fold (\<lambda>x. UpdateProgress (word_of_nat x)) vs p) = pr_notes p @ map (\<lambda>x. Some (word_of_nat x)) vs \<and>
   pr_info (fold (\<lambda>x. UpdateProgress (word_of_nat x)) vs p) \<noteq> None \<and> pr_listener (fold (\<lambda>x. UpdateProgress (word_of_nat x)) vs p)"
  by (induction vs arbitrary: p) (auto simp: UpdateProgress_def notify_progress_def)

lemma quiet_smooth:
  assumes "\<forall>n. pe_signals pe n = []" "\<not> remoteTask st" "\<not> needCancel st" "GetPrimaryUri (sv_ext V) (cl_fetch C) d = Some (None, d)"
  shows "\<exists>n' vs. ProgressSmoothToTwentyPercent V C pe d n (st, p) = Some (d, n', st, fold (\<lambda>x. UpdateProgress (word_of_nat x)) vs p) \<and> set vs \<subseteq> {..100}"
proof (cases "pd_records d = []")
  case True
  then show ?thesis by (intro exI[of _ n] exI[of _ "[]"]) (simp add: ProgressSmoothToTwentyPercent_def)
next
  case False
  then show ?thesis
    using progress_loop_quiet[OF assms(1-3), of 0 20 4 100 n p] assms(4) by (auto simp: ProgressSmoothToTwentyPercent_def)
qed

lemma quiet_text:
  assumes "\<forall>n. pe_signals pe n = []" "\<not> remoteTask st" "\<not> needCancel st" "GetPrimaryUri (sv_ext V) (cl_fetch C) d = Some (None, d)" "pd_records d \<noteq> []"
  shows "\<exists>n' vs. ProgressAfterTwentyPercent V C pe ce d n (st, p) = Some (E_OK, d, n', st, fold (\<lambda>x. UpdateProgress (word_of_nat x)) vs p) \<and>
    vs \<noteq> [] \<and> last vs = 100 \<and> set vs \<subseteq> {..100}"
  using progress_loop_quiet[OF assms(1-3), of 20 100 9 100 n p] assms(4,5)
  by (auto simp: ProgressAfterTwentyPercent_def SetProgressWithoutFile_def)

text \<open>C17: A paste of text with progress gives the same code, data and state of the service as a paste without progress. When no
  signal arrives, the service answers with success and neither the received data nor what remains after the removal of
  invalid URIs has a URI, the listener is called with percentages from 0 to 100, the last of which is 100, and both
  flags are cleared at the end.\<close>

theorem progress_paste_agrees:
  assumes idle: "\<not> isPasting st" "\<not> remoteTask st" and quiet: "\<forall>n. pe_signals (gp_env g) n = []"
    and up: "cl_up C" and answer: "GetPasteData V R c 0 [] seqId 0 0 b = Some (ret, fd, n, raw, t, e, b1)" "ConvertErrCode C e = E_OK"
    and received: "ProcessPasteData C V d n (if sint fd < 0 then fd else me_dup (cl_mem C) fd) raw (received_memory (cl_mem C) fd b1) = (result, d1)"
      "GetPrimaryUri (sv_ext V) (cl_fetch C) d1 = Some (None, d1)"
    and cleaned: "RemoveInvalidUri (sv_ext V) (sv_web V) (RetainUri d1) = Some d2" "pd_records d2 \<noteq> []"
      "GetPrimaryUri (sv_ext V) (cl_fetch C) d2 = Some (None, d2)"
    and rebuilt: "RebuildWebviewPasteData (sv_ext V) (cl_fetch C) (sv_web V) [] 0 d2 = Some d3"
    and listener: "pr_info (gp_progress g) \<noteq> None" "pr_listener (gp_progress g)" "pr_notes (gp_progress g) = []"
  shows "GetPasteData_client C V R c d seqId b = Some (E_OK, d3, seqId + 1, b1) \<and>
    (\<exists>p' vs. GetDataWithProgress C V R c d (Some g) seqId st b =
       Some (E_OK, d3, seqId + 1, \<lparr>isPasting = False, remoteTask = False, needCancel = False\<rparr>, Some p', b1) \<and>
     pr_notes p' = map (\<lambda>x. Some (word_of_nat x)) vs \<and> set vs \<subseteq> {..100} \<and> vs \<noteq> [] \<and> last vs = 100)"
proof -
  let ?st = "\<lparr>isPasting = True, remoteTask = False, needCancel = False\<rparr>" and ?pe = "gp_env g"
  let ?p = "if gp_indicator g then (gp_progress g)\<lparr>pr_listener := True\<rparr> else gp_progress g"
  let ?upd = "\<lambda>vs. fold (\<lambda>x. UpdateProgress (word_of_nat x)) vs ?p"
  have s: "result \<noteq> SERIALIZATION_ERROR" by (rule ProcessPasteData_code[OF received(1)])
  obtain n1 vs1 where smooth: "ProgressSmoothToTwentyPercent V C ?pe d1 0 (?st, ?p) = Some (d1, n1, ?st, ?upd vs1)" "set vs1 \<subseteq> {..100}"
    using quiet_smooth[OF quiet, of ?st V C d1 0 ?p] received(2) by auto
  obtain n2 vs2 where after: "ProgressAfterTwentyPercent V C ?pe (gp_copy g) d2 n1 (?st, ?upd vs1) = Some (E_OK, d2, n2, ?st, ?upd (vs1 @ vs2))"
      "vs2 \<noteq> []" "last vs2 = 100" "set vs2 \<subseteq> {..100}"
    using quiet_text[OF quiet, of ?st V C d2 "gp_copy g" n1 "?upd vs1"] cleaned(2,3) by auto
  have "GetPasteDataFromService C V R c ?pe d seqId (?st, ?p) b = Some (E_OK, d2, n1, ?st, ?upd vs1, b1)"
    using up answer received(1) smooth(1) cleaned(1) s by (simp add: GetPasteDataFromService_def Let_def)
  moreover have "st\<lparr>needCancel := False, isPasting := True\<rparr> = ?st" using idle(2) by simp
  moreover have "arrive ?pe n2 ?st = ?st" using quiet by (simp add: arrive_def)
  ultimately have "GetDataWithProgress C V R c d (Some g) seqId st b =
      Some (E_OK, d3, seqId + 1, \<lparr>isPasting = False, remoteTask = False, needCancel = False\<rparr>, Some (?upd (vs1 @ vs2)), b1)"
    using idle(1) after(1) rebuilt by (simp add: GetDataWithProgress_def CheckProgressParam_def Let_def)
  moreover have "pr_notes (?upd (vs1 @ vs2)) = map (\<lambda>x. Some (word_of_nat x)) (vs1 @ vs2)"
    using fold_UpdateProgress[of ?p "vs1 @ vs2"] listener by simp
  moreover have "GetPasteData_client C V R c d seqId b = Some (E_OK, d3, seqId + 1, b1)"
    using up answer received(1) cleaned(1) rebuilt s by (simp add: GetPasteData_client_def web_finish_def Let_def)
  ultimately show ?thesis using smooth(2) after(2-4) by (intro conjI exI[of _ "?upd (vs1 @ vs2)"] exI[of _ "vs1 @ vs2"]) simp_all
qed

section \<open>Examples\<close>

lemma GetUri_none:
  assumes "rec_convertUri r = []" "rec_uri r = None" "\<forall>e \<in> set (somes (rec_entries r)). ent_mimeType e \<noteq> MIMETYPE_TEXT_URI \<and> \<not> IsFileUri E (ent_utdId e)"
    and "case rec_customData r of None \<Rightarrow> True | Some m \<Rightarrow> map_of m MIMETYPE_TEXT_URI = None"
  shows "GetOriginUri E r = Some None" "GetUri E env r = Some (None, r)"
proof -
  have o: "entry_with_mime MIMETYPE_TEXT_URI r = None" using assms(3) by (auto simp: entry_with_mime_def find_None_iff)
  then show "GetOriginUri E r = Some None" using assms(2) by (simp add: GetOriginUri_def)
  then have v: "GetUriV0 E r = Some None" using assms(1) by (simp add: GetUriV0_def)
  have p: "MIMETYPE_TEXT_URI \<noteq> MIMETYPE_TEXT_PLAIN" by (simp add: MIMETYPE_TEXT_URI_def MIMETYPE_TEXT_PLAIN_def)
  then have u: "Convert2UtdId E (UD_BUTT E) MIMETYPE_TEXT_URI = GetUtdIdFromUtdEnum E (FILE_URI E)" by (simp add: Convert2UtdId_def)
  have "IsFileUri E (GetUtdIdFromUtdEnum E (FILE_URI E))" by (simp add: IsFileUri_def)
  then have "\<not> matches_utd E (GetUtdIdFromUtdEnum E (FILE_URI E)) e" if "e \<in> set (rec_entries r)" for e
    using assms(3)[unfolded Ball_def set_somes] that by (cases e) (auto simp: matches_utd_def)
  then have "split_first (matches_utd E (GetUtdIdFromUtdEnum E (FILE_URI E))) (rec_entries r) = None" by (simp add: split_first_None)
  then show "GetUri E env r = Some (None, r)"
    using v p assms(4) by (auto simp: GetUri_def GetEntryByMimeType_def GetEntry_def u split: option.splits)
qed

lemma sample_received:
  defines "r \<equiv> rec_received sample_ext False sample_record"
  shows "rec_convertUri r = []" "rec_uri r = None" "rec_customData r = Some [(''app/x'', [1, 2])]"
    "rec_entries r = [Some (mk_entry_mime ''app/x'' ''app/x'' (VBytes [9, 8])), Some (mk_entry_mime ''general.html'' ''text/html''
                       (VObject (Some [(''htmlContent'', VString ''<b>'')])))]"
proof -
  have m: "rec_mimeType (sent_local sample_record) = []" by (simp add: sent_local_def sample_record_def empty_record_def)
  then have "finish_decode sample_ext (sent_local sample_record) =
      (let r2 = (sent_local sample_record)\<lparr>rec_udmfValue := None, rec_plainText := None, rec_htmlText := None, rec_uri := None,
         rec_pixelMap := None, rec_want := None\<rparr> in r2\<lparr>rec_mimeType := GetMimeType_record r2\<rparr>)"
   by (simp add: finish_decode_def Remote2Local_def Let_def)
  then show "rec_convertUri r = []" "rec_uri r = None" "rec_customData r = Some [(''app/x'', [1, 2])]"
    "rec_entries r = [Some (mk_entry_mime ''app/x'' ''app/x'' (VBytes [9, 8])), Some (mk_entry_mime ''general.html'' ''text/html''
                       (VObject (Some [(''htmlContent'', VString ''<b>'')])))]"
    by (simp_all add: r_def rec_received_def Let_def sent_local_def sample_record_def empty_record_def mk_entry_mime_def)
qed

definition sample_params_get :: get_params where
  "sample_params_get = \<lparr>gp_progress = sample_progress, gp_indicator = False,
     gp_env = \<lparr>pe_start = 1000, pe_now = (\<lambda>_. 1010), pe_signals = (\<lambda>_. [])\<rparr>, gp_copy = sample_copy_env\<rparr>"

definition idle_signals :: signals where
  "idle_signals = \<lparr>isPasting = False, remoteTask = False, needCancel = False\<rparr>"

abbreviation sample_pasted :: PasteData where
  "sample_pasted \<equiv> data_received sample_ext False sample_answer"

lemma sample_pasted_data:
  shows sample_pasted_records: "pd_records sample_pasted = [Some (rec_received sample_ext False sample_record)]"
    and sample_pasted_uri: "GetPrimaryUri sample_ext env sample_pasted = Some (None, sample_pasted)"
    and sample_pasted_clean: "RemoveInvalidUri sample_ext W (RetainUri sample_pasted) = Some sample_pasted"
    and sample_pasted_web: "RebuildWebviewPasteData sample_ext env W [] 0 sample_pasted = Some sample_pasted"
proof -
  let ?r = "rec_received sample_ext False sample_record"
  have "\<not> IsFileUri sample_ext ''app/x''" "\<not> IsFileUri sample_ext ''general.html''"
    by (simp_all add: IsFileUri_def sample_ext_def sample_ids_def)
  then have u: "GetOriginUri sample_ext ?r = Some None" "GetUri sample_ext env ?r = Some (None, ?r)" for env
    by (intro GetUri_none; simp add: sample_received mk_entry_mime_def MIMETYPE_TEXT_URI_def)+
  show r: "pd_records sample_pasted = [Some ?r]"
    unfolding sample_answer_eq by (simp add: data_received_def sample_clip_def)
  show "GetPrimaryUri sample_ext env sample_pasted = Some (None, sample_pasted)"
    using r u(2) by (simp add: GetPrimaryUri_def GetPrimary_def)
  have "\<not> pd_isLocalPaste sample_pasted" "prop_tag (pd_props sample_pasted) = []"
    unfolding sample_answer_eq by (simp_all add: data_received_def sample_clip_def new_data_def new_props_def)
  then show "RemoveInvalidUri sample_ext W (RetainUri sample_pasted) = Some sample_pasted"
      "RebuildWebviewPasteData sample_ext env W [] 0 sample_pasted = Some sample_pasted"
    using r u(1) by (simp_all add: RemoveInvalidUri_def RetainUri_def remove_invalid_step_def GetRecordAt_def RebuildWebviewPasteData_def
        WEBVIEW_PASTEDATA_TAG_def)
qed

lemma sample_service_answer:
  obtains fd n raw t b1 where "GetPasteData sample_env sample_remote_env sample_caller 0 [] 4 0 0 sample_board = Some (0, fd, n, raw, t, ERR_OK, b1)"
    "ProcessPasteData sample_client sample_env (new_data sample_params 9) n (if sint fd < 0 then fd else me_dup (cl_mem sample_client) fd) raw
       (received_memory (cl_mem sample_client) fd b1) = (E_OK, sample_pasted)"
proof -
  obtain n where n: "CountTLV_data sample_ext False sample_answer = Some n" "n \<le> 9999" "0 < n" using sample_answer_count by blast
  have "\<exists>fd size1 raw1 t1 b1 bytes buf. GetPasteData sample_env sample_remote_env sample_caller 0 [] 4 0 0 sample_board =
       Some (0, fd, size1, raw1, t1, ERR_OK, b1) \<and> received_bytes fd size1 raw1 b1 = Some bytes \<and> int (length bytes) = sint size1 \<and>
     Decode (DecodeTLV_data (sv_ext sample_env) 0 (new_data sample_params 9)) bytes = ROk (data_received (sv_ext sample_env) False sample_answer) buf \<and>
     delayTokenId (svc b1) = c_tokenId sample_caller \<and> delayDataId (svc b1) = pd_dataId sample_answer \<and>
     fd = AshmemCreate sample_remote_env (if int n > sint MIN_ASHMEM_DATA_SIZE then word_of_nat n else 1) \<and> size1 = word_of_nat n"
    by (rule local_paste_answer[where a = "GetAppInfo sample_env 7" and clip = sample_clip and t = 1 and n = n and pid = "''GetPasteData_1_4''"])
      (use n sample_answer_fits sample_may_paste sample_clip_ok sample_clip_valid sample_no_event sample_web_perms sample_paste_id in
        \<open>simp_all add: sample_env_fields sample_caller_fields sample_reader sample_board_def init_state_def sample_clip_def new_data_def sample_remote_env_def sample_ext_def\<close>)
  then obtain raw t b1 bytes buf where g: "GetPasteData sample_env sample_remote_env sample_caller 0 [] 4 0 0 sample_board =
       Some (0, 5, word_of_nat n, raw, t, ERR_OK, b1)"
    and r: "received_bytes 5 (word_of_nat n) raw b1 = Some bytes" "int (length bytes) = sint (word_of_nat n :: i64)"
      "Decode (DecodeTLV_data sample_ext 0 (new_data sample_params 9)) bytes = ROk sample_pasted buf"
    by (auto simp: sample_env_fields sample_remote_env_def)
  have s: "sint (word_of_nat n :: i64) = int n" "n \<le> MIN_RAW_SIZE"
    using n(2) sint_length[of n] by (simp_all add: MIN_RAW_SIZE_def)
  have "ProcessPasteData sample_client sample_env (new_data sample_params 9) (word_of_nat n) 6 raw (received_memory sample_mem 5 b1) = (E_OK, sample_pasted)"
    by (rule ProcessPasteData_received[where buf = buf and bs = bytes])
      (use r s n in \<open>simp_all add: sample_client_def sample_mem_def GetRawDataSize_def KERNEL_MIN_SIZE_def KERNEL_MAX_SIZE_def SIZE_K_def
        received_bytes_def sample_env_fields MIN_ASHMEM_DATA_SIZE_def MIN_RAW_SIZE_def\<close>)
  then show thesis using that[OF g] by (simp add: sample_client_def sample_mem_def)
qed

theorem progress_paste_agrees_witness:
  "\<exists>b1 p'. GetPasteData_client sample_client sample_env sample_remote_env sample_caller (new_data sample_params 9) 4 sample_board = Some (E_OK, sample_pasted, 5, b1) \<and>
     GetDataWithProgress sample_client sample_env sample_remote_env sample_caller (new_data sample_params 9) (Some sample_params_get) 4 idle_signals sample_board =
       Some (E_OK, sample_pasted, 5, idle_signals, Some p', b1) \<and> last (pr_notes p') = Some 100"
proof -
  obtain fd n raw t b1 where a: "GetPasteData sample_env sample_remote_env sample_caller 0 [] 4 0 0 sample_board = Some (0, fd, n, raw, t, ERR_OK, b1)"
    "ProcessPasteData sample_client sample_env (new_data sample_params 9) n (if sint fd < 0 then fd else me_dup (cl_mem sample_client) fd) raw
       (received_memory (cl_mem sample_client) fd b1) = (E_OK, sample_pasted)"
    by (rule sample_service_answer)
  have c: "cl_up sample_client" "ConvertErrCode sample_client ERR_OK = E_OK"
    by (simp_all add: sample_client_def ConvertErrCode_def ERR_OK_def)
  note p = progress_paste_agrees[OF _ _ _ c(1) a(1) c(2) a(2), of idle_signals sample_params_get sample_pasted sample_pasted]
  have "GetPasteData_client sample_client sample_env sample_remote_env sample_caller (new_data sample_params 9) 4 sample_board = Some (E_OK, sample_pasted, 4 + 1, b1) \<and>
    (\<exists>p' vs. GetDataWithProgress sample_client sample_env sample_remote_env sample_caller (new_data sample_params 9) (Some sample_params_get) 4 idle_signals sample_board =
       Some (E_OK, sample_pasted, 4 + 1, \<lparr>isPasting = False, remoteTask = False, needCancel = False\<rparr>, Some p', b1) \<and>
     pr_notes p' = map (\<lambda>x. Some (word_of_nat x)) vs \<and> set vs \<subseteq> {..100} \<and> vs \<noteq> [] \<and> last vs = 100)"
    by (rule p) (simp_all add: idle_signals_def sample_params_get_def sample_progress_def sample_env_fields sample_pasted_data)
  then show ?thesis by (auto simp: idle_signals_def last_map)
qed

lemma GetDataWithProgress_abnormal:
  assumes "\<not> isPasting st" "\<not> gp_indicator g"
    "GetPasteDataFromService C V R c (gp_env g) d seqId (st\<lparr>needCancel := False, isPasting := True\<rparr>, gp_progress g) b = Some (E_OK, d1, n, st3, p1, b1)"
    "ProgressAfterTwentyPercent V C (gp_env g) (gp_copy g) d1 n (st3, p1) = Some (ret2, d2, n2, st4, p2)"
    "RebuildWebviewPasteData (sv_ext V) (cl_fetch C) (sv_web V) [] 0 d2 = Some d3" "remoteTask (arrive (gp_env g) n2 st4)"
  shows "GetDataWithProgress C V R c d (Some g) seqId st b =
    Some (PROGRESS_ABNORMAL, d3, seqId + 1, (arrive (gp_env g) n2 st4)\<lparr>remoteTask := False, isPasting := False\<rparr>, Some p2, b1)"
  using assms by (simp add: GetDataWithProgress_def CheckProgressParam_def)


text \<open>The expression accepts a plus sign, the conversion does not.\<close>

lemma plus_sign_refused: "signal_number ''+1'' \<and> HandleSignalValue ''+1'' st = (INVALID_PARAM_ERROR, st)"
  by (simp add: signal_number_def HandleSignalValue_def from_chars_def is_digit_char_def MAX_SIGNAL_VALUE_SIZE_def)

text \<open>A paste of text shortly before the dialog appears reports the end and then goes back.\<close>

lemma progress_goes_back:
  assumes "pe = \<lparr>pe_start = 0, pe_now = (\<lambda>n. if n = 0 then 499 else 501), pe_signals = (\<lambda>_. [])\<rparr>"
  shows "\<exists>n st p ns. progress_loop 4 20 100 pe 0 0 (idle_signals, sample_progress) = (n, st, p) \<and> pr_notes p = [Some 100] \<and>
    pr_notes (snd (snd (snd (SetProgressWithoutFile pe n (st, p))))) = Some 100 # Some 30 # ns"
proof -
  have "progress_loop 4 20 100 pe 0 0 (idle_signals, sample_progress) = (1, idle_signals, UpdateProgress 100 sample_progress)"
    by (subst progress_loop.simps) (simp add: assms arrive_def idle_signals_def time_over_def HAP_PULL_UP_TIME_def HAP_MIN_SHOW_TIME_def)
  moreover have "progress_loop 9 100 100 pe 1 20 (idle_signals, p) = progress_loop 9 100 100 pe 3 30 (idle_signals, UpdateProgress 30 p)" for p
    by (subst progress_loop.simps) (simp add: numeral_3_eq_3 assms arrive_def idle_signals_def time_over_def HAP_PULL_UP_TIME_def HAP_MIN_SHOW_TIME_def)
  moreover have "\<forall>k. pe_signals pe k = []" "\<not> remoteTask idle_signals" "\<not> needCancel idle_signals" by (simp_all add: assms idle_signals_def)
  then obtain n' vs where "progress_loop 9 100 100 pe 3 30 (idle_signals, UpdateProgress 30 (UpdateProgress 100 sample_progress)) =
      (n', idle_signals, fold (\<lambda>x. UpdateProgress (word_of_nat x)) vs (UpdateProgress 30 (UpdateProgress 100 sample_progress)))"
    using progress_loop_quiet[of pe idle_signals 30 100 9 100 3 "UpdateProgress 30 (UpdateProgress 100 sample_progress)"] by auto
  moreover have "pr_notes (fold (\<lambda>x. UpdateProgress (word_of_nat x)) vs (UpdateProgress 30 (UpdateProgress 100 sample_progress))) =
      Some 100 # Some 30 # map (\<lambda>x. Some (word_of_nat x)) vs"
    by (subst fold_UpdateProgress[THEN conjunct1]) (simp_all add: UpdateProgress_def notify_progress_def sample_progress_def)
  ultimately show ?thesis
    by (simp add: SetProgressWithoutFile_def UpdateProgress_def notify_progress_def sample_progress_def)
qed

end
