(* ===== verification/Client_Fetch.thy ===== *)
theory Client_Fetch
  imports Client Record_Value_Safe
begin

text \<open>
  Fetching a delayed value from the service: \<open>PasteboardServiceLoader::GetRecordValueByType\<close> and \<open>ProcessPasteData\<close> of
  \<open>framework/innerkits/src/pasteboard_service_loader.cpp\<close>, with the request of the service (\<open>Record_Value\<close>)
  and the shared memory that carries large values (\<open>Shared_Memory\<close>).
\<close>

section \<open>The request\<close>

text \<open>The value is decoded into a new entry; a failure leaves the old one.\<close>

definition ProcessPasteData_loader :: "client_env \<Rightarrow> ext \<Rightarrow> PasteDataEntry \<Rightarrow> i64 \<Rightarrow> i32 \<Rightarrow> byte list \<Rightarrow> (i32 \<times> byte list) list \<Rightarrow>
    i32 \<times> PasteDataEntry" where
  "ProcessPasteData_loader C E data rawDataSize fd recvTLV mem =
     (let M = cl_mem C;
          decode = (\<lambda>bs. case Decode (DecodeTLV_entry E 0 empty_entry) bs of
              ROk entryValue _ \<Rightarrow> (E_OK, entryValue) | _ \<Rightarrow> (DESERIALIZATION_ERROR, data))
      in if sint fd < 0 then (DESERIALIZATION_ERROR, data)
      else if sint rawDataSize \<le> 0 \<or> sint rawDataSize > GetRawDataSize M then (DESERIALIZATION_ERROR, data)
      else if sint rawDataSize > sint MIN_ASHMEM_DATA_SIZE
      then (let parcelData = (if me_writes_int64 M then [PInt64 rawDataSize] else []) @ (if me_writes_fd M then [PFd fd] else [])
            in case ReadRawData M (nat (sint rawDataSize)) new_warp \<lparr>ch_parcel = parcelData, ch_memory = mem\<rparr> of
                 (None, _) \<Rightarrow> (DESERIALIZATION_ERROR, data)
               | (Some rawData, _) \<Rightarrow> decode rawData)
      else decode recvTLV)"

text \<open>Whether the bytes can be sent, the descriptor and the bytes in the message.\<close>

definition send_value :: "mem_env \<Rightarrow> byte list \<Rightarrow> channel \<Rightarrow> (bool \<times> i32 \<times> byte list \<times> MessageParcelWarp \<times> channel) run" where
  "send_value M sendTLV ch =
     (if sint (word_of_nat (length sendTLV) :: i64) > sint MIN_ASHMEM_DATA_SIZE
      then do {
        (ok, w, ch1) \<leftarrow> WriteRawData_warp M sendTLV (length sendTLV) new_warp ch;
        Some (ok, GetWriteDataFd w, [], w, ch1)
      }
      else (case CreateTmpFd M new_warp ch of (fd, w, ch1) \<Rightarrow> Some (sint fd \<ge> 0, fd, sendTLV, w, ch1)))"

definition GetRecordValueByType_loader :: "client_env \<Rightarrow> svc_env \<Rightarrow> remote_env \<Rightarrow> caller \<Rightarrow> u32 \<Rightarrow> u32 \<Rightarrow> PasteDataEntry \<Rightarrow> channel \<Rightarrow>
    pasteboard \<Rightarrow> (i32 \<times> PasteDataEntry \<times> channel \<times> pasteboard) run" where
  "GetRecordValueByType_loader C V R c dataId0 recordId value ch b =
     (if \<not> cl_up C then Some (OBTAIN_SERVER_SA_ERROR, value, ch, b)
      else case Encode (CountTLV_entry (sv_ext V) value) (EncodeTLV_entry (sv_ext V) value) of (encoded, sendTLV) \<Rightarrow>
        if \<not> encoded then Some (SERIALIZATION_ERROR, value, ch, b)
        else do {
          (ok, fd, buf, w, ch1) \<leftarrow> send_value (cl_mem C) sendTLV ch;
          if \<not> ok then Some (SERIALIZATION_ERROR, value, destroy_warp w ch1, b)
          else do {
            (ret, tlvSize, recvTLV, fd1, b1) \<leftarrow>
              GetRecordValueByType_request V R c dataId0 recordId (word_of_nat (length sendTLV)) buf (sent_memory (cl_mem C) fd ch1) b;
            if ret \<noteq> ERR_OK then Some (ret, value, destroy_warp w ch1, b1)
            else (case ProcessPasteData_loader C (sv_ext V) value tlvSize (if sint fd1 < 0 then fd1 else me_dup (cl_mem C) fd1) recvTLV
                (received_memory (cl_mem C) fd1 b1) of (ret1, value1) \<Rightarrow> Some (ret1, value1, destroy_warp w ch1, b1))
          }
        })"

section \<open>The value the application receives\<close>

lemma ProcessPasteData_loader_received:
  assumes M: "can_receive (cl_mem C) fd n" and n: "0 < n"
    and bs: "length bs = n" "received_bytes fd (word_of_nat n) raw b = Some bs"
    and dec: "Decode (DecodeTLV_entry E 0 empty_entry) bs = ROk v buf"
  shows "ProcessPasteData_loader C E value (word_of_nat n) (me_dup (cl_mem C) fd) raw (received_memory (cl_mem C) fd b) = (E_OK, v)"
proof -
  let ?M = "cl_mem C"
  have r: "me_mmap ?M" "me_writes_int64 ?M" "me_writes_fd ?M" "int n \<le> GetRawDataSize ?M" "0 \<le> sint (me_dup ?M fd)"
    "n > MIN_RAW_SIZE \<Longrightarrow> 0 \<le> sint (me_dup ?M (me_dup ?M fd)) \<and> sint (me_size ?M (me_dup ?M (me_dup ?M fd))) = int n"
    using M by (simp_all add: can_receive_def)
  have s: "sint (word_of_nat n :: i64) = int n" using r(4) GetRawDataSize_bound[of ?M] by (intro sint_length) simp
  have m: "sint MIN_ASHMEM_DATA_SIZE = int MIN_RAW_SIZE" by (simp add: MIN_ASHMEM_DATA_SIZE_def MIN_RAW_SIZE_def)
  show ?thesis
    using ReadRawData_works(2)[OF r(1) bs(1)[symmetric] n r(4), of "\<lparr>ch_parcel = [PInt64 (word_of_nat n), PFd (me_dup ?M fd)],
        ch_memory = [(me_dup ?M fd, bs)]\<rparr>" "me_dup ?M fd"] r bs dec n
    by (auto simp: ProcessPasteData_loader_def received_bytes_def received_memory_def s m Let_def split: if_splits)
qed

lemma entry_bytes:
  assumes "entry_fits E 0 v" "CountTLV_entry E v = n" "n < 2 ^ 32" "n \<le> rsize_max E"
  obtains bs buf where "Encode n (EncodeTLV_entry E v) = (True, bs)" "length bs = n"
    "Decode (DecodeTLV_entry E 0 empty_entry) bs = ROk (v\<lparr>ent_rawDataSize := 0\<rparr>) buf"
proof -
  have c: "n = length (enc_PasteDataEntry E v) + 6 * slack_entry E (ent_value v)" using entry_tlv.count_covers[OF assms(1)] assms(2) by simp
  obtain buf where "Decode (DecodeTLV_entry E 0 empty_entry) (enc_PasteDataEntry E v @ replicate (6 * slack_entry E (ent_value v)) 0) =
      ROk (v\<lparr>ent_rawDataSize := 0\<rparr>) buf"
    using entry_tlv.decode_encoded[OF assms(1), of "slack_entry E (ent_value v)"] assms(3,4) c by auto
  then show thesis
    using that entry_tlv.encode_bytes[OF assms(1)] assms c by auto
qed

lemma answer_value_works:
  assumes "Encode (CountTLV_entry (sv_ext V) v) (EncodeTLV_entry (sv_ext V) v) = (True, bs)" "length bs = n" "0 < n" "int n \<le> sint (max_raw V)" "n < 2 ^ 32"
    and memory: "\<And>k. 0 \<le> sint (AshmemCreate R k)" "\<And>f. 0 \<le> sint (AshmemSetProt R f)" "mmap_ok R" "MemcpyData_ok R"
  shows "\<exists>raw b1. answer_value V R v (- 1) [] b =
      (ERR_OK, word_of_nat n, raw, AshmemCreate R (if int n > sint MIN_ASHMEM_DATA_SIZE then word_of_nat n else 1), b1) \<and>
    received_bytes (AshmemCreate R (if int n > sint MIN_ASHMEM_DATA_SIZE then word_of_nat n else 1)) (word_of_nat n) raw b1 = Some bs \<and> svc b1 = svc b"
proof -
  have n: "sint (word_of_nat n :: i64) = int n" using assms(5) by (intro sint_length) simp
  have w: "WriteRawData V R bs (word_of_nat n) (- 1) b =
      (True, AshmemCreate R (word_of_nat n), b\<lparr>shared := (AshmemCreate R (word_of_nat n), bs) # shared b\<rparr>)"
    using memory(2)[of "AshmemCreate R (word_of_nat n)"] memory(1)[of "word_of_nat n"] memory(3,4) assms(2-4) n
    by (simp add: WriteRawData_def Let_def)
  show ?thesis
    using assms(1,2) w memory(1)[of 1] by (auto simp: answer_value_def Let_def n received_bytes_def)
qed

text \<open>The service receives the bytes the client sends.\<close>

lemma request_decoded:
  assumes "length bs = n" "n < 2 ^ 32" "int n \<le> sint (max_raw V)" "can_send (cl_mem C) n" "\<And>k. me_create (cl_mem C) k \<notin> fst ` set (ch_memory ch)"
    and "Decode (DecodeTLV_entry (sv_ext V) 0 empty_entry) bs = ROk asked buf"
    and "GetRecordValueByType_entry V R c dataId0 recordId asked b = Some (ret, v, b1)"
  obtains fd raw w ch1 m where "send_value (cl_mem C) bs ch = Some (True, fd, raw, w, ch1)" "ch_memory (destroy_warp w ch1) = ch_memory ch"
    "GetRecordValueByType_request V R c dataId0 recordId (word_of_nat n) raw (sent_memory (cl_mem C) fd ch1) b =
       Some (if ret \<noteq> E_OK then (ret, word_of_nat n, raw, m, b1) else answer_value V R v (- 1) [] b1)"
proof -
  let ?M = "cl_mem C"
  have n: "sint (word_of_nat n :: i64) = int n" using assms(2) by (intro sint_length) simp
  have M: "memory_works ?M n" "0 < n" "int n \<le> GetRawDataSize ?M" using assms(4) by (simp_all add: can_send_def)
  have W: "0 \<le> sint (me_dup ?M (me_create ?M n))" "me_mmap ?M" "n > MIN_RAW_SIZE \<Longrightarrow> sint (me_size ?M (me_dup ?M (me_create ?M n))) = int n"
    "0 \<le> sint (me_create ?M n)" using M(1) by (simp_all add: memory_works_def)
  show thesis
  proof (cases "n > MIN_RAW_SIZE")
    case True
    then have "sint MIN_ASHMEM_DATA_SIZE < int n" by (simp add: MIN_ASHMEM_DATA_SIZE_def MIN_RAW_SIZE_def)
    then show thesis
      using WriteRawData_works[OF M(1) assms(1)[symmetric] M(2,3), of ch] True W assms(5)[of n] M(2,3) assms(1,3,6,7)
      by (intro that[of "me_create ?M n" "[]"])
        (auto simp: send_value_def n sent_memory_def GetWriteDataFd_def new_warp_def destroy_warp_def GetRecordValueByType_request_def Let_def)
  next
    case False
    then have "\<not> sint MIN_ASHMEM_DATA_SIZE < int n" by (simp add: MIN_ASHMEM_DATA_SIZE_def MIN_RAW_SIZE_def)
    then show thesis
      using assms(1,3-7) assms(5)[of 1] M(2,3)
      by (intro that[of "me_create ?M 1" bs])
        (auto simp: send_value_def n sent_memory_def CreateTmpFd_def can_send_def new_warp_def destroy_warp_def GetRecordValueByType_request_def Let_def)
  qed
qed

text \<open>The service can answer with the value.\<close>

definition can_answer :: "client_env \<Rightarrow> svc_env \<Rightarrow> remote_env \<Rightarrow> PasteDataEntry \<Rightarrow> bool" where
  "can_answer C V R v \<longleftrightarrow> (let k = CountTLV_entry (sv_ext V) v in entry_fits (sv_ext V) 0 v \<and> 0 < k \<and> k < 2 ^ 32 \<and> k \<le> rsize_max (sv_ext V) \<and>
     int k \<le> sint (max_raw V) \<and> can_receive (cl_mem C) (AshmemCreate R (if int k > sint MIN_ASHMEM_DATA_SIZE then word_of_nat k else 1)) k)"

text \<open>C15: A delayed value reaches the application that pastes. When the question fits the format and shared memory
  works, the service is asked for exactly the type the application named. If it answers with a value, the application
  receives that value, in the message or in shared memory; if it refuses, the application gets its
  code and its entry is unchanged. In both cases the descriptors of the client are closed.\<close>

theorem client_fetch_delivers:
  assumes up: "cl_up C"
    and asks: "entry_fits (sv_ext V) 0 value" "CountTLV_entry (sv_ext V) value = n" "n < 2 ^ 32" "n \<le> rsize_max (sv_ext V)" "int n \<le> sint (max_raw V)"
      "can_send (cl_mem C) n" "\<And>k. me_create (cl_mem C) k \<notin> fst ` set (ch_memory ch)"
    and service: "GetRecordValueByType_entry V R c dataId0 recordId (value\<lparr>ent_rawDataSize := 0\<rparr>) b = Some (ret, v, b1)" "ret \<noteq> ERR_OK"
    and answer: "ret = E_OK \<Longrightarrow> can_answer C V R v"
    and memory: "\<And>k. 0 \<le> sint (AshmemCreate R k)" "\<And>f. 0 \<le> sint (AshmemSetProt R f)" "mmap_ok R" "MemcpyData_ok R"
  shows "\<exists>ch2 b2. GetRecordValueByType_loader C V R c dataId0 recordId value ch b =
      Some (ret, if ret = E_OK then v\<lparr>ent_rawDataSize := 0\<rparr> else value, ch2, b2) \<and> ch_memory ch2 = ch_memory ch \<and> svc b2 = svc b1"
proof -
  obtain bs buf where e: "Encode n (EncodeTLV_entry (sv_ext V) value) = (True, bs)" "length bs = n"
    "Decode (DecodeTLV_entry (sv_ext V) 0 empty_entry) bs = ROk (value\<lparr>ent_rawDataSize := 0\<rparr>) buf"
    by (rule entry_bytes[OF asks(1-4)])
  obtain fd raw w ch1 m where s: "send_value (cl_mem C) bs ch = Some (True, fd, raw, w, ch1)" "ch_memory (destroy_warp w ch1) = ch_memory ch"
    "GetRecordValueByType_request V R c dataId0 recordId (word_of_nat n) raw (sent_memory (cl_mem C) fd ch1) b =
       Some (if ret \<noteq> E_OK then (ret, word_of_nat n, raw, m, b1) else answer_value V R v (- 1) [] b1)"
    by (rule request_decoded[OF e(2) asks(3,5,6,7) e(3) service(1)])
  show ?thesis
  proof (cases "ret = E_OK")
    case True
    obtain k where answers: "entry_fits (sv_ext V) 0 v" "CountTLV_entry (sv_ext V) v = k" "0 < k" "k < 2 ^ 32" "k \<le> rsize_max (sv_ext V)" "int k \<le> sint (max_raw V)"
      "can_receive (cl_mem C) (AshmemCreate R (if int k > sint MIN_ASHMEM_DATA_SIZE then word_of_nat k else 1)) k"
      using answer[OF True] by (simp add: can_answer_def Let_def)
    let ?fd = "AshmemCreate R (if int k > sint MIN_ASHMEM_DATA_SIZE then word_of_nat k else 1)"
    obtain vs buf' where a: "Encode k (EncodeTLV_entry (sv_ext V) v) = (True, vs)" "length vs = k"
      "Decode (DecodeTLV_entry (sv_ext V) 0 empty_entry) vs = ROk (v\<lparr>ent_rawDataSize := 0\<rparr>) buf'"
      by (rule entry_bytes[OF answers(1,2,4,5)])
    obtain raw' b2 where r: "answer_value V R v (- 1) [] b1 = (ERR_OK, word_of_nat k, raw', ?fd, b2)"
      "received_bytes ?fd (word_of_nat k) raw' b2 = Some vs" "svc b2 = svc b1"
      using answer_value_works[OF _ a(2) answers(3,6,4) memory, of v b1] a(1) answers(2) by blast
    have "ProcessPasteData_loader C (sv_ext V) value (word_of_nat k) (me_dup (cl_mem C) ?fd) raw' (received_memory (cl_mem C) ?fd b2) =
        (E_OK, v\<lparr>ent_rawDataSize := 0\<rparr>)"
      by (rule ProcessPasteData_loader_received[OF answers(7,3) a(2) r(2) a(3)])
    then show ?thesis
      using up e(1,2) asks(2) s r True memory(1)[of "if int k > sint MIN_ASHMEM_DATA_SIZE then word_of_nat k else 1"]
      by (simp add: GetRecordValueByType_loader_def)
  qed (use up e(1,2) asks(2) s service(2) in \<open>simp add: GetRecordValueByType_loader_def\<close>)
qed

section \<open>Examples\<close>

lemma sample_entries_small:
  assumes "v \<in> {sample_asked, sample_given}"
  shows "0 < CountTLV_entry sample_ext v" "CountTLV_entry sample_ext v \<le> 999" "entry_fits sample_ext 0 v"
  using assms
  by (auto simp: CountTLV_entry_def mk_entry_mime_def Count_string_def Count_basic_def Count_vector_u8_def Count_RawMem_def entry_fits_def MAX_DEPTH_def)

theorem client_fetch_delivers_witness:
  "\<exists>ch2 b2. GetRecordValueByType_loader sample_client sample_env sample_remote_env sample_caller 3 7 sample_asked
       \<lparr>ch_parcel = [], ch_memory = []\<rparr> sample_delayed_board =
     Some (E_OK, sample_given\<lparr>ent_rawDataSize := 0\<rparr>, ch2, b2) \<and> ch_memory ch2 = []"
proof -
  have g: "GetRecordValueByType_entry sample_env sample_remote_env sample_caller 3 7 (sample_asked\<lparr>ent_rawDataSize := 0\<rparr>) sample_delayed_board =
      Some (E_OK, sample_given, put_clip 100 (keep_entry sample_env 7 ''app/x'' sample_given sample_delayed) sample_delayed_board)"
    using delayed_value_answer[OF sample_request(1) refl, unfolded sample_request(2,3), OF sample_request(5,4) sample_delayed_stored(3,1,2,5,6)
        sample_supplied(1-7), of sample_remote_env]
    by (simp add: mk_entry_mime_def)
  have n: "0 < CountTLV_entry sample_ext sample_asked" "CountTLV_entry sample_ext sample_asked \<le> 999" "entry_fits sample_ext 0 sample_asked"
    "0 < CountTLV_entry sample_ext sample_given" "CountTLV_entry sample_ext sample_given \<le> 999" "entry_fits sample_ext 0 sample_given"
    by (simp_all add: sample_entries_small)
  have m: "can_send sample_mem k" "can_receive sample_mem 5 k" if "0 < k" "k \<le> 999" for k
    using that by (simp_all add: can_send_def can_receive_def memory_works_def sample_mem_def WRITE_SPLIT_CHUNK_SIZE_def GetRawDataSize_def
        KERNEL_MIN_SIZE_def KERNEL_MAX_SIZE_def SIZE_K_def MIN_RAW_SIZE_def)
  have "can_answer sample_client sample_env sample_remote_env sample_given"
    using n(4-6) m(2)[OF n(4,5)] by (simp add: can_answer_def sample_env_fields sample_client_def sample_remote_env_def sample_ext_def Let_def)
  then have "\<exists>ch2 b2. GetRecordValueByType_loader sample_client sample_env sample_remote_env sample_caller 3 7 sample_asked
       \<lparr>ch_parcel = [], ch_memory = []\<rparr> sample_delayed_board =
      Some (E_OK, if E_OK = E_OK then sample_given\<lparr>ent_rawDataSize := 0\<rparr> else sample_asked, ch2, b2) \<and>
      ch_memory ch2 = ch_memory \<lparr>ch_parcel = [], ch_memory = []\<rparr> \<and>
      svc b2 = svc (put_clip 100 (keep_entry sample_env 7 ''app/x'' sample_given sample_delayed) sample_delayed_board)"
    by (intro client_fetch_delivers[OF _ _ refl _ _ _ _ _ g])
      (use n(1-3) m(1)[OF n(1,2)] in \<open>simp_all add: sample_client_def sample_env_fields sample_ext_def sample_remote_env_def E_OK_code ERR_OK_def\<close>)
  then show ?thesis by auto
qed

end
