(* ===== verification/Device_Profile.thy ===== *)
theory Device_Profile
  imports Observers Web_Controller
begin

text \<open>
  Whether clips cross devices: the devices that are online (\<open>framework/framework/device/dm_adapter.cpp\<close>), the switches of the devices
  (\<open>dev_profile.cpp\<close>, \<open>adapter/src/device_profile_adapter.cpp\<close>, \<open>device_profile_client.cpp\<close>), the state derived
  from them (\<open>distributed_module_config.cpp\<close>) and the switch of the user (\<open>services/switch/pasteboard_switch.cpp\<close>), built with
  the device manager. The device manager, the profile service, the settings and the loading of the adapter library are the record
  \<open>dp_env\<close>; one environment is what they answer during one operation. An operation holds its lock or runs on the values it read, so it is one step;
  the threads the code starts are later steps. A registered profile listener is
  named by the device it watches; a set without an order is a list in some order.
\<close>

section \<open>State\<close>

record dp_env =
  de_local :: string \<comment> \<open>the identifier of this device, empty if it is unknown\<close>
  de_udid :: "string \<Rightarrow> string" \<comment> \<open>\<open>GetUdidByNetworkId\<close>\<close>
  de_adapter :: bool \<comment> \<open>the adapter library gives an adapter\<close>
  de_samgr :: bool
  de_running :: bool \<comment> \<open>\<open>CheckSystemAbility\<close> of the profile service\<close>
  de_load :: i32
  de_loaded :: bool \<comment> \<open>the service is loaded in time\<close>
  de_profile :: "string \<Rightarrow> string \<Rightarrow> i32 \<times> string" \<comment> \<open>\<open>GetCharacteristicProfile\<close> by device and service name\<close>
  de_put :: i32
  de_subscribe :: i32
  de_unsubscribe :: i32
  de_json :: "string \<Rightarrow> int option" \<comment> \<open>the integer part of a number \<open>PasteboardVersionId\<close> that is not negative\<close>
  de_new :: bool \<comment> \<open>the listener is allocated\<close>
  de_unloads :: bool \<comment> \<open>\<open>dlclose\<close> unmaps the adapter library\<close>
  de_helper :: "string \<Rightarrow> bool" \<comment> \<open>a data share helper for the URI is created\<close>
  de_query :: "string \<Rightarrow> string \<Rightarrow> (i32 \<times> i32 \<times> string) option" \<comment> \<open>by URI and key: the rows, the code of \<open>GetString\<close> and the value\<close>
  DS_E_OK :: i32
  DP_SUCCESS :: i32
  DP_CACHE_EXIST :: i32
  DP_GET_SERVICE_FAILED :: i32
  DP_EXCEED_MAX_SIZE_FAIL :: i32
  MAX_SUBSCRIBE_INFO_SIZE :: nat

record switch_state =
  online_udids :: "string list" \<comment> \<open>\<open>DMAdapter::devices_\<close>\<close>
  enabledStatusCache :: "(string, bool) entries"
  profile_proxy :: bool \<comment> \<open>\<open>DevProfile::proxy_\<close> is set\<close>
  subscribeUdidList :: "string list"
  release_timer :: bool
  subscribeInfoCache :: "string list" \<comment> \<open>of the adapter\<close>
  update_callback :: bool
  dpProxy :: bool \<comment> \<open>of the profile client\<close>
  subscribeInfos :: "string list"
  profiles_watched :: bool \<comment> \<open>\<open>DevProfile::observer_\<close> is set\<close>
  config_registered :: bool \<comment> \<open>with the device adapter\<close>
  config_status :: bool
  config_watched :: bool
  config_retrying :: bool
  retry_threads :: nat
  config_calls :: "bool list" \<comment> \<open>calls of the observer of the configuration\<close>
  settings_user :: string \<comment> \<open>\<open>DataShareDelegate::userId_\<close>\<close>
  settings_observed :: "string list" \<comment> \<open>the URIs the switch observer is registered for\<close>
  switch_userId :: i32

definition new_switch :: switch_state where
  "new_switch = \<lparr>online_udids = [], enabledStatusCache = [], profile_proxy = False, subscribeUdidList = [], release_timer = False,
     subscribeInfoCache = [], update_callback = False, dpProxy = False, subscribeInfos = [], profiles_watched = False, config_registered = False, config_status = False,
     config_watched = False, config_retrying = False, retry_threads = 0, config_calls = [], settings_user = ''100'', settings_observed = [], switch_userId = ERROR_USERID\<rparr>"

section \<open>The client of the profile service\<close>

definition GetDeviceProfileService :: "dp_env \<Rightarrow> switch_state \<Rightarrow> bool \<times> switch_state" where
  "GetDeviceProfileService e s =
     (if dpProxy s then (True, s)
      else if \<not> de_samgr e then (False, s)
      else if de_running e then (True, s\<lparr>dpProxy := True\<rparr>)
      else if de_load e \<noteq> 0 then (False, s)
      else (de_loaded e, s\<lparr>dpProxy := de_loaded e\<rparr>))"

definition PutCharacteristicProfile :: "dp_env \<Rightarrow> switch_state \<Rightarrow> i32 \<times> switch_state" where
  "PutCharacteristicProfile e s = (case GetDeviceProfileService e s of (ok, s1) \<Rightarrow>
     (if \<not> ok then DP_GET_SERVICE_FAILED e else de_put e, s1))"

definition GetCharacteristicProfile :: "dp_env \<Rightarrow> string \<Rightarrow> string \<Rightarrow> switch_state \<Rightarrow> (i32 \<times> string) \<times> switch_state" where
  "GetCharacteristicProfile e deviceId serviceName s = (case GetDeviceProfileService e s of (ok, s1) \<Rightarrow>
     (if \<not> ok then (DP_GET_SERVICE_FAILED e, []) else de_profile e deviceId serviceName, s1))"

definition SubscribeDeviceProfile :: "dp_env \<Rightarrow> string \<Rightarrow> switch_state \<Rightarrow> i32 \<times> switch_state" where
  "SubscribeDeviceProfile e udid s = (case GetDeviceProfileService e s of (ok, s1) \<Rightarrow>
     if \<not> ok then (DP_GET_SERVICE_FAILED e, s1)
     else if \<not> length (subscribeInfos s1) < MAX_SUBSCRIBE_INFO_SIZE e then (DP_EXCEED_MAX_SIZE_FAIL e, s1)
     else (de_subscribe e, s1\<lparr>subscribeInfos := List.insert udid (subscribeInfos s1)\<rparr>))"

definition UnSubscribeDeviceProfile :: "dp_env \<Rightarrow> string \<Rightarrow> switch_state \<Rightarrow> i32 \<times> switch_state" where
  "UnSubscribeDeviceProfile e udid s = (case GetDeviceProfileService e s of (ok, s1) \<Rightarrow>
     if \<not> ok then (DP_GET_SERVICE_FAILED e, s1)
     else (de_unsubscribe e, s1\<lparr>subscribeInfos := removeAll udid (subscribeInfos s1)\<rparr>))"

section \<open>The adapter\<close>

definition STATUS_ENABLE :: string where "STATUS_ENABLE = ''1''"
definition STATUS_DISABLE :: string where "STATUS_DISABLE = ''0''"
definition PROFILE_SERVICE_ID :: string where "PROFILE_SERVICE_ID = ''pasteboardService''"
definition SWITCH_ID :: string where "SWITCH_ID = ''SwitchStatus_Key_Distributed_Pasteboard''"

definition Bool2Str :: "bool \<Rightarrow> string" where
  "Bool2Str value = (if value then STATUS_ENABLE else STATUS_DISABLE)"

definition Str2Bool :: "string \<Rightarrow> bool" where
  "Str2Bool value \<longleftrightarrow> value = STATUS_ENABLE"

definition PutDeviceStatus_adapter :: "dp_env \<Rightarrow> switch_state \<Rightarrow> i32 \<times> switch_state" where
  "PutDeviceStatus_adapter e s = (case PutCharacteristicProfile e s of (ret, s1) \<Rightarrow>
     (if ret = DP_SUCCESS e \<or> ret = DP_CACHE_EXIST e then E_OK else ret, s1))"

text \<open>The status is written only on success (\<open>None\<close>: not written).\<close>

definition GetDeviceStatus_adapter :: "dp_env \<Rightarrow> string \<Rightarrow> switch_state \<Rightarrow> i32 \<times> bool option \<times> switch_state" where
  "GetDeviceStatus_adapter e udid s = (case GetCharacteristicProfile e udid SWITCH_ID s of ((ret, value), s1) \<Rightarrow>
     if ret \<noteq> DP_SUCCESS e then (ret, None, s1) else (E_OK, Some (Str2Bool value), s1))"

definition GetDeviceVersion_adapter :: "dp_env \<Rightarrow> string \<Rightarrow> switch_state \<Rightarrow> u32 option \<times> switch_state" where
  "GetDeviceVersion_adapter e udid s = (case GetCharacteristicProfile e udid PROFILE_SERVICE_ID s of ((ret, value), s1) \<Rightarrow>
     (if ret \<noteq> DP_SUCCESS e then None else map_option word_of_int (de_json e value), s1))"

definition SubscribeProfileEvent_adapter :: "dp_env \<Rightarrow> string \<Rightarrow> switch_state \<Rightarrow> i32 \<times> switch_state" where
  "SubscribeProfileEvent_adapter e udid s =
     (if udid \<in> set (subscribeInfoCache s) then (INVALID_PARAM_ERROR, s)
      else if \<not> de_new e then (MALLOC_FAILED, s)
      else case SubscribeDeviceProfile e udid (s\<lparr>subscribeInfoCache := udid # subscribeInfoCache s\<rparr>) of (ret, s1) \<Rightarrow>
        (if ret \<noteq> DP_SUCCESS e then ret else E_OK, s1))"

definition UnSubscribeProfileEvent_adapter :: "dp_env \<Rightarrow> string \<Rightarrow> switch_state \<Rightarrow> i32 \<times> switch_state" where
  "UnSubscribeProfileEvent_adapter e udid s =
     (if udid \<notin> set (subscribeInfoCache s) then (INVALID_PARAM_ERROR, s)
      else case UnSubscribeDeviceProfile e udid s of (ret, s1) \<Rightarrow>
        if ret \<noteq> DP_SUCCESS e then (ret, s1) else (E_OK, s1\<lparr>subscribeInfoCache := removeAll udid (subscribeInfoCache s1)\<rparr>))"

text \<open>\<open>SendSubscribeInfos\<close> renews the subscriptions of the client with a profile service that started again: the result is the list that is sent.\<close>

definition SendSubscribeInfos_adapter :: "dp_env \<Rightarrow> switch_state \<Rightarrow> string list \<times> switch_state" where
  "SendSubscribeInfos_adapter e s =
     (if subscribeInfoCache s = [] then ([], s)
      else case GetDeviceProfileService e s of (ok, s1) \<Rightarrow> (if ok then subscribeInfos s1 else [], s1))"

section \<open>The profiles\<close>

definition UpdateEnabledStatus :: "string \<Rightarrow> bool \<Rightarrow> switch_state \<Rightarrow> switch_state" where
  "UpdateEnabledStatus udid status s =
     s\<lparr>enabledStatusCache := fst (snd (CM_Compute False udid (Some (\<lambda>_ _ u. (True, status, u))) (enabledStatusCache s) ()))\<rparr>"

definition EraseEnabledStatus :: "string \<Rightarrow> switch_state \<Rightarrow> switch_state" where
  "EraseEnabledStatus udid s = s\<lparr>enabledStatusCache := snd (CM_Erase udid (enabledStatusCache s))\<rparr>"

text \<open>The timer that releases the library is armed by every use, and the library is opened on demand.\<close>

definition use_proxy :: "switch_state \<Rightarrow> switch_state" where
  "use_proxy s = s\<lparr>release_timer := True, profile_proxy := True\<rparr>"

definition release_task :: "dp_env \<Rightarrow> switch_state \<Rightarrow> switch_state" where
  "release_task e s = (let s1 = s\<lparr>release_timer := False\<rparr> in
     if \<not> profile_proxy s1 \<or> subscribeUdidList s1 \<noteq> [] then s1
     else let s2 = s1\<lparr>profile_proxy := False\<rparr>
     in if \<not> de_adapter e then s2
     else let s3 = s2\<lparr>dpProxy := False, update_callback := False\<rparr>
     in if de_unloads e then s3\<lparr>subscribeInfoCache := [], subscribeInfos := []\<rparr> else s3)"

text \<open>The callers pass a status that is false; it stays so when the call fails.\<close>

definition GetDeviceStatus :: "dp_env \<Rightarrow> string \<Rightarrow> switch_state \<Rightarrow> i32 \<times> bool \<times> switch_state" where
  "GetDeviceStatus e udid s =
     (if udid = [] then (GET_LOCAL_DEVICE_ID_ERROR, False, s)
      else case CM_ComputeIfPresent udid (Some (\<lambda>_ v _. (True, v, v))) (enabledStatusCache s) False of (cached, cache, status) \<Rightarrow>
        if cached then (E_OK, status, s\<lparr>enabledStatusCache := cache\<rparr>)
        else let s1 = use_proxy s in
        if \<not> de_adapter e then (DLOPEN_FAILED, False, s1)
        else case GetDeviceStatus_adapter e udid s1 of (ret, written, s2) \<Rightarrow>
          let status = (case written of Some b \<Rightarrow> b | None \<Rightarrow> False)
          in if ret \<noteq> E_OK then (ret, status, s2) else (E_OK, status, UpdateEnabledStatus udid status s2))"

definition GetDeviceVersion :: "dp_env \<Rightarrow> string \<Rightarrow> switch_state \<Rightarrow> u32 option \<times> switch_state" where
  "GetDeviceVersion e udid s =
     (if udid = [] then (None, s)
      else let s1 = use_proxy s in if \<not> de_adapter e then (None, s1) else GetDeviceVersion_adapter e udid s1)"

definition SubscribeProfileEvent :: "dp_env \<Rightarrow> string \<Rightarrow> switch_state \<Rightarrow> switch_state" where
  "SubscribeProfileEvent e udid s =
     (if udid = [] then s
      else let s1 = use_proxy s in
      if \<not> de_adapter e then s1
      else case SubscribeProfileEvent_adapter e udid (s1\<lparr>update_callback := True\<rparr>) of (_, s2) \<Rightarrow>
        s2\<lparr>subscribeUdidList := List.insert udid (subscribeUdidList s2)\<rparr>)"

definition UnSubscribeProfileEvent :: "dp_env \<Rightarrow> string \<Rightarrow> switch_state \<Rightarrow> switch_state" where
  "UnSubscribeProfileEvent e udid s =
     (if udid = [] then s
      else let s1 = use_proxy s in
      if \<not> de_adapter e then s1
      else case UnSubscribeProfileEvent_adapter e udid s1 of (_, s2) \<Rightarrow>
        s2\<lparr>subscribeUdidList := removeAll udid (subscribeUdidList s2)\<rparr>)"

definition UnSubscribeAllProfileEvents :: "dp_env \<Rightarrow> switch_state \<Rightarrow> switch_state" where
  "UnSubscribeAllProfileEvents e s =
     (if subscribeUdidList s = [] then s
      else let s1 = use_proxy s in
      if \<not> de_adapter e then s1
      else (fold (\<lambda>udid s. snd (UnSubscribeProfileEvent_adapter e udid s)) (subscribeUdidList s1) s1)\<lparr>subscribeUdidList := []\<rparr>)"

definition SendSubscribeInfos :: "dp_env \<Rightarrow> switch_state \<Rightarrow> string list \<times> switch_state" where
  "SendSubscribeInfos e s =
     (if subscribeUdidList s = [] then ([], s)
      else let s1 = use_proxy s in if \<not> de_adapter e then ([], s1) else SendSubscribeInfos_adapter e s1)"

definition ClearDeviceProfileService :: "dp_env \<Rightarrow> switch_state \<Rightarrow> switch_state" where
  "ClearDeviceProfileService e s =
     (if \<not> profile_proxy s then s
      else let s1 = s\<lparr>enabledStatusCache := CM_Clear (enabledStatusCache s), release_timer := True\<rparr>
      in if \<not> de_adapter e then s1 else s1\<lparr>dpProxy := False\<rparr>)"

section \<open>The configuration\<close>

fun any_enabled :: "dp_env \<Rightarrow> string list \<Rightarrow> switch_state \<Rightarrow> i32 \<times> switch_state" where
  "any_enabled e [] s = (NO_TRUST_DEVICE_ERROR, s)"
| "any_enabled e (udid # udids) s = (case GetDeviceStatus e udid s of (res, remoteEnable, s1) \<Rightarrow>
     if res = E_OK \<and> remoteEnable then (E_OK, s1) else any_enabled e udids s1)"

definition GetEnabledStatus :: "dp_env \<Rightarrow> switch_state \<Rightarrow> i32 \<times> switch_state" where
  "GetEnabledStatus e s = (case GetDeviceStatus e (de_local e) s of (status, localEnable, s1) \<Rightarrow>
     if status \<noteq> E_OK \<or> \<not> localEnable then (LOCAL_SWITCH_NOT_TURNED_ON, s1)
     else any_enabled e (online_udids s1) s1)"

definition set_status :: "bool \<Rightarrow> switch_state \<Rightarrow> switch_state" where
  "set_status newStatus s =
     (if newStatus \<noteq> config_status s
      then let s1 = s\<lparr>config_status := newStatus\<rparr> in if config_watched s1 then s1\<lparr>config_calls := config_calls s1 @ [newStatus]\<rparr> else s1
      else s)"

definition Notify_config :: "dp_env \<Rightarrow> switch_state \<Rightarrow> switch_state" where
  "Notify_config e s = (case GetEnabledStatus e s of (status, s1) \<Rightarrow>
     if status = DP_LOAD_SERVICE_ERROR
     then (if config_retrying s1 then s1 else s1\<lparr>config_retrying := True, retry_threads := Suc (retry_threads s1)\<rparr>)
     else set_status (status = E_OK) s1)"

definition RETRY_TIMES :: nat where "RETRY_TIMES = 30"

text \<open>The thread of \<open>GetRetryTask\<close>; \<open>es retry\<close> is the environment of a try.\<close>

fun retry_loop :: "(nat \<Rightarrow> dp_env) \<Rightarrow> nat \<Rightarrow> i32 \<times> switch_state \<Rightarrow> i32 \<times> switch_state" where
  "retry_loop es 0 st = st"
| "retry_loop es (Suc n) (_, s) = (case GetEnabledStatus (es n) s of (status, s1) \<Rightarrow>
     if status = DP_LOAD_SERVICE_ERROR then retry_loop es n (status, s1) else (status, s1))"

definition GetRetryTask :: "(nat \<Rightarrow> dp_env) \<Rightarrow> switch_state \<Rightarrow> switch_state" where
  "GetRetryTask es s = (case retry_loop es RETRY_TIMES (REMOTE_TASK_ERROR, s\<lparr>config_retrying := True\<rparr>) of (status, s1) \<Rightarrow>
     (set_status (status = E_OK) s1)\<lparr>config_retrying := False\<rparr>)"

definition IsOn :: "dp_env \<Rightarrow> switch_state \<Rightarrow> bool \<times> switch_state" where
  "IsOn e s = (let s1 = (if online_udids s \<noteq> [] then Notify_config e s else s) in (config_status s1, s1))"

fun version_loop :: "dp_env \<Rightarrow> string list \<Rightarrow> (u32 \<times> u32) \<times> switch_state \<Rightarrow> (u32 \<times> u32) \<times> switch_state" where
  "version_loop e [] st = st"
| "version_loop e (udid # udids) ((lo, hi), s) = (case GetDeviceStatus e udid s of (res, remoteEnable, s1) \<Rightarrow>
     if res \<noteq> E_OK \<or> \<not> remoteEnable then version_loop e udids ((lo, hi), s1)
     else (case GetDeviceVersion e udid s1 of
         (None, s2) \<Rightarrow> version_loop e udids ((lo, hi), s2)
       | (Some v, s2) \<Rightarrow> version_loop e udids ((if lo < v then lo else v, if hi > v then hi else v), s2)))"

definition GetRemoteDeviceVersion :: "dp_env \<Rightarrow> switch_state \<Rightarrow> (u32 \<times> u32) \<times> switch_state" where
  "GetRemoteDeviceVersion e s = version_loop e (online_udids s) ((- 1, 0), s)"

definition Online_config :: "dp_env \<Rightarrow> string \<Rightarrow> switch_state \<Rightarrow> switch_state" where
  "Online_config e device s = (case GetDeviceStatus e device (SubscribeProfileEvent e device s) of (_, _, s1) \<Rightarrow> Notify_config e s1)"

definition Offline_config :: "dp_env \<Rightarrow> string \<Rightarrow> switch_state \<Rightarrow> switch_state" where
  "Offline_config e device s = Notify_config e (EraseEnabledStatus device (UnSubscribeProfileEvent e device s))"

definition Init_config :: "switch_state \<Rightarrow> switch_state" where
  "Init_config s = s\<lparr>config_registered := True, profiles_watched := True\<rparr>"

definition Watch_config :: "switch_state \<Rightarrow> switch_state" where
  "Watch_config s = s\<lparr>config_watched := True\<rparr>"

definition DeInit_config :: "switch_state \<Rightarrow> switch_state" where
  "DeInit_config s = s\<lparr>config_registered := False\<rparr>"

definition DevProfile_Notify :: "dp_env \<Rightarrow> switch_state \<Rightarrow> switch_state" where
  "DevProfile_Notify e s = (if profiles_watched s then Notify_config e s else s)"

definition OnProfileUpdate :: "dp_env \<Rightarrow> string \<Rightarrow> bool \<Rightarrow> switch_state \<Rightarrow> switch_state" where
  "OnProfileUpdate e udid status s = DevProfile_Notify e (UpdateEnabledStatus udid status s)"

text \<open>The listener of the adapter reacts to updates only, and only while the callback is set.\<close>

definition OnCharacteristicProfileUpdate :: "dp_env \<Rightarrow> string \<Rightarrow> string \<Rightarrow> switch_state \<Rightarrow> switch_state" where
  "OnCharacteristicProfileUpdate e udid value s = (if update_callback s then OnProfileUpdate e udid (value = STATUS_ENABLE) s else s)"

definition PutDeviceStatus :: "dp_env \<Rightarrow> bool \<Rightarrow> switch_state \<Rightarrow> switch_state" where
  "PutDeviceStatus e status s = (let udid = de_local e in
     if udid = [] then s
     else let s1 = use_proxy (UpdateEnabledStatus udid status s) in
     if \<not> de_adapter e then s1
     else case PutDeviceStatus_adapter e s1 of (ret, s2) \<Rightarrow> if ret \<noteq> E_OK then s2 else DevProfile_Notify e s2)"

section \<open>Devices\<close>

definition AddDevice :: "dp_env \<Rightarrow> bool \<Rightarrow> string \<Rightarrow> switch_state \<Rightarrow> string \<times> switch_state" where
  "AddDevice e identicalAccount networkId s =
     (if \<not> identicalAccount then ([], s)
      else let udid = de_udid e networkId in
      if udid = [] then ([], s) else (udid, s\<lparr>online_udids := List.insert udid (online_udids s)\<rparr>))"

definition RemoveDevice :: "dp_env \<Rightarrow> string \<Rightarrow> switch_state \<Rightarrow> string \<times> switch_state" where
  "RemoveDevice e networkId s = (let udid = de_udid e networkId in
     if udid = [] then ([], s) else (udid, s\<lparr>online_udids := removeAll udid (online_udids s)\<rparr>))"

text \<open>The tasks of \<open>GetDmStateObserver\<close>; a device that changed is handled as one that comes online, and nothing is done when one is ready.\<close>

definition online_task :: "dp_env \<Rightarrow> bool \<Rightarrow> string \<Rightarrow> switch_state \<Rightarrow> switch_state" where
  "online_task e identicalAccount networkId s = (case AddDevice e identicalAccount networkId s of (udid, s1) \<Rightarrow>
     if udid = [] then s1 else if config_registered s1 then Online_config e udid s1 else s1)"

definition offline_task :: "dp_env \<Rightarrow> string \<Rightarrow> switch_state \<Rightarrow> switch_state" where
  "offline_task e networkId s = (case RemoveDevice e networkId s of (udid, s1) \<Rightarrow>
     if udid = [] then s1 else if config_registered s1 then Offline_config e udid s1 else s1)"

definition OnDeviceOnline :: "dp_env \<Rightarrow> bool \<Rightarrow> string \<Rightarrow> switch_state \<Rightarrow> switch_state" where
  "OnDeviceOnline e identicalAccount networkId s = (if \<not> identicalAccount then s else online_task e identicalAccount networkId s)"

definition OnDeviceOffline :: "dp_env \<Rightarrow> string \<Rightarrow> switch_state \<Rightarrow> switch_state" where
  "OnDeviceOffline e networkId s = offline_task e networkId s"

definition IsDeviceOnline :: "dp_env \<Rightarrow> string \<Rightarrow> switch_state \<Rightarrow> bool" where
  "IsDeviceOnline e networkId s \<longleftrightarrow> de_udid e networkId \<noteq> [] \<and> de_udid e networkId \<in> set (online_udids s)"

section \<open>The settings of the user\<close>

definition DISTRIBUTED_PASTEBOARD_SWITCH :: string where "DISTRIBUTED_PASTEBOARD_SWITCH = ''distributed_pasteboard_switch''"
definition DEVICE_COLLAB_SWITCH :: string where "DEVICE_COLLAB_SWITCH = ''settings.collaboration.multi_device_collaboration_service_switch''"
definition SUPPORT_STATUS :: string where "SUPPORT_STATUS = ''1''"
definition SETTING_URI_PROXY_PREFIX :: string where "SETTING_URI_PROXY_PREFIX = ''datashare:///com.ohos.settingsdata/entry/settingsdata/USER_SETTINGSDATA_SECURE_''"
definition SETTING_URI_PROXY_SUFFIX :: string where "SETTING_URI_PROXY_SUFFIX = ''?Proxy=true''"
definition SETTING_URI_WIFI_PROXY :: string where "SETTING_URI_WIFI_PROXY = ''datashare:///com.ohos.settingsdata/entry/settingsdata/SETTINGSDATA?Proxy=true''"

definition setting_table :: "string \<Rightarrow> switch_state \<Rightarrow> string" where
  "setting_table key s =
     (if key = DEVICE_COLLAB_SWITCH then SETTING_URI_WIFI_PROXY else SETTING_URI_PROXY_PREFIX @ settings_user s @ SETTING_URI_PROXY_SUFFIX)"

definition CreateDataShareHelper :: "dp_env \<Rightarrow> string \<Rightarrow> switch_state \<Rightarrow> bool" where
  "CreateDataShareHelper e key s \<longleftrightarrow> de_samgr e \<and> de_helper e (setting_table key s)"

definition MakeUri :: "string \<Rightarrow> switch_state \<Rightarrow> string" where
  "MakeUri key s = setting_table key s @ ''&key='' @ key"

definition SetUserId_share :: "i32 \<Rightarrow> switch_state \<Rightarrow> switch_state" where
  "SetUserId_share userId s = s\<lparr>settings_user := i32_string userId\<rparr>"

text \<open>The callers pass an empty value, which \<open>GetString\<close> may fill also when it fails.\<close>

definition GetValue_share :: "dp_env \<Rightarrow> string \<Rightarrow> switch_state \<Rightarrow> i32 \<times> string" where
  "GetValue_share e key s =
     (if \<not> CreateDataShareHelper e key s then (CREATE_DATASHARE_SERVICE_ERROR, [])
      else case de_query e (MakeUri key s) key of
        None \<Rightarrow> (INVALID_RETURN_VALUE_ERROR, [])
      | Some (count, ret, value) \<Rightarrow>
          if count = 0 then (QUERY_SETTING_NO_DATA_ERROR, [])
          else if ret \<noteq> DS_E_OK e then (ret, value)
          else (E_OK, value))"

definition RegisterObserver :: "dp_env \<Rightarrow> string \<Rightarrow> switch_state \<Rightarrow> switch_state" where
  "RegisterObserver e key s =
     (if \<not> CreateDataShareHelper e key s then s else s\<lparr>settings_observed := List.insert (MakeUri key s) (settings_observed s)\<rparr>)"

definition UnregisterObserver :: "dp_env \<Rightarrow> string \<Rightarrow> switch_state \<Rightarrow> switch_state" where
  "UnregisterObserver e key s =
     (if \<not> CreateDataShareHelper e key s then s else s\<lparr>settings_observed := removeAll (MakeUri key s) (settings_observed s)\<rparr>)"

section \<open>The switch of the user\<close>

definition SetSwitch :: "dp_env \<Rightarrow> i32 \<Rightarrow> switch_state \<Rightarrow> switch_state" where
  "SetSwitch e userId s = (let s1 = SetUserId_share userId s; value = snd (GetValue_share e DISTRIBUTED_PASTEBOARD_SWITCH s1) in
     if value = [] then PutDeviceStatus e True s1 else PutDeviceStatus e (value = SUPPORT_STATUS) s1)"

definition PastedSwitch_Init :: "dp_env \<Rightarrow> bool \<Rightarrow> bool \<Rightarrow> i32 \<Rightarrow> switch_state \<Rightarrow> switch_state" where
  "PastedSwitch_Init e disabled hmlSupported userId s =
     (if disabled then PutDeviceStatus e False s
      else if userId = ERROR_USERID then s
      else if \<not> hmlSupported then s
      else let s1 = SetUserId_share userId (s\<lparr>switch_userId := userId\<rparr>); s2 = RegisterObserver e DISTRIBUTED_PASTEBOARD_SWITCH s1
      in SetSwitch e userId s2)"

definition GetDeviceCollabSwitch :: "dp_env \<Rightarrow> i32 \<Rightarrow> switch_state \<Rightarrow> bool \<times> switch_state" where
  "GetDeviceCollabSwitch e userId s = (let s1 = SetUserId_share userId s in case GetValue_share e DEVICE_COLLAB_SWITCH s1 of (ret, value) \<Rightarrow>
     (if ret \<noteq> E_OK then False else if value = [] then True else value = SUPPORT_STATUS, s1))"

definition PastedSwitch_DeInit :: "dp_env \<Rightarrow> switch_state \<Rightarrow> switch_state" where
  "PastedSwitch_DeInit e s = UnregisterObserver e DISTRIBUTED_PASTEBOARD_SWITCH s"

end
