(* ===== verification/Device_Switch.thy ===== *)
theory Device_Switch
  imports Device_Profile
begin

text \<open>
  When clips cross devices: the status of the configuration is the conjunction of the switch of this device and the switch of
  some device that is online, as far as they are known; the observer hears of every change and only of changes; the
  range of versions is that of the enabled devices.
\<close>

section \<open>What is known of a device\<close>

definition reached :: "dp_env \<Rightarrow> switch_state \<Rightarrow> bool" where
  "reached e s \<longleftrightarrow> dpProxy s \<or> de_samgr e \<and> (de_running e \<or> de_load e = 0 \<and> de_loaded e)"

definition known :: "dp_env \<Rightarrow> switch_state \<Rightarrow> string \<Rightarrow> bool" where
  "known e s udid \<longleftrightarrow> udid \<noteq> [] \<and> (case map_of (enabledStatusCache s) udid of
      Some b \<Rightarrow> b
    | None \<Rightarrow> de_adapter e \<and> reached e s \<and> fst (de_profile e udid SWITCH_ID) = DP_SUCCESS e \<and> snd (de_profile e udid SWITCH_ID) = STATUS_ENABLE)"

definition enabled :: "dp_env \<Rightarrow> switch_state \<Rightarrow> bool" where
  "enabled e s \<longleftrightarrow> known e s (de_local e) \<and> (\<exists>udid \<in> set (online_udids s). known e s udid)"

text \<open>Asking may fill the cache, open the library and connect to the profile service, and changes nothing else.\<close>

definition asked :: "dp_env \<Rightarrow> switch_state \<Rightarrow> switch_state \<Rightarrow> bool" where
  "asked e s s1 \<longleftrightarrow>
     s1\<lparr>enabledStatusCache := enabledStatusCache s, profile_proxy := profile_proxy s, release_timer := release_timer s, dpProxy := dpProxy s\<rparr> = s \<and>
     (keys_ok (enabledStatusCache s) \<longrightarrow> keys_ok (enabledStatusCache s1)) \<and> (profile_proxy s \<longrightarrow> profile_proxy s1) \<and>
     reached e s1 = reached e s \<and> known e s1 = known e s"

lemma asked_refl [simp]: "asked e s s"
  by (simp add: asked_def)

lemma known_cong:
  assumes "reached e s1 = reached e s" "map_of (enabledStatusCache s1) = map_of (enabledStatusCache s) \<or>
    udid \<noteq> [] \<and> map_of (enabledStatusCache s1) = (map_of (enabledStatusCache s))(udid \<mapsto> known e s udid)"
  shows "known e s1 = known e s"
proof
  fix x
  show "known e s1 x = known e s x"
  proof (cases "map_of (enabledStatusCache s1) = map_of (enabledStatusCache s)")
    case True
    then show ?thesis using assms(1) by (simp add: known_def split: option.split)
  next
    case False
    then have u: "udid \<noteq> []" "map_of (enabledStatusCache s1) = (map_of (enabledStatusCache s))(udid \<mapsto> known e s udid)" using assms(2) by auto
    show ?thesis
    proof (cases "x = udid")
      case True
      then show ?thesis using u by (subst known_def) simp
    qed (use u assms(1) in \<open>simp add: known_def split: option.split\<close>)
  qed
qed

lemma asked_trans: "asked e s s1 \<Longrightarrow> asked e s1 s2 \<Longrightarrow> asked e s s2"
  by (cases s; cases s1; cases s2) (simp add: asked_def)

lemma asked_fields:
  assumes "asked e s s1"
  shows "online_udids s1 = online_udids s" "config_status s1 = config_status s" "config_calls s1 = config_calls s" "config_watched s1 = config_watched s"
    "config_retrying s1 = config_retrying s" "retry_threads s1 = retry_threads s" "subscribeUdidList s1 = subscribeUdidList s"
    "config_registered s1 = config_registered s" "known e s1 = known e s" "keys_ok (enabledStatusCache s) \<Longrightarrow> keys_ok (enabledStatusCache s1)"
    "profile_proxy s \<Longrightarrow> profile_proxy s1"
  using assms by (cases s; cases s1; simp add: asked_def)+

lemma GetDeviceProfileService_eq:
  "\<exists>linked. GetDeviceProfileService e s = (reached e s, s\<lparr>dpProxy := linked\<rparr>) \<and> reached e (s\<lparr>dpProxy := linked\<rparr>) = reached e s"
  by (auto simp: GetDeviceProfileService_def reached_def intro: exI[of _ "dpProxy s"])

lemma map_of_Update [simp]: "map_of (enabledStatusCache (UpdateEnabledStatus udid b s)) = (map_of (enabledStatusCache s))(udid \<mapsto> b)"
  by (simp add: UpdateEnabledStatus_def lookup_ops fun_eq_iff split: option.split)

lemma keys_Update: "keys_ok (enabledStatusCache s) \<Longrightarrow> keys_ok (enabledStatusCache (UpdateEnabledStatus udid b s))"
  by (simp add: UpdateEnabledStatus_def keys_ok_ops)

lemma GetDeviceStatus_asks:
  assumes "GetDeviceStatus e udid s = (res, b, s1)"
  shows "asked e s s1" "res = E_OK \<and> b \<longleftrightarrow> known e s udid"
proof -
  let ?m = "enabledStatusCache s"
  have "asked e s s1 \<and> (res = E_OK \<and> b \<longleftrightarrow> known e s udid)"
  proof (cases "udid = []")
    case True
    then show ?thesis using assms by (auto simp: GetDeviceStatus_def known_def)
  next
    case False
    show ?thesis
    proof (cases "map_of ?m udid")
      case None
      obtain linked where g: "GetDeviceProfileService e (use_proxy s) = (reached e (use_proxy s), (use_proxy s)\<lparr>dpProxy := linked\<rparr>)"
        "reached e ((use_proxy s)\<lparr>dpProxy := linked\<rparr>) = reached e (use_proxy s)" using GetDeviceProfileService_eq by blast
      have r: "reached e (use_proxy s) = reached e s" "reached e ((use_proxy s)\<lparr>dpProxy := linked\<rparr>) = reached e s"
        using g(2) by (simp_all add: reached_def use_proxy_def)
      let ?s = "(use_proxy s)\<lparr>dpProxy := linked\<rparr>"
      have k: "asked e s (use_proxy s)" "asked e s ?s"
        using r known_cong[of e "use_proxy s" s] known_cong[of e ?s s] by (simp_all add: asked_def use_proxy_def)
      have u: "asked e s (UpdateEnabledStatus udid c ?s)" if "c = known e s udid" for c
      proof -
        have "reached e (UpdateEnabledStatus udid c ?s) = reached e s" using r(2) by (simp add: reached_def UpdateEnabledStatus_def)
        then show ?thesis
          using known_cong[of e "UpdateEnabledStatus udid c ?s" s udid] that False keys_Update[of ?s udid c]
          unfolding asked_def map_of_Update by (simp add: use_proxy_def UpdateEnabledStatus_def)
      qed
      show ?thesis
        using assms False None g(1) r(1) k u
        by (auto simp: GetDeviceStatus_def CM_ComputeIfPresent_def GetDeviceStatus_adapter_def GetCharacteristicProfile_def Str2Bool_def known_def STATUS_ENABLE_def Let_def
            split: if_splits prod.splits)
    next
      case (Some v)
      let ?c = "fst (snd (CM_ComputeIfPresent udid (Some (\<lambda>_ v _. (True, v, v))) ?m False))"
      have c: "map_of ?c = map_of ?m" using Some by (simp add: lookup_ops fun_eq_iff)
      have "res = E_OK \<and> b = v \<and> s1 = s\<lparr>enabledStatusCache := ?c\<rparr>"
        using assms False Some by (auto simp: GetDeviceStatus_def CM_ComputeIfPresent_def)
      moreover have "asked e s (s\<lparr>enabledStatusCache := ?c\<rparr>)"
        using known_cong[of e "s\<lparr>enabledStatusCache := ?c\<rparr>" s] c keys_ok_ops(8)[of ?m udid "Some (\<lambda>_ v _. (True, v, v))" False]
        by (simp add: asked_def reached_def)
      moreover have "known e s udid = v" using Some False by (simp add: known_def)
      ultimately show ?thesis by simp
    qed
  qed
  then show "asked e s s1" "res = E_OK \<and> b \<longleftrightarrow> known e s udid" by simp_all
qed

lemma any_enabled_eq:
  assumes "any_enabled e udids s = (res, s1)"
  shows "asked e s s1 \<and> res = (if \<exists>udid \<in> set udids. known e s udid then E_OK else NO_TRUST_DEVICE_ERROR)"
  using assms
proof (induction udids arbitrary: s)
  case (Cons udid udids)
  obtain r b s2 where g: "GetDeviceStatus e udid s = (r, b, s2)" by (meson prod_cases3)
  note a = GetDeviceStatus_asks[OF g]
  show ?case
  proof (cases "known e s udid")
    case False
    then have "any_enabled e udids s2 = (res, s1)" using Cons.prems a(2) by (auto simp: g)
    then show ?thesis using Cons.IH[of s2] asked_trans[OF a(1)] asked_fields(9)[OF a(1)] False by auto
  qed (use Cons.prems a in \<open>auto simp: g\<close>)
qed simp

lemma GetEnabledStatus_eq:
  assumes "GetEnabledStatus e s = (res, s1)"
  shows "asked e s s1 \<and> (res = E_OK \<longleftrightarrow> enabled e s) \<and> res \<noteq> DP_LOAD_SERVICE_ERROR"
proof -
  obtain r b s2 where g: "GetDeviceStatus e (de_local e) s = (r, b, s2)" by (meson prod_cases3)
  note a = GetDeviceStatus_asks[OF g]
  have n: "DP_LOAD_SERVICE_ERROR \<notin> {E_OK, NO_TRUST_DEVICE_ERROR, LOCAL_SWITCH_NOT_TURNED_ON}" "E_OK \<notin> {NO_TRUST_DEVICE_ERROR, LOCAL_SWITCH_NOT_TURNED_ON}"
    by (simp_all add: err_defs)
  show ?thesis
  proof (cases "known e s (de_local e)")
    case True
    then have "any_enabled e (online_udids s2) s2 = (res, s1)" using assms a(2) by (simp add: GetEnabledStatus_def g)
    then show ?thesis
      using any_enabled_eq[of e "online_udids s2" s2 res s1] asked_trans[OF a(1)] asked_fields(1,9)[OF a(1)] True n by (auto simp: enabled_def)
  next
    case False
    then have "res = LOCAL_SWITCH_NOT_TURNED_ON" "s1 = s2" using assms a(2) by (auto simp: GetEnabledStatus_def g split: if_splits)
    then show ?thesis using a(1) n False by (auto simp: enabled_def)
  qed
qed

section \<open>The status follows the switches\<close>

lemma Notify_config_eq:
  obtains s1 where "asked e s s1" "Notify_config e s = set_status (enabled e s) s1"
proof -
  obtain res s1 where g: "GetEnabledStatus e s = (res, s1)" by (meson surj_pair)
  note a = GetEnabledStatus_eq[OF g]
  have "Notify_config e s = set_status (enabled e s) s1" using a by (simp add: Notify_config_def g)
  then show thesis using that a by blast
qed

text \<open>C11: Clips cross devices exactly if the switch of this device and that of a device that is online are known to be on. After every
  notification the status is this condition, evaluated on the cached switches and, where none is cached, on the profiles the
  service delivers; \<open>IsOn\<close> answers it whenever a device is online. The observer is called with the new status exactly when it
  changes. A retry is never started: the code it waits for, \<open>DP_LOAD_SERVICE_ERROR\<close>, is replaced
  by \<open>LOCAL_SWITCH_NOT_TURNED_ON\<close> before it can be seen.\<close>

theorem distributed_status:
  "config_status (Notify_config e s) = enabled e s \<and>
   config_calls (Notify_config e s) = config_calls s @ (if config_watched s \<and> config_status s \<noteq> enabled e s then [enabled e s] else []) \<and>
   retry_threads (Notify_config e s) = retry_threads s \<and> config_retrying (Notify_config e s) = config_retrying s \<and>
   fst (IsOn e s) = (if online_udids s = [] then config_status s else enabled e s)"
proof -
  obtain s1 where n: "asked e s s1" "Notify_config e s = set_status (enabled e s) s1" by (rule Notify_config_eq)
  show ?thesis using n(2) asked_fields[OF n(1)] by (simp add: IsOn_def set_status_def Let_def)
qed

section \<open>Versions\<close>

definition version_of :: "dp_env \<Rightarrow> switch_state \<Rightarrow> string \<Rightarrow> u32 option" where
  "version_of e s udid =
     (if udid \<noteq> [] \<and> de_adapter e \<and> reached e s \<and> fst (de_profile e udid PROFILE_SERVICE_ID) = DP_SUCCESS e
      then map_option word_of_int (de_json e (snd (de_profile e udid PROFILE_SERVICE_ID))) else None)"

definition versions :: "dp_env \<Rightarrow> switch_state \<Rightarrow> string list \<Rightarrow> u32 list" where
  "versions e s udids = List.map_filter (\<lambda>udid. if known e s udid then version_of e s udid else None) udids"

lemma versions_simps [simp]:
  "versions e s [] = []"
  "versions e s (udid # udids) =
     (if known e s udid then (case version_of e s udid of None \<Rightarrow> [] | Some v \<Rightarrow> [v]) else []) @ versions e s udids"
  by (auto simp: versions_def List.map_filter_simps split: option.split)

lemma GetDeviceVersion_asks:
  assumes "GetDeviceVersion e udid s = (v, s1)"
  shows "asked e s s1" "DP_GET_SERVICE_FAILED e \<noteq> DP_SUCCESS e \<Longrightarrow> v = version_of e s udid"
proof -
  obtain linked where g: "GetDeviceProfileService e (use_proxy s) = (reached e (use_proxy s), (use_proxy s)\<lparr>dpProxy := linked\<rparr>)"
    "reached e ((use_proxy s)\<lparr>dpProxy := linked\<rparr>) = reached e (use_proxy s)" using GetDeviceProfileService_eq by blast
  have r: "reached e (use_proxy s) = reached e s" by (simp add: reached_def use_proxy_def)
  have k: "asked e s (use_proxy s)" "asked e s ((use_proxy s)\<lparr>dpProxy := linked\<rparr>)"
    using r g(2) known_cong[of e "use_proxy s" s] known_cong[of e "(use_proxy s)\<lparr>dpProxy := linked\<rparr>" s] by (simp_all add: asked_def use_proxy_def)
  show "asked e s s1" "DP_GET_SERVICE_FAILED e \<noteq> DP_SUCCESS e \<Longrightarrow> v = version_of e s udid"
    using assms k g(1) r by (auto simp: GetDeviceVersion_def GetDeviceVersion_adapter_def GetCharacteristicProfile_def version_of_def Let_def split: if_splits prod.splits)
qed

lemma version_loop_asks: "asked e s (snd (version_loop e udids (lohi, s)))"
proof (induction udids arbitrary: s lohi)
  case (Cons udid udids)
  obtain res b s2 where g: "GetDeviceStatus e udid s = (res, b, s2)" by (meson prod_cases3)
  obtain v s3 where w: "GetDeviceVersion e udid s2 = (v, s3)" by (meson surj_pair)
  have a: "asked e s s2" "asked e s s3" using GetDeviceStatus_asks(1)[OF g] GetDeviceVersion_asks(1)[OF w] asked_trans by blast+
  show ?case using asked_trans[OF a(1) Cons.IH] asked_trans[OF a(2) Cons.IH] by (cases lohi; cases v) (simp_all add: g w)
qed simp

lemma version_of_asked: "asked e s s1 \<Longrightarrow> version_of e s1 = version_of e s"
  by (auto simp: version_of_def asked_def fun_eq_iff)

lemma version_loop_eq:
  assumes "DP_GET_SERVICE_FAILED e \<noteq> DP_SUCCESS e" "version_loop e udids ((lo, hi), s) = (r, s1)"
  shows "asked e s s1 \<and> r = (fold min (versions e s udids) lo, fold max (versions e s udids) hi)"
  using assms(2)
proof (induction udids arbitrary: s lo hi)
  case (Cons udid udids)
  obtain res b s2 where g: "GetDeviceStatus e udid s = (res, b, s2)" by (meson prod_cases3)
  note a = GetDeviceStatus_asks[OF g]
  have vs: "versions e s' = versions e s" if "asked e s s'" for s'
    unfolding versions_def[abs_def] version_of_asked[OF that] asked_fields(9)[OF that] by (rule refl)
  show ?case
  proof (cases "known e s udid")
    case False
    then have "version_loop e udids ((lo, hi), s2) = (r, s1)" using Cons.prems a(2) by (auto simp: g split: if_splits)
    then show ?thesis using Cons.IH[of lo hi s2] asked_trans[OF a(1)] vs[OF a(1)] False by auto
  next
    case True
    obtain v s3 where w: "GetDeviceVersion e udid s2 = (v, s3)" by (meson surj_pair)
    note x = GetDeviceVersion_asks(1)[OF w] GetDeviceVersion_asks(2)[OF w assms(1)]
    have y: "asked e s s3" by (rule asked_trans[OF a(1) x(1)])
    have v: "version_of e s udid = v" using x(2) version_of_asked[OF a(1)] by simp
    have m: "(if lo < w then lo else w) = min w lo" "(if hi > w then hi else w) = max w hi" for w by (auto simp: min_def max_def)
    show ?thesis
      using Cons.prems a(2) True Cons.IH[of _ _ s3] asked_trans[OF y] vs[OF y] v
      by (cases v) (auto simp: g w m)
  qed
qed simp

text \<open>The range of versions the service adapts its messages to. \<open>GetRemoteDeviceVersion\<close> gives the least and the greatest version among the devices
  that are online, known to be enabled and have a readable version; without such a device the least version is the
  greatest number and the greatest version is 0. Asking changes neither the status nor what is known of any device.\<close>

theorem remote_version_range:
  assumes "DP_GET_SERVICE_FAILED e \<noteq> DP_SUCCESS e" "GetRemoteDeviceVersion e s = ((lo, hi), s1)"
  shows "lo = Min (insert (- 1) (set (versions e s (online_udids s)))) \<and> hi = Max (insert 0 (set (versions e s (online_udids s)))) \<and>
    config_status s1 = config_status s \<and> (\<forall>udid. known e s1 udid = known e s udid)"
proof -
  have "asked e s s1 \<and> (lo, hi) = (fold min (versions e s (online_udids s)) (- 1), fold max (versions e s (online_udids s)) 0)"
    using version_loop_eq[OF assms(1), of "online_udids s" "- 1" 0 s "(lo, hi)" s1] assms(2) by (simp add: GetRemoteDeviceVersion_def)
  then show ?thesis
    using asked_fields(2,9)[of e s s1] by (simp add: Min.set_eq_fold[symmetric] Max.set_eq_fold[symmetric])
qed

text \<open>Three devices that are online: one is off, the others have the versions 17 and 13.\<close>

definition sample_profiles :: dp_env where
  "sample_profiles = \<lparr>de_local = ''me'', de_udid = (\<lambda>n. n), de_adapter = True, de_samgr = True, de_running = True, de_load = 0, de_loaded = False,
     de_profile = (\<lambda>udid service. if service = SWITCH_ID then (0, if udid = ''b'' then ''0'' else ''1'') else (0, udid)),
     de_put = 0, de_subscribe = 0, de_unsubscribe = 0, de_json = (\<lambda>v. if v = ''a'' then Some 17 else Some 13), de_new = True, de_unloads = True,
     de_helper = (\<lambda>_. True), de_query = (\<lambda>_ _. None), DS_E_OK = 0, DP_SUCCESS = 0, DP_CACHE_EXIST = 1, DP_GET_SERVICE_FAILED = 2, DP_EXCEED_MAX_SIZE_FAIL = 3, MAX_SUBSCRIBE_INFO_SIZE = 500\<rparr>"

theorem remote_version_range_witness:
  "fst (GetRemoteDeviceVersion sample_profiles (new_switch\<lparr>online_udids := [''a'', ''b'', ''c'']\<rparr>)) = (13, 17)"
proof -
  let ?s = "new_switch\<lparr>online_udids := [''a'', ''b'', ''c'']\<rparr>"
  obtain lo hi s1 where g: "GetRemoteDeviceVersion sample_profiles ?s = ((lo, hi), s1)" by (metis surj_pair)
  have v: "versions sample_profiles ?s (online_udids ?s) = [17, 13]"
    by (simp add: known_def version_of_def reached_def sample_profiles_def new_switch_def SWITCH_ID_def PROFILE_SERVICE_ID_def STATUS_ENABLE_def)
  have "DP_GET_SERVICE_FAILED sample_profiles \<noteq> DP_SUCCESS sample_profiles" by (simp add: sample_profiles_def)
  from remote_version_range[OF this g] have "lo = 13 \<and> hi = 17" unfolding v by simp
  then show ?thesis using g by simp
qed

section \<open>Every sequence of events\<close>

datatype switch_event =
    DeviceOnline dp_env bool string
  | DeviceOffline dp_env string
  | ProfileUpdate dp_env string string
  | SwitchStarted dp_env bool bool i32
  | SwitchChanged dp_env
  | SwitchStopped dp_env
  | AskedCollab dp_env i32
  | AskedIsOn dp_env
  | AskedVersion dp_env
  | ProfileServiceAdded dp_env
  | ProfileServiceRemoved dp_env
  | ReleaseTimer dp_env
  | RetryThread "nat \<Rightarrow> dp_env"
  | Stopped

text \<open>A timer fires and a thread runs only after it was started.\<close>

fun switch_step :: "switch_event \<Rightarrow> switch_state \<Rightarrow> switch_state" where
  "switch_step (DeviceOnline e identical networkId) s = OnDeviceOnline e identical networkId s"
| "switch_step (DeviceOffline e networkId) s = OnDeviceOffline e networkId s"
| "switch_step (ProfileUpdate e udid value) s = OnCharacteristicProfileUpdate e udid value s"
| "switch_step (SwitchStarted e disabled hmlSupported userId) s = PastedSwitch_Init e disabled hmlSupported userId s"
| "switch_step (SwitchChanged e) s = SetSwitch e (switch_userId s) s"
| "switch_step (SwitchStopped e) s = PastedSwitch_DeInit e s"
| "switch_step (AskedCollab e userId) s = snd (GetDeviceCollabSwitch e userId s)"
| "switch_step (AskedIsOn e) s = snd (IsOn e s)"
| "switch_step (AskedVersion e) s = snd (GetRemoteDeviceVersion e s)"
| "switch_step (ProfileServiceAdded e) s = snd (SendSubscribeInfos e s)"
| "switch_step (ProfileServiceRemoved e) s = ClearDeviceProfileService e s"
| "switch_step (ReleaseTimer e) s = (if release_timer s then release_task e s else s)"
| "switch_step (RetryThread es) s = (if retry_threads s > 0 then (GetRetryTask es s)\<lparr>retry_threads := retry_threads s - 1\<rparr> else s)"
| "switch_step Stopped s = DeInit_config s"

definition switch_ok :: "switch_state \<Rightarrow> bool" where
  "switch_ok s \<longleftrightarrow> keys_ok (enabledStatusCache s) \<and> distinct (online_udids s) \<and> [] \<notin> set (online_udids s) \<and> distinct (subscribeUdidList s) \<and>
     (subscribeUdidList s \<noteq> [] \<longrightarrow> profile_proxy s) \<and> config_watched s \<and>
     distinct_adj (False # config_calls s) \<and> config_status s = last (False # config_calls s) \<and> retry_threads s = 0 \<and> \<not> config_retrying s"

lemma ok_asked: "asked e s s1 \<Longrightarrow> switch_ok s \<Longrightarrow> switch_ok s1"
  using asked_fields[of e s s1] by (auto simp: switch_ok_def)

lemma ok_set_status: "switch_ok s \<Longrightarrow> switch_ok (set_status b s)"
  by (auto simp: switch_ok_def set_status_def Let_def distinct_adj_append_iff simp flip: append_Cons)

lemma ok_Notify: "switch_ok s \<Longrightarrow> switch_ok (Notify_config e s)"
  by (rule Notify_config_eq[of e s]) (simp add: ok_asked ok_set_status)

text \<open>Fields the invariant does not mention.\<close>

definition switch_quiet :: "switch_state \<Rightarrow> switch_state \<Rightarrow> bool" where
  "switch_quiet s s1 \<longleftrightarrow> (\<exists>linked cache infos callback.
     s1 = s\<lparr>dpProxy := linked, subscribeInfoCache := cache, subscribeInfos := infos, update_callback := callback\<rparr>)"

lemma switch_quietI: "s1 = s\<lparr>dpProxy := dpProxy s1, subscribeInfoCache := subscribeInfoCache s1, subscribeInfos := subscribeInfos s1, update_callback := update_callback s1\<rparr> \<Longrightarrow> switch_quiet s s1"
  unfolding switch_quiet_def by blast

lemma ok_silent: "switch_quiet s s1 \<Longrightarrow> switch_ok s \<Longrightarrow> switch_ok s1"
  by (auto simp: switch_quiet_def switch_ok_def)

lemma adapter_silent:
  "switch_quiet s (snd (SubscribeProfileEvent_adapter e udid s))" "switch_quiet s (snd (UnSubscribeProfileEvent_adapter e udid s))"
  "switch_quiet s (snd (SendSubscribeInfos_adapter e s))" "switch_quiet s (snd (PutDeviceStatus_adapter e s))"
  by (rule switch_quietI; simp add: SubscribeProfileEvent_adapter_def UnSubscribeProfileEvent_adapter_def SendSubscribeInfos_adapter_def PutDeviceStatus_adapter_def
      SubscribeDeviceProfile_def UnSubscribeDeviceProfile_def PutCharacteristicProfile_def GetDeviceProfileService_def split: prod.split)+

lemma ok_use: "switch_ok s \<Longrightarrow> switch_ok (use_proxy s)"
  by (simp add: switch_ok_def use_proxy_def)

lemma ok_Update: "switch_ok s \<Longrightarrow> switch_ok (UpdateEnabledStatus udid b s)"
  by (auto simp: switch_ok_def UpdateEnabledStatus_def keys_ok_ops)

lemma ok_Put: "switch_ok s \<Longrightarrow> switch_ok (PutDeviceStatus e b s)"
  using ok_silent[OF adapter_silent(4)[of "use_proxy (UpdateEnabledStatus (de_local e) b s)" e]] ok_use[OF ok_Update[of s "de_local e" b]] ok_Notify
  by (auto simp: PutDeviceStatus_def DevProfile_Notify_def Let_def ok_use ok_Update split: prod.splits)

lemma use_fields [simp]: "profile_proxy (use_proxy s)" "subscribeUdidList (use_proxy s) = subscribeUdidList s"
  by (simp_all add: use_proxy_def)

lemma ok_Subscribe: "switch_ok s \<Longrightarrow> switch_ok (SubscribeProfileEvent e udid s)"
proof -
  assume s: "switch_ok s"
  let ?s = "(use_proxy s)\<lparr>update_callback := True\<rparr>"
  have q: "switch_quiet ?s (snd (SubscribeProfileEvent_adapter e udid ?s))" by (rule adapter_silent(1))
  have "switch_ok ?s" using ok_use[OF s] by (simp add: switch_ok_def)
  with q have "switch_ok ((snd (SubscribeProfileEvent_adapter e udid ?s))\<lparr>subscribeUdidList := List.insert udid (subscribeUdidList (snd (SubscribeProfileEvent_adapter e udid ?s)))\<rparr>)"
    by (auto simp: switch_ok_def switch_quiet_def)
  then show ?thesis using ok_use[OF s] s by (simp add: SubscribeProfileEvent_def Let_def case_prod_unfold)
qed

lemma ok_UnSubscribe: "switch_ok s \<Longrightarrow> switch_ok (UnSubscribeProfileEvent e udid s)"
proof -
  assume s: "switch_ok s"
  let ?s = "use_proxy s"
  have q: "switch_quiet ?s (snd (UnSubscribeProfileEvent_adapter e udid ?s))" by (rule adapter_silent(2))
  with ok_use[OF s] have "switch_ok ((snd (UnSubscribeProfileEvent_adapter e udid ?s))\<lparr>subscribeUdidList := removeAll udid (subscribeUdidList (snd (UnSubscribeProfileEvent_adapter e udid ?s)))\<rparr>)"
    by (auto simp: switch_ok_def switch_quiet_def distinct_removeAll)
  then show ?thesis using ok_use[OF s] s by (simp add: UnSubscribeProfileEvent_def Let_def case_prod_unfold)
qed

lemma ok_Online: "switch_ok s \<Longrightarrow> switch_ok (Online_config e udid s)"
  using GetDeviceStatus_asks(1)[of e udid "SubscribeProfileEvent e udid s"] ok_asked ok_Notify ok_Subscribe
  by (fastforce simp: Online_config_def split: prod.splits)

lemma ok_Offline: "switch_ok s \<Longrightarrow> switch_ok (Offline_config e udid s)"
  unfolding Offline_config_def by (intro ok_Notify) (use ok_UnSubscribe[of s e udid] in \<open>auto simp: switch_ok_def EraseEnabledStatus_def keys_ok_ops\<close>)

lemma ok_Send: "switch_ok s \<Longrightarrow> switch_ok (snd (SendSubscribeInfos e s))"
  using ok_silent[OF adapter_silent(3)[of "use_proxy s" e]] ok_use[of s] by (simp add: SendSubscribeInfos_def Let_def)

lemma ok_Clear: "switch_ok s \<Longrightarrow> switch_ok (ClearDeviceProfileService e s)"
  by (auto simp: ClearDeviceProfileService_def switch_ok_def Let_def CM_Clear_def keys_ok_def)

lemma ok_release: "switch_ok s \<Longrightarrow> switch_ok (release_task e s)"
  by (auto simp: release_task_def switch_ok_def Let_def)

lemma ok_devices: "switch_ok s \<Longrightarrow> udid \<noteq> [] \<Longrightarrow> switch_ok (s\<lparr>online_udids := List.insert udid (online_udids s)\<rparr>)"
  "switch_ok s \<Longrightarrow> switch_ok (s\<lparr>online_udids := removeAll udid (online_udids s)\<rparr>)"
  by (auto simp: switch_ok_def distinct_removeAll)

lemma ok_settings:
  "switch_ok s \<Longrightarrow> switch_ok (SetUserId_share userId s)" "switch_ok s \<Longrightarrow> switch_ok (s\<lparr>switch_userId := userId\<rparr>)"
  "switch_ok s \<Longrightarrow> switch_ok (RegisterObserver e key s)" "switch_ok s \<Longrightarrow> switch_ok (UnregisterObserver e key s)"
  "switch_ok s \<Longrightarrow> switch_ok (DeInit_config s)"
  by (auto simp: switch_ok_def SetUserId_share_def RegisterObserver_def UnregisterObserver_def DeInit_config_def)

lemma ok_SetSwitch: "switch_ok s \<Longrightarrow> switch_ok (SetSwitch e userId s)"
  by (simp add: SetSwitch_def Let_def ok_Put ok_settings)

lemma ok_step: "switch_ok s \<Longrightarrow> switch_ok (switch_step ev s)"
proof (cases ev)
  case (AskedVersion e)
  then show "switch_ok s \<Longrightarrow> ?thesis" using ok_asked[OF version_loop_asks] by (simp add: GetRemoteDeviceVersion_def)
next
  case (RetryThread es)
  then show "switch_ok s \<Longrightarrow> ?thesis" by (simp add: switch_ok_def)
qed (simp_all add: OnDeviceOnline_def OnDeviceOffline_def online_task_def offline_task_def AddDevice_def RemoveDevice_def OnCharacteristicProfileUpdate_def OnProfileUpdate_def DevProfile_Notify_def IsOn_def Let_def
    PastedSwitch_Init_def PastedSwitch_DeInit_def GetDeviceCollabSwitch_def ok_settings ok_SetSwitch case_prod_unfold
    ok_Online ok_Offline ok_devices ok_Notify ok_Update ok_Put ok_Send ok_Clear ok_release)


section \<open>The switch of the user\<close>

lemma known_put:
  assumes "de_local e \<noteq> []"
  shows "known e (PutDeviceStatus e b s) (de_local e) = b"
proof -
  let ?u = "use_proxy (UpdateEnabledStatus (de_local e) b s)"
  have c: "map_of (enabledStatusCache ?u) (de_local e) = Some b" by (simp add: use_proxy_def)
  have q: "switch_quiet ?u (snd (PutDeviceStatus_adapter e ?u))" by (rule adapter_silent(4))
  have k: "known e s1 (de_local e) = b" if "switch_quiet ?u s1" for s1 using that c assms by (auto simp: switch_quiet_def known_def)
  have n: "known e (Notify_config e s1) (de_local e) = known e s1 (de_local e)" for s1
  proof -
    obtain s2 where a: "asked e s1 s2" "Notify_config e s1 = set_status (enabled e s1) s2" by (rule Notify_config_eq)
    have "known e (set_status x s2) = known e s2" for x by (rule known_cong) (simp_all add: reached_def set_status_def Let_def)
    then show ?thesis using a asked_fields(9)[OF a(1)] by simp
  qed
  have "known e ?u (de_local e) = b" using c assms by (simp add: known_def)
  then show ?thesis using k[OF q] n assms by (simp add: PutDeviceStatus_def DevProfile_Notify_def Let_def case_prod_unfold)
qed

text \<open>The switch of this device is off exactly if the setting was read and is not \<open>1\<close>: a setting that cannot be read turns it on.\<close>

lemma user_switch_obeyed:
  assumes "de_local e \<noteq> []"
  shows "known e (SetSwitch e userId s) (de_local e) \<longleftrightarrow>
    snd (GetValue_share e DISTRIBUTED_PASTEBOARD_SWITCH (SetUserId_share userId s)) \<in> {[], SUPPORT_STATUS}"
  using known_put[OF assms] by (auto simp: SetSwitch_def Let_def)

section \<open>A subscription that fails\<close>

text \<open>The device a profile listener could not be registered for stays in the cache of the adapter: it is refused as a duplicate
  from then on, and the list the client sends to a profile service that starts again does not have it.\<close>

lemma subscription_lost:
  assumes "\<not> reached e s" "udid \<notin> set (subscribeInfoCache s)" "udid \<notin> set (subscribeInfos s)" "de_new e"
    "SubscribeProfileEvent_adapter e udid s = (ret, s1)"
  shows "SubscribeProfileEvent_adapter e' udid s1 = (INVALID_PARAM_ERROR, s1)" "udid \<notin> set (fst (SendSubscribeInfos_adapter e' s1))"
proof -
  have m: "udid \<in> set (subscribeInfoCache s1)" "udid \<notin> set (subscribeInfos s1)"
    using assms by (auto simp: SubscribeProfileEvent_adapter_def SubscribeDeviceProfile_def GetDeviceProfileService_def reached_def split: if_splits)
  show "SubscribeProfileEvent_adapter e' udid s1 = (INVALID_PARAM_ERROR, s1)" using m(1) by (simp add: SubscribeProfileEvent_adapter_def)
  show "udid \<notin> set (fst (SendSubscribeInfos_adapter e' s1))"
    using m(2) by (simp add: SendSubscribeInfos_adapter_def GetDeviceProfileService_def)
qed

end
