(* ===== verification/Spec2Isabelle.thy ===== *)
theory Spec2Isabelle
  imports Data_Tlv Dedup Disposable Observers Web_Roundtrip Service_Requests Mime_Types
    Uri_Grant_Safe P2p_Safe Distributed_Send Paste_Request Record_Value_Safe Patterns_Spec Entity_Safe Service_Queries
    Client_Observers Client_Progress Client_Fetch Device_Switch
begin

text \<open>
  \<^bold>\<open>Verification of the OpenHarmony pasteboard\<close>

  \<^bold>\<open>The program.\<close> The pasteboard is a system service with a client library. An application makes a \<open>PasteData\<close>, a list of
  records with entries of several types, and copies it: the client library serializes it (type, length, value), passes it in a message or in shared memory, and
  the service stores one clip for each user, with a copy time that a timer removes. Another application pastes:
  the service checks who asks, fetches values the owner delayed, prepares URIs and HTML for the reader, and
  sends the bytes back; the client decodes them and copies files. The service announces clips to
  other devices, transfers clips from them, keeps links for the transfer of remote files, notifies
  observers, answers queries about types and patterns, and enforces share options set by the device management.

  \<^bold>\<open>Foundations.\<close>
  \<^item> \<open>Prelude\<close>: machine types, strings as bytes, little-endian numbers, \<open>std::map\<close> as a sorted association list, the \<open>run\<close> type
    (\<open>None\<close> is the dereference of a null pointer), and the collections of facts. \<open>Decimal\<close>: \<open>std::to_string\<close>.
    \<open>Errors\<close>: the codes of \<open>utils/native/include/pasteboard_error.h\<close>.
  \<^item> \<open>External\<close>: what the sources call and do not contain, as one record of parameters, with the hypotheses
    (\<open>want_codec_ok\<close>, \<open>utd_ok\<close>, \<open>object_get_ok\<close> and others) that theorems name.

  \<^bold>\<open>Serialization\<close> (\<open>framework/tlv\<close>, \<open>framework/innerkits/src/paste_data*.cpp\<close>).
  \<^item> \<open>Endian\<close>, \<open>Tlv_Write\<close>, \<open>Tlv_Read\<close>: the buffers. A store outside the vector raises the flag \<open>oob\<close>, a load
    outside it is \<open>ROob\<close>. A loop of the reader runs with as much fuel as the buffer has bytes; every iteration reads a head of six
    bytes, and the proofs show that \<open>RFuel\<close> never occurs.
  \<^item> \<open>Tlv_Emit\<close>, \<open>Tlv_Parse\<close>, \<open>Tlv_Safe\<close>: what writers emit, what readers consume, and that every reader is safe on every
    input. The locale \<open>tlv_decoder\<close> is the contract of a decoder, \<open>tlv_class\<close> extends it to a serializable class
    (emitted encoding, covering count, exact decoding); it is interpreted for custom data, entries, records
    in both formats, properties and paste data.
  \<^item> \<open>Paste_Entry\<close>, \<open>Paste_Record\<close>, \<open>Paste_Data\<close>, \<open>Record_Tlv\<close>, \<open>Data_Tlv\<close>, \<open>Decode_Ok\<close>: the data classes with their getters, builders and
    conversions, both formats, round trips, totality of the decoders on arbitrary bytes, and that decoded data has no null pointers.

  \<^bold>\<open>Containers and timers.\<close>
  \<^item> \<open>Concurrent_Map\<close> (locale \<open>kv_store\<close>, interpretation \<open>cm\<close>), \<open>Linked_List\<close> on a store of nodes (locale \<open>sequence_store\<close>, interpretation \<open>ll\<close>),
    \<open>Dedup\<close>, a client of that contract, and \<open>Ffrt_Timer\<close> (locale \<open>named_timers\<close>, interpretation \<open>ffrt\<close>, on which the links rely).
    Each refines its abstract type: finite maps, sequences, sets of armed names.

  \<^bold>\<open>HTML and files of the web\<close> (\<open>pasteboard_web_controller.cpp\<close>, \<open>pasteboard_img_extractor.cpp\<close>).
  \<^item> \<open>Web_Html\<close>, \<open>Web_Controller\<close>, \<open>Web_Roundtrip\<close>: splitting HTML into records, translating and writing back the
    sources of images, equal to a reference that rewrites the text in one pass.

  \<^bold>\<open>The service\<close> (\<open>services/core/src/pasteboard_service.cpp\<close>).
  \<^item> \<open>Service_State\<close>, \<open>Service_Copy\<close>, \<open>Service_Paste\<close>: the state as a record, callers, permissions, validity, copying, clearing, reading
    of the local clip and the queries. \<open>Service_Safety\<close> refines an abstract clipboard with one clip for each user, \<open>Service_Total\<close> shows that
    requests return, \<open>Service_Requests\<close> has the step relation of all requests, timers and events with the
    invariant of the reachable states.
  \<^item> \<open>Service_Read\<close>, \<open>Remote_Tasks\<close>, \<open>Paste_Request\<close>: the paste request as a whole, local and remote, with shared transfers.
    \<open>Record_Value\<close>, \<open>Record_Value_Safe\<close>, \<open>Delay\<close>: delayed values. \<open>Service_Queries\<close>, \<open>Mime_Types\<close>: queries about remote clips.
  \<^item> \<open>Uri_Grant\<close>, \<open>Uri_Grant_Safe\<close>: URI permissions and distributed URIs. \<open>P2p_Links\<close>, \<open>P2p_Safe\<close>: the links of
    remote pastes under every interleaving of requests, timers and threads. \<open>Distributed_Send\<close>: the sending threads.
  \<^item> \<open>Share_Options\<close>, \<open>Observers\<close>, \<open>Disposable\<close> (\<open>pasteboard_disposable_manager.cpp\<close>), \<open>Entity_Observers\<close>, \<open>Entity_Safe\<close>: who may read, who is told.
    \<open>Regex\<close>, \<open>Patterns\<close>, \<open>Patterns_Spec\<close> (\<open>pasteboard_pattern.cpp\<close>): a backtracking matcher, its reference relation, and what the patterns mean.

  \<^bold>\<open>The distributed switch\<close> (\<open>framework/framework/device\<close>, \<open>adapter\<close>, \<open>services/switch\<close>).
  \<^item> \<open>Device_Profile\<close>: the devices that are online, the cache of their switches, the subscriptions and the client of the profile service, the
    setting of the user, and the status derived from them. \<open>Device_Switch\<close>: the status is the conjunction of the switches as far as they are known,
    the range of versions, the invariant through every sequence of events, and a subscription that is lost. In the theories of
    the service the status shows as \<open>has_plugin\<close> and the least version as \<open>rm_min_version\<close>.

  \<^bold>\<open>The client\<close> (\<open>framework/innerkits/src\<close>).
  \<^item> \<open>Shared_Memory\<close>: \<open>MessageParcelWarp\<close>. \<open>Client\<close>: copying and pasting, composed with the requests of the service, so that its theorems
    speak about what crosses the process boundary. \<open>Client_Fetch\<close>: delayed values. \<open>Client_Files\<close>: \<open>pasteboard_copy.cpp\<close>. \<open>Client_Progress\<close>:
    pasting with progress and its signals. \<open>Client_Observers\<close>: the service loader, subscriptions and restarts.

  \<^bold>\<open>Conventions.\<close> An operation returns the values it returns in C++ and the state after it; errors are
  the codes of the source. Integers keep their width where they can wrap (\<open>i32\<close>, \<open>u32\<close>, \<open>i64\<close>, \<open>u64\<close>); \<open>size_t\<close> values that the
  address space bounds are natural numbers. A method that holds a lock for its body is one step; where threads interleave there is
  a step relation or a sequence of events. Clocks, answers of other services, allocation and the kernel are parameters:
  \<open>ext\<close>, \<open>svc_env\<close>, \<open>remote_env\<close>, \<open>web_env\<close>, \<open>grant_env\<close>, \<open>mem_env\<close>, \<open>client_env\<close>, \<open>link_env\<close>, \<open>copy_env\<close>, \<open>progress_env\<close>, \<open>dp_env\<close>. Where the code ignores the result
  of a \<open>Decode\<close> that failed, what it leaves behind is a parameter too (\<open>rm_leftover\<close>, \<open>rm_entry_leftover\<close>, \<open>cl_leftover\<close>). In \<open>Client\<close> and
  \<open>Client_Progress\<close> the fetching of delayed values is the parameter \<open>cl_fetch\<close>; \<open>Client_Fetch\<close> says what such a call returns.
  Except for the reader of the buffers every loop is a total function, with a measure where the recursion is not structural,
  or a \<open>partial_function\<close> whose result is proved to exist (\<open>Linked_List\<close>).

  \<^bold>\<open>Not modelled.\<close> Logging, traces and reports to the event service, which do not change the state; dumping; the start, stop and
  registration of the service with the system; the distributed plugin, the device manager, and the loading of libraries; conversions to the unified data
  format, whose classes are not part of the sources; the bindings for JavaScript, ArkTS, Cangjie and C, which
  translate arguments and call the client; thin wrappers of the client that forward one call.
\<close>

end
